(* ===== verification/Ptp_Prelude.thy ===== *)
theory Ptp_Prelude
  imports Main "HOL-Library.Word" "HOL-Library.Signed_Division"
begin

text \<open>
  Shared vocabulary of the development: the machine types of the C sources, big-endian
  byte access, the C division on signed integers, the "increment and skip zero" counters
  that the daemon uses for generations, serials and revisions, and the two interfaces
  (locales) that several components provide: a freshness window and a one-outstanding-token
  transmission schedule.

  Conventions used by every theory.  An unsigned integer of width w is a w-bit word and
  wraps.  A signed integer is an \<^typ>\<open>int\<close>: overflow of a signed integer is undefined
  behaviour in C, so the model computes the mathematical value and the development proves,
  where the code relies on it, that the values stay in range (\<open>in_i64\<close>, \<open>in_i32\<close>).
  An array of octets is a list of bytes.  A pointer argument that the code tests against
  NULL is an \<^typ>\<open>'a option\<close>; an output pointer is a component of the result.
\<close>

section \<open>Machine types\<close>

type_synonym u8 = "8 word"
type_synonym u16 = "16 word"
type_synonym u32 = "32 word"
type_synonym u64 = "64 word"
type_synonym bytes = "u8 list"

named_theorems ptp_defs \<open>definitions of the model that proofs unfold together\<close>
named_theorems field_simps_ptp \<open>which fields an operation leaves unchanged\<close>

abbreviation INT64_MAX :: int where "INT64_MAX \<equiv> 9223372036854775807"
abbreviation INT64_MIN :: int where "INT64_MIN \<equiv> -9223372036854775808"
abbreviation INT32_MAX :: int where "INT32_MAX \<equiv> 2147483647"
abbreviation UINT16_MAX :: u16 where "UINT16_MAX \<equiv> 65535"

definition in_i64 :: "int \<Rightarrow> bool" where
  "in_i64 x \<longleftrightarrow> INT64_MIN \<le> x \<and> x \<le> INT64_MAX"

definition in_i32 :: "int \<Rightarrow> bool" where
  "in_i32 x \<longleftrightarrow> - 2147483648 \<le> x \<and> x \<le> INT32_MAX"

definition in_i8 :: "int \<Rightarrow> bool" where
  "in_i8 x \<longleftrightarrow> - 128 \<le> x \<and> x \<le> 127"

lemma in_i64I: "\<bar>x\<bar> \<le> INT64_MAX \<Longrightarrow> in_i64 x"
  by (simp add: in_i64_def abs_le_iff)

lemma in_i32I: "\<bar>x\<bar> \<le> INT32_MAX \<Longrightarrow> in_i32 x"
  by (simp add: in_i32_def abs_le_iff)

section \<open>Clamping\<close>

definition clamp :: "int \<Rightarrow> int \<Rightarrow> int" where
  "clamp limit x = (let y = (if x > limit then limit else x)
                    in if y < - limit then - limit else y)"

lemma clamp_bounds: "0 \<le> l \<Longrightarrow> - l \<le> clamp l x \<and> clamp l x \<le> l"
  by (simp add: clamp_def Let_def)

lemma abs_clamp_le: "0 \<le> l \<Longrightarrow> \<bar>clamp l x\<bar> \<le> l"
  using clamp_bounds [of l x] by linarith

lemma clamp_id: "- l \<le> x \<Longrightarrow> x \<le> l \<Longrightarrow> clamp l x = x"
  by (simp add: clamp_def Let_def)

lemma clamp_mono: "0 \<le> l \<Longrightarrow> x \<le> y \<Longrightarrow> clamp l x \<le> clamp l y"
  by (simp add: clamp_def Let_def)

section \<open>C division\<close>

text \<open>\<open>sdiv\<close> and \<open>smod\<close> of the library truncate towards zero, as C's \<open>/\<close> and \<open>%\<close> do.\<close>

lemma sdiv_pos: "0 \<le> (a::int) \<Longrightarrow> 0 < b \<Longrightarrow> a sdiv b = a div b"
  by (cases "a = 0") (simp_all add: signed_divide_int_def)

lemma smod_pos: "0 \<le> (a::int) \<Longrightarrow> 0 < b \<Longrightarrow> a smod b = a mod b"
proof -
  assume "0 \<le> a" "0 < b"
  moreover have "a smod b = a - a sdiv b * b"
    using sdiv_mult_smod_eq [of a b] by linarith
  ultimately show ?thesis
    by (simp add: sdiv_pos minus_div_mult_eq_mod)
qed

lemma abs_sdiv: "\<bar>(a::int) sdiv b\<bar> = \<bar>a\<bar> div \<bar>b\<bar>"
  by (cases "a = 0"; cases "b = 0") (simp_all add: signed_divide_int_def abs_mult pos_imp_zdiv_nonneg_iff)

lemma abs_sdiv_le: "\<bar>(a::int) sdiv b\<bar> \<le> \<bar>a\<bar>"
proof -
  have "\<bar>a\<bar> div \<bar>b\<bar> \<le> \<bar>a\<bar>"
    by (cases "b = 0") (simp_all add: int_div_le_self order_trans [OF zdiv_mono2 [of _ 1]])
  then show ?thesis by (simp add: abs_sdiv)
qed

lemma sdiv_nonneg: "0 \<le> (a::int) \<Longrightarrow> 0 < b \<Longrightarrow> 0 \<le> a sdiv b"
  by (simp add: sdiv_pos pos_imp_zdiv_nonneg_iff)

lemma abs_smod_less: "(b::int) \<noteq> 0 \<Longrightarrow> \<bar>a smod b\<bar> < \<bar>b\<bar>"
proof -
  assume "b \<noteq> 0"
  have "a smod b = sgn a * (\<bar>a\<bar> mod \<bar>b\<bar>)"
    by (simp add: signed_modulo_int_def)
  moreover have "\<bar>\<bar>a\<bar> mod \<bar>b\<bar>\<bar> < \<bar>b\<bar>"
    using \<open>b \<noteq> 0\<close> by simp
  ultimately show ?thesis
    by (cases "a = 0") (simp_all add: abs_mult \<open>b \<noteq> 0\<close>)
qed

section \<open>Powers of two\<close>

lemma pow2_24_bounds: "l \<le> 24 \<Longrightarrow> 1 \<le> (2::int) ^ nat l \<and> (2::int) ^ nat l \<le> 16777216"
  using power_increasing [of "nat l" 24 "2::int"] by auto

text \<open>\<open>(x + divisor - 1) / divisor\<close>: the quotient rounded up.\<close>

lemma ceil_div_bounds:
  assumes "0 \<le> (x::int)" "0 < d"
  shows "x \<le> (x + d - 1) div d * d" "(x + d - 1) div d * d < x + d" "0 \<le> (x + d - 1) div d"
    "(x + d - 1) div d \<le> x" "0 < x \<Longrightarrow> 1 \<le> (x + d - 1) div d"
proof -
  have eq: "(x + d - 1) div d * d + (x + d - 1) mod d = x + d - 1" by simp
  moreover have "0 \<le> (x + d - 1) mod d" "(x + d - 1) mod d < d" using assms by simp_all
  ultimately show "x \<le> (x + d - 1) div d * d" "(x + d - 1) div d * d < x + d" by linarith+
  show "0 < x \<Longrightarrow> 1 \<le> (x + d - 1) div d"
    using assms pos_imp_zdiv_pos_iff [of d "x + d - 1"] by linarith
  show "0 \<le> (x + d - 1) div d" using assms by (simp add: pos_imp_zdiv_nonneg_iff)
  show "(x + d - 1) div d \<le> x"
  proof (rule ccontr)
    assume "\<not> (x + d - 1) div d \<le> x"
    then have "(x + 1) * d \<le> (x + d - 1) div d * d" using assms by (intro mult_right_mono) auto
    moreover have "x * 1 \<le> x * d" using assms by (intro mult_left_mono) auto
    ultimately show False
      using \<open>(x + d - 1) div d * d < x + d\<close> by (simp add: algebra_simps)
  qed
qed

text \<open>Microseconds to milliseconds, rounded up: \<open>x / 1000 + (x % 1000 != 0)\<close>.\<close>

definition ceil_ms :: "int \<Rightarrow> int" where
  "ceil_ms x = x div 1000 + (if x mod 1000 \<noteq> 0 then 1 else 0)"

lemma ceil_ms_bounds:
  assumes "0 \<le> x"
  shows "0 \<le> ceil_ms x" "ceil_ms x = 0 \<longleftrightarrow> x = 0" "x \<le> ceil_ms x * 1000" "0 < x \<Longrightarrow> (ceil_ms x - 1) * 1000 < x"
proof -
  define q r where "q = x div 1000" and "r = x mod 1000"
  have x: "x = q * 1000 + r" "0 \<le> r" "r < 1000" by (simp_all add: q_def r_def)
  with assms have q: "0 \<le> q" by linarith
  have c: "ceil_ms x = q + (if r \<noteq> 0 then 1 else 0)" by (simp add: ceil_ms_def q_def r_def)
  show "0 \<le> ceil_ms x" "ceil_ms x = 0 \<longleftrightarrow> x = 0" "x \<le> ceil_ms x * 1000" "0 < x \<Longrightarrow> (ceil_ms x - 1) * 1000 < x"
    using x q unfolding c by (auto split: if_splits)
qed

section \<open>Counters that skip zero\<close>

text \<open>\<open>if (!++x) ++x;\<close>, equally \<open>y = x + 1; x = y ? y : 1\<close>.\<close>

definition bump32 :: "u32 \<Rightarrow> u32" where
  "bump32 x = (if x + 1 = 0 then 1 else x + 1)"

lemma bump32_nonzero [simp]: "bump32 x \<noteq> 0"
  by (simp add: bump32_def)

lemma bump32_neq [simp]: "bump32 x \<noteq> x"
proof (cases "x + 1 = 0")
  case True
  then have "x = - 1" by (simp add: eq_neg_iff_add_eq_0)
  then show ?thesis by (simp add: bump32_def)
next
  case False
  then show ?thesis by (simp add: bump32_def)
qed

lemma neq_bump32 [simp]: "x \<noteq> bump32 x"
  using bump32_neq by metis

section \<open>Bytes\<close>

text \<open>\<open>((unsigned)a << 8) | b\<close> of two octets.\<close>

definition be16 :: "u8 \<Rightarrow> u8 \<Rightarrow> nat" where
  "be16 a b = unat a * 256 + unat b"

definition slice :: "nat \<Rightarrow> nat \<Rightarrow> 'a list \<Rightarrow> 'a list" where
  "slice off n xs = take n (drop off xs)"

text \<open>\<open>memcpy(dst + off, src, length src)\<close> into a buffer that has the room.\<close>

definition splice :: "nat \<Rightarrow> 'a list \<Rightarrow> 'a list \<Rightarrow> 'a list" where
  "splice off src dst = take off dst @ src @ drop (off + length src) dst"

lemma unat_u8_less [simp]: "unat (b :: u8) < 256"
  using unsigned_less [of b] by simp

lemma unat_u8_le [simp]: "unat (b :: u8) \<le> 255"
  using unat_u8_less [of b] by linarith

lemma be16_less [simp]: "be16 a b < 65536"
  using unat_u8_less [of a] unat_u8_less [of b] by (auto simp: be16_def simp del: unat_u8_less)

lemma be16_of_nat: "n < 65536 \<Longrightarrow> be16 (word_of_nat (n div 256)) (word_of_nat n) = n"
  by (simp add: be16_def unat_of_nat)

lemma be16_inject: "be16 a b = be16 c d \<longleftrightarrow> a = c \<and> b = d"
proof
  assume h: "be16 a b = be16 c d"
  have "(unat a * 256 + unat b) div 256 = unat a" "(unat c * 256 + unat d) div 256 = unat c"
    by (simp_all)
  with h have "unat a = unat c" by (simp add: be16_def)
  with h show "a = c \<and> b = d" by (simp add: be16_def word_unat_eq_iff)
qed simp

lemma length_slice [simp]: "length (slice off n xs) = min n (length xs - off)"
  by (simp add: slice_def)

lemma nth_slice: "i < n \<Longrightarrow> off + i < length xs \<Longrightarrow> slice off n xs ! i = xs ! (off + i)"
  by (simp add: slice_def)

lemma slice_append2: "off = length xs \<Longrightarrow> n = length ys \<Longrightarrow> slice off n (xs @ ys @ zs) = ys"
  by (simp add: slice_def)

lemma nth_eq_of_take: "take n xs = take n ys \<Longrightarrow> i < n \<Longrightarrow> xs ! i = ys ! i"
  by (metis nth_take)

lemma length_splice [simp]: "off + length src \<le> length dst \<Longrightarrow> length (splice off src dst) = length dst"
  by (simp add: splice_def)

lemma slice_splice:
  "off + length src \<le> length dst \<Longrightarrow> n = length src \<Longrightarrow> slice off n (splice off src dst) = src"
  by (simp add: slice_def splice_def)

lemma nth_splice_other:
  assumes "off + length src \<le> length dst" "i < length dst" "i < off \<or> off + length src \<le> i"
  shows "splice off src dst ! i = dst ! i"
proof (cases "i < off")
  case True
  then show ?thesis using assms by (simp add: splice_def nth_append)
next
  case False
  with assms have "off + length src \<le> i" by simp
  with assms(1,2) show ?thesis by (auto simp: splice_def nth_append not_less)
qed

section \<open>Freshness windows\<close>

text \<open>
  Interface: a record of a reception is believed for a window of local time that starts at
  the reception.  \<open>fresh s now\<close> is what the client asks; the provider promises that the
  answer is membership of a half-open interval of \<open>width s\<close> from \<open>stamp s\<close>.
\<close>

locale freshness_window =
  fixes fresh :: "'s \<Rightarrow> int \<Rightarrow> bool"
    and holds :: "'s \<Rightarrow> bool"
    and stamp :: "'s \<Rightarrow> int"
    and width :: "'s \<Rightarrow> int"
  assumes fresh_iff: "fresh s now \<longleftrightarrow> holds s \<and> stamp s \<le> now \<and> now < stamp s + width s"
begin

lemma stays_expired: "\<not> fresh s t1 \<Longrightarrow> stamp s \<le> t1 \<Longrightarrow> t1 \<le> t2 \<Longrightarrow> \<not> fresh s t2"
  by (auto simp: fresh_iff)

lemma fresh_convex: "fresh s t1 \<Longrightarrow> fresh s t3 \<Longrightarrow> t1 \<le> t2 \<Longrightarrow> t2 \<le> t3 \<Longrightarrow> fresh s t2"
  by (auto simp: fresh_iff)

lemma not_fresh_before: "now < stamp s \<Longrightarrow> \<not> fresh s now"
  by (simp add: fresh_iff)

lemma fresh_age: "fresh s now \<Longrightarrow> 0 \<le> now - stamp s \<and> now - stamp s < width s"
  by (auto simp: fresh_iff)

end

section \<open>One outstanding transmission\<close>

text \<open>
  Interface: a schedule hands out at most one completion token at a time.  \<open>issue\<close> starts a
  transmission (token 0: nothing to send now), \<open>finish\<close> reports its completion, \<open>amend\<close>
  is any other operation on the schedule (an interval request, a reset, a revision of
  what is announced).  The environment's arguments of \<open>issue\<close> and \<open>amend\<close> are collected in
  one value each.
\<close>

locale token_schedule =
  fixes pend :: "'s \<Rightarrow> u32"
    and serial :: "'s \<Rightarrow> u32"
    and issue :: "'s \<Rightarrow> 'a \<Rightarrow> u32 \<times> 's"
    and finish :: "'s \<Rightarrow> u32 \<Rightarrow> bool \<Rightarrow> int \<Rightarrow> bool \<times> 's"
    and amend :: "'s \<Rightarrow> 'b \<Rightarrow> 's"
  assumes issue_token: "issue s a = (t, s') \<Longrightarrow> t \<noteq> 0 \<Longrightarrow> pend s' = t \<and> serial s' = t \<and> t = bump32 (serial s)"
    and issue_none: "issue s a = (0, s') \<Longrightarrow> serial s' = serial s \<and> (pend s' = pend s \<or> pend s' = 0)"
    and finish_reject: "t = 0 \<or> pend s \<noteq> t \<Longrightarrow> finish s t acc now = (False, s)"
    and finish_clears: "t \<noteq> 0 \<Longrightarrow> pend s = t \<Longrightarrow> pend (snd (finish s t acc now)) = 0"
    and finish_serial: "serial (snd (finish s t acc now)) = serial s"
    and amend_serial: "serial (amend s b) = serial s"
    and amend_pend: "pend (amend s b) = pend s \<or> pend (amend s b) = 0"
begin

definition token_inv :: "'s \<Rightarrow> bool" where
  "token_inv s \<longleftrightarrow> pend s = 0 \<or> pend s = serial s"

inductive step :: "'s \<Rightarrow> 's \<Rightarrow> bool" where
  step_issue: "step s (snd (issue s a))"
| step_finish: "step s (snd (finish s t acc now))"
| step_amend: "step s (amend s b)"

lemma token_inv_issue: "token_inv s \<Longrightarrow> token_inv (snd (issue s a))"
proof -
  assume inv: "token_inv s"
  obtain t s' where eq: "issue s a = (t, s')" by force
  show ?thesis
  proof (cases "t = 0")
    case True
    then show ?thesis using issue_none [of s a s'] eq inv by (auto simp: token_inv_def)
  next
    case False
    then show ?thesis using issue_token [OF eq] eq by (auto simp: token_inv_def)
  qed
qed

lemma token_inv_finish: "token_inv s \<Longrightarrow> token_inv (snd (finish s t acc now))"
  by (cases "t = 0 \<or> pend s \<noteq> t") (auto simp: finish_reject finish_clears token_inv_def)

lemma token_inv_amend: "token_inv s \<Longrightarrow> token_inv (amend s b)"
  using amend_pend [of s b] amend_serial [of s b] by (auto simp: token_inv_def)

lemma token_inv_step: "step s s' \<Longrightarrow> token_inv s \<Longrightarrow> token_inv s'"
  by (induction rule: step.induct) (auto intro: token_inv_issue token_inv_finish token_inv_amend)

lemma token_inv_run: "step\<^sup>*\<^sup>* s s' \<Longrightarrow> token_inv s \<Longrightarrow> token_inv s'"
  by (induction rule: rtranclp_induct) (auto intro: token_inv_step)

lemma finish_once: "fst (finish (snd (finish s t acc now)) t acc' now') = False"
proof (cases "t = 0 \<or> pend s \<noteq> t")
  case True
  then show ?thesis by (simp add: finish_reject)
next
  case False
  then have "pend (snd (finish s t acc now)) = 0" by (simp add: finish_clears)
  with False show ?thesis by (simp add: finish_reject)
qed

lemma finish_accepts_pending: "fst (finish s t acc now) \<Longrightarrow> t \<noteq> 0 \<and> pend s = t"
  using finish_reject [of t s acc now] by (metis fst_conv)

lemma superseded_token:
  assumes "issue s a = (t, s')" "t \<noteq> 0" "t' = serial s"
  shows "finish s' t' acc now = (False, s')"
proof -
  from issue_token [OF assms(1,2)] assms(3) have "pend s' \<noteq> t'" by auto
  then show ?thesis by (simp add: finish_reject)
qed

end

end
