(* ===== verification/Ptp_Signaling.thy ===== *)
theory Ptp_Signaling
  imports Ptp_Prelude
begin

text \<open>
  Model of \<^verbatim>\<open>ptp_signaling.h\<close>: the reader and the writer of gPTP Signaling messages.  The
  TLV chain walk is a terminating recursion on the remaining length; the three readers and
  the two writers follow the code.  The lemmas show that the walk never reads outside the
  advertised length, that a recognised TLV is complete and of the requested subtype, that
  malformedness does not depend on the TLV asked for, and that the readers invert the
  writers.
\<close>

section \<open>Data\<close>

record ptp_capable_message =
  cm_source_port :: bytes
  cm_log_interval :: int

record ptp_interval_message =
  im_source_port :: bytes
  im_log_link_delay :: int
  im_log_sync :: int
  im_log_announce :: int
  im_flags :: u8

text \<open>The result codes.  The positive codes say which reader succeeded; here the reader's
  result type says it.\<close>

datatype 'a signaling = SIG_MALFORMED | SIG_IGNORED | SIG_FOUND 'a

fun map_signaling_result :: "('a \<Rightarrow> 'b) \<Rightarrow> 'a signaling \<Rightarrow> 'b signaling" where
  "map_signaling_result f SIG_MALFORMED = SIG_MALFORMED"
| "map_signaling_result f SIG_IGNORED = SIG_IGNORED"
| "map_signaling_result f (SIG_FOUND x) = SIG_FOUND (f x)"

section \<open>The TLV chain\<close>

definition tlv_is_8021 :: "bytes \<Rightarrow> nat \<Rightarrow> nat \<Rightarrow> bool" where
  "tlv_is_8021 m off body \<longleftrightarrow>
     6 \<le> body \<and> m ! (off + 4) = 0 \<and> m ! (off + 5) = 0x80 \<and> m ! (off + 6) = 0xc2 \<and>
     m ! (off + 7) = 0 \<and> m ! (off + 8) = 0"

definition tlv_known :: "bytes \<Rightarrow> nat \<Rightarrow> nat \<Rightarrow> bool" where
  "tlv_known m off body \<longleftrightarrow> tlv_is_8021 m off body \<and>
     (let kind = unat (m ! (off + 9));
          expected_type = (if kind = 2 then 0x0003 else 0x8000)
      in (kind = 2 \<or> kind = 4 \<or> kind = 5) \<and> be16 (m ! off) (m ! (off + 1)) = expected_type)"

function sig_walk :: "bytes \<Rightarrow> nat \<Rightarrow> nat \<Rightarrow> nat \<Rightarrow> u32 \<Rightarrow> nat option \<Rightarrow> nat signaling" where
  "sig_walk m len subtype off known_seen found =
     (if off < len then
        if len - off < 4 then SIG_MALFORMED
        else
          let body = be16 (m ! (off + 2)) (m ! (off + 3)) in
          if body > len - off - 4 \<or> odd body then SIG_MALFORMED
          else if tlv_known m off body then
            let kind = unat (m ! (off + 9));
                expected_body = (if kind = 5 then 10 else 12)
            in if body \<noteq> expected_body \<or> bit known_seen kind then SIG_MALFORMED
               else sig_walk m len subtype (off + body + 4) (set_bit kind known_seen)
                      (if kind = subtype then Some off else found)
          else sig_walk m len subtype (off + body + 4) known_seen found
      else (case found of None \<Rightarrow> SIG_IGNORED | Some tlv \<Rightarrow> SIG_FOUND tlv))"
  by pat_completeness auto
termination
  by (relation "measure (\<lambda>(m, len, subtype, off, known_seen, found). len - off)") auto

declare sig_walk.simps [simp del]

definition message_length :: "bytes \<Rightarrow> nat" where
  "message_length m = be16 (m ! 2) (m ! 3)"

definition ptp_signaling_find_tlv ::
    "bytes option \<Rightarrow> nat \<Rightarrow> u8 \<Rightarrow> bytes option \<Rightarrow> nat \<Rightarrow> nat signaling" where
  "ptp_signaling_find_tlv message received domain local_port subtype =
     (case (message, local_port) of
        (Some m, Some lp) \<Rightarrow>
          if received < 44 then SIG_MALFORMED
          else if message_length m < 44 \<or> message_length m > received then SIG_MALFORMED
          else if m ! 0 \<noteq> 0x1c \<or> take_bit 4 (m ! 1) \<noteq> 2 \<or> m ! 4 \<noteq> domain \<or> m ! 5 \<noteq> 0
               then SIG_IGNORED
          else if slice 34 10 m \<noteq> replicate 10 255 \<and> slice 34 10 m \<noteq> lp then SIG_IGNORED
          else if slice 20 8 m = take 8 lp then SIG_IGNORED
          else sig_walk m (message_length m) subtype 44 0 None
      | _ \<Rightarrow> SIG_MALFORMED)"

section \<open>Readers\<close>

definition ptp_signaling_read_capable_tlv ::
    "bytes option \<Rightarrow> nat \<Rightarrow> u8 \<Rightarrow> bytes option \<Rightarrow> nat \<Rightarrow> ptp_capable_message signaling" where
  "ptp_signaling_read_capable_tlv message received domain local_port subtype =
     map_signaling_result
       (\<lambda>tlv. \<lparr>cm_source_port = slice 20 10 (the message),
               cm_log_interval = sint (the message ! (tlv + 10))\<rparr>)
       (ptp_signaling_find_tlv message received domain local_port subtype)"

definition ptp_signaling_read_message_interval ::
    "bytes option \<Rightarrow> nat \<Rightarrow> u8 \<Rightarrow> bytes option \<Rightarrow> ptp_interval_message signaling" where
  "ptp_signaling_read_message_interval message received domain local_port =
     map_signaling_result
       (\<lambda>tlv. \<lparr>im_source_port = slice 20 10 (the message),
               im_log_link_delay = sint (the message ! (tlv + 10)),
               im_log_sync = sint (the message ! (tlv + 11)),
               im_log_announce = sint (the message ! (tlv + 12)),
               im_flags = the message ! (tlv + 13)\<rparr>)
       (ptp_signaling_find_tlv message received domain local_port 2)"

definition ptp_signaling_read_capable ::
    "bytes option \<Rightarrow> nat \<Rightarrow> u8 \<Rightarrow> bytes option \<Rightarrow> ptp_capable_message signaling" where
  "ptp_signaling_read_capable message received domain local_port =
     ptp_signaling_read_capable_tlv message received domain local_port 4"

definition ptp_signaling_read_capable_interval ::
    "bytes option \<Rightarrow> nat \<Rightarrow> u8 \<Rightarrow> bytes option \<Rightarrow> ptp_capable_message signaling" where
  "ptp_signaling_read_capable_interval message received domain local_port =
     ptp_signaling_read_capable_tlv message received domain local_port 5"

section \<open>Writers\<close>

text \<open>A writer returns the octets it wrote (its size result is their number), or nothing
  when it refuses.\<close>

definition PTP_CAPABLE_MESSAGE_LENGTH :: nat where
  "PTP_CAPABLE_MESSAGE_LENGTH = 60"

definition PTP_CAPABLE_INTERVAL_MESSAGE_LENGTH :: nat where
  "PTP_CAPABLE_INTERVAL_MESSAGE_LENGTH = 58"

definition capable_tlv :: bytes where
  "capable_tlv = [0x80, 0, 0, 12, 0, 0x80, 0xc2, 0, 0, 4, 0, 0, 0, 0, 0, 0]"

definition ptp_signaling_write_capable ::
    "nat \<Rightarrow> bytes option \<Rightarrow> u8 \<Rightarrow> u16 \<Rightarrow> int \<Rightarrow> bytes option" where
  "ptp_signaling_write_capable capacity source_port domain sequence log_interval =
     (case source_port of None \<Rightarrow> None
      | Some sp \<Rightarrow>
        if capacity < PTP_CAPABLE_MESSAGE_LENGTH \<or> log_interval < -24 \<or> log_interval > 24 then None
        else
          let m = replicate PTP_CAPABLE_MESSAGE_LENGTH 0;
              m = m[0 := 0x1c, 1 := 0x12, 3 := word_of_nat PTP_CAPABLE_MESSAGE_LENGTH, 4 := domain];
              m = splice 20 sp m;
              m = m[30 := ucast (drop_bit 8 sequence), 31 := ucast sequence, 33 := 0x7f];
              m = splice 34 (replicate 10 0xff) m;
              m = splice 44 capable_tlv m
          in Some (m[54 := word_of_int log_interval]))"

definition ptp_signaling_write_capable_interval ::
    "nat \<Rightarrow> bytes option \<Rightarrow> u8 \<Rightarrow> u16 \<Rightarrow> int \<Rightarrow> bytes option" where
  "ptp_signaling_write_capable_interval capacity source_port domain sequence log_interval =
     (if source_port = None \<or> capacity < PTP_CAPABLE_INTERVAL_MESSAGE_LENGTH \<or>
         \<not> ((log_interval \<ge> -24 \<and> log_interval \<le> 24) \<or>
            log_interval = -128 \<or> log_interval = 126 \<or> log_interval = 127) then None
      else
        (case ptp_signaling_write_capable PTP_CAPABLE_MESSAGE_LENGTH source_port domain sequence 0 of
           None \<Rightarrow> None
         | Some encoded \<Rightarrow>
             Some (take PTP_CAPABLE_INTERVAL_MESSAGE_LENGTH
               (encoded[3 := word_of_nat PTP_CAPABLE_INTERVAL_MESSAGE_LENGTH, 47 := 10, 53 := 5,
                        54 := word_of_int log_interval]))))"

section \<open>The walk reads inside the advertised length\<close>

lemma tlv_known_cong:
  assumes "take len m = take len m'" "off + 4 + body \<le> len"
  shows "tlv_known m off body = tlv_known m' off body"
proof (cases "6 \<le> body")
  case True
  have "m ! i = m' ! i" if "i < off + 10" for i
    using assms that True by (intro nth_eq_of_take [OF assms(1)]) linarith
  then show ?thesis by (simp add: tlv_known_def tlv_is_8021_def)
next
  case False
  then show ?thesis by (simp add: tlv_known_def tlv_is_8021_def)
qed

lemma tlv_known_body: "tlv_known m off body \<Longrightarrow> 6 \<le> body"
  by (simp add: tlv_known_def tlv_is_8021_def)

lemma sig_walk_cong:
  "take len m = take len m' \<Longrightarrow>
   sig_walk m len subtype off seen found = sig_walk m' len subtype off seen found"
proof (induction m len subtype off seen found rule: sig_walk.induct)
  case (1 m len subtype off seen found)
  show ?case
  proof (cases "off < len \<and> \<not> len - off < 4")
    case False
    then show ?thesis by (auto simp: sig_walk.simps [of m] sig_walk.simps [of m'])
  next
    case True
    define body where "body = be16 (m ! (off + 2)) (m ! (off + 3))"
    from True have eq: "m ! (off + 2) = m' ! (off + 2)" "m ! (off + 3) = m' ! (off + 3)"
      by (auto intro!: nth_eq_of_take [OF "1.prems"])
    then have body': "be16 (m' ! (off + 2)) (m' ! (off + 3)) = body"
      by (simp add: body_def)
    show ?thesis
    proof (cases "body > len - off - 4 \<or> odd body")
      case bad: True
      then show ?thesis using True body'
        by (auto simp: sig_walk.simps [of m] sig_walk.simps [of m'] body_def Let_def)
    next
      case ok: False
      with True have fits: "off + 4 + body \<le> len" by auto
      note known = tlv_known_cong [OF "1.prems" fits]
      have kind: "tlv_known m off body \<Longrightarrow> m ! (off + 9) = m' ! (off + 9)"
        using fits by (auto dest!: tlv_known_body intro!: nth_eq_of_take [OF "1.prems"])
      show ?thesis
        using "1.IH" True ok "1.prems" known kind body'
        by (auto simp: sig_walk.simps [of m len subtype off] sig_walk.simps [of m' len subtype off]
                       body_def Let_def)
    qed
  qed
qed

section \<open>What a found TLV guarantees\<close>

definition tlv_at :: "bytes \<Rightarrow> nat \<Rightarrow> nat \<Rightarrow> nat \<Rightarrow> bool" where
  "tlv_at m len subtype off \<longleftrightarrow>
     (let body = be16 (m ! (off + 2)) (m ! (off + 3))
      in 44 \<le> off \<and> off + 4 + body \<le> len \<and> tlv_known m off body \<and>
         unat (m ! (off + 9)) = subtype \<and> body = (if subtype = 5 then 10 else 12))"

lemma sig_walk_found:
  "sig_walk m len subtype off seen found = SIG_FOUND tlv \<Longrightarrow> 44 \<le> off \<Longrightarrow>
   (\<And>t. found = Some t \<Longrightarrow> tlv_at m len subtype t) \<Longrightarrow> tlv_at m len subtype tlv"
proof (induction m len subtype off seen found rule: sig_walk.induct)
  case (1 m len subtype off seen found)
  show ?case
  proof (cases "off < len")
    case False
    with "1.prems" show ?thesis
      by (auto simp: sig_walk.simps [of m len subtype off] split: option.splits)
  next
    case True
    let ?body = "be16 (m ! (off + 2)) (m ! (off + 3))"
    from "1.prems"(1) True have len: "\<not> len - off < 4" and ok: "\<not> (?body > len - off - 4 \<or> odd ?body)"
      by (auto simp: sig_walk.simps [of m len subtype off] Let_def split: if_splits)
    show ?thesis
    proof (cases "tlv_known m off ?body")
      case False
      with "1.IH"(2) [OF True len refl ok False] "1.prems" True len ok show ?thesis
        by (auto simp: sig_walk.simps [of m len subtype off] Let_def)
    next
      case known: True
      let ?kind = "unat (m ! (off + 9))"
      from "1.prems"(1) True len ok known
      have fine: "\<not> (?body \<noteq> (if ?kind = 5 then 10 else 12) \<or> bit seen ?kind)"
        by (auto simp: sig_walk.simps [of m len subtype off] Let_def split: if_splits)
      have here: "tlv_at m len subtype off" if "?kind = subtype"
        using that known ok len fine "1.prems"(2) True by (auto simp: tlv_at_def Let_def)
      show ?thesis
        using "1.IH"(1) [OF True len refl ok known refl refl fine] "1.prems" here True len ok known fine
        by (auto simp: sig_walk.simps [of m len subtype off] Let_def split: if_splits)
    qed
  qed
qed

lemma sig_walk_malformed_iff:
  "sig_walk m len s1 off seen f1 = SIG_MALFORMED \<longleftrightarrow> sig_walk m len s2 off seen f2 = SIG_MALFORMED"
proof (induction m len s1 off seen f1 arbitrary: f2 rule: sig_walk.induct)
  case (1 m len s1 off seen f1)
  show ?case
    using "1.IH"
    by (auto simp: sig_walk.simps [of m len s1 off] sig_walk.simps [of m len s2 off] Let_def
             split: option.splits)
qed

lemma map_signaling_malformed [simp]:
  "map_signaling_result f r = SIG_MALFORMED \<longleftrightarrow> r = SIG_MALFORMED"
  by (cases r) auto

lemma map_signaling_ignored [simp]:
  "map_signaling_result f r = SIG_IGNORED \<longleftrightarrow> r = SIG_IGNORED"
  by (cases r) auto

lemma map_signaling_found:
  "map_signaling_result f r = SIG_FOUND y \<longleftrightarrow> (\<exists>x. r = SIG_FOUND x \<and> y = f x)"
  by (cases r) auto

lemma find_tlv_found:
  assumes "ptp_signaling_find_tlv (Some m) received domain lp subtype = SIG_FOUND tlv"
  shows "tlv_at m (message_length m) subtype tlv \<and> message_length m \<le> received \<and>
         m ! 0 = 0x1c \<and> m ! 4 = domain \<and> (\<exists>l. lp = Some l \<and> slice 20 8 m \<noteq> take 8 l)"
  using assms
  by (auto simp: ptp_signaling_find_tlv_def split: option.splits if_splits
           dest!: sig_walk_found)

lemma find_tlv_malformed_iff:
  "ptp_signaling_find_tlv msg received domain lp s1 = SIG_MALFORMED \<longleftrightarrow>
   ptp_signaling_find_tlv msg received domain lp s2 = SIG_MALFORMED"
  by (auto simp: ptp_signaling_find_tlv_def sig_walk_malformed_iff [of _ _ s1 _ _ _ s2]
           split: option.splits)

section \<open>Round trips\<close>

lemma length10E:
  assumes "length (xs :: 'a list) = 10"
  obtains a b c d e f g h i j where "xs = [a, b, c, d, e, f, g, h, i, j]"
proof -
  have "\<exists>a b c d e f g h i j. xs = [a, b, c, d, e, f, g, h, i, j]"
    using assms by (auto simp: length_Suc_conv eval_nat_numeral)
  then show thesis using that by blast
qed

lemma write_capable_shape:
  assumes "length sp = 10" "60 \<le> capacity" "-24 \<le> li" "li \<le> 24"
  shows "ptp_signaling_write_capable capacity (Some sp) domain sequence li =
    Some ([0x1c, 0x12, 0, 60, domain, 0, 0, 0, 0, 0, 0, 0, 0, 0, 0, 0, 0, 0, 0, 0] @ sp @
          [ucast (drop_bit 8 sequence), ucast sequence, 0, 0x7f,
           255, 255, 255, 255, 255, 255, 255, 255, 255, 255,
           0x80, 0, 0, 12, 0, 0x80, 0xc2, 0, 0, 4, word_of_int li, 0, 0, 0, 0, 0])"
proof -
  from assms(1) obtain a b c d e f g h i j where sp: "sp = [a, b, c, d, e, f, g, h, i, j]"
    by (rule length10E)
  show ?thesis
    using assms(2-4) unfolding sp
    by (simp add: ptp_signaling_write_capable_def PTP_CAPABLE_MESSAGE_LENGTH_def capable_tlv_def
                  splice_def Let_def numeral_eq_Suc)
qed

lemma write_capable_interval_shape:
  assumes "length sp = 10" "58 \<le> capacity"
    "(-24 \<le> li \<and> li \<le> 24) \<or> li = -128 \<or> li = 126 \<or> li = 127"
  shows "ptp_signaling_write_capable_interval capacity (Some sp) domain sequence li =
    Some ([0x1c, 0x12, 0, 58, domain, 0, 0, 0, 0, 0, 0, 0, 0, 0, 0, 0, 0, 0, 0, 0] @ sp @
          [ucast (drop_bit 8 sequence), ucast sequence, 0, 0x7f,
           255, 255, 255, 255, 255, 255, 255, 255, 255, 255,
           0x80, 0, 0, 10, 0, 0x80, 0xc2, 0, 0, 5, word_of_int li, 0, 0, 0])"
proof -
  from assms(1) obtain a b c d e f g h i j where sp: "sp = [a, b, c, d, e, f, g, h, i, j]"
    by (rule length10E)
  show ?thesis
    using assms(2-3) unfolding sp
    by (auto simp: ptp_signaling_write_capable_interval_def write_capable_shape
                  PTP_CAPABLE_MESSAGE_LENGTH_def PTP_CAPABLE_INTERVAL_MESSAGE_LENGTH_def
                  numeral_eq_Suc)
qed

lemma sint_word_of_int_i8: "in_i8 x \<Longrightarrow> sint (word_of_int x :: u8) = x"
  by (simp add: in_i8_def signed_take_bit_int_eq_self sint_sbintrunc')

lemma sig_walk_done: "len \<le> off \<Longrightarrow> sig_walk m len subtype off seen (Some tlv) = SIG_FOUND tlv"
  by (simp add: sig_walk.simps)

lemma sig_walk_last:
  assumes "tlv_known m off body" "be16 (m ! (off + 2)) (m ! (off + 3)) = body"
    "len = off + 4 + body" "unat (m ! (off + 9)) = subtype"
    "body = (if subtype = 5 then 10 else 12)"
  shows "sig_walk m len subtype off 0 None = SIG_FOUND off"
  using assms by (cases "subtype = 5") (subst sig_walk.simps; simp add: sig_walk_done)+

lemma find_tlv_single:
  assumes "length sp = 10" "take 8 sp \<noteq> take 8 lp"
    "m = [0x1c, 0x12, 0, word_of_nat len, domain, 0, 0, 0, 0, 0, 0, 0, 0, 0, 0, 0, 0, 0, 0, 0] @ sp @
         [s1, s0, 0, 0x7f, 255, 255, 255, 255, 255, 255, 255, 255, 255, 255,
          0x80, 0, 0, b, 0, 0x80, 0xc2, 0, 0, k] @ rest"
    "len = 48 + unat b" "len < 256" "unat k = subtype" "subtype = 4 \<or> subtype = 5"
    "unat b = (if subtype = 5 then 10 else 12)"
  shows "ptp_signaling_find_tlv (Some m) len domain (Some lp) subtype = SIG_FOUND 44 \<and>
         slice 20 10 m = sp"
proof -
  from assms(1) obtain a1 a2 a3 a4 a5 a6 a7 a8 a9 a10
    where sp: "sp = [a1, a2, a3, a4, a5, a6, a7, a8, a9, a10]" by (rule length10E)
  have len: "message_length m = len"
    using assms(5) unfolding assms(3) sp
    by (simp add: message_length_def be16_def unat_of_nat)
  have tlv: "tlv_known m 44 (unat b)"
    using assms(6-8) unfolding assms(3) sp
    by (auto simp: tlv_known_def tlv_is_8021_def be16_def Let_def)
  have walk: "sig_walk m len subtype 44 0 None = SIG_FOUND 44"
    using assms(4,6,8) tlv unfolding assms(3) sp
    by (intro sig_walk_last [where body = "unat b"]) (auto simp: be16_def)
  have wild: "slice 34 10 m = replicate 10 255"
    unfolding assms(3) sp by (simp add: slice_def eval_nat_numeral)
  have src: "slice 20 8 m = take 8 sp" "slice 20 10 m = sp"
    unfolding assms(3) sp by (simp_all add: slice_def)
  have "44 \<le> len" using assms(4) by simp
  moreover have "m ! 0 = 0x1c" "m ! 1 = 0x12" "m ! 4 = domain" "m ! 5 = 0"
    unfolding assms(3) by simp_all
  ultimately show ?thesis
    using len walk wild src assms(2)
    by (simp add: ptp_signaling_find_tlv_def)
qed

text \<open>A station that receives the gPTP-capable Signaling message another station wrote
  reads back exactly its port identity and logarithmic interval, whatever the sequence
  number, provided it is in the same domain, is not the sender's own clock, and the sender's
  interval is in the writable range.\<close>

theorem capable_roundtrip:
  assumes "length sp = 10" "take 8 sp \<noteq> take 8 lp" "60 \<le> capacity" "-24 \<le> li" "li \<le> 24"
  shows "\<exists>m. ptp_signaling_write_capable capacity (Some sp) domain sequence li = Some m \<and>
             length m = PTP_CAPABLE_MESSAGE_LENGTH \<and>
             ptp_signaling_read_capable (Some m) (length m) domain (Some lp) =
               SIG_FOUND \<lparr>cm_source_port = sp, cm_log_interval = li\<rparr>"
proof -
  let ?tail = "[word_of_int li, 0, 0, 0, 0, 0] :: bytes"
  let ?m = "[0x1c, 0x12, 0, word_of_nat 60, domain, 0, 0, 0, 0, 0, 0, 0, 0, 0, 0, 0, 0, 0, 0, 0] @ sp @
          [ucast (drop_bit 8 sequence), ucast sequence, 0, 0x7f,
           255, 255, 255, 255, 255, 255, 255, 255, 255, 255,
           0x80, 0, 0, 12, 0, 0x80, 0xc2, 0, 0, 4] @ ?tail"
  have w: "ptp_signaling_write_capable capacity (Some sp) domain sequence li = Some ?m"
    by (subst write_capable_shape [OF assms(1,3,4,5)]) simp
  have f: "ptp_signaling_find_tlv (Some ?m) 60 domain (Some lp) 4 = SIG_FOUND 44 \<and> slice 20 10 ?m = sp"
    by (rule find_tlv_single [OF assms(1,2) refl]) simp_all
  have len: "length ?m = 60" using assms(1) by simp
  have li: "sint (word_of_int li :: u8) = li"
    using assms by (intro sint_word_of_int_i8) (simp add: in_i8_def)
  have "?m ! 54 = word_of_int li" using assms(1) by (simp add: nth_append)
  then have "ptp_signaling_read_capable (Some ?m) (length ?m) domain (Some lp) =
               SIG_FOUND \<lparr>cm_source_port = sp, cm_log_interval = li\<rparr>"
    unfolding len using f li
    by (simp add: ptp_signaling_read_capable_def ptp_signaling_read_capable_tlv_def)
  with w len show ?thesis by (auto simp: PTP_CAPABLE_MESSAGE_LENGTH_def)
qed

theorem capable_roundtrip_witness:
  "\<exists>m. ptp_signaling_write_capable 60 (Some [1, 2, 3, 4, 5, 6, 7, 8, 0, 1]) 0 9 (-3) = Some m \<and>
       length m = PTP_CAPABLE_MESSAGE_LENGTH \<and>
       ptp_signaling_read_capable (Some m) (length m) 0 (Some [9, 2, 3, 4, 5, 6, 7, 8, 0, 1]) =
         SIG_FOUND \<lparr>cm_source_port = [1, 2, 3, 4, 5, 6, 7, 8, 0, 1], cm_log_interval = -3\<rparr>"
  by (rule capable_roundtrip) simp_all

text \<open>A gPTP-capable message interval request reads back as it was written, for every
  value the writer accepts: an interval exponent, or one of the reset, stop and unchanged
  codes.\<close>

theorem capable_interval_roundtrip:
  assumes "length sp = 10" "take 8 sp \<noteq> take 8 lp" "58 \<le> capacity"
    "(-24 \<le> li \<and> li \<le> 24) \<or> li = -128 \<or> li = 126 \<or> li = 127"
  shows "\<exists>m. ptp_signaling_write_capable_interval capacity (Some sp) domain sequence li = Some m \<and>
             length m = PTP_CAPABLE_INTERVAL_MESSAGE_LENGTH \<and>
             ptp_signaling_read_capable_interval (Some m) (length m) domain (Some lp) =
               SIG_FOUND \<lparr>cm_source_port = sp, cm_log_interval = li\<rparr>"
proof -
  let ?tail = "[word_of_int li, 0, 0, 0] :: bytes"
  let ?m = "[0x1c, 0x12, 0, word_of_nat 58, domain, 0, 0, 0, 0, 0, 0, 0, 0, 0, 0, 0, 0, 0, 0, 0] @ sp @
          [ucast (drop_bit 8 sequence), ucast sequence, 0, 0x7f,
           255, 255, 255, 255, 255, 255, 255, 255, 255, 255,
           0x80, 0, 0, 10, 0, 0x80, 0xc2, 0, 0, 5] @ ?tail"
  have w: "ptp_signaling_write_capable_interval capacity (Some sp) domain sequence li = Some ?m"
    by (subst write_capable_interval_shape [OF assms(1,3,4)]) simp
  have f: "ptp_signaling_find_tlv (Some ?m) 58 domain (Some lp) 5 = SIG_FOUND 44 \<and> slice 20 10 ?m = sp"
    by (rule find_tlv_single [OF assms(1,2) refl]) simp_all
  have len: "length ?m = 58" using assms(1) by simp
  have li: "sint (word_of_int li :: u8) = li"
    using assms(4) by (intro sint_word_of_int_i8) (auto simp: in_i8_def)
  have "?m ! 54 = word_of_int li" using assms(1) by (simp add: nth_append)
  then have "ptp_signaling_read_capable_interval (Some ?m) (length ?m) domain (Some lp) =
               SIG_FOUND \<lparr>cm_source_port = sp, cm_log_interval = li\<rparr>"
    unfolding len using f li
    by (simp add: ptp_signaling_read_capable_interval_def ptp_signaling_read_capable_tlv_def)
  with w len show ?thesis by (auto simp: PTP_CAPABLE_INTERVAL_MESSAGE_LENGTH_def)
qed

theorem capable_interval_roundtrip_witness:
  "\<exists>m. ptp_signaling_write_capable_interval 58 (Some [1, 2, 3, 4, 5, 6, 7, 8, 0, 1]) 0 9 (-128) = Some m \<and>
       length m = PTP_CAPABLE_INTERVAL_MESSAGE_LENGTH \<and>
       ptp_signaling_read_capable_interval (Some m) (length m) 0 (Some [9, 2, 3, 4, 5, 6, 7, 8, 0, 1]) =
         SIG_FOUND \<lparr>cm_source_port = [1, 2, 3, 4, 5, 6, 7, 8, 0, 1], cm_log_interval = -128\<rparr>"
  by (rule capable_interval_roundtrip) simp_all

section \<open>Safety of the reader\<close>

text \<open>Whatever arrives, the reader of a message interval request looks only at the
  octets inside the length the message advertises (and inside what was received): two
  buffers that agree up to there are read alike.  When it reports a request, the four
  interval octets it reads lie inside that length.\<close>

theorem message_interval_no_overread:
  assumes "received < 44 \<or> take (max 44 (message_length m)) m = take (max 44 (message_length m)) m'"
    and "message_length m' = message_length m"
  shows "(case ptp_signaling_find_tlv (Some m) received domain lp 2 of
            SIG_FOUND tlv \<Rightarrow> tlv + 13 < message_length m \<and> message_length m \<le> received
          | _ \<Rightarrow> True) \<and>
         ptp_signaling_find_tlv (Some m) received domain lp 2 =
         ptp_signaling_find_tlv (Some m') received domain lp 2"
proof
  show "case ptp_signaling_find_tlv (Some m) received domain lp 2 of
          SIG_FOUND tlv \<Rightarrow> tlv + 13 < message_length m \<and> message_length m \<le> received
        | _ \<Rightarrow> True"
    by (auto split: signaling.splits dest!: find_tlv_found simp: tlv_at_def Let_def)
  show "ptp_signaling_find_tlv (Some m) received domain lp 2 =
        ptp_signaling_find_tlv (Some m') received domain lp 2"
  proof (cases "received < 44 \<or> message_length m < 44")
    case True
    with assms(2) show ?thesis by (auto simp: ptp_signaling_find_tlv_def split: option.splits)
  next
    case False
    with assms(1) have eq: "take (message_length m) m = take (message_length m) m'"
      by (simp add: max_def)
    have nth: "m ! i = m' ! i" if "i < 44" for i
      using that False by (intro nth_eq_of_take [OF eq]) linarith
    have t: "take 44 m = take 44 m'"
      using False arg_cong [OF eq, of "take 44"] by (simp add: min_def not_less)
    have sl: "slice off n m = slice off n m'" if "off + n \<le> 44" for off n
      using that arg_cong [OF t, of "\<lambda>x. take n (drop off x)"]
      by (simp add: slice_def drop_take min_absorb1)
    show ?thesis
      using assms(2) nth sl sig_walk_cong [OF eq]
      by (simp add: ptp_signaling_find_tlv_def split: option.splits)
  qed
qed

definition example_request :: bytes where
  "example_request =
     [0x1c, 0x12, 0, 60, 0, 0, 0, 0, 0, 0, 0, 0, 0, 0, 0, 0, 0, 0, 0, 0,
      1, 2, 3, 4, 5, 6, 7, 8, 0, 1, 0, 9, 0, 0x7f,
      255, 255, 255, 255, 255, 255, 255, 255, 255, 255,
      0, 3, 0, 12, 0, 0x80, 0xc2, 0, 0, 2, 127, 126, 127, 3, 0, 0]"

theorem message_interval_no_overread_witness:
  "(case ptp_signaling_find_tlv (Some example_request) 60 0 (Some (replicate 10 9)) 2 of
            SIG_FOUND tlv \<Rightarrow> tlv + 13 < message_length example_request \<and>
                             message_length example_request \<le> 60
          | _ \<Rightarrow> True) \<and>
   ptp_signaling_find_tlv (Some example_request) 60 0 (Some (replicate 10 9)) 2 =
   ptp_signaling_find_tlv (Some (example_request @ [42])) 60 0 (Some (replicate 10 9)) 2"
  by (rule message_interval_no_overread) (simp_all add: example_request_def message_length_def be16_def)

lemma example_request_found:
  "ptp_signaling_find_tlv (Some example_request) 60 0 (Some (replicate 10 9)) 2 = SIG_FOUND 44"
  by code_simp

text \<open>The chain of TLVs is validated as a whole: whether a Signaling message is
  malformed does not depend on which TLV a reader looks for, so the three readers of one
  message agree on it and no recognised TLV of a malformed chain is ever exposed.\<close>

theorem malformed_for_all_readers:
  "(ptp_signaling_read_capable msg received domain lp = SIG_MALFORMED \<longleftrightarrow>
    ptp_signaling_read_capable_interval msg received domain lp = SIG_MALFORMED) \<and>
   (ptp_signaling_read_capable msg received domain lp = SIG_MALFORMED \<longleftrightarrow>
    ptp_signaling_read_message_interval msg received domain lp = SIG_MALFORMED)"
  using find_tlv_malformed_iff [of msg received domain lp 4 5]
    find_tlv_malformed_iff [of msg received domain lp 4 2]
  by (simp add: ptp_signaling_read_capable_def ptp_signaling_read_capable_interval_def
      ptp_signaling_read_capable_tlv_def ptp_signaling_read_message_interval_def)

end
