(* ===== verification/Ptp_Capable.thy ===== *)
theory Ptp_Capable
  imports Ptp_Signaling
begin

text \<open>
  The gPTP-capable message exchange: \<^verbatim>\<open>ptp_capable_interval.h\<close> (the negotiated interval),
  \<^verbatim>\<open>ptp_capable_schedule.h\<close> (when to transmit, one transmission outstanding),
  \<^verbatim>\<open>ptp_capable_receive.h\<close> (how long a neighbor's indication is believed),
  \<^verbatim>\<open>ptp_wired_capable.h\<close> (the binding of a schedule to a wired neighbor) and
  \<^verbatim>\<open>ptp_sync_interval.h\<close> (stop and resume of Sync).  The lemmas give the interval
  invariant (never more than eight messages a second), the deadline discipline of the
  schedule, the life of a completion token and the receipt window.
\<close>

section \<open>The negotiated interval\<close>

record ptp_capable_interval =
  ci_log_interval :: int
  ci_slowdown_remaining :: u8
  ci_old_interval_us :: int

definition ptp_capable_interval_us :: "int \<Rightarrow> int" where
  "ptp_capable_interval_us logarithm =
     (if logarithm < -3 \<or> logarithm > 24 then 0
      else if logarithm < 0 then 1000000 div 2 ^ nat (- logarithm)
      else 1000000 * 2 ^ nat logarithm)"

definition ptp_capable_interval_period :: "ptp_capable_interval \<Rightarrow> int" where
  "ptp_capable_interval_period s =
     (if ci_log_interval s = 127 then 0
      else if ci_slowdown_remaining s \<noteq> 0 then ci_old_interval_us s
      else ptp_capable_interval_us (ci_log_interval s))"

definition ptp_capable_interval_request ::
    "ptp_capable_interval \<Rightarrow> int \<Rightarrow> bool \<times> ptp_capable_interval" where
  "ptp_capable_interval_request s request =
     (if request = -128 then (True, s)
      else
        let request = (if request = 126 then 0 else request);
            request = (if request \<ge> -24 \<and> request < -3 then -3 else request)
        in if request \<noteq> 127 \<and> ptp_capable_interval_us request = 0 then (False, s)
           else if request = ci_log_interval s then (True, s)
           else
             let previous = ptp_capable_interval_period s;
                 next_us = ptp_capable_interval_us request
             in (True, s\<lparr>ci_log_interval := request,
                         ci_slowdown_remaining := (if previous \<noteq> 0 \<and> next_us > previous then 9 else 0),
                         ci_old_interval_us := previous\<rparr>))"

definition ptp_capable_interval_sent ::
    "ptp_capable_interval \<Rightarrow> int \<Rightarrow> bool \<Rightarrow> ptp_capable_interval" where
  "ptp_capable_interval_sent s advertised_interval accepted =
     (if accepted \<and> ci_log_interval s = advertised_interval \<and> ci_slowdown_remaining s \<noteq> 0
      then s\<lparr>ci_slowdown_remaining := ci_slowdown_remaining s - 1\<rparr> else s)"

definition interval_zero :: ptp_capable_interval where
  "interval_zero = \<lparr>ci_log_interval = 0, ci_slowdown_remaining = 0, ci_old_interval_us = 0\<rparr>"

section \<open>The transmission schedule\<close>

record ptp_capable_schedule =
  cs_interval :: ptp_capable_interval
  cs_next_us :: int
  cs_queued_us :: int
  cs_serial :: u32
  cs_pending :: u32
  cs_sequence :: u16
  cs_advertised_interval :: int
  cs_active :: bool

definition schedule_zero :: ptp_capable_schedule where
  "schedule_zero = \<lparr>cs_interval = interval_zero, cs_next_us = 0, cs_queued_us = 0, cs_serial = 0,
     cs_pending = 0, cs_sequence = 0, cs_advertised_interval = 0, cs_active = False\<rparr>"

text \<open>\<open>memset(schedule, 0, ...)\<close> with the serial kept, the reset that every owner of a
  schedule uses.\<close>

definition schedule_retire :: "ptp_capable_schedule \<Rightarrow> ptp_capable_schedule" where
  "schedule_retire s = schedule_zero\<lparr>cs_serial := cs_serial s\<rparr>"

definition ptp_capable_schedule_request ::
    "ptp_capable_schedule \<Rightarrow> int \<Rightarrow> bool \<times> ptp_capable_schedule" where
  "ptp_capable_schedule_request s request =
     (case ptp_capable_interval_request (cs_interval s) request of
        (False, i) \<Rightarrow> (False, s\<lparr>cs_interval := i\<rparr>)
      | (True, i) \<Rightarrow>
          (True, if ci_log_interval i \<noteq> ci_log_interval (cs_interval s)
                 then s\<lparr>cs_interval := i, cs_pending := 0, cs_active := False\<rparr>
                 else s\<lparr>cs_interval := i\<rparr>))"

definition ptp_capable_schedule_begin ::
    "ptp_capable_schedule \<Rightarrow> bool \<Rightarrow> int \<Rightarrow> u32 \<times> ptp_capable_schedule" where
  "ptp_capable_schedule_begin s enabled now_us =
     (if \<not> enabled then (0, s\<lparr>cs_pending := 0, cs_active := False\<rparr>)
      else
        let period = ptp_capable_interval_period (cs_interval s) in
        if period = 0 \<or> now_us < 0 \<or> now_us > INT64_MAX - period then (0, s)
        else if cs_pending s \<noteq> 0 \<and>
                (now_us < cs_queued_us s \<or> now_us - cs_queued_us s < 1000000) then (0, s)
        else
          let s = s\<lparr>cs_pending := 0\<rparr> in
          if cs_active s \<and> now_us < cs_next_us s then (0, s)
          else
            let next_us = (if \<not> cs_active s \<or> now_us - cs_next_us s \<ge> period then now_us + period
                           else cs_next_us s + period);
                serial = bump32 (cs_serial s)
            in (serial, s\<lparr>cs_next_us := next_us, cs_queued_us := now_us, cs_active := True,
                          cs_serial := serial, cs_pending := serial,
                          cs_advertised_interval := ci_log_interval (cs_interval s),
                          cs_sequence := cs_sequence s + 1\<rparr>))"

definition ptp_capable_schedule_finish ::
    "ptp_capable_schedule \<Rightarrow> u32 \<Rightarrow> bool \<Rightarrow> int \<Rightarrow> bool \<times> ptp_capable_schedule" where
  "ptp_capable_schedule_finish s token accepted now_us =
     (if token = 0 \<or> cs_pending s \<noteq> token then (False, s)
      else
        let s = s\<lparr>cs_pending := 0\<rparr> in
        if now_us < cs_queued_us s \<or> now_us - cs_queued_us s \<ge> 1000000 then (False, s)
        else
          let previous = ptp_capable_interval_period (cs_interval s);
              i = ptp_capable_interval_sent (cs_interval s) (cs_advertised_interval s) accepted;
              period = ptp_capable_interval_period i;
              s = s\<lparr>cs_interval := i\<rparr>
          in (True, if period \<noteq> previous \<and> now_us \<le> INT64_MAX - period
                    then s\<lparr>cs_next_us := now_us + period\<rparr> else s))"

definition ptp_capable_schedule_wait_ms :: "ptp_capable_schedule \<Rightarrow> int \<Rightarrow> int \<Rightarrow> int" where
  "ptp_capable_schedule_wait_ms s now_us maximum_ms =
     (if maximum_ms \<le> 0 \<or> now_us < 0 \<or> ptp_capable_interval_period (cs_interval s) = 0 then maximum_ms
      else
        let delay = (if cs_active s \<and> cs_next_us s > now_us then cs_next_us s - now_us else 0);
            delay = (if cs_pending s \<noteq> 0 \<and> delay = 0 \<and> now_us \<ge> cs_queued_us s \<and>
                        now_us - cs_queued_us s < 1000000 then 10000 else delay);
            milliseconds = ceil_ms delay
        in if milliseconds < maximum_ms then milliseconds else maximum_ms)"

section \<open>Stop and resume of Sync\<close>

definition ptp_sync_interval_reset :: "bool \<times> u32 \<Rightarrow> bool \<times> u32" where
  "ptp_sync_interval_reset s = (False, bump32 (snd s))"

definition ptp_sync_interval_request :: "bool \<times> u32 \<Rightarrow> int \<Rightarrow> bool \<times> bool \<times> u32" where
  "ptp_sync_interval_request s requested =
     (if requested = -128 then (True, s)
      else if requested \<noteq> -3 \<and> requested \<noteq> 126 \<and> requested \<noteq> 127 then (False, s)
      else
        let nxt = (requested = 127) in
        (True, if nxt \<noteq> fst s then (nxt, bump32 (snd s)) else s))"

section \<open>Receipt of a neighbor's indication\<close>

record ptp_capable_receive =
  cr_message :: ptp_capable_message
  cr_lifecycle :: u32
  cr_received_us :: int
  cr_expires_us :: int
  cr_valid :: bool

definition receive_zero :: ptp_capable_receive where
  "receive_zero = \<lparr>cr_message = \<lparr>cm_source_port = replicate 10 0, cm_log_interval = 0\<rparr>,
     cr_lifecycle = 0, cr_received_us = 0, cr_expires_us = 0, cr_valid = False\<rparr>"

definition ptp_capable_receive ::
    "ptp_capable_receive \<Rightarrow> ptp_capable_message \<Rightarrow> bytes option \<Rightarrow> u32 \<Rightarrow> int \<Rightarrow>
     bool \<times> ptp_capable_receive" where
  "ptp_capable_receive s message neighbor lifecycle now_us =
     (case neighbor of None \<Rightarrow> (False, s)
      | Some nb \<Rightarrow>
        if cm_source_port message \<noteq> nb \<or> cm_log_interval message < -24 \<or>
           cm_log_interval message > 24 \<or> now_us < 0 then (False, s)
        else
          let interval = (if cm_log_interval message \<ge> 0
                          then 9000000 * 2 ^ nat (cm_log_interval message)
                          else let divisor = 2 ^ nat (- cm_log_interval message)
                               in (9000000 + divisor - 1) div divisor)
          in if now_us > INT64_MAX - interval then (False, s)
             else (True, \<lparr>cr_message = message, cr_lifecycle = lifecycle, cr_received_us = now_us,
                          cr_expires_us = now_us + interval, cr_valid = True\<rparr>))"

definition ptp_neighbor_capable ::
    "ptp_capable_receive \<Rightarrow> bytes option \<Rightarrow> u32 \<Rightarrow> int \<Rightarrow> bool" where
  "ptp_neighbor_capable s neighbor lifecycle now_us \<longleftrightarrow>
     cr_valid s \<and> neighbor \<noteq> None \<and> cr_lifecycle s = lifecycle \<and>
     cm_source_port (cr_message s) = the neighbor \<and>
     now_us \<ge> cr_received_us s \<and> now_us < cr_expires_us s"

section \<open>The wired neighbor's schedule\<close>

record ptp_wired_capable =
  wc_transmit :: ptp_capable_schedule
  wc_lifecycle :: u32
  wc_identity :: bytes
  wc_bound :: bool

definition wired_capable_zero :: ptp_wired_capable where
  "wired_capable_zero = \<lparr>wc_transmit = schedule_zero, wc_lifecycle = 0,
     wc_identity = replicate 10 0, wc_bound = False\<rparr>"

definition ptp_wired_capable_bind ::
    "ptp_wired_capable \<Rightarrow> u32 \<Rightarrow> bytes option \<Rightarrow> ptp_wired_capable" where
  "ptp_wired_capable_bind s lifecycle identity =
     (let s = (if wc_lifecycle s \<noteq> lifecycle \<or>
                  (identity \<noteq> None \<and> wc_bound s \<and> wc_identity s \<noteq> the identity)
               then wired_capable_zero\<lparr>wc_transmit := schedule_retire (wc_transmit s),
                                       wc_lifecycle := lifecycle\<rparr>
               else s)
      in (case identity of None \<Rightarrow> s
          | Some ident \<Rightarrow> s\<lparr>wc_identity := ident, wc_bound := True\<rparr>))"

definition ptp_wired_capable_request ::
    "ptp_wired_capable \<Rightarrow> u32 \<Rightarrow> ptp_capable_message \<Rightarrow> bool \<times> ptp_wired_capable" where
  "ptp_wired_capable_request s lifecycle request =
     (if wc_bound s \<and> wc_lifecycle s = lifecycle \<and> wc_identity s = cm_source_port request
      then (case ptp_capable_schedule_request (wc_transmit s) (cm_log_interval request) of
              (ok, t) \<Rightarrow> (ok, s\<lparr>wc_transmit := t\<rparr>))
      else (False, s))"

section \<open>The interval invariant\<close>

definition interval_inv :: "ptp_capable_interval \<Rightarrow> bool" where
  "interval_inv s \<longleftrightarrow>
     (ci_log_interval s = 127 \<or> (-3 \<le> ci_log_interval s \<and> ci_log_interval s \<le> 24)) \<and>
     ci_slowdown_remaining s \<le> 9 \<and>
     (ci_slowdown_remaining s \<noteq> 0 \<longrightarrow>
        125000 \<le> ci_old_interval_us s \<and>
        ci_old_interval_us s < ptp_capable_interval_us (ci_log_interval s))"

lemma interval_us_zero_iff: "ptp_capable_interval_us l = 0 \<longleftrightarrow> l < -3 \<or> l > 24"
proof -
  have "1000000 div 2 ^ nat (- l) \<noteq> (0::int)" if "-3 \<le> l" "l < 0"
  proof -
    from that have "l = -3 \<or> l = -2 \<or> l = -1" by linarith
    then show ?thesis by auto
  qed
  then show ?thesis by (auto simp: ptp_capable_interval_us_def)
qed

lemma interval_us_bounds:
  assumes "-3 \<le> l" "l \<le> 24"
  shows "125000 \<le> ptp_capable_interval_us l \<and> ptp_capable_interval_us l \<le> 16777216000000"
proof (cases "l < 0")
  case True
  with assms have "l = -3 \<or> l = -2 \<or> l = -1" by linarith
  then show ?thesis by (auto simp: ptp_capable_interval_us_def)
next
  case False
  with assms pow2_24_bounds [of l] show ?thesis
    by (simp add: ptp_capable_interval_us_def del: one_le_power)
qed

lemma interval_period_cases:
  assumes "interval_inv s"
  shows "ptp_capable_interval_period s = 0 \<or>
         (125000 \<le> ptp_capable_interval_period s \<and> ptp_capable_interval_period s \<le> 16777216000000)"
proof (cases "ci_log_interval s = 127")
  case True
  then show ?thesis by (simp add: ptp_capable_interval_period_def)
next
  case False
  with assms have "125000 \<le> ptp_capable_interval_us (ci_log_interval s) \<and>
      ptp_capable_interval_us (ci_log_interval s) \<le> 16777216000000"
    by (intro interval_us_bounds) (auto simp: interval_inv_def)
  with assms False show ?thesis
    by (auto simp: ptp_capable_interval_period_def interval_inv_def)
qed

lemma interval_inv_zero: "interval_inv interval_zero"
  by (simp add: interval_inv_def interval_zero_def)

lemma interval_inv_change:
  assumes "interval_inv s" "r = 127 \<or> (-3 \<le> r \<and> r \<le> 24)"
    "previous = ptp_capable_interval_period s"
  shows "interval_inv (s\<lparr>ci_log_interval := r,
     ci_slowdown_remaining := (if previous \<noteq> 0 \<and> ptp_capable_interval_us r > previous then 9 else 0),
     ci_old_interval_us := previous\<rparr>)"
  using interval_period_cases [OF assms(1)] assms(2,3) by (auto simp: interval_inv_def)

lemma interval_inv_request:
  assumes "interval_inv s"
  shows "interval_inv (snd (ptp_capable_interval_request s r))"
proof -
  have normal: "interval_inv (snd (if q \<noteq> 127 \<and> ptp_capable_interval_us q = 0 then (False, s)
      else if q = ci_log_interval s then (True, s)
      else (True, s\<lparr>ci_log_interval := q,
        ci_slowdown_remaining := (if ptp_capable_interval_period s \<noteq> 0 \<and>
           ptp_capable_interval_us q > ptp_capable_interval_period s then 9 else 0),
        ci_old_interval_us := ptp_capable_interval_period s\<rparr>)))" for q
  proof (cases "q = 127 \<or> (-3 \<le> q \<and> q \<le> 24)")
    case True
    from interval_inv_change [OF assms this refl] assms show ?thesis
      by (simp only: snd_conv split: if_split) blast
  next
    case False
    then have "q \<noteq> 127 \<and> ptp_capable_interval_us q = 0" by (auto simp: interval_us_zero_iff)
    with assms show ?thesis by (simp only: if_True snd_conv simp_thms)
  qed
  show ?thesis
    unfolding ptp_capable_interval_request_def Let_def
    by (cases "r = -128") (simp_all only: if_True if_False snd_conv assms normal simp_thms)
qed

lemma interval_inv_sent: "interval_inv s \<Longrightarrow> interval_inv (ptp_capable_interval_sent s adv acc)"
proof -
  assume inv: "interval_inv s"
  have "ci_slowdown_remaining s \<noteq> 0 \<Longrightarrow> ci_slowdown_remaining s \<le> 9 \<Longrightarrow> ci_slowdown_remaining s - 1 \<le> 9"
    by uint_arith
  with inv show ?thesis
    by (auto simp: ptp_capable_interval_sent_def interval_inv_def)
qed

definition schedule_inv :: "ptp_capable_schedule \<Rightarrow> bool" where
  "schedule_inv s \<longleftrightarrow> interval_inv (cs_interval s) \<and> (cs_pending s = 0 \<or> cs_pending s = cs_serial s) \<and>
     in_i64 (cs_next_us s) \<and> in_i64 (cs_queued_us s)"

section \<open>The schedule as a provider of completion tokens\<close>

datatype schedule_change = ChangeInterval int | Retire

definition schedule_amend :: "ptp_capable_schedule \<Rightarrow> schedule_change \<Rightarrow> ptp_capable_schedule" where
  "schedule_amend s c = (case c of ChangeInterval r \<Rightarrow> snd (ptp_capable_schedule_request s r)
                         | Retire \<Rightarrow> schedule_retire s)"

lemmas schedule_defs = ptp_capable_schedule_request_def ptp_capable_schedule_begin_def
  ptp_capable_schedule_finish_def schedule_retire_def schedule_zero_def

interpretation capable_tokens: token_schedule cs_pending cs_serial
  "\<lambda>s (enabled, now). ptp_capable_schedule_begin s enabled now"
  ptp_capable_schedule_finish schedule_amend
  by unfold_locales
     (auto simp: schedule_defs schedule_amend_def Let_def
           split: if_splits schedule_change.splits prod.splits bool.splits)

lemma schedule_request_interval:
  "cs_interval (snd (ptp_capable_schedule_request s r)) = snd (ptp_capable_interval_request (cs_interval s) r)"
  by (auto simp: ptp_capable_schedule_request_def split: prod.splits bool.splits)

lemma schedule_begin_interval [simp]:
  "cs_interval (snd (ptp_capable_schedule_begin s e now)) = cs_interval s"
  by (simp add: ptp_capable_schedule_begin_def Let_def)

lemma schedule_finish_interval_inv:
  "interval_inv (cs_interval s) \<Longrightarrow> interval_inv (cs_interval (snd (ptp_capable_schedule_finish s t acc now)))"
  by (auto simp: ptp_capable_schedule_finish_def Let_def interval_inv_sent)

lemma schedule_token_inv:
  "schedule_inv s \<longleftrightarrow> interval_inv (cs_interval s) \<and> capable_tokens.token_inv s \<and>
     in_i64 (cs_next_us s) \<and> in_i64 (cs_queued_us s)"
  by (simp add: schedule_inv_def capable_tokens.token_inv_def)

lemma schedule_inv_zero: "schedule_inv (schedule_zero\<lparr>cs_serial := n\<rparr>)"
  by (simp add: schedule_inv_def schedule_zero_def interval_inv_zero in_i64_def)

text \<open>The deadline moves past the moment of transmission, by at most one period.\<close>

lemma schedule_begin_token:
  assumes "ptp_capable_schedule_begin s enabled now = (t, s')" "t \<noteq> 0"
  defines "period \<equiv> ptp_capable_interval_period (cs_interval s)"
  shows "enabled" "period \<noteq> 0" "0 \<le> now" "now \<le> INT64_MAX - period"
    "cs_active s \<Longrightarrow> cs_next_us s \<le> now"
    "cs_next_us s' = (if \<not> cs_active s \<or> now - cs_next_us s \<ge> period then now + period else cs_next_us s + period)"
    "cs_queued_us s' = now" "cs_active s'" "cs_sequence s' = cs_sequence s + 1"
    "cs_advertised_interval s' = ci_log_interval (cs_interval s)"
  using assms by (auto simp: ptp_capable_schedule_begin_def Let_def split: if_splits)

lemma schedule_begin_deadline:
  assumes "interval_inv (cs_interval s)"
    and "ptp_capable_schedule_begin s enabled now = (t, s')" "t \<noteq> 0"
  shows "now < cs_next_us s' \<and> cs_next_us s' \<le> now + ptp_capable_interval_period (cs_interval s) \<and>
         (cs_active s \<longrightarrow> cs_next_us s + ptp_capable_interval_period (cs_interval s) \<le> cs_next_us s')"
proof -
  note facts = schedule_begin_token [OF assms(2,3)]
  have "0 < ptp_capable_interval_period (cs_interval s)"
    using interval_period_cases [OF assms(1)] facts(2) by linarith
  then show ?thesis using facts(5,6) by auto
qed

lemma schedule_inv_begin:
  assumes "schedule_inv s"
  shows "schedule_inv (snd (ptp_capable_schedule_begin s enabled now))"
proof -
  obtain t s' where eq: "ptp_capable_schedule_begin s enabled now = (t, s')" by force
  have tok: "capable_tokens.token_inv s'"
    using assms eq capable_tokens.token_inv_issue [of s "(enabled, now)"]
    by (simp add: schedule_token_inv)
  have int: "interval_inv (cs_interval s')"
    using assms eq schedule_begin_interval [of s enabled now] by (simp add: schedule_inv_def)
  have times: "in_i64 (cs_next_us s') \<and> in_i64 (cs_queued_us s')"
  proof (cases "t = 0")
    case True
    with eq assms show ?thesis
      by (auto simp: ptp_capable_schedule_begin_def Let_def schedule_inv_def split: if_splits)
  next
    case False
    note facts = schedule_begin_token [OF eq False]
    from assms have "interval_inv (cs_interval s)" by (simp add: schedule_inv_def)
    note d = schedule_begin_deadline [OF this eq False]
    with facts(3,4,7) interval_period_cases [OF \<open>interval_inv (cs_interval s)\<close>] show ?thesis
      by (auto simp: in_i64_def)
  qed
  show ?thesis using tok int times eq by (simp add: schedule_token_inv)
qed

lemma schedule_inv_request:
  assumes "schedule_inv s"
  shows "schedule_inv (snd (ptp_capable_schedule_request s r))"
proof -
  have "capable_tokens.token_inv (schedule_amend s (ChangeInterval r))"
    using assms by (intro capable_tokens.token_inv_amend) (simp add: schedule_token_inv)
  then have "capable_tokens.token_inv (snd (ptp_capable_schedule_request s r))"
    by (simp add: schedule_amend_def)
  moreover have "cs_next_us (snd (ptp_capable_schedule_request s r)) = cs_next_us s"
    "cs_queued_us (snd (ptp_capable_schedule_request s r)) = cs_queued_us s"
    by (auto simp: ptp_capable_schedule_request_def split: prod.splits bool.splits)
  ultimately show ?thesis
    using assms by (simp add: schedule_token_inv schedule_request_interval interval_inv_request)
qed

lemma schedule_inv_finish:
  assumes "schedule_inv s"
  shows "schedule_inv (snd (ptp_capable_schedule_finish s t acc now))"
proof -
  have tok: "capable_tokens.token_inv (snd (ptp_capable_schedule_finish s t acc now))"
    using assms by (intro capable_tokens.token_inv_finish) (simp add: schedule_token_inv)
  let ?i = "ptp_capable_interval_sent (cs_interval s) (cs_advertised_interval s) acc"
  have "interval_inv ?i" using assms by (simp add: schedule_inv_def interval_inv_sent)
  from interval_period_cases [OF this]
  have "in_i64 (cs_next_us (snd (ptp_capable_schedule_finish s t acc now)))"
    using assms by (auto simp: ptp_capable_schedule_finish_def Let_def schedule_inv_def in_i64_def)
  moreover have "cs_queued_us (snd (ptp_capable_schedule_finish s t acc now)) = cs_queued_us s"
    by (simp add: ptp_capable_schedule_finish_def Let_def)
  ultimately show ?thesis
    using tok assms by (simp add: schedule_token_inv schedule_finish_interval_inv)
qed

section \<open>Reachable schedules\<close>

inductive schedule_step :: "ptp_capable_schedule \<Rightarrow> ptp_capable_schedule \<Rightarrow> bool" where
  step_request: "schedule_step s (snd (ptp_capable_schedule_request s r))"
| step_begin: "schedule_step s (snd (ptp_capable_schedule_begin s enabled now))"
| step_finish: "schedule_step s (snd (ptp_capable_schedule_finish s token accepted now))"
| step_retire: "schedule_step s (schedule_retire s)"

inductive_cases schedule_stepE: "schedule_step s s'"

lemma schedule_inv_step: "schedule_step s s' \<Longrightarrow> schedule_inv s \<Longrightarrow> schedule_inv s'"
  by (auto elim!: schedule_stepE
      simp: schedule_inv_request schedule_inv_begin schedule_inv_finish schedule_retire_def schedule_inv_zero)

lemma schedule_inv_reachable: "schedule_step\<^sup>*\<^sup>* s s' \<Longrightarrow> schedule_inv s \<Longrightarrow> schedule_inv s'"
  by (induction rule: rtranclp_induct) (auto intro: schedule_inv_step)

lemma schedule_inv_start: "schedule_inv schedule_zero"
  using schedule_inv_zero [of 0] by (simp add: schedule_zero_def)

text \<open>Whatever interval requests, transmissions, completions and resets happen, a
  schedule that starts zeroed never sends more than eight capability messages a second: the
  period in force is 0 (stopped) or at least 125 ms, a slowdown in progress keeps the old,
  strictly shorter period, at most one token is outstanding and it is the last one issued,
  and the two time fields never leave the 64-bit range.\<close>

theorem capable_rate_limited:
  assumes "schedule_step\<^sup>*\<^sup>* schedule_zero s"
  shows "(ptp_capable_interval_period (cs_interval s) = 0 \<or>
          125000 \<le> ptp_capable_interval_period (cs_interval s)) \<and>
         (ci_slowdown_remaining (cs_interval s) \<noteq> 0 \<longrightarrow>
            ptp_capable_interval_period (cs_interval s) < ptp_capable_interval_us (ci_log_interval (cs_interval s))) \<and>
         (cs_pending s = 0 \<or> cs_pending s = cs_serial s) \<and>
         in_i64 (cs_next_us s) \<and> in_i64 (cs_queued_us s)"
proof -
  from assms schedule_inv_start have inv: "schedule_inv s" by (rule schedule_inv_reachable)
  then have int: "interval_inv (cs_interval s)" by (simp add: schedule_inv_def)
  from interval_period_cases [OF this] inv show ?thesis
    by (auto simp: schedule_inv_def interval_inv_def ptp_capable_interval_period_def
                   ptp_capable_interval_us_def)
qed

theorem capable_rate_limited_witness:
  "let s = snd (ptp_capable_schedule_begin schedule_zero True 5000000) in
     (ptp_capable_interval_period (cs_interval s) = 0 \<or>
      125000 \<le> ptp_capable_interval_period (cs_interval s)) \<and> cs_pending s = 1 \<and> cs_next_us s = 6000000"
proof -
  have "schedule_step\<^sup>*\<^sup>* schedule_zero (snd (ptp_capable_schedule_begin schedule_zero True 5000000))"
    by (rule r_into_rtranclp) (rule step_begin)
  from capable_rate_limited [OF this] show ?thesis
    by (simp add: Let_def ptp_capable_schedule_begin_def schedule_zero_def interval_zero_def
        ptp_capable_interval_period_def ptp_capable_interval_us_def bump32_def)
qed

text \<open>A transmission moves the deadline past the present, by no more than one period,
  and by at least one full period from the previous deadline; so n transmissions of an
  active schedule use up at least n periods, and none happens before its deadline.\<close>

theorem capable_deadline_advances:
  assumes "interval_inv (cs_interval s)"
    and "ptp_capable_schedule_begin s enabled now = (token, s')" "token \<noteq> 0"
  shows "enabled \<and> now < cs_next_us s' \<and>
         cs_next_us s' \<le> now + ptp_capable_interval_period (cs_interval s) \<and>
         (cs_active s \<longrightarrow> cs_next_us s \<le> now \<and>
            cs_next_us s + ptp_capable_interval_period (cs_interval s) \<le> cs_next_us s') \<and>
         cs_sequence s' = cs_sequence s + 1"
  using schedule_begin_deadline [OF assms] schedule_begin_token [OF assms(2,3)] by auto

theorem capable_deadline_advances_witness:
  "let s = schedule_zero\<lparr>cs_active := True, cs_next_us := 4500000\<rparr>;
       s' = snd (ptp_capable_schedule_begin s True 5000000)
   in 5000000 < cs_next_us s' \<and> cs_next_us s' = 5500000"
proof -
  let ?s = "schedule_zero\<lparr>cs_active := True, cs_next_us := 4500000\<rparr>"
  have inv: "interval_inv (cs_interval ?s)" by (simp add: schedule_zero_def interval_inv_zero)
  have eq: "ptp_capable_schedule_begin ?s True 5000000 =
      (1, snd (ptp_capable_schedule_begin ?s True 5000000))"
    and val: "cs_next_us (snd (ptp_capable_schedule_begin ?s True 5000000)) = 5500000"
    by (simp_all add: ptp_capable_schedule_begin_def schedule_zero_def interval_zero_def
        ptp_capable_interval_period_def ptp_capable_interval_us_def bump32_def)
  from capable_deadline_advances [OF inv eq] val show ?thesis by (simp add: Let_def)
qed

text \<open>A completion is believed at most once and only for the transmission outstanding:
  finishing with any other token, with the token of an earlier transmission, or again with
  the same token is refused and leaves the schedule alone.\<close>

theorem capable_completion_once:
  "(fst (ptp_capable_schedule_finish s token accepted now) \<longrightarrow> token \<noteq> 0 \<and> cs_pending s = token) \<and>
   fst (ptp_capable_schedule_finish (snd (ptp_capable_schedule_finish s token accepted now))
          token accepted' now') = False \<and>
   (\<forall>enabled later s'. ptp_capable_schedule_begin s enabled later = (token', s') \<longrightarrow> token' \<noteq> 0 \<longrightarrow>
      ptp_capable_schedule_finish s' (cs_serial s) accepted now = (False, s'))"
  using capable_tokens.finish_accepts_pending [of s token accepted now]
    capable_tokens.finish_once [of s token accepted now accepted' now']
    capable_tokens.superseded_token [of s "(_, _)" token' _ "cs_serial s" accepted now]
  by auto

theorem capable_completion_once_witness:
  "ptp_capable_schedule_finish
     (schedule_zero\<lparr>cs_serial := 2, cs_pending := 2, cs_interval := interval_zero,
        cs_active := True, cs_next_us := 6000000, cs_queued_us := 5000000, cs_sequence := 1\<rparr>) 1 True 0 =
   (False, schedule_zero\<lparr>cs_serial := 2, cs_pending := 2, cs_interval := interval_zero,
        cs_active := True, cs_next_us := 6000000, cs_queued_us := 5000000, cs_sequence := 1\<rparr>)"
proof -
  let ?s = "schedule_zero\<lparr>cs_serial := 1\<rparr>"
  have "ptp_capable_schedule_begin ?s True 5000000 =
     (2, schedule_zero\<lparr>cs_serial := 2, cs_pending := 2, cs_interval := interval_zero,
        cs_active := True, cs_next_us := 6000000, cs_queued_us := 5000000, cs_sequence := 1\<rparr>)"
    by (simp add: ptp_capable_schedule_begin_def schedule_zero_def interval_zero_def
        ptp_capable_interval_period_def ptp_capable_interval_us_def bump32_def)
  then show ?thesis
    using capable_completion_once [of ?s 1 True 0 True 0 2] by (simp add: schedule_zero_def)
qed

section \<open>Slowing down\<close>

lemma u8_small_eq_0: "n \<le> 9 \<Longrightarrow> (word_of_nat n = (0::u8)) = (n = 0)"
  by (auto simp: word_of_nat_eq_0_iff dest!: nat_dvd_not_less [rotated])

lemma sent_slowdown_unat:
  assumes "ci_slowdown_remaining s = 9" "k \<le> 9"
  shows "((\<lambda>i. ptp_capable_interval_sent i (ci_log_interval s) True) ^^ k) s =
         s\<lparr>ci_slowdown_remaining := word_of_nat (9 - k)\<rparr>"
  using assms(2)
proof (induction k)
  case 0
  then show ?case using assms(1) by simp
next
  case (Suc k)
  have nz: "word_of_nat (9 - k) \<noteq> (0::u8)"
    using Suc.prems u8_small_eq_0 [of "9 - k"] by (simp del: of_nat_diff)
  have "word_of_nat (9 - k) - 1 = (word_of_nat (9 - Suc k) :: u8)"
  proof -
    from Suc.prems have "9 - k = Suc (9 - Suc k)" by linarith
    then show ?thesis by simp
  qed
  with Suc nz show ?case by (simp add: ptp_capable_interval_sent_def del: of_nat_diff)
qed

text \<open>A request for a longer interval takes effect after exactly nine accepted
  transmissions that advertised it: through the first eight the schedule keeps the previous
  period, and after the ninth it uses the requested one.\<close>

theorem capable_slowdown_after_nine:
  assumes "interval_inv s" "ptp_capable_interval_period s \<noteq> 0" "-3 \<le> r" "r \<le> 24"
    and "ptp_capable_interval_us r > ptp_capable_interval_period s" "r \<noteq> ci_log_interval s"
  defines "s' \<equiv> snd (ptp_capable_interval_request s r)"
  shows "fst (ptp_capable_interval_request s r) \<and>
         (\<forall>k \<le> 9. ptp_capable_interval_period
              (((\<lambda>i. ptp_capable_interval_sent i r True) ^^ k) s') =
            (if k < 9 then ptp_capable_interval_period s else ptp_capable_interval_us r))"
proof -
  have req: "ptp_capable_interval_request s r =
      (True, s\<lparr>ci_log_interval := r, ci_slowdown_remaining := 9,
               ci_old_interval_us := ptp_capable_interval_period s\<rparr>)"
    using assms(2-6) by (simp add: ptp_capable_interval_request_def Let_def interval_us_zero_iff)
  have log: "ci_log_interval s' = r" "ci_slowdown_remaining s' = 9"
    "ci_old_interval_us s' = ptp_capable_interval_period s"
    by (simp_all add: s'_def req)
  have "ptp_capable_interval_period (((\<lambda>i. ptp_capable_interval_sent i r True) ^^ k) s') =
      (if k < 9 then ptp_capable_interval_period s else ptp_capable_interval_us r)" if "k \<le> 9" for k
  proof -
    have "((\<lambda>i. ptp_capable_interval_sent i r True) ^^ k) s' =
        s'\<lparr>ci_slowdown_remaining := word_of_nat (9 - k)\<rparr>"
      using sent_slowdown_unat [of s' k] log that by simp
    moreover have "(word_of_nat (9 - k) = (0::u8)) = (k = 9)"
      using that u8_small_eq_0 [of "9 - k"] by (simp del: of_nat_diff)
    ultimately show ?thesis
      using log that assms(3,4) by (simp add: ptp_capable_interval_period_def del: of_nat_diff)
  qed
  with req show ?thesis by simp
qed

theorem capable_slowdown_after_nine_witness:
  "ptp_capable_interval_period
     (((\<lambda>i. ptp_capable_interval_sent i 3 True) ^^ 8) (snd (ptp_capable_interval_request interval_zero 3))) = 1000000"
proof -
  have "fst (ptp_capable_interval_request interval_zero 3) \<and>
         (\<forall>k \<le> 9. ptp_capable_interval_period
              (((\<lambda>i. ptp_capable_interval_sent i 3 True) ^^ k) (snd (ptp_capable_interval_request interval_zero 3))) =
            (if k < 9 then ptp_capable_interval_period interval_zero else ptp_capable_interval_us 3))"
    by (rule capable_slowdown_after_nine)
       (simp_all add: interval_inv_zero, simp_all add: interval_zero_def ptp_capable_interval_period_def
         ptp_capable_interval_us_def)
  from this [THEN conjunct2, rule_format, of 8] show ?thesis
    by (simp add: interval_zero_def ptp_capable_interval_period_def ptp_capable_interval_us_def)
qed

section \<open>The poll timeout\<close>

text \<open>The poll timeout that the daemon takes from a running schedule is at most the
  timeout it would use anyway, never negative, wakes no later than the deadline rounded up to a
  millisecond, and is zero only when there is work to do at once: the schedule is due and no
  transmission is waiting for its completion.\<close>

theorem capable_wait_bounded:
  assumes "0 < maximum_ms" "0 \<le> now" "ptp_capable_interval_period (cs_interval s) \<noteq> 0"
  defines "wait \<equiv> ptp_capable_schedule_wait_ms s now maximum_ms"
  shows "0 \<le> wait \<and> wait \<le> maximum_ms \<and>
         (cs_active s \<and> now < cs_next_us s \<longrightarrow> (wait - 1) * 1000 < cs_next_us s - now) \<and>
         (wait = 0 \<longrightarrow> (cs_active s \<longrightarrow> cs_next_us s \<le> now) \<and>
            \<not> (cs_pending s \<noteq> 0 \<and> cs_queued_us s \<le> now \<and> now - cs_queued_us s < 1000000))"
proof -
  define delay0 where "delay0 = (if cs_active s \<and> cs_next_us s > now then cs_next_us s - now else 0)"
  define delay where "delay = (if cs_pending s \<noteq> 0 \<and> delay0 = 0 \<and> now \<ge> cs_queued_us s \<and>
                        now - cs_queued_us s < 1000000 then 10000 else delay0)"
  define ms where "ms = ceil_ms delay"
  have wait: "wait = (if ms < maximum_ms then ms else maximum_ms)"
    using assms by (simp add: ptp_capable_schedule_wait_ms_def wait_def ms_def delay_def delay0_def Let_def)
  have d0: "0 \<le> delay0" by (simp add: delay0_def)
  then have d: "0 \<le> delay" by (simp add: delay_def)
  note ms0 = ceil_ms_bounds [OF d, folded ms_def]
  have "cs_active s \<and> now < cs_next_us s \<Longrightarrow> delay = cs_next_us s - now \<and> 0 < delay"
    by (simp add: delay_def delay0_def)
  then have wake: "cs_active s \<and> now < cs_next_us s \<longrightarrow> (wait - 1) * 1000 < cs_next_us s - now"
    using ms0 wait by auto
  have idle: "(cs_active s \<longrightarrow> cs_next_us s \<le> now) \<and>
      \<not> (cs_pending s \<noteq> 0 \<and> cs_queued_us s \<le> now \<and> now - cs_queued_us s < 1000000)" if "wait = 0"
  proof -
    have "delay = 0" using that ms0 wait assms(1) by (auto split: if_splits)
    then show ?thesis by (auto simp: delay_def delay0_def split: if_splits)
  qed
  show ?thesis using wake idle ms0 wait assms(1) by auto
qed

theorem capable_wait_bounded_witness:
  "let s = schedule_zero\<lparr>cs_active := True, cs_next_us := 5000001\<rparr> in
     0 \<le> ptp_capable_schedule_wait_ms s 4000000 2000 \<and>
     ptp_capable_schedule_wait_ms s 4000000 2000 = 1001"
proof -
  let ?s = "schedule_zero\<lparr>cs_active := True, cs_next_us := 5000001\<rparr>"
  have p: "ptp_capable_interval_period (cs_interval ?s) \<noteq> 0"
    by (simp add: schedule_zero_def interval_zero_def ptp_capable_interval_period_def
        ptp_capable_interval_us_def)
  have "ptp_capable_schedule_wait_ms ?s 4000000 2000 = 1001"
    using p by (simp add: ptp_capable_schedule_wait_ms_def schedule_zero_def ceil_ms_def)
  then show ?thesis
    using capable_wait_bounded [of 2000 4000000 ?s] p by (simp add: Let_def)
qed

section \<open>The receipt window\<close>

interpretation capable_window: freshness_window
  "\<lambda>(s, neighbor, lifecycle) now. ptp_neighbor_capable s neighbor lifecycle now"
  "\<lambda>(s, neighbor, lifecycle). cr_valid s \<and> neighbor \<noteq> None \<and> cr_lifecycle s = lifecycle \<and>
     cm_source_port (cr_message s) = the neighbor"
  "\<lambda>(s, neighbor, lifecycle). cr_received_us s"
  "\<lambda>(s, neighbor, lifecycle). cr_expires_us s - cr_received_us s"
  by unfold_locales (auto simp: ptp_neighbor_capable_def)

text \<open>Nine advertised intervals in microseconds, rounded up.\<close>

definition nine_intervals_us :: "int \<Rightarrow> int" where
  "nine_intervals_us l = (if 0 \<le> l then 9000000 * 2 ^ nat l
                          else (9000000 + 2 ^ nat (- l) - 1) div 2 ^ nat (- l))"

lemma nine_intervals_bounds:
  assumes "-24 \<le> l" "l \<le> 24"
  shows "1 \<le> nine_intervals_us l \<and> nine_intervals_us l \<le> 150994944000000"
proof (cases "0 \<le> l")
  case True
  with pow2_24_bounds [of l] assms show ?thesis
    by (simp add: nine_intervals_us_def del: one_le_power)
next
  case False
  let ?d = "2 ^ nat (- l) :: int"
  have "?d \<le> 16777216" "1 \<le> ?d" using pow2_24_bounds [of "- l"] assms by (simp_all del: one_le_power)
  with ceil_div_bounds [of 9000000 ?d] False show ?thesis
    by (simp add: nine_intervals_us_def del: one_le_power)
qed

text \<open>An accepted capability indication is believed for exactly nine of the intervals
  it advertises, counted from its receipt and rounded up to a microsecond, by the neighbor it
  names and within the association lifetime it arrived in; the expiry never overflows.  A
  refused indication (unknown or different sender, reserved interval, time out of range)
  leaves the record untouched.\<close>

theorem capable_receipt_window:
  "ptp_capable_receive s message neighbor lifecycle now =
     (if neighbor = Some (cm_source_port message) \<and> -24 \<le> cm_log_interval message \<and>
         cm_log_interval message \<le> 24 \<and> 0 \<le> now \<and>
         now \<le> INT64_MAX - nine_intervals_us (cm_log_interval message)
      then (True, snd (ptp_capable_receive s message neighbor lifecycle now))
      else (False, s)) \<and>
   (fst (ptp_capable_receive s message neighbor lifecycle now) \<longrightarrow>
      in_i64 (cr_expires_us (snd (ptp_capable_receive s message neighbor lifecycle now))) \<and>
      (\<forall>t nb lc. ptp_neighbor_capable (snd (ptp_capable_receive s message neighbor lifecycle now)) nb lc t \<longleftrightarrow>
         nb = neighbor \<and> lc = lifecycle \<and> now \<le> t \<and> t < now + nine_intervals_us (cm_log_interval message)))"
proof -
  have eq: "(if cm_log_interval message \<ge> 0 then 9000000 * 2 ^ nat (cm_log_interval message)
     else let divisor = 2 ^ nat (- cm_log_interval message) in (9000000 + divisor - 1) div divisor) =
     nine_intervals_us (cm_log_interval message)"
    by (simp add: nine_intervals_us_def Let_def)
  have run: "ptp_capable_receive s message neighbor lifecycle now =
     (if neighbor = Some (cm_source_port message) \<and> -24 \<le> cm_log_interval message \<and>
         cm_log_interval message \<le> 24 \<and> 0 \<le> now \<and>
         now \<le> INT64_MAX - nine_intervals_us (cm_log_interval message)
      then (True, \<lparr>cr_message = message, cr_lifecycle = lifecycle, cr_received_us = now,
                   cr_expires_us = now + nine_intervals_us (cm_log_interval message), cr_valid = True\<rparr>)
      else (False, s))"
    unfolding ptp_capable_receive_def eq by (auto simp: Let_def split: option.splits)
  show ?thesis
    unfolding run
    by (auto simp: ptp_neighbor_capable_def in_i64_def nine_intervals_bounds)
       (use nine_intervals_bounds [of "cm_log_interval message"] in linarith)+
qed

theorem capable_receipt_window_witness:
  "ptp_neighbor_capable (snd (ptp_capable_receive receive_zero \<lparr>cm_source_port = [1], cm_log_interval = 0\<rparr>
     (Some [1]) 7 100)) (Some [1]) 7 9000099"
  using capable_receipt_window [of receive_zero "\<lparr>cm_source_port = [1], cm_log_interval = 0\<rparr>" "Some [1]" 7 100]
  by (simp add: nine_intervals_us_def ptp_capable_receive_def)

end
