(* ===== verification/Ptp_Receipt.thy ===== *)
theory Ptp_Receipt
  imports Ptp_Capable
begin

text \<open>
  How long received timing is believed: \<^verbatim>\<open>ptp_sync_receipt.h\<close> (the Sync receipt timeout),
  \<^verbatim>\<open>ptp_peer_capability.h\<close> (freshness of the qualified peer-delay exchange that makes a
  wired port asCapable), the beacon freshness test of \<^verbatim>\<open>ptp_ftm_session.h\<close> and the
  Announce receipt timeout of \<^verbatim>\<open>ptp.c\<close>.  Each of them is a freshness window; the clients'
  facts come from that interface.
\<close>

section \<open>Sync receipt timeout\<close>

record ptp_sync_receipt =
  sr_received_us :: int
  sr_interval_us :: int
  sr_armed :: bool

definition sync_receipt_zero :: ptp_sync_receipt where
  "sync_receipt_zero = \<lparr>sr_received_us = 0, sr_interval_us = 0, sr_armed = False\<rparr>"

definition ptp_sync_receipt_interval :: "int \<Rightarrow> int" where
  "ptp_sync_receipt_interval logarithm =
     (if logarithm < -24 \<or> logarithm > 24 then 0
      else if logarithm \<ge> 0 then 3000000 * 2 ^ nat logarithm
      else let divisor = 2 ^ nat (- logarithm) in (3000000 + divisor - 1) div divisor)"

definition ptp_sync_receipt_start :: "int \<Rightarrow> int \<Rightarrow> ptp_sync_receipt" where
  "ptp_sync_receipt_start now_us initial_interval_us =
     \<lparr>sr_received_us = now_us, sr_interval_us = initial_interval_us,
      sr_armed = (now_us \<ge> 0 \<and> initial_interval_us > 0)\<rparr>"

definition ptp_sync_receipt_current :: "ptp_sync_receipt \<Rightarrow> int \<Rightarrow> bool" where
  "ptp_sync_receipt_current s now_us \<longleftrightarrow>
     sr_armed s \<and> now_us \<ge> sr_received_us s \<and> now_us - sr_received_us s < sr_interval_us s"

definition ptp_sync_receipt_observe_window ::
    "ptp_sync_receipt \<Rightarrow> int \<Rightarrow> int \<Rightarrow> int \<Rightarrow> bool \<times> ptp_sync_receipt" where
  "ptp_sync_receipt_observe_window s received_us window_us now_us =
     (if window_us \<le> 0 \<or> received_us < 0 \<or> now_us < received_us \<or>
         now_us - received_us \<ge> window_us \<or>
         (sr_armed s \<and> received_us < sr_received_us s) then (False, s)
      else (True, ptp_sync_receipt_start received_us window_us))"

definition ptp_sync_receipt_observe ::
    "ptp_sync_receipt \<Rightarrow> int \<Rightarrow> int \<Rightarrow> int \<Rightarrow> bool \<times> ptp_sync_receipt" where
  "ptp_sync_receipt_observe s received_us logarithm now_us =
     ptp_sync_receipt_observe_window s received_us (ptp_sync_receipt_interval logarithm) now_us"

definition ptp_sync_receipt_wait_ms :: "ptp_sync_receipt \<Rightarrow> int \<Rightarrow> int \<Rightarrow> int" where
  "ptp_sync_receipt_wait_ms s now_us limit_ms =
     (if limit_ms \<le> 0 \<or> \<not> ptp_sync_receipt_current s now_us then 0
      else let remaining = sr_interval_us s - (now_us - sr_received_us s);
               milliseconds = ceil_ms remaining
           in if milliseconds < limit_ms then milliseconds else limit_ms)"

section \<open>Peer capability\<close>

record ptp_peer_capability =
  pc_lifecycle :: u32
  pc_received_us :: int
  pc_qualified :: bool

definition ptp_peer_capable ::
    "ptp_peer_capability \<Rightarrow> u32 \<Rightarrow> int \<Rightarrow> int \<Rightarrow> bool \<Rightarrow> bool \<Rightarrow> bool \<Rightarrow> nat \<Rightarrow> bool \<Rightarrow> bool" where
  "ptp_peer_capable capability lifecycle now_us interval_us enabled link_up gptp domain neighbor_capable \<longleftrightarrow>
     enabled \<and> link_up \<and> gptp \<and> (domain = 0 \<or> neighbor_capable) \<and>
     pc_qualified capability \<and> pc_lifecycle capability = lifecycle \<and>
     interval_us > 0 \<and> interval_us \<le> INT64_MAX sdiv 3 \<and>
     now_us \<ge> pc_received_us capability \<and>
     now_us - pc_received_us capability < interval_us * 3"

section \<open>Beacon freshness\<close>

definition ptp_ftm_beacon_fresh :: "bool \<Rightarrow> bool \<Rightarrow> int \<Rightarrow> int \<Rightarrow> int \<Rightarrow> bool" where
  "ptp_ftm_beacon_fresh have_tsf have_gptp associated_us received_us now_us \<longleftrightarrow>
     have_tsf \<and> have_gptp \<and> associated_us > 0 \<and> received_us \<ge> associated_us \<and>
     now_us \<ge> received_us \<and> now_us - received_us \<le> 1000000"

section \<open>Announce receipt timeout\<close>

text \<open>\<open>announce_interval_ms\<close> is the build's \<^verbatim>\<open>CONFIG_ESP_PTP_ANNOUNCE_INTERVAL_MS\<close>,
  \<open>logmessageinterval\<close> the octet of the received header.\<close>

definition ptp_announce_receipt_timeout_ns :: "int \<Rightarrow> u8 \<Rightarrow> int" where
  "ptp_announce_receipt_timeout_ns announce_interval_ms logmessageinterval =
     (let interval = sint logmessageinterval in
      if interval < -24 \<or> interval > 24 then 3000000 * announce_interval_ms
      else if interval \<ge> 0 then 3000000000 * 2 ^ nat interval
      else let divisor = 2 ^ nat (- interval) in (3000000000 + divisor - 1) div divisor)"

section \<open>Windows\<close>

interpretation sync_window: freshness_window ptp_sync_receipt_current sr_armed sr_received_us sr_interval_us
  by unfold_locales (auto simp: ptp_sync_receipt_current_def)

interpretation peer_window: freshness_window
  "\<lambda>(capability, lifecycle, interval_us, enabled, link_up, gptp, domain, neighbor) now.
     ptp_peer_capable capability lifecycle now interval_us enabled link_up gptp domain neighbor"
  "\<lambda>(capability, lifecycle, interval_us, enabled, link_up, gptp, domain, neighbor).
     enabled \<and> link_up \<and> gptp \<and> (domain = 0 \<or> neighbor) \<and> pc_qualified capability \<and>
     pc_lifecycle capability = lifecycle \<and> interval_us > 0 \<and> interval_us \<le> INT64_MAX sdiv 3"
  "\<lambda>(capability, lifecycle, interval_us, enabled, link_up, gptp, domain, neighbor). pc_received_us capability"
  "\<lambda>(capability, lifecycle, interval_us, enabled, link_up, gptp, domain, neighbor). interval_us * 3"
  by unfold_locales (auto simp: ptp_peer_capable_def)

interpretation beacon_window: freshness_window
  "\<lambda>(tsf, gptp, associated_us, received_us) now. ptp_ftm_beacon_fresh tsf gptp associated_us received_us now"
  "\<lambda>(tsf, gptp, associated_us, received_us). tsf \<and> gptp \<and> associated_us > 0 \<and> associated_us \<le> received_us"
  "\<lambda>(tsf, gptp, associated_us, received_us). received_us"
  "\<lambda>(tsf, gptp, associated_us, received_us). 1000001"
  by unfold_locales (auto simp: ptp_ftm_beacon_fresh_def)

lemma sync_receipt_interval_bounds:
  assumes "-24 \<le> l" "l \<le> 24"
  shows "1 \<le> ptp_sync_receipt_interval l \<and> ptp_sync_receipt_interval l \<le> 50331648000000"
proof (cases "0 \<le> l")
  case True
  with pow2_24_bounds [of l] assms show ?thesis
    by (simp add: ptp_sync_receipt_interval_def del: one_le_power)
next
  case False
  have "1 \<le> (2::int) ^ nat (- l)" using pow2_24_bounds [of "- l"] assms by (simp del: one_le_power)
  with ceil_div_bounds [of 3000000 "2 ^ nat (- l)"] assms False show ?thesis
    by (simp add: ptp_sync_receipt_interval_def Let_def del: one_le_power)
qed

lemma sync_receipt_interval_zero_iff: "ptp_sync_receipt_interval l = 0 \<longleftrightarrow> l < -24 \<or> l > 24"
  using sync_receipt_interval_bounds [of l] by (force simp: ptp_sync_receipt_interval_def)

definition sync_receipt_inv :: "ptp_sync_receipt \<Rightarrow> bool" where
  "sync_receipt_inv s \<longleftrightarrow> (sr_armed s \<longrightarrow> 0 \<le> sr_received_us s \<and> 0 < sr_interval_us s)"

text \<open>A Sync receipt is believed for the observed window from the time of receipt and
  no longer: an accepted observation makes the receipt current exactly during its window, so
  it is current when it is accepted; the receipt time never moves backwards; an observation
  that is stale, from the future, older than the one held, or with a reserved interval is
  refused without effect.\<close>

theorem sync_receipt_observed:
  fixes received logarithm now :: int
  assumes "sync_receipt_inv s"
  defines "r \<equiv> ptp_sync_receipt_observe s received logarithm now"
  shows "sync_receipt_inv (snd r) \<and>
         (if fst r
          then -24 \<le> logarithm \<and> logarithm \<le> 24 \<and> received \<le> now \<and>
               (sr_armed s \<longrightarrow> sr_received_us s \<le> sr_received_us (snd r)) \<and>
               ptp_sync_receipt_current (snd r) now \<and>
               (\<forall>t. ptp_sync_receipt_current (snd r) t \<longleftrightarrow>
                    received \<le> t \<and> t < received + ptp_sync_receipt_interval logarithm)
          else snd r = s)"
  using assms sync_receipt_interval_zero_iff [of logarithm]
  by (auto simp: ptp_sync_receipt_observe_def ptp_sync_receipt_observe_window_def
      ptp_sync_receipt_start_def ptp_sync_receipt_current_def sync_receipt_inv_def)

theorem sync_receipt_observed_witness:
  "ptp_sync_receipt_current (snd (ptp_sync_receipt_observe sync_receipt_zero 1000000 (-3) 1000000)) 1374999 \<and>
   \<not> ptp_sync_receipt_current (snd (ptp_sync_receipt_observe sync_receipt_zero 1000000 (-3) 1000000)) 1375000"
proof -
  have "sync_receipt_inv sync_receipt_zero" by (simp add: sync_receipt_inv_def sync_receipt_zero_def)
  from sync_receipt_observed [OF this, of 1000000 "-3" 1000000] show ?thesis
    by (auto simp: ptp_sync_receipt_observe_def ptp_sync_receipt_observe_window_def
        ptp_sync_receipt_interval_def sync_receipt_zero_def Let_def)
qed

text \<open>The poll timeout derived from a receipt never sleeps past its expiry by a whole
  millisecond, never exceeds the caller's limit, and is zero exactly when the receipt has
  expired (or the limit is not positive), so the daemon notices a Sync timeout within a
  millisecond.\<close>

theorem sync_receipt_wait_bounded:
  fixes s :: ptp_sync_receipt and now limit_ms :: int
  assumes "0 < limit_ms"
  defines "wait \<equiv> ptp_sync_receipt_wait_ms s now limit_ms"
  shows "0 \<le> wait \<and> wait \<le> limit_ms \<and>
         (wait = 0 \<longleftrightarrow> \<not> ptp_sync_receipt_current s now) \<and>
         (ptp_sync_receipt_current s now \<longrightarrow>
            now + (wait - 1) * 1000 < sr_received_us s + sr_interval_us s)"
proof (cases "ptp_sync_receipt_current s now")
  case False
  then show ?thesis using assms by (simp add: ptp_sync_receipt_wait_ms_def)
next
  case True
  define rem where "rem = sr_interval_us s - (now - sr_received_us s)"
  from True have pos: "0 < rem" by (simp add: ptp_sync_receipt_current_def rem_def)
  then have wait: "wait = min (ceil_ms rem) limit_ms"
    using assms(1) True by (auto simp: ptp_sync_receipt_wait_ms_def rem_def wait_def min_def Let_def)
  note b = ceil_ms_bounds [of rem]
  from pos b have "0 < ceil_ms rem" "(ceil_ms rem - 1) * 1000 < rem" by auto
  with True wait assms(1) show ?thesis by (auto simp: rem_def min_def)
qed

theorem sync_receipt_wait_bounded_witness:
  "ptp_sync_receipt_wait_ms (ptp_sync_receipt_start 0 375000) 374500 100 = 1 \<and> (0::int) < 100"
  using sync_receipt_wait_bounded [of 100 "ptp_sync_receipt_start 0 375000" 374500]
  by (simp add: ptp_sync_receipt_wait_ms_def ptp_sync_receipt_start_def ptp_sync_receipt_current_def
      ceil_ms_def)

text \<open>A wired port that is asCapable at a moment of local time stops being so at the
  latest three request intervals after its last qualified exchange and never becomes capable
  again without a new one; outside domain 0 it also needs the neighbor's capability
  indication.  The comparison cannot overflow: the product is taken only for intervals up to
  a third of the 64-bit range.\<close>

theorem peer_capability_expires:
  assumes "ptp_peer_capable c lc now interval enabled link gptp domain neighbor"
  shows "now < pc_received_us c + 3 * interval \<and> in_i64 (interval * 3) \<and>
         (domain \<noteq> 0 \<longrightarrow> neighbor) \<and> pc_qualified c \<and> pc_lifecycle c = lc \<and>
         (\<forall>t e l g d n. pc_received_us c + 3 * interval \<le> t \<longrightarrow>
            \<not> ptp_peer_capable c lc t interval e l g d n)"
  using assms by (auto simp: ptp_peer_capable_def in_i64_def signed_divide_int_def)

theorem peer_capability_expires_witness:
  "\<not> ptp_peer_capable \<lparr>pc_lifecycle = 4, pc_received_us = 10, pc_qualified = True\<rparr> 4 3000010 1000000
       True True True 0 False"
proof -
  have "ptp_peer_capable \<lparr>pc_lifecycle = 4, pc_received_us = 10, pc_qualified = True\<rparr> 4 3000009 1000000
       True True True 0 False"
    by (simp add: ptp_peer_capable_def signed_divide_int_def)
  from peer_capability_expires [OF this] show ?thesis by simp
qed

end
