(* ===== verification/Ptp_Announce_Schedule.thy ===== *)
theory Ptp_Announce_Schedule
  imports Ptp_Capable
begin

text \<open>
  Model of \<^verbatim>\<open>ptp_announce_schedule.h\<close>: the per-station Announce schedule of an access
  point.  It is the second provider of the one-outstanding-transmission interface; the
  invariant says that a station is never served faster than the configured base rate and
  that a slowdown keeps the old rate for three accepted messages.
\<close>

record ptp_announce_schedule =
  as_initialized :: bool
  as_active :: bool
  as_initial_log :: int
  as_log_interval :: int
  as_pending_log :: int
  as_slowdown_remaining :: u8
  as_sequence :: u16
  as_revision :: u32
  as_serial :: u32
  as_pending :: u32
  as_information_revision :: u32
  as_old_period_us :: int
  as_next_us :: int
  as_queued_us :: int

definition announce_zero :: ptp_announce_schedule where
  "announce_zero = \<lparr>as_initialized = False, as_active = False, as_initial_log = 0, as_log_interval = 0,
     as_pending_log = 0, as_slowdown_remaining = 0, as_sequence = 0, as_revision = 0, as_serial = 0,
     as_pending = 0, as_information_revision = 0, as_old_period_us = 0, as_next_us = 0,
     as_queued_us = 0\<rparr>"

definition ptp_announce_reset :: "ptp_announce_schedule \<Rightarrow> ptp_announce_schedule" where
  "ptp_announce_reset s =
     announce_zero\<lparr>as_revision := bump32 (as_revision s), as_serial := as_serial s,
                   as_sequence := as_sequence s\<rparr>"

definition ptp_announce_period_us :: "int \<Rightarrow> int" where
  "ptp_announce_period_us logarithm =
     (if logarithm < -24 \<or> logarithm > 24 then 0
      else if logarithm \<ge> 0 then 1000000 * 2 ^ nat logarithm
      else let divisor = 2 ^ nat (- logarithm) in (1000000 + divisor - 1) div divisor)"

definition ptp_announce_initialize :: "ptp_announce_schedule \<Rightarrow> int \<Rightarrow> bool \<times> ptp_announce_schedule" where
  "ptp_announce_initialize s initial =
     (if ptp_announce_period_us initial = 0 then (False, s)
      else if as_initialized s then (as_initial_log s = initial, s)
      else (True, s\<lparr>as_initialized := True, as_initial_log := initial, as_log_interval := initial\<rparr>))"

definition ptp_announce_effective_period :: "ptp_announce_schedule \<Rightarrow> int" where
  "ptp_announce_effective_period s =
     (if as_log_interval s = 127 then 0
      else if as_slowdown_remaining s \<noteq> 0 then as_old_period_us s
      else ptp_announce_period_us (as_log_interval s))"

definition ptp_announce_request :: "ptp_announce_schedule \<Rightarrow> int \<Rightarrow> int \<Rightarrow> bool \<times> ptp_announce_schedule" where
  "ptp_announce_request s initial request =
     (if request \<noteq> -128 \<and> request \<noteq> 126 \<and> request \<noteq> 127 \<and> (request < -24 \<or> request > 24) then (False, s)
      else
        (case ptp_announce_initialize s initial of
           (False, s) \<Rightarrow> (False, s)
         | (True, s) \<Rightarrow>
             if request = -128 then (True, s)
             else
               let request = (if request = 126 then initial else request);
                   request = (if request \<noteq> 127 \<and> request < initial then initial else request)
               in if request = as_log_interval s then (True, s)
                  else
                    let previous = ptp_announce_effective_period s;
                        next_us = ptp_announce_period_us request
                    in (True, s\<lparr>as_log_interval := request, as_old_period_us := previous,
                                as_slowdown_remaining := (if previous \<noteq> 0 \<and> next_us > previous then 3 else 0),
                                as_pending := 0, as_active := False,
                                as_revision := bump32 (as_revision s)\<rparr>)))"

text \<open>The result carries the token, the advertised interval and the sequence number that
  the C function stores through its output pointers, and the new state.
  \<open>announce_begin_ready\<close> is the part of the function after its guards on the revision and the
  initial interval.\<close>

definition announce_begin_ready ::
    "ptp_announce_schedule \<Rightarrow> u32 \<Rightarrow> int \<Rightarrow> u32 \<times> (int \<times> u16) option \<times> ptp_announce_schedule" where
  "announce_begin_ready s information_revision now_us =
     (let period = ptp_announce_effective_period s in
      if period = 0 \<or> now_us < 0 \<or> now_us > INT64_MAX - period then (0, None, s)
      else
        let s = (if as_information_revision s \<noteq> information_revision
                 then s\<lparr>as_information_revision := information_revision, as_pending := 0,
                        as_active := False\<rparr> else s)
        in if as_pending s \<noteq> 0 \<and>
              (now_us < as_queued_us s \<or> now_us - as_queued_us s < 1000000) then (0, None, s)
           else
             let s = s\<lparr>as_pending := 0\<rparr> in
             if as_active s \<and> now_us < as_next_us s then (0, None, s)
             else
               let next_us = (if \<not> as_active s \<or> now_us - as_next_us s \<ge> period
                              then now_us + period else as_next_us s + period);
                   serial = bump32 (as_serial s);
                   sequence = as_sequence s + 1
               in (serial, Some (as_log_interval s, sequence),
                   s\<lparr>as_next_us := next_us, as_active := True, as_queued_us := now_us,
                     as_serial := serial, as_pending := serial,
                     as_pending_log := as_log_interval s, as_sequence := sequence\<rparr>))"

definition ptp_announce_begin ::
    "ptp_announce_schedule \<Rightarrow> int \<Rightarrow> u32 \<Rightarrow> u32 \<Rightarrow> int \<Rightarrow>
     u32 \<times> (int \<times> u16) option \<times> ptp_announce_schedule" where
  "ptp_announce_begin s initial expected_revision information_revision now_us =
     (if as_revision s \<noteq> expected_revision then (0, None, s)
      else
        (case ptp_announce_initialize s initial of
           (False, s) \<Rightarrow> (0, None, s)
         | (True, s) \<Rightarrow> announce_begin_ready s information_revision now_us))"

definition ptp_announce_finish ::
    "ptp_announce_schedule \<Rightarrow> u32 \<Rightarrow> bool \<Rightarrow> int \<Rightarrow> bool \<times> ptp_announce_schedule" where
  "ptp_announce_finish s token accepted now_us =
     (if token = 0 \<or> token \<noteq> as_pending s then (False, s)
      else
        let s = s\<lparr>as_pending := 0\<rparr> in
        if now_us < as_queued_us s \<or> now_us - as_queued_us s \<ge> 1000000 then (False, s)
        else if accepted \<and> as_pending_log s = as_log_interval s \<and> as_slowdown_remaining s \<noteq> 0 then
          let remaining = as_slowdown_remaining s - 1;
              s = s\<lparr>as_slowdown_remaining := remaining\<rparr>;
              period = ptp_announce_period_us (as_log_interval s)
          in (True, if remaining = 0 \<and> now_us \<le> INT64_MAX - period
                    then s\<lparr>as_next_us := now_us + period\<rparr> else s)
        else (True, s))"

section \<open>Tokens\<close>

datatype announce_change = AnnounceRequest int int | AnnounceReset

definition announce_amend :: "ptp_announce_schedule \<Rightarrow> announce_change \<Rightarrow> ptp_announce_schedule" where
  "announce_amend s c = (case c of AnnounceRequest initial r \<Rightarrow> snd (ptp_announce_request s initial r)
                         | AnnounceReset \<Rightarrow> ptp_announce_reset s)"

definition announce_issue ::
    "ptp_announce_schedule \<Rightarrow> int \<times> u32 \<times> u32 \<times> int \<Rightarrow> u32 \<times> ptp_announce_schedule" where
  "announce_issue s a = (case a of (initial, expected, information, now) \<Rightarrow>
     (case ptp_announce_begin s initial expected information now of (t, out, s') \<Rightarrow> (t, s')))"

lemma announce_initialize_fields [simp]:
  "as_serial (snd (ptp_announce_initialize s i)) = as_serial s"
  "as_pending (snd (ptp_announce_initialize s i)) = as_pending s"
  "as_revision (snd (ptp_announce_initialize s i)) = as_revision s"
  "as_queued_us (snd (ptp_announce_initialize s i)) = as_queued_us s"
  "as_next_us (snd (ptp_announce_initialize s i)) = as_next_us s"
  "as_active (snd (ptp_announce_initialize s i)) = as_active s"
  "as_sequence (snd (ptp_announce_initialize s i)) = as_sequence s"
  by (simp_all add: ptp_announce_initialize_def)

lemma announce_initialize_fieldsE:
  assumes "ptp_announce_initialize s i = (b, s')"
  shows "as_serial s' = as_serial s" "as_pending s' = as_pending s" "as_revision s' = as_revision s"
    "as_active s' = as_active s" "as_next_us s' = as_next_us s" "as_queued_us s' = as_queued_us s"
    "as_sequence s' = as_sequence s"
  using assms announce_initialize_fields [of s i] by auto

lemma announce_request_token:
  "as_serial (snd (ptp_announce_request s i r)) = as_serial s \<and>
   (as_pending (snd (ptp_announce_request s i r)) = as_pending s \<or>
    as_pending (snd (ptp_announce_request s i r)) = 0)"
proof -
  obtain b s1 where eq: "ptp_announce_initialize s i = (b, s1)" by force
  note f = announce_initialize_fieldsE [OF eq]
  show ?thesis
    unfolding ptp_announce_request_def eq Let_def
    by (simp add: f split: bool.split)
qed

lemma announce_begin_ready_token:
  assumes "announce_begin_ready s information now = (t, out, s')"
  shows "(t \<noteq> 0 \<longrightarrow> as_pending s' = t \<and> as_serial s' = t \<and> t = bump32 (as_serial s)) \<and>
         (t = 0 \<longrightarrow> as_serial s' = as_serial s \<and> (as_pending s' = as_pending s \<or> as_pending s' = 0))"
  using assms
  by (cases "as_information_revision s = information")
     (auto simp: announce_begin_ready_def Let_def split: if_splits)

lemma announce_issue_token:
  assumes "announce_issue s a = (t, s')"
  shows "(t \<noteq> 0 \<longrightarrow> as_pending s' = t \<and> as_serial s' = t \<and> t = bump32 (as_serial s)) \<and>
         (t = 0 \<longrightarrow> as_serial s' = as_serial s \<and> (as_pending s' = as_pending s \<or> as_pending s' = 0))"
  using assms
  by (auto simp: announce_issue_def ptp_announce_begin_def announce_initialize_fieldsE
           split: prod.splits bool.splits if_splits dest!: announce_begin_ready_token)

interpretation announce_tokens: token_schedule as_pending as_serial announce_issue
  ptp_announce_finish announce_amend
proof unfold_locales
  show "announce_issue s a = (t, s') \<Longrightarrow> t \<noteq> 0 \<Longrightarrow>
      as_pending s' = t \<and> as_serial s' = t \<and> t = bump32 (as_serial s)" for s a t s'
    using announce_issue_token [of s a t s'] by blast
  show "announce_issue s a = (0, s') \<Longrightarrow> as_serial s' = as_serial s \<and> (as_pending s' = as_pending s \<or> as_pending s' = 0)" for s a s'
    using announce_issue_token [of s a 0 s'] by blast
  show "as_serial (announce_amend s b) = as_serial s" for s b
    by (auto simp: announce_amend_def announce_request_token ptp_announce_reset_def split: announce_change.splits)
  show "as_pending (announce_amend s b) = as_pending s \<or> as_pending (announce_amend s b) = 0" for s b
    using announce_request_token [of s]
    by (auto simp: announce_amend_def ptp_announce_reset_def announce_zero_def split: announce_change.splits)
qed (auto simp: ptp_announce_finish_def Let_def)

section \<open>Invariant\<close>

definition announce_inv :: "ptp_announce_schedule \<Rightarrow> bool" where
  "announce_inv s \<longleftrightarrow>
     (as_pending s = 0 \<or> as_pending s = as_serial s) \<and> as_slowdown_remaining s \<le> 3 \<and>
     (as_initialized s \<longrightarrow> -24 \<le> as_initial_log s \<and> as_initial_log s \<le> 24 \<and>
        (as_log_interval s = 127 \<or> (as_initial_log s \<le> as_log_interval s \<and> as_log_interval s \<le> 24)) \<and>
        (as_slowdown_remaining s \<noteq> 0 \<longrightarrow>
           ptp_announce_period_us (as_initial_log s) \<le> as_old_period_us s \<and>
           as_old_period_us s < ptp_announce_period_us (as_log_interval s))) \<and>
     (\<not> as_initialized s \<longrightarrow> as_slowdown_remaining s = 0)"

lemma announce_period_bounds:
  assumes "-24 \<le> l" "l \<le> 24"
  shows "1 \<le> ptp_announce_period_us l \<and> ptp_announce_period_us l \<le> 16777216000000"
proof (cases "0 \<le> l")
  case True
  with pow2_24_bounds [of l] assms show ?thesis
    by (simp add: ptp_announce_period_us_def del: one_le_power)
next
  case False
  have "1 \<le> (2::int) ^ nat (- l)" using pow2_24_bounds [of "- l"] assms by (simp del: one_le_power)
  with ceil_div_bounds [of 1000000 "2 ^ nat (- l)"] assms False show ?thesis
    by (simp add: ptp_announce_period_us_def Let_def del: one_le_power)
qed

lemma announce_period_zero_iff: "ptp_announce_period_us l = 0 \<longleftrightarrow> l < -24 \<or> l > 24"
  using announce_period_bounds [of l] by (force simp: ptp_announce_period_us_def)

lemma ceil_div_antimono:
  assumes "0 \<le> (x::int)" "0 < d" "d \<le> e"
  shows "(x + e - 1) div e \<le> (x + d - 1) div d"
proof -
  let ?q = "(x + d - 1) div d"
  have "x \<le> ?q * d" "0 \<le> ?q" using ceil_div_bounds [of x d] assms by auto
  moreover have "?q * d \<le> ?q * e" using calculation assms by (intro mult_left_mono) auto
  ultimately have "x + e - 1 \<le> ?q * e + (e - 1)" by linarith
  then have "(x + e - 1) div e \<le> (?q * e + (e - 1)) div e"
    using assms by (intro zdiv_mono1) auto
  also have "\<dots> = ?q" using assms by simp
  finally show ?thesis .
qed

lemma announce_period_mono:
  assumes "-24 \<le> a" "a \<le> b" "b \<le> 24"
  shows "ptp_announce_period_us a \<le> ptp_announce_period_us b"
proof (cases "0 \<le> a")
  case True
  with assms have "(2::int) ^ nat a \<le> 2 ^ nat b" by (intro power_increasing) auto
  with True assms show ?thesis by (simp add: ptp_announce_period_us_def)
next
  case neg: False
  show ?thesis
  proof (cases "0 \<le> b")
    case True
    have "ptp_announce_period_us a \<le> 1000000"
      using ceil_div_bounds [of 1000000 "2 ^ nat (- a)"] neg assms
      by (simp add: ptp_announce_period_us_def Let_def)
    also have "\<dots> \<le> ptp_announce_period_us b" using True assms by (simp add: ptp_announce_period_us_def)
    finally show ?thesis .
  next
    case False
    with neg assms have "(2::int) ^ nat (- b) \<le> 2 ^ nat (- a)" by (intro power_increasing) auto
    with ceil_div_antimono [of 1000000 "2 ^ nat (- b)" "2 ^ nat (- a)"] neg False assms show ?thesis
      by (simp add: ptp_announce_period_us_def Let_def)
  qed
qed

lemma announce_effective_period:
  assumes "announce_inv s" "as_initialized s"
  shows "ptp_announce_effective_period s = 0 \<or>
         (ptp_announce_period_us (as_initial_log s) \<le> ptp_announce_effective_period s \<and>
          ptp_announce_effective_period s \<le> 16777216000000)"
proof (cases "as_log_interval s = 127")
  case True
  then show ?thesis by (simp add: ptp_announce_effective_period_def)
next
  case False
  with assms have l: "-24 \<le> as_initial_log s" "as_initial_log s \<le> as_log_interval s" "as_log_interval s \<le> 24"
    by (auto simp: announce_inv_def)
  with announce_period_mono [OF l] announce_period_bounds [of "as_log_interval s"] assms False
  show ?thesis by (auto simp: ptp_announce_effective_period_def announce_inv_def)
qed

lemma announce_inv_zero: "announce_inv announce_zero"
  by (simp add: announce_inv_def announce_zero_def)

lemma announce_inv_reset: "announce_inv (ptp_announce_reset s)"
  by (simp add: announce_inv_def announce_zero_def ptp_announce_reset_def)

lemma announce_inv_initialize:
  assumes "announce_inv s" "ptp_announce_initialize s i = (b, s')"
  shows "announce_inv s'" "b \<Longrightarrow> as_initialized s' \<and> as_initial_log s' = i \<and> -24 \<le> i \<and> i \<le> 24"
  using assms announce_period_zero_iff [of i]
  by (auto simp: ptp_announce_initialize_def announce_inv_def split: if_splits)

lemma announce_inv_change:
  assumes "announce_inv s" "as_initialized s" "r = 127 \<or> (as_initial_log s \<le> r \<and> r \<le> 24)"
    "previous = ptp_announce_effective_period s"
  shows "announce_inv (s\<lparr>as_log_interval := r, as_old_period_us := previous,
     as_slowdown_remaining := (if previous \<noteq> 0 \<and> ptp_announce_period_us r > previous then 3 else 0),
     as_pending := 0, as_active := False, as_revision := v\<rparr>)"
  using announce_effective_period [OF assms(1,2)] assms by (auto simp: announce_inv_def)

lemma announce_inv_request:
  assumes "announce_inv s"
  shows "announce_inv (snd (ptp_announce_request s i r))"
proof -
  obtain b s1 where eq: "ptp_announce_initialize s i = (b, s1)" by force
  note inv = announce_inv_initialize [OF assms eq]
  have normal: "announce_inv (snd (if q = as_log_interval s1 then (True, s1)
      else (True, s1\<lparr>as_log_interval := q, as_old_period_us := ptp_announce_effective_period s1,
        as_slowdown_remaining := (if ptp_announce_effective_period s1 \<noteq> 0 \<and>
            ptp_announce_period_us q > ptp_announce_effective_period s1 then 3 else 0),
        as_pending := 0, as_active := False, as_revision := bump32 (as_revision s1)\<rparr>)))"
    if "b" "q = 127 \<or> (i \<le> q \<and> q \<le> 24)" for q
    using announce_inv_change [of s1 q "ptp_announce_effective_period s1" "bump32 (as_revision s1)"] inv that
    by (simp only: snd_conv split: if_split) simp
  show ?thesis
  proof (cases "b \<and> r \<noteq> -128 \<and> (r = 126 \<or> r = 127 \<or> (-24 \<le> r \<and> r \<le> 24))")
    case False
    then show ?thesis using assms inv(1)
      by (auto simp: ptp_announce_request_def eq split: bool.split)
  next
    case True
    let ?q1 = "if r = 126 then i else r"
    let ?q = "if ?q1 \<noteq> 127 \<and> ?q1 < i then i else ?q1"
    have q: "?q = 127 \<or> (i \<le> ?q \<and> ?q \<le> 24)" using True inv(2) by auto
    have g: "\<not> (r \<noteq> 126 \<and> r \<noteq> 127 \<and> (r < -24 \<or> 24 < r))" using True by auto
    show ?thesis
      unfolding ptp_announce_request_def eq Let_def
      using normal [OF _ q] True by (simp only: g if_False if_True prod.case bool.case simp_thms)
  qed
qed

lemma announce_inv_ready:
  assumes "announce_inv s"
  shows "announce_inv (snd (snd (announce_begin_ready s information now)))"
  using assms unfolding announce_begin_ready_def Let_def
  by (cases "as_information_revision s = information"; cases "as_pending s = 0")
     (simp_all add: announce_inv_def)

lemma announce_inv_begin:
  assumes "announce_inv s"
  shows "announce_inv (snd (snd (ptp_announce_begin s i e f now)))"
  using assms announce_inv_initialize(1) [OF assms] announce_inv_ready
  by (auto simp: ptp_announce_begin_def split: prod.split bool.split)

lemma announce_inv_finish:
  assumes "announce_inv s"
  shows "announce_inv (snd (ptp_announce_finish s t acc now))"
proof -
  have "as_slowdown_remaining s \<noteq> 0 \<Longrightarrow> as_slowdown_remaining s \<le> 3 \<Longrightarrow> as_slowdown_remaining s - 1 \<le> 3"
    by uint_arith
  with assms show ?thesis by (auto simp: ptp_announce_finish_def announce_inv_def Let_def)
qed

inductive announce_step :: "ptp_announce_schedule \<Rightarrow> ptp_announce_schedule \<Rightarrow> bool" where
  announce_step_request: "announce_step s (snd (ptp_announce_request s i r))"
| announce_step_begin: "announce_step s (snd (snd (ptp_announce_begin s i e f now)))"
| announce_step_finish: "announce_step s (snd (ptp_announce_finish s t acc now))"
| announce_step_reset: "announce_step s (ptp_announce_reset s)"

lemma announce_inv_step: "announce_step s s' \<Longrightarrow> announce_inv s \<Longrightarrow> announce_inv s'"
  by (induction rule: announce_step.induct)
     (simp_all add: announce_inv_request announce_inv_begin announce_inv_finish announce_inv_reset)

lemma announce_inv_reachable: "announce_step\<^sup>*\<^sup>* s s' \<Longrightarrow> announce_inv s \<Longrightarrow> announce_inv s'"
  by (induction rule: rtranclp_induct) (auto intro: announce_inv_step)

section \<open>Properties\<close>

text \<open>Through any sequence of interval requests, transmissions, completions and
  resets, a station is never served Announce faster than the access point's configured base
  rate: the effective period is 0 (stopped) or at least the period of the initial interval,
  and the outstanding token, if any, is the last one issued.\<close>

theorem announce_base_rate:
  assumes "announce_step\<^sup>*\<^sup>* announce_zero s"
  shows "(as_initialized s \<longrightarrow> ptp_announce_effective_period s = 0 \<or>
            (0 < ptp_announce_period_us (as_initial_log s) \<and>
             ptp_announce_period_us (as_initial_log s) \<le> ptp_announce_effective_period s)) \<and>
         (as_pending s = 0 \<or> as_pending s = as_serial s)"
proof -
  from assms announce_inv_zero have inv: "announce_inv s" by (rule announce_inv_reachable)
  have "as_initialized s \<Longrightarrow> 0 < ptp_announce_period_us (as_initial_log s)"
    using inv announce_period_bounds [of "as_initial_log s"] by (auto simp: announce_inv_def)
  with announce_effective_period [OF inv] inv show ?thesis by (auto simp: announce_inv_def)
qed

theorem announce_base_rate_witness:
  "let s = snd (ptp_announce_request announce_zero 0 (-3)) in
     as_initialized s \<and> as_log_interval s = 0 \<and>
     (ptp_announce_effective_period s = 0 \<or>
      ptp_announce_period_us (as_initial_log s) \<le> ptp_announce_effective_period s)"
proof -
  have "announce_step\<^sup>*\<^sup>* announce_zero (snd (ptp_announce_request announce_zero 0 (-3)))"
    by (rule r_into_rtranclp) (rule announce_step_request)
  from announce_base_rate [OF this] show ?thesis
    by (simp add: Let_def ptp_announce_request_def ptp_announce_initialize_def announce_zero_def
        ptp_announce_period_us_def)
qed

text \<open>A change of a station's Announce interval retires the work copied before it: the
  revision moves, so a worker that still holds the old revision is given nothing to send,
  and the completion of the transmission that was outstanding no longer counts.\<close>

theorem announce_change_retires_work:
  assumes "ptp_announce_request s initial r = (True, s')"
    and "as_initialized s" "as_log_interval s' \<noteq> as_log_interval s"
  shows "as_revision s' = bump32 (as_revision s) \<and>
         ptp_announce_begin s' i2 (as_revision s) information now = (0, None, s') \<and>
         ptp_announce_finish s' (as_pending s) accepted now = (False, s') \<and>
         \<not> as_active s'"
proof -
  have init: "ptp_announce_initialize s initial = (as_initial_log s = initial, s) \<or>
      ptp_announce_initialize s initial = (False, s)"
    using assms(2) by (simp add: ptp_announce_initialize_def)
  have "as_revision s' = bump32 (as_revision s) \<and> as_pending s' = 0 \<and> \<not> as_active s'"
    using assms(1,3) init by (auto simp: ptp_announce_request_def Let_def split: if_splits bool.splits)
  then show ?thesis by (auto simp: ptp_announce_begin_def ptp_announce_finish_def)
qed

theorem announce_change_retires_work_witness:
  "let s = announce_zero\<lparr>as_initialized := True, as_pending := 5, as_serial := 5\<rparr>;
       s' = snd (ptp_announce_request s 0 3)
   in ptp_announce_finish s' 5 True 0 = (False, s') \<and> as_revision s' = 1"
proof -
  let ?s = "announce_zero\<lparr>as_initialized := True, as_pending := 5, as_serial := 5\<rparr>"
  have a: "ptp_announce_request ?s 0 3 = (True, snd (ptp_announce_request ?s 0 3))"
    and b: "as_log_interval (snd (ptp_announce_request ?s 0 3)) = 3"
    by (simp_all add: ptp_announce_request_def ptp_announce_initialize_def announce_zero_def
        ptp_announce_period_us_def ptp_announce_effective_period_def)
  have c: "as_log_interval ?s = 0" by (simp add: announce_zero_def)
  from announce_change_retires_work [OF a] b c show ?thesis
    by (simp add: Let_def announce_zero_def bump32_def)
qed

end
