(* ===== verification/Ptp_Wifi_Peers.thy ===== *)
theory Ptp_Wifi_Peers
  imports Ptp_Announce_Schedule
begin

text \<open>
  The association registry of an access point: \<^verbatim>\<open>ptp_wifi_association.h\<close> (port numbers of
  associations and the snapshot type) and \<^verbatim>\<open>ptp_wifi_peers.h\<close> (the sixteen-slot registry
  with its per-station state).  A pointer to an entry is the entry's slot.  The registry is
  shown to implement a finite map from MAC addresses to association lifetimes (the locale
  \<open>mac_registry\<close>), and reconciliation with the radio's authoritative list is shown to leave
  exactly the reported stations associated, the survivors in their old slots.
\<close>

section \<open>Association ports and snapshots\<close>

definition PTP_WIFI_ASSOCIATIONS_MAX :: nat where
  "PTP_WIFI_ASSOCIATIONS_MAX = 16"

abbreviation PTP_WIFI_PEERS_MAX :: nat where "PTP_WIFI_PEERS_MAX \<equiv> PTP_WIFI_ASSOCIATIONS_MAX"

record ptp_wifi_association_entry =
  ae_mac :: bytes
  ae_port_number :: nat
  ae_association :: u32
  ae_sync_stopped :: bool
  ae_sync_revision :: u32
  ae_announce_revision :: u32

record ptp_wifi_association_snapshot =
  sn_generation :: u32
  sn_radio_boot :: u32
  sn_radio_generation :: u32
  sn_entries :: "ptp_wifi_association_entry list"

definition ptp_wifi_association_port :: "nat \<Rightarrow> nat \<Rightarrow> nat \<Rightarrow> nat" where
  "ptp_wifi_association_port physical_port physical_count slot =
     (if physical_port = 0 \<or> physical_port > physical_count \<or>
         physical_count > 65535 div PTP_WIFI_ASSOCIATIONS_MAX \<or> slot \<ge> PTP_WIFI_ASSOCIATIONS_MAX then 0
      else if slot = 0 then physical_port
      else physical_count + (physical_port - 1) * (PTP_WIFI_ASSOCIATIONS_MAX - 1) + slot)"

section \<open>Peers\<close>

record ptp_wifi_peer =
  wp_associated :: bool
  wp_bound :: bool
  wp_sync_stopped :: bool
  wp_mac :: bytes
  wp_port_identity :: bytes
  wp_association :: u32
  wp_sync_revision :: u32
  wp_capable :: ptp_capable_receive
  wp_transmit :: ptp_capable_schedule
  wp_announce :: ptp_announce_schedule

record ptp_wifi_peers =
  ws_generation :: u32
  ws_radio_boot :: u32
  ws_radio_generation :: u32
  ws_reconciled_generation :: u32
  ws_unreported :: bool
  ws_entries :: "ptp_wifi_peer list"

definition peer_zero :: ptp_wifi_peer where
  "peer_zero = \<lparr>wp_associated = False, wp_bound = False, wp_sync_stopped = False,
     wp_mac = replicate 6 0, wp_port_identity = replicate 10 0, wp_association = 0,
     wp_sync_revision = 0, wp_capable = receive_zero, wp_transmit = schedule_zero,
     wp_announce = announce_zero\<rparr>"

definition peers_zero :: ptp_wifi_peers where
  "peers_zero = \<lparr>ws_generation = 0, ws_radio_boot = 0, ws_radio_generation = 0,
     ws_reconciled_generation = 0, ws_unreported = False,
     ws_entries = replicate PTP_WIFI_PEERS_MAX peer_zero\<rparr>"

text \<open>\<open>hosted\<close> is the build option \<^verbatim>\<open>CONFIG_ESP_PTP_HAS_AP_VIA_COPROCESSOR\<close>.\<close>

definition ptp_wifi_peers_publishable :: "bool \<Rightarrow> ptp_wifi_peers \<Rightarrow> bool" where
  "ptp_wifi_peers_publishable hosted peers \<longleftrightarrow>
     \<not> hosted \<or> ws_unreported peers \<or>
     (ws_radio_boot peers \<noteq> 0 \<and> ws_radio_generation peers \<noteq> 0 \<and>
      ws_reconciled_generation peers = ws_generation peers)"

definition ptp_wifi_peers_advance :: "ptp_wifi_peers \<Rightarrow> ptp_wifi_peers" where
  "ptp_wifi_peers_advance peers = peers\<lparr>ws_generation := bump32 (ws_generation peers)\<rparr>"

definition ptp_wifi_peers_find :: "ptp_wifi_peers \<Rightarrow> bytes option \<Rightarrow> nat option" where
  "ptp_wifi_peers_find peers mac =
     (case mac of None \<Rightarrow> None
      | Some m \<Rightarrow> find (\<lambda>index. wp_associated (ws_entries peers ! index) \<and>
                               wp_mac (ws_entries peers ! index) = m)
                      [0..<PTP_WIFI_PEERS_MAX])"

definition ptp_wifi_peers_clear :: "ptp_wifi_peers \<Rightarrow> ptp_wifi_peers" where
  "ptp_wifi_peers_clear peers =
     (ptp_wifi_peers_advance peers)\<lparr>ws_entries := replicate PTP_WIFI_PEERS_MAX peer_zero\<rparr>"

text \<open>The address tests of \<open>join\<close> and \<open>reconcile\<close>: neither a group address nor zero.\<close>

definition mac_acceptable :: "bytes \<Rightarrow> bool" where
  "mac_acceptable m \<longleftrightarrow> \<not> bit (m ! 0) 0 \<and> m \<noteq> replicate 6 0"

definition free_slot :: "ptp_wifi_peers \<Rightarrow> nat option" where
  "free_slot peers = find (\<lambda>index. \<not> wp_associated (ws_entries peers ! index)) [0..<PTP_WIFI_PEERS_MAX]"

definition ptp_wifi_peers_join :: "ptp_wifi_peers \<Rightarrow> bytes option \<Rightarrow> nat option \<times> ptp_wifi_peers" where
  "ptp_wifi_peers_join peers mac =
     (case mac of None \<Rightarrow> (None, peers)
      | Some m \<Rightarrow>
        if \<not> mac_acceptable m then (None, peers)
        else
          (case (case ptp_wifi_peers_find peers mac of Some i \<Rightarrow> Some i | None \<Rightarrow> free_slot peers) of
             None \<Rightarrow> (None, peers)
           | Some i \<Rightarrow>
               let peers' = ptp_wifi_peers_advance peers
               in (Some i, peers'\<lparr>ws_entries := (ws_entries peers)
                     [i := peer_zero\<lparr>wp_associated := True, wp_mac := m,
                                     wp_association := ws_generation peers'\<rparr>]\<rparr>)))"

definition ptp_wifi_peers_leave :: "ptp_wifi_peers \<Rightarrow> bytes option \<Rightarrow> ptp_wifi_peers" where
  "ptp_wifi_peers_leave peers mac =
     (case ptp_wifi_peers_find peers mac of None \<Rightarrow> peers
      | Some i \<Rightarrow> ptp_wifi_peers_advance (peers\<lparr>ws_entries := (ws_entries peers)[i := peer_zero]\<rparr>))"

section \<open>Signaling of an associated station\<close>

text \<open>What a change of the bound identity resets.\<close>

definition peer_rebind :: "ptp_wifi_peer \<Rightarrow> ptp_wifi_peer" where
  "peer_rebind peer =
     (let (stopped, revision) = ptp_sync_interval_reset (wp_sync_stopped peer, wp_sync_revision peer)
      in peer\<lparr>wp_capable := (wp_capable peer)\<lparr>cr_valid := False\<rparr>,
              wp_announce := ptp_announce_reset (wp_announce peer),
              wp_sync_stopped := stopped, wp_sync_revision := revision,
              wp_transmit := schedule_retire (wp_transmit peer)\<rparr>)"

definition update_entry :: "ptp_wifi_peers \<Rightarrow> nat \<Rightarrow> ptp_wifi_peer \<Rightarrow> ptp_wifi_peers" where
  "update_entry peers i peer = peers\<lparr>ws_entries := (ws_entries peers)[i := peer]\<rparr>"

definition ptp_wifi_peers_capable ::
    "ptp_wifi_peers \<Rightarrow> bytes option \<Rightarrow> u32 \<Rightarrow> ptp_capable_message \<Rightarrow> int \<Rightarrow> bool \<times> ptp_wifi_peers" where
  "ptp_wifi_peers_capable peers mac association message now_us =
     (case ptp_wifi_peers_find peers mac of None \<Rightarrow> (False, peers)
      | Some i \<Rightarrow>
        let peer = ws_entries peers ! i in
        if wp_association peer \<noteq> association \<or>
           (cm_source_port message ! 8 = 0 \<and> cm_source_port message ! 9 = 0) then (False, peers)
        else
          let peer = (if wp_bound peer \<and> wp_port_identity peer \<noteq> cm_source_port message
                      then peer_rebind peer else peer)
          in (case ptp_capable_receive (wp_capable peer) message (Some (cm_source_port message))
                     association now_us of
                (False, _) \<Rightarrow> (False, update_entry peers i peer)
              | (True, received) \<Rightarrow>
                  (True, update_entry peers i
                     (peer\<lparr>wp_capable := received, wp_port_identity := cm_source_port message,
                           wp_bound := True\<rparr>))))"

definition ptp_wifi_peers_interval ::
    "ptp_wifi_peers \<Rightarrow> bytes option \<Rightarrow> u32 \<Rightarrow> ptp_capable_message \<Rightarrow> bool \<times> ptp_wifi_peers" where
  "ptp_wifi_peers_interval peers mac association message =
     (case ptp_wifi_peers_find peers mac of None \<Rightarrow> (False, peers)
      | Some i \<Rightarrow>
        let peer = ws_entries peers ! i in
        if wp_association peer = association \<and> wp_bound peer \<and>
           wp_port_identity peer = cm_source_port message
        then (case ptp_capable_schedule_request (wp_transmit peer) (cm_log_interval message) of
                (ok, t) \<Rightarrow> (ok, update_entry peers i (peer\<lparr>wp_transmit := t\<rparr>)))
        else (False, peers))"

definition ptp_wifi_peers_sync_interval ::
    "ptp_wifi_peers \<Rightarrow> bytes option \<Rightarrow> u32 \<Rightarrow> ptp_interval_message \<Rightarrow> bool \<times> ptp_wifi_peers" where
  "ptp_wifi_peers_sync_interval peers mac association message =
     (case ptp_wifi_peers_find peers mac of None \<Rightarrow> (False, peers)
      | Some i \<Rightarrow>
        let peer = ws_entries peers ! i in
        if wp_association peer \<noteq> association \<or> \<not> wp_bound peer \<or>
           wp_port_identity peer \<noteq> im_source_port message then (False, peers)
        else (case ptp_sync_interval_request (wp_sync_stopped peer, wp_sync_revision peer)
                     (im_log_sync message) of
                (ok, stopped, revision) \<Rightarrow>
                  (ok, update_entry peers i
                         (peer\<lparr>wp_sync_stopped := stopped, wp_sync_revision := revision\<rparr>))))"

definition ptp_wifi_peers_announce_interval ::
    "ptp_wifi_peers \<Rightarrow> bytes option \<Rightarrow> u32 \<Rightarrow> ptp_interval_message \<Rightarrow> int \<Rightarrow> bool \<times> ptp_wifi_peers" where
  "ptp_wifi_peers_announce_interval peers mac association message initial =
     (case ptp_wifi_peers_find peers mac of None \<Rightarrow> (False, peers)
      | Some i \<Rightarrow>
        let peer = ws_entries peers ! i in
        if wp_association peer = association \<and> wp_bound peer \<and>
           wp_port_identity peer = im_source_port message
        then (case ptp_announce_request (wp_announce peer) initial (im_log_announce message) of
                (ok, a) \<Rightarrow> (ok, update_entry peers i (peer\<lparr>wp_announce := a\<rparr>)))
        else (False, peers))"

definition ptp_wifi_peers_sent ::
    "ptp_wifi_peers \<Rightarrow> bytes option \<Rightarrow> u32 \<Rightarrow> u32 \<Rightarrow> bool \<Rightarrow> int \<Rightarrow> bool \<times> ptp_wifi_peers" where
  "ptp_wifi_peers_sent peers mac association token accepted now_us =
     (case ptp_wifi_peers_find peers mac of None \<Rightarrow> (False, peers)
      | Some i \<Rightarrow>
        let peer = ws_entries peers ! i in
        if wp_association peer = association
        then (case ptp_capable_schedule_finish (wp_transmit peer) token accepted now_us of
                (ok, t) \<Rightarrow> (ok, update_entry peers i (peer\<lparr>wp_transmit := t\<rparr>)))
        else (False, peers))"

section \<open>Snapshot and reconciliation\<close>

definition snapshot_entry :: "nat \<Rightarrow> nat \<Rightarrow> nat \<Rightarrow> ptp_wifi_peer \<Rightarrow> ptp_wifi_association_entry" where
  "snapshot_entry physical_port physical_count slot peer =
     \<lparr>ae_mac = wp_mac peer,
      ae_port_number = ptp_wifi_association_port physical_port physical_count slot,
      ae_association = wp_association peer, ae_sync_stopped = wp_sync_stopped peer,
      ae_sync_revision = wp_sync_revision peer,
      ae_announce_revision = as_revision (wp_announce peer)\<rparr>"

definition ptp_wifi_peers_snapshot ::
    "ptp_wifi_peers \<Rightarrow> nat \<Rightarrow> nat \<Rightarrow> ptp_wifi_association_snapshot option" where
  "ptp_wifi_peers_snapshot peers physical_port physical_count =
     (if ptp_wifi_association_port physical_port physical_count 0 = 0 then None
      else
        let slots = filter (\<lambda>slot. wp_associated (ws_entries peers ! slot)) [0..<PTP_WIFI_PEERS_MAX];
            current = (ws_reconciled_generation peers = ws_generation peers)
        in if \<exists>slot \<in> set slots. wp_association (ws_entries peers ! slot) = 0 then None
           else Some \<lparr>sn_generation = ws_generation peers,
                      sn_radio_boot = (if current then ws_radio_boot peers else 0),
                      sn_radio_generation = (if current then ws_radio_generation peers else 0),
                      sn_entries = map (\<lambda>slot. snapshot_entry physical_port physical_count slot
                                                 (ws_entries peers ! slot)) slots\<rparr>)"

text \<open>The loop that drops the stations the radio no longer reports.\<close>

definition drop_unreported :: "bytes list \<Rightarrow> ptp_wifi_peer list \<Rightarrow> ptp_wifi_peer list" where
  "drop_unreported macs entries =
     map (\<lambda>peer. if wp_associated peer \<and> wp_mac peer \<notin> set macs then peer_zero else peer) entries"

definition join_all :: "bytes list \<Rightarrow> ptp_wifi_peers \<Rightarrow> ptp_wifi_peers" where
  "join_all macs peers = fold (\<lambda>m p. snd (ptp_wifi_peers_join p (Some m))) macs peers"

definition associated_macs :: "ptp_wifi_peers \<Rightarrow> bytes list" where
  "associated_macs peers = map wp_mac (filter wp_associated (ws_entries peers))"

definition ptp_wifi_peers_reconcile ::
    "ptp_wifi_peers \<Rightarrow> u32 \<Rightarrow> u32 \<Rightarrow> bytes list \<Rightarrow> bool \<times> ptp_wifi_peers" where
  "ptp_wifi_peers_reconcile peers radio_boot radio_generation macs =
     (if radio_boot = 0 \<or> radio_generation = 0 \<or> length macs > PTP_WIFI_PEERS_MAX then (False, peers)
      else if \<not> (list_all mac_acceptable macs \<and> distinct macs) then (False, peers)
      else
        let difference = sint (radio_generation - ws_radio_generation peers) in
        if ws_radio_boot peers = radio_boot \<and> difference < 0 then (False, peers)
        else if ws_radio_boot peers = radio_boot \<and> difference = 0 then
          (ws_reconciled_generation peers = ws_generation peers \<and>
           set (associated_macs peers) \<subseteq> set macs \<and>
           length (associated_macs peers) = length macs, peers)
        else
          let peers = ptp_wifi_peers_advance
                        (peers\<lparr>ws_entries := drop_unreported macs (ws_entries peers)\<rparr>);
              peers = join_all macs peers
          in (True, peers\<lparr>ws_radio_boot := radio_boot, ws_radio_generation := radio_generation,
                          ws_reconciled_generation := ws_generation peers\<rparr>))"

section \<open>The registry as a map\<close>

abbreviation slot_max :: nat where "slot_max \<equiv> PTP_WIFI_PEERS_MAX"

definition holds_mac :: "ptp_wifi_peers \<Rightarrow> nat \<Rightarrow> bytes \<Rightarrow> bool" where
  "holds_mac p i m \<longleftrightarrow> i < slot_max \<and> wp_associated (ws_entries p ! i) \<and> wp_mac (ws_entries p ! i) = m"

definition peers_inv :: "ptp_wifi_peers \<Rightarrow> bool" where
  "peers_inv p \<longleftrightarrow> length (ws_entries p) = slot_max \<and>
     (\<forall>i m. holds_mac p i m \<longrightarrow> wp_association (ws_entries p ! i) \<noteq> 0 \<and> mac_acceptable m) \<and>
     (\<forall>i j m. holds_mac p i m \<longrightarrow> holds_mac p j m \<longrightarrow> i = j)"

definition peers_lookup :: "ptp_wifi_peers \<Rightarrow> bytes \<Rightarrow> u32 option" where
  "peers_lookup p m = map_option (\<lambda>i. wp_association (ws_entries p ! i)) (ptp_wifi_peers_find p (Some m))"

lemma peers_find_Some: "ptp_wifi_peers_find p (Some m) = Some i \<Longrightarrow> holds_mac p i m"
  by (auto simp: ptp_wifi_peers_find_def holds_mac_def find_Some_iff)

lemma peers_find_None: "ptp_wifi_peers_find p (Some m) = None \<longleftrightarrow> (\<forall>i. \<not> holds_mac p i m)"
  by (auto simp: ptp_wifi_peers_find_def holds_mac_def find_None_iff)

lemma peers_find_holds:
  assumes "peers_inv p" "holds_mac p i m"
  shows "ptp_wifi_peers_find p (Some m) = Some i"
proof (cases "ptp_wifi_peers_find p (Some m)")
  case None
  with assms(2) show ?thesis by (simp add: peers_find_None)
next
  case (Some j)
  with assms show ?thesis by (auto dest!: peers_find_Some simp: peers_inv_def)
qed

lemma peers_lookup_eq:
  assumes "peers_inv p"
  shows "peers_lookup p m = Some a \<longleftrightarrow> (\<exists>i. holds_mac p i m \<and> wp_association (ws_entries p ! i) = a)"
  using peers_find_holds [OF assms] by (auto simp: peers_lookup_def dest: peers_find_Some)

lemma peers_lookup_None: "peers_lookup p m = None \<longleftrightarrow> (\<forall>i. \<not> holds_mac p i m)"
  by (simp add: peers_lookup_def peers_find_None)

lemma free_slot_Some: "free_slot p = Some i \<Longrightarrow> i < slot_max \<and> \<not> wp_associated (ws_entries p ! i)"
  by (auto simp: free_slot_def find_Some_iff)

text \<open>Writing one slot: where another MAC is held afterwards.\<close>

lemma holds_mac_update:
  assumes "length (ws_entries p) = slot_max" "i < slot_max"
  shows "holds_mac (p\<lparr>ws_entries := (ws_entries p)[i := e], ws_generation := g\<rparr>) j m \<longleftrightarrow>
         (if j = i then wp_associated e \<and> wp_mac e = m else holds_mac p j m)"
  using assms by (auto simp: holds_mac_def nth_list_update)

lemma join_cases:
  assumes "ptp_wifi_peers_join p (Some m) = (Some i, p')"
  shows "mac_acceptable m" "i < slot_max" "\<And>j. holds_mac p j m \<Longrightarrow> peers_inv p \<Longrightarrow> j = i"
    "\<And>m'. holds_mac p i m' \<Longrightarrow> m' = m"
    "p' = p\<lparr>ws_entries := (ws_entries p)[i := peer_zero\<lparr>wp_associated := True, wp_mac := m,
              wp_association := bump32 (ws_generation p)\<rparr>], ws_generation := bump32 (ws_generation p)\<rparr>"
proof -
  have slot: "ptp_wifi_peers_find p (Some m) = Some i \<or>
      (ptp_wifi_peers_find p (Some m) = None \<and> free_slot p = Some i)" and acc: "mac_acceptable m"
    and p': "p' = p\<lparr>ws_entries := (ws_entries p)[i := peer_zero\<lparr>wp_associated := True, wp_mac := m,
              wp_association := bump32 (ws_generation p)\<rparr>], ws_generation := bump32 (ws_generation p)\<rparr>"
    using assms by (auto simp: ptp_wifi_peers_join_def ptp_wifi_peers_advance_def Let_def
        split: if_splits option.splits)
  from acc show "mac_acceptable m" .
  from slot show "i < slot_max"
    by (auto dest: peers_find_Some free_slot_Some simp: holds_mac_def)
  show "j = i" if "holds_mac p j m" "peers_inv p" for j
    using slot peers_find_holds [OF that(2,1)] by auto
  show "m' = m" if "holds_mac p i m'" for m'
    using slot that by (auto dest!: peers_find_Some free_slot_Some simp: holds_mac_def)
  from p' show "p' = p\<lparr>ws_entries := (ws_entries p)[i := peer_zero\<lparr>wp_associated := True, wp_mac := m,
              wp_association := bump32 (ws_generation p)\<rparr>], ws_generation := bump32 (ws_generation p)\<rparr>" .
qed

lemma join_holds:
  assumes "peers_inv p" "ptp_wifi_peers_join p (Some m) = (Some i, p')"
  shows "holds_mac p' j m' \<longleftrightarrow> (if j = i then m' = m else holds_mac p j m')"
proof -
  note c = join_cases [OF assms(2)]
  have len: "length (ws_entries p) = slot_max" using assms(1) by (simp add: peers_inv_def)
  show ?thesis
    unfolding c(5) holds_mac_update [OF len c(2)] by auto
qed

lemma join_inv:
  assumes "peers_inv p" "ptp_wifi_peers_join p (Some m) = (Some i, p')"
  shows "peers_inv p'"
proof -
  note c = join_cases [OF assms(2)] and h = join_holds [OF assms]
  have "length (ws_entries p') = slot_max" using assms(1) c(5) by (simp add: peers_inv_def)
  moreover have "wp_association (ws_entries p' ! j) \<noteq> 0 \<and> mac_acceptable m'" if "holds_mac p' j m'" for j m'
    using that h c(1,2,5) assms(1) by (cases "j = i") (auto simp: peers_inv_def)
  moreover have "j = k" if "holds_mac p' j m'" "holds_mac p' k m'" for j k m'
    using that h c(3) assms(1) by (auto simp: peers_inv_def split: if_splits)
  ultimately show ?thesis unfolding peers_inv_def by blast
qed

lemma join_lookup:
  assumes "peers_inv p" "ptp_wifi_peers_join p (Some m) = (Some i, p')"
  shows "peers_lookup p' = (peers_lookup p)(m \<mapsto> ws_generation p')"
proof
  fix m'
  note c = join_cases [OF assms(2)] and h = join_holds [OF assms] and inv = join_inv [OF assms]
  show "peers_lookup p' m' = ((peers_lookup p)(m \<mapsto> ws_generation p')) m'"
  proof (cases "m' = m")
    case True
    have "holds_mac p' i m" by (simp add: h)
    then have "ptp_wifi_peers_find p' (Some m) = Some i" by (rule peers_find_holds [OF inv])
    then show ?thesis using True c(2,5) assms(1) by (simp add: peers_lookup_def peers_inv_def)
  next
    case False
    have same: "holds_mac p' j m' \<longleftrightarrow> holds_mac p j m'" for j
      using h [of j m'] False c(4) by auto
    have "wp_association (ws_entries p' ! j) = wp_association (ws_entries p ! j)" if "holds_mac p j m'" for j
    proof -
      from that c(4) False have "j \<noteq> i" by auto
      then show ?thesis by (simp add: c(5))
    qed
    then have "peers_lookup p' m' = Some a \<longleftrightarrow> peers_lookup p m' = Some a" for a
      unfolding peers_lookup_eq [OF assms(1)] peers_lookup_eq [OF inv] using same by metis
    then show ?thesis using False by (metis fun_upd_other option.exhaust)
  qed
qed

lemma leave_holds:
  assumes "peers_inv p" "ptp_wifi_peers_find p (Some m) = Some i"
  shows "holds_mac (ptp_wifi_peers_leave p (Some m)) j m' \<longleftrightarrow> j \<noteq> i \<and> holds_mac p j m'"
    "ws_entries (ptp_wifi_peers_leave p (Some m)) = (ws_entries p)[i := peer_zero]"
  using assms peers_find_Some [OF assms(2)]
  by (auto simp: ptp_wifi_peers_leave_def ptp_wifi_peers_advance_def holds_mac_def peers_inv_def
      nth_list_update peer_zero_def split: if_splits)

lemma leave_absent: "ptp_wifi_peers_find p (Some m) = None \<Longrightarrow> ptp_wifi_peers_leave p (Some m) = p"
  by (simp add: ptp_wifi_peers_leave_def)

lemma leave_inv:
  assumes "peers_inv p"
  shows "peers_inv (ptp_wifi_peers_leave p (Some m))"
proof (cases "ptp_wifi_peers_find p (Some m)")
  case None
  then show ?thesis using assms by (simp add: leave_absent)
next
  case (Some i)
  note h = leave_holds [OF assms Some]
  have "wp_association (ws_entries (ptp_wifi_peers_leave p (Some m)) ! j) \<noteq> 0 \<and> mac_acceptable m'"
    if "holds_mac (ptp_wifi_peers_leave p (Some m)) j m'" for j m'
    using that assms h by (auto simp: peers_inv_def)
  then show ?thesis using assms h unfolding peers_inv_def by auto
qed

lemma leave_lookup:
  assumes "peers_inv p"
  shows "peers_lookup (ptp_wifi_peers_leave p (Some m)) = (peers_lookup p)(m := None)"
proof
  fix m'
  note inv = leave_inv [OF assms, of m]
  show "peers_lookup (ptp_wifi_peers_leave p (Some m)) m' = ((peers_lookup p)(m := None)) m'"
  proof (cases "ptp_wifi_peers_find p (Some m)")
    case None
    then show ?thesis by (simp add: leave_absent peers_lookup_def)
  next
    case (Some i)
    note h = leave_holds [OF assms Some]
    have i: "holds_mac p i m" by (rule peers_find_Some [OF Some])
    show ?thesis
    proof (cases "m' = m")
      case True
      with i assms h show ?thesis by (auto simp: peers_lookup_None peers_inv_def)
    next
      case False
      have "\<not> holds_mac p i m'" using i False by (auto simp: holds_mac_def)
      then have "peers_lookup (ptp_wifi_peers_leave p (Some m)) m' = Some a \<longleftrightarrow> peers_lookup p m' = Some a" for a
        unfolding peers_lookup_eq [OF assms] peers_lookup_eq [OF inv] h(1) h(2)
        by (metis nth_list_update_neq)
      then show ?thesis using False by (metis fun_upd_other option.exhaust)
    qed
  qed
qed

text \<open>
  The interface of an association registry: \<open>lookup\<close> gives the lifetime of an associated
  station, \<open>join\<close> starts a new lifetime (or refuses), \<open>leave\<close> ends one.
\<close>

locale mac_registry =
  fixes lookup :: "'r \<Rightarrow> 'm \<Rightarrow> u32 option"
    and join :: "'r \<Rightarrow> 'm \<Rightarrow> 'i option \<times> 'r"
    and leave :: "'r \<Rightarrow> 'm \<Rightarrow> 'r"
    and lifetime :: "'r \<Rightarrow> u32"
    and inv :: "'r \<Rightarrow> bool"
  assumes join_map: "inv r \<Longrightarrow> join r m = (Some i, r') \<Longrightarrow>
      inv r' \<and> lookup r' = (lookup r)(m \<mapsto> lifetime r') \<and> lifetime r' = bump32 (lifetime r)"
    and join_refused: "join r m = (None, r') \<Longrightarrow> r' = r"
    and leave_map: "inv r \<Longrightarrow> inv (leave r m) \<and> lookup (leave r m) = (lookup r)(m := None)"
begin

lemma inv_join: "inv r \<Longrightarrow> inv (snd (join r m))"
  using join_map join_refused by (metis option.exhaust prod.collapse)

lemma join_others: "inv r \<Longrightarrow> m' \<noteq> m \<Longrightarrow> lookup (snd (join r m)) m' = lookup r m'"
  using join_map join_refused by (metis fun_upd_other option.exhaust prod.collapse)

lemma rejoin_fresh:
  assumes "inv r" "join r m = (Some i, r')" "join (leave r' m) m = (Some j, r'')"
    "lifetime (leave r' m) = lifetime r' \<or> lifetime (leave r' m) = bump32 (lifetime r')"
  shows "lookup r'' m = Some (lifetime r'') \<and> lookup r' m = Some (lifetime r')"
  using assms join_map [OF assms(1,2)] join_map [OF _ assms(3)] leave_map [of r' m] by auto

end

interpretation peers_registry: mac_registry peers_lookup
  "\<lambda>p m. ptp_wifi_peers_join p (Some m)" "\<lambda>p m. ptp_wifi_peers_leave p (Some m)" ws_generation peers_inv
proof unfold_locales
  show "peers_inv p' \<and> peers_lookup p' = (peers_lookup p)(m \<mapsto> ws_generation p') \<and>
      ws_generation p' = bump32 (ws_generation p)"
    if "peers_inv p" "ptp_wifi_peers_join p (Some m) = (Some i, p')" for p m i p'
    using join_inv [OF that] join_lookup [OF that] join_cases(5) [OF that(2)] by simp
  show "p' = p" if "ptp_wifi_peers_join p (Some m) = (None, p')" for p m p'
    using that by (auto simp: ptp_wifi_peers_join_def Let_def split: if_splits option.splits)
  show "peers_inv (ptp_wifi_peers_leave p (Some m)) \<and>
      peers_lookup (ptp_wifi_peers_leave p (Some m)) = (peers_lookup p)(m := None)"
    if "peers_inv p" for p m
    using leave_inv [OF that] leave_lookup [OF that] by blast
qed

section \<open>Room for a station\<close>

lemma join_succeeds_iff:
  assumes "peers_inv p" "mac_acceptable m"
  shows "(\<exists>i p'. ptp_wifi_peers_join p (Some m) = (Some i, p')) \<longleftrightarrow>
         (\<exists>i. holds_mac p i m) \<or> (\<exists>i < slot_max. \<not> wp_associated (ws_entries p ! i))"
proof -
  have "(\<exists>i. ptp_wifi_peers_find p (Some m) = Some i) \<longleftrightarrow> (\<exists>i. holds_mac p i m)"
    using peers_find_None [of p m] by auto
  moreover have "(\<exists>i. free_slot p = Some i) \<longleftrightarrow> (\<exists>i < slot_max. \<not> wp_associated (ws_entries p ! i))"
    by (auto simp: free_slot_def find_None_iff dest: free_slot_Some [unfolded free_slot_def]
        simp flip: not_None_eq)
  ultimately show ?thesis
    using assms(2) by (auto simp: ptp_wifi_peers_join_def Let_def split: option.splits)
qed

definition held :: "ptp_wifi_peers \<Rightarrow> bytes set" where
  "held p = {m. \<exists>i. holds_mac p i m}"

lemma held_lookup: "held p = dom (peers_lookup p)"
  by (auto simp: held_def peers_lookup_None [THEN iffD1, THEN spec] dom_def peers_lookup_None
      simp flip: not_None_eq)

lemma card_full:
  assumes "peers_inv p" "\<forall>i < slot_max. wp_associated (ws_entries p ! i)"
  shows "card (held p) = slot_max"
proof -
  have "held p = (\<lambda>i. wp_mac (ws_entries p ! i)) ` {..<slot_max}"
    using assms(2) by (auto simp: held_def holds_mac_def)
  moreover have "inj_on (\<lambda>i. wp_mac (ws_entries p ! i)) {..<slot_max}"
    using assms by (auto intro!: inj_onI simp: peers_inv_def holds_mac_def)
  ultimately show ?thesis by (simp add: card_image)
qed

lemma join_room:
  assumes "peers_inv p" "mac_acceptable m" "held p \<subseteq> set ms" "m \<in> set ms" "length ms \<le> slot_max"
  obtains i p' where "ptp_wifi_peers_join p (Some m) = (Some i, p')"
proof -
  have "(\<exists>i. holds_mac p i m) \<or> (\<exists>i < slot_max. \<not> wp_associated (ws_entries p ! i))"
  proof (rule ccontr)
    assume h: "\<not> ?thesis"
    then have "card (held p) = slot_max" using card_full [OF assms(1)] by blast
    moreover have "m \<notin> held p" using h by (auto simp: held_def)
    ultimately have "Suc slot_max \<le> card (set ms)"
      using assms(3,4) card_mono [of "set ms" "insert m (held p)"]
        finite_subset [OF assms(3)] by auto
    also have "\<dots> \<le> length ms" by (rule card_length)
    finally show False using assms(5) by simp
  qed
  then show thesis using join_succeeds_iff [OF assms(1,2)] that by blast
qed

lemma join_held:
  assumes "peers_inv p" "ptp_wifi_peers_join p (Some m) = (Some i, p')"
  shows "held p' = insert m (held p)"
  using peers_registry.join_map [OF assms] by (auto simp: held_lookup)

lemma join_all_spec:
  assumes "peers_inv p" "held p \<subseteq> set ms" "set xs \<subseteq> set ms" "length ms \<le> slot_max"
    "\<forall>m \<in> set xs. mac_acceptable m"
  shows "peers_inv (join_all xs p) \<and> held (join_all xs p) = held p \<union> set xs \<and>
         (\<forall>i m. holds_mac p i m \<longrightarrow> holds_mac (join_all xs p) i m)"
  using assms
proof (induction xs arbitrary: p)
  case Nil
  then show ?case by (simp add: join_all_def)
next
  case (Cons x xs)
  obtain i p' where j: "ptp_wifi_peers_join p (Some x) = (Some i, p')"
    using Cons.prems by (auto intro: join_room [of p x ms])
  have p': "peers_inv p'" "held p' = insert x (held p)"
    using join_inv [OF Cons.prems(1) j] join_held [OF Cons.prems(1) j] by auto
  have keep: "holds_mac p k m \<Longrightarrow> holds_mac p' k m" for k m
    using join_holds [OF Cons.prems(1) j] join_cases(4) [OF j] by auto
  have step: "join_all (x # xs) p = join_all xs p'" by (simp add: join_all_def j)
  have IH: "peers_inv (join_all xs p') \<and> held (join_all xs p') = held p' \<union> set xs \<and>
         (\<forall>i m. holds_mac p' i m \<longrightarrow> holds_mac (join_all xs p') i m)"
    using Cons.prems p' by (intro Cons.IH) auto
  then show ?case unfolding step using p'(2) keep by auto
qed

section \<open>Reconciliation with the radio\<close>

lemma drop_holds:
  assumes "length (ws_entries p) = slot_max"
  shows "holds_mac (ptp_wifi_peers_advance (p\<lparr>ws_entries := drop_unreported macs (ws_entries p)\<rparr>)) i m \<longleftrightarrow>
         holds_mac p i m \<and> m \<in> set macs"
  using assms by (auto simp: holds_mac_def drop_unreported_def ptp_wifi_peers_advance_def peer_zero_def
      split: if_splits)

lemma drop_inv:
  assumes "peers_inv p"
  shows "peers_inv (ptp_wifi_peers_advance (p\<lparr>ws_entries := drop_unreported macs (ws_entries p)\<rparr>))"
proof -
  have len: "length (ws_entries p) = slot_max" using assms by (simp add: peers_inv_def)
  have keep: "drop_unreported macs (ws_entries p) ! i = ws_entries p ! i"
    if "holds_mac p i m" "m \<in> set macs" for i m
    using that len by (auto simp: holds_mac_def drop_unreported_def)
  have "wp_association (drop_unreported macs (ws_entries p) ! i) \<noteq> 0 \<and> mac_acceptable m"
    if "holds_mac p i m" "m \<in> set macs" for i m
    using keep [OF that] assms that by (auto simp: peers_inv_def)
  then show ?thesis
    using assms len unfolding peers_inv_def drop_holds [OF len]
    by (auto simp: ptp_wifi_peers_advance_def drop_unreported_def)
qed

lemma held_associated: "length (ws_entries p) = slot_max \<Longrightarrow> held p = set (associated_macs p)"
  by (auto simp: held_def holds_mac_def associated_macs_def in_set_conv_nth image_iff Bex_def)

lemma distinct_associated:
  assumes "peers_inv p"
  shows "distinct (associated_macs p)"
proof -
  have "card (held p) = card {i. i < slot_max \<and> wp_associated (ws_entries p ! i)}"
  proof -
    have "held p = (\<lambda>i. wp_mac (ws_entries p ! i)) ` {i. i < slot_max \<and> wp_associated (ws_entries p ! i)}"
      by (auto simp: held_def holds_mac_def)
    moreover have "inj_on (\<lambda>i. wp_mac (ws_entries p ! i)) {i. i < slot_max \<and> wp_associated (ws_entries p ! i)}"
      using assms by (auto intro!: inj_onI simp: peers_inv_def holds_mac_def)
    ultimately show ?thesis by (simp add: card_image)
  qed
  also have "\<dots> = length (associated_macs p)"
    using assms by (simp add: peers_inv_def associated_macs_def length_filter_conv_card)
  finally show ?thesis
    using assms by (simp add: held_associated peers_inv_def card_distinct)
qed

lemma reconcile_new_list:
  assumes "peers_inv p" "list_all mac_acceptable macs" "length macs \<le> slot_max"
  defines "q \<equiv> join_all macs (ptp_wifi_peers_advance
                 (p\<lparr>ws_entries := drop_unreported macs (ws_entries p)\<rparr>))"
  shows "peers_inv q" "held q = set macs" "\<And>i m. holds_mac p i m \<Longrightarrow> m \<in> set macs \<Longrightarrow> holds_mac q i m"
proof -
  define d where "d = ptp_wifi_peers_advance (p\<lparr>ws_entries := drop_unreported macs (ws_entries p)\<rparr>)"
  have len: "length (ws_entries p) = slot_max" using assms(1) by (simp add: peers_inv_def)
  have d: "holds_mac d i m \<longleftrightarrow> holds_mac p i m \<and> m \<in> set macs" for i m
    unfolding d_def by (rule drop_holds [OF len])
  then have sub: "held d \<subseteq> set macs" by (auto simp: held_def)
  have "peers_inv (join_all macs d) \<and> held (join_all macs d) = held d \<union> set macs \<and>
         (\<forall>i m. holds_mac d i m \<longrightarrow> holds_mac (join_all macs d) i m)"
    using drop_inv [OF assms(1), of macs] sub assms(2,3)
    by (intro join_all_spec) (auto simp: d_def list_all_iff)
  then show "peers_inv q" "held q = set macs" "\<And>i m. holds_mac p i m \<Longrightarrow> m \<in> set macs \<Longrightarrow> holds_mac q i m"
    using sub by (auto simp: q_def d d_def [symmetric])
qed

lemma equal_generation [simp]: "sint (a - b :: u32) = 0 \<longleftrightarrow> a = b"
  by (metis right_minus_eq signed_eq_0_iff)

text \<open>C26. Reconciliation with the list of stations an associated radio reports either refuses
  and changes nothing, or succeeds and then exactly the reported stations are associated,
  every survivor in the slot (hence with the port number) it had, the invariant holds and the
  registry may be published under the radio's boot and generation.
\<close>

theorem reconcile_exact:
  assumes "peers_inv p" "ptp_wifi_peers_reconcile p boot gen macs = (ok, p')"
  shows "(\<not> ok \<longrightarrow> p' = p) \<and> peers_inv p' \<and>
    (ok \<longrightarrow> held p' = set macs \<and> (\<forall>i m. holds_mac p i m \<and> m \<in> set macs \<longrightarrow> holds_mac p' i m) \<and>
            ws_radio_boot p' = boot \<and> ws_radio_generation p' = gen \<and>
            ptp_wifi_peers_publishable hosted p')"
proof (cases "fst (ptp_wifi_peers_reconcile p boot gen macs) \<and>
              (ws_radio_boot p \<noteq> boot \<or> sint (gen - ws_radio_generation p) \<noteq> 0)")
  case True
  define q where "q = join_all macs (ptp_wifi_peers_advance
                 (p\<lparr>ws_entries := drop_unreported macs (ws_entries p)\<rparr>))"
  have g: "boot \<noteq> 0" "gen \<noteq> 0" "list_all mac_acceptable macs" "length macs \<le> slot_max"
    and p': "ok" "p' = q\<lparr>ws_radio_boot := boot, ws_radio_generation := gen,
                          ws_reconciled_generation := ws_generation q\<rparr>"
    using True assms(2) by (auto simp: ptp_wifi_peers_reconcile_def Let_def q_def split: if_splits)
  note new = reconcile_new_list [OF assms(1) g(3,4), folded q_def]
  have h: "holds_mac p' i m = holds_mac q i m" for i m by (simp add: p'(2) holds_mac_def)
  have "peers_inv p'" "held p' = set macs"
    using new(1,2) unfolding peers_inv_def held_def h by (simp_all add: p'(2))
  then show ?thesis using p' g(1,2) new(3) h by (simp add: ptp_wifi_peers_publishable_def)
next
  case False
  have p': "p' = p"
    using False assms(2) by (auto simp: ptp_wifi_peers_reconcile_def Let_def split: if_splits)
  show ?thesis
  proof (cases ok)
    case True
    have f: "boot \<noteq> 0" "gen \<noteq> 0" "ws_radio_boot p = boot" "ws_radio_generation p = gen" "distinct macs"
      "ws_reconciled_generation p = ws_generation p" "set (associated_macs p) \<subseteq> set macs"
      "length (associated_macs p) = length macs"
      using False True assms(2) by (auto simp: ptp_wifi_peers_reconcile_def Let_def split: if_splits)
    then have "set (associated_macs p) = set macs"
      using distinct_associated [OF assms(1)]
      by (intro card_subset_eq) (simp_all add: distinct_card)
    then have "held p = set macs" using assms(1) by (simp add: held_associated peers_inv_def)
    then show ?thesis using f True p' assms(1) by (simp add: ptp_wifi_peers_publishable_def)
  next
    case False
    then show ?thesis using p' assms(1) by simp
  qed
qed

text \<open>The registry with no association, in any generation, satisfies the invariant.\<close>

lemma peers_inv_zero: "peers_inv peers_zero"
  by (auto simp: peers_inv_def peers_zero_def holds_mac_def peer_zero_def)

theorem reconcile_exact_witness:
  "held (snd (ptp_wifi_peers_reconcile peers_zero 1 1 [[2,0,0,0,0,1], [2,0,0,0,0,2]])) =
     {[2,0,0,0,0,1], [2,0,0,0,0,2]}"
proof -
  have "fst (ptp_wifi_peers_reconcile peers_zero 1 1 [[2,0,0,0,0,1], [2,0,0,0,0,2]])"
    by code_simp
  then show ?thesis
    using reconcile_exact [OF peers_inv_zero prod.collapse [symmetric],
        of 1 1 "[[2,0,0,0,0,1], [2,0,0,0,0,2]]" False] by simp
qed

section \<open>Lifetimes\<close>

text \<open>C27. The sixteen slots with \<open>join\<close> and \<open>leave\<close> implement a finite map from MAC addresses to
  association lifetimes: a successful join gives the station the next generation as its
  lifetime, which differs from the lifetime the registry gave out last, and touches no other
  station; a refused join changes nothing; a leave removes exactly that station.
\<close>

theorem peers_refine_map:
  assumes "peers_inv p"
  shows "(case ptp_wifi_peers_join p (Some m) of
            (None, p') \<Rightarrow> p' = p
          | (Some i, p') \<Rightarrow> peers_inv p' \<and> peers_lookup p' = (peers_lookup p)(m \<mapsto> ws_generation p') \<and>
              ws_generation p' \<noteq> ws_generation p \<and> ws_generation p' \<noteq> 0 \<and> ptp_wifi_peers_find p' (Some m) = Some i) \<and>
         peers_inv (ptp_wifi_peers_leave p (Some m)) \<and>
         peers_lookup (ptp_wifi_peers_leave p (Some m)) = (peers_lookup p)(m := None)"
proof -
  have "peers_inv p' \<and> peers_lookup p' = (peers_lookup p)(m \<mapsto> ws_generation p') \<and>
      ws_generation p' \<noteq> ws_generation p \<and> ws_generation p' \<noteq> 0 \<and> ptp_wifi_peers_find p' (Some m) = Some i"
    if "ptp_wifi_peers_join p (Some m) = (Some i, p')" for i p'
    using peers_registry.join_map [OF assms that] join_holds [OF assms that, of i m]
      peers_find_holds [of p' i m] by simp
  then show ?thesis
    using peers_registry.leave_map [OF assms, of m] peers_registry.join_refused [of p m]
    by (auto split: prod.splits option.splits)
qed

theorem peers_refine_map_witness:
  "peers_lookup (snd (ptp_wifi_peers_join peers_zero (Some [2,0,0,0,0,1]))) [2,0,0,0,0,1] = Some 1"
proof -
  have "fst (ptp_wifi_peers_join peers_zero (Some [2,0,0,0,0,1])) = Some 0 \<and>
    ws_generation (snd (ptp_wifi_peers_join peers_zero (Some [2,0,0,0,0,1]))) = 1"
    by code_simp
  then obtain p' where "ptp_wifi_peers_join peers_zero (Some [2,0,0,0,0,1]) = (Some 0, p')"
    "ws_generation p' = 1"
    by (metis prod.collapse)
  then show ?thesis
    using peers_refine_map [OF peers_inv_zero, of "[2,0,0,0,0,1]"] by simp
qed

text \<open>
  C27. Port numbers of associations: for the valid (transport, slot) pairs the number is a
  nonzero 16-bit value and different pairs get different numbers, so no two associations of
  one device share a PTP port number.
\<close>

theorem association_ports_distinct:
  assumes "count \<le> 4095" "1 \<le> p1" "p1 \<le> count" "1 \<le> p2" "p2 \<le> count" "s1 < 16" "s2 < 16"
  shows "0 < ptp_wifi_association_port p1 count s1 \<and> ptp_wifi_association_port p1 count s1 \<le> 65535 \<and>
         (ptp_wifi_association_port p1 count s1 = ptp_wifi_association_port p2 count s2 \<longleftrightarrow>
            p1 = p2 \<and> s1 = s2)"
proof -
  have port: "ptp_wifi_association_port q count s = (if s = 0 then q else count + (q - 1) * 15 + s)"
    if "1 \<le> q" "q \<le> count" "s < 16" for q s
    using that assms(1) by (simp add: ptp_wifi_association_port_def PTP_WIFI_ASSOCIATIONS_MAX_def)
  have block: "(q - 1) * 15 + s = (q' - 1) * 15 + s' \<Longrightarrow> q = q' \<and> s = s'"
    if "1 \<le> q" "1 \<le> q'" "1 \<le> s" "s < 16" "1 \<le> s'" "s' < 16" for q q' s s' :: nat
  proof -
    assume eq: "(q - 1) * 15 + s = (q' - 1) * 15 + s'"
    have "q - 1 = ((q - 1) * 15 + (s - 1)) div 15" "q' - 1 = ((q' - 1) * 15 + (s' - 1)) div 15"
      using that by simp_all
    moreover have "(q - 1) * 15 + (s - 1) = (q' - 1) * 15 + (s' - 1)" using eq that by simp
    ultimately have "q - 1 = q' - 1" by metis
    then show "q = q' \<and> s = s'" using eq that by simp
  qed
  have "(p1 - 1) * 15 \<le> (count - 1) * 15" using assms by simp
  then show ?thesis
    using assms block [of p1 p2 s1 s2]
    unfolding port [OF assms(2,3,6)] port [OF assms(4,5,7)] by (auto split: if_splits)
qed

theorem association_ports_distinct_witness:
  "ptp_wifi_association_port 2 3 15 \<noteq> ptp_wifi_association_port 3 3 1"
  using association_ports_distinct [of 3 2 3 15 1] by simp

end
