(* ===== verification/Ptp_Wifi_Neighbor.thy ===== *)
theory Ptp_Wifi_Neighbor
  imports Ptp_Capable
begin

text \<open>
  A station's view of its access point: \<^verbatim>\<open>ptp_wifi_neighbor.h\<close> (one association at a time, an
  identity bound from Announce messages, the schedule of capability indications) and
  \<^verbatim>\<open>ptp_wifi_capable.h\<close> (media capability and asCapable).
\<close>

section \<open>The neighbor\<close>

record ptp_wifi_neighbor =
  wn_association :: u32
  wn_sync_revision :: u32
  wn_bssid :: bytes
  wn_port_identity :: bytes
  wn_associated :: bool
  wn_bound :: bool
  wn_sync_stopped :: bool
  wn_transmit :: ptp_capable_schedule

definition neighbor_zero :: ptp_wifi_neighbor where
  "neighbor_zero = \<lparr>wn_association = 0, wn_sync_revision = 0, wn_bssid = replicate 6 0,
     wn_port_identity = replicate 10 0, wn_associated = False, wn_bound = False,
     wn_sync_stopped = False, wn_transmit = schedule_zero\<rparr>"

definition ptp_wifi_neighbor_associate :: "ptp_wifi_neighbor \<Rightarrow> bytes option \<Rightarrow> ptp_wifi_neighbor" where
  "ptp_wifi_neighbor_associate neighbor bssid =
     (let next = neighbor_zero\<lparr>wn_association := bump32 (wn_association neighbor)\<rparr>
      in case bssid of None \<Rightarrow> next
         | Some b \<Rightarrow> next\<lparr>wn_bssid := b, wn_associated := True\<rparr>)"

definition ptp_wifi_neighbor_accepts :: "ptp_wifi_neighbor \<Rightarrow> bytes option \<Rightarrow> bool" where
  "ptp_wifi_neighbor_accepts neighbor source_mac \<longleftrightarrow>
     wn_associated neighbor \<and> source_mac = Some (wn_bssid neighbor)"

definition ptp_wifi_neighbor_bind ::
    "ptp_wifi_neighbor \<Rightarrow> u32 \<Rightarrow> bytes option \<Rightarrow> bytes \<Rightarrow> bool \<times> ptp_wifi_neighbor" where
  "ptp_wifi_neighbor_bind neighbor association source_mac identity =
     (if association \<noteq> wn_association neighbor \<or> \<not> ptp_wifi_neighbor_accepts neighbor source_mac
      then (False, neighbor)
      else
        let neighbor =
          (if wn_bound neighbor \<and> wn_port_identity neighbor \<noteq> identity then
             (case ptp_sync_interval_reset (wn_sync_stopped neighbor, wn_sync_revision neighbor) of
                (stopped, revision) \<Rightarrow>
                  neighbor\<lparr>wn_sync_stopped := stopped, wn_sync_revision := revision,
                           wn_transmit := schedule_retire (wn_transmit neighbor)\<rparr>)
           else neighbor)
        in (True, neighbor\<lparr>wn_port_identity := identity, wn_bound := True\<rparr>))"

definition ptp_wifi_neighbor_interval ::
    "ptp_wifi_neighbor \<Rightarrow> bytes option \<Rightarrow> u32 \<Rightarrow> ptp_capable_message \<Rightarrow> bool \<times> ptp_wifi_neighbor" where
  "ptp_wifi_neighbor_interval neighbor source_mac association message =
     (if wn_bound neighbor \<and> association = wn_association neighbor \<and>
         ptp_wifi_neighbor_accepts neighbor source_mac \<and>
         wn_port_identity neighbor = cm_source_port message
      then (case ptp_capable_schedule_request (wn_transmit neighbor) (cm_log_interval message) of
              (ok, t) \<Rightarrow> (ok, neighbor\<lparr>wn_transmit := t\<rparr>))
      else (False, neighbor))"

definition ptp_wifi_neighbor_sync_interval ::
    "ptp_wifi_neighbor \<Rightarrow> bytes option \<Rightarrow> u32 \<Rightarrow> ptp_interval_message option \<Rightarrow> bool \<times> ptp_wifi_neighbor" where
  "ptp_wifi_neighbor_sync_interval neighbor source_mac association message =
     (case message of None \<Rightarrow> (False, neighbor)
      | Some msg \<Rightarrow>
        if wn_bound neighbor \<and> association = wn_association neighbor \<and>
           ptp_wifi_neighbor_accepts neighbor source_mac \<and>
           wn_port_identity neighbor = im_source_port msg
        then (case ptp_sync_interval_request (wn_sync_stopped neighbor, wn_sync_revision neighbor)
                     (im_log_sync msg) of
                (ok, stopped, revision) \<Rightarrow>
                  (ok, neighbor\<lparr>wn_sync_stopped := stopped, wn_sync_revision := revision\<rparr>))
        else (False, neighbor))"

definition ptp_wifi_neighbor_sent ::
    "ptp_wifi_neighbor \<Rightarrow> bytes option \<Rightarrow> u32 \<Rightarrow> u32 \<Rightarrow> bool \<Rightarrow> int \<Rightarrow> bool \<times> ptp_wifi_neighbor" where
  "ptp_wifi_neighbor_sent neighbor destination association token accepted now_us =
     (if association = wn_association neighbor \<and> ptp_wifi_neighbor_accepts neighbor destination
      then (case ptp_capable_schedule_finish (wn_transmit neighbor) token accepted now_us of
              (ok, t) \<Rightarrow> (ok, neighbor\<lparr>wn_transmit := t\<rparr>))
      else (False, neighbor))"

section \<open>Media capability\<close>

record ptp_wifi_media =
  wm_tm_local :: bool
  wm_tm_peer :: bool
  wm_ftm_local :: bool
  wm_ftm_peer :: bool
  wm_granted_frames :: nat

definition ptp_wifi_tm_ftm_support :: "ptp_wifi_media \<Rightarrow> u8" where
  "ptp_wifi_tm_ftm_support media =
     or (if wm_tm_local media \<and> wm_tm_peer media then 1 else 0)
        (if wm_ftm_local media \<and> wm_ftm_peer media then 2 else 0)"

definition ptp_wifi_as_capable :: "ptp_wifi_media \<Rightarrow> bool \<Rightarrow> nat \<Rightarrow> bool" where
  "ptp_wifi_as_capable media neighbor_gptp_capable domain =
     (let support = ptp_wifi_tm_ftm_support media in
      if support = 0 then False
      else
        let timing_measurement = (and support 1 \<noteq> 0);
            ftm_granted = (and support 2 \<noteq> 0 \<and>
                           (wm_granted_frames media = 3 \<or> wm_granted_frames media = 2))
        in if neighbor_gptp_capable \<and> (timing_measurement \<or> ftm_granted) then True
           else domain = 0 \<and> timing_measurement)"

section \<open>Lifetimes of the neighbor\<close>

text \<open>Everything the daemon does with the neighbor record.\<close>

inductive neighbor_step :: "ptp_wifi_neighbor \<Rightarrow> ptp_wifi_neighbor \<Rightarrow> bool" where
  associate: "neighbor_step n (ptp_wifi_neighbor_associate n b)"
| bind: "neighbor_step n (snd (ptp_wifi_neighbor_bind n a m i))"
| interval: "neighbor_step n (snd (ptp_wifi_neighbor_interval n m a msg))"
| sync_interval: "neighbor_step n (snd (ptp_wifi_neighbor_sync_interval n m a imsg))"
| sent: "neighbor_step n (snd (ptp_wifi_neighbor_sent n m a t acc now))"
| begin_send: "neighbor_step n (n\<lparr>wn_transmit := snd (ptp_capable_schedule_begin (wn_transmit n) en now)\<rparr>)"

definition neighbor_inv :: "ptp_wifi_neighbor \<Rightarrow> bool" where
  "neighbor_inv n \<longleftrightarrow> (wn_bound n \<longrightarrow> wn_associated n) \<and>
     (wn_associated n \<longrightarrow> wn_association n \<noteq> 0) \<and> schedule_inv (wn_transmit n)"

lemma neighbor_inv_associate: "neighbor_inv (ptp_wifi_neighbor_associate n b)"
  by (cases b) (simp_all add: neighbor_inv_def ptp_wifi_neighbor_associate_def neighbor_zero_def
      schedule_inv_start)

lemma neighbor_inv_bind: "neighbor_inv n \<Longrightarrow> neighbor_inv (snd (ptp_wifi_neighbor_bind n a m i))"
  by (simp add: neighbor_inv_def ptp_wifi_neighbor_bind_def ptp_wifi_neighbor_accepts_def Let_def
      schedule_retire_def schedule_inv_zero split: prod.splits)

lemma neighbor_inv_interval: "neighbor_inv n \<Longrightarrow> neighbor_inv (snd (ptp_wifi_neighbor_interval n m a msg))"
  using schedule_inv_request [of "wn_transmit n" "cm_log_interval msg"]
  by (simp add: neighbor_inv_def ptp_wifi_neighbor_interval_def split_beta)

lemma neighbor_inv_sync: "neighbor_inv n \<Longrightarrow> neighbor_inv (snd (ptp_wifi_neighbor_sync_interval n m a msg))"
  by (cases msg) (simp_all add: neighbor_inv_def ptp_wifi_neighbor_sync_interval_def split: prod.splits)

lemma neighbor_inv_sent: "neighbor_inv n \<Longrightarrow> neighbor_inv (snd (ptp_wifi_neighbor_sent n m a t acc now))"
  using schedule_inv_finish [of "wn_transmit n" t acc now]
  by (simp add: neighbor_inv_def ptp_wifi_neighbor_sent_def split_beta)

lemma neighbor_inv_begin:
  "neighbor_inv n \<Longrightarrow> neighbor_inv (n\<lparr>wn_transmit := snd (ptp_capable_schedule_begin (wn_transmit n) en now)\<rparr>)"
  by (simp add: neighbor_inv_def schedule_inv_begin)

lemmas neighbor_invs = neighbor_inv_associate neighbor_inv_bind neighbor_inv_interval
  neighbor_inv_sync neighbor_inv_sent neighbor_inv_begin

lemma neighbor_inv_step: "neighbor_step n n' \<Longrightarrow> neighbor_inv n \<Longrightarrow> neighbor_inv n'"
  by (induction rule: neighbor_step.induct) (simp_all add: neighbor_invs)

lemma neighbor_inv_zero: "neighbor_inv neighbor_zero"
  by (simp add: neighbor_inv_def neighbor_zero_def schedule_inv_start)

lemma neighbor_inv_reachable: "neighbor_step\<^sup>*\<^sup>* neighbor_zero n \<Longrightarrow> neighbor_inv n"
  by (induction rule: rtranclp_induct) (auto intro: neighbor_inv_step neighbor_inv_zero)

lemma stale_refused:
  assumes "a \<noteq> wn_association n"
  shows "ptp_wifi_neighbor_bind n a m i = (False, n)" "ptp_wifi_neighbor_interval n m a msg = (False, n)"
    "ptp_wifi_neighbor_sync_interval n m a imsg = (False, n)"
    "ptp_wifi_neighbor_sent n m a t acc now = (False, n)"
  using assms by (simp_all add: ptp_wifi_neighbor_bind_def ptp_wifi_neighbor_interval_def
        ptp_wifi_neighbor_sync_interval_def ptp_wifi_neighbor_sent_def split: option.split)

text \<open>
  C18. A station acts only for its current association.  In every reachable state the record
  is well formed; a request for a new capability or Sync interval is accepted only from the
  access point's own MAC under the current association and only from the identity an Announce
  has bound; and once the station associates again, nothing that still carries the previous
  association number (a late Announce, request or transmit completion) changes the record.
\<close>

theorem neighbor_current_association:
  assumes "neighbor_step\<^sup>*\<^sup>* neighbor_zero n"
  shows "neighbor_inv n \<and>
    (fst (ptp_wifi_neighbor_interval n m a msg) \<longrightarrow>
       a = wn_association n \<and> wn_bound n \<and> m = Some (wn_bssid n) \<and> cm_source_port msg = wn_port_identity n) \<and>
    (fst (ptp_wifi_neighbor_sync_interval n m a imsg) \<longrightarrow>
       a = wn_association n \<and> wn_bound n \<and> m = Some (wn_bssid n)) \<and>
    (let n' = ptp_wifi_neighbor_associate n b; old = wn_association n in
       ptp_wifi_neighbor_bind n' old m i = (False, n') \<and>
       ptp_wifi_neighbor_interval n' m old msg = (False, n') \<and>
       ptp_wifi_neighbor_sync_interval n' m old imsg = (False, n') \<and>
       ptp_wifi_neighbor_sent n' m old t acc now = (False, n'))"
proof -
  have as: "wn_association (ptp_wifi_neighbor_associate n b) = bump32 (wn_association n)"
    by (cases b) (simp_all add: ptp_wifi_neighbor_associate_def)
  have "fst (ptp_wifi_neighbor_interval n m a msg) \<longrightarrow>
       a = wn_association n \<and> wn_bound n \<and> m = Some (wn_bssid n) \<and> cm_source_port msg = wn_port_identity n"
    by (simp add: ptp_wifi_neighbor_interval_def ptp_wifi_neighbor_accepts_def)
  moreover have "fst (ptp_wifi_neighbor_sync_interval n m a imsg) \<longrightarrow>
       a = wn_association n \<and> wn_bound n \<and> m = Some (wn_bssid n)"
    by (cases imsg) (simp_all add: ptp_wifi_neighbor_sync_interval_def ptp_wifi_neighbor_accepts_def)
  moreover note stale_refused [where n = "ptp_wifi_neighbor_associate n b" and a = "wn_association n"]
  ultimately show ?thesis
    unfolding Let_def using neighbor_inv_reachable [OF assms] as neq_bump32 by metis
qed

theorem neighbor_current_association_witness:
  "let n = ptp_wifi_neighbor_associate neighbor_zero (Some [2,0,0,0,0,9]);
       n' = ptp_wifi_neighbor_associate n None
   in wn_association n = 1 \<and> ptp_wifi_neighbor_sent n' (Some [2,0,0,0,0,9]) 1 1 True 0 = (False, n')"
proof -
  define n where "n = ptp_wifi_neighbor_associate neighbor_zero (Some [2,0,0,0,0,9])"
  have r: "neighbor_step\<^sup>*\<^sup>* neighbor_zero n"
    unfolding n_def by (rule r_into_rtranclp) (rule neighbor_step.associate)
  have "wn_association n = 1"
    by (simp add: n_def ptp_wifi_neighbor_associate_def neighbor_zero_def bump32_def)
  moreover from this have "ptp_wifi_neighbor_sent (ptp_wifi_neighbor_associate n None)
      (Some [2,0,0,0,0,9]) 1 1 True 0 = (False, ptp_wifi_neighbor_associate n None)"
    using neighbor_current_association [OF r, where b = None and m = "Some [2,0,0,0,0,9]" and t = 1
        and acc = True and now = 0] unfolding Let_def by metis
  ultimately show ?thesis unfolding n_def [symmetric] Let_def by blast
qed

section \<open>asCapable\<close>

text \<open>
  C34. asCapable of an 802.11 association: a common measurement method is necessary; with
  Timing Measurement at both ends it suffices that the neighbor signals gPTP capability or
  the domain is 0; without it, capability is signalled and the responder granted two or three
  FTM frames per burst.
\<close>

theorem wifi_as_capable_spec:
  "ptp_wifi_as_capable media neighbor domain \<longleftrightarrow>
     (if wm_tm_local media \<and> wm_tm_peer media then neighbor \<or> domain = 0
      else wm_ftm_local media \<and> wm_ftm_peer media \<and> neighbor \<and> wm_granted_frames media \<in> {2, 3})"
  by (auto simp: ptp_wifi_as_capable_def ptp_wifi_tm_ftm_support_def Let_def)

end
