(* ===== verification/Ptp_Wire.thy ===== *)
theory Ptp_Wire
  imports Ptp_Prelude
begin

text \<open>
  The wire: the message structures of \<^verbatim>\<open>ptp.h\<close> (arrays of octets, so the memory image is the
  concatenation of the fields), the length validation of \<^verbatim>\<open>ptp_message_bounds.h\<close>, the
  normalisation of \<^verbatim>\<open>ptp_gptp_wire.h\<close>, the payload test of \<^verbatim>\<open>ptp_timing_snapshot.h\<close> and the
  conversions of \<^verbatim>\<open>ptp.c\<close> between wire fields and host values.
\<close>

section \<open>Big-endian integers\<close>

text \<open>The value of a big-endian octet string, and the low \<open>n\<close> octets of an integer
  (\<open>(uint8_t)(x >> 8 * k)\<close> for the descending \<open>k\<close>).\<close>

definition be_int :: "bytes \<Rightarrow> int" where
  "be_int bs = foldl (\<lambda>acc b. acc * 256 + uint b) 0 bs"

primrec octets :: "nat \<Rightarrow> int \<Rightarrow> bytes" where
  "octets 0 x = []"
| "octets (Suc n) x = octets n (x div 256) @ [word_of_int x]"

text \<open>The value read as two's complement of its width.\<close>

definition be_sint :: "bytes \<Rightarrow> int" where
  "be_sint bs = (let v = be_int bs in
     if v < 2 ^ (8 * length bs - 1) then v else v - 2 ^ (8 * length bs))"

lemma length_octets [simp]: "length (octets n x) = n"
  by (induction n arbitrary: x) simp_all

lemma be_int_Nil [simp]: "be_int [] = 0"
  by (simp add: be_int_def)

lemma be_int_snoc [simp]: "be_int (bs @ [b]) = be_int bs * 256 + uint b"
  by (simp add: be_int_def)

lemma be_int_append: "be_int (xs @ ys) = be_int xs * 256 ^ length ys + be_int ys"
proof (induction ys rule: rev_induct)
  case (snoc y ys)
  have "be_int (xs @ ys @ [y]) = be_int (xs @ ys) * 256 + uint y"
    using be_int_snoc [of "xs @ ys" y] by simp
  with snoc show ?case by (simp add: algebra_simps)
qed simp

lemma be_int_bounds: "0 \<le> be_int bs \<and> be_int bs < 256 ^ length bs"
proof (induction bs rule: rev_induct)
  case (snoc b bs)
  have "0 \<le> uint b" "uint b < 256" using uint_lt2p [of b] by simp_all
  with snoc show ?case by simp
qed simp

lemma be_int_octets: "be_int (octets n x) = x mod 256 ^ n"
proof (induction n arbitrary: x)
  case (Suc n)
  have "uint (word_of_int x :: u8) = x mod 256" by (simp add: uint_word_of_int)
  then have "be_int (octets (Suc n) x) = x div 256 mod 256 ^ n * 256 + x mod 256"
    by (simp add: Suc.IH)
  then show ?case
    using zmod_zmult2_eq [of "256 ^ n" x 256] by simp
qed simp

lemma octets_be_int: "length bs = n \<Longrightarrow> octets n (be_int bs) = bs"
proof (induction n arbitrary: bs)
  case (Suc n)
  then obtain xs b where bs: "bs = xs @ [b]" "length xs = n"
    by (metis length_Suc_conv_rev)
  have b: "0 \<le> uint b" "uint b < 256" using uint_lt2p [of b] by simp_all
  have "(be_int xs * 256 + uint b) div 256 = be_int xs" using b by simp
  moreover have "word_of_int (be_int xs * 256 + uint b) = b"
  proof -
    have "(be_int xs * 256 + uint b) mod 256 = uint b" using b by simp
    moreover have "uint (word_of_int v :: u8) = v mod 256" for v by (simp add: uint_word_of_int)
    ultimately show ?thesis by (metis word_uint_eq_iff)
  qed
  ultimately show ?case using Suc.IH [OF bs(2)] bs(1) by simp
qed simp

lemma pow256: "(256::int) ^ n = 2 ^ (8 * n)"
  by (simp add: power_mult)

lemma be_sint_octets:
  assumes "0 < n" "- (2 ^ (8 * n - 1)) \<le> x" "x < 2 ^ (8 * n - 1)"
  shows "be_sint (octets n x) = x"
proof -
  have p: "(2::int) ^ (8 * n) = 2 * 2 ^ (8 * n - 1)"
    using assms(1) by (cases n) (simp_all flip: power_Suc)
  show ?thesis
  proof (cases "0 \<le> x")
    case True
    then have "x mod 2 ^ (8 * n) = x" using assms(3) p by (simp add: mod_pos_pos_trivial)
    then show ?thesis using assms(3) by (simp add: be_sint_def be_int_octets pow256)
  next
    case False
    have "x mod 2 ^ (8 * n) = (x + 2 ^ (8 * n)) mod 2 ^ (8 * n)" by simp
    also have "\<dots> = x + 2 ^ (8 * n)"
      using False assms(2) p by (intro mod_pos_pos_trivial) linarith+
    finally show ?thesis using assms(2) p by (simp add: be_sint_def be_int_octets pow256)
  qed
qed

section \<open>Message structures\<close>

record ptp_info_tlv =
  it_type :: bytes
  it_length :: bytes
  it_orgidentity :: bytes
  it_orgsubtype :: bytes
  it_cumulativescaledrateoffset :: bytes
  it_gmtimebaseindicator :: bytes
  it_lastgmphasechange :: bytes
  it_scaledlastgmfreqchange :: bytes

record ptp_header =
  hd_messagetype :: u8
  hd_version :: u8
  hd_messagelength :: bytes
  hd_domain :: u8
  hd_reserved1 :: u8
  hd_flags :: bytes
  hd_correction :: bytes
  hd_reserved2 :: bytes
  hd_sourceidentity :: bytes
  hd_sourceportindex :: bytes
  hd_sequenceid :: bytes
  hd_controlfield :: u8
  hd_logmessageinterval :: u8

record ptp_announce =
  an_header :: ptp_header
  an_origintimestamp :: bytes
  an_utcoffset :: bytes
  an_reserved :: u8
  an_btc_priority1 :: u8
  an_btc_quality :: bytes
  an_btc_priority2 :: u8
  an_btc_identity :: bytes
  an_stepsremoved :: bytes
  an_timesource :: u8
  an_pathtracetlv :: bytes

record ptp_sync =
  sy_header :: ptp_header
  sy_origintimestamp :: bytes

record ptp_follow_up =
  fu_header :: ptp_header
  fu_origintimestamp :: bytes
  fu_informationtlv :: bytes

record ptp_delay_req =
  dq_header :: ptp_header
  dq_origintimestamp :: bytes

record ptp_delay_resp =
  dr_header :: ptp_header
  dr_receivetimestamp :: bytes
  dr_reqidentity :: bytes
  dr_reqportindex :: bytes

record ptp_delay_resp_follow_up =
  df_header :: ptp_header
  df_origintimestamp :: bytes
  df_reqidentity :: bytes
  df_reqportindex :: bytes

record ptp_pdelay_req =
  pq_header :: ptp_header
  pq_reserved :: bytes

text \<open>Field lengths, the image in memory and the view of a buffer as a structure.\<close>

definition header_wf :: "ptp_header \<Rightarrow> bool" where
  "header_wf h \<longleftrightarrow> length (hd_messagelength h) = 2 \<and> length (hd_flags h) = 2 \<and>
     length (hd_correction h) = 8 \<and> length (hd_reserved2 h) = 4 \<and>
     length (hd_sourceidentity h) = 8 \<and> length (hd_sourceportindex h) = 2 \<and>
     length (hd_sequenceid h) = 2"

definition header_bytes :: "ptp_header \<Rightarrow> bytes" where
  "header_bytes h = [hd_messagetype h, hd_version h] @ hd_messagelength h @
     [hd_domain h, hd_reserved1 h] @ hd_flags h @ hd_correction h @ hd_reserved2 h @
     hd_sourceidentity h @ hd_sourceportindex h @ hd_sequenceid h @
     [hd_controlfield h, hd_logmessageinterval h]"

definition header_of :: "bytes \<Rightarrow> ptp_header" where
  "header_of m = \<lparr>hd_messagetype = m ! 0, hd_version = m ! 1, hd_messagelength = slice 2 2 m,
     hd_domain = m ! 4, hd_reserved1 = m ! 5, hd_flags = slice 6 2 m, hd_correction = slice 8 8 m,
     hd_reserved2 = slice 16 4 m, hd_sourceidentity = slice 20 8 m,
     hd_sourceportindex = slice 28 2 m, hd_sequenceid = slice 30 2 m,
     hd_controlfield = m ! 32, hd_logmessageinterval = m ! 33\<rparr>"

definition header_zero :: ptp_header where
  "header_zero = header_of (replicate 34 0)"

definition announce_wf :: "ptp_announce \<Rightarrow> bool" where
  "announce_wf a \<longleftrightarrow> header_wf (an_header a) \<and> length (an_origintimestamp a) = 10 \<and>
     length (an_utcoffset a) = 2 \<and> length (an_btc_quality a) = 4 \<and> length (an_btc_identity a) = 8 \<and>
     length (an_stepsremoved a) = 2 \<and> length (an_pathtracetlv a) = 12"

definition announce_bytes :: "ptp_announce \<Rightarrow> bytes" where
  "announce_bytes a = header_bytes (an_header a) @ an_origintimestamp a @ an_utcoffset a @
     [an_reserved a, an_btc_priority1 a] @ an_btc_quality a @ [an_btc_priority2 a] @
     an_btc_identity a @ an_stepsremoved a @ [an_timesource a] @ an_pathtracetlv a"

definition announce_of :: "bytes \<Rightarrow> ptp_announce" where
  "announce_of m = \<lparr>an_header = header_of m, an_origintimestamp = slice 34 10 m,
     an_utcoffset = slice 44 2 m, an_reserved = m ! 46, an_btc_priority1 = m ! 47,
     an_btc_quality = slice 48 4 m, an_btc_priority2 = m ! 52, an_btc_identity = slice 53 8 m,
     an_stepsremoved = slice 61 2 m, an_timesource = m ! 63, an_pathtracetlv = slice 64 12 m\<rparr>"

definition sync_bytes :: "ptp_sync \<Rightarrow> bytes" where
  "sync_bytes s = header_bytes (sy_header s) @ sy_origintimestamp s"

definition sync_of :: "bytes \<Rightarrow> ptp_sync" where
  "sync_of m = \<lparr>sy_header = header_of m, sy_origintimestamp = slice 34 10 m\<rparr>"

definition follow_up_wf :: "ptp_follow_up \<Rightarrow> bool" where
  "follow_up_wf f \<longleftrightarrow> header_wf (fu_header f) \<and> length (fu_origintimestamp f) = 10 \<and>
     length (fu_informationtlv f) = 32"

definition follow_up_bytes :: "ptp_follow_up \<Rightarrow> bytes" where
  "follow_up_bytes f = header_bytes (fu_header f) @ fu_origintimestamp f @ fu_informationtlv f"

definition follow_up_of :: "bytes \<Rightarrow> ptp_follow_up" where
  "follow_up_of m = \<lparr>fu_header = header_of m, fu_origintimestamp = slice 34 10 m,
     fu_informationtlv = slice 44 32 m\<rparr>"

definition delay_req_of :: "bytes \<Rightarrow> ptp_delay_req" where
  "delay_req_of m = \<lparr>dq_header = header_of m, dq_origintimestamp = slice 34 10 m\<rparr>"

definition delay_req_bytes :: "ptp_delay_req \<Rightarrow> bytes" where
  "delay_req_bytes r = header_bytes (dq_header r) @ dq_origintimestamp r"

definition delay_resp_wf :: "ptp_delay_resp \<Rightarrow> bool" where
  "delay_resp_wf r \<longleftrightarrow> header_wf (dr_header r) \<and> length (dr_receivetimestamp r) = 10 \<and>
     length (dr_reqidentity r) = 8 \<and> length (dr_reqportindex r) = 2"

definition delay_resp_bytes :: "ptp_delay_resp \<Rightarrow> bytes" where
  "delay_resp_bytes r = header_bytes (dr_header r) @ dr_receivetimestamp r @ dr_reqidentity r @
     dr_reqportindex r"

definition delay_resp_of :: "bytes \<Rightarrow> ptp_delay_resp" where
  "delay_resp_of m = \<lparr>dr_header = header_of m, dr_receivetimestamp = slice 34 10 m,
     dr_reqidentity = slice 44 8 m, dr_reqportindex = slice 52 2 m\<rparr>"

definition delay_resp_follow_up_bytes :: "ptp_delay_resp_follow_up \<Rightarrow> bytes" where
  "delay_resp_follow_up_bytes r = header_bytes (df_header r) @ df_origintimestamp r @
     df_reqidentity r @ df_reqportindex r"

definition delay_resp_follow_up_of :: "bytes \<Rightarrow> ptp_delay_resp_follow_up" where
  "delay_resp_follow_up_of m = \<lparr>df_header = header_of m, df_origintimestamp = slice 34 10 m,
     df_reqidentity = slice 44 8 m, df_reqportindex = slice 52 2 m\<rparr>"

definition pdelay_req_bytes :: "ptp_pdelay_req \<Rightarrow> bytes" where
  "pdelay_req_bytes r = header_bytes (pq_header r) @ pq_reserved r"

definition info_tlv_of :: "bytes \<Rightarrow> ptp_info_tlv" where
  "info_tlv_of m = \<lparr>it_type = slice 0 2 m, it_length = slice 2 2 m, it_orgidentity = slice 4 3 m,
     it_orgsubtype = slice 7 3 m, it_cumulativescaledrateoffset = slice 10 4 m,
     it_gmtimebaseindicator = slice 14 2 m, it_lastgmphasechange = slice 16 12 m,
     it_scaledlastgmfreqchange = slice 28 4 m\<rparr>"

definition info_tlv_bytes :: "ptp_info_tlv \<Rightarrow> bytes" where
  "info_tlv_bytes t = it_type t @ it_length t @ it_orgidentity t @ it_orgsubtype t @
     it_cumulativescaledrateoffset t @ it_gmtimebaseindicator t @ it_lastgmphasechange t @
     it_scaledlastgmfreqchange t"

section \<open>Structures and buffers\<close>

lemma slice_past: "length xs \<le> off \<Longrightarrow> slice off n (xs @ ys) = slice (off - length xs) n ys"
  by (simp add: slice_def)

lemma slice_first: "n = length xs \<Longrightarrow> slice 0 n (xs @ ys) = xs"
  by (simp add: slice_def)

lemma slice_all: "n = length xs \<Longrightarrow> slice 0 n xs = xs"
  by (simp add: slice_def)

lemma slice_Cons: "0 < off \<Longrightarrow> slice off n (x # xs) = slice (off - 1) n xs"
  by (cases off) (simp_all add: slice_def)

lemma slice_within: "off + n \<le> length xs \<Longrightarrow> slice off n (xs @ ys) = slice off n xs"
  by (simp add: slice_def)

lemma slice_join: "b = a + n \<Longrightarrow> slice a n m @ slice b k m = slice a (n + k) m"
proof -
  assume "b = a + n"
  then have "slice b k m = take k (drop n (drop a m))"
    by (simp add: slice_def add.commute)
  then show ?thesis by (simp add: slice_def take_add)
qed

lemma slice_pair: "i + 2 \<le> length m \<Longrightarrow> [m ! i, m ! Suc i] = slice i 2 m"
  by (rule nth_equalityI) (auto simp: slice_def less_2_cases_iff numeral_2_eq_2 less_Suc_eq)

lemma slice_one: "i < length m \<Longrightarrow> [m ! i] = slice i 1 m"
  by (simp add: slice_def take_Suc_conv_app_nth take_Suc hd_drop_conv_nth)

lemmas slice_layout = slice_past slice_first slice_all slice_Cons nth_append

lemma length_header_bytes [simp]: "header_wf h \<Longrightarrow> length (header_bytes h) = 34"
  by (simp add: header_bytes_def header_wf_def)

lemma header_of_bytes: "header_wf h \<Longrightarrow> header_of (header_bytes h @ rest) = h"
  by (simp add: header_bytes_def header_wf_def header_of_def slice_layout)

lemma header_of_wf: "34 \<le> length m \<Longrightarrow> header_wf (header_of m)"
  by (simp add: header_wf_def header_of_def)

lemma header_bytes_of:
  assumes "34 \<le> length m"
  shows "header_bytes (header_of m) = take 34 m"
proof -
  have "header_bytes (header_of m) = slice 0 2 m @ slice 2 2 m @ slice 4 2 m @ slice 6 2 m @ slice 8 8 m @
      slice 16 4 m @ slice 20 8 m @ slice 28 2 m @ slice 30 2 m @ slice 32 2 m"
    using assms slice_pair [of 0 m] slice_pair [of 4 m] slice_pair [of 32 m]
    by (simp add: header_bytes_def header_of_def flip: append_assoc)
  also have "\<dots> = slice 0 34 m" by (simp add: slice_join)
  finally show ?thesis by (simp add: slice_def)
qed

lemma header_of_take: "34 \<le> n \<Longrightarrow> header_of (take n m) = header_of m"
  by (simp add: header_of_def slice_def take_drop min_def)

lemma views_wf:
  "76 \<le> length m \<Longrightarrow> announce_wf (announce_of m)"
  "76 \<le> length m \<Longrightarrow> follow_up_wf (follow_up_of m)"
  "54 \<le> length m \<Longrightarrow> delay_resp_wf (delay_resp_of m)"
  by (simp_all add: announce_wf_def announce_of_def follow_up_wf_def follow_up_of_def
      delay_resp_wf_def delay_resp_of_def header_of_wf)

text \<open>The message structures are the wire format: what a structure puts on the wire, with
  whatever follows it, is read back field by field as it was, for Announce, Follow_Up and the
  delay responses; and a received buffer of at least 34 octets viewed as a header keeps its
  octets.\<close>

theorem message_roundtrip:
  assumes "announce_wf a" "follow_up_wf f" "delay_resp_wf r" "34 \<le> length m"
  shows "announce_of (announce_bytes a @ rest) = a \<and> length (announce_bytes a) = 76 \<and>
    follow_up_of (follow_up_bytes f @ rest) = f \<and> length (follow_up_bytes f) = 76 \<and>
    delay_resp_of (delay_resp_bytes r @ rest) = r \<and> length (delay_resp_bytes r) = 54 \<and>
    header_bytes (header_of m) = take 34 m"
proof -
  have "announce_of (announce_bytes a @ rest) = a" "length (announce_bytes a) = 76"
    using assms(1) by (simp_all add: announce_wf_def announce_of_def announce_bytes_def
        header_of_bytes slice_layout)
  moreover have "follow_up_of (follow_up_bytes f @ rest) = f" "length (follow_up_bytes f) = 76"
    using assms(2) by (simp_all add: follow_up_wf_def follow_up_of_def follow_up_bytes_def
        header_of_bytes slice_layout)
  moreover have "delay_resp_of (delay_resp_bytes r @ rest) = r" "length (delay_resp_bytes r) = 54"
    using assms(3) by (simp_all add: delay_resp_wf_def delay_resp_of_def delay_resp_bytes_def
        header_of_bytes slice_layout)
  ultimately show ?thesis using header_bytes_of [OF assms(4)] by simp
qed

theorem message_roundtrip_witness:
  "let m = map word_of_nat [0..<76] in
     announce_of (announce_bytes (announce_of m) @ [1, 2]) = announce_of m \<and>
     header_bytes (header_of m) = take 34 m"
  using message_roundtrip [of "announce_of (map word_of_nat [0..<76])"
      "follow_up_of (map word_of_nat [0..<76])" "delay_resp_of (map word_of_nat [0..<76])"
      "map word_of_nat [0..<76]" "[1, 2]"]
  by (simp only: Let_def length_map length_upt views_wf le_refl)

section \<open>Time stamps and corrections\<close>

text \<open>\<^verbatim>\<open>struct timespec\<close>, with a 64-bit \<open>tv_sec\<close> and a 32-bit \<open>tv_nsec\<close>.\<close>

record timespec =
  tv_sec :: int
  tv_nsec :: int

abbreviation NSEC_PER_SEC :: int where "NSEC_PER_SEC \<equiv> 1000000000"

definition timespec_zero :: timespec where
  "timespec_zero = \<lparr>tv_sec = 0, tv_nsec = 0\<rparr>"

definition get_correction_ns :: "bytes \<Rightarrow> int" where
  "get_correction_ns correction_field = be_sint correction_field div 2 ^ 16"

text \<open>In 64 bits in the code, where a value outside overflows; here the exact value.\<close>

definition timespec_to_ns :: "timespec \<Rightarrow> int" where
  "timespec_to_ns ts = tv_sec ts * NSEC_PER_SEC + tv_nsec ts"

text \<open>\<open>time64\<close> is the build option \<^verbatim>\<open>CONFIG_SYSTEM_TIME64\<close>.\<close>

definition timespec_to_ptp_format :: "bool \<Rightarrow> timespec \<Rightarrow> bytes" where
  "timespec_to_ptp_format time64 ts =
     (if time64 then octets 6 (tv_sec ts) else [0, 0] @ octets 4 (tv_sec ts)) @ octets 4 (tv_nsec ts)"

definition ptp_format_to_timespec :: "bytes \<Rightarrow> timespec" where
  "ptp_format_to_timespec timestamp =
     \<lparr>tv_sec = be_int (slice 0 6 timestamp), tv_nsec = be_sint (slice 6 4 timestamp)\<rparr>"

definition timespec_to_ms :: "timespec \<Rightarrow> int" where
  "timespec_to_ms ts = tv_sec ts * 1000 + tv_nsec ts sdiv 1000000"

definition timespec_delta_ns :: "bool \<Rightarrow> timespec \<Rightarrow> timespec \<Rightarrow> int" where
  "timespec_delta_ns time64 ts1 ts2 =
     (let delta_s = tv_sec ts1 - tv_sec ts2 in
      if time64 \<and> delta_s \<ge> INT64_MAX sdiv NSEC_PER_SEC then INT64_MAX
      else if time64 \<and> delta_s \<le> INT64_MIN sdiv NSEC_PER_SEC then INT64_MIN
      else delta_s * NSEC_PER_SEC + (tv_nsec ts1 - tv_nsec ts2))"

text \<open>The sequence counter is 16 bits wide.\<close>

definition ptp_increment_sequence :: "u16 \<Rightarrow> ptp_header \<Rightarrow> u16 \<times> ptp_header" where
  "ptp_increment_sequence sequence_num hdr =
     (let n = sequence_num + 1 in (n, hdr\<lparr>hd_sequenceid := octets 2 (uint n)\<rparr>))"

definition ptp_get_sequence :: "ptp_header \<Rightarrow> u16" where
  "ptp_get_sequence hdr = word_of_nat (be16 (hd_sequenceid hdr ! 0) (hd_sequenceid hdr ! 1))"

definition ptp_set_message_length :: "ptp_header \<Rightarrow> nat \<Rightarrow> ptp_header" where
  "ptp_set_message_length header len = header\<lparr>hd_messagelength := octets 2 (int len)\<rparr>"

definition ptp_scaled_ns_from_ns :: "int \<Rightarrow> bytes" where
  "ptp_scaled_ns_from_ns value_ns =
     (let sign_extension = (if value_ns < 0 then 0xff else 0x00)
      in [sign_extension, sign_extension] @ octets 8 value_ns @ [0, 0])"

lemma octets2: "octets 2 x = [word_of_int (x div 256), word_of_int x]"
  by (simp add: numeral_2_eq_2)

lemma octets2_nat: "octets 2 (int n) = [word_of_nat (n div 256), word_of_nat n]"
proof -
  have "int n div 256 = int (n div 256)" by simp
  then show ?thesis unfolding octets2 by (simp only: of_int_of_nat_eq)
qed

lemma be_int_two: "be_int [a, b] = int (be16 a b)"
  using be_int_append [of "[a]" "[b]"] by (simp add: be_int_def be16_def)

lemma sequence_octets: "word_of_nat (be16 (word_of_int (uint w div 256)) (word_of_int (uint w))) = (w :: u16)"
proof -
  have "int (be16 (word_of_int (uint w div 256)) (word_of_int (uint w))) = uint w mod 65536"
    using be_int_octets [of 2 "uint w"] by (simp add: be_int_two octets2)
  also have "\<dots> = uint w" using uint_lt2p [of w] by (simp add: mod_pos_pos_trivial)
  finally show ?thesis by (metis of_int_of_nat_eq word_of_int_uint)
qed

lemma sequence_read_back: "ptp_get_sequence (snd (ptp_increment_sequence n h)) = n + 1"
  using sequence_octets [of "n + 1"]
  by (simp add: ptp_get_sequence_def ptp_increment_sequence_def Let_def octets2 del: word_of_int_uint)

text \<open>The nanoseconds of a time stamp fit in 64 bits up to the year 2262, but the seconds on the wire
  have 48 bits, and the largest does not.\<close>

lemma timespec_to_ns_fits:
  assumes "0 \<le> tv_sec ts" "tv_sec ts \<le> 9223372034" "\<bar>tv_nsec ts\<bar> \<le> 2 ^ 31"
  shows "in_i64 (timespec_to_ns ts)"
  using assms by (auto simp: in_i64_def timespec_to_ns_def)

lemma timespec_to_ns_overflows: "\<not> in_i64 (timespec_to_ns (ptp_format_to_timespec (replicate 6 255 @ replicate 4 0)))"
  by code_simp

lemma ptp_format_back:
  assumes "0 \<le> tv_sec ts" "tv_sec ts < (if time64 then 2 ^ 48 else 2 ^ 32)"
    "0 \<le> tv_nsec ts" "tv_nsec ts < NSEC_PER_SEC"
  shows "ptp_format_to_timespec (timespec_to_ptp_format time64 ts) = ts"
proof -
  have nsec: "be_sint (octets 4 (tv_nsec ts)) = tv_nsec ts"
    using assms(3,4) by (intro be_sint_octets) simp_all
  have "be_int [0, 0] = 0" by (simp add: be_int_def)
  then have "be_int (if time64 then octets 6 (tv_sec ts) else [0, 0] @ octets 4 (tv_sec ts)) = tv_sec ts"
    using assms(1,2) be_int_append [of "[0, 0]" "octets 4 (tv_sec ts)"]
    by (auto simp: be_int_octets mod_pos_pos_trivial)
  with nsec show ?thesis
    by (simp add: ptp_format_to_timespec_def timespec_to_ptp_format_def slice_layout)
qed

text \<open>Time stamps survive the wire: a normalised time stamp whose seconds fit the encoded
  field reads back as it was written, and every normalised 80-bit time stamp is reproduced octet
  by octet when 64-bit time is configured.\<close>

theorem timestamp_roundtrip:
  assumes "0 \<le> tv_sec ts" "tv_sec ts < (if time64 then 2 ^ 48 else 2 ^ 32)"
    "0 \<le> tv_nsec ts" "tv_nsec ts < NSEC_PER_SEC"
    "length stamp = 10" "be_int (slice 6 4 stamp) < NSEC_PER_SEC"
  shows "ptp_format_to_timespec (timespec_to_ptp_format time64 ts) = ts \<and>
         timespec_to_ptp_format True (ptp_format_to_timespec stamp) = stamp \<and>
         length (timespec_to_ptp_format time64 ts) = 10"
proof -
  have "ptp_format_to_timespec (timespec_to_ptp_format time64 ts) = ts"
    using assms(1-4) by (rule ptp_format_back)
  moreover have "timespec_to_ptp_format True (ptp_format_to_timespec stamp) = stamp"
  proof -
    have l: "length (slice 6 4 stamp) = 4" "length (slice 0 6 stamp) = 6" using assms(5) by simp_all
    then have "be_sint (slice 6 4 stamp) = be_int (slice 6 4 stamp)"
      using assms(6) by (simp add: be_sint_def)
    then show ?thesis
      using assms(5) octets_be_int [OF l(1)] octets_be_int [OF l(2)] slice_join [of 6 0 6 stamp 4]
      by (simp add: ptp_format_to_timespec_def timespec_to_ptp_format_def slice_all)
  qed
  ultimately show ?thesis by (simp add: timespec_to_ptp_format_def)
qed

theorem timestamp_roundtrip_witness:
  "ptp_format_to_timespec (timespec_to_ptp_format False \<lparr>tv_sec = 1700000000, tv_nsec = 999999999\<rparr>) =
     \<lparr>tv_sec = 1700000000, tv_nsec = 999999999\<rparr>"
proof -
  have "be_int (slice 6 4 (replicate 10 0)) < NSEC_PER_SEC" by code_simp
  then show ?thesis
    using timestamp_roundtrip [of "\<lparr>tv_sec = 1700000000, tv_nsec = 999999999\<rparr>" False "replicate 10 0"]
    by simp
qed

text \<open>Signed wire quantities: a correction field that holds a count of \<open>2\<^sup>-\<^sup>1\<^sup>6\<close> ns reads
  back as its whole nanoseconds rounded down, negative ones included, and the ScaledNs written
  for a phase change is that number of nanoseconds as a signed 96-bit count of \<open>2\<^sup>-\<^sup>1\<^sup>6\<close> ns.\<close>

theorem scaled_values:
  assumes "- (2 ^ 63) \<le> scaled" "scaled < 2 ^ 63" "in_i64 ns"
  shows "get_correction_ns (octets 8 scaled) = scaled div 2 ^ 16 \<and>
         be_sint (ptp_scaled_ns_from_ns ns) = ns * 2 ^ 16 \<and> length (ptp_scaled_ns_from_ns ns) = 12"
proof -
  have "be_sint (octets 8 scaled) = scaled" using assms(1,2) by (intro be_sint_octets) simp_all
  moreover have "be_sint (ptp_scaled_ns_from_ns ns) = ns * 2 ^ 16"
  proof -
    have z: "be_int [0, 0] = 0" "be_int [0xff, 0xff] = 65535" by (simp_all add: be_int_def)
    have i64: "- 9223372036854775808 \<le> ns" "ns \<le> 9223372036854775807"
      using assms(3) by (simp_all add: in_i64_def)
    have mod: "ns mod 256 ^ 8 = (if ns < 0 then ns + 256 ^ 8 else ns)"
    proof (cases "ns < 0")
      case True
      have "ns mod 256 ^ 8 = (ns + 256 ^ 8) mod 256 ^ 8" by simp
      also have "\<dots> = ns + 256 ^ 8" using True i64 by (intro mod_pos_pos_trivial) simp_all
      finally show ?thesis using True by simp
    next
      case False
      then show ?thesis using i64 by (simp add: mod_pos_pos_trivial)
    qed
    have "be_int (ptp_scaled_ns_from_ns ns) =
        (if ns < 0 then (65535 * 256 ^ 8 + ns + 256 ^ 8) * 256 ^ 2 else ns * 256 ^ 2)"
      using mod z by (simp add: ptp_scaled_ns_from_ns_def Let_def be_int_append be_int_octets
          algebra_simps del: append.simps)
    then show ?thesis
      using i64 by (simp add: be_sint_def ptp_scaled_ns_from_ns_def Let_def split: if_splits)
  qed
  ultimately show ?thesis
    by (simp add: get_correction_ns_def ptp_scaled_ns_from_ns_def Let_def)
qed

theorem scaled_values_witness:
  "get_correction_ns (octets 8 (-1)) = -1 \<and> be_sint (ptp_scaled_ns_from_ns (-5)) = -5 * 2 ^ 16"
  using scaled_values [of "-1" "-5"] by (simp add: in_i64_def)

section \<open>Validation and normalisation\<close>

text \<open>The least length the message type allows; \<open>message_bounded_length\<close>'s switch.\<close>

definition message_minimum :: "u8 \<Rightarrow> nat" where
  "message_minimum octet =
     (let t = and octet 15 in
      if t = 0 \<or> t = 1 then 44
      else if t = 2 \<or> t = 3 \<or> t = 9 \<or> t = 10 then 54
      else if t = 8 then (if drop_bit 4 octet = 1 then 76 else 44)
      else if t = 11 then 64
      else if t = 12 then 44
      else 34)"

definition ptp_message_bounded_length :: "bytes option \<Rightarrow> nat \<Rightarrow> nat" where
  "ptp_message_bounded_length message received =
     (case message of None \<Rightarrow> 0
      | Some m \<Rightarrow>
        if received < 34 \<or> and (m ! 1) 15 \<noteq> 2 then 0
        else
          let len = be16 (m ! 2) (m ! 3) in
          if len < message_minimum (m ! 0) \<or> len > received then 0 else len)"

text \<open>What normalisation does to every message type.\<close>

definition normalize_header :: "bytes \<Rightarrow> u8 \<Rightarrow> bytes" where
  "normalize_header wire minor_version =
     (splice 16 (replicate 4 0) (wire[1 := or (push_bit 4 minor_version) 2, 5 := 0]))[32 := 0]"

definition ptp_gptp_wire_normalize :: "bytes \<Rightarrow> nat \<Rightarrow> bool \<Rightarrow> u8 \<Rightarrow> bytes" where
  "ptp_gptp_wire_normalize wire len gptp minor_version =
     (if \<not> gptp \<or> len < 34 then wire
      else
        let wire = normalize_header wire minor_version;
            t = and (wire ! 0) 15;
            wire = (if t = 12 then wire[33 := 0x7f] else wire)
        in if t = 11 \<and> len \<ge> 64 then (splice 34 (replicate 10 0) wire)[46 := 0]
           else if t = 2 \<and> len \<ge> 54 then splice 34 (replicate 20 0) wire
           else if t = 0 \<and> and (wire ! 6) 2 \<noteq> 0 \<and> len \<ge> 44 then splice 34 (replicate 10 0) wire
           else wire)"

definition PTP_TIMING_FOLLOW_UP_SIZE :: nat where
  "PTP_TIMING_FOLLOW_UP_SIZE = 76"

definition ptp_timing_payload_valid :: "bytes option \<Rightarrow> nat \<Rightarrow> bool" where
  "ptp_timing_payload_valid message received =
     (case message of None \<Rightarrow> False
      | Some m \<Rightarrow>
        if received < PTP_TIMING_FOLLOW_UP_SIZE then False
        else
          let len = be16 (m ! 2) (m ! 3) in
          if and (m ! 0) 15 \<noteq> 8 \<or> and (m ! 1) 15 \<noteq> 2 \<or> len < PTP_TIMING_FOLLOW_UP_SIZE \<or> len > received
          then False
          else slice 44 10 m = [0, 3, 0, 28, 0, 0x80, 0xc2, 0, 0, 1])"

section \<open>AVB Lite extension TLVs\<close>

definition lite_orgid :: bytes where "lite_orgid = [0x8C, 0x1F, 0x64]"
definition endpoint_decl_subtype :: bytes where "endpoint_decl_subtype = [0x36, 0xC0, 0x01]"
definition PTP_ENDPOINT_DECL_TLV_DATA :: u8 where "PTP_ENDPOINT_DECL_TLV_DATA = 0x01"

definition endpoint_decl_tlv :: bytes where
  "endpoint_decl_tlv = [0x80, 0x00, 0x00, 0x08] @ lite_orgid @ endpoint_decl_subtype @
     [PTP_ENDPOINT_DECL_TLV_DATA, 0]"

definition ptp_append_endpoint_decl_tlv :: "bytes \<Rightarrow> nat \<Rightarrow> nat \<times> bytes" where
  "ptp_append_endpoint_decl_tlv msg_buf base_len = (12, splice base_len endpoint_decl_tlv msg_buf)"

text \<open>The offset of the value of the TLV that was found; \<open>offset\<close> is the loop variable.\<close>

definition lite_tlv_match :: "bytes \<Rightarrow> nat \<Rightarrow> bytes \<Rightarrow> nat \<Rightarrow> bool" where
  "lite_tlv_match msg_buf offset subtype min_len \<longleftrightarrow>
     (let ty = be16 (msg_buf ! offset) (msg_buf ! (offset + 1));
          len = be16 (msg_buf ! (offset + 2)) (msg_buf ! (offset + 3));
          body = offset + 4
      in (ty = 0x0003 \<or> ty = 0x8000) \<and> len \<ge> min_len \<and> len \<ge> 6 \<and>
         slice body 3 msg_buf = lite_orgid \<and> slice (body + 3) 3 msg_buf = subtype)"

function lite_tlv_walk :: "bytes \<Rightarrow> nat \<Rightarrow> bytes \<Rightarrow> nat \<Rightarrow> nat \<Rightarrow> nat option" where
  "lite_tlv_walk msg_buf total_len subtype min_len offset =
     (if offset + 4 \<le> total_len then
        let len = be16 (msg_buf ! (offset + 2)) (msg_buf ! (offset + 3));
            body = offset + 4
        in if body + len > total_len then None
           else if lite_tlv_match msg_buf offset subtype min_len then Some body
           else lite_tlv_walk msg_buf total_len subtype min_len (body + len)
      else None)"
  by pat_completeness auto
termination by (relation "measure (\<lambda>(_, total, _, _, offset). total - offset)") auto

declare lite_tlv_walk.simps [simp del]

definition ptp_find_lite_tlv :: "bytes \<Rightarrow> nat \<Rightarrow> nat \<Rightarrow> bytes \<Rightarrow> nat \<Rightarrow> nat option" where
  "ptp_find_lite_tlv msg_buf total_len base_len subtype min_len =
     lite_tlv_walk msg_buf total_len subtype min_len base_len"

definition ptp_msg_has_endpoint_decl_tlv :: "bytes \<Rightarrow> nat \<Rightarrow> nat \<Rightarrow> bool" where
  "ptp_msg_has_endpoint_decl_tlv msg_buf total_len base_len =
     (case ptp_find_lite_tlv msg_buf total_len base_len endpoint_decl_subtype 7 of
        None \<Rightarrow> False
      | Some v \<Rightarrow> msg_buf ! (v + 6) = PTP_ENDPOINT_DECL_TLV_DATA)"

lemma length_endpoint_decl_tlv [simp]: "length endpoint_decl_tlv = 12"
  by (simp add: endpoint_decl_tlv_def lite_orgid_def endpoint_decl_subtype_def)

lemma lite_tlv_walk_bounds:
  "lite_tlv_walk m tot sub mn off = Some v \<Longrightarrow>
     off + 4 \<le> v \<and> v + mn \<le> tot \<and> v + 6 \<le> tot \<and> slice v 3 m = lite_orgid \<and> slice (v + 3) 3 m = sub"
proof (induction m tot sub mn off rule: lite_tlv_walk.induct)
  case (1 m tot sub mn off)
  show ?case
  proof (cases "lite_tlv_match m off sub mn")
    case True
    then show ?thesis
      using 1(2) lite_tlv_walk.simps [of m tot sub mn off]
      by (auto simp: Let_def lite_tlv_match_def split: if_splits)
  next
    case False
    then have len: "off + 4 \<le> tot" "\<not> off + 4 + be16 (m ! (off + 2)) (m ! (off + 3)) > tot"
      and rec: "lite_tlv_walk m tot sub mn (off + 4 + be16 (m ! (off + 2)) (m ! (off + 3))) = Some v"
      using 1(2) lite_tlv_walk.simps [of m tot sub mn off] by (auto simp: Let_def split: if_splits)
    show ?thesis using 1(1) [OF len(1) refl refl len(2) False rec] by auto
  qed
qed

text \<open>The length the daemon trusts of a received message is bounded by what was received, is
  the length the message states, does not depend on the octets after it (Ethernet padding), and
  covers the fixed part of the structure the daemon casts it to for every message type.\<close>

theorem bounded_length_safe:
  assumes "ptp_message_bounded_length (Some m) received = n" "n \<noteq> 0" "received \<le> length m"
  shows "34 \<le> n \<and> n \<le> received \<and> message_minimum (m ! 0) \<le> n \<and> n = be16 (m ! 2) (m ! 3) \<and>
    (\<forall>pad. ptp_message_bounded_length (Some (take n m @ pad)) (n + length pad) = n)"
proof -
  have f: "34 \<le> received" "and (m ! 1) 15 = 2" "n = be16 (m ! 2) (m ! 3)"
    "message_minimum (m ! 0) \<le> n" "n \<le> received"
    using assms(1,2) by (auto simp: ptp_message_bounded_length_def Let_def split: if_splits)
  have "34 \<le> message_minimum (m ! 0)" by (simp add: message_minimum_def Let_def)
  with f have n: "34 \<le> n" by linarith
  moreover have "ptp_message_bounded_length (Some (take n m @ pad)) (n + length pad) = n" for pad
  proof -
    have l: "34 \<le> length (take n m)" using n f(5) assms(3) by simp
    have "(take n m @ pad) ! i = m ! i" if "i < 34" for i
      using that n f(5) assms(3) by (simp add: nth_append)
    then show ?thesis using f n by (simp add: ptp_message_bounded_length_def Let_def)
  qed
  ultimately show ?thesis using f by blast
qed

theorem bounded_length_safe_witness:
  "ptp_message_bounded_length (Some ([0x10, 2, 0, 44] @ replicate 50 0)) 54 = 44 \<and>
   (\<forall>pad. ptp_message_bounded_length (Some (take 44 ([0x10, 2, 0, 44] @ replicate 50 0) @ pad)) (44 + length pad) = 44)"
proof -
  have "ptp_message_bounded_length (Some ([0x10, 2, 0, 44] @ replicate 50 0)) 54 = 44" by code_simp
  then show ?thesis
    using bounded_length_safe [of "[0x10, 2, 0, 44] @ replicate 50 0" 54 44] by simp
qed

text \<open>The scan for an AVB Lite TLV reads inside the message: a value that is found lies
  within the given length with its header, organisation, subtype and at least the octets asked
  for; and a message to which the endpoint declaration was appended is recognised.\<close>

theorem lite_tlv_safe:
  assumes "base_len + 12 \<le> length m"
  shows "(\<forall>v. ptp_find_lite_tlv buf tot base sub mn = Some v \<longrightarrow>
            base + 4 \<le> v \<and> v + mn \<le> tot \<and> slice v 3 buf = lite_orgid \<and> slice (v + 3) 3 buf = sub) \<and>
    ptp_msg_has_endpoint_decl_tlv (snd (ptp_append_endpoint_decl_tlv m base_len))
      (base_len + fst (ptp_append_endpoint_decl_tlv m base_len)) base_len"
proof -
  define b where "b = splice base_len endpoint_decl_tlv m"
  have b: "b ! (base_len + i) = endpoint_decl_tlv ! i" if "i < 12" for i
    using that assms by (simp add: b_def splice_def nth_append)
  have len: "be16 (b ! (base_len + 2)) (b ! (base_len + 3)) = 8"
    using b [of 2] b [of 3] by (simp add: endpoint_decl_tlv_def be16_def)
  have s: "slice (base_len + k) 3 b = slice k 3 endpoint_decl_tlv" if "k + 3 \<le> 12" for k
    using that assms by (simp add: slice_def b_def splice_def)
  have "lite_tlv_match b base_len endpoint_decl_subtype 7"
    using len b [of 0] b [of 1] s [of 4] s [of 7]
    by (simp add: lite_tlv_match_def Let_def be16_def endpoint_decl_tlv_def lite_orgid_def
        endpoint_decl_subtype_def slice_def add.assoc)
  then have "lite_tlv_walk b (base_len + 12) endpoint_decl_subtype 7 base_len = Some (base_len + 4)"
    using lite_tlv_walk.simps [of b "base_len + 12" endpoint_decl_subtype 7 base_len] len
    by (simp add: Let_def)
  moreover have "b ! (base_len + 10) = PTP_ENDPOINT_DECL_TLV_DATA"
    using b [of 10] by (simp add: endpoint_decl_tlv_def lite_orgid_def endpoint_decl_subtype_def)
  ultimately have "ptp_msg_has_endpoint_decl_tlv b (base_len + 12) base_len"
    by (simp add: ptp_msg_has_endpoint_decl_tlv_def ptp_find_lite_tlv_def add.commute)
  moreover have "\<forall>v. ptp_find_lite_tlv buf tot base sub mn = Some v \<longrightarrow>
            base + 4 \<le> v \<and> v + mn \<le> tot \<and> slice v 3 buf = lite_orgid \<and> slice (v + 3) 3 buf = sub"
    using lite_tlv_walk_bounds by (auto simp: ptp_find_lite_tlv_def)
  ultimately show ?thesis by (simp add: ptp_append_endpoint_decl_tlv_def b_def)
qed

theorem lite_tlv_safe_witness:
  "ptp_msg_has_endpoint_decl_tlv (snd (ptp_append_endpoint_decl_tlv (replicate 66 0) 54)) 66 54"
  using lite_tlv_safe [of 54 "replicate 66 0"] by (simp add: ptp_append_endpoint_decl_tlv_def)

text \<open>
  Which octets normalisation may touch: the version, the reserved fields, the control field, the
  log interval of a Signaling message and the fields a message type reserves.
\<close>

definition normalized_octet :: "u8 \<Rightarrow> nat \<Rightarrow> bool" where
  "normalized_octet ty i \<longleftrightarrow>
     i = 1 \<or> i = 5 \<or> (16 \<le> i \<and> i < 20) \<or> i = 32 \<or> (ty = 12 \<and> i = 33) \<or>
     (ty \<in> {0, 11} \<and> 34 \<le> i \<and> i < 44) \<or> (ty = 11 \<and> i = 46) \<or> (ty = 2 \<and> 34 \<le> i \<and> i < 54)"

lemma length_normalize_header [simp]: "20 \<le> length w \<Longrightarrow> length (normalize_header w v) = length w"
  by (simp add: normalize_header_def)

lemma nth_normalize_header:
  assumes "34 \<le> length w" "i < length w"
  shows "normalize_header w v ! i =
    (if i = 1 then or (push_bit 4 v) 2 else if i = 5 \<or> i = 32 \<or> 16 \<le> i \<and> i < 20 then 0 else w ! i)"
proof (cases "16 \<le> i \<and> i < 20")
  case True
  then have "splice 16 (replicate 4 0) (w[1 := or (push_bit 4 v) 2, 5 := 0]) ! i = 0"
    using assms by (auto simp: splice_def nth_append)
  with True assms show ?thesis by (simp add: normalize_header_def)
next
  case False
  then have "splice 16 (replicate 4 0) (w[1 := or (push_bit 4 v) 2, 5 := 0]) ! i =
      (w[1 := or (push_bit 4 v) 2, 5 := 0]) ! i"
    using assms by (intro nth_splice_other) auto
  with False assms show ?thesis by (auto simp: normalize_header_def nth_list_update)
qed

lemma normalize_cases:
  assumes "34 \<le> len" "len \<le> length w"
  shows "ptp_gptp_wire_normalize w len True v =
    (let h = normalize_header w v; t = and (w ! 0) 15 in
     if t = 11 \<and> len \<ge> 64 then (splice 34 (replicate 10 0) h)[46 := 0]
     else if t = 2 \<and> len \<ge> 54 then splice 34 (replicate 20 0) h
     else if t = 0 \<and> and (w ! 6) 2 \<noteq> 0 \<and> len \<ge> 44 then splice 34 (replicate 10 0) h
     else if t = 12 then h[33 := 0x7f] else h)"
proof -
  have "34 \<le> length w" "0 < length w" "6 < length w" using assms by linarith+
  then have "normalize_header w v ! 0 = w ! 0" "normalize_header w v ! 6 = w ! 6"
    by (simp_all only: nth_normalize_header) simp_all
  then show ?thesis
    using assms by (simp add: ptp_gptp_wire_normalize_def Let_def)
qed

lemma splice_again:
  "off + length z \<le> length h \<Longrightarrow> splice off z (splice off z h) = splice off z h"
  by (simp add: splice_def)

lemma splice_update_again:
  assumes "off + length z \<le> length h" "off + length z \<le> k"
  shows "(splice off z ((splice off z h)[k := x]))[k := x] = (splice off z h)[k := x]"
  using assms by (simp add: splice_def list_update_append drop_update_swap)

text \<open>Normalising a gPTP message for transmission changes only the octets the standard
  fixes: the length and every other octet, in particular the message type, flags, correction,
  source port identity, sequence number and a Follow_Up's time stamp, go out as marshalled, the
  version octet is PTP version 2 with the given minor version, and normalising again changes
  nothing.\<close>

theorem normalize_preserves:
  fixes v :: u8
  assumes "34 \<le> len" "len \<le> length w"
  defines "n \<equiv> ptp_gptp_wire_normalize w len True v"
  shows "length n = length w \<and> n ! 1 = or (push_bit 4 v) 2 \<and>
    (\<forall>i < length w. normalized_octet (and (w ! 0) 15) i \<or> n ! i = w ! i) \<and>
    ptp_gptp_wire_normalize n len True v = n"
proof -
  define h where "h = normalize_header w v"
  define t where "t = and (w ! 0) 15"
  have lh: "length h = length w" using assms(1,2) by (simp add: h_def)
  have hi: "h ! i = w ! i" if "i < length w" "\<not> normalized_octet t i" for i
    using that assms(1,2) by (auto simp: h_def nth_normalize_header normalized_octet_def)
  have h1: "h ! 1 = or (push_bit 4 v) 2" "h ! 5 = 0" "h ! 32 = 0"
    using assms(1,2) by (simp_all add: h_def nth_normalize_header)
  have n: "n = (if t = 11 \<and> len \<ge> 64 then (splice 34 (replicate 10 0) h)[46 := 0]
     else if t = 2 \<and> len \<ge> 54 then splice 34 (replicate 20 0) h
     else if t = 0 \<and> and (w ! 6) 2 \<noteq> 0 \<and> len \<ge> 44 then splice 34 (replicate 10 0) h
     else if t = 12 then h[33 := 0x7f] else h)"
    using normalize_cases [OF assms(1,2), of v] by (simp add: n_def h_def t_def Let_def)
  have ln: "length n = length w" using assms(1,2) lh by (simp add: n)
  have low: "n ! i = h ! i" if "i < 33" for i
    using that assms(1,2) lh by (simp add: n nth_splice_other)
  have frame: "n ! i = h ! i" if "i < length w" "\<not> normalized_octet t i" for i
  proof -
    consider "t = 11" | "t = 2" | "t = 0" | "t \<noteq> 11" "t \<noteq> 2" "t \<noteq> 0" by blast
    then show ?thesis
      using that assms(1,2) lh by cases (auto simp: n normalized_octet_def nth_splice_other)
  qed
  have "n ! 1 = or (push_bit 4 v) 2" using low [of 1] h1 by simp
  moreover have "normalized_octet t i \<or> n ! i = w ! i" if "i < length w" for i
    using frame [OF that] hi [OF that] by auto
  moreover have "ptp_gptp_wire_normalize n len True v = n"
  proof -
    have hn: "normalize_header n v = n"
      using low h1 assms(1,2) ln
      by (intro nth_equalityI) (auto simp: nth_normalize_header h_def)
    have "n ! 0 = w ! 0" "n ! 6 = w ! 6" using low hi assms(1,2)
      by (auto simp: h_def nth_normalize_header)
    then have "ptp_gptp_wire_normalize n len True v =
      (if t = 11 \<and> len \<ge> 64 then (splice 34 (replicate 10 0) n)[46 := 0]
       else if t = 2 \<and> len \<ge> 54 then splice 34 (replicate 20 0) n
       else if t = 0 \<and> and (w ! 6) 2 \<noteq> 0 \<and> len \<ge> 44 then splice 34 (replicate 10 0) n
       else if t = 12 then n[33 := 0x7f] else n)"
      using normalize_cases [of len n v] assms(1,2) ln by (simp add: hn t_def Let_def)
    also have "\<dots> = n"
      using assms(1,2) lh by (simp add: n splice_again splice_update_again)
    finally show ?thesis .
  qed
  ultimately show ?thesis using ln by (simp add: t_def)
qed

theorem normalize_preserves_witness:
  "let w = 0x1c # replicate 43 7; n = ptp_gptp_wire_normalize w 44 True 1 in
     n ! 1 = 0x12 \<and> n ! 33 = 0x7f \<and> ptp_gptp_wire_normalize n 44 True 1 = n"
proof -
  have "ptp_gptp_wire_normalize (0x1c # replicate 43 7) 44 True 1 ! 1 = 0x12 \<and>
      ptp_gptp_wire_normalize (0x1c # replicate 43 7) 44 True 1 ! 33 = 0x7f"
    by code_simp
  then show ?thesis
    using normalize_preserves [of 44 "0x1c # replicate 43 7" 1] by (simp add: Let_def)
qed

end
