(* ===== verification/Ptp_Btca.thy ===== *)
theory Ptp_Btca
  imports Ptp_Wire
begin

text \<open>
  The comparison at the heart of the best-time-transmitter algorithm: \<^verbatim>\<open>is_better_clock\<close> of
  \<^verbatim>\<open>ptp.c\<close>.  The chain of \<^verbatim>\<open>memcmp\<close> calls is shown to be the strict linear order of the
  announced priority vectors, and the laws of such a preference are an interface that the
  selection of the daemon relies on.
\<close>

section \<open>memcmp\<close>

fun memcmp :: "bytes \<Rightarrow> bytes \<Rightarrow> int" where
  "memcmp (x # xs) (y # ys) = (if x < y then -1 else if y < x then 1 else memcmp xs ys)"
| "memcmp _ _ = 0"

lemma be_int_Cons: "be_int (x # xs) = uint x * 256 ^ length xs + be_int xs"
  using be_int_append [of "[x]" xs] by (simp add: be_int_def)

lemma be_int_Cons_less:
  assumes "x < y" "length xs = length ys"
  shows "be_int (x # xs) < be_int (y # ys)"
proof -
  have "uint x + 1 \<le> uint y" using assms(1) by (simp add: word_less_def)
  then have "(uint x + 1) * 256 ^ length ys \<le> uint y * 256 ^ length ys"
    by (intro mult_right_mono) simp_all
  moreover have "be_int xs < 256 ^ length ys" "0 \<le> be_int ys"
    using be_int_bounds [of xs] be_int_bounds [of ys] assms(2) by auto
  ultimately show ?thesis by (simp add: be_int_Cons assms(2) algebra_simps)
qed

text \<open>Between blocks of one length, \<open>memcmp\<close> compares the big-endian values.\<close>

lemma memcmp_be_int:
  "length xs = length ys \<Longrightarrow>
     (memcmp xs ys < 0 \<longleftrightarrow> be_int xs < be_int ys) \<and> (memcmp xs ys = 0 \<longleftrightarrow> xs = ys)"
proof (induction xs ys rule: memcmp.induct)
  case (1 x xs y ys)
  then have len: "length xs = length ys" by simp
  have "x < y \<or> y < x \<or> x = y" by auto
  then consider "x < y" | "y < x" | "x = y" by blast
  then show ?case
  proof cases
    case 1
    then show ?thesis using be_int_Cons_less [OF _ len] by auto
  next
    case 2
    then show ?thesis using be_int_Cons_less [of y x ys xs] len by auto
  next
    case 3
    then show ?thesis using "1.IH" [OF _ _ len] len by (simp add: be_int_Cons)
  qed
qed simp_all

lemma be_int_inject: "length xs = length ys \<Longrightarrow> be_int xs = be_int ys \<longleftrightarrow> xs = ys"
  using octets_be_int by metis

section \<open>The comparison\<close>

text \<open>The fourteen octets from \<^verbatim>\<open>btc_priority1\<close> to the end of \<^verbatim>\<open>btc_identity\<close>.\<close>

definition system_identity :: "ptp_announce \<Rightarrow> bytes" where
  "system_identity a = [an_btc_priority1 a] @ an_btc_quality a @ [an_btc_priority2 a] @ an_btc_identity a"

definition is_better_clock :: "ptp_announce \<Rightarrow> ptp_announce \<Rightarrow> bool" where
  "is_better_clock a b =
     (let system_identity_check = memcmp (system_identity a) (system_identity b);
          steps = memcmp (an_stepsremoved a) (an_stepsremoved b);
          source = memcmp (hd_sourceidentity (an_header a)) (hd_sourceidentity (an_header b));
          port = memcmp (hd_sourceportindex (an_header a)) (hd_sourceportindex (an_header b))
      in if system_identity_check < 0 \<or>
            (system_identity_check = 0 \<and> steps < 0) \<or>
            (system_identity_check = 0 \<and> steps = 0 \<and> source < 0) \<or>
            (system_identity_check = 0 \<and> steps = 0 \<and> source = 0 \<and> port < 0)
         then True else False)"

section \<open>The preference as an interface\<close>

text \<open>
  \<open>better\<close> is a strict linear preference among the \<open>valid\<close> candidates up to the vector it
  looks at.
\<close>

locale clock_preference =
  fixes better :: "'a \<Rightarrow> 'a \<Rightarrow> bool"
    and valid :: "'a \<Rightarrow> bool"
    and vector :: "'a \<Rightarrow> 'v"
  assumes better_irrefl: "valid a \<Longrightarrow> valid b \<Longrightarrow> vector a = vector b \<Longrightarrow> \<not> better a b"
    and better_trans: "valid a \<Longrightarrow> valid b \<Longrightarrow> valid c \<Longrightarrow> better a b \<Longrightarrow> better b c \<Longrightarrow> better a c"
    and better_total: "valid a \<Longrightarrow> valid b \<Longrightarrow> vector a \<noteq> vector b \<Longrightarrow> better a b \<or> better b a"
begin

definition select :: "'a \<Rightarrow> 'a list \<Rightarrow> 'a" where
  "select own heard = foldl (\<lambda>best m. if better m best then m else best) own heard"

lemma better_asym: "valid a \<Longrightarrow> valid b \<Longrightarrow> better a b \<Longrightarrow> \<not> better b a"
  using better_trans [of a b a] better_irrefl [of a a] by blast

lemma select_valid: "valid own \<Longrightarrow> \<forall>m \<in> set heard. valid m \<Longrightarrow> valid (select own heard)"
  unfolding select_def by (induction heard arbitrary: own) auto

lemma select_in: "select own heard \<in> insert own (set heard)"
  unfolding select_def by (induction heard arbitrary: own) (auto split: if_splits)

lemma not_better_trans:
  assumes "valid a" "valid b" "valid c" "\<not> better a b" "\<not> better b c"
  shows "\<not> better a c"
proof
  assume ac: "better a c"
  show False
  proof (cases "vector b = vector c")
    case True
    consider "vector a = vector b" | "better b a"
      using better_total [OF assms(1,2)] assms(4) by blast
    then show False
    proof cases
      case 1
      then show False using ac better_irrefl [OF assms(1,3)] True by simp
    next
      case 2
      then show False using ac better_trans [OF assms(2,1,3)] better_irrefl [OF assms(2,3) True] by blast
    qed
  next
    case False
    then have "better c b" using better_total [OF assms(2,3)] assms(5) by blast
    then show False using better_trans [OF assms(1,3,2) ac] assms(4) by blast
  qed
qed

lemma select_best:
  "valid own \<Longrightarrow> \<forall>m \<in> set heard. valid m \<Longrightarrow> m \<in> insert own (set heard) \<Longrightarrow> \<not> better m (select own heard)"
proof (induction heard arbitrary: own m)
  case Nil
  then show ?case using better_irrefl by (simp add: select_def)
next
  case (Cons x xs)
  define own' where "own' = (if better x own then x else own)"
  have s: "select own (x # xs) = select own' xs" by (simp add: select_def own'_def)
  have v: "valid own'" "\<forall>m \<in> set xs. valid m" using Cons.prems by (auto simp: own'_def)
  then have vs: "valid (select own' xs)" by (rule select_valid)
  have own': "\<not> better own' (select own' xs)" using Cons.IH [OF v] by simp
  have "\<not> better own own'" "\<not> better x own'"
    using Cons.prems better_asym [of x own] better_irrefl by (auto simp: own'_def)
  then show ?case
    using Cons.prems Cons.IH [OF v] not_better_trans [OF _ v(1) vs _ own'] s by auto
qed

text \<open>Which clock is selected depends only on which announcements were heard.\<close>

lemma select_order_free:
  assumes "valid own" "\<forall>m \<in> set xs. valid m" "set xs = set ys"
  shows "vector (select own xs) = vector (select own ys)"
proof (rule ccontr)
  assume h: "vector (select own xs) \<noteq> vector (select own ys)"
  have v: "valid (select own xs)" "valid (select own ys)"
    using select_valid assms by auto
  have "select own xs \<in> insert own (set ys)" "select own ys \<in> insert own (set xs)"
    using select_in [of own xs] select_in [of own ys] assms(3) by auto
  then have "\<not> better (select own xs) (select own ys)" "\<not> better (select own ys) (select own xs)"
    using select_best assms by auto
  then show False using better_total [OF v h] by blast
qed

end

text \<open>All the octets the comparison looks at, most significant first.\<close>

definition priority_vector :: "ptp_announce \<Rightarrow> bytes" where
  "priority_vector a = system_identity a @ an_stepsremoved a @
     hd_sourceidentity (an_header a) @ hd_sourceportindex (an_header a)"

lemma priority_lengths:
  assumes "announce_wf a"
  shows "length (system_identity a) = 14" "length (an_stepsremoved a) = 2"
    "length (hd_sourceidentity (an_header a)) = 8" "length (hd_sourceportindex (an_header a)) = 2"
    "length (priority_vector a) = 26"
  using assms by (simp_all add: announce_wf_def header_wf_def system_identity_def priority_vector_def)

lemma memcmp_append:
  "length xs = length ys \<Longrightarrow>
     memcmp (xs @ us) (ys @ vs) = (if memcmp xs ys = 0 then memcmp us vs else memcmp xs ys)"
proof (induction xs ys rule: memcmp.induct)
  case (1 x xs y ys)
  then show ?case by auto
qed auto

lemma is_better_clock_vector:
  assumes "announce_wf a" "announce_wf b"
  shows "is_better_clock a b \<longleftrightarrow> be_int (priority_vector a) < be_int (priority_vector b)"
proof -
  note la = priority_lengths [OF assms(1)] and lb = priority_lengths [OF assms(2)]
  have "is_better_clock a b \<longleftrightarrow> memcmp (priority_vector a) (priority_vector b) < 0"
    using la lb by (auto simp: is_better_clock_def Let_def priority_vector_def memcmp_append)
  then show ?thesis using memcmp_be_int [of "priority_vector a" "priority_vector b"] la lb by simp
qed

interpretation btca: clock_preference is_better_clock announce_wf priority_vector
proof unfold_locales
  show "\<not> is_better_clock a b" if "announce_wf a" "announce_wf b" "priority_vector a = priority_vector b" for a b
    using that by (simp add: is_better_clock_vector)
  show "is_better_clock a c" if "announce_wf a" "announce_wf b" "announce_wf c"
    "is_better_clock a b" "is_better_clock b c" for a b c
    using that by (simp add: is_better_clock_vector)
  show "is_better_clock a b \<or> is_better_clock b a" if "announce_wf a" "announce_wf b"
    "priority_vector a \<noteq> priority_vector b" for a b
    using that be_int_inject [of "priority_vector a" "priority_vector b"]
      priority_lengths [OF that(1)] priority_lengths [OF that(2)]
    by (auto simp: is_better_clock_vector)
qed

text \<open>C9. The comparison of announced clocks is a strict total order of the 26-octet priority
  vector (priority1, quality, priority2, grandmaster identity, steps removed, source port
  identity) read as one big-endian number: no clock beats itself, of two clocks with different
  vectors exactly one is better, and the relation is transitive, so a later field decides only
  between equal earlier ones.\<close>

theorem better_clock_order:
  assumes "announce_wf a" "announce_wf b" "announce_wf c"
  shows "(is_better_clock a b \<longleftrightarrow> be_int (priority_vector a) < be_int (priority_vector b)) \<and>
    \<not> is_better_clock a a \<and>
    (is_better_clock a b \<longrightarrow> \<not> is_better_clock b a) \<and>
    (priority_vector a \<noteq> priority_vector b \<longrightarrow> is_better_clock a b \<or> is_better_clock b a) \<and>
    (is_better_clock a b \<and> is_better_clock b c \<longrightarrow> is_better_clock a c)"
  using is_better_clock_vector [OF assms(1,2)] btca.better_irrefl [OF assms(1,1)]
    btca.better_asym [OF assms(1,2)] btca.better_total [OF assms(1,2)] btca.better_trans [OF assms]
  by blast

theorem better_clock_order_witness:
  "let a = announce_of (replicate 47 0 @ [100] @ replicate 28 9);
       b = announce_of (replicate 47 0 @ [200] @ replicate 28 0)
   in is_better_clock a b \<and> \<not> is_better_clock b a"
proof -
  have wf: "announce_wf (announce_of (replicate 47 0 @ [x] @ replicate 28 y))" for x y
    by (intro views_wf) simp
  have "is_better_clock (announce_of (replicate 47 0 @ [100] @ replicate 28 9))
      (announce_of (replicate 47 0 @ [200] @ replicate 28 0))"
    by code_simp
  then show ?thesis using better_clock_order [OF wf wf wf] by (simp add: Let_def)
qed

end
