(* ===== verification/Ptp_Path_Trace.thy ===== *)
theory Ptp_Path_Trace
  imports Ptp_Wire
begin

text \<open>
  The path trace of Announce messages: \<^verbatim>\<open>ptp_path_trace.h\<close> and \<^verbatim>\<open>include/ptp_status_path.h\<close>.
  A path is the list of the clock identities it holds (\<open>count\<close> is its length).
\<close>

section \<open>Reading and writing\<close>

type_synonym ptp_path_trace = "bytes list"

definition PTP_ANNOUNCE_BODY_LENGTH :: nat where "PTP_ANNOUNCE_BODY_LENGTH = 64"
definition PTP_PATH_TRACE_MAX_CLOCKS :: nat where "PTP_PATH_TRACE_MAX_CLOCKS = 16"

text \<open>The identities of a TLV body at \<open>offset\<close>.\<close>

definition path_identities :: "bytes \<Rightarrow> nat \<Rightarrow> nat \<Rightarrow> bytes list" where
  "path_identities message offset count = map (\<lambda>index. slice (offset + index * 8) 8 message) [0..<count]"

text \<open>The loop over the TLVs: \<open>found\<close> carries the parsed path once the TLV was seen.\<close>

function path_walk :: "bytes \<Rightarrow> nat \<Rightarrow> bytes \<Rightarrow> bytes list option \<Rightarrow> nat \<Rightarrow> ptp_path_trace option" where
  "path_walk message len local_identity found offset =
     (if offset < len then
        if len - offset < 4 then None
        else
          let ty = be16 (message ! offset) (message ! (offset + 1));
              n = be16 (message ! (offset + 2)) (message ! (offset + 3));
              body = offset + 4
          in if n > len - body then None
             else if ty = 8 then
               if found \<noteq> None \<or> n = 0 \<or> n mod 8 \<noteq> 0 \<or> n div 8 > PTP_PATH_TRACE_MAX_CLOCKS then None
               else
                 let ids = path_identities message body (n div 8) in
                 if local_identity \<in> set ids then None
                 else path_walk message len local_identity (Some ids) (body + n)
             else path_walk message len local_identity found (body + n)
      else Some (case found of None \<Rightarrow> [] | Some ids \<Rightarrow> ids))"
  by pat_completeness auto
termination by (relation "measure (\<lambda>(_, len, _, _, offset). len - offset)") auto

declare path_walk.simps [simp del]

definition ptp_path_trace_parse :: "bytes \<Rightarrow> nat \<Rightarrow> bytes \<Rightarrow> ptp_path_trace option" where
  "ptp_path_trace_parse message received local_identity =
     (if received < PTP_ANNOUNCE_BODY_LENGTH then None
      else
        let len = be16 (message ! 2) (message ! 3) in
        if len < PTP_ANNOUNCE_BODY_LENGTH \<or> len > received then None
        else path_walk message len local_identity None PTP_ANNOUNCE_BODY_LENGTH)"

text \<open>The number of octets written and the octets; \<open>None\<close> is the return value 0.\<close>

definition ptp_path_trace_write :: "nat \<Rightarrow> ptp_path_trace \<Rightarrow> bytes \<Rightarrow> bytes option" where
  "ptp_path_trace_write capacity upstream local_identity =
     (if length upstream \<ge> PTP_PATH_TRACE_MAX_CLOCKS then None
      else
        let n = (length upstream + 1) * 8 in
        if capacity < n + 4 then None
        else if local_identity \<in> set upstream then None
        else Some ([0, 8] @ octets 2 (int n) @ concat upstream @ local_identity))"

text \<open>\<open>selected\<close> is \<^verbatim>\<open>clock_source_selected\<close>; the result is the written path.\<close>

definition ptpd_status_path :: "bool \<Rightarrow> ptp_path_trace \<Rightarrow> bytes \<Rightarrow> nat \<Rightarrow> ptp_path_trace" where
  "ptpd_status_path selected selected_path own_id capacity =
     (let upstream = (if selected then length selected_path else 0) in
      if selected \<and> upstream = 0 then []
      else if upstream > PTP_PATH_TRACE_MAX_CLOCKS \<or> capacity \<le> upstream then []
      else if own_id \<in> set (take upstream selected_path) then []
      else take upstream selected_path @ [own_id])"

section \<open>Correctness\<close>

text \<open>A path the daemon may hold: at most sixteen identities of eight octets.\<close>

definition path_ok :: "bytes \<Rightarrow> ptp_path_trace \<Rightarrow> bool" where
  "path_ok local_identity path \<longleftrightarrow> length path \<le> PTP_PATH_TRACE_MAX_CLOCKS \<and>
     (\<forall>i \<in> set path. length i = 8) \<and> local_identity \<notin> set path"

lemma path_identities_length:
  "offset + count * 8 \<le> length m \<Longrightarrow> i \<in> set (path_identities m offset count) \<Longrightarrow> length i = 8"
  by (auto simp: path_identities_def)

lemma path_walk_ok:
  "path_walk m len loc found off = Some path \<Longrightarrow> len \<le> length m \<Longrightarrow>
     (\<forall>ids. found = Some ids \<longrightarrow> path_ok loc ids) \<Longrightarrow> path_ok loc path"
proof (induction m len loc found off rule: path_walk.induct)
  case (1 m len loc found off)
  let ?n = "be16 (m ! (off + 2)) (m ! (off + 3))"
  let ?ty = "be16 (m ! off) (m ! (off + 1))"
  show ?case
  proof (cases "off < len")
    case False
    then show ?thesis
      using 1(3,5) path_walk.simps [of m len loc found off]
      by (auto simp: path_ok_def split: option.splits)
  next
    case True
    then have s: "\<not> len - off < 4" "\<not> ?n > len - (off + 4)"
      using 1(3) path_walk.simps [of m len loc found off] by (auto simp: Let_def split: if_splits)
    show ?thesis
    proof (cases "?ty = 8")
      case ty: True
      let ?ids = "path_identities m (off + 4) (?n div 8)"
      have c: "\<not> (found \<noteq> None \<or> ?n = 0 \<or> ?n mod 8 \<noteq> 0 \<or> ?n div 8 > PTP_PATH_TRACE_MAX_CLOCKS)"
        "\<not> loc \<in> set ?ids" and rec: "path_walk m len loc (Some ?ids) (off + 4 + ?n) = Some path"
        using 1(3) path_walk.simps [of m len loc found off] True s ty
        by (auto simp: Let_def split: if_splits)
      have "?n div 8 * 8 \<le> ?n" by simp
      then have "off + 4 + ?n div 8 * 8 \<le> length m" using s 1(4) True by linarith
      then have "path_ok loc ?ids"
        using c path_identities_length [of "off + 4" "?n div 8" m]
        by (auto simp: path_ok_def path_identities_def)
      then show ?thesis
        using 1(1) [OF True s(1) refl refl refl s(2) ty c(1) refl c(2) rec 1(4)] by simp
    next
      case ty: False
      have rec: "path_walk m len loc found (off + 4 + ?n) = Some path"
        using 1(3) path_walk.simps [of m len loc found off] True s ty by (auto simp: Let_def)
      show ?thesis
        using 1(2) [OF True s(1) refl refl refl s(2) ty rec 1(4,5)] .
    qed
  qed
qed

lemma slice_concat:
  "\<forall>x \<in> set xs. length x = 8 \<Longrightarrow> i < length xs \<Longrightarrow> slice (i * 8) 8 (concat xs @ ys) = xs ! i"
proof (induction xs arbitrary: i)
  case (Cons x xs)
  then show ?case
    by (cases i) (simp_all add: slice_layout)
qed simp

lemma length_concat8: "\<forall>x \<in> set xs. length x = 8 \<Longrightarrow> length (concat xs) = length xs * 8"
  by (induction xs) simp_all

lemma path_identities_concat:
  assumes "\<forall>x \<in> set xs. length x = 8" "length pre = off"
  shows "path_identities (pre @ concat xs @ rest) off (length xs) = xs"
proof (rule nth_equalityI)
  show "length (path_identities (pre @ concat xs @ rest) off (length xs)) = length xs"
    by (simp add: path_identities_def)
  show "path_identities (pre @ concat xs @ rest) off (length xs) ! i = xs ! i"
    if "i < length (path_identities (pre @ concat xs @ rest) off (length xs))" for i
    using that assms slice_concat [OF assms(1)] by (simp add: path_identities_def slice_past)
qed

text \<open>A path that is accepted from an Announce message is one the daemon may store and
  append itself to: at most sixteen identities of eight octets each, this clock not among them,
  whatever octets arrived.\<close>

theorem path_parse_safe:
  assumes "ptp_path_trace_parse m received local_identity = Some path" "received \<le> length m"
  shows "path_ok local_identity path \<and> be16 (m ! 2) (m ! 3) \<le> received"
proof -
  have "path_walk m (be16 (m ! 2) (m ! 3)) local_identity None PTP_ANNOUNCE_BODY_LENGTH = Some path"
    "be16 (m ! 2) (m ! 3) \<le> received"
    using assms(1) by (auto simp: ptp_path_trace_parse_def Let_def split: if_splits)
  then show ?thesis using path_walk_ok assms(2) by auto
qed

definition example_announce :: bytes where
  "example_announce = [0x1b, 2, 0, 76] @ replicate 60 0 @ [0, 8, 0, 8] @ [1, 2, 3, 4, 5, 6, 7, 8]"

theorem path_parse_safe_witness:
  "ptp_path_trace_parse example_announce 76 (replicate 8 9) = Some [[1, 2, 3, 4, 5, 6, 7, 8]] \<and>
   path_ok (replicate 8 9) [[1, 2, 3, 4, 5, 6, 7, 8]]"
proof -
  have "ptp_path_trace_parse example_announce 76 (replicate 8 9) = Some [[1, 2, 3, 4, 5, 6, 7, 8]]"
    by code_simp
  then show ?thesis
    using path_parse_safe [of example_announce 76 "replicate 8 9" "[[1, 2, 3, 4, 5, 6, 7, 8]]"]
    by (simp add: example_announce_def)
qed

text \<open>Path trace round trip along the tree: when a clock relays an Announce it accepted with
  path \<open>upstream\<close>, the next clock reads exactly that path with the relaying clock appended; a
  clock already on the path (the local one included) rejects it, so no Announce circulates.\<close>

lemma path_trace_relay:
  assumes "path_ok own upstream" "length own = 8"
    "ptp_path_trace_write capacity upstream own = Some tlv" "length body = 64"
    "be16 (body ! 2) (body ! 3) = 64 + length tlv" "64 + length tlv \<le> received"
  shows "ptp_path_trace_parse (body @ tlv @ rest) received next =
           (if next \<in> insert own (set upstream) then None else Some (upstream @ [own]))"
proof -
  define xs where "xs = upstream @ [own]"
  have w: "length upstream < 16" "tlv = [0, 8] @ octets 2 (int (length xs * 8)) @ concat xs"
    using assms(3) by (auto simp: ptp_path_trace_write_def Let_def PTP_PATH_TRACE_MAX_CLOCKS_def xs_def
        split: if_splits)
  have x8: "\<forall>x \<in> set xs. length x = 8" using assms(1,2) by (auto simp: xs_def path_ok_def)
  have lx: "length xs \<le> 16" "0 < length xs" "length xs * 8 < 65536" using w(1) by (simp_all add: xs_def)
  have lc: "length (concat xs) = length xs * 8" by (rule length_concat8 [OF x8])
  then have lt: "length tlv = 4 + length xs * 8" by (simp add: w(2))
  define m where "m = body @ tlv @ rest"
  define k where "k = length xs * 8"
  have m: "m = (body @ [0, 8, word_of_nat (k div 256), word_of_nat k]) @ concat xs @ rest"
    by (simp only: m_def w(2) k_def [symmetric] octets2_nat append.simps append_assoc)
  have hdr: "m ! 64 = 0" "m ! 65 = 8" "m ! 66 = word_of_nat (k div 256)" "m ! 67 = word_of_nat k"
    using assms(4) by (simp_all add: m nth_append)
  have n: "be16 (m ! 66) (m ! 67) = length xs * 8" using lx(3) by (simp only: hdr be16_of_nat k_def)
  have ids: "path_identities m 68 (length xs) = xs"
    unfolding m by (rule path_identities_concat [OF x8]) (simp add: assms(4))
  have stop: "path_walk m (64 + length tlv) next (Some xs) (68 + length xs * 8) = Some xs"
    by (subst path_walk.simps) (simp add: lt)
  have "path_walk m (64 + length tlv) next None 64 = (if next \<in> set xs then None else Some xs)"
    using lx n ids stop lt
    by (subst path_walk.simps) (simp add: Let_def hdr(1,2) be16_def [of 0 8] PTP_PATH_TRACE_MAX_CLOCKS_def)
  moreover have "m ! 2 = body ! 2" "m ! 3 = body ! 3" using assms(4) by (simp_all add: m nth_append)
  ultimately show ?thesis
    using assms(5,6) unfolding m_def [symmetric]
    by (auto simp: ptp_path_trace_parse_def PTP_ANNOUNCE_BODY_LENGTH_def xs_def)
qed

end
