(* ===== verification/Ptp_Clock.thy ===== *)
theory Ptp_Clock
  imports Ptp_Wire
begin

text \<open>
  Clocks and servo arithmetic: the affine software clock (\<^verbatim>\<open>ptp_clock_affine.h\<close> and its backend
  \<^verbatim>\<open>ptp_clock_sw.c\<close>) and the proportional-integral controller of a wired port
  (\<^verbatim>\<open>ptp_wired_pi.h\<close>).  Values of \<open>int64_t\<close> are integers; that every intermediate value stays in
  range is part of what is proved.  The local timer is an argument: the value it returns at the
  one point where an operation reads it.
\<close>

section \<open>The affine clock\<close>

record ptp_clock_affine =
  ca_local_ns :: int
  ca_ptp_ns :: int
  ca_rate_ppb :: int

definition ptp_clock_rate_correction :: "int \<Rightarrow> int \<Rightarrow> int" where
  "ptp_clock_rate_correction delta_ns rate_ppb =
     delta_ns sdiv NSEC_PER_SEC * rate_ppb + (delta_ns smod NSEC_PER_SEC * rate_ppb) sdiv NSEC_PER_SEC"

definition ptp_clock_affine_now :: "ptp_clock_affine \<Rightarrow> int \<Rightarrow> int" where
  "ptp_clock_affine_now clock local_ns =
     (let delta = local_ns - ca_local_ns clock
      in ca_ptp_ns clock + delta + ptp_clock_rate_correction delta (ca_rate_ppb clock))"

definition ptp_clock_affine_reanchor :: "ptp_clock_affine \<Rightarrow> int \<Rightarrow> int \<Rightarrow> ptp_clock_affine" where
  "ptp_clock_affine_reanchor clock local_ns offset_ns =
     clock\<lparr>ca_ptp_ns := ptp_clock_affine_now clock local_ns + offset_ns, ca_local_ns := local_ns\<rparr>"

definition ptp_clock_affine_adjust_rate :: "ptp_clock_affine \<Rightarrow> int \<Rightarrow> int \<Rightarrow> ptp_clock_affine" where
  "ptp_clock_affine_adjust_rate clock local_ns adjustment =
     (let clock = ptp_clock_affine_reanchor clock local_ns 0;
          rate = ca_rate_ppb clock;
          rate = rate + ((rate * adjustment) sdiv NSEC_PER_SEC + adjustment)
      in clock\<lparr>ca_rate_ppb := clamp 100000000 rate\<rparr>)"

definition ptp_clock_affine_discipline ::
    "ptp_clock_affine \<Rightarrow> int \<Rightarrow> int \<Rightarrow> int \<Rightarrow> int \<Rightarrow> bool \<Rightarrow> int \<times> ptp_clock_affine" where
  "ptp_clock_affine_discipline clock now_ns local_anchor reference_anchor rate_ppb step =
     (let elapsed = now_ns - local_anchor;
          target = reference_anchor + elapsed + ptp_clock_rate_correction elapsed rate_ppb;
          actual = ptp_clock_affine_now clock now_ns;
          phase_error = target - actual;
          phase_trim = clamp 200000 phase_error;
          applied = clamp 512000 (if step then rate_ppb else rate_ppb + phase_trim)
      in (phase_error, clock\<lparr>ca_local_ns := now_ns, ca_ptp_ns := (if step then target else actual),
                             ca_rate_ppb := applied\<rparr>))"

section \<open>The software clock backend\<close>

text \<open>\<open>None\<close> is an uninitialised backend, the error results are \<^verbatim>\<open>-1\<close>.\<close>

record sw_clock =
  sw_clock :: ptp_clock_affine
  sw_initialized :: bool

text \<open>\<open>c6\<close> is \<^verbatim>\<open>CONFIG_IDF_TARGET_ESP32C6\<close>; the raw reading is system timer ticks there and
  microseconds elsewhere.\<close>

definition ptp_clock_local_ns :: "bool \<Rightarrow> int \<Rightarrow> int" where
  "ptp_clock_local_ns c6 raw =
     (if c6 then raw div 2 * 125 + (and raw 1) * 62 else raw * 1000)"

definition ptp_clock_sw_snapshot :: "sw_clock \<Rightarrow> bool \<times> ptp_clock_affine" where
  "ptp_clock_sw_snapshot s = (sw_initialized s, sw_clock s)"

definition sw_now_timespec :: "sw_clock \<Rightarrow> int \<Rightarrow> timespec option" where
  "sw_now_timespec s local_ns =
     (if \<not> sw_initialized s then None
      else
        let now_ns = ptp_clock_affine_now (sw_clock s) local_ns;
            sec = now_ns sdiv NSEC_PER_SEC;
            nsec = now_ns smod NSEC_PER_SEC
        in Some (if nsec < 0 then \<lparr>tv_sec = sec - 1, tv_nsec = nsec + NSEC_PER_SEC\<rparr>
                 else \<lparr>tv_sec = sec, tv_nsec = nsec\<rparr>))"

definition ptp_clock_sw_init :: "int \<Rightarrow> timespec option \<Rightarrow> sw_clock" where
  "ptp_clock_sw_init local_ns initial_ts =
     \<lparr>sw_clock = \<lparr>ca_local_ns = local_ns,
                  ca_ptp_ns = (case initial_ts of None \<Rightarrow> 0 | Some ts \<Rightarrow> timespec_to_ns ts),
                  ca_rate_ppb = 0\<rparr>,
      sw_initialized = True\<rparr>"

definition ptp_clock_sw_now :: "sw_clock \<Rightarrow> int \<Rightarrow> timespec option" where
  "ptp_clock_sw_now = sw_now_timespec"

definition ptp_clock_sw_settime :: "sw_clock \<Rightarrow> int \<Rightarrow> timespec option \<Rightarrow> bool \<times> sw_clock" where
  "ptp_clock_sw_settime s local_ns ts =
     (case ts of None \<Rightarrow> (False, s)
      | Some t \<Rightarrow>
        if \<not> sw_initialized s then (False, s)
        else (True, s\<lparr>sw_clock := (sw_clock s)\<lparr>ca_local_ns := local_ns, ca_ptp_ns := timespec_to_ns t\<rparr>\<rparr>))"

definition ptp_clock_sw_adjtime_offset :: "sw_clock \<Rightarrow> int \<Rightarrow> int \<Rightarrow> bool \<times> sw_clock" where
  "ptp_clock_sw_adjtime_offset s local_ns delta_ns =
     (if \<not> sw_initialized s then (False, s)
      else (True, s\<lparr>sw_clock := ptp_clock_affine_reanchor (sw_clock s) local_ns delta_ns\<rparr>))"

definition ptp_clock_sw_adjtime_rate :: "sw_clock \<Rightarrow> int \<Rightarrow> int \<Rightarrow> bool \<times> sw_clock" where
  "ptp_clock_sw_adjtime_rate s local_ns rate_ppb =
     (if \<not> sw_initialized s then (False, s)
      else (True, s\<lparr>sw_clock := ptp_clock_affine_adjust_rate (sw_clock s) local_ns rate_ppb\<rparr>))"

text \<open>The result holds the phase error and the applied rate.\<close>

definition ptp_clock_sw_discipline ::
    "sw_clock \<Rightarrow> int \<Rightarrow> int \<Rightarrow> int \<Rightarrow> int \<Rightarrow> bool \<Rightarrow> (int \<times> int) option \<times> sw_clock" where
  "ptp_clock_sw_discipline s now_ns local_anchor reference_anchor rate_ppb step =
     (if local_anchor < 0 \<or> reference_anchor < 0 \<or> reference_anchor > INT64_MAX - 3000000000 \<or>
         rate_ppb < - 200000 \<or> rate_ppb > 200000 then (None, s)
      else if \<not> sw_initialized s \<or> now_ns < local_anchor \<or> now_ns - local_anchor > 2000000000 then (None, s)
      else
        let (phase_error, c) = ptp_clock_affine_discipline (sw_clock s) now_ns local_anchor
                                 reference_anchor rate_ppb step
        in (Some (phase_error, ca_rate_ppb c), s\<lparr>sw_clock := c\<rparr>))"

section \<open>The controller of a wired port\<close>

definition PTP_WIRED_TRIM_LIMIT :: int where "PTP_WIRED_TRIM_LIMIT = 512000"

text \<open>Proportional term, numerator and denominator of the integral increment.\<close>

definition wired_pi_gains :: "int \<Rightarrow> int \<Rightarrow> int \<times> int \<times> int" where
  "wired_pi_gains offset_ns interval_ns =
     (if interval_ns \<le> 250000000 then (offset_ns * 4, offset_ns * interval_ns, 250000000)
      else ((offset_ns * 1000000000) sdiv interval_ns, offset_ns * 250000000, interval_ns))"

definition wired_pi_increment :: "int \<Rightarrow> int \<Rightarrow> int" where
  "wired_pi_increment numerator denominator =
     numerator sdiv denominator * 65536 + (numerator smod denominator * 65536) sdiv denominator"

definition wired_interval :: "int \<Rightarrow> int" where
  "wired_interval interval_ns =
     (let i = (if interval_ns < 1000000 then 1000000 else interval_ns)
      in if i > 4000000000 then 4000000000 else i)"

definition ptp_wired_pi_step :: "int \<Rightarrow> int \<Rightarrow> int \<Rightarrow> int \<times> int" where
  "ptp_wired_pi_step integral_q16 offset interval =
     (let interval_ns = wired_interval interval;
          offset_ns = clamp 1000000000 offset;
          (proportional, numerator, denominator) = wired_pi_gains offset_ns interval_ns;
          increment = wired_pi_increment numerator denominator;
          candidate = clamp (PTP_WIRED_TRIM_LIMIT * 65536) (integral_q16 + increment);
          target = proportional + candidate sdiv 65536;
          integral = (if (target > PTP_WIRED_TRIM_LIMIT \<and> offset_ns > 0) \<or>
                         (target < - PTP_WIRED_TRIM_LIMIT \<and> offset_ns < 0)
                      then integral_q16 else candidate)
      in (clamp PTP_WIRED_TRIM_LIMIT (proportional + integral sdiv 65536), integral))"

definition ptp_trim_relative_delta :: "int \<Rightarrow> int \<Rightarrow> int" where
  "ptp_trim_relative_delta previous target =
     ((target - previous) * 1000000000) sdiv (1000000000 + previous)"

section \<open>Truncated division\<close>

lemma sdiv_error: "0 < m \<Longrightarrow> \<bar>(a::int) - a sdiv m * m\<bar> < m"
  using abs_smod_less [of m a] sdiv_mult_smod_eq [of a m] by simp

lemma sdiv_unique_pos:
  assumes "0 < m" "0 \<le> (a::int)" "q * m \<le> a" "a < (q + 1) * m"
  shows "a sdiv m = q"
proof -
  have "a div m = q"
    using assms(1,3,4) int_div_pos_eq [of a m q "a - q * m"] by (simp add: algebra_simps)
  then show ?thesis using assms by (simp add: sdiv_pos)
qed

lemma sdiv_minus: "(- a :: int) sdiv m = - (a sdiv m)"
  by (simp add: signed_divide_int_def sgn_minus)

lemma sdiv_mono_pos: "0 < m \<Longrightarrow> 0 \<le> (a::int) \<Longrightarrow> a \<le> b \<Longrightarrow> a sdiv m \<le> b sdiv m"
  by (simp add: sdiv_pos zdiv_mono1)

lemma sdiv_mono: 
  assumes "0 < m" "(a::int) \<le> b"
  shows "a sdiv m \<le> b sdiv m"
proof -
  consider "0 \<le> a" | "a < 0" "0 \<le> b" | "b < 0" using assms by linarith
  then show ?thesis
  proof cases
    case 1
    then show ?thesis using assms by (simp add: sdiv_mono_pos)
  next
    case 2
    have "0 \<le> b sdiv m" by (rule sdiv_nonneg) (use 2 assms in auto)
    moreover have "0 \<le> (- a) sdiv m" by (rule sdiv_nonneg) (use 2 assms in auto)
    ultimately show ?thesis unfolding sdiv_minus by linarith
  next
    case 3
    then have "(- b) sdiv m \<le> (- a) sdiv m" using assms by (intro sdiv_mono_pos) auto
    then show ?thesis by (simp add: sdiv_minus)
  qed
qed

text \<open>Splitting off whole multiples of the divisor is exact.\<close>

lemma sdiv_split_pos:
  assumes "0 < m" "0 \<le> (d::int)" "0 \<le> r"
  shows "d sdiv m * r + (d smod m * r) sdiv m = (d * r) sdiv m"
proof -
  have d: "d = d div m * m + d mod m" by simp
  have "d * r = d div m * r * m + d mod m * r"
    using d by (metis (no_types, lifting) distrib_right mult.assoc mult.commute)
  then have "(d * r) div m = d div m * r + (d mod m * r) div m" using assms(1) by simp
  moreover have "0 \<le> d mod m * r" "0 \<le> d * r" using assms by simp_all
  ultimately show ?thesis using assms by (simp add: sdiv_pos smod_pos)
qed

lemma sdiv_split:
  assumes "0 < (m::int)"
  shows "d sdiv m * r + (d smod m * r) sdiv m = (d * r) sdiv m"
proof -
  have neg: "(- x) smod m = - (x smod m)" for x :: int
    by (simp add: signed_modulo_int_def sgn_minus)
  have dpos: "d sdiv m * r + (d smod m * r) sdiv m = (d * r) sdiv m" if "0 \<le> d" for d
  proof (cases "0 \<le> r")
    case True
    then show ?thesis using sdiv_split_pos assms that by simp
  next
    case False
    then have "d sdiv m * (- r) + (d smod m * (- r)) sdiv m = (d * (- r)) sdiv m"
      using sdiv_split_pos [OF assms that, of "- r"] by simp
    then show ?thesis by (simp add: sdiv_minus)
  qed
  show ?thesis
  proof (cases "0 \<le> d")
    case True
    then show ?thesis by (rule dpos)
  next
    case False
    then show ?thesis using dpos [of "- d"] by (simp add: sdiv_minus neg)
  qed
qed

text \<open>Truncation loses less than one unit per division, and never amplifies a difference.\<close>

lemma sdiv_diff_le:
  assumes "0 < m" "(b::int) \<le> a" "a - b \<le> k * m"
  shows "a sdiv m - b sdiv m \<le> k"
proof -
  have shift: "(b + k * m) sdiv m \<le> b sdiv m + k" if "0 \<le> k" for b
  proof -
    consider "0 \<le> b" | "b < 0" "0 \<le> b + k * m" | "b + k * m < 0" by linarith
    then show ?thesis
    proof cases
      case 1
      then show ?thesis using assms(1) that by (simp add: sdiv_pos)
    next
      case 2
      have "(b + k * m) sdiv m = b div m + k" using 2 assms(1) by (simp add: sdiv_pos)
      moreover have "b div m \<le> b sdiv m"
      proof -
        have "- ((- b) div m) \<ge> b div m"
          using 2 assms(1) by (simp add: zdiv_zminus1_eq_if)
        then show ?thesis using 2 assms(1) sdiv_minus [of "- b" m] sdiv_pos [of "- b" m] by simp
      qed
      ultimately show ?thesis by simp
    next
      case 3
      have km: "0 \<le> k * m" using that assms(1) by simp
      then have "b < 0" using 3 by linarith
      define c where "c = - b - k * m"
      have c: "0 \<le> c" "- b = c + k * m" using 3 by (simp_all add: c_def)
      have "(- b) sdiv m = c sdiv m + k" using c assms(1) km by (simp add: sdiv_pos)
      moreover have "(b + k * m) sdiv m = - (c sdiv m)"
        using sdiv_minus [of c m] by (simp add: c_def algebra_simps)
      ultimately show ?thesis using sdiv_minus [of b m] by simp
    qed
  qed
  have "0 \<le> k"
  proof (rule ccontr)
    assume "\<not> 0 \<le> k"
    then have "k * m < 0" using assms(1) by (simp add: mult_neg_pos)
    then show False using assms(2,3) by linarith
  qed
  then have "(b + k * m) sdiv m \<le> b sdiv m + k" by (rule shift)
  moreover have "a sdiv m \<le> (b + k * m) sdiv m" using assms by (intro sdiv_mono) linarith+
  ultimately show ?thesis by linarith
qed

section \<open>The affine clock is exact, continuous and monotone\<close>

lemma rate_correction_eq: "ptp_clock_rate_correction d r = (d * r) sdiv NSEC_PER_SEC"
  by (simp add: ptp_clock_rate_correction_def sdiv_split)

lemma rate_correction_0 [simp]: "ptp_clock_rate_correction 0 r = 0"
  by (simp add: rate_correction_eq)

lemma affine_step_le:
  assumes "\<bar>r\<bar> \<le> 100000000" "d1 \<le> d2"
  shows "d1 + ptp_clock_rate_correction d1 r \<le> d2 + ptp_clock_rate_correction d2 r"
proof (cases "0 \<le> r")
  case True
  then have "d1 * r \<le> d2 * r" using assms by (simp add: mult_right_mono)
  then show ?thesis using assms(2) sdiv_mono [of NSEC_PER_SEC "d1 * r" "d2 * r"]
    by (simp add: rate_correction_eq)
next
  case False
  then have "d2 * r \<le> d1 * r" using assms(2) by (simp add: mult_right_mono_neg)
  moreover have "d1 * r - d2 * r \<le> (d2 - d1) * NSEC_PER_SEC"
  proof -
    have "(d2 - d1) * (- r) \<le> (d2 - d1) * NSEC_PER_SEC"
      using assms False by (intro mult_left_mono) auto
    then show ?thesis by (simp add: algebra_simps)
  qed
  ultimately have "d1 * r sdiv NSEC_PER_SEC - d2 * r sdiv NSEC_PER_SEC \<le> d2 - d1"
    by (intro sdiv_diff_le) simp_all
  then show ?thesis by (simp add: rate_correction_eq)
qed

definition rate_ok :: "ptp_clock_affine \<Rightarrow> bool" where
  "rate_ok c \<longleftrightarrow> \<bar>ca_rate_ppb c\<bar> \<le> 100000000"

lemma affine_mono: "rate_ok c \<Longrightarrow> l1 \<le> l2 \<Longrightarrow> ptp_clock_affine_now c l1 \<le> ptp_clock_affine_now c l2"
  using affine_step_le [of "ca_rate_ppb c" "l1 - ca_local_ns c" "l2 - ca_local_ns c"]
  by (simp add: ptp_clock_affine_now_def Let_def rate_ok_def)

lemma reanchor_now: "ptp_clock_affine_now (ptp_clock_affine_reanchor c l off) l = ptp_clock_affine_now c l + off"
  by (simp add: ptp_clock_affine_reanchor_def ptp_clock_affine_now_def [of "_\<lparr>ca_ptp_ns := _, ca_local_ns := _\<rparr>"])

lemma adjust_rate_now: "ptp_clock_affine_now (ptp_clock_affine_adjust_rate c l a) l = ptp_clock_affine_now c l"
  by (simp add: ptp_clock_affine_adjust_rate_def ptp_clock_affine_reanchor_def Let_def
      ptp_clock_affine_now_def [of "_\<lparr>ca_ptp_ns := _, ca_local_ns := _, ca_rate_ppb := _\<rparr>"])

lemma adjust_rate_ok: "rate_ok (ptp_clock_affine_adjust_rate c l a)"
  by (simp add: rate_ok_def ptp_clock_affine_adjust_rate_def Let_def abs_clamp_le)

text \<open>
  The interface a servo relies on: reading the clock, changing its rate without a jump, and
  jumping by an offset.
\<close>

locale steerable_clock =
  fixes read :: "'c \<Rightarrow> int \<Rightarrow> int"
    and slew :: "'c \<Rightarrow> int \<Rightarrow> int \<Rightarrow> 'c"
    and jump :: "'c \<Rightarrow> int \<Rightarrow> int \<Rightarrow> 'c"
    and ok :: "'c \<Rightarrow> bool"
  assumes read_mono: "ok c \<Longrightarrow> l1 \<le> l2 \<Longrightarrow> read c l1 \<le> read c l2"
    and slew_continuous: "read (slew c l a) l = read c l"
    and slew_ok: "ok (slew c l a)"
    and jump_offset: "read (jump c l d) l = read c l + d"
    and jump_ok: "ok c \<Longrightarrow> ok (jump c l d)"
begin

primrec slew_all :: "'c \<Rightarrow> (int \<times> int) list \<Rightarrow> 'c" where
  "slew_all c [] = c"
| "slew_all c (x # xs) = slew_all (slew c (fst x) (snd x)) xs"

lemma slew_never_backwards:
  "ok c \<Longrightarrow> sorted (t # map fst xs @ [t']) \<Longrightarrow> read c t \<le> read (slew_all c xs) t'"
proof (induction xs arbitrary: c t)
  case Nil
  then show ?case by (simp add: read_mono)
next
  case (Cons x xs)
  have "read c t \<le> read c (fst x)" using Cons.prems by (intro read_mono) auto
  also have "\<dots> = read (slew c (fst x) (snd x)) (fst x)" by (simp add: slew_continuous)
  also have "\<dots> \<le> read (slew_all (slew c (fst x) (snd x)) xs) t'"
    using Cons.prems by (intro Cons.IH) (auto simp: slew_ok)
  finally show ?case by simp
qed

lemma jump_then_mono: "ok c \<Longrightarrow> l \<le> l' \<Longrightarrow> read c l + d \<le> read (jump c l d) l'"
  using read_mono [of "jump c l d" l l'] jump_ok jump_offset by simp

end

interpretation affine: steerable_clock ptp_clock_affine_now ptp_clock_affine_adjust_rate
  ptp_clock_affine_reanchor rate_ok
  by unfold_locales
    (simp_all add: affine_mono adjust_rate_now adjust_rate_ok reanchor_now,
      simp add: rate_ok_def ptp_clock_affine_reanchor_def)

text \<open>The split multiplication that turns an elapsed time into a rate correction equals the
  full product divided once, for all signs, and with a rate the clock may have no intermediate
  value leaves 64 bits even for the longest representable holdover.\<close>

theorem rate_correction_exact:
  assumes "in_i64 delta" "\<bar>rate\<bar> \<le> 100000000"
  shows "ptp_clock_rate_correction delta rate = (delta * rate) sdiv NSEC_PER_SEC \<and>
    in_i64 (delta sdiv NSEC_PER_SEC * rate) \<and> in_i64 (delta smod NSEC_PER_SEC * rate) \<and>
    in_i64 (ptp_clock_rate_correction delta rate) \<and>
    \<bar>delta * rate - ptp_clock_rate_correction delta rate * NSEC_PER_SEC\<bar> < NSEC_PER_SEC"
proof -
  have d: "\<bar>delta\<bar> \<le> 9223372036854775808" using assms(1) by (auto simp: in_i64_def)
  have q: "\<bar>delta sdiv NSEC_PER_SEC\<bar> \<le> 9223372036"
    using d zdiv_mono1 [of "\<bar>delta\<bar>" 9223372036854775808 NSEC_PER_SEC] by (simp add: abs_sdiv)
  have r: "\<bar>delta smod NSEC_PER_SEC\<bar> \<le> NSEC_PER_SEC" using abs_smod_less [of NSEC_PER_SEC delta] by simp
  have qr: "\<bar>delta sdiv NSEC_PER_SEC * rate\<bar> \<le> 9223372036 * 100000000"
    unfolding abs_mult using q assms(2) by (intro mult_mono) simp_all
  have rr: "\<bar>delta smod NSEC_PER_SEC * rate\<bar> \<le> NSEC_PER_SEC * 100000000"
    unfolding abs_mult using r assms(2) by (intro mult_mono) simp_all
  have "\<bar>(delta smod NSEC_PER_SEC * rate) sdiv NSEC_PER_SEC\<bar> \<le> NSEC_PER_SEC * 100000000"
    using abs_sdiv_le [of "delta smod NSEC_PER_SEC * rate" NSEC_PER_SEC] rr by linarith
  then have "in_i64 (ptp_clock_rate_correction delta rate)"
    using qr unfolding ptp_clock_rate_correction_def by (intro in_i64I) linarith
  moreover have "in_i64 (delta sdiv NSEC_PER_SEC * rate)" "in_i64 (delta smod NSEC_PER_SEC * rate)"
    using qr rr by (auto intro!: in_i64I)
  ultimately show ?thesis
    using sdiv_error [of NSEC_PER_SEC "delta * rate"] by (simp add: rate_correction_eq)
qed

theorem rate_correction_exact_witness:
  "ptp_clock_rate_correction (-9223372036854775808) 100000000 =
     (-9223372036854775808 * 100000000) sdiv NSEC_PER_SEC"
  using rate_correction_exact [of "-9223372036854775808" 100000000] by (simp add: in_i64_def)

section \<open>The software clock\<close>

lemma sw_now_value:
  assumes "sw_initialized s"
  obtains ts where "ptp_clock_sw_now s l = Some ts" "0 \<le> tv_nsec ts" "tv_nsec ts < NSEC_PER_SEC"
    "timespec_to_ns ts = ptp_clock_affine_now (sw_clock s) l"
proof -
  define n where "n = ptp_clock_affine_now (sw_clock s) l"
  have eq: "n = n sdiv NSEC_PER_SEC * NSEC_PER_SEC + n smod NSEC_PER_SEC"
    using sdiv_mult_smod_eq [of n NSEC_PER_SEC] by simp
  have "\<bar>n smod NSEC_PER_SEC\<bar> < NSEC_PER_SEC" using abs_smod_less [of NSEC_PER_SEC n] by simp
  then show thesis
    using assms eq
    by (cases "n smod NSEC_PER_SEC < 0")
      (auto intro!: that simp: ptp_clock_sw_now_def sw_now_timespec_def timespec_to_ns_def n_def [symmetric])
qed

text \<open>A sequence of rate changes, each with the local time at which it is made.\<close>

definition adjust_rates :: "sw_clock \<Rightarrow> (int \<times> int) list \<Rightarrow> sw_clock" where
  "adjust_rates s changes = foldl (\<lambda>s c. snd (ptp_clock_sw_adjtime_rate s (fst c) (snd c))) s changes"

lemma adjust_rates_affine:
  "sw_initialized s \<Longrightarrow>
     sw_initialized (adjust_rates s xs) \<and> sw_clock (adjust_rates s xs) = affine.slew_all (sw_clock s) xs"
  unfolding adjust_rates_def
  by (induction xs arbitrary: s) (simp_all add: ptp_clock_sw_adjtime_rate_def)

text \<open>C34. Slewing never turns time back: however many rate adjustments of whatever size are made
  between two readings of an initialised software clock, the later reading (a normalised time
  stamp) is not before the earlier one, and a single adjustment does not change the reading at
  its own instant.\<close>

theorem sw_clock_never_backwards:
  assumes "sw_initialized s" "rate_ok (sw_clock s)" "sorted (t1 # map fst changes @ [t2])"
  shows "\<exists>ts1 ts2. ptp_clock_sw_now s t1 = Some ts1 \<and>
    ptp_clock_sw_now (adjust_rates s changes) t2 = Some ts2 \<and>
    0 \<le> tv_nsec ts2 \<and> tv_nsec ts2 < NSEC_PER_SEC \<and> timespec_to_ns ts1 \<le> timespec_to_ns ts2 \<and>
    ptp_clock_sw_now (snd (ptp_clock_sw_adjtime_rate s t1 a)) t1 = Some ts1"
proof -
  obtain ts1 where t1: "ptp_clock_sw_now s t1 = Some ts1"
    "timespec_to_ns ts1 = ptp_clock_affine_now (sw_clock s) t1"
    using assms(1) by (metis sw_now_value)
  have a: "sw_initialized (adjust_rates s changes)"
    "sw_clock (adjust_rates s changes) = affine.slew_all (sw_clock s) changes"
    using adjust_rates_affine [OF assms(1)] by simp_all
  obtain ts2 where t2: "ptp_clock_sw_now (adjust_rates s changes) t2 = Some ts2"
    "0 \<le> tv_nsec ts2" "tv_nsec ts2 < NSEC_PER_SEC"
    "timespec_to_ns ts2 = ptp_clock_affine_now (sw_clock (adjust_rates s changes)) t2"
    using a(1) by (metis sw_now_value)
  have "ptp_clock_sw_now (snd (ptp_clock_sw_adjtime_rate s t1 a)) t1 = ptp_clock_sw_now s t1"
    using assms(1) by (simp add: ptp_clock_sw_now_def sw_now_timespec_def
        ptp_clock_sw_adjtime_rate_def adjust_rate_now)
  then show ?thesis
    using t1 t2 affine.slew_never_backwards [OF assms(2,3)] unfolding a(2) by auto
qed

theorem sw_clock_never_backwards_witness:
  "\<exists>ts1 ts2. ptp_clock_sw_now (ptp_clock_sw_init 5 None) 10 = Some ts1 \<and>
     ptp_clock_sw_now (adjust_rates (ptp_clock_sw_init 5 None) [(20, -99000000), (30, 5)]) 31 = Some ts2 \<and>
     timespec_to_ns ts1 \<le> timespec_to_ns ts2"
proof -
  have "sw_initialized (ptp_clock_sw_init 5 None)" "rate_ok (sw_clock (ptp_clock_sw_init 5 None))"
    by (simp_all add: ptp_clock_sw_init_def rate_ok_def)
  then show ?thesis
    using sw_clock_never_backwards [of "ptp_clock_sw_init 5 None" 10 "[(20, -99000000), (30, 5)]" 31 0]
    by auto
qed

lemma correction_le_delta:
  assumes "\<bar>r\<bar> \<le> 200000" "0 \<le> d" "d \<le> 2000000000"
  shows "\<bar>ptp_clock_rate_correction d r\<bar> \<le> 400000"
proof -
  have "\<bar>d * r\<bar> \<le> 2000000000 * 200000" unfolding abs_mult using assms by (intro mult_mono) simp_all
  then have "\<bar>d * r\<bar> div NSEC_PER_SEC \<le> 2000000000 * 200000 div NSEC_PER_SEC" by (rule zdiv_mono1) simp
  then show ?thesis by (simp add: rate_correction_eq abs_sdiv)
qed

text \<open>Disciplining the software clock to a reference.  When the backend accepts an
  observation it reports the distance to the reference projected to the present; with \<open>step\<close> the
  clock then reads exactly the projected reference, without it the reading at this instant is
  unchanged; the applied rate is within 512 ppm, so the clock stays monotone, and the projected
  reference is a 64-bit value.  A refused observation changes nothing.\<close>

theorem sw_discipline_spec:
  assumes "ptp_clock_sw_discipline s now local_anchor reference rate step = (result, s')"
  shows "(result = None \<longrightarrow> s' = s) \<and>
    (\<forall>phase applied. result = Some (phase, applied) \<longrightarrow>
       (let target = reference + (now - local_anchor) + ptp_clock_rate_correction (now - local_anchor) rate in
        in_i64 target \<and> phase = target - ptp_clock_affine_now (sw_clock s) now \<and>
        ptp_clock_affine_now (sw_clock s') now = (if step then target else ptp_clock_affine_now (sw_clock s) now) \<and>
        applied = ca_rate_ppb (sw_clock s') \<and> \<bar>applied\<bar> \<le> 512000 \<and> rate_ok (sw_clock s') \<and>
        (\<not> step \<longrightarrow> applied = rate + clamp 200000 phase)))"
proof (cases result)
  case None
  then show ?thesis
    using assms by (auto simp: ptp_clock_sw_discipline_def Let_def split: if_splits prod.splits)
next
  case (Some r)
  have g: "0 \<le> local_anchor" "0 \<le> reference" "reference \<le> INT64_MAX - 3000000000" "\<bar>rate\<bar> \<le> 200000"
    "local_anchor \<le> now" "now - local_anchor \<le> 2000000000" "sw_initialized s"
    using assms Some by (auto simp: ptp_clock_sw_discipline_def split: if_splits)
  define target where
    "target = reference + (now - local_anchor) + ptp_clock_rate_correction (now - local_anchor) rate"
  define actual where "actual = ptp_clock_affine_now (sw_clock s) now"
  define applied where "applied = clamp 512000 (if step then rate else rate + clamp 200000 (target - actual))"
  define c where "c = (sw_clock s)\<lparr>ca_local_ns := now, ca_ptp_ns := (if step then target else actual),
                             ca_rate_ppb := applied\<rparr>"
  have "ptp_clock_sw_discipline s now local_anchor reference rate step =
      (Some (target - actual, applied), s\<lparr>sw_clock := c\<rparr>)"
    using g by (simp add: ptp_clock_sw_discipline_def ptp_clock_affine_discipline_def Let_def
        target_def actual_def applied_def c_def abs_le_iff)
  then have r: "r = (target - actual, applied)" "s' = s\<lparr>sw_clock := c\<rparr>" using assms Some by simp_all
  have i64: "in_i64 target"
    using g correction_le_delta [of rate "now - local_anchor"] unfolding target_def
    by (intro in_i64I) linarith
  have "\<bar>applied\<bar> \<le> 512000" by (simp add: applied_def abs_clamp_le)
  moreover have "applied = rate + clamp 200000 (target - actual)" if "\<not> step"
  proof -
    have "\<bar>clamp 200000 (target - actual)\<bar> \<le> 200000" by (simp add: abs_clamp_le)
    then show ?thesis using that g(4) unfolding applied_def by (simp add: clamp_id abs_le_iff)
  qed
  moreover have "ptp_clock_affine_now c now = (if step then target else actual)"
    by (simp add: c_def ptp_clock_affine_now_def)
  ultimately show ?thesis
    using i64 by (simp add: Some r target_def [symmetric] actual_def [symmetric] Let_def rate_ok_def c_def)
qed

theorem sw_discipline_spec_witness:
  "let s = ptp_clock_sw_init 0 None; (result, s') = ptp_clock_sw_discipline s 1000 500 7000 0 True in
     result = Some (6500, 0) \<and> ptp_clock_affine_now (sw_clock s') 1000 = 7500"
proof -
  have d: "fst (ptp_clock_sw_discipline (ptp_clock_sw_init 0 None) 1000 500 7000 0 True) = Some (6500, 0)"
    "ptp_clock_rate_correction 500 0 = 0"
    by code_simp+
  then obtain s' where e: "ptp_clock_sw_discipline (ptp_clock_sw_init 0 None) 1000 500 7000 0 True = (Some (6500, 0), s')"
    by (metis prod.collapse)
  show ?thesis using sw_discipline_spec [OF e] d(2) by (simp add: e Let_def)
qed

section \<open>The wired controller\<close>

lemma wired_interval_bounds: "1000000 \<le> wired_interval i \<and> wired_interval i \<le> 4000000000"
  by (simp add: wired_interval_def Let_def)

lemma wired_pi_gains_bounds:
  assumes "\<bar>off\<bar> \<le> 1000000000" "1000000 \<le> i" "i \<le> 4000000000" "wired_pi_gains off i = (p, n, d)"
  shows "\<bar>p\<bar> \<le> 4000000000" "\<bar>n\<bar> \<le> 250000000000000000" "250000000 \<le> d" "d \<le> 4000000000"
    "\<bar>off * 1000000000\<bar> \<le> 1000000000000000000"
proof -
  have oi: "\<bar>off * i\<bar> \<le> 1000000000 * 250000000" if "i \<le> 250000000"
    unfolding abs_mult using assms(1,2) that by (intro mult_mono) simp_all
  have quot: "\<bar>(off * 1000000000) sdiv i\<bar> \<le> 4000000000" if "\<not> i \<le> 250000000"
  proof -
    have "\<bar>off * 1000000000\<bar> \<le> 4000000000 * i" using assms(1) that by (simp add: abs_mult)
    then have "\<bar>off * 1000000000\<bar> div i \<le> 4000000000 * i div i" using assms(2) by (intro zdiv_mono1) simp_all
    then show ?thesis using assms(2) by (simp add: abs_sdiv)
  qed
  show "\<bar>p\<bar> \<le> 4000000000" "\<bar>n\<bar> \<le> 250000000000000000" "250000000 \<le> d" "d \<le> 4000000000"
    "\<bar>off * 1000000000\<bar> \<le> 1000000000000000000"
    using assms oi quot by (auto simp: wired_pi_gains_def abs_mult split: if_splits)
qed

lemma wired_pi_increment_bounds:
  assumes "\<bar>n\<bar> \<le> 250000000000000000" "250000000 \<le> d" "d \<le> 4000000000"
  shows "\<bar>wired_pi_increment n d\<bar> \<le> 65536000065536" "\<bar>n sdiv d * 65536\<bar> \<le> 65536000000000"
    "\<bar>n smod d * 65536\<bar> \<le> 262144000000000"
proof -
  have "\<bar>n\<bar> div \<bar>d\<bar> \<le> \<bar>n\<bar> div 250000000" using assms by (intro zdiv_mono2) simp_all
  also have "\<dots> \<le> 250000000000000000 div 250000000" using assms by (intro zdiv_mono1) simp_all
  finally have q: "\<bar>n sdiv d\<bar> \<le> 1000000000" by (simp add: abs_sdiv)
  have r: "\<bar>n smod d\<bar> < d" using abs_smod_less [of d n] assms by simp
  then have "\<bar>(n smod d * 65536) sdiv d\<bar> \<le> 65536"
  proof -
    have "\<bar>n smod d * 65536\<bar> \<le> 65536 * d" using r by (simp add: abs_mult)
    then have "\<bar>n smod d * 65536\<bar> div d \<le> 65536 * d div d" using assms by (intro zdiv_mono1) simp_all
    then show ?thesis using assms by (simp add: abs_sdiv)
  qed
  then show "\<bar>wired_pi_increment n d\<bar> \<le> 65536000065536" using q by (simp add: wired_pi_increment_def)
  show "\<bar>n sdiv d * 65536\<bar> \<le> 65536000000000" "\<bar>n smod d * 65536\<bar> \<le> 262144000000000"
    using q r assms by (simp_all add: abs_mult)
qed

text \<open>The controller of a wired port is bounded whatever it is fed: from an integral within
  its limit, any measured offset and any interval give a frequency trim within 512 ppm and an
  integral within its limit again, and none of the 64-bit intermediate values overflows.\<close>

theorem wired_pi_bounded:
  assumes "\<bar>integral\<bar> \<le> 512000 * 65536" "ptp_wired_pi_step integral offset interval = (target, integral')"
  defines "off \<equiv> clamp 1000000000 offset" and "i \<equiv> wired_interval interval"
  shows "\<bar>target\<bar> \<le> 512000 \<and> \<bar>integral'\<bar> \<le> 512000 * 65536 \<and>
    (case wired_pi_gains off i of (p, n, d) \<Rightarrow>
       in_i64 (off * 1000000000) \<and> in_i64 n \<and> in_i64 (n sdiv d * 65536) \<and> in_i64 (n smod d * 65536) \<and>
       in_i64 (integral + wired_pi_increment n d) \<and> in_i64 (p + integral' sdiv 65536))"
proof -
  obtain p n d where g: "wired_pi_gains off i = (p, n, d)" by (metis prod_cases3)
  have off: "\<bar>off\<bar> \<le> 1000000000" by (simp add: off_def abs_clamp_le)
  note b = wired_pi_gains_bounds [OF off _ _ g]
  have i: "1000000 \<le> i" "i \<le> 4000000000" using wired_interval_bounds by (simp_all add: i_def)
  note b = b [OF i]
  note c = wired_pi_increment_bounds [OF b(2,3,4)]
  define cand where "cand = clamp (PTP_WIRED_TRIM_LIMIT * 65536) (integral + wired_pi_increment n d)"
  have cand: "\<bar>cand\<bar> \<le> 512000 * 65536"
    using abs_clamp_le [of "512000 * 65536"] by (simp add: cand_def PTP_WIRED_TRIM_LIMIT_def)
  have step: "target = clamp PTP_WIRED_TRIM_LIMIT (p + integral' sdiv 65536)" "integral' = integral \<or> integral' = cand"
    using assms(2) g by (auto simp: ptp_wired_pi_step_def Let_def cand_def off_def i_def split: if_splits)
  then have i': "\<bar>integral'\<bar> \<le> 512000 * 65536" using assms(1) cand by auto
  have t: "\<bar>target\<bar> \<le> 512000" using step(1) abs_clamp_le [of 512000] by (simp add: PTP_WIRED_TRIM_LIMIT_def)
  have "\<bar>integral' sdiv 65536\<bar> \<le> 512000 * 65536" using abs_sdiv_le [of integral' 65536] i' by linarith
  then have "in_i64 (p + integral' sdiv 65536)" "in_i64 (integral + wired_pi_increment n d)"
    using b(1) c(1) assms(1) by (auto intro!: in_i64I)
  moreover have "in_i64 (off * 1000000000)" "in_i64 n" "in_i64 (n sdiv d * 65536)" "in_i64 (n smod d * 65536)"
    using b(2,5) c(2,3) by (auto intro!: in_i64I simp del: abs_mult)
  ultimately show ?thesis using t i' g by simp
qed

theorem wired_pi_bounded_witness:
  "\<bar>fst (ptp_wired_pi_step 33554432000 (10 ^ 18) 125000000)\<bar> \<le> 512000"
  using wired_pi_bounded [of 33554432000, OF _ prod.collapse [symmetric], of "10 ^ 18" 125000000] by simp

text \<open>Anti-windup and steady state of the controller: once the output would saturate in the
  direction of the error the integral is frozen, so it cannot wind up; with no measured error the
  integral stays and the output is exactly the learned rate.\<close>

theorem wired_pi_antiwindup:
  assumes "\<bar>integral\<bar> \<le> 512000 * 65536"
  shows "ptp_wired_pi_step integral 0 interval = (integral sdiv 65536, integral) \<and>
    (512000 < fst (wired_pi_gains (clamp 1000000000 offset) (wired_interval interval)) +
        clamp (512000 * 65536) (integral + wired_pi_increment
           (fst (snd (wired_pi_gains (clamp 1000000000 offset) (wired_interval interval))))
           (snd (snd (wired_pi_gains (clamp 1000000000 offset) (wired_interval interval))))) sdiv 65536 \<and>
      0 < offset \<longrightarrow> snd (ptp_wired_pi_step integral offset interval) = integral)"
proof -
  have pos: "0 < clamp 1000000000 offset" if "0 < offset" using that by (simp add: clamp_def Let_def)
  have "\<bar>integral sdiv 65536\<bar> \<le> 512000"
  proof -
    have "\<bar>integral\<bar> div 65536 \<le> 512000 * 65536 div 65536" using assms by (intro zdiv_mono1) simp_all
    then show ?thesis by (simp add: abs_sdiv)
  qed
  then have "ptp_wired_pi_step integral 0 interval = (integral sdiv 65536, integral)"
    using assms by (simp add: ptp_wired_pi_step_def wired_pi_gains_def wired_pi_increment_def Let_def
        PTP_WIRED_TRIM_LIMIT_def clamp_id abs_le_iff)
  moreover have "snd (ptp_wired_pi_step integral offset interval) = integral"
    if "512000 < fst (wired_pi_gains (clamp 1000000000 offset) (wired_interval interval)) +
        clamp (512000 * 65536) (integral + wired_pi_increment
           (fst (snd (wired_pi_gains (clamp 1000000000 offset) (wired_interval interval))))
           (snd (snd (wired_pi_gains (clamp 1000000000 offset) (wired_interval interval))))) sdiv 65536"
      "0 < offset"
    using that pos by (simp add: ptp_wired_pi_step_def Let_def PTP_WIRED_TRIM_LIMIT_def split_beta)
  ultimately show ?thesis by blast
qed

theorem wired_pi_antiwindup_witness:
  "ptp_wired_pi_step (-6553600) 0 125000000 = (-100, -6553600)"
  using wired_pi_antiwindup [of "-6553600" 125000000] by (simp add: sdiv_minus [of 6553600] sdiv_pos)

text \<open>The relative trim the daemon computes moves the software clock's rate to the wanted
  absolute trim: after \<^verbatim>\<open>ptp_trim_relative_delta\<close> is applied by a rate adjustment, the clock runs
  within two parts per billion of the target.\<close>

theorem trim_reaches_target:
  assumes "\<bar>ca_rate_ppb c\<bar> \<le> 512000" "\<bar>target\<bar> \<le> 512000"
  shows "\<bar>ca_rate_ppb (ptp_clock_affine_adjust_rate c l (ptp_trim_relative_delta (ca_rate_ppb c) target)) - target\<bar> \<le> 2 \<and>
    in_i32 (ptp_trim_relative_delta (ca_rate_ppb c) target)"
proof -
  define p where "p = ca_rate_ppb c"
  define a where "a = ptp_trim_relative_delta p target"
  define m where "m = NSEC_PER_SEC + p"
  have m: "999488000 \<le> m" "m \<le> 1000512000" using assms(1) by (auto simp: m_def p_def)
  have a1: "\<bar>(target - p) * NSEC_PER_SEC - a * m\<bar> < m"
    using sdiv_error [of m "(target - p) * NSEC_PER_SEC"] m by (simp add: a_def ptp_trim_relative_delta_def m_def)
  define q where "q = (p * a) sdiv NSEC_PER_SEC"
  have a2: "\<bar>p * a - q * NSEC_PER_SEC\<bar> < NSEC_PER_SEC" using sdiv_error [of NSEC_PER_SEC "p * a"] by (simp add: q_def)
  define rate where "rate = p + (q + a)"
  have "rate * NSEC_PER_SEC - target * NSEC_PER_SEC =
      (a * m - (target - p) * NSEC_PER_SEC) + (q * NSEC_PER_SEC - p * a)"
    by (simp add: rate_def m_def algebra_simps)
  then have "\<bar>(rate - target) * NSEC_PER_SEC\<bar> < 3 * NSEC_PER_SEC"
    using a1 a2 m by (simp add: algebra_simps)
  then have near: "\<bar>rate - target\<bar> < 3" by (simp add: abs_mult)
  then have "clamp 100000000 rate = rate" using assms(2) by (intro clamp_id) auto
  then have "ca_rate_ppb (ptp_clock_affine_adjust_rate c l a) = rate"
    by (simp add: ptp_clock_affine_adjust_rate_def ptp_clock_affine_reanchor_def Let_def rate_def q_def p_def)
  moreover have "in_i32 a"
  proof -
    have "\<bar>a * m\<bar> < \<bar>(target - p) * NSEC_PER_SEC\<bar> + m" using a1 by linarith
    also have "\<dots> \<le> 1024000 * NSEC_PER_SEC + m" using assms by (simp add: p_def abs_mult)
    also have "\<dots> \<le> 1025000 * m" using m by simp
    finally have "\<bar>a\<bar> * m < 1025000 * m" using m by (simp add: abs_mult)
    then have "\<bar>a\<bar> < 1025000" using m by simp
    then show ?thesis by (intro in_i32I) linarith
  qed
  ultimately show ?thesis using near unfolding a_def p_def by simp
qed

theorem trim_reaches_target_witness:
  "\<bar>ca_rate_ppb (ptp_clock_affine_adjust_rate \<lparr>ca_local_ns = 0, ca_ptp_ns = 0, ca_rate_ppb = -512000\<rparr> 0
      (ptp_trim_relative_delta (-512000) 512000)) - 512000\<bar> \<le> 2"
  using trim_reaches_target [of "\<lparr>ca_local_ns = 0, ca_ptp_ns = 0, ca_rate_ppb = -512000\<rparr>" 512000 0] by simp

end
