(* ===== verification/Ptp_Peer_Exchange.thy ===== *)
theory Ptp_Peer_Exchange
  imports Ptp_Wire
begin

text \<open>
  The peer-delay exchange of \<^verbatim>\<open>ptp_peer_exchange.h\<close>: one outstanding Pdelay_Req, the response and
  the follow-up that complete it, and the faults that void it.  The events of the daemon are a
  datatype, so that sequences of operations can be reasoned about.
\<close>

section \<open>State\<close>

record ptp_peer_exchange =
  px_generation :: u32
  px_lifecycle :: u32
  px_sequence :: u16
  px_requester :: bytes
  px_deadline_us :: int
  px_published :: bool
  px_response_seen :: bool
  px_consumed :: bool
  px_multiple :: bool
  px_loss_counted :: bool
  px_sending :: bool
  px_follow_up_pending :: bool
  px_pending_follow_up :: ptp_delay_resp_follow_up
  px_lost_responses :: u16
  px_missing_response :: u32
  px_missing_follow_up :: u32
  px_response_count :: u16
  px_response_rejections :: u16
  px_follow_up_count :: u16
  px_follow_up_rejections :: u16
  px_first_response_us :: int
  px_published_us :: int
  px_transmit :: timespec
  px_receive :: timespec
  px_response :: ptp_delay_resp

record ptp_peer_measurement =
  pm_generation :: u32
  pm_lifecycle :: u32
  pm_transmit :: timespec
  pm_receive :: timespec
  pm_response :: ptp_delay_resp

datatype peer_result = PTP_PEER_IGNORED | PTP_PEER_ACCEPTED | PTP_PEER_MULTIPLE
  | PTP_PEER_DUPLICATE | PTP_PEER_SELF

definition exchange_zero :: ptp_peer_exchange where
  "exchange_zero = \<lparr>px_generation = 0, px_lifecycle = 0, px_sequence = 0,
     px_requester = replicate 10 0, px_deadline_us = 0, px_published = False,
     px_response_seen = False, px_consumed = False, px_multiple = False, px_loss_counted = False,
     px_sending = False, px_follow_up_pending = False,
     px_pending_follow_up = delay_resp_follow_up_of (replicate 54 0), px_lost_responses = 0,
     px_missing_response = 0, px_missing_follow_up = 0, px_response_count = 0,
     px_response_rejections = 0, px_follow_up_count = 0, px_follow_up_rejections = 0,
     px_first_response_us = 0, px_published_us = 0, px_transmit = timespec_zero,
     px_receive = timespec_zero, px_response = delay_resp_of (replicate 54 0)\<rparr>"

section \<open>Operations\<close>

definition ptp_peer_invalidate :: "ptp_peer_exchange \<Rightarrow> ptp_peer_exchange" where
  "ptp_peer_invalidate x = exchange_zero\<lparr>px_generation := bump32 (px_generation x),
     px_lifecycle := bump32 (px_lifecycle x)\<rparr>"

definition saturating_inc :: "u16 \<Rightarrow> u16" where
  "saturating_inc n = (if n < UINT16_MAX then n + 1 else n)"

definition ptp_peer_expire :: "ptp_peer_exchange \<Rightarrow> int \<Rightarrow> bool \<times> ptp_peer_exchange" where
  "ptp_peer_expire x now_us =
     (if \<not> px_published x \<or> px_consumed x \<or> px_loss_counted x \<or> now_us < px_deadline_us x
      then (False, x)
      else
        let x = x\<lparr>px_loss_counted := True, px_lost_responses := saturating_inc (px_lost_responses x)\<rparr>
        in (True, if px_response_seen x
                  then x\<lparr>px_missing_follow_up := px_missing_follow_up x + 1\<rparr>
                  else x\<lparr>px_missing_response := px_missing_response x + 1\<rparr>))"

definition ptp_peer_abandon :: "ptp_peer_exchange \<Rightarrow> ptp_peer_exchange" where
  "ptp_peer_abandon x =
     (ptp_peer_invalidate x)\<lparr>px_lifecycle := px_lifecycle x, px_lost_responses := px_lost_responses x,
        px_missing_response := px_missing_response x, px_missing_follow_up := px_missing_follow_up x\<rparr>"

definition ptp_peer_begin ::
    "ptp_peer_exchange \<Rightarrow> u16 \<Rightarrow> ptp_header \<Rightarrow> int \<Rightarrow> u32 \<times> ptp_peer_exchange" where
  "ptp_peer_begin x sequence request deadline_us =
     (let x = (ptp_peer_abandon x)\<lparr>px_sequence := sequence,
                px_requester := hd_sourceidentity request @ hd_sourceportindex request,
                px_deadline_us := deadline_us, px_sending := True\<rparr>
      in (px_generation x, x))"

definition ptp_peer_publish ::
    "ptp_peer_exchange \<Rightarrow> u32 \<Rightarrow> timespec \<Rightarrow> int \<Rightarrow> bool \<times> ptp_peer_exchange" where
  "ptp_peer_publish x generation transmit now_us =
     (if px_generation x \<noteq> generation \<or> \<not> px_sending x \<or> px_published x \<or>
         now_us \<ge> px_deadline_us x \<or> tv_nsec transmit < 0 \<or> tv_nsec transmit \<ge> 1000000000
      then (False, x)
      else (True, x\<lparr>px_transmit := transmit, px_published := True, px_sending := False,
                    px_published_us := now_us\<rparr>))"

definition ptp_peer_cancel :: "ptp_peer_exchange \<Rightarrow> u32 \<Rightarrow> ptp_peer_exchange" where
  "ptp_peer_cancel x generation =
     (if px_generation x \<noteq> generation then x
      else x\<lparr>px_sending := False, px_published := False, px_response_seen := False,
             px_follow_up_pending := False\<rparr>)"

definition ptp_peer_timestamp_valid :: "bytes \<Rightarrow> bool" where
  "ptp_peer_timestamp_valid stamp \<longleftrightarrow> be_int (slice 6 4 stamp) < 1000000000"

definition ptp_peer_matches ::
    "ptp_peer_exchange \<Rightarrow> ptp_header \<Rightarrow> bytes \<Rightarrow> bytes \<Rightarrow> int \<Rightarrow> bool" where
  "ptp_peer_matches x header requester port now_us \<longleftrightarrow>
     (px_published x \<or> px_sending x) \<and> \<not> px_multiple x \<and> now_us < px_deadline_us x \<and>
     px_sequence x = ptp_get_sequence header \<and>
     take 8 (px_requester x) = requester \<and> drop 8 (px_requester x) = port"

text \<open>The reasons for which a response is rejected, as the bits that are recorded.\<close>

definition flag :: "bool \<Rightarrow> u16 \<Rightarrow> u16" where
  "flag b v = (if b then v else 0)"

definition response_rejection ::
    "ptp_peer_exchange \<Rightarrow> ptp_delay_resp \<Rightarrow> timespec \<Rightarrow> int \<Rightarrow> u16" where
  "response_rejection x response receive now_us =
     or (flag (\<not> px_published x \<and> \<not> px_sending x) 1)
    (or (flag (px_multiple x) 2)
    (or (flag (now_us \<ge> px_deadline_us x) 4)
    (or (flag (take 8 (px_requester x) \<noteq> dr_reqidentity response \<or>
               drop 8 (px_requester x) \<noteq> dr_reqportindex response) 8)
        (flag (\<not> ptp_peer_timestamp_valid (dr_receivetimestamp response) \<or>
               tv_nsec receive < 0 \<or> tv_nsec receive \<ge> 1000000000) 16))))"

definition same_source :: "ptp_header \<Rightarrow> ptp_header \<Rightarrow> bool" where
  "same_source a b \<longleftrightarrow> hd_sourceidentity a = hd_sourceidentity b \<and>
     hd_sourceportindex a = hd_sourceportindex b"

text \<open>The first arrival and the count that \<open>ptp_peer_response\<close> keeps.\<close>

definition note_response :: "ptp_peer_exchange \<Rightarrow> int \<Rightarrow> ptp_peer_exchange" where
  "note_response x now_us =
     x\<lparr>px_first_response_us := (if px_response_count x = 0 then now_us else px_first_response_us x),
       px_response_count := saturating_inc (px_response_count x)\<rparr>"

definition ptp_peer_response ::
    "ptp_peer_exchange \<Rightarrow> ptp_delay_resp \<Rightarrow> timespec \<Rightarrow> int \<Rightarrow> peer_result \<times> ptp_peer_exchange" where
  "ptp_peer_response x response receive now_us =
     (if ptp_get_sequence (dr_header response) \<noteq> px_sequence x then (PTP_PEER_IGNORED, x)
      else
        let x = note_response x now_us;
            rejection = response_rejection x response receive now_us;
            x = x\<lparr>px_response_rejections := or (px_response_rejections x) rejection\<rparr>
        in if rejection \<noteq> 0 then (PTP_PEER_IGNORED, x)
           else if hd_sourceidentity (dr_header response) = take 8 (px_requester x)
           then (PTP_PEER_SELF, x\<lparr>px_multiple := True\<rparr>)
           else if px_response_seen x then
             (if \<not> same_source (dr_header (px_response x)) (dr_header response)
              then (PTP_PEER_MULTIPLE, x\<lparr>px_multiple := True\<rparr>)
              else (PTP_PEER_DUPLICATE, x\<lparr>px_multiple := True\<rparr>))
           else (PTP_PEER_ACCEPTED,
                 x\<lparr>px_response := response, px_receive := receive, px_response_seen := True\<rparr>))"

definition follow_up_rejection :: "ptp_peer_exchange \<Rightarrow> ptp_delay_resp_follow_up \<Rightarrow> int \<Rightarrow> u16" where
  "follow_up_rejection x follow_up now_us =
     or (flag (\<not> px_published x \<and> \<not> px_sending x) 1)
    (or (flag (px_multiple x) 2)
    (or (flag (now_us \<ge> px_deadline_us x) 4)
    (or (flag (take 8 (px_requester x) \<noteq> df_reqidentity follow_up \<or>
               drop 8 (px_requester x) \<noteq> df_reqportindex follow_up) 8)
    (or (flag (\<not> px_response_seen x) 16)
    (or (flag (\<not> ptp_peer_timestamp_valid (df_origintimestamp follow_up)) 32)
    (or (flag (\<not> same_source (dr_header (px_response x)) (df_header follow_up)) 64)
        (flag (px_consumed x \<or> px_follow_up_pending x) 128)))))))"

text \<open>The diagnostic counters that \<open>ptp_peer_finish\<close> keeps.\<close>

definition note_follow_up :: "ptp_peer_exchange \<Rightarrow> ptp_delay_resp_follow_up \<Rightarrow> int \<Rightarrow> ptp_peer_exchange" where
  "note_follow_up x follow_up now_us =
     (if ptp_get_sequence (df_header follow_up) = px_sequence x then
        x\<lparr>px_follow_up_count := saturating_inc (px_follow_up_count x),
          px_follow_up_rejections :=
            or (px_follow_up_rejections x) (follow_up_rejection x follow_up now_us)\<rparr>
      else x)"

definition ptp_peer_finish ::
    "ptp_peer_exchange \<Rightarrow> ptp_delay_resp_follow_up \<Rightarrow> int \<Rightarrow>
     ptp_peer_measurement option \<times> ptp_peer_exchange" where
  "ptp_peer_finish exchange follow_up now_us =
     (let x = note_follow_up exchange follow_up now_us in
      if \<not> ptp_peer_matches x (df_header follow_up) (df_reqidentity follow_up)
            (df_reqportindex follow_up) now_us \<or>
         \<not> px_response_seen x \<or> \<not> ptp_peer_timestamp_valid (df_origintimestamp follow_up) \<or>
         \<not> same_source (dr_header (px_response x)) (df_header follow_up)
      then (None, x)
      else if px_consumed x \<or> px_follow_up_pending x then (None, x\<lparr>px_multiple := True\<rparr>)
      else if \<not> px_published x
      then (None, x\<lparr>px_pending_follow_up := follow_up, px_follow_up_pending := True\<rparr>)
      else (Some \<lparr>pm_generation = px_generation x, pm_lifecycle = px_lifecycle x,
                  pm_transmit = px_transmit x, pm_receive = px_receive x,
                  pm_response = px_response x\<rparr>,
            x\<lparr>px_consumed := True, px_lost_responses := 0\<rparr>))"

definition ptp_peer_take_follow_up ::
    "ptp_peer_exchange \<Rightarrow> int \<Rightarrow> (ptp_delay_resp_follow_up \<times> u32) option \<times> ptp_peer_exchange" where
  "ptp_peer_take_follow_up x now_us =
     (if \<not> px_published x \<or> \<not> px_follow_up_pending x \<or> px_multiple x \<or> px_consumed x \<or>
         now_us \<ge> px_deadline_us x then (None, x)
      else (Some (px_pending_follow_up x, px_generation x), x\<lparr>px_follow_up_pending := False\<rparr>))"

section \<open>Sequences of operations\<close>

datatype exchange_event =
    Ev_invalidate
  | Ev_abandon
  | Ev_expire int
  | Ev_begin u16 ptp_header int
  | Ev_publish u32 timespec int
  | Ev_cancel u32
  | Ev_response ptp_delay_resp timespec int
  | Ev_finish ptp_delay_resp_follow_up int
  | Ev_take int

fun exchange_step :: "ptp_peer_exchange \<Rightarrow> exchange_event \<Rightarrow> ptp_peer_measurement option \<times> ptp_peer_exchange" where
  "exchange_step x Ev_invalidate = (None, ptp_peer_invalidate x)"
| "exchange_step x Ev_abandon = (None, ptp_peer_abandon x)"
| "exchange_step x (Ev_expire now) = (None, snd (ptp_peer_expire x now))"
| "exchange_step x (Ev_begin s h d) = (None, snd (ptp_peer_begin x s h d))"
| "exchange_step x (Ev_publish g t now) = (None, snd (ptp_peer_publish x g t now))"
| "exchange_step x (Ev_cancel g) = (None, ptp_peer_cancel x g)"
| "exchange_step x (Ev_response r t now) = (None, snd (ptp_peer_response x r t now))"
| "exchange_step x (Ev_finish f now) = ptp_peer_finish x f now"
| "exchange_step x (Ev_take now) = (None, snd (ptp_peer_take_follow_up x now))"

text \<open>The measurements a sequence of events delivers, in order, and the final state.\<close>

fun exchange_run :: "ptp_peer_exchange \<Rightarrow> exchange_event list \<Rightarrow> ptp_peer_measurement list \<times> ptp_peer_exchange" where
  "exchange_run x [] = ([], x)"
| "exchange_run x (e # es) =
     (case exchange_step x e of (m, x') \<Rightarrow>
        case exchange_run x' es of (ms, x'') \<Rightarrow>
          ((case m of None \<Rightarrow> ms | Some v \<Rightarrow> v # ms), x''))"

section \<open>What every reachable exchange satisfies\<close>

definition stamp_ok :: "timespec \<Rightarrow> bool" where
  "stamp_ok t \<longleftrightarrow> 0 \<le> tv_nsec t \<and> tv_nsec t < 1000000000"

text \<open>The stored response answers the request of this exchange and does not come from this clock.\<close>

definition response_for :: "u16 \<Rightarrow> bytes \<Rightarrow> ptp_delay_resp \<Rightarrow> timespec \<Rightarrow> bool" where
  "response_for sequence requester response receive \<longleftrightarrow>
     ptp_get_sequence (dr_header response) = sequence \<and>
     take 8 requester = dr_reqidentity response \<and> drop 8 requester = dr_reqportindex response \<and>
     ptp_peer_timestamp_valid (dr_receivetimestamp response) \<and> stamp_ok receive \<and>
     hd_sourceidentity (dr_header response) \<noteq> take 8 requester"

definition response_ok :: "ptp_peer_exchange \<Rightarrow> bool" where
  "response_ok x \<longleftrightarrow> response_for (px_sequence x) (px_requester x) (px_response x) (px_receive x)"

definition exchange_inv :: "ptp_peer_exchange \<Rightarrow> bool" where
  "exchange_inv x \<longleftrightarrow> (px_response_seen x \<longrightarrow> response_ok x) \<and> (px_published x \<longrightarrow> stamp_ok (px_transmit x)) \<and>
     \<not> (px_sending x \<and> px_published x)"

lemma exchange_inv_zero: "exchange_inv exchange_zero"
  by (simp add: exchange_inv_def exchange_zero_def)

lemma exchange_inv_invalidate: "exchange_inv (ptp_peer_invalidate x)"
  by (simp add: exchange_inv_def ptp_peer_invalidate_def exchange_zero_def)

lemma exchange_inv_abandon: "exchange_inv (ptp_peer_abandon x)"
  by (simp add: exchange_inv_def ptp_peer_abandon_def ptp_peer_invalidate_def exchange_zero_def)

lemma exchange_inv_expire: "exchange_inv x \<Longrightarrow> exchange_inv (snd (ptp_peer_expire x now))"
  by (auto simp: exchange_inv_def ptp_peer_expire_def response_ok_def Let_def)

lemma exchange_inv_begin: "exchange_inv (snd (ptp_peer_begin x s h d))"
  by (simp add: exchange_inv_def ptp_peer_begin_def ptp_peer_abandon_def ptp_peer_invalidate_def
      exchange_zero_def Let_def)

lemma exchange_inv_publish: "exchange_inv x \<Longrightarrow> exchange_inv (snd (ptp_peer_publish x g t now))"
  by (simp add: exchange_inv_def ptp_peer_publish_def response_ok_def stamp_ok_def)

lemma exchange_inv_cancel: "exchange_inv x \<Longrightarrow> exchange_inv (ptp_peer_cancel x g)"
  by (simp add: exchange_inv_def ptp_peer_cancel_def)

lemma flag_0 [simp]: "v \<noteq> 0 \<Longrightarrow> flag b v = 0 \<longleftrightarrow> \<not> b"
  by (simp add: flag_def)

lemma response_rejection_0:
  "response_rejection x r t now = 0 \<longleftrightarrow> (px_published x \<or> px_sending x) \<and> \<not> px_multiple x \<and>
     now < px_deadline_us x \<and> take 8 (px_requester x) = dr_reqidentity r \<and>
     drop 8 (px_requester x) = dr_reqportindex r \<and>
     ptp_peer_timestamp_valid (dr_receivetimestamp r) \<and> stamp_ok t"
  by (auto simp: response_rejection_def or_eq_0_iff stamp_ok_def)

lemma note_response_keeps [simp]:
  "px_published (note_response x n) = px_published x"
  "px_sending (note_response x n) = px_sending x"
  "px_multiple (note_response x n) = px_multiple x"
  "px_transmit (note_response x n) = px_transmit x"
  "px_receive (note_response x n) = px_receive x"
  "px_response (note_response x n) = px_response x"
  "px_response_seen (note_response x n) = px_response_seen x"
  "px_sequence (note_response x n) = px_sequence x"
  "px_requester (note_response x n) = px_requester x"
  "px_consumed (note_response x n) = px_consumed x"
  "px_follow_up_pending (note_response x n) = px_follow_up_pending x"
  "px_deadline_us (note_response x n) = px_deadline_us x"
  "px_generation (note_response x n) = px_generation x"
  "px_lifecycle (note_response x n) = px_lifecycle x"
  by (simp_all add: note_response_def)

lemma rejection_note [simp]: "response_rejection (note_response x n) r t now = response_rejection x r t now"
  by (simp add: response_rejection_def)

lemma response_cases:
  assumes "ptp_peer_response x r t now = (res, x')"
  shows "px_published x' = px_published x" "px_sending x' = px_sending x" "px_transmit x' = px_transmit x"
    "px_sequence x' = px_sequence x" "px_requester x' = px_requester x" "px_consumed x' = px_consumed x"
    "px_deadline_us x' = px_deadline_us x"
    "res \<noteq> PTP_PEER_ACCEPTED \<Longrightarrow>
       px_response_seen x' = px_response_seen x \<and> px_response x' = px_response x \<and> px_receive x' = px_receive x"
    "res = PTP_PEER_ACCEPTED \<Longrightarrow> px_response_seen x' \<and> px_response x' = r \<and> px_receive x' = t \<and>
       response_rejection x r t now = 0 \<and> ptp_get_sequence (dr_header r) = px_sequence x \<and>
       hd_sourceidentity (dr_header r) \<noteq> take 8 (px_requester x) \<and> \<not> px_response_seen x"
    "res \<in> {PTP_PEER_SELF, PTP_PEER_MULTIPLE, PTP_PEER_DUPLICATE} \<Longrightarrow> px_multiple x'"
  using assms
  by (auto simp: ptp_peer_response_def Let_def split: if_splits)

lemma exchange_inv_response:
  assumes "exchange_inv x"
  shows "exchange_inv (snd (ptp_peer_response x r t now))"
proof -
  obtain res x' where e: "ptp_peer_response x r t now = (res, x')" by force
  note c = response_cases [OF e]
  show ?thesis
  proof (cases "res = PTP_PEER_ACCEPTED")
    case True
    then have "response_ok x'"
      using c(4,5) c(9) by (auto simp: response_ok_def response_for_def response_rejection_0)
    then show ?thesis using assms c(1-3) by (simp add: e exchange_inv_def)
  next
    case False
    then show ?thesis using assms c by (simp add: e exchange_inv_def response_ok_def)
  qed
qed

lemma note_follow_up_keeps [simp]:
  "px_published (note_follow_up x f now) = px_published x"
  "px_sending (note_follow_up x f now) = px_sending x"
  "px_multiple (note_follow_up x f now) = px_multiple x"
  "px_transmit (note_follow_up x f now) = px_transmit x"
  "px_receive (note_follow_up x f now) = px_receive x"
  "px_response (note_follow_up x f now) = px_response x"
  "px_response_seen (note_follow_up x f now) = px_response_seen x"
  "px_sequence (note_follow_up x f now) = px_sequence x"
  "px_requester (note_follow_up x f now) = px_requester x"
  "px_consumed (note_follow_up x f now) = px_consumed x"
  "px_follow_up_pending (note_follow_up x f now) = px_follow_up_pending x"
  "px_deadline_us (note_follow_up x f now) = px_deadline_us x"
  "px_generation (note_follow_up x f now) = px_generation x"
  "px_lifecycle (note_follow_up x f now) = px_lifecycle x"
  by (simp_all add: note_follow_up_def)

lemma exchange_inv_finish:
  assumes "exchange_inv x"
  shows "exchange_inv (snd (ptp_peer_finish x f now))"
  using assms by (auto simp: ptp_peer_finish_def exchange_inv_def response_ok_def Let_def)

lemma exchange_inv_take: "exchange_inv x \<Longrightarrow> exchange_inv (snd (ptp_peer_take_follow_up x now))"
  by (auto simp: ptp_peer_take_follow_up_def exchange_inv_def response_ok_def)

lemmas exchange_invs = exchange_inv_invalidate exchange_inv_abandon exchange_inv_expire
  exchange_inv_begin exchange_inv_publish exchange_inv_cancel exchange_inv_response
  exchange_inv_finish exchange_inv_take

lemma exchange_inv_step: "exchange_inv x \<Longrightarrow> exchange_inv (snd (exchange_step x e))"
  by (cases e) (simp_all add: exchange_invs)

lemma exchange_inv_run: "exchange_inv x \<Longrightarrow> exchange_inv (snd (exchange_run x es))"
proof (induction es arbitrary: x)
  case (Cons e es)
  then show ?case using exchange_inv_step [OF Cons.prems, of e] by (simp add: split_beta)
qed simp

section \<open>Soundness of measurements\<close>

lemma finish_Some:
  assumes "ptp_peer_finish x f now = (Some m, x')"
  shows "px_published x" "\<not> px_consumed x" "\<not> px_multiple x" "px_response_seen x"
    "now < px_deadline_us x" "px_sequence x = ptp_get_sequence (df_header f)"
    "take 8 (px_requester x) = df_reqidentity f" "drop 8 (px_requester x) = df_reqportindex f"
    "same_source (dr_header (px_response x)) (df_header f)"
    "ptp_peer_timestamp_valid (df_origintimestamp f)"
    "pm_transmit m = px_transmit x" "pm_receive m = px_receive x" "pm_response m = px_response x"
    "pm_generation m = px_generation x" "pm_lifecycle m = px_lifecycle x" "px_consumed x'"
  using assms by (auto simp: ptp_peer_finish_def Let_def ptp_peer_matches_def split: if_splits)

text \<open>C2. A peer-delay measurement is delivered only for a complete, unambiguous exchange.
  Whatever the daemon did before, when a follow-up completes a measurement then the request's
  transmit time was published, its deadline has not passed, and the response and the follow-up
  carry this request's sequence number and requesting port identity and come from one and the
  same port of another clock; no second responder, duplicate or self-response was seen, and the
  four time stamps are normalised.\<close>

theorem measurement_sound:
  assumes "snd (exchange_run exchange_zero es) = x" "ptp_peer_finish x f now = (Some m, x')"
  shows "px_published x \<and> now < px_deadline_us x \<and> \<not> px_multiple x \<and> \<not> px_consumed x \<and>
    ptp_get_sequence (dr_header (pm_response m)) = px_sequence x \<and>
    ptp_get_sequence (df_header f) = px_sequence x \<and>
    dr_reqidentity (pm_response m) @ dr_reqportindex (pm_response m) = px_requester x \<and>
    df_reqidentity f @ df_reqportindex f = px_requester x \<and>
    same_source (dr_header (pm_response m)) (df_header f) \<and>
    hd_sourceidentity (dr_header (pm_response m)) \<noteq> take 8 (px_requester x) \<and>
    stamp_ok (pm_transmit m) \<and> stamp_ok (pm_receive m) \<and>
    ptp_peer_timestamp_valid (dr_receivetimestamp (pm_response m)) \<and>
    ptp_peer_timestamp_valid (df_origintimestamp f)"
proof -
  have inv: "exchange_inv x" using exchange_inv_run [OF exchange_inv_zero, of es] assms(1) by simp
  note f = finish_Some [OF assms(2)]
  have "response_ok x" "stamp_ok (px_transmit x)" using inv f(1,4) by (simp_all add: exchange_inv_def)
  then show ?thesis
    using f append_take_drop_id [of 8 "px_requester x"]
    by (auto simp: response_ok_def response_for_def)
qed

text \<open>A request sent with sequence number 7 by clock 1, answered by clock 2.\<close>

definition ex_header :: "u8 \<Rightarrow> ptp_header" where
  "ex_header c = header_zero\<lparr>hd_sourceidentity := replicate 8 c, hd_sourceportindex := [0, 1],
                           hd_sequenceid := [0, 7]\<rparr>"

definition ex_response :: ptp_delay_resp where
  "ex_response = \<lparr>dr_header = ex_header 2, dr_receivetimestamp = replicate 10 0,
     dr_reqidentity = replicate 8 1, dr_reqportindex = [0, 1]\<rparr>"

definition ex_follow_up :: ptp_delay_resp_follow_up where
  "ex_follow_up = \<lparr>df_header = ex_header 2, df_origintimestamp = replicate 10 0,
     df_reqidentity = replicate 8 1, df_reqportindex = [0, 1]\<rparr>"

definition ex_events :: "exchange_event list" where
  "ex_events = [Ev_begin 7 (ex_header 1) 1000, Ev_publish 1 \<lparr>tv_sec = 5, tv_nsec = 6\<rparr> 10,
     Ev_response ex_response \<lparr>tv_sec = 5, tv_nsec = 900\<rparr> 20]"

theorem measurement_sound_witness:
  "\<exists>m x'. ptp_peer_finish (snd (exchange_run exchange_zero ex_events)) ex_follow_up 30 = (Some m, x') \<and>
     ptp_get_sequence (dr_header (pm_response m)) = 7 \<and> same_source (dr_header (pm_response m)) (df_header ex_follow_up)"
proof -
  have "fst (ptp_peer_finish (snd (exchange_run exchange_zero ex_events)) ex_follow_up 30) \<noteq> None \<and>
      px_sequence (snd (exchange_run exchange_zero ex_events)) = 7"
    by code_simp
  then obtain m x' where f: "ptp_peer_finish (snd (exchange_run exchange_zero ex_events)) ex_follow_up 30 = (Some m, x')"
    and s: "px_sequence (snd (exchange_run exchange_zero ex_events)) = 7"
    by (metis not_None_eq prod.collapse)
  then show ?thesis using measurement_sound [OF refl f] by auto
qed

section \<open>One measurement per request\<close>

text \<open>Whether the exchange can still deliver a measurement.\<close>

definition may_measure :: "ptp_peer_exchange \<Rightarrow> nat" where
  "may_measure x = (if \<not> px_consumed x \<and> (px_sending x \<or> px_published x) then 1 else 0)"

fun is_begin :: "exchange_event \<Rightarrow> bool" where
  "is_begin (Ev_begin _ _ _) = True"
| "is_begin _ = False"

definition delivered :: "'a option \<Rightarrow> nat" where
  "delivered m = (case m of None \<Rightarrow> 0 | Some _ \<Rightarrow> 1)"

lemma may_measure_invalidate: "may_measure (ptp_peer_invalidate x) = 0"
  by (simp add: may_measure_def ptp_peer_invalidate_def exchange_zero_def)

lemma may_measure_abandon: "may_measure (ptp_peer_abandon x) = 0"
  by (simp add: may_measure_def ptp_peer_abandon_def ptp_peer_invalidate_def exchange_zero_def)

lemma may_measure_expire: "may_measure (snd (ptp_peer_expire x now)) = may_measure x"
  by (simp add: may_measure_def ptp_peer_expire_def Let_def)

lemma may_measure_publish: "may_measure (snd (ptp_peer_publish x g t now)) \<le> may_measure x"
  by (simp add: may_measure_def ptp_peer_publish_def)

lemma may_measure_cancel: "may_measure (ptp_peer_cancel x g) \<le> may_measure x"
  by (simp add: may_measure_def ptp_peer_cancel_def)

lemma may_measure_response: "may_measure (snd (ptp_peer_response x r t now)) = may_measure x"
  using response_cases(1,2,6) [of x r t now] by (simp add: may_measure_def) (metis prod.collapse)

lemma may_measure_take: "may_measure (snd (ptp_peer_take_follow_up x now)) = may_measure x"
  by (simp add: may_measure_def ptp_peer_take_follow_up_def)

lemma may_measure_finish:
  "delivered (fst (ptp_peer_finish x f now)) + may_measure (snd (ptp_peer_finish x f now)) \<le> may_measure x"
  by (simp add: ptp_peer_finish_def Let_def may_measure_def delivered_def)

lemma may_measure_step:
  "delivered (fst (exchange_step x e)) + may_measure (snd (exchange_step x e)) \<le>
     may_measure x + (if is_begin e then 1 else 0)"
proof (cases e)
  case (Ev_begin s h d)
  then show ?thesis by (simp add: delivered_def may_measure_def)
next
  case (Ev_finish f now)
  then show ?thesis using may_measure_finish [of x f now] by simp
qed (simp_all add: delivered_def may_measure_invalidate may_measure_abandon may_measure_expire
    may_measure_publish may_measure_cancel may_measure_response may_measure_take)

lemma may_measure_run:
  "length (fst (exchange_run x es)) + may_measure (snd (exchange_run x es)) \<le>
     may_measure x + length (filter is_begin es)"
proof (induction es arbitrary: x)
  case (Cons e es)
  obtain m x' where s: "exchange_step x e = (m, x')" by force
  have "length (fst (exchange_run x (e # es))) = delivered m + length (fst (exchange_run x' es))"
    by (cases m) (simp_all add: s delivered_def split_beta)
  moreover have "snd (exchange_run x (e # es)) = snd (exchange_run x' es)"
    by (simp add: s split_beta)
  ultimately show ?case
    using Cons.IH [of x'] may_measure_step [of x e] by (simp add: s split: if_splits)
qed simp

text \<open>At most one measurement per request: in any sequence of operations on an exchange, the
  measurements delivered are no more than the requests begun, however responses, follow-ups,
  replays, cancellations and resets interleave.\<close>

theorem one_measurement_per_request:
  "length (fst (exchange_run exchange_zero es)) \<le> length (filter is_begin es)"
  using may_measure_run [of exchange_zero es] by (simp add: may_measure_def exchange_zero_def)

text \<open>An exchange that cannot deliver: faulted, or nothing outstanding.\<close>

definition voided :: "ptp_peer_exchange \<Rightarrow> bool" where
  "voided x \<longleftrightarrow> px_multiple x \<or> (\<not> px_sending x \<and> \<not> px_published x)"

lemma voided_response: "voided x \<Longrightarrow> voided (snd (ptp_peer_response x r t now))"
proof -
  assume v: "voided x"
  obtain res x' where e: "ptp_peer_response x r t now = (res, x')" by force
  have "px_multiple x \<Longrightarrow> px_multiple x'"
    using e by (auto simp: ptp_peer_response_def Let_def split: if_splits)
  then show ?thesis using v response_cases(1,2) [OF e] by (auto simp: voided_def e)
qed

lemma voided_step:
  assumes "voided x" "\<not> is_begin e"
  shows "voided (snd (exchange_step x e)) \<and> fst (exchange_step x e) = None"
  using assms
proof (cases e)
  case (Ev_response r t now)
  then show ?thesis using voided_response [OF assms(1)] by simp
qed (auto simp: voided_def ptp_peer_expire_def ptp_peer_publish_def ptp_peer_cancel_def
        ptp_peer_invalidate_def ptp_peer_abandon_def exchange_zero_def
        ptp_peer_finish_def ptp_peer_take_follow_up_def ptp_peer_matches_def Let_def)

lemma voided_run:
  "voided x \<Longrightarrow> \<not> list_ex is_begin es \<Longrightarrow> fst (exchange_run x es) = [] \<and> voided (snd (exchange_run x es))"
proof (induction es arbitrary: x)
  case (Cons e es)
  then have "voided (snd (exchange_step x e))" "fst (exchange_step x e) = None"
    using voided_step [of x e] by auto
  then show ?case using Cons.IH [of "snd (exchange_step x e)"] Cons.prems by (simp add: split_beta)
qed simp

text \<open>Faults void the exchange: once a response is classed as coming from a second
  responder, as a duplicate or as this clock's own, no measurement is delivered and no retained
  follow-up is replayed until a new request begins, whatever else happens in between.\<close>

theorem fault_voids_exchange:
  assumes "ptp_peer_response x r t now = (res, x')"
    "res \<in> {PTP_PEER_SELF, PTP_PEER_MULTIPLE, PTP_PEER_DUPLICATE}" "\<not> list_ex is_begin es"
  shows "fst (exchange_run x' es) = [] \<and>
    fst (ptp_peer_take_follow_up (snd (exchange_run x' es)) now') = None"
proof -
  have "voided x'" using response_cases(10) [OF assms(1,2)] by (simp add: voided_def)
  then have "fst (exchange_run x' es) = []" "voided (snd (exchange_run x' es))"
    using voided_run assms(3) by blast+
  then show ?thesis by (auto simp: voided_def ptp_peer_take_follow_up_def)
qed

theorem fault_voids_exchange_witness:
  "let x = snd (exchange_run exchange_zero ex_events);
       x' = snd (ptp_peer_response x ex_response \<lparr>tv_sec = 5, tv_nsec = 950\<rparr> 25)
   in fst (exchange_run x' [Ev_finish ex_follow_up 30]) = []"
proof -
  have "fst (ptp_peer_response (snd (exchange_run exchange_zero ex_events)) ex_response
      \<lparr>tv_sec = 5, tv_nsec = 950\<rparr> 25) = PTP_PEER_DUPLICATE"
    by code_simp
  then obtain x' where e: "ptp_peer_response (snd (exchange_run exchange_zero ex_events)) ex_response
      \<lparr>tv_sec = 5, tv_nsec = 950\<rparr> 25 = (PTP_PEER_DUPLICATE, x')"
    by (metis prod.collapse)
  show ?thesis
    using fault_voids_exchange [OF e, of "[Ev_finish ex_follow_up 30]" 0] by (simp add: e Let_def)
qed

section \<open>Losses\<close>

lemma unat_saturating_inc: "unat (saturating_inc n) = min 65535 (unat n + 1)"
proof (cases "n < UINT16_MAX")
  case True
  then have "unat n < 65535" by (simp add: word_less_nat_alt)
  moreover from this have "unat (n + 1) = unat n + 1" by (simp add: unat_word_ariths)
  ultimately show ?thesis using True by (simp add: saturating_inc_def)
next
  case False
  then have "65535 \<le> unat n" by (simp add: word_less_nat_alt)
  moreover have "unat n < 65536" using unsigned_less [of n, where ?'a = nat] by simp
  ultimately show ?thesis using False by (simp add: saturating_inc_def)
qed

text \<open>Every lost response is counted once: for a published request whose deadline passes
  without a measurement, exactly one expiry reports the loss, to the counter of what was missing,
  and later ones report nothing; the count of consecutive losses saturates instead of wrapping,
  is carried over to the next request and is cleared by a measurement.\<close>

theorem loss_counted_once:
  defines "lost \<equiv> \<lambda>e. unat (px_lost_responses e)"
  shows "(fst (ptp_peer_expire x now) \<longleftrightarrow>
      px_published x \<and> \<not> px_consumed x \<and> \<not> px_loss_counted x \<and> px_deadline_us x \<le> now) \<and>
   (\<not> fst (ptp_peer_expire x now) \<longrightarrow> snd (ptp_peer_expire x now) = x) \<and>
   (fst (ptp_peer_expire x now) \<longrightarrow>
      lost (snd (ptp_peer_expire x now)) = min 65535 (lost x + 1) \<and>
      px_missing_response (snd (ptp_peer_expire x now)) + px_missing_follow_up (snd (ptp_peer_expire x now)) =
        px_missing_response x + px_missing_follow_up x + 1 \<and>
      \<not> fst (ptp_peer_expire (snd (ptp_peer_expire x now)) now')) \<and>
   lost (snd (ptp_peer_begin x s h d)) = lost x \<and>
   (fst (ptp_peer_finish x f now) \<noteq> None \<longrightarrow> lost (snd (ptp_peer_finish x f now)) = 0)"
proof -
  have "lost (snd (ptp_peer_finish x f now)) = 0" if "fst (ptp_peer_finish x f now) \<noteq> None"
    using that by (auto simp: lost_def ptp_peer_finish_def Let_def split: if_splits)
  moreover have "lost (snd (ptp_peer_begin x s h d)) = lost x"
    by (simp add: lost_def ptp_peer_begin_def ptp_peer_abandon_def Let_def)
  ultimately show ?thesis
    by (simp add: lost_def ptp_peer_expire_def Let_def unat_saturating_inc not_le [symmetric])
qed

theorem loss_counted_once_witness:
  "let x = snd (exchange_run exchange_zero (take 2 ex_events)) in
     fst (ptp_peer_expire x 1000) \<and> \<not> fst (ptp_peer_expire (snd (ptp_peer_expire x 1000)) 2000)"
proof -
  have "fst (ptp_peer_expire (snd (exchange_run exchange_zero (take 2 ex_events))) 1000)" by code_simp
  then show ?thesis
    using loss_counted_once [of "snd (exchange_run exchange_zero (take 2 ex_events))" 1000 2000]
    by (simp add: Let_def)
qed

section \<open>Completion\<close>

lemma begin_fields:
  "px_generation (snd (ptp_peer_begin x s h d)) = bump32 (px_generation x)"
  "px_lifecycle (snd (ptp_peer_begin x s h d)) = px_lifecycle x"
  "px_sequence (snd (ptp_peer_begin x s h d)) = s"
  "px_requester (snd (ptp_peer_begin x s h d)) = hd_sourceidentity h @ hd_sourceportindex h"
  "px_deadline_us (snd (ptp_peer_begin x s h d)) = d"
  "px_sending (snd (ptp_peer_begin x s h d))" "\<not> px_published (snd (ptp_peer_begin x s h d))"
  "\<not> px_response_seen (snd (ptp_peer_begin x s h d))" "\<not> px_consumed (snd (ptp_peer_begin x s h d))"
  "\<not> px_multiple (snd (ptp_peer_begin x s h d))" "\<not> px_follow_up_pending (snd (ptp_peer_begin x s h d))"
  by (simp_all add: ptp_peer_begin_def ptp_peer_abandon_def ptp_peer_invalidate_def exchange_zero_def Let_def)

text \<open>A response that is accepted, with the fields it sets.\<close>

lemma response_accepted:
  assumes "ptp_get_sequence (dr_header r) = px_sequence x" "response_rejection x r t now = 0"
    "hd_sourceidentity (dr_header r) \<noteq> take 8 (px_requester x)" "\<not> px_response_seen x"
  obtains x' where "ptp_peer_response x r t now = (PTP_PEER_ACCEPTED, x')"
    "px_generation x' = px_generation x" "px_lifecycle x' = px_lifecycle x"
    "px_multiple x' = px_multiple x" "px_follow_up_pending x' = px_follow_up_pending x"
proof (rule that)
  show "ptp_peer_response x r t now = (PTP_PEER_ACCEPTED, (note_response x now)\<lparr>px_response_rejections :=
      or (px_response_rejections (note_response x now)) 0, px_response := r, px_receive := t,
      px_response_seen := True\<rparr>)"
    using assms by (simp add: ptp_peer_response_def Let_def)
qed simp_all

text \<open>Publication and the last follow-up, with the fields they set.\<close>

lemma publish_accepted:
  assumes "px_generation x = g" "px_sending x" "\<not> px_published x" "now < px_deadline_us x" "stamp_ok t"
  shows "snd (ptp_peer_publish x g t now) =
    x\<lparr>px_transmit := t, px_published := True, px_sending := False, px_published_us := now\<rparr>"
  using assms by (simp add: ptp_peer_publish_def stamp_ok_def)

lemma finish_accepted:
  assumes "ptp_peer_matches x (df_header f) (df_reqidentity f) (df_reqportindex f) now"
    "px_response_seen x" "ptp_peer_timestamp_valid (df_origintimestamp f)"
    "same_source (dr_header (px_response x)) (df_header f)" "\<not> px_consumed x" "\<not> px_follow_up_pending x"
    "px_published x"
  shows "fst (ptp_peer_finish x f now) = Some \<lparr>pm_generation = px_generation x, pm_lifecycle = px_lifecycle x,
                  pm_transmit = px_transmit x, pm_receive = px_receive x, pm_response = px_response x\<rparr>"
  using assms by (simp add: ptp_peer_finish_def Let_def ptp_peer_matches_def)

lemma run_one: "fst (exchange_run x [e]) = (case fst (exchange_step x e) of None \<Rightarrow> [] | Some m \<Rightarrow> [m])"
  by (simp add: split_beta split: option.split)

lemma run_quiet:
  "fst (exchange_step x e) = None \<Longrightarrow> fst (exchange_run x (e # es)) = fst (exchange_run (snd (exchange_step x e)) es)"
  by (simp add: split_beta)

text \<open>A well-behaved exchange completes, whichever of the transmit time stamp and the answers
  the host sees first: with the time stamp published before the response and follow-up arrive, or
  with both arriving before it and the follow-up retained and replayed, exactly one measurement is
  delivered, and it pairs this request's transmit time with that response.\<close>

theorem exchange_completes:
  assumes "ptp_get_sequence (dr_header r) = s" "ptp_get_sequence (df_header f) = s"
    "length (hd_sourceidentity h) = 8" "dr_reqidentity r = hd_sourceidentity h"
    "dr_reqportindex r = hd_sourceportindex h" "df_reqidentity f = hd_sourceidentity h"
    "df_reqportindex f = hd_sourceportindex h" "same_source (dr_header r) (df_header f)"
    "hd_sourceidentity (dr_header r) \<noteq> hd_sourceidentity h"
    "stamp_ok t1" "stamp_ok t4" "ptp_peer_timestamp_valid (dr_receivetimestamp r)"
    "ptp_peer_timestamp_valid (df_origintimestamp f)" "n1 < d" "n2 < d" "n3 < d" "n4 < d"
    "g = bump32 (px_generation x)"
  defines "m \<equiv> \<lparr>pm_generation = g, pm_lifecycle = px_lifecycle x, pm_transmit = t1, pm_receive = t4,
                 pm_response = r\<rparr>"
  shows "fst (exchange_run x [Ev_begin s h d, Ev_publish g t1 n1, Ev_response r t4 n2, Ev_finish f n3]) = [m] \<and>
    fst (exchange_run x [Ev_begin s h d, Ev_response r t4 n1, Ev_finish f n2, Ev_publish g t1 n3,
                         Ev_take n3, Ev_finish f n4]) = [m]"
proof
  define x1 where "x1 = snd (ptp_peer_begin x s h d)"
  note b = begin_fields [of x s h d, folded x1_def]
  define x2 where "x2 = snd (ptp_peer_publish x1 g t1 n1)"
  have x2: "x2 = x1\<lparr>px_transmit := t1, px_published := True, px_sending := False, px_published_us := n1\<rparr>"
    unfolding x2_def using b assms by (intro publish_accepted) simp_all
  have r2: "response_rejection x2 r t4 n2 = 0"
    using b x2 assms by (simp add: response_rejection_0)
  obtain x3 where x3: "ptp_peer_response x2 r t4 n2 = (PTP_PEER_ACCEPTED, x3)"
    "px_generation x3 = px_generation x2" "px_lifecycle x3 = px_lifecycle x2"
    "px_multiple x3 = px_multiple x2" "px_follow_up_pending x3 = px_follow_up_pending x2"
    using b x2 assms by (auto intro: response_accepted [OF _ r2])
  note c3 = response_cases [OF x3(1)]
  have "fst (ptp_peer_finish x3 f n3) = Some m"
    using b x2 x3 c3(1-7) c3(9) assms by (subst finish_accepted) (simp_all add: ptp_peer_matches_def m_def)
  then show "fst (exchange_run x [Ev_begin s h d, Ev_publish g t1 n1, Ev_response r t4 n2, Ev_finish f n3]) = [m]"
    by (simp add: run_quiet run_one x1_def [symmetric] x2_def [symmetric] x3 del: exchange_run.simps)
next
  define x1 where "x1 = snd (ptp_peer_begin x s h d)"
  note b = begin_fields [of x s h d, folded x1_def]
  have r1: "response_rejection x1 r t4 n1 = 0" using b assms by (simp add: response_rejection_0)
  obtain x2 where x2: "ptp_peer_response x1 r t4 n1 = (PTP_PEER_ACCEPTED, x2)"
    "px_generation x2 = px_generation x1" "px_lifecycle x2 = px_lifecycle x1"
    "px_multiple x2 = px_multiple x1" "px_follow_up_pending x2 = px_follow_up_pending x1"
    using b assms by (auto intro: response_accepted [OF _ r1])
  note c2 = response_cases [OF x2(1)]
  define n where "n = note_follow_up x2 f n2"
  define x3 where "x3 = n\<lparr>px_pending_follow_up := f, px_follow_up_pending := True\<rparr>"
  have f2: "ptp_peer_finish x2 f n2 = (None, x3)"
    using b x2 c2(1-7) c2(9) assms
    by (simp add: ptp_peer_finish_def Let_def ptp_peer_matches_def x3_def n_def)
  define x4 where "x4 = snd (ptp_peer_publish x3 g t1 n3)"
  have x4: "x4 = x3\<lparr>px_transmit := t1, px_published := True, px_sending := False, px_published_us := n3\<rparr>"
    unfolding x4_def using b x2 c2(1-7) assms by (intro publish_accepted) (simp_all add: x3_def n_def)
  define x5 where "x5 = snd (ptp_peer_take_follow_up x4 n3)"
  have x5: "x5 = x4\<lparr>px_follow_up_pending := False\<rparr>"
    unfolding x5_def using b x2 c2(1-7) assms by (simp add: ptp_peer_take_follow_up_def x4 x3_def n_def)
  have "fst (ptp_peer_finish x5 f n4) = Some m"
    using b x2 c2(1-7) c2(9) assms
    by (subst finish_accepted) (simp_all add: ptp_peer_matches_def m_def x5 x4 x3_def n_def)
  then show "fst (exchange_run x [Ev_begin s h d, Ev_response r t4 n1, Ev_finish f n2, Ev_publish g t1 n3,
                         Ev_take n3, Ev_finish f n4]) = [m]"
    by (simp add: run_quiet run_one f2 x1_def [symmetric] x2(1) x4_def [symmetric] x5_def [symmetric]
        del: exchange_run.simps)
qed

theorem exchange_completes_witness:
  "fst (exchange_run exchange_zero [Ev_begin 7 (ex_header 1) 1000,
      Ev_response ex_response \<lparr>tv_sec = 5, tv_nsec = 900\<rparr> 10, Ev_finish ex_follow_up 20,
      Ev_publish 1 \<lparr>tv_sec = 5, tv_nsec = 6\<rparr> 30, Ev_take 30, Ev_finish ex_follow_up 31]) =
   [\<lparr>pm_generation = 1, pm_lifecycle = 0, pm_transmit = \<lparr>tv_sec = 5, tv_nsec = 6\<rparr>,
     pm_receive = \<lparr>tv_sec = 5, tv_nsec = 900\<rparr>, pm_response = ex_response\<rparr>]"
proof -
  have "ptp_get_sequence (dr_header ex_response) = 7" "ptp_get_sequence (df_header ex_follow_up) = 7"
    "ptp_peer_timestamp_valid (dr_receivetimestamp ex_response)"
    "ptp_peer_timestamp_valid (df_origintimestamp ex_follow_up)"
    "hd_sourceidentity (dr_header ex_response) \<noteq> hd_sourceidentity (ex_header 1)"
    by code_simp+
  then show ?thesis
    using exchange_completes [of ex_response 7 ex_follow_up "ex_header 1" "\<lparr>tv_sec = 5, tv_nsec = 6\<rparr>"
        "\<lparr>tv_sec = 5, tv_nsec = 900\<rparr>" 10 1000 20 30 31 1 exchange_zero]
    by (simp add: ex_response_def ex_follow_up_def ex_header_def same_source_def stamp_ok_def
        exchange_zero_def bump32_def del: exchange_run.simps)
qed

end
