(* ===== verification/Ptp_Ftm.thy ===== *)
theory Ptp_Ftm
  imports Ptp_Receipt
begin

text \<open>
  Bookkeeping of fine timing measurement on a wireless station: \<^verbatim>\<open>ptp_ftm_session.h\<close> (one
  outstanding session), \<^verbatim>\<open>ptp_ftm_counter.h\<close> (continuity of the 48-bit radio counter),
  \<^verbatim>\<open>ptp_ftm_rtt.h\<close>, \<^verbatim>\<open>ptp_ftm_success.h\<close> (success over the last ten seconds) and the finite
  diagnostic of \<^verbatim>\<open>ptp_source_loss_probe.h\<close>.
\<close>

section \<open>Sessions\<close>

record ptp_ftm_session =
  fs_pending :: bool
  fs_valid :: bool
  fs_peer :: bytes

definition session_zero :: ptp_ftm_session where
  "session_zero = \<lparr>fs_pending = False, fs_valid = False, fs_peer = replicate 6 0\<rparr>"

definition ptp_ftm_session_begin :: "ptp_ftm_session \<Rightarrow> bytes \<Rightarrow> bool \<times> ptp_ftm_session" where
  "ptp_ftm_session_begin s peer =
     (if fs_pending s then (False, s)
      else (True, s\<lparr>fs_pending := True, fs_valid := True, fs_peer := peer\<rparr>))"

definition ptp_ftm_session_invalidate :: "ptp_ftm_session \<Rightarrow> ptp_ftm_session" where
  "ptp_ftm_session_invalidate s = s\<lparr>fs_valid := False\<rparr>"

definition ptp_ftm_session_finish :: "ptp_ftm_session \<Rightarrow> bytes \<Rightarrow> bool \<Rightarrow> bool \<times> ptp_ftm_session" where
  "ptp_ftm_session_finish s peer connected =
     (fs_pending s \<and> fs_valid s \<and> connected \<and> fs_peer s = peer,
      s\<lparr>fs_pending := False, fs_valid := False\<rparr>)"

section \<open>The radio's counter and round trips\<close>

definition ptp_ftm_counter_backward :: "u64 \<Rightarrow> u64 \<Rightarrow> bool" where
  "ptp_ftm_counter_backward previous current =
     (let period = push_bit 48 1; tolerance = 1000000000000 in
      if previous \<ge> period \<or> current \<ge> period then False
      else
        let forward = and (current - previous) (period - 1)
        in forward > period div 2 \<and> period - forward > tolerance)"

definition ptp_ftm_rtt_positive :: "u32 \<Rightarrow> bool" where
  "ptp_ftm_rtt_positive rtt_ps \<longleftrightarrow> rtt_ps > 0 \<and> rtt_ps \<le> 2147483647"

section \<open>Success over ten seconds\<close>

abbreviation PTP_FTM_SUCCESS_SECONDS :: nat where "PTP_FTM_SUCCESS_SECONDS \<equiv> 10"

record ptp_ftm_success =
  su_second :: "int list"
  su_attempts :: "u16 list"
  su_valid :: "u16 list"

definition success_zero :: ptp_ftm_success where
  "success_zero = \<lparr>su_second = replicate 10 0, su_attempts = replicate 10 0, su_valid = replicate 10 0\<rparr>"

text \<open>The time is \<^verbatim>\<open>esp_timer_get_time()\<close>, which is not negative.\<close>

definition ptp_ftm_success_record :: "ptp_ftm_success \<Rightarrow> int \<Rightarrow> bool \<Rightarrow> ptp_ftm_success" where
  "ptp_ftm_success_record window now_us valid =
     (let second = now_us sdiv 1000000;
          slot = nat (second smod 10);
          window = (if su_second window ! slot \<noteq> second
                    then window\<lparr>su_second := (su_second window)[slot := second],
                                su_attempts := (su_attempts window)[slot := 0],
                                su_valid := (su_valid window)[slot := 0]\<rparr>
                    else window)
      in if su_attempts window ! slot = UINT16_MAX then window
         else window\<lparr>su_attempts := (su_attempts window)[slot := su_attempts window ! slot + 1],
                     su_valid := (if valid then (su_valid window)[slot := su_valid window ! slot + 1]
                                  else su_valid window)\<rparr>)"

text \<open>The slots a percentage looks at, and the totals over them.\<close>

definition success_slots :: "ptp_ftm_success \<Rightarrow> int \<Rightarrow> nat list" where
  "success_slots window second =
     filter (\<lambda>slot. 0 \<le> second - su_second window ! slot \<and> second - su_second window ! slot < 10) [0..<10]"

definition success_total :: "u16 list \<Rightarrow> nat list \<Rightarrow> nat" where
  "success_total counts slots = sum_list (map (\<lambda>slot. unat (counts ! slot)) slots)"

text \<open>The percentage, or \<^verbatim>\<open>0xFF\<close> when nothing was attempted.  The totals are at most ten times
  65535, so the 32-bit arithmetic of the code does not wrap.\<close>

definition ptp_ftm_success_percent :: "ptp_ftm_success \<Rightarrow> int \<Rightarrow> nat" where
  "ptp_ftm_success_percent window now_us =
     (let slots = success_slots window (now_us sdiv 1000000);
          attempts = success_total (su_attempts window) slots;
          valid = success_total (su_valid window) slots
      in if attempts = 0 then 255 else (valid * 100 + attempts div 2) div attempts)"

section \<open>The source loss probe\<close>

record ptp_source_loss_probe =
  lp_started :: bool
  lp_start_us :: int
  lp_phase :: nat
  lp_dropped :: "nat list"

text \<open>\<open>announce_seconds\<close> is \<^verbatim>\<open>CONFIG_ESP_PTP_SOURCE_LOSS_ANNOUNCE_SECONDS\<close>.\<close>

definition probe_phase :: "int \<Rightarrow> int \<Rightarrow> nat" where
  "probe_phase announce_seconds elapsed =
     (let restore = 30000000 + announce_seconds * 1000000 in
      if elapsed < 30000000 then 0 else if elapsed < restore then 1
      else if elapsed < restore + 12000000 then 2
      else if elapsed < restore + 16000000 then 3 else 4)"

definition ptp_source_loss_probe_tick ::
    "int \<Rightarrow> ptp_source_loss_probe \<Rightarrow> int \<Rightarrow> bool \<Rightarrow> bool \<times> ptp_source_loss_probe" where
  "ptp_source_loss_probe_tick announce_seconds probe now_us ready =
     (if \<not> lp_started probe then
        if \<not> ready \<or> now_us < 0 then (False, probe)
        else (True, probe\<lparr>lp_started := True, lp_start_us := now_us, lp_phase := 0\<rparr>)
      else if now_us < lp_start_us probe then (False, probe)
      else
        let phase = probe_phase announce_seconds (now_us - lp_start_us probe)
        in if phase = lp_phase probe then (False, probe) else (True, probe\<lparr>lp_phase := phase\<rparr>))"

definition ptp_source_loss_probe_drop ::
    "ptp_source_loss_probe \<Rightarrow> nat \<Rightarrow> bool \<times> ptp_source_loss_probe" where
  "ptp_source_loss_probe_drop probe message_type =
     (let drop = lp_started probe \<and>
            ((lp_phase probe = 1 \<and> message_type = 11) \<or>
             (lp_phase probe = 3 \<and> (message_type = 0 \<or> message_type = 8)))
      in (drop, if drop then probe\<lparr>lp_dropped :=
                   (lp_dropped probe)[lp_phase probe := lp_dropped probe ! lp_phase probe + 1]\<rparr>
                else probe))"

section \<open>Counter continuity\<close>

lemma counter_forward:
  assumes "p < 281474976710656" "c < 281474976710656"
  shows "uint (and (word_of_int c - word_of_int p :: u64) (push_bit 48 1 - 1)) = (c - p) mod 281474976710656"
proof -
  have m: "push_bit 48 1 - 1 = (mask 48 :: u64)" by (simp add: mask_eq_exp_minus_1 push_bit_eq_mult)
  define w where "w = (word_of_int (c - p) :: u64)"
  have w: "word_of_int c - word_of_int p = w" by (simp add: w_def)
  have "uint (and w (mask 48)) = uint w mod 281474976710656"
    by (simp add: uint_mod take_bit_eq_mod flip: take_bit_eq_mask)
  also have "uint w = (c - p) mod 18446744073709551616"
    unfolding w_def by (simp only: uint_word_of_int) simp
  also have "(c - p) mod 18446744073709551616 mod 281474976710656 = (c - p) mod 281474976710656"
    by (rule mod_mod_cancel) (simp add: dvd_def)
  finally show ?thesis unfolding w m .
qed

text \<open>The continuity test of the 48-bit radio counter tells direction across its wrap: any
  advance of up to half the period is never reported, any retreat of more than the tolerance
  (and less than half the period) always is, and a retreat within the tolerance is not.\<close>

theorem counter_backward_iff:
  assumes "0 \<le> p" "p < 2 ^ 48" "- (2 ^ 47) < d" "d \<le> 2 ^ 47"
  shows "ptp_ftm_counter_backward (word_of_int p) (word_of_int ((p + d) mod 2 ^ 48)) \<longleftrightarrow> d < - 1000000000000"
proof -
  define c where "c = (p + d) mod 2 ^ 48"
  have c: "0 \<le> c" "c < 2 ^ 48" by (simp_all add: c_def)
  have u: "uint (word_of_int p :: u64) = p" "uint (word_of_int c :: u64) = c"
    using assms c by (simp_all add: uint_word_of_int mod_pos_pos_trivial)
  have per: "uint (push_bit 48 1 :: u64) = 281474976710656" "uint (push_bit 48 1 div 2 :: u64) = 140737488355328"
    by (simp_all add: push_bit_eq_mult uint_div)
  define f where "f = and (word_of_int c - word_of_int p :: u64) (push_bit 48 1 - 1)"
  have f: "uint f = d mod 281474976710656"
  proof -
    have "uint f = (c - p) mod 281474976710656"
      unfolding f_def using assms(2) c(2) by (intro counter_forward) simp_all
    also have "\<dots> = (p + d - p) mod 281474976710656" by (simp add: c_def mod_diff_left_eq)
    finally show ?thesis by simp
  qed
  have "uint f \<le> uint (push_bit 48 1 :: u64)" unfolding f per by (simp add: less_imp_le)
  then have sub: "uint (push_bit 48 1 - f) = 281474976710656 - uint f"
    using per(1) by (simp add: uint_sub_if_size)
  have "ptp_ftm_counter_backward (word_of_int p) (word_of_int c) \<longleftrightarrow>
      140737488355328 < uint f \<and> 1000000000000 < 281474976710656 - uint f"
    using assms(2) c(2) u per sub
    by (simp add: ptp_ftm_counter_backward_def Let_def word_less_def word_le_def f_def)
  also have "\<dots> \<longleftrightarrow> d < - 1000000000000"
  proof (cases "0 \<le> d")
    case True
    then have "uint f = d" using assms(4) f by (simp add: mod_pos_pos_trivial)
    then show ?thesis using True assms(4) by simp
  next
    case False
    have "d mod 281474976710656 = (d + 281474976710656) mod 281474976710656" by simp
    also have "\<dots> = d + 281474976710656" using False assms(3) by (intro mod_pos_pos_trivial) simp_all
    finally show ?thesis using f assms(3) by auto
  qed
  finally show ?thesis by (simp add: c_def)
qed

theorem counter_backward_iff_witness:
  "\<not> ptp_ftm_counter_backward (word_of_int (2 ^ 48 - 1)) (word_of_int ((2 ^ 48 - 1 + 5) mod 2 ^ 48))"
  using counter_backward_iff [of "2 ^ 48 - 1" 5] by simp

text \<open>A measurement report is accepted only for the session in flight: after a session with
  an access point is begun, no second one begins before it finishes, and its report is accepted
  exactly when the link to that same access point still stands and nothing invalidated the
  session meanwhile; a report is consumed by the attempt, so a repeated one is refused.\<close>

theorem ftm_session_once:
  fixes dropped :: bool
  assumes "ptp_ftm_session_begin s peer = (True, s1)"
  defines "s2 \<equiv> (if dropped then ptp_ftm_session_invalidate s1 else s1)"
  shows "ptp_ftm_session_begin s2 other = (False, s2) \<and>
    fst (ptp_ftm_session_finish s2 reporter connected) = (\<not> dropped \<and> connected \<and> reporter = peer) \<and>
    \<not> fst (ptp_ftm_session_finish (snd (ptp_ftm_session_finish s2 reporter connected)) reporter' connected') \<and>
    fst (ptp_ftm_session_begin (snd (ptp_ftm_session_finish s2 reporter connected)) other)"
  using assms
  by (auto simp: ptp_ftm_session_begin_def ptp_ftm_session_finish_def ptp_ftm_session_invalidate_def
      split: if_splits)

theorem ftm_session_once_witness:
  "let s1 = snd (ptp_ftm_session_begin session_zero [2,0,0,0,0,1]) in
     fst (ptp_ftm_session_finish s1 [2,0,0,0,0,1] True) \<and>
     \<not> fst (ptp_ftm_session_finish (ptp_ftm_session_invalidate s1) [2,0,0,0,0,1] True)"
proof -
  have b: "ptp_ftm_session_begin session_zero [2,0,0,0,0,1] =
      (True, snd (ptp_ftm_session_begin session_zero [2,0,0,0,0,1]))"
    by (simp add: ptp_ftm_session_begin_def session_zero_def)
  show ?thesis
    using ftm_session_once [OF b, where dropped = False and reporter = "[2,0,0,0,0,1]" and connected = True]
      ftm_session_once [OF b, where dropped = True and reporter = "[2,0,0,0,0,1]" and connected = True]
    by (simp add: Let_def)
qed

end
