(* ===== verification/Ptp_Peer_Rate.thy ===== *)
theory Ptp_Peer_Rate
  imports Ptp_Wire "HOL-Library.Log_Nat"
begin

text \<open>
  \<^verbatim>\<open>ptp_peer_rate.h\<close>: the rate of the peer's clock against ours, measured between two completed
  exchanges, and the link delay computed with it.

  A C \<open>double\<close> is the rational it denotes.  Every arithmetic operation is the exact one
  followed by \<open>rnd\<close>, the rounding of binary64: to 53 significant bits, to nearest, ties to
  even.  The magnitudes of this file lie between \<open>2 ^ -70\<close> and \<open>2 ^ 70\<close> (integers of 64 bits,
  multiples of \<open>2 ^ -16\<close>, quotients of those by a number close to one or below \<open>2 ^ 34\<close>), so
  neither overflow nor subnormal numbers occur and \<open>isfinite\<close> is true: no divisor is zero.
\<close>

section \<open>Rounding to binary64\<close>

definition ilog2 :: "rat \<Rightarrow> int" where
  "ilog2 x = (let (p, q) = quotient_of \<bar>x\<bar>; d = bitlen p - bitlen q
              in if 2 powi d \<le> \<bar>x\<bar> then d else d - 1)"

definition round_even :: "rat \<Rightarrow> int" where
  "round_even x = (let f = \<lfloor>x\<rfloor>; r = x - of_int f in
     if r < 1 / 2 then f else if r > 1 / 2 then f + 1 else if even f then f else f + 1)"

definition rnd :: "rat \<Rightarrow> rat" where
  "rnd x = (if x = 0 then 0
            else let e = ilog2 x - 52 in of_int (round_even (x / 2 powi e)) * 2 powi e)"

text \<open>\<open>llround\<close>: to the nearest integer, halves away from zero.\<close>

definition llround :: "rat \<Rightarrow> int" where
  "llround x = (if x < 0 then - \<lfloor>\<bar>x\<bar> + 1 / 2\<rfloor> else \<lfloor>x + 1 / 2\<rfloor>)"

section \<open>The rate record\<close>

record ptp_peer_rate =
  pr_lifecycle :: u32
  pr_responder :: bytes
  pr_anchored :: bool
  pr_valid :: bool
  pr_reanchor :: bool
  pr_remote_previous :: timespec
  pr_local_previous :: timespec
  pr_correction_previous :: rat
  pr_ratio :: rat
  pr_updates :: u32
  pr_outliers :: u32

definition peer_rate_zero :: ptp_peer_rate where
  "peer_rate_zero = \<lparr>pr_lifecycle = 0, pr_responder = replicate 10 0, pr_anchored = False,
     pr_valid = False, pr_reanchor = False, pr_remote_previous = timespec_zero,
     pr_local_previous = timespec_zero, pr_correction_previous = 0, pr_ratio = 0,
     pr_updates = 0, pr_outliers = 0\<rparr>"

definition PTP_PEER_RATE_OUTLIERS_MAX :: u32 where "PTP_PEER_RATE_OUTLIERS_MAX = 3"

definition ptp_peer_correction :: "bytes \<Rightarrow> rat" where
  "ptp_peer_correction wire = rnd (rnd (of_int (be_sint wire)) / 65536)"

text \<open>None: the function returns false.\<close>

definition ptp_peer_elapsed :: "timespec \<Rightarrow> timespec \<Rightarrow> rat option" where
  "ptp_peer_elapsed current previous =
     (if tv_sec current < tv_sec previous \<or> tv_sec current - tv_sec previous > 10 then None
      else
        let elapsed = rnd (rnd (rnd (rnd (of_int (tv_sec current - tv_sec previous)) * 1000000000)
                                + of_int (tv_nsec current)) - of_int (tv_nsec previous))
        in if elapsed \<ge> 10000000 \<and> elapsed \<le> 10000000000 then Some elapsed else None)"

definition ratio_in_range :: "rat \<Rightarrow> bool" where
  "ratio_in_range ratio \<longleftrightarrow> rnd (999 / 1000) \<le> ratio \<and> ratio \<le> rnd (1001 / 1000)"

text \<open>The previous sample is replaced whatever the outcome.\<close>

definition rate_anchor :: "ptp_peer_rate \<Rightarrow> timespec \<Rightarrow> rat \<Rightarrow> timespec \<Rightarrow> ptp_peer_rate" where
  "rate_anchor rate remote correction local =
     rate\<lparr>pr_remote_previous := remote, pr_local_previous := local,
          pr_correction_previous := correction, pr_anchored := True\<rparr>"

definition rate_for :: "ptp_peer_rate \<Rightarrow> u32 \<Rightarrow> bytes \<Rightarrow> ptp_peer_rate" where
  "rate_for rate lifecycle responder =
     (if pr_lifecycle rate \<noteq> lifecycle \<or> pr_responder rate \<noteq> responder
      then peer_rate_zero\<lparr>pr_lifecycle := lifecycle, pr_responder := responder\<rparr> else rate)"

definition interval_ratio :: "ptp_peer_rate \<Rightarrow> timespec \<Rightarrow> rat \<Rightarrow> rat \<Rightarrow> rat option" where
  "interval_ratio rate remote correction local_elapsed =
     (case ptp_peer_elapsed remote (pr_remote_previous rate) of
        None \<Rightarrow> None
      | Some remote_elapsed \<Rightarrow>
          let ratio = rnd (rnd (rnd (remote_elapsed + correction) - pr_correction_previous rate)
                           / local_elapsed)
          in if ratio_in_range ratio then Some ratio else None)"

definition ptp_peer_rate_update ::
  "ptp_peer_rate \<Rightarrow> u32 \<Rightarrow> bytes \<Rightarrow> timespec \<Rightarrow> rat \<Rightarrow> timespec \<Rightarrow> bool \<times> ptp_peer_rate" where
  "ptp_peer_rate_update rate0 lifecycle responder remote correction local =
     (let rate = rate_for rate0 lifecycle responder in
      if pr_reanchor rate then
        (pr_valid rate, rate_anchor (rate\<lparr>pr_reanchor := False\<rparr>) remote correction local)
      else
        let local_elapsed =
              (if pr_anchored rate then ptp_peer_elapsed local (pr_local_previous rate) else None);
            ratio = (case local_elapsed of None \<Rightarrow> None
                     | Some e \<Rightarrow> interval_ratio rate remote correction e);
            rate = rate_anchor rate remote correction local
        in if ratio = None \<and> local_elapsed \<noteq> None \<and> pr_valid rate \<and>
              pr_outliers rate < PTP_PEER_RATE_OUTLIERS_MAX
           then (True, rate\<lparr>pr_outliers := pr_outliers rate + 1\<rparr>)
           else
             (case ratio of
                None \<Rightarrow> (False, rate\<lparr>pr_outliers := 0, pr_valid := False, pr_ratio := 0\<rparr>)
              | Some r \<Rightarrow> (True, rate\<lparr>pr_outliers := 0, pr_valid := True, pr_ratio := r,
                                       pr_updates := pr_updates rate + 1\<rparr>)))"

definition ptp_peer_delay_local :: "rat \<Rightarrow> int \<Rightarrow> int \<Rightarrow> rat \<Rightarrow> rat \<Rightarrow> rat option" where
  "ptp_peer_delay_local ratio roundtrip reflection response_correction follow_correction =
     (if \<not> ratio_in_range ratio \<or> roundtrip < 0 \<or> roundtrip > 1000000000 \<or>
         reflection < 0 \<or> reflection > 1000000000 then None
      else
        let delay = rnd (rnd (rnd (of_int roundtrip) -
                  rnd (rnd (rnd (rnd (of_int reflection) + follow_correction) - response_correction)
                       / ratio)) / 2)
        in if delay \<ge> 0 then Some delay else None)"

section \<open>Rounding error\<close>

lemma two_powi_pos [simp]: "0 < (2::rat) powi e"
  by (simp add: zero_less_power_int)

lemma bitlen_pow:
  assumes "0 < p"
  shows "2 powi (bitlen p - 1) \<le> (of_int p :: rat)" "(of_int p :: rat) < 2 powi (bitlen p)"
proof -
  have n: "0 < bitlen p" using assms by (simp add: bitlen_alt_def)
  have b: "2 ^ nat (bitlen p - 1) \<le> p" "p < 2 ^ nat (bitlen p)" using bitlen_bounds [OF assms] by auto
  have "(of_int (2 ^ nat (bitlen p - 1)) :: rat) \<le> of_int p" using b(1) by (subst of_int_le_iff)
  then show "2 powi (bitlen p - 1) \<le> (of_int p :: rat)" using n by (simp add: power_int_def)
  have "(of_int p :: rat) < of_int (2 ^ nat (bitlen p))" using b(2) by (subst of_int_less_iff)
  then show "(of_int p :: rat) < 2 powi (bitlen p)" using n by (simp add: power_int_def)
qed

lemma ilog2_bounds:
  assumes "x \<noteq> 0"
  shows "2 powi ilog2 x \<le> \<bar>x\<bar>" "\<bar>x\<bar> < 2 powi (ilog2 x + 1)"
proof -
  obtain p q where pq: "quotient_of \<bar>x\<bar> = (p, q)" by force
  have q: "0 < q" using quotient_of_denom_pos [OF pq] .
  have x: "\<bar>x\<bar> = of_int p / of_int q" using quotient_of_div [OF pq] .
  have "0 < (of_int p / of_int q :: rat)" using x assms by (metis zero_less_abs_iff)
  with q have p: "0 < p" by (simp add: zero_less_divide_iff)
  define d where "d = bitlen p - bitlen q"
  have hi: "\<bar>x\<bar> < 2 powi (d + 1)"
  proof -
    have "\<bar>x\<bar> < 2 powi bitlen p / 2 powi (bitlen q - 1)"
      unfolding x using p q bitlen_pow [OF p] bitlen_pow [OF q]
      by (intro frac_less) simp_all
    also have "\<dots> = 2 powi (d + 1)" by (simp add: d_def power_int_diff power_int_add)
    finally show ?thesis .
  qed
  have lo: "2 powi (d - 1) \<le> \<bar>x\<bar>"
  proof -
    have "2 powi (bitlen p - 1) / 2 powi bitlen q \<le> \<bar>x\<bar>"
      unfolding x using p q bitlen_pow [OF p] bitlen_pow [OF q]
      by (intro frac_le) simp_all
    moreover have "2 powi (bitlen p - 1) / 2 powi bitlen q = (2 powi (d - 1) :: rat)"
      by (simp add: d_def power_int_diff)
    ultimately show ?thesis by simp
  qed
  show "2 powi ilog2 x \<le> \<bar>x\<bar>" "\<bar>x\<bar> < 2 powi (ilog2 x + 1)"
    using lo hi by (auto simp: ilog2_def pq d_def [symmetric] Let_def)
qed

lemma round_even_error: "\<bar>of_int (round_even x) - x\<bar> \<le> 1 / 2"
proof -
  have "of_int \<lfloor>x\<rfloor> \<le> x" "x < of_int \<lfloor>x\<rfloor> + 1" by linarith+
  then show ?thesis by (simp add: round_even_def Let_def abs_le_iff)
qed

lemma round_even_int [simp]: "round_even (of_int n) = n"
  by (simp add: round_even_def Let_def)

lemma rnd_error: "\<bar>rnd x - x\<bar> \<le> \<bar>x\<bar> / 2 ^ 53"
proof (cases "x = 0")
  case False
  define e where "e = ilog2 x - 52"
  define s where "s = (2::rat) powi e"
  have s: "0 < s" by (simp add: s_def)
  have "rnd x = of_int (round_even (x / s)) * s"
    using False by (simp add: rnd_def e_def s_def Let_def)
  then have "rnd x - x = (of_int (round_even (x / s)) - x / s) * s"
    using s by (simp add: left_diff_distrib)
  then have "\<bar>rnd x - x\<bar> = \<bar>of_int (round_even (x / s)) - x / s\<bar> * s"
    using s by (simp add: abs_mult)
  also have "\<dots> \<le> 1 / 2 * s"
    using s round_even_error by (intro mult_right_mono) auto
  also have "\<dots> \<le> \<bar>x\<bar> / 2 ^ 53"
  proof -
    have "s * 2 ^ 52 = 2 powi ilog2 x"
      by (simp add: s_def e_def power_int_diff)
    then show ?thesis using ilog2_bounds(1) [OF False] by simp
  qed
  finally show ?thesis .
qed (simp add: rnd_def)

lemma rnd_0 [simp]: "rnd 0 = 0"
  by (simp add: rnd_def)

lemma rnd_int_exact:
  assumes "\<bar>n\<bar> < 2 ^ 53"
  shows "rnd (of_int n) = of_int n"
proof (cases "n = 0")
  case False
  define x where "x = (of_int n :: rat)"
  have x: "x \<noteq> 0" "\<bar>x\<bar> = of_int \<bar>n\<bar>" using False by (simp_all add: x_def)
  have "(of_int \<bar>n\<bar> :: rat) < of_int (2 ^ 53)" using assms by (subst of_int_less_iff)
  then have lt: "2 powi ilog2 x < (2 powi 53 :: rat)"
    using ilog2_bounds(1) [OF x(1)] x(2) by (simp add: power_int_def)
  have "ilog2 x < 53"
  proof (rule ccontr)
    assume "\<not> ilog2 x < 53"
    then have "(2::rat) powi 53 \<le> 2 powi ilog2 x" by (intro power_int_increasing) simp_all
    with lt show False by simp
  qed
  then obtain k where k: "ilog2 x - 52 = - int k"
    using that [of "nat (52 - ilog2 x)"] by simp
  have "x / 2 powi (- int k) = of_int (n * 2 ^ k)"
    by (simp add: x_def power_int_minus divide_inverse)
  then have "rnd x = of_int (n * 2 ^ k) * 2 powi (- int k)"
    using x by (simp add: rnd_def k Let_def del: of_int_mult)
  also have "\<dots> = x" by (simp add: x_def power_int_minus)
  finally show ?thesis by (simp add: x_def)
qed simp

lemma rnd_error_below: "\<bar>x\<bar> \<le> b \<Longrightarrow> \<bar>rnd x - x\<bar> \<le> b / 2 ^ 53"
  using rnd_error [of x] by (meson divide_right_mono order_trans zero_le_power zero_le_numeral)

lemma rnd_close: "\<bar>x\<bar> \<le> 2 \<Longrightarrow> \<bar>rnd x - x\<bar> \<le> 1 / 10000"
  using rnd_error_below [of x 2] by simp

lemma ratio_in_range_bounds: "ratio_in_range r \<Longrightarrow> 998 / 1000 < r \<and> r < 1002 / 1000"
  using rnd_close [of "999 / 1000"] rnd_close [of "1001 / 1000"]
  unfolding ratio_in_range_def by linarith

section \<open>Properties\<close>

text \<open>The elapsed time between two normalised time stamps is computed without rounding:
  where the function returns true, the double it stores is the difference in nanoseconds.\<close>

theorem peer_elapsed_exact:
  assumes "0 \<le> tv_nsec current" "tv_nsec current < NSEC_PER_SEC"
    and "0 \<le> tv_nsec previous" "tv_nsec previous < NSEC_PER_SEC"
  shows "ptp_peer_elapsed current previous =
    (let d = timespec_to_ns current - timespec_to_ns previous in
     if tv_sec previous \<le> tv_sec current \<and> tv_sec current - tv_sec previous \<le> 10 \<and>
        10000000 \<le> d \<and> d \<le> 10000000000 then Some (of_int d) else None)"
proof (cases "tv_sec current < tv_sec previous \<or> tv_sec current - tv_sec previous > 10")
  case True
  then show ?thesis by (auto simp: ptp_peer_elapsed_def Let_def)
next
  case False
  define s where "s = tv_sec current - tv_sec previous"
  have s: "0 \<le> s" "s \<le> 10" using False by (simp_all add: s_def)
  have "rnd (rnd (rnd (rnd (of_int s) * 1000000000) + of_int (tv_nsec current))
              - of_int (tv_nsec previous))
      = rnd (rnd (rnd (rnd (of_int s) * of_int 1000000000) + of_int (tv_nsec current))
              - of_int (tv_nsec previous))" by simp
  also have "\<dots> = of_int (s * 1000000000 + tv_nsec current - tv_nsec previous)"
    using s assms
    by (simp add: rnd_int_exact del: of_int_mult of_int_add of_int_diff of_int_numeral
        flip: of_int_mult of_int_add of_int_diff)
  finally have "rnd (rnd (rnd (rnd (of_int s) * 1000000000) + of_int (tv_nsec current))
              - of_int (tv_nsec previous))
      = (of_int (s * 1000000000 + tv_nsec current - tv_nsec previous) :: rat)" .
  moreover have "s * 1000000000 + tv_nsec current - tv_nsec previous
      = timespec_to_ns current - timespec_to_ns previous"
    by (simp add: s_def timespec_to_ns_def algebra_simps)
  moreover have "(10000000 \<le> (of_int d :: rat)) = (10000000 \<le> d)"
    "((of_int d :: rat) \<le> 10000000000) = (d \<le> 10000000000)" for d :: int
    using of_int_le_iff [of 10000000 d, where 'a = rat] of_int_le_iff [of d 10000000000, where 'a = rat]
    by simp_all
  ultimately show ?thesis
    using False by (simp add: ptp_peer_elapsed_def Let_def s_def)
qed

theorem peer_elapsed_exact_witness:
  "ptp_peer_elapsed \<lparr>tv_sec = 12, tv_nsec = 5\<rparr> \<lparr>tv_sec = 11, tv_nsec = 900000000\<rparr> = Some 100000005"
  using peer_elapsed_exact [of "\<lparr>tv_sec = 12, tv_nsec = 5\<rparr>" "\<lparr>tv_sec = 11, tv_nsec = 900000000\<rparr>"]
  by (simp add: timespec_to_ns_def)

text \<open>What the record promises between updates.\<close>

definition rate_inv :: "ptp_peer_rate \<Rightarrow> bool" where
  "rate_inv r \<longleftrightarrow> (pr_valid r \<longrightarrow> ratio_in_range (pr_ratio r)) \<and> pr_outliers r \<le> 3 \<and>
     (pr_outliers r \<noteq> 0 \<longrightarrow> pr_valid r)"

lemma rate_inv_for: "rate_inv r \<Longrightarrow> rate_inv (rate_for r l w)"
  by (simp add: rate_for_def rate_inv_def peer_rate_zero_def)

lemma interval_ratio_range: "interval_ratio r rem c e = Some q \<Longrightarrow> ratio_in_range q"
  by (auto simp: interval_ratio_def Let_def split: option.splits if_splits)

lemma u32_succ_le3: "(n::u32) < 3 \<Longrightarrow> n + 1 \<le> 3 \<and> n + 1 \<noteq> 0 \<and> uint (n + 1) = uint n + 1"
proof -
  assume "n < 3"
  then have "uint n < 3" by (simp add: word_less_def)
  then have "uint (n + 1) = uint n + 1" by (simp add: uint_word_ariths)
  moreover have "uint n + 1 \<noteq> 0" using uint_nonnegative [of n] by linarith
  ultimately show ?thesis
    using \<open>uint n < 3\<close> by (simp add: word_le_def word_uint_eq_iff)
qed

text \<open>The rate is reported usable exactly when the record holds a ratio, that ratio is
  within the 1000 ppm the code admits, and a failed interval is tolerated at most three times in
  a row: each tolerated failure is counted, and the fourth voids the ratio.\<close>

theorem peer_rate_sound:
  assumes "rate_inv rate" "ptp_peer_rate_update rate lifecycle responder remote correction local = (ok, rate')"
  shows "rate_inv rate' \<and> ok = pr_valid rate' \<and>
    (ok \<longrightarrow> 998 / 1000 < pr_ratio rate' \<and> pr_ratio rate' < 1002 / 1000) \<and>
    (ok \<and> \<not> pr_reanchor (rate_for rate lifecycle responder) \<and>
       pr_updates rate' = pr_updates (rate_for rate lifecycle responder) \<longrightarrow>
       uint (pr_outliers rate') = uint (pr_outliers (rate_for rate lifecycle responder)) + 1)"
proof -
  define r where "r = rate_for rate lifecycle responder"
  have inv: "rate_inv r" using assms(1) by (simp add: r_def rate_inv_for)
  have "rate_inv rate' \<and> ok = pr_valid rate' \<and>
      (ok \<and> \<not> pr_reanchor r \<and> pr_updates rate' = pr_updates r \<longrightarrow>
       uint (pr_outliers rate') = uint (pr_outliers r) + 1)"
    using assms(2) inv
    by (auto simp: ptp_peer_rate_update_def r_def [symmetric] Let_def rate_anchor_def rate_inv_def
        PTP_PEER_RATE_OUTLIERS_MAX_def dest: interval_ratio_range u32_succ_le3
        split: if_splits option.splits)
  then show ?thesis
    using ratio_in_range_bounds by (auto simp: r_def rate_inv_def)
qed

definition rate_example :: ptp_peer_rate where
  "rate_example = peer_rate_zero\<lparr>pr_anchored := True, pr_valid := True, pr_ratio := 1,
     pr_remote_previous := \<lparr>tv_sec = 5, tv_nsec = 0\<rparr>, pr_local_previous := \<lparr>tv_sec = 9, tv_nsec = 0\<rparr>\<rparr>"

lemma rate_example_update:
  "ptp_peer_rate_update rate_example 0 (replicate 10 0) \<lparr>tv_sec = 4, tv_nsec = 0\<rparr> 0
     \<lparr>tv_sec = 10, tv_nsec = 0\<rparr> =
   (True, rate_example\<lparr>pr_remote_previous := \<lparr>tv_sec = 4, tv_nsec = 0\<rparr>,
      pr_local_previous := \<lparr>tv_sec = 10, tv_nsec = 0\<rparr>, pr_outliers := 1\<rparr>)"
  by code_simp

theorem peer_rate_sound_witness:
  "pr_outliers (snd (ptp_peer_rate_update rate_example 0 (replicate 10 0) \<lparr>tv_sec = 4, tv_nsec = 0\<rparr> 0
     \<lparr>tv_sec = 10, tv_nsec = 0\<rparr>)) = 1 \<and> rate_inv (rate_example\<lparr>pr_remote_previous := \<lparr>tv_sec = 4, tv_nsec = 0\<rparr>,
      pr_local_previous := \<lparr>tv_sec = 10, tv_nsec = 0\<rparr>, pr_outliers := 1\<rparr>)"
proof -
  have "rate_inv rate_example" by code_simp
  from peer_rate_sound [OF this rate_example_update] show ?thesis
    by (simp add: rate_example_update)
qed

text \<open>One rounding step in a chain of them.\<close>

lemma rnd_step: "\<bar>x - y\<bar> \<le> d \<Longrightarrow> \<bar>x\<bar> \<le> 17179869184 \<Longrightarrow> \<bar>rnd x - y\<bar> \<le> d + 2 / 1000000"
proof -
  assume d: "\<bar>x - y\<bar> \<le> d" and "\<bar>x\<bar> \<le> 17179869184"
  then have "\<bar>rnd x - x\<bar> \<le> 17179869184 / 2 ^ 53" by (intro rnd_error_below)
  also have "\<dots> \<le> (2 / 1000000 :: rat)" by simp
  finally show ?thesis using d by linarith
qed

lemma div_step:
  fixes x y r :: rat
  assumes "998 / 1000 < r" "\<bar>x - y\<bar> \<le> d"
  shows "\<bar>x / r - y / r\<bar> \<le> 2 * d" "\<bar>x\<bar> \<le> b \<Longrightarrow> \<bar>x / r\<bar> \<le> 2 * b"
proof -
  have r: "0 < r" "1 \<le> 2 * r" using assms(1) by auto
  have key: "\<bar>z\<bar> \<le> c \<Longrightarrow> \<bar>z / r\<bar> \<le> 2 * c" for z c :: rat
  proof -
    assume z: "\<bar>z\<bar> \<le> c"
    then have "0 \<le> c" by linarith
    then have "c * 1 \<le> c * (2 * r)" using r by (intro mult_left_mono)
    with z have "\<bar>z\<bar> \<le> 2 * c * r" by (simp add: mult.assoc mult.left_commute)
    with r show ?thesis by (simp add: abs_divide pos_divide_le_eq)
  qed
  show "\<bar>x / r - y / r\<bar> \<le> 2 * d" using key [OF assms(2)] by (simp add: diff_divide_distrib)
  show "\<bar>x\<bar> \<le> b \<Longrightarrow> \<bar>x / r\<bar> \<le> 2 * b" by (rule key)
qed

text \<open>C36. The computed link delay is not negative and lies within a hundred-thousandth of a
  nanosecond of the exact value of the formula: half of the round trip less the reflection,
  which the corrections amend and the rate ratio converts to local units.\<close>

theorem peer_delay_accurate:
  assumes "ptp_peer_delay_local ratio roundtrip reflection response_correction follow_correction = Some delay"
    and "\<bar>response_correction\<bar> \<le> 2 ^ 31" "\<bar>follow_correction\<bar> \<le> 2 ^ 31"
  shows "0 \<le> delay \<and>
    \<bar>delay - (of_int roundtrip - (of_int reflection + follow_correction - response_correction) / ratio) / 2\<bar>
      \<le> 1 / 100000"
proof -
  define rt rf where "rt = (of_int roundtrip :: rat)" and "rf = (of_int reflection :: rat)"
  have bounds: "ratio_in_range ratio" "0 \<le> roundtrip" "roundtrip \<le> 1000000000"
    "0 \<le> reflection" "reflection \<le> 1000000000"
    using assms(1) by (auto simp: ptp_peer_delay_local_def Let_def split: if_splits)
  have ex: "rnd rt = rt" "rnd rf = rf" using bounds by (auto simp: rt_def rf_def intro!: rnd_int_exact)
  have rng: "\<bar>rt\<bar> \<le> 2 ^ 31" "\<bar>rf\<bar> \<le> 2 ^ 31"
  proof -
    have "\<bar>roundtrip\<bar> \<le> 2 ^ 31" "\<bar>reflection\<bar> \<le> 2 ^ 31" using bounds by auto
    then have "(of_int \<bar>roundtrip\<bar> :: rat) \<le> of_int (2 ^ 31)" "(of_int \<bar>reflection\<bar> :: rat) \<le> of_int (2 ^ 31)"
      by (simp_all only: of_int_le_iff)
    then show "\<bar>rt\<bar> \<le> 2 ^ 31" "\<bar>rf\<bar> \<le> 2 ^ 31" by (simp_all add: rt_def rf_def)
  qed
  have ratio: "998 / 1000 < ratio" using ratio_in_range_bounds bounds by blast
  define a where "a = rnd (rf + follow_correction)"
  define b where "b = rnd (a - response_correction)"
  define c where "c = rnd (b / ratio)"
  define d where "d = rnd (rt - c)"
  define q where "q = (rf + follow_correction - response_correction) / ratio"
  have delay: "delay = rnd (d / 2)" "0 \<le> delay"
    using assms(1) by (auto simp: ptp_peer_delay_local_def Let_def rt_def [symmetric] rf_def [symmetric] ex
        a_def b_def c_def d_def split: if_splits)
  have num: "\<bar>rt\<bar> \<le> 2147483648" "\<bar>rf\<bar> \<le> 2147483648" "\<bar>response_correction\<bar> \<le> 2147483648"
    "\<bar>follow_correction\<bar> \<le> 2147483648" using rng assms(2,3) by simp_all
  have ea: "\<bar>a - (rf + follow_correction)\<bar> \<le> 0 + 2 / 1000000"
    unfolding a_def using num by (intro rnd_step) linarith+
  have eb: "\<bar>b - (rf + follow_correction - response_correction)\<bar> \<le> 2 / 1000000 + 2 / 1000000"
    unfolding b_def using ea num by (intro rnd_step) linarith+
  have "\<bar>b\<bar> \<le> 8589934592" using eb num by linarith
  then have "\<bar>b / ratio\<bar> \<le> 2 * 8589934592" by (rule div_step(2) [OF ratio eb])
  then have "\<bar>c - q\<bar> \<le> 2 * (2 / 1000000 + 2 / 1000000) + 2 / 1000000"
    unfolding c_def q_def by (intro rnd_step div_step(1) [OF ratio eb]) simp
  then have ec: "\<bar>c - q\<bar> \<le> 10 / 1000000" by simp
  have "\<bar>rf + follow_correction - response_correction\<bar> \<le> 6442450944" using num by linarith
  then have q: "\<bar>q\<bar> \<le> 2 * 6442450944" unfolding q_def by (rule div_step(2) [OF ratio order.refl [of "\<bar>_ - 0\<bar>"]])
  have ed: "\<bar>d - (rt - q)\<bar> \<le> 10 / 1000000 + 2 / 1000000"
    unfolding d_def using ec q num by (intro rnd_step) linarith+
  have "\<bar>d / 2 - (rt - q) / 2\<bar> = \<bar>d - (rt - q)\<bar> / 2"
    by (simp add: abs_divide flip: diff_divide_distrib)
  with ed have half: "\<bar>d / 2 - (rt - q) / 2\<bar> \<le> 6 / 1000000" by simp
  have "\<bar>d\<bar> \<le> 17179869184" using ed q num by linarith
  then have "\<bar>delay - (rt - q) / 2\<bar> \<le> 6 / 1000000 + 2 / 1000000"
    unfolding delay(1) by (intro rnd_step half) simp
  then have "\<bar>delay - (rt - q) / 2\<bar> \<le> 1 / 100000" by linarith
  with delay show ?thesis by (simp add: q_def rt_def rf_def)
qed

theorem peer_delay_accurate_witness:
  "\<exists>delay. ptp_peer_delay_local 1 1000 400 0 (1 / 2) = Some delay \<and> \<bar>delay - 1199 / 4\<bar> \<le> 1 / 100000"
proof -
  have "ptp_peer_delay_local 1 1000 400 0 (1 / 2) = Some (1199 / 4)" by code_simp
  from peer_delay_accurate [OF this] show ?thesis
    by (intro exI [of _ "1199 / 4"]) (simp add: \<open>ptp_peer_delay_local 1 1000 400 0 (1 / 2) = Some (1199 / 4)\<close>)
qed

end
