(* ===== verification/Ptp_State.thy ===== *)
theory Ptp_State
  imports Ptp_Wifi_Peers Ptp_Wifi_Neighbor Ptp_Path_Trace Ptp_Peer_Exchange Ptp_Peer_Rate
    Ptp_Receipt Ptp_Clock
begin

text \<open>
  The state of the daemon (\<^verbatim>\<open>ptp.c\<close>): the structures \<^verbatim>\<open>ptp_port_s\<close> and \<^verbatim>\<open>ptp_state_s\<close>, the
  file-level variables beside them, and the build options the code reads.

  The two structures are split into groups of related fields, each a record of its own, in the
  order of the source.  An octet array with a validity flag (\<open>rx_source_mac\<close> and
  \<open>rx_source_mac_valid\<close>) is an option.  \<open>correction_ns\<close> is a double in the source that only ever
  holds a value \<open>get_correction_ns\<close> returned, or zero: it is an integer here.  Callback
  pointers, sockets and semaphores are left out, except whether a socket is open.
\<close>

section \<open>Enumerations\<close>

datatype ptp_profile_e = ptp_profile_standard | ptp_profile_gptp

datatype ptp_port_medium_e = ptp_port_medium_eth_hwts | ptp_port_medium_wifi_ftm

datatype ptp_port_type_e = ptp_port_type_primary | ptp_port_type_failover | ptp_port_type_bridged

datatype ptp_port_wifi_mode_e = ptp_port_wifi_mode_sta | ptp_port_wifi_mode_ap | ptp_port_wifi_mode_none

text \<open>The negated \<open>errno\<close> values the entry points return.\<close>

datatype ptp_errno = EINVAL | ESRCH | ERANGE | ENOENT | EIO | ESTALE | ENOBUFS | ENODEV

section \<open>Build options\<close>

text \<open>\<open>cf_topology\<close> is the per-port \<^verbatim>\<open>CONFIG_ESP_PTP_PORT<n>_*\<close> block (medium, type, Wi-Fi mode), \<open>cf_emac\<close> is
  \<^verbatim>\<open>SOC_EMAC_SUPPORTED\<close>.\<close>

record ptp_config =
  cf_num_ports :: nat
  cf_domain :: u8
  cf_time64 :: bool
  cf_delayreq_interval_ms :: int
  cf_pdelayreq_interval_ms :: int
  cf_sync_interval_ms :: int
  cf_announce_interval_ms :: int
  cf_timeout_ms :: int
  cf_settime_threshold_ms :: int
  cf_max_path_delay_ns :: int
  cf_max_peer_delay_ns :: int
  cf_delayreq_avgcount :: int
  cf_path_delay_stability_ns :: int
  cf_peer_delay_stability_ns :: int
  cf_avb_lite_endpoint :: bool
  cf_lite_priority_tag :: bool
  cf_unicast_delay_req :: bool
  cf_ap_via_coprocessor :: bool
  cf_client :: bool
  cf_server :: bool
  cf_gptp_profile :: bool
  cf_twostep_sync :: bool
  cf_priority1 :: u8
  cf_priority2 :: u8
  cf_class :: u8
  cf_accuracy :: u8
  cf_clocksource :: u8
  cf_emac :: bool
  cf_topology :: "(ptp_port_medium_e option \<times> ptp_port_type_e \<times> ptp_port_wifi_mode_e) list"

definition config_default :: ptp_config where
  "config_default = \<lparr>cf_num_ports = 2, cf_domain = 0, cf_time64 = True, cf_delayreq_interval_ms = 1000,
     cf_pdelayreq_interval_ms = 1000, cf_sync_interval_ms = 125, cf_announce_interval_ms = 1000,
     cf_timeout_ms = 3000, cf_settime_threshold_ms = 100, cf_max_path_delay_ns = 100000,
     cf_max_peer_delay_ns = 100000, cf_delayreq_avgcount = 10, cf_path_delay_stability_ns = 250,
     cf_peer_delay_stability_ns = 100, cf_avb_lite_endpoint = True, cf_lite_priority_tag = False,
     cf_unicast_delay_req = True, cf_ap_via_coprocessor = True, cf_client = True, cf_server = False,
     cf_gptp_profile = True, cf_twostep_sync = True, cf_priority1 = 248, cf_priority2 = 248, cf_class = 248,
     cf_accuracy = 254, cf_clocksource = 160, cf_emac = True,
     cf_topology = [(Some ptp_port_medium_eth_hwts, ptp_port_type_primary, ptp_port_wifi_mode_none),
                    (Some ptp_port_medium_wifi_ftm, ptp_port_type_bridged, ptp_port_wifi_mode_ap)]\<rparr>"

section \<open>A port\<close>

record ptp_port_config =
  pg_enabled :: bool
  pg_medium :: ptp_port_medium_e
  pg_type :: ptp_port_type_e
  pg_wifi_mode :: ptp_port_wifi_mode_e

record ptp_port_link =
  lk_negotiated_link_mbps :: u32
  lk_link_speed_checked_us :: int
  lk_link_up :: bool
  lk_intf_hw_addr :: bytes
  lk_rx_minor_version :: u8
  lk_socket_open :: bool
  lk_rx_timestamp_all :: "bool option"
  lk_sync_egress_cb :: bool

record ptp_port_seen =
  ps_last_received_multicast :: timespec
  ps_last_socket_alive :: timespec
  ps_last_received_announce :: timespec
  ps_last_received_sync :: timespec
  ps_last_received_capable_indication :: timespec
  ps_last_capable_indication :: ptp_capable_message
  ps_capable_indication_count :: u32

record ptp_port_capable =
  pk_capable_receive :: ptp_capable_receive
  pk_wired_capable :: ptp_wired_capable
  pk_wifi_neighbor :: ptp_wifi_neighbor
  pk_wifi_peers :: ptp_wifi_peers
  pk_peer_capability :: ptp_peer_capability

record ptp_port_sent =
  pt_last_transmitted_sync :: timespec
  pt_last_transmitted_announce :: timespec
  pt_last_transmitted_delayresp :: timespec
  pt_last_transmitted_delayreq :: timespec
  pt_last_endpoint_beacon :: timespec

record ptp_port_lite =
  pl_peer_is_endpoint :: bool
  pl_pdelay_resp_responders :: "bytes list"
  pl_pdelay_resp_responder_count :: u32
  pl_pdelay_multi_responder :: bool

record ptp_port_delay =
  pd_can_send_delayreq :: bool
  pd_delayreq_time :: timespec
  pd_path_delay_avgcount :: int
  pd_peer_delay_avgcount :: int
  pd_path_delay_ns :: int
  pd_peer_delay_ns :: int
  pd_delayreq_interval_ms :: int
  pd_next_delayreq_interval_ms :: int

record ptp_port_rx =
  rx_rxtime :: timespec
  rx_source_mac :: "bytes option"
  rx_dest_mac :: "bytes option"
  rx_association :: u32
  rx_rxbuf :: bytes

record ptp_port_sync =
  ts_twostep_packet :: ptp_sync
  ts_twostep_rxtime :: timespec
  ts_twostep_received_us :: int
  ts_sync_receipt :: ptp_sync_receipt
  ts_receipt_window_us :: int
  ts_twostep_pending :: bool

record ptp_port =
  po_config :: ptp_port_config
  po_link :: ptp_port_link
  po_seen :: ptp_port_seen
  po_capable :: ptp_port_capable
  po_sent :: ptp_port_sent
  po_lite :: ptp_port_lite
  po_delay :: ptp_port_delay
  po_rx :: ptp_port_rx
  po_sync :: ptp_port_sync
  po_peer_exchange :: ptp_peer_exchange
  po_peer_rate :: ptp_peer_rate

section \<open>The daemon\<close>

definition PTP_GM_FIELDS_LEN :: nat where "PTP_GM_FIELDS_LEN = 18"

record ptp_servo =
  sv_remote_time_ns_prev :: int
  sv_local_time_ns_prev :: int
  sv_last_offset_ns :: int
  sv_correction_ns :: int
  sv_drift_acc :: int
  sv_wired_integral_q16 :: int
  sv_freq_trim_ppb :: int
  sv_last_delta_timestamp :: timespec
  sv_last_delta_ns :: int
  sv_last_adjtime_ns :: int
  sv_drift_avg_total_ms :: int
  sv_drift_ppb :: int
  sv_stable_cnt :: int
  sv_drift_ring :: "int list"
  sv_drift_ring_count :: nat
  sv_drift_ring_pos :: nat

record ptp_source =
  so_selected_source_valid :: bool
  so_selected_source :: ptp_announce
  so_selected_path :: ptp_path_trace
  so_last_selected_announce :: timespec
  so_selected_source_mac :: "bytes option"
  so_selected_gm_link_mbps :: u32
  so_delay_asymmetry_ns :: int
  so_unicast_delay_req_outstanding :: bool
  so_unicast_delay_req_misses :: u8
  so_unicast_delay_req_retry_us :: int

record ptp_gm_base =
  gm_upstream_gm_fields :: bytes
  gm_upstream_gm_fields_valid :: bool
  gm_gm_fields_own :: bool
  gm_own_time_base_indicator :: u16
  gm_published_gm_valid :: bool
  gm_published_btc :: bytes
  gm_published_gm_fields :: bytes
  gm_published_clock_updates :: u32
  gm_phase_baseline_steps_ns :: int
  gm_clock_updates :: u32
  gm_clock_steps_ns :: int

record ptp_state =
  st_port :: "ptp_port list"
  st_active_ptp_profile :: ptp_profile_e
  st_preferred_ptp_profile :: ptp_profile_e
  st_servo :: ptp_servo
  st_own_identity :: ptp_announce
  st_announce_seq :: u16
  st_sync_seq :: u16
  st_delay_req_seq :: u16
  st_source :: ptp_source
  st_gptp_fallback_done :: bool
  st_avb_lite_fallback_reason :: u8
  st_gm :: ptp_gm_base

record ptp_timing_snapshot =
  tm_generation :: u32
  tm_received_us :: int
  tm_reference_ns :: int
  tm_local_receive_ns :: int
  tm_offset_ns :: int
  tm_correction_ns :: int
  tm_peer_delay_ns :: int
  tm_trim_ppb :: int
  tm_drift_ppb :: int
  tm_btc_identity :: bytes
  tm_own_identity :: bytes
  tm_follow_up :: bytes
  tm_hardware_clock :: bool
  tm_valid :: bool

text \<open>The diagnostic counters of reception and transmission.\<close>

record ptp_stats =
  sx_last_loop_us :: int
  sx_loop_max_gap_us :: int
  sx_last_report_us :: int
  sx_loop_iters :: u32
  sx_tx_req_total :: u32
  sx_tx_req_late :: u32
  sx_tx_req_late_max_us :: int
  sx_rx_sync :: u32
  sx_rx_followup :: u32
  sx_rx_announce :: u32
  sx_rx_pdelay_req :: u32
  sx_rx_pdelay_resp :: u32
  sx_rx_pdelay_fup :: u32
  sx_rx_sync_last_us :: int
  sx_rx_sync_max_gap_us :: int
  sx_poll_wake :: u32
  sx_read_ok :: u32
  sx_read_err :: u32

text \<open>What the daemon has asked of the hardware clock, newest first.\<close>

datatype clock_action = Settime timespec | Adjfreq int

text \<open>The file-level variables: \<open>s_state\<close> (\<open>dm_running\<close>: not NULL), the timing snapshots, the
  generations of the injected frames, the software clock, the diagnostic counters and the count of
  Pdelay\_Resp\_Follow\_Up messages seen at the receive boundary.\<close>

record ptp_daemon =
  dm_running :: bool
  dm_state :: ptp_state
  dm_timing :: ptp_timing_snapshot
  dm_local_source :: ptp_timing_snapshot
  dm_injected_generation :: "u32 list"
  dm_use_sw_clock :: bool
  dm_sw_clock :: sw_clock
  dm_hw_clock :: "clock_action list"
  dm_stats :: ptp_stats
  dm_peer_ingress_sequence :: u16
  dm_peer_ingress_count :: u16

section \<open>Zeroed storage\<close>

text \<open>The state comes from \<open>calloc\<close>; a port that is configured differs from the zeroed one in its
  configuration only.  Values of the enumerations that are zero: standard profile, Ethernet,
  primary, station.\<close>

definition announce_msg_zero :: ptp_announce where
  "announce_msg_zero = announce_of (replicate 76 0)"

definition port_zero :: ptp_port where
  "port_zero = \<lparr>po_config = \<lparr>pg_enabled = False, pg_medium = ptp_port_medium_eth_hwts,
       pg_type = ptp_port_type_primary, pg_wifi_mode = ptp_port_wifi_mode_sta\<rparr>,
     po_link = \<lparr>lk_negotiated_link_mbps = 0, lk_link_speed_checked_us = 0, lk_link_up = False,
       lk_intf_hw_addr = replicate 6 0, lk_rx_minor_version = 0, lk_socket_open = True,
       lk_rx_timestamp_all = None, lk_sync_egress_cb = False\<rparr>,
     po_seen = \<lparr>ps_last_received_multicast = timespec_zero, ps_last_socket_alive = timespec_zero,
       ps_last_received_announce = timespec_zero, ps_last_received_sync = timespec_zero,
       ps_last_received_capable_indication = timespec_zero,
       ps_last_capable_indication = \<lparr>cm_source_port = replicate 10 0, cm_log_interval = 0\<rparr>,
       ps_capable_indication_count = 0\<rparr>,
     po_capable = \<lparr>pk_capable_receive = receive_zero, pk_wired_capable = wired_capable_zero,
       pk_wifi_neighbor = neighbor_zero, pk_wifi_peers = peers_zero,
       pk_peer_capability = \<lparr>pc_lifecycle = 0, pc_received_us = 0, pc_qualified = False\<rparr>\<rparr>,
     po_sent = \<lparr>pt_last_transmitted_sync = timespec_zero, pt_last_transmitted_announce = timespec_zero,
       pt_last_transmitted_delayresp = timespec_zero, pt_last_transmitted_delayreq = timespec_zero,
       pt_last_endpoint_beacon = timespec_zero\<rparr>,
     po_lite = \<lparr>pl_peer_is_endpoint = False, pl_pdelay_resp_responders = replicate 4 (replicate 8 0),
       pl_pdelay_resp_responder_count = 0, pl_pdelay_multi_responder = False\<rparr>,
     po_delay = \<lparr>pd_can_send_delayreq = False, pd_delayreq_time = timespec_zero,
       pd_path_delay_avgcount = 0, pd_peer_delay_avgcount = 0, pd_path_delay_ns = 0,
       pd_peer_delay_ns = 0, pd_delayreq_interval_ms = 0, pd_next_delayreq_interval_ms = 0\<rparr>,
     po_rx = \<lparr>rx_rxtime = timespec_zero, rx_source_mac = None, rx_dest_mac = None, rx_association = 0,
       rx_rxbuf = replicate 256 0\<rparr>,
     po_sync = \<lparr>ts_twostep_packet = sync_of (replicate 44 0), ts_twostep_rxtime = timespec_zero,
       ts_twostep_received_us = 0, ts_sync_receipt = sync_receipt_zero, ts_receipt_window_us = 0,
       ts_twostep_pending = False\<rparr>,
     po_peer_exchange = exchange_zero, po_peer_rate = peer_rate_zero\<rparr>"

definition state_zero :: "nat \<Rightarrow> ptp_state" where
  "state_zero n = \<lparr>st_port = replicate n port_zero, st_active_ptp_profile = ptp_profile_standard,
     st_preferred_ptp_profile = ptp_profile_standard,
     st_servo = \<lparr>sv_remote_time_ns_prev = 0, sv_local_time_ns_prev = 0, sv_last_offset_ns = 0,
       sv_correction_ns = 0, sv_drift_acc = 0, sv_wired_integral_q16 = 0, sv_freq_trim_ppb = 0,
       sv_last_delta_timestamp = timespec_zero, sv_last_delta_ns = 0, sv_last_adjtime_ns = 0,
       sv_drift_avg_total_ms = 0, sv_drift_ppb = 0, sv_stable_cnt = 0, sv_drift_ring = replicate 6 0,
       sv_drift_ring_count = 0, sv_drift_ring_pos = 0\<rparr>,
     st_own_identity = announce_msg_zero, st_announce_seq = 0, st_sync_seq = 0, st_delay_req_seq = 0,
     st_source = \<lparr>so_selected_source_valid = False, so_selected_source = announce_msg_zero,
       so_selected_path = [], so_last_selected_announce = timespec_zero, so_selected_source_mac = None,
       so_selected_gm_link_mbps = 0, so_delay_asymmetry_ns = 0, so_unicast_delay_req_outstanding = False,
       so_unicast_delay_req_misses = 0, so_unicast_delay_req_retry_us = 0\<rparr>,
     st_gptp_fallback_done = False, st_avb_lite_fallback_reason = 0,
     st_gm = \<lparr>gm_upstream_gm_fields = replicate 18 0, gm_upstream_gm_fields_valid = False,
       gm_gm_fields_own = False, gm_own_time_base_indicator = 0, gm_published_gm_valid = False,
       gm_published_btc = replicate 8 0, gm_published_gm_fields = replicate 18 0,
       gm_published_clock_updates = 0, gm_phase_baseline_steps_ns = 0, gm_clock_updates = 0,
       gm_clock_steps_ns = 0\<rparr>\<rparr>"

definition snapshot_zero :: ptp_timing_snapshot where
  "snapshot_zero = \<lparr>tm_generation = 0, tm_received_us = 0, tm_reference_ns = 0, tm_local_receive_ns = 0,
     tm_offset_ns = 0, tm_correction_ns = 0, tm_peer_delay_ns = 0, tm_trim_ppb = 0, tm_drift_ppb = 0,
     tm_btc_identity = replicate 8 0, tm_own_identity = replicate 8 0, tm_follow_up = replicate 76 0,
     tm_hardware_clock = False, tm_valid = False\<rparr>"

definition stats_zero :: ptp_stats where
  "stats_zero = \<lparr>sx_last_loop_us = 0, sx_loop_max_gap_us = 0, sx_last_report_us = 0, sx_loop_iters = 0,
     sx_tx_req_total = 0, sx_tx_req_late = 0, sx_tx_req_late_max_us = 0, sx_rx_sync = 0, sx_rx_followup = 0,
     sx_rx_announce = 0, sx_rx_pdelay_req = 0, sx_rx_pdelay_resp = 0, sx_rx_pdelay_fup = 0,
     sx_rx_sync_last_us = 0, sx_rx_sync_max_gap_us = 0, sx_poll_wake = 0, sx_read_ok = 0, sx_read_err = 0\<rparr>"

definition daemon_zero :: "nat \<Rightarrow> ptp_daemon" where
  "daemon_zero n = \<lparr>dm_running = True, dm_state = state_zero n, dm_timing = snapshot_zero,
     dm_local_source = snapshot_zero, dm_injected_generation = replicate n 0, dm_use_sw_clock = False,
     dm_sw_clock = \<lparr>sw_clock = \<lparr>ca_local_ns = 0, ca_ptp_ns = 0, ca_rate_ppb = 0\<rparr>, sw_initialized = False\<rparr>,
     dm_hw_clock = [], dm_stats = stats_zero, dm_peer_ingress_sequence = 0, dm_peer_ingress_count = 0\<rparr>"

section \<open>Access\<close>

definition ptp_is_gptp :: "ptp_state \<Rightarrow> bool" where
  "ptp_is_gptp state \<longleftrightarrow> st_active_ptp_profile state = ptp_profile_gptp"

definition port_at :: "ptp_daemon \<Rightarrow> nat \<Rightarrow> ptp_port" where
  "port_at d i = st_port (dm_state d) ! i"

definition map_state :: "(ptp_state \<Rightarrow> ptp_state) \<Rightarrow> ptp_daemon \<Rightarrow> ptp_daemon" where
  "map_state f d = d\<lparr>dm_state := f (dm_state d)\<rparr>"

definition map_port :: "nat \<Rightarrow> (ptp_port \<Rightarrow> ptp_port) \<Rightarrow> ptp_daemon \<Rightarrow> ptp_daemon" where
  "map_port i f d = map_state (\<lambda>s. s\<lparr>st_port := (st_port s)[i := f (st_port s ! i)]\<rparr>) d"

definition map_servo :: "(ptp_servo \<Rightarrow> ptp_servo) \<Rightarrow> ptp_daemon \<Rightarrow> ptp_daemon" where
  "map_servo f d = map_state (\<lambda>s. s\<lparr>st_servo := f (st_servo s)\<rparr>) d"

definition map_source :: "(ptp_source \<Rightarrow> ptp_source) \<Rightarrow> ptp_daemon \<Rightarrow> ptp_daemon" where
  "map_source f d = map_state (\<lambda>s. s\<lparr>st_source := f (st_source s)\<rparr>) d"

definition map_gm :: "(ptp_gm_base \<Rightarrow> ptp_gm_base) \<Rightarrow> ptp_daemon \<Rightarrow> ptp_daemon" where
  "map_gm f d = map_state (\<lambda>s. s\<lparr>st_gm := f (st_gm s)\<rparr>) d"

abbreviation dm_source :: "ptp_daemon \<Rightarrow> ptp_source" where "dm_source d \<equiv> st_source (dm_state d)"
abbreviation dm_servo :: "ptp_daemon \<Rightarrow> ptp_servo" where "dm_servo d \<equiv> st_servo (dm_state d)"
abbreviation dm_gm :: "ptp_daemon \<Rightarrow> ptp_gm_base" where "dm_gm d \<equiv> st_gm (dm_state d)"
abbreviation dm_gptp :: "ptp_daemon \<Rightarrow> bool" where "dm_gptp d \<equiv> ptp_is_gptp (dm_state d)"
abbreviation num_ports :: "ptp_daemon \<Rightarrow> nat" where "num_ports d \<equiv> length (st_port (dm_state d))"

text \<open>Index checks of the entry points: \<open>port_index < 0 || port_index >= CONFIG_ESP_PTP_NUM_PORTS\<close>.\<close>

definition valid_port :: "ptp_config \<Rightarrow> int \<Rightarrow> bool" where
  "valid_port cfg port_index \<longleftrightarrow> 0 \<le> port_index \<and> port_index < int (cf_num_ports cfg)"

text \<open>What holds of every daemon of a configuration.\<close>

definition daemon_wf :: "ptp_config \<Rightarrow> ptp_daemon \<Rightarrow> bool" where
  "daemon_wf cfg d \<longleftrightarrow> 1 \<le> cf_num_ports cfg \<and> num_ports d = cf_num_ports cfg \<and>
     length (dm_injected_generation d) = cf_num_ports cfg"

lemma map_state_simps [simp]:
  "dm_state (map_state f d) = f (dm_state d)" "dm_running (map_state f d) = dm_running d"
  "dm_timing (map_state f d) = dm_timing d" "dm_local_source (map_state f d) = dm_local_source d"
  "dm_injected_generation (map_state f d) = dm_injected_generation d"
  "dm_use_sw_clock (map_state f d) = dm_use_sw_clock d" "dm_sw_clock (map_state f d) = dm_sw_clock d"
  "dm_hw_clock (map_state f d) = dm_hw_clock d" "dm_stats (map_state f d) = dm_stats d"
  "dm_peer_ingress_sequence (map_state f d) = dm_peer_ingress_sequence d"
  "dm_peer_ingress_count (map_state f d) = dm_peer_ingress_count d"
  by (simp_all add: map_state_def)

lemma map_parts_simps [simp]:
  "dm_running (map_port i g d) = dm_running d" "dm_timing (map_port i g d) = dm_timing d"
  "dm_local_source (map_port i g d) = dm_local_source d"
  "dm_injected_generation (map_port i g d) = dm_injected_generation d"
  "dm_use_sw_clock (map_port i g d) = dm_use_sw_clock d" "dm_sw_clock (map_port i g d) = dm_sw_clock d"
  "dm_hw_clock (map_port i g d) = dm_hw_clock d"
  "dm_source (map_port i g d) = dm_source d" "dm_servo (map_port i g d) = dm_servo d"
  "dm_gm (map_port i g d) = dm_gm d" "ptp_is_gptp (dm_state (map_port i g d)) = dm_gptp d"
  "num_ports (map_port i g d) = num_ports d"
  "st_own_identity (dm_state (map_port i g d)) = st_own_identity (dm_state d)"
  "st_active_ptp_profile (dm_state (map_port i g d)) = st_active_ptp_profile (dm_state d)"
  "st_preferred_ptp_profile (dm_state (map_port i g d)) = st_preferred_ptp_profile (dm_state d)"
  "st_gptp_fallback_done (dm_state (map_port i g d)) = st_gptp_fallback_done (dm_state d)"
  "st_avb_lite_fallback_reason (dm_state (map_port i g d)) = st_avb_lite_fallback_reason (dm_state d)"
  by (simp_all add: map_port_def ptp_is_gptp_def)

lemma map_groups_simps [simp]:
  "dm_running (map_servo f d) = dm_running d" "dm_running (map_source h d) = dm_running d"
  "dm_timing (map_servo f d) = dm_timing d" "dm_timing (map_source h d) = dm_timing d"
  "dm_timing (map_gm k d) = dm_timing d" "dm_running (map_gm k d) = dm_running d"
  "dm_injected_generation (map_servo f d) = dm_injected_generation d"
  "dm_injected_generation (map_source h d) = dm_injected_generation d"
  "dm_injected_generation (map_gm k d) = dm_injected_generation d"
  "dm_servo (map_servo f d) = f (dm_servo d)" "dm_source (map_source h d) = h (dm_source d)"
  "dm_gm (map_gm k d) = k (dm_gm d)"
  "dm_servo (map_source h d) = dm_servo d" "dm_source (map_servo f d) = dm_source d"
  "dm_gm (map_source h d) = dm_gm d" "dm_gm (map_servo f d) = dm_gm d"
  "dm_servo (map_gm k d) = dm_servo d" "dm_source (map_gm k d) = dm_source d"
  "ptp_is_gptp (dm_state (map_servo f d)) = dm_gptp d" "ptp_is_gptp (dm_state (map_source h d)) = dm_gptp d"
  "ptp_is_gptp (dm_state (map_gm k d)) = dm_gptp d"
  "st_port (dm_state (map_servo f d)) = st_port (dm_state d)"
  "st_port (dm_state (map_source h d)) = st_port (dm_state d)"
  "st_port (dm_state (map_gm k d)) = st_port (dm_state d)"
  "port_at (map_servo f d) i = port_at d i" "port_at (map_source h d) i = port_at d i"
  "port_at (map_gm k d) i = port_at d i"
  by (simp_all add: map_servo_def map_source_def map_gm_def ptp_is_gptp_def port_at_def)

lemma port_at_map_port [simp]:
  "i < num_ports d \<Longrightarrow> port_at (map_port i f d) j = (if i = j then f (port_at d i) else port_at d j)"
  by (simp add: port_at_def map_port_def)

end
