(* ===== verification/Ptp_Timing.thy ===== *)
theory Ptp_Timing
  imports Ptp_State
begin

text \<open>
  Timing snapshots of \<^verbatim>\<open>ptp.c\<close>: what the daemon last learnt of the time of its source, read by
  other tasks and believed for 500 ms, the time base fields of the FollowUpInformation element a
  wireless port broadcasts, and the element itself.  The critical sections of the source
  make each operation atomic.
\<close>

section \<open>The clock\<close>

text \<open>What the platform answers during a handler: the reading of the hardware clock (None: the
  call fails), the reading of the local timer behind the software clock, whether the hardware
  clock takes a new time and a new rate, and what an uninitialised time stamp holds, which the
  source uses where it does not test the result of a reading.\<close>

record clock_env =
  ce_hw_time :: "timespec option"
  ce_local_ns :: int
  ce_settime_ok :: bool
  ce_adjtime_ok :: bool
  ce_unset :: timespec

definition ptp_gettime :: "ptp_daemon \<Rightarrow> clock_env \<Rightarrow> timespec option" where
  "ptp_gettime d env =
     (if dm_use_sw_clock d then ptp_clock_sw_now (dm_sw_clock d) (ce_local_ns env) else ce_hw_time env)"

definition ptp_settime :: "ptp_daemon \<Rightarrow> clock_env \<Rightarrow> timespec \<Rightarrow> bool \<times> ptp_daemon" where
  "ptp_settime d env ts =
     (if dm_use_sw_clock d then
        let (ok, sw) = ptp_clock_sw_settime (dm_sw_clock d) (ce_local_ns env) (Some ts)
        in (ok, d\<lparr>dm_sw_clock := sw\<rparr>)
      else (ce_settime_ok env,
            if ce_settime_ok env then d\<lparr>dm_hw_clock := Settime ts # dm_hw_clock d\<rparr> else d))"

section \<open>Snapshots\<close>

definition ptp_invalidate_timing :: "ptp_daemon \<Rightarrow> ptp_daemon" where
  "ptp_invalidate_timing d =
     d\<lparr>dm_timing := (dm_timing d)\<lparr>tm_generation := tm_generation (dm_timing d) + 1, tm_valid := False\<rparr>,
       dm_local_source := (dm_local_source d)\<lparr>tm_valid := False\<rparr>\<rparr>"

definition ptpd_timing_generation :: "ptp_daemon \<Rightarrow> u32" where
  "ptpd_timing_generation d = tm_generation (dm_timing d)"

definition snapshot_expire :: "ptp_timing_snapshot \<Rightarrow> int \<Rightarrow> ptp_timing_snapshot" where
  "snapshot_expire snapshot now_us =
     (if now_us < tm_received_us snapshot \<or> now_us - tm_received_us snapshot > 500000
      then snapshot\<lparr>tm_valid := False\<rparr> else snapshot)"

definition ptpd_timing_snapshot :: "ptp_daemon \<Rightarrow> int \<Rightarrow> bool \<times> ptp_timing_snapshot" where
  "ptpd_timing_snapshot d now_us =
     (let snapshot = snapshot_expire (dm_timing d) now_us in (tm_valid snapshot, snapshot))"

definition ptpd_time_source_snapshot :: "ptp_daemon \<Rightarrow> int \<Rightarrow> bool \<times> ptp_timing_snapshot" where
  "ptpd_time_source_snapshot d now_us =
     (let snapshot = snapshot_expire (if tm_valid (dm_local_source d) then dm_local_source d else dm_timing d) now_us
      in (tm_valid snapshot, snapshot))"

section \<open>Log periods\<close>

text \<open>The argument is a \<open>uint16_t\<close>.  \<open>round(log2(x))\<close> of \<open>x = msec / 1000\<close>: the code's doubles
  decide correctly, because no such \<open>x\<close> lies closer than \<open>10 ^ -10\<close> to a power of two times
  the square root of two.  \<open>\<lfloor>log2 x + 1 / 2\<rfloor>\<close> is \<open>\<lfloor>log2 (2 * x * x)\<rfloor> div 2\<close>.\<close>

definition msec_to_log_period :: "u16 \<Rightarrow> int" where
  "msec_to_log_period msec_period =
     (if msec_period = 0 then 127
      else
        let x = of_int (uint msec_period) / 1000;
            log_period = ilog2 (2 * x * x) div 2
        in if log_period < -128 then -128 else if log_period > 127 then 127 else log_period)"

text \<open>The conversion to \<open>uint32_t\<close> is undefined (None) when the value does not fit.\<close>

definition log_period_to_msec :: "int \<Rightarrow> u32 option" where
  "log_period_to_msec log_period =
     (let v = 2 powi log_period * 1000 :: rat in
      if v < 4294967296 then Some (word_of_int \<lfloor>v\<rfloor>) else None)"

section \<open>Time base fields\<close>

text \<open>The 18 octets written over the \<^verbatim>\<open>gmTimebaseIndicator\<close>, \<^verbatim>\<open>lastGmPhaseChange\<close> and
  \<^verbatim>\<open>scaledLastGmFreqChange\<close> of the element.\<close>

definition gm_relaying :: "ptp_state \<Rightarrow> bool" where
  "gm_relaying state \<longleftrightarrow> so_selected_source_valid (st_source state) \<and> gm_upstream_gm_fields_valid (st_gm state)"

text \<open>On becoming the best clock: an indicator other than the one relayed last.\<close>

definition gm_take_over :: "ptp_gm_base \<Rightarrow> ptp_gm_base" where
  "gm_take_over g =
     (if gm_gm_fields_own g then g
      else g\<lparr>gm_own_time_base_indicator :=
               word_of_nat (be16 (gm_upstream_gm_fields g ! 0) (gm_upstream_gm_fields g ! 1)) + 1,
             gm_gm_fields_own := True\<rparr>)"

text \<open>The last lines: record what the element now carries.\<close>

definition gm_publish :: "ptp_gm_base \<Rightarrow> bytes \<Rightarrow> bytes \<Rightarrow> ptp_gm_base" where
  "gm_publish g btc gm_fields =
     g\<lparr>gm_published_btc := btc, gm_published_gm_fields := gm_fields,
       gm_published_clock_updates := gm_clock_updates g, gm_published_gm_valid := True\<rparr>"

definition ptp_fill_gm_fields :: "ptp_state \<Rightarrow> bytes \<times> ptp_state" where
  "ptp_fill_gm_fields state =
     (let relaying = gm_relaying state;
          g = (if relaying then (st_gm state)\<lparr>gm_gm_fields_own := False\<rparr> else gm_take_over (st_gm state));
          gm_fields = (if relaying then gm_upstream_gm_fields g
                    else octets 2 (uint (gm_own_time_base_indicator g)) @ replicate 16 0);
          btc = (if relaying then an_btc_identity (so_selected_source (st_source state))
                 else an_btc_identity (st_own_identity state));
          changed = (gm_published_gm_valid g \<and>
                     (btc \<noteq> gm_published_btc g \<or> take 2 gm_fields \<noteq> take 2 (gm_published_gm_fields g)))
      in if \<not> changed then
           let gm_fields = (if gm_published_gm_valid g
                         then splice 2 (slice 2 12 (gm_published_gm_fields g)) gm_fields else gm_fields);
               g = (if \<not> gm_published_gm_valid g \<or> relaying
                    then g\<lparr>gm_phase_baseline_steps_ns := gm_clock_steps_ns g\<rparr> else g)
           in (gm_fields, state\<lparr>st_gm := gm_publish g btc gm_fields\<rparr>)
         else if \<not> relaying then
           let gm_fields = splice 2 (ptp_scaled_ns_from_ns 0) gm_fields;
               g = g\<lparr>gm_phase_baseline_steps_ns := gm_clock_steps_ns g\<rparr>
           in (gm_fields, state\<lparr>st_gm := gm_publish g btc gm_fields\<rparr>)
         else if gm_clock_updates g = gm_published_clock_updates g then
           (gm_published_gm_fields g, state\<lparr>st_gm := g\<rparr>)
         else
           let jump_ns = gm_clock_steps_ns g - gm_phase_baseline_steps_ns g;
               g = g\<lparr>gm_phase_baseline_steps_ns := gm_clock_steps_ns g\<rparr>;
               gm_fields = splice 2 (ptp_scaled_ns_from_ns jump_ns) gm_fields
           in (gm_fields, state\<lparr>st_gm := gm_publish g btc gm_fields\<rparr>))"

section \<open>The broadcast element\<close>

definition PTP_FLAGS1_PTP_TIMESCALE :: u8 where "PTP_FLAGS1_PTP_TIMESCALE = 8"
definition PTP_MSGTYPE_SDOID_GPTP :: u8 where "PTP_MSGTYPE_SDOID_GPTP = 16"
definition PTP_MSGTYPE_FOLLOW_UP :: u8 where "PTP_MSGTYPE_FOLLOW_UP = 8"

definition beacon_header :: "ptp_config \<Rightarrow> ptp_state \<Rightarrow> int \<Rightarrow> ptp_header" where
  "beacon_header cfg state port_index =
     (let h = an_header (st_own_identity state);
          gptp = ptp_is_gptp state
      in h\<lparr>hd_messagetype := (if gptp then or PTP_MSGTYPE_FOLLOW_UP PTP_MSGTYPE_SDOID_GPTP
                              else PTP_MSGTYPE_FOLLOW_UP),
           hd_controlfield := 2,
           hd_logmessageinterval := word_of_int (msec_to_log_period (word_of_int (cf_sync_interval_ms cfg))),
           hd_messagelength := [0, 76],
           hd_flags := [0, if gptp then PTP_FLAGS1_PTP_TIMESCALE else hd_flags h ! 1],
           hd_sourceportindex := octets 2 (port_index + 1)\<rparr>)"

definition beacon_tlv :: "bytes \<Rightarrow> bytes" where
  "beacon_tlv gm_fields = [0, 3, 0, 0x1c, 0, 0x80, 0xc2, 0, 0, 1] @ replicate 4 0 @ gm_fields"

text \<open>\<open>ts\<close> is the reading of the clock.\<close>

definition ptp_marshal_follow_up_for_beacon_ie ::
  "ptp_config \<Rightarrow> ptp_state \<Rightarrow> timespec \<Rightarrow> int \<Rightarrow> bytes \<times> ptp_state" where
  "ptp_marshal_follow_up_for_beacon_ie cfg state ts port_index =
     (let (gm_fields, state') = ptp_fill_gm_fields state;
          out = \<lparr>fu_header = beacon_header cfg state port_index,
                 fu_origintimestamp = timespec_to_ptp_format (cf_time64 cfg) ts,
                 fu_informationtlv = beacon_tlv gm_fields\<rparr>
      in (ptp_gptp_wire_normalize (follow_up_bytes out) 76 (ptp_is_gptp state) 1, state'))"

text \<open>The arguments after the configuration: the answers of the clock, the timer, and the second
  reading of the clock, inside the marshalling, whose value the origin replaces.\<close>

definition ptp_publish_local_source ::
  "ptp_config \<Rightarrow> ptp_daemon \<Rightarrow> clock_env \<Rightarrow> int \<Rightarrow> timespec \<Rightarrow> ptp_daemon" where
  "ptp_publish_local_source cfg d env now_us ts =
     (if \<not> (dm_gptp d \<and> \<not> dm_use_sw_clock d \<and> \<not> so_selected_source_valid (dm_source d) \<and>
            an_btc_priority1 (st_own_identity (dm_state d)) < 255)
      then d\<lparr>dm_local_source := (dm_local_source d)\<lparr>tm_valid := False\<rparr>\<rparr>
      else
        case ptp_gettime d env of
          None \<Rightarrow> d
        | Some origin \<Rightarrow>
            if tv_sec origin < 0 then d
            else
              let (message, state') = ptp_marshal_follow_up_for_beacon_ie cfg (dm_state d) ts 0;
                  message = splice 34 (timespec_to_ptp_format (cf_time64 cfg) origin) message;
                  generation = (if tm_generation (dm_timing d) = 0 then 1 else tm_generation (dm_timing d));
                  next_snapshot =
                    \<lparr>tm_generation = generation, tm_received_us = now_us,
                     tm_reference_ns = timespec_to_ns origin, tm_local_receive_ns = timespec_to_ns origin,
                     tm_offset_ns = 0, tm_correction_ns = 0, tm_peer_delay_ns = 0,
                     tm_trim_ppb = sv_freq_trim_ppb (dm_servo d), tm_drift_ppb = 0,
                     tm_btc_identity = an_btc_identity (st_own_identity (dm_state d)),
                     tm_own_identity = hd_sourceidentity (an_header (st_own_identity (dm_state d))),
                     tm_follow_up = message, tm_hardware_clock = True, tm_valid = True\<rparr>
              in d\<lparr>dm_state := state', dm_timing := (dm_timing d)\<lparr>tm_generation := generation\<rparr>,
                   dm_local_source := next_snapshot\<rparr>)"

section \<open>Freshness of snapshots\<close>

text \<open>The two snapshots provide the freshness window of the prelude.  The age of 500 ms is still
  accepted, so the half-open window is one microsecond wider.\<close>

interpretation timing: freshness_window "\<lambda>d now. fst (ptpd_timing_snapshot d now)"
    "\<lambda>d. tm_valid (dm_timing d)" "\<lambda>d. tm_received_us (dm_timing d)" "\<lambda>d. 500001"
  by unfold_locales (auto simp: ptpd_timing_snapshot_def snapshot_expire_def Let_def)

text \<open>What a reader takes as timing is at most 500 ms old, stays expired once it has expired,
  and is void, for the received and for the local source alike, from the moment the daemon
  invalidates its timing; the generation then differs, so a reader that kept a copy notices.\<close>

theorem timing_snapshot_current:
  "(fst (ptpd_timing_snapshot d now) \<longrightarrow> 0 \<le> now - tm_received_us (dm_timing d) \<and>
      now - tm_received_us (dm_timing d) \<le> 500000 \<and>
      snd (ptpd_timing_snapshot d now) = dm_timing d) \<and>
   (\<not> fst (ptpd_timing_snapshot d now) \<and> tm_received_us (dm_timing d) \<le> now \<and> now \<le> later \<longrightarrow>
      \<not> fst (ptpd_timing_snapshot d later)) \<and>
   \<not> fst (ptpd_timing_snapshot (ptp_invalidate_timing d) now) \<and>
   \<not> fst (ptpd_time_source_snapshot (ptp_invalidate_timing d) now) \<and>
   ptpd_timing_generation (ptp_invalidate_timing d) \<noteq> ptpd_timing_generation d"
proof -
  have "fst (ptpd_timing_snapshot d now) \<Longrightarrow> snd (ptpd_timing_snapshot d now) = dm_timing d"
    by (simp add: ptpd_timing_snapshot_def snapshot_expire_def Let_def split: if_splits)
  moreover have "\<not> fst (ptpd_timing_snapshot (ptp_invalidate_timing d) now)"
    "\<not> fst (ptpd_time_source_snapshot (ptp_invalidate_timing d) now)"
    "ptpd_timing_generation (ptp_invalidate_timing d) \<noteq> ptpd_timing_generation d"
    by (simp_all add: ptpd_timing_snapshot_def ptpd_time_source_snapshot_def snapshot_expire_def Let_def
        ptp_invalidate_timing_def ptpd_timing_generation_def)
  ultimately show ?thesis
    using timing.fresh_age [of d now] timing.stays_expired [of d now later] by auto
qed

theorem timing_snapshot_current_witness:
  "let d = (daemon_zero 1)\<lparr>dm_timing := snapshot_zero\<lparr>tm_valid := True, tm_received_us := 1000000\<rparr>\<rparr>
   in fst (ptpd_timing_snapshot d 1500000) \<and> \<not> fst (ptpd_timing_snapshot d 1500001) \<and>
      \<not> fst (ptpd_timing_snapshot d 1600000)"
  using timing_snapshot_current [of "(daemon_zero 1)\<lparr>dm_timing := snapshot_zero\<lparr>tm_valid := True, tm_received_us := 1000000\<rparr>\<rparr>"
      1500001 1600000]
  by (simp add: ptpd_timing_snapshot_def snapshot_expire_def snapshot_zero_def)

section \<open>Log periods are the nearest\<close>

lemma period_log_range:
  assumes "msec \<noteq> (0::u16)"
  defines "x \<equiv> of_int (uint msec) / (1000 :: rat)"
  shows "-20 < ilog2 (2 * x * x)" "ilog2 (2 * x * x) < 14"
proof -
  have "uint msec \<noteq> 0" using assms(1) by (simp add: word_uint_eq_iff)
  moreover have "uint msec < 65536" using uint_lt2p [of msec] by simp
  ultimately have u: "1 \<le> uint msec" "uint msec \<le> 65535"
    using uint_nonnegative [of msec] by linarith+
  then have i: "1 \<le> (of_int (uint msec) :: rat)" "(of_int (uint msec) :: rat) \<le> 65535"
    using of_int_le_iff [of "uint msec" 65535, where 'a = rat] of_int_le_iff [of 1 "uint msec", where 'a = rat]
    by simp_all
  then have x: "1 / 1000 \<le> x" "x \<le> 66" by (simp_all add: x_def)
  then have sq: "1 / 1000000 \<le> x * x" "x * x \<le> 66 * 66"
    using mult_mono [of "1 / 1000" x "1 / 1000" x] mult_mono [of x 66 x 66] by simp_all
  have nz: "2 * x * x \<noteq> 0" and abs: "\<bar>2 * x * x\<bar> = 2 * (x * x)" using x by (auto simp: abs_mult)
  show "-20 < ilog2 (2 * x * x)"
  proof (rule ccontr)
    assume "\<not> ?thesis"
    then have "(2::rat) powi (ilog2 (2 * x * x) + 1) \<le> 2 powi (-19)" by (intro power_int_increasing) simp_all
    also have "(2::rat) powi (-19) = 1 / 524288" by code_simp
    finally show False using ilog2_bounds(2) [OF nz] sq(1) unfolding abs by linarith
  qed
  show "ilog2 (2 * x * x) < 14"
  proof (rule ccontr)
    assume "\<not> ?thesis"
    then have "(2::rat) powi 14 \<le> 2 powi ilog2 (2 * x * x)" by (intro power_int_increasing) simp_all
    moreover have "(2::rat) powi 14 = 16384" by code_simp
    ultimately show False using ilog2_bounds(1) [OF nz] sq(2) unfolding abs by linarith
  qed
qed

text \<open>The announced log message interval is the nearest one: the squared period in seconds lies
  within a factor of two of the squared power of two.  And the eight intervals from 125 ms to
  16 s survive the conversion to a log period and back.\<close>

theorem log_period_nearest:
  "(msec \<noteq> 0 \<longrightarrow>
     2 powi (2 * msec_to_log_period msec - 1) \<le> (of_int (uint msec) / 1000 :: rat) * (of_int (uint msec) / 1000) \<and>
     (of_int (uint msec) / 1000 :: rat) * (of_int (uint msec) / 1000) < 2 powi (2 * msec_to_log_period msec + 1)) \<and>
   (\<forall>ms \<in> {125, 250, 500, 1000, 2000, 4000, 8000, 16000}.
      log_period_to_msec (msec_to_log_period ms) = Some (ucast ms))"
proof -
  have "2 powi (2 * msec_to_log_period msec - 1) \<le> (of_int (uint msec) / 1000 :: rat) * (of_int (uint msec) / 1000) \<and>
     (of_int (uint msec) / 1000 :: rat) * (of_int (uint msec) / 1000) < 2 powi (2 * msec_to_log_period msec + 1)"
    if nz: "msec \<noteq> 0"
  proof -
    define x where "x = of_int (uint msec) / (1000 :: rat)"
    define m where "m = ilog2 (2 * x * x)"
    have "uint msec \<noteq> 0" using nz by (simp add: word_uint_eq_iff)
    then have "(of_int (uint msec) :: rat) \<noteq> 0" by (simp only: of_int_eq_0_iff not_False_eq_True)
    then have "2 * x * x \<noteq> 0" by (simp only: x_def mult_eq_0_iff divide_eq_0_iff) simp
    then have b: "2 powi m \<le> 2 * (x * x)" "2 * (x * x) < 2 powi (m + 1)"
      using ilog2_bounds [of "2 * x * x"] by (simp_all add: m_def abs_mult mult.assoc)
    have l: "msec_to_log_period msec = m div 2"
    proof -
      have "-20 < m" "m < 14" using period_log_range [OF nz] by (simp_all only: m_def x_def)
      then have "\<not> m div 2 < -128" "\<not> m div 2 > 127" by linarith+
      then show ?thesis
        using nz unfolding msec_to_log_period_def Let_def m_def [symmetric] x_def [symmetric] by (simp only: if_False)
    qed
    have "(2::rat) powi (2 * (m div 2)) \<le> 2 powi m" "(2::rat) powi (m + 1) \<le> 2 powi (2 * (m div 2) + 2)"
      by (intro power_int_increasing; simp)+
    with b have "2 powi (2 * (m div 2)) \<le> 2 * (x * x)" "2 * (x * x) < 2 powi (2 * (m div 2) + 2)" by linarith+
    moreover have "(2::rat) powi (2 * (m div 2) - 1) = 2 powi (2 * (m div 2)) / 2"
      by (simp add: power_int_diff)
    moreover have "(2::rat) powi (2 * (m div 2) + 2) = 2 * 2 powi (2 * (m div 2) + 1)"
      using power_int_add_1' [of "2::rat" "2 * (m div 2) + 1"] by (simp add: add.commute)
    ultimately show ?thesis unfolding l x_def [symmetric] by simp
  qed
  moreover have "\<forall>ms \<in> {125, 250, 500, 1000, 2000, 4000, 8000, 16000}.
      log_period_to_msec (msec_to_log_period ms) = Some (ucast ms)"
    by code_simp
  ultimately show ?thesis by blast
qed

theorem log_period_nearest_witness:
  "msec_to_log_period 700 = -1 \<and> 2 powi (2 * msec_to_log_period 700 - 1) \<le> (700 / 1000 * (700 / 1000) :: rat)"
proof -
  have "msec_to_log_period 700 = -1" by code_simp
  with log_period_nearest [of 700] show ?thesis by simp
qed

section \<open>Time base changes\<close>

definition gm_wf :: "ptp_gm_base \<Rightarrow> bool" where
  "gm_wf g \<longleftrightarrow> length (gm_upstream_gm_fields g) = 18 \<and> length (gm_published_gm_fields g) = 18"

text \<open>Whether the element now names another time base than it did before.\<close>

definition base_changed :: "ptp_gm_base \<Rightarrow> ptp_gm_base \<Rightarrow> bool" where
  "base_changed g g' \<longleftrightarrow> gm_published_gm_valid g \<and>
     (gm_published_btc g' \<noteq> gm_published_btc g \<or>
      take 2 (gm_published_gm_fields g') \<noteq> take 2 (gm_published_gm_fields g))"

lemma gm_take_over_simps [simp]:
  "gm_published_gm_valid (gm_take_over g) = gm_published_gm_valid g"
  "gm_published_btc (gm_take_over g) = gm_published_btc g"
  "gm_published_gm_fields (gm_take_over g) = gm_published_gm_fields g"
  "gm_clock_steps_ns (gm_take_over g) = gm_clock_steps_ns g"
  "gm_clock_updates (gm_take_over g) = gm_clock_updates g"
  "gm_published_clock_updates (gm_take_over g) = gm_published_clock_updates g"
  "gm_phase_baseline_steps_ns (gm_take_over g) = gm_phase_baseline_steps_ns g"
  "gm_upstream_gm_fields (gm_take_over g) = gm_upstream_gm_fields g"
  "gm_gm_fields_own (gm_take_over g)"
  by (simp_all add: gm_take_over_def)

lemma gm_publish_simps [simp]:
  "gm_published_gm_valid (gm_publish g b f)" "gm_published_btc (gm_publish g b f) = b"
  "gm_published_gm_fields (gm_publish g b f) = f"
  "gm_phase_baseline_steps_ns (gm_publish g b f) = gm_phase_baseline_steps_ns g"
  "gm_own_time_base_indicator (gm_publish g b f) = gm_own_time_base_indicator g"
  "gm_clock_steps_ns (gm_publish g b f) = gm_clock_steps_ns g"
  "gm_upstream_gm_fields (gm_publish g b f) = gm_upstream_gm_fields g"
  by (simp_all add: gm_publish_def)

lemma splice_phase:
  assumes "length fs = 18" "length ph = 12"
  shows "length (splice 2 ph fs) = 18" "take 2 (splice 2 ph fs) = take 2 fs"
    "slice 2 12 (splice 2 ph fs) = ph"
proof -
  show "slice 2 12 (splice 2 ph fs) = ph" using assms by (intro slice_splice) simp_all
qed (use assms in \<open>simp_all add: splice_def\<close>)

lemma length_scaled_ns [simp]: "length (ptp_scaled_ns_from_ns x) = 12"
  by (simp add: ptp_scaled_ns_from_ns_def Let_def)

lemma fill_gm_fields_length:
  "gm_wf (st_gm state) \<Longrightarrow> length (fst (ptp_fill_gm_fields state)) = 18"
  by (simp add: ptp_fill_gm_fields_def Let_def gm_wf_def)

text \<open>The element always carries what the daemon recorded as published.  When it names a new
  time base while relaying, its phase change is exactly the sum of the jumps the local clock
  made since the baseline, which moves up so that no jump is reported twice, and this waits
  until the clock has updated from the new source; on becoming the best clock the phase
  change is zero; otherwise it stays what it was.\<close>

theorem gm_phase_change_exact:
  assumes "gm_wf (st_gm state)" "ptp_fill_gm_fields state = (gmf, state')"
  shows "length gmf = 18 \<and> gmf = gm_published_gm_fields (st_gm state') \<and>
    gm_published_gm_valid (st_gm state') \<and>
    (base_changed (st_gm state) (st_gm state') \<longrightarrow>
       slice 2 12 gmf = ptp_scaled_ns_from_ns
         (if gm_relaying state then gm_clock_steps_ns (st_gm state) - gm_phase_baseline_steps_ns (st_gm state) else 0) \<and>
       gm_phase_baseline_steps_ns (st_gm state') = gm_clock_steps_ns (st_gm state) \<and>
       (gm_relaying state \<longrightarrow> gm_clock_updates (st_gm state) \<noteq> gm_published_clock_updates (st_gm state))) \<and>
    (gm_published_gm_valid (st_gm state) \<and> \<not> base_changed (st_gm state) (st_gm state') \<longrightarrow>
       slice 2 12 gmf = slice 2 12 (gm_published_gm_fields (st_gm state)))"
proof -
  define g where "g = st_gm state"
  define r where "r = gm_relaying state"
  define g0 where "g0 = (if r then g\<lparr>gm_gm_fields_own := False\<rparr> else gm_take_over g)"
  define f where "f = (if r then gm_upstream_gm_fields g0
                       else octets 2 (uint (gm_own_time_base_indicator g0)) @ replicate 16 0)"
  have len: "length f = 18" "length (gm_published_gm_fields g) = 18"
    using assms(1) by (auto simp: f_def g0_def gm_wf_def g_def)
  have sl: "length (slice 2 12 (gm_published_gm_fields g)) = 12" using len by simp
  have keep: "gm_published_gm_valid g0 = gm_published_gm_valid g" "gm_published_btc g0 = gm_published_btc g"
    "gm_published_gm_fields g0 = gm_published_gm_fields g" "gm_clock_steps_ns g0 = gm_clock_steps_ns g"
    "gm_clock_updates g0 = gm_clock_updates g" "gm_published_clock_updates g0 = gm_published_clock_updates g"
    "gm_phase_baseline_steps_ns g0 = gm_phase_baseline_steps_ns g"
    by (simp_all add: g0_def)
  note eq = assms(2) [unfolded ptp_fill_gm_fields_def Let_def, folded r_def g_def, folded g0_def, folded f_def]
  show ?thesis
    using eq len
    unfolding g_def [symmetric] r_def [symmetric] base_changed_def
    by (auto simp: keep splice_phase [OF len(1) sl] splice_phase [OF len(1) length_scaled_ns] split: if_splits)
qed

definition gm_example :: ptp_state where
  "gm_example = (state_zero 1)\<lparr>
     st_source := (st_source (state_zero 1))\<lparr>so_selected_source_valid := True\<rparr>,
     st_gm := (st_gm (state_zero 1))\<lparr>gm_upstream_gm_fields := [0, 7] @ replicate 16 0,
       gm_upstream_gm_fields_valid := True, gm_published_gm_valid := True,
       gm_clock_updates := 5, gm_published_clock_updates := 4, gm_clock_steps_ns := 1500,
       gm_phase_baseline_steps_ns := 500\<rparr>\<rparr>"

theorem gm_phase_change_exact_witness:
  "slice 2 12 (fst (ptp_fill_gm_fields gm_example)) = ptp_scaled_ns_from_ns 1000 \<and>
   base_changed (st_gm gm_example) (st_gm (snd (ptp_fill_gm_fields gm_example)))"
proof -
  have c: "base_changed (st_gm gm_example) (st_gm (snd (ptp_fill_gm_fields gm_example)))"
    "gm_wf (st_gm gm_example)" "gm_relaying gm_example"
    "gm_clock_steps_ns (st_gm gm_example) - gm_phase_baseline_steps_ns (st_gm gm_example) = 1000"
    by code_simp+
  have "ptp_fill_gm_fields gm_example = (fst (ptp_fill_gm_fields gm_example), snd (ptp_fill_gm_fields gm_example))"
    by simp
  from gm_phase_change_exact [OF c(2) this] c(1,3,4) show ?thesis by metis
qed

section \<open>The element is accepted\<close>

lemma slice_cong_nth:
  assumes "length xs = length ys" "\<And>i. off \<le> i \<Longrightarrow> i < off + n \<Longrightarrow> i < length xs \<Longrightarrow> xs ! i = ys ! i"
  shows "slice off n xs = slice off n ys"
  using assms by (intro nth_equalityI) (auto simp: nth_slice)

lemma normalize_header_slice:
  assumes "34 \<le> length w" "34 \<le> off \<or> 20 \<le> off \<and> off + n \<le> 32 \<or> 6 \<le> off \<and> off + n \<le> 16 \<or> 2 \<le> off \<and> off + n \<le> 5"
  shows "slice off n (normalize_header w v) = slice off n w"
  using assms by (intro slice_cong_nth) (auto simp: nth_normalize_header)

lemma length_ptp_format [simp]: "length (timespec_to_ptp_format t ts) = 10"
  by (simp add: timespec_to_ptp_format_def)

text \<open>What the receivers read from the element.\<close>

lemma marshal_fields:
  assumes "ptp_is_gptp state" "header_wf (an_header (st_own_identity state))" "gm_wf (st_gm state)"
    and "ptp_marshal_follow_up_for_beacon_ie cfg state ts port_index = (out, state')"
  shows "length out = 76 \<and> ptp_timing_payload_valid (Some out) 76 \<and>
    slice 34 10 out = timespec_to_ptp_format (cf_time64 cfg) ts \<and>
    slice 58 18 out = fst (ptp_fill_gm_fields state) \<and> slice 28 2 out = octets 2 (port_index + 1) \<and>
    slice 20 8 out = hd_sourceidentity (an_header (st_own_identity state)) \<and>
    out ! 0 = 0x18 \<and> slice 8 8 out = hd_correction (an_header (st_own_identity state))"
proof -
  obtain gmf s' where f: "ptp_fill_gm_fields state = (gmf, s')" by force
  have g: "length gmf = 18" using fill_gm_fields_length [OF assms(3)] by (simp add: f)
  define h where "h = beacon_header cfg state port_index"
  have hwf: "header_wf h" using assms(2) by (simp add: h_def beacon_header_def Let_def header_wf_def)
  define m where "m = header_bytes h @ timespec_to_ptp_format (cf_time64 cfg) ts @ beacon_tlv gmf"
  have ml: "length m = 76"
    using g by (simp add: m_def length_header_bytes [OF hwf] beacon_tlv_def)
  have ho: "header_of m = h" using hwf by (simp add: m_def header_of_bytes)
  have hm: "m ! 0 = hd_messagetype h" "slice 2 2 m = hd_messagelength h" "slice 20 8 m = hd_sourceidentity h"
    "slice 28 2 m = hd_sourceportindex h" "slice 8 8 m = hd_correction h"
    unfolding ho [symmetric] by (simp_all add: header_of_def)
  have ty: "m ! 0 = 0x18"
    using assms(1) hm by (simp add: h_def beacon_header_def Let_def PTP_MSGTYPE_FOLLOW_UP_def
        PTP_MSGTYPE_SDOID_GPTP_def)
  have body: "slice 34 10 m = timespec_to_ptp_format (cf_time64 cfg) ts"
    "slice 44 10 m = [0, 3, 0, 28, 0, 0x80, 0xc2, 0, 0, 1]" "slice 58 18 m = gmf"
    using g by (simp_all add: m_def length_header_bytes [OF hwf] beacon_tlv_def slice_past slice_first slice_def)
  have out: "out = normalize_header m 1"
  proof -
    have "out = ptp_gptp_wire_normalize m 76 True 1"
      using assms(1,4) by (simp add: ptp_marshal_follow_up_for_beacon_ie_def f Let_def m_def h_def follow_up_bytes_def)
    then show ?thesis using normalize_cases [of 76 m 1] ml by (simp add: ty)
  qed
  have o: "out ! 0 = 0x18" "out ! 1 = 0x12" "length out = 76"
    using ml ty by (simp_all add: out nth_normalize_header)
  have sl: "slice 2 2 out = [0, 76]"
    using hm(2) ml by (simp add: out normalize_header_slice h_def beacon_header_def Let_def)
  then have "out ! 2 = 0" "out ! 3 = 76" using slice_pair [of 2 out] o(3) by (simp_all add: eval_nat_numeral)
  then have "ptp_timing_payload_valid (Some out) 76"
    using o body(2) ml by (simp add: ptp_timing_payload_valid_def PTP_TIMING_FOLLOW_UP_SIZE_def be16_def Let_def
        out normalize_header_slice)
  with o body hm ml f show ?thesis
    by (simp add: out normalize_header_slice h_def beacon_header_def Let_def)
qed

text \<open>C35. In gPTP the element that is broadcast is a well-formed Follow_Up of 76 octets with its
  information TLV, which the receivers of this daemon accept; its origin is the time stamp
  given, its time base fields are the ones filled in, and it comes from the port.\<close>

theorem beacon_element_valid:
  assumes "ptp_is_gptp state" "header_wf (an_header (st_own_identity state))" "gm_wf (st_gm state)"
    and "ptp_marshal_follow_up_for_beacon_ie cfg state ts port_index = (out, state')"
  shows "length out = 76 \<and> ptp_timing_payload_valid (Some out) 76 \<and>
    slice 34 10 out = timespec_to_ptp_format (cf_time64 cfg) ts \<and>
    slice 58 18 out = fst (ptp_fill_gm_fields state) \<and> slice 28 2 out = octets 2 (port_index + 1) \<and>
    slice 20 8 out = hd_sourceidentity (an_header (st_own_identity state))"
  using marshal_fields [OF assms] by blast

theorem beacon_element_valid_witness:
  "let st = (state_zero 1)\<lparr>st_active_ptp_profile := ptp_profile_gptp\<rparr>;
       out = fst (ptp_marshal_follow_up_for_beacon_ie config_default st \<lparr>tv_sec = 5, tv_nsec = 6\<rparr> 0)
   in length out = 76 \<and> ptp_timing_payload_valid (Some out) 76 \<and> slice 28 2 out = [0, 1]"
proof -
  define st where "st = (state_zero 1)\<lparr>st_active_ptp_profile := ptp_profile_gptp\<rparr>"
  have "ptp_is_gptp st" "header_wf (an_header (st_own_identity st))" "gm_wf (st_gm st)"
    unfolding st_def by code_simp+
  from beacon_element_valid [OF this, of config_default "\<lparr>tv_sec = 5, tv_nsec = 6\<rparr>" 0,
      OF prod.collapse [symmetric]]
  show ?thesis by (simp add: st_def Let_def octets2)
qed

end
