(* ===== verification/Ptp_Inject.thy ===== *)
theory Ptp_Inject
  imports Ptp_State
begin

text \<open>
  The mailbox of \<^verbatim>\<open>ptp.c\<close> between the radio's receive callback and the daemon: a ring of eight
  bounded copies of frames, each stamped with the link generation of its port.  The generations
  (\<open>s_injected_generation\<close>) are part of the daemon's state; here they are an argument.  The
  callback reads its generation in one critical section and enqueues in a second one, so it has
  the generations of both; the daemon's loop takes one frame per critical section.  \<open>Ptp_Mailbox\<close> has
  the interleavings with the handlers that change the generations.
\<close>

section \<open>Bounded queues\<close>

text \<open>
  Interface: a queue of bounded capacity.  \<open>content\<close> is the abstraction, oldest first; the
  provider promises first in, first out, refusal exactly when full, and no loss.
\<close>

locale bounded_fifo =
  fixes content :: "'s \<Rightarrow> 'a list"
    and inv :: "'s \<Rightarrow> bool"
    and push :: "'s \<Rightarrow> 'a \<Rightarrow> 's option"
    and pop :: "'s \<Rightarrow> ('a \<times> 's) option"
    and capacity :: nat
  assumes bound: "inv s \<Longrightarrow> length (content s) \<le> capacity"
    and push_full: "inv s \<Longrightarrow> length (content s) = capacity \<Longrightarrow> push s x = None"
    and push_room: "inv s \<Longrightarrow> length (content s) < capacity \<Longrightarrow>
      \<exists>s'. push s x = Some s' \<and> inv s' \<and> content s' = content s @ [x]"
    and pop_empty: "inv s \<Longrightarrow> content s = [] \<Longrightarrow> pop s = None"
    and pop_item: "inv s \<Longrightarrow> content s = x # xs \<Longrightarrow> \<exists>s'. pop s = Some (x, s') \<and> inv s' \<and> content s' = xs"
begin

fun pops :: "nat \<Rightarrow> 's \<Rightarrow> 'a list \<times> 's" where
  "pops 0 s = ([], s)"
| "pops (Suc n) s = (case pop s of None \<Rightarrow> ([], s) | Some (x, s') \<Rightarrow> let (xs, s'') = pops n s' in (x # xs, s''))"

lemma pops_content:
  "inv s \<Longrightarrow> fst (pops n s) = take n (content s) \<and> inv (snd (pops n s)) \<and>
     content (snd (pops n s)) = drop n (content s)"
proof (induction n arbitrary: s)
  case (Suc n)
  show ?case
  proof (cases "content s")
    case Nil
    then show ?thesis using pop_empty [OF Suc.prems] Suc.prems by simp
  next
    case (Cons x xs)
    then obtain s' where "pop s = Some (x, s')" "inv s'" "content s' = xs"
      using pop_item [OF Suc.prems] by blast
    then show ?thesis using Suc.IH [of s'] Cons by (simp add: split_beta)
  qed
qed simp

lemma push_content:
  assumes "inv s" "push s x = Some s'"
  shows "inv s' \<and> content s' = content s @ [x] \<and> length (content s) < capacity"
proof -
  have "length (content s) \<noteq> capacity" using push_full [OF assms(1)] assms(2) by force
  then have "length (content s) < capacity" using bound [OF assms(1)] by linarith
  then show ?thesis using push_room [OF assms(1), of x] assms(2) by auto
qed

lemma pop_content:
  assumes "inv s" "pop s = Some (x, s')"
  shows "inv s' \<and> content s = x # content s'"
proof (cases "content s")
  case Nil
  then show ?thesis using pop_empty [OF assms(1)] assms(2) by simp
next
  case (Cons y ys)
  then show ?thesis using pop_item [OF assms(1)] assms(2) by force
qed

lemma pops_all: "inv s \<Longrightarrow> fst (pops capacity s) = content s \<and> content (snd (pops capacity s)) = []"
  using pops_content [of s capacity] bound [of s] by simp

end

section \<open>The ring\<close>

definition PTP_INJECT_DEPTH :: nat where "PTP_INJECT_DEPTH = 8"

record ptp_injected_frame =
  ij_length :: nat
  ij_port_index :: nat
  ij_link_generation :: u32
  ij_source_mac :: "bytes option"
  ij_received :: timespec
  ij_message :: bytes

record ptp_injected =
  ij_frames :: "ptp_injected_frame list"
  ij_head :: nat
  ij_count :: nat
  ij_enabled :: bool

definition injected_zero :: ptp_injected where
  "injected_zero = \<lparr>ij_frames = replicate 8 \<lparr>ij_length = 0, ij_port_index = 0, ij_link_generation = 0,
      ij_source_mac = None, ij_received = timespec_zero, ij_message = replicate 256 0\<rparr>,
    ij_head = 0, ij_count = 0, ij_enabled = False\<rparr>"

definition ptp_wifi_link_generation :: "ptp_config \<Rightarrow> u32 list \<Rightarrow> int \<Rightarrow> u32" where
  "ptp_wifi_link_generation cfg generation port_index =
     (if valid_port cfg port_index then generation ! nat port_index else 0)"

text \<open>The critical section that stores a frame; None when every slot is taken.\<close>

definition ring_store :: "ptp_injected \<Rightarrow> ptp_injected_frame \<Rightarrow> ptp_injected option" where
  "ring_store ring frame =
     (if ij_count ring = PTP_INJECT_DEPTH then None
      else
        let tail = (ij_head ring + ij_count ring) mod PTP_INJECT_DEPTH
        in Some (ring\<lparr>ij_frames := (ij_frames ring)[tail := frame], ij_count := ij_count ring + 1\<rparr>))"

definition injected_frame ::
  "nat \<Rightarrow> u32 \<Rightarrow> bytes \<Rightarrow> nat \<Rightarrow> bytes option \<Rightarrow> timespec \<Rightarrow> ptp_injected_frame" where
  "injected_frame port_index generation frame len source_mac received =
     \<lparr>ij_length = len, ij_port_index = port_index, ij_link_generation = generation,
      ij_source_mac = source_mac, ij_received = received,
      ij_message = take len frame @ replicate (256 - len) 0\<rparr>"

text \<open>\<open>before\<close> and \<open>now\<close> are the generations in the first and the second critical section,
  \<open>received\<close> is the reading of the clock between them.\<close>

definition ptp_inject_received_frame_from ::
  "ptp_config \<Rightarrow> ptp_injected \<Rightarrow> u32 list \<Rightarrow> u32 list \<Rightarrow> timespec option \<Rightarrow> int \<Rightarrow> bytes option \<Rightarrow> nat \<Rightarrow>
     bytes option \<Rightarrow> (ptp_errno, unit) sum \<times> ptp_injected" where
  "ptp_inject_received_frame_from cfg ring before now received port_index frame len source_mac =
     (case frame of
        None \<Rightarrow> (Inl EINVAL, ring)
      | Some f \<Rightarrow>
        if \<not> valid_port cfg port_index \<or> len < 34 \<or> len > 256 then (Inl EINVAL, ring)
        else
          let generation = before ! nat port_index in
          case received of
            None \<Rightarrow> (Inl EIO, ring)
          | Some t \<Rightarrow>
            if \<not> ij_enabled ring then (Inl ESRCH, ring)
            else if generation \<noteq> now ! nat port_index then (Inl ESTALE, ring)
            else
              case ring_store ring (injected_frame (nat port_index) generation f len source_mac t) of
                None \<Rightarrow> (Inl ENOBUFS, ring)
              | Some ring' \<Rightarrow> (Inr (), ring'))"

definition ptp_inject_received_frame ::
  "ptp_config \<Rightarrow> ptp_injected \<Rightarrow> u32 list \<Rightarrow> u32 list \<Rightarrow> timespec option \<Rightarrow> int \<Rightarrow> bytes option \<Rightarrow> nat \<Rightarrow>
     (ptp_errno, unit) sum \<times> ptp_injected" where
  "ptp_inject_received_frame cfg ring before now received port_index frame len =
     ptp_inject_received_frame_from cfg ring before now received port_index frame len None"

definition ring_take :: "ptp_injected \<Rightarrow> (ptp_injected_frame \<times> ptp_injected) option" where
  "ring_take ring =
     (if ij_count ring = 0 then None
      else Some (ij_frames ring ! ij_head ring,
                 ring\<lparr>ij_head := (ij_head ring + 1) mod PTP_INJECT_DEPTH, ij_count := ij_count ring - 1\<rparr>))"

text \<open>One pass of the loop body: whether it goes on, the frame it hands to the packet
  processing, and the ring.\<close>

definition drain_step ::
  "ptp_injected \<Rightarrow> u32 list \<Rightarrow> bool \<times> ptp_injected_frame option \<times> ptp_injected" where
  "drain_step ring generation =
     (case ring_take ring of
        None \<Rightarrow> (False, None, ring)
      | Some (incoming, ring') \<Rightarrow>
          (True,
           if ij_link_generation incoming = generation ! ij_port_index incoming then Some incoming else None,
           ring'))"

fun drain_loop :: "nat \<Rightarrow> ptp_injected \<Rightarrow> u32 list \<Rightarrow> ptp_injected_frame list \<times> ptp_injected" where
  "drain_loop 0 ring generation = ([], ring)"
| "drain_loop (Suc n) ring generation =
     (let (available, incoming, ring') = drain_step ring generation in
      if \<not> available then ([], ring')
      else
        let (rest, ring'') = drain_loop n ring' generation
        in (case incoming of None \<Rightarrow> rest | Some f \<Rightarrow> f # rest, ring''))"

text \<open>The daemon's drain, with the packet processing left out: the frames it processes, in order.\<close>

definition drain :: "ptp_injected \<Rightarrow> u32 list \<Rightarrow> ptp_injected_frame list \<times> ptp_injected" where
  "drain ring generation = drain_loop PTP_INJECT_DEPTH ring generation"

section \<open>The ring is a queue\<close>

definition ring_inv :: "ptp_injected \<Rightarrow> bool" where
  "ring_inv r \<longleftrightarrow> length (ij_frames r) = PTP_INJECT_DEPTH \<and> ij_head r < PTP_INJECT_DEPTH \<and>
     ij_count r \<le> PTP_INJECT_DEPTH"

definition ring_content :: "ptp_injected \<Rightarrow> ptp_injected_frame list" where
  "ring_content r = map (\<lambda>i. ij_frames r ! ((ij_head r + i) mod PTP_INJECT_DEPTH)) [0..<ij_count r]"

lemma length_ring_content [simp]: "length (ring_content r) = ij_count r"
  by (simp add: ring_content_def)

lemma ring_slot_distinct:
  assumes "i < n" "j < n" "n \<le> PTP_INJECT_DEPTH" "(h + i) mod PTP_INJECT_DEPTH = (h + j) mod PTP_INJECT_DEPTH"
  shows "i = j"
proof -
  have "i mod PTP_INJECT_DEPTH = j mod PTP_INJECT_DEPTH"
    using assms(4) by (simp add: mod_add_left_eq nat_mod_eq_iff)
  then show ?thesis using assms(1-3) by simp
qed

interpretation ring: bounded_fifo ring_content ring_inv ring_store ring_take PTP_INJECT_DEPTH
proof
  fix s x
  assume s: "ring_inv s" "length (ring_content s) < PTP_INJECT_DEPTH"
  define t where "t = (ij_head s + ij_count s) mod PTP_INJECT_DEPTH"
  define s' where "s' = s\<lparr>ij_frames := (ij_frames s)[t := x], ij_count := ij_count s + 1\<rparr>"
  have t: "t < PTP_INJECT_DEPTH" by (simp add: t_def PTP_INJECT_DEPTH_def)
  have "ring_store s x = Some s'" using s by (simp add: ring_store_def Let_def s'_def t_def)
  moreover have "ring_inv s'" using s by (simp add: ring_inv_def s'_def)
  moreover have "ring_content s' = ring_content s @ [x]"
  proof -
    have "t \<noteq> (ij_head s + i) mod PTP_INJECT_DEPTH" if "i < ij_count s" for i
      using ring_slot_distinct [of i "ij_count s + 1" "ij_count s" "ij_head s"] that s by (auto simp: t_def)
    then show ?thesis
      using s t by (auto simp: ring_content_def s'_def ring_inv_def t_def [symmetric])
  qed
  ultimately show "\<exists>s'. ring_store s x = Some s' \<and> ring_inv s' \<and> ring_content s' = ring_content s @ [x]" by blast
next
  fix s x xs
  assume s: "ring_inv s" "ring_content s = x # xs"
  then have n: "0 < ij_count s" by (metis length_Cons length_ring_content zero_less_Suc)
  then obtain k where k: "ij_count s = Suc k" by (cases "ij_count s") auto
  define s' where "s' = s\<lparr>ij_head := (ij_head s + 1) mod PTP_INJECT_DEPTH, ij_count := ij_count s - 1\<rparr>"
  have x: "x = ij_frames s ! ij_head s"
    using s k by (auto simp: ring_content_def ring_inv_def upt_conv_Cons simp del: upt_Suc)
  have "ring_content s' = tl (ring_content s)"
    by (simp add: ring_content_def s'_def k upt_conv_Cons map_Suc_upt [symmetric] mod_Suc_eq del: upt_Suc)
       (simp add: mod_add_left_eq flip: add_Suc)
  then have "ring_content s' = xs" using s by simp
  moreover have "ring_inv s'" using s by (auto simp: ring_inv_def s'_def PTP_INJECT_DEPTH_def)
  ultimately show "\<exists>s'. ring_take s = Some (x, s') \<and> ring_inv s' \<and> ring_content s' = xs"
    using n x by (auto simp: ring_take_def s'_def)
qed (auto simp: ring_inv_def ring_store_def ring_take_def ring_content_def)

section \<open>Properties\<close>

definition current_frame :: "u32 list \<Rightarrow> ptp_injected_frame \<Rightarrow> bool" where
  "current_frame generation f \<longleftrightarrow> ij_link_generation f = generation ! ij_port_index f"

lemma drain_loop_pops:
  "drain_loop n r g = (filter (current_frame g) (fst (ring.pops n r)), snd (ring.pops n r))"
  by (induction n arbitrary: r) (auto simp: drain_step_def split_beta Let_def current_frame_def split: option.splits)

text \<open>One drain empties the mailbox in eight passes and hands on, oldest first, exactly the
  queued frames whose link generation is still the port's; whatever was refused left the
  mailbox as it was, and a frame is refused for want of room exactly when eight are queued.\<close>

theorem drain_delivers_current:
  assumes "ring_inv r" "drain r generation = (handed, r')"
  shows "handed = filter (current_frame generation) (ring_content r) \<and> ring_content r' = [] \<and> ring_inv r' \<and>
    (ring_store r f = None \<longleftrightarrow> length (ring_content r) = 8) \<and>
    (ring_store r f = Some r'' \<longrightarrow> ring_content r'' = ring_content r @ [f])"
proof -
  have "handed = filter (current_frame generation) (ring_content r)" "ring_content r' = []" "ring_inv r'"
    using assms ring.pops_all [OF assms(1)] ring.pops_content [OF assms(1), of PTP_INJECT_DEPTH]
    by (auto simp: drain_def drain_loop_pops)
  moreover have "ring_store r f = None \<longleftrightarrow> length (ring_content r) = 8"
    using ring.push_full [OF assms(1)] ring.push_content [OF assms(1), of f]
    by (auto simp: ring_store_def PTP_INJECT_DEPTH_def Let_def split: if_splits)
  ultimately show ?thesis using ring.push_content [OF assms(1), of f r''] by blast
qed

definition inject_example :: ptp_injected where
  "inject_example =
     snd (ptp_inject_received_frame config_default
       (snd (ptp_inject_received_frame config_default (injected_zero\<lparr>ij_enabled := True\<rparr>) [4, 9] [4, 9]
          (Some timespec_zero) 0 (Some (replicate 60 1)) 60)) [4, 9] [4, 9]
       (Some timespec_zero) 1 (Some (replicate 60 2)) 60)"

theorem drain_delivers_current_witness:
  "map ij_port_index (fst (drain inject_example [5, 9])) = [1] \<and> ring_content (snd (drain inject_example [5, 9])) = []"
proof -
  have inv: "ring_inv inject_example" by code_simp
  have "drain inject_example [5, 9] = (fst (drain inject_example [5, 9]), snd (drain inject_example [5, 9]))" by simp
  from drain_delivers_current [OF inv this]
  have "fst (drain inject_example [5, 9]) = filter (current_frame [5, 9]) (ring_content inject_example)"
    "ring_content (snd (drain inject_example [5, 9])) = []" by blast+
  moreover have "map ij_port_index (filter (current_frame [5, 9]) (ring_content inject_example)) = [1]" by code_simp
  ultimately show ?thesis by simp
qed

lemma word_add_of_nat_neq:
  assumes "0 < n" "n < 2 ^ 32"
  shows "(x :: u32) + of_nat n \<noteq> x"
proof
  assume "x + of_nat n = x"
  then have "(of_nat n :: u32) = 0" by simp
  then have "2 ^ 32 dvd n" by (simp add: word_of_nat_eq_0_iff)
  with assms show False by (auto dest: dvd_imp_le)
qed

text \<open>What is queued is a bounded copy of the frame: it holds between 34 and 256 octets of it,
  zeros after that, for an existing port and with the generation both critical sections saw;
  every refusal names its reason and changes nothing.\<close>

theorem inject_accepts_bounded:
  assumes "ptp_inject_received_frame_from cfg r before now received port frame len mac = (res, r')"
  shows "case res of
      Inl e \<Rightarrow> r' = r \<and> e \<in> {EINVAL, EIO, ESRCH, ESTALE, ENOBUFS}
    | Inr _ \<Rightarrow> \<exists>f t. frame = Some f \<and> received = Some t \<and> valid_port cfg port \<and> 34 \<le> len \<and> len \<le> 256 \<and>
        ij_enabled r \<and> before ! nat port = now ! nat port \<and>
        ring_store r (injected_frame (nat port) (now ! nat port) f len mac t) = Some r' \<and>
        (length f = len \<longrightarrow> length (ij_message (injected_frame (nat port) (now ! nat port) f len mac t)) = 256)"
  using assms by (auto simp: ptp_inject_received_frame_from_def Let_def injected_frame_def
      split: option.splits if_splits)

theorem inject_accepts_bounded_witness:
  "fst (ptp_inject_received_frame_from config_default (injected_zero\<lparr>ij_enabled := True\<rparr>) [4, 9] [4, 10]
      (Some timespec_zero) 1 (Some (replicate 60 1)) 60 None) = Inl ESTALE"
  using inject_accepts_bounded [OF prod.collapse [symmetric], of config_default "injected_zero\<lparr>ij_enabled := True\<rparr>"
      "[4, 9]" "[4, 10]" "Some timespec_zero" 1 "Some (replicate 60 1)" 60 None]
  by (simp add: ptp_inject_received_frame_from_def valid_port_def config_default_def injected_zero_def)

end
