(* ===== verification/Ptp_Profile.thy ===== *)
theory Ptp_Profile
  imports Ptp_Timing Ptp_Announce_Schedule
begin

text \<open>
  The profile of the daemon (\<^verbatim>\<open>ptp.c\<close>): gPTP or standard PTP, the fallback of an AVB Lite endpoint
  from the first to the second, its re-arming, the explicit choice of a profile, and the reset
  that goes with every change.  The active profile and the preferred one differ exactly
  while a fallback is in force.
\<close>

section \<open>Parts of the reset\<close>

definition ptp_reset_unicast_delay_req :: "ptp_daemon \<Rightarrow> ptp_daemon" where
  "ptp_reset_unicast_delay_req d =
     map_source (\<lambda>s. s\<lparr>so_unicast_delay_req_outstanding := False, so_unicast_delay_req_misses := 0,
                       so_unicast_delay_req_retry_us := 0\<rparr>) d"

text \<open>Divisions truncate towards zero.\<close>

definition ptp_update_delay_asymmetry :: "ptp_config \<Rightarrow> ptp_daemon \<Rightarrow> ptp_daemon" where
  "ptp_update_delay_asymmetry cfg d =
     (let gm_mbps = uint (so_selected_gm_link_mbps (dm_source d));
          local_mbps = uint (lk_negotiated_link_mbps (po_link (port_at d 0)));
          frame_octets = (if cf_lite_priority_tag cfg then 66 else 64);
          asymmetry_ns =
            (if \<not> dm_gptp d \<and> gm_mbps > 0 \<and> local_mbps > 0 \<and> gm_mbps \<noteq> local_mbps
             then (4 * frame_octets * 1000 * (local_mbps - gm_mbps)) sdiv (gm_mbps * local_mbps) else 0)
      in map_source (\<lambda>s. s\<lparr>so_delay_asymmetry_ns := asymmetry_ns\<rparr>) d)"

text \<open>\<open>mbps\<close> is what the driver reports of the link (0: unknown or down).\<close>

definition ptp_refresh_link_speed :: "ptp_config \<Rightarrow> ptp_daemon \<Rightarrow> int \<Rightarrow> u32 \<Rightarrow> ptp_daemon" where
  "ptp_refresh_link_speed cfg d now_us driver_mbps =
     (let p = port_at d 0 in
      if pg_medium (po_config p) \<noteq> ptp_port_medium_eth_hwts \<or> \<not> lk_socket_open (po_link p) then d
      else if lk_link_speed_checked_us (po_link p) \<noteq> 0 \<and>
              now_us - lk_link_speed_checked_us (po_link p) < 3000000 then d
      else
        let d = map_port 0 (\<lambda>p. p\<lparr>po_link := (po_link p)\<lparr>lk_link_speed_checked_us := now_us\<rparr>\<rparr>) d;
            mbps = (if lk_link_up (po_link p) then driver_mbps else 0)
        in if mbps \<noteq> lk_negotiated_link_mbps (po_link p) then
             ptp_update_delay_asymmetry cfg
               (map_port 0 (\<lambda>p. p\<lparr>po_link := (po_link p)\<lparr>lk_negotiated_link_mbps := mbps\<rparr>\<rparr>) d)
           else d)"

definition ptp_clean_after_step :: "ptp_daemon \<Rightarrow> ptp_daemon" where
  "ptp_clean_after_step d =
     (let d = map_port 0 (\<lambda>p. p\<lparr>po_peer_exchange := ptp_peer_abandon (po_peer_exchange p),
                               po_peer_rate := (po_peer_rate p)\<lparr>pr_reanchor := True\<rparr>\<rparr>) d;
          d = ptp_invalidate_timing d
      in map_servo (\<lambda>s. s\<lparr>sv_remote_time_ns_prev := 0, sv_local_time_ns_prev := 0, sv_drift_acc := 0,
                          sv_wired_integral_q16 := sv_freq_trim_ppb s * 65536, sv_last_offset_ns := 0\<rparr>) d)"

definition reset_peer :: "ptp_wifi_peer \<Rightarrow> ptp_wifi_peer" where
  "reset_peer peer =
     (let (stopped, revision) = ptp_sync_interval_reset (wp_sync_stopped peer, wp_sync_revision peer)
      in peer\<lparr>wp_capable := (wp_capable peer)\<lparr>cr_valid := False\<rparr>, wp_sync_stopped := stopped,
              wp_sync_revision := revision, wp_announce := ptp_announce_reset (wp_announce peer),
              wp_transmit := schedule_retire (wp_transmit peer)\<rparr>)"

definition reset_capable :: "ptp_port_capable \<Rightarrow> ptp_port_capable" where
  "reset_capable k =
     (let n = pk_wifi_neighbor k;
          (stopped, revision) = ptp_sync_interval_reset (wn_sync_stopped n, wn_sync_revision n);
          peers = pk_wifi_peers k
      in k\<lparr>pk_capable_receive := (pk_capable_receive k)\<lparr>cr_valid := False\<rparr>,
           pk_wired_capable := wired_capable_zero\<lparr>wc_transmit := schedule_retire (wc_transmit (pk_wired_capable k))\<rparr>,
           pk_wifi_neighbor := n\<lparr>wn_transmit := schedule_retire (wn_transmit n), wn_sync_stopped := stopped,
                                 wn_sync_revision := revision\<rparr>,
           pk_wifi_peers := peers\<lparr>ws_entries := map reset_peer (ws_entries peers)\<rparr>\<rparr>)"

definition reset_delay :: "ptp_port \<Rightarrow> ptp_port" where
  "reset_delay p =
     p\<lparr>po_sync := (po_sync p)\<lparr>ts_twostep_pending := False\<rparr>,
       po_delay := (po_delay p)\<lparr>pd_path_delay_avgcount := 0, pd_path_delay_ns := 0,
         pd_peer_delay_avgcount := 0, pd_peer_delay_ns := 0, pd_can_send_delayreq := False,
         pd_delayreq_time := timespec_zero\<rparr>,
       po_sent := (po_sent p)\<lparr>pt_last_transmitted_delayreq := timespec_zero\<rparr>\<rparr>"

definition forget_source :: "ptp_source \<Rightarrow> ptp_source" where
  "forget_source s =
     s\<lparr>so_selected_source_valid := False, so_selected_source := announce_msg_zero, so_selected_path := []\<rparr>"

definition retire_injected :: "ptp_daemon \<Rightarrow> ptp_daemon" where
  "retire_injected d = d\<lparr>dm_injected_generation := map (\<lambda>g. g + 1) (dm_injected_generation d)\<rparr>"

definition ptp_reset_for_profile :: "ptp_config \<Rightarrow> ptp_daemon \<Rightarrow> ptp_daemon" where
  "ptp_reset_for_profile cfg d =
     (let d = retire_injected d;
          d = map_state (\<lambda>s. s\<lparr>st_port := map (\<lambda>p. p\<lparr>po_capable := reset_capable (po_capable p)\<rparr>) (st_port s)\<rparr>) d;
          d = ptp_invalidate_timing d;
          d = map_source (\<lambda>s. (forget_source s)\<lparr>so_last_selected_announce := timespec_zero,
                                so_selected_source_mac := None, so_selected_gm_link_mbps := 0\<rparr>) d;
          d = ptp_reset_unicast_delay_req d;
          d = ptp_update_delay_asymmetry cfg d;
          d = map_port 0 reset_delay d;
          d = map_servo (\<lambda>s. s\<lparr>sv_correction_ns := 0\<rparr>) d;
          d = ptp_clean_after_step d;
          interval = (if dm_gptp d then cf_pdelayreq_interval_ms cfg else cf_delayreq_interval_ms cfg)
      in map_port 0 (\<lambda>p. p\<lparr>po_delay := (po_delay p)\<lparr>pd_delayreq_interval_ms := interval,
                            pd_next_delayreq_interval_ms := interval\<rparr>\<rparr>) d)"

section \<open>Fallback\<close>

definition rearm_port :: "ptp_port \<Rightarrow> ptp_port" where
  "rearm_port p =
     p\<lparr>po_sent := (po_sent p)\<lparr>pt_last_transmitted_delayreq := timespec_zero,
                               pt_last_endpoint_beacon := timespec_zero\<rparr>,
       po_lite := \<lparr>pl_peer_is_endpoint = False, pl_pdelay_resp_responders = replicate 4 (replicate 8 0),
                   pl_pdelay_resp_responder_count = 0, pl_pdelay_multi_responder = False\<rparr>,
       po_peer_exchange := (po_peer_exchange p)\<lparr>px_lost_responses := 0\<rparr>\<rparr>"

definition ptp_arm_profile_fallback :: "ptp_config \<Rightarrow> ptp_daemon \<Rightarrow> ptp_daemon" where
  "ptp_arm_profile_fallback cfg d =
     (let d = (if st_active_ptp_profile (dm_state d) \<noteq> st_preferred_ptp_profile (dm_state d)
               then ptp_reset_for_profile cfg
                      (map_state (\<lambda>s. s\<lparr>st_active_ptp_profile := st_preferred_ptp_profile s\<rparr>) d)
               else d)
      in if \<not> dm_gptp d then map_state (\<lambda>s. s\<lparr>st_avb_lite_fallback_reason := 4\<rparr>) d
         else map_port 0 rearm_port
                (map_state (\<lambda>s. s\<lparr>st_avb_lite_fallback_reason := 0, st_gptp_fallback_done := False\<rparr>) d))"

definition fall_back :: "ptp_config \<Rightarrow> ptp_daemon \<Rightarrow> u8 \<Rightarrow> ptp_daemon" where
  "fall_back cfg d reason =
     ptp_reset_for_profile cfg
       (map_state (\<lambda>s. s\<lparr>st_gptp_fallback_done := True, st_avb_lite_fallback_reason := reason,
                         st_active_ptp_profile := ptp_profile_standard\<rparr>) d)"

definition PTP_RX_DROP_WINDOW_US :: int where "PTP_RX_DROP_WINDOW_US = 10 * 1000 * 1000"

text \<open>\<open>last_drop_us\<close> is what the application's receive-drop probe reports (0: no probe, or no
  drop); \<open>now_us\<close> and \<open>probe_us\<close> are the two readings of the timer.  The latch
  \<open>s_fallback_held\<close> only limits a log message and is left out.\<close>

definition ptp_check_profile_fallback ::
  "ptp_config \<Rightarrow> ptp_daemon \<Rightarrow> int \<Rightarrow> int \<Rightarrow> int \<Rightarrow> ptp_daemon" where
  "ptp_check_profile_fallback cfg d now_us probe_us last_drop_us =
     (if \<not> cf_avb_lite_endpoint cfg then d
      else if \<not> dm_gptp d \<or> st_gptp_fallback_done (dm_state d) then d
      else if pg_type (po_config (port_at d 0)) = ptp_port_type_bridged then d
      else if pl_peer_is_endpoint (po_lite (port_at d 0)) then fall_back cfg d 1
      else
        let d = map_port 0 (\<lambda>p. p\<lparr>po_peer_exchange := snd (ptp_peer_expire (po_peer_exchange p) now_us)\<rparr>) d;
            unanswered = px_lost_responses (po_peer_exchange (port_at d 0))
        in if unanswered \<ge> 9 \<and> last_drop_us \<noteq> 0 \<and> probe_us - last_drop_us < PTP_RX_DROP_WINDOW_US then d
           else if unanswered \<ge> 9 then fall_back cfg d 2
           else if pl_pdelay_multi_responder (po_lite (port_at d 0)) then fall_back cfg d 3
           else d)"

definition ptpd_set_profile :: "ptp_config \<Rightarrow> ptp_daemon \<Rightarrow> ptp_profile_e \<Rightarrow> (ptp_errno, unit) sum \<times> ptp_daemon" where
  "ptpd_set_profile cfg d profile =
     (if \<not> dm_running d then (Inl ESRCH, d)
      else if st_active_ptp_profile (dm_state d) \<noteq> profile then
        let d = map_state (\<lambda>s. s\<lparr>st_active_ptp_profile := profile, st_preferred_ptp_profile := profile\<rparr>) d;
            d = ptp_reset_for_profile cfg d
        in (Inr (), if profile = ptp_profile_gptp then ptp_arm_profile_fallback cfg d else d)
      else (Inr (), d))"

section \<open>Unicast delay requests\<close>

definition PTP_UNICAST_DELAY_REQ_MISSES :: u8 where "PTP_UNICAST_DELAY_REQ_MISSES = 3"
definition PTP_UNICAST_DELAY_REQ_RETRY_US :: int where "PTP_UNICAST_DELAY_REQ_RETRY_US = 60 * 1000000"

definition count_miss :: "int \<Rightarrow> ptp_source \<Rightarrow> ptp_source" where
  "count_miss now_us s =
     (if so_unicast_delay_req_outstanding s then
        let misses = so_unicast_delay_req_misses s + 1 in
        if misses \<ge> PTP_UNICAST_DELAY_REQ_MISSES
        then s\<lparr>so_unicast_delay_req_outstanding := False, so_unicast_delay_req_misses := 0,
               so_unicast_delay_req_retry_us := now_us + PTP_UNICAST_DELAY_REQ_RETRY_US\<rparr>
        else s\<lparr>so_unicast_delay_req_outstanding := False, so_unicast_delay_req_misses := misses\<rparr>
      else s)"

definition ptp_unicast_delay_req_active :: "ptp_config \<Rightarrow> ptp_daemon \<Rightarrow> int \<Rightarrow> bool \<times> ptp_daemon" where
  "ptp_unicast_delay_req_active cfg d now_us =
     (if \<not> cf_unicast_delay_req cfg then (False, d)
      else
        case so_selected_source_mac (dm_source d) of
          None \<Rightarrow> (False, d)
        | Some mac \<Rightarrow>
            if bit (mac ! 0) 0 then (False, d)
            else
              let d = map_source (count_miss now_us) d;
                  retry_us = so_unicast_delay_req_retry_us (dm_source d)
              in if retry_us \<noteq> 0 \<and> now_us < retry_us then (False, d)
                 else (True, map_source (\<lambda>s. s\<lparr>so_unicast_delay_req_retry_us := 0\<rparr>) d))"

section \<open>What the operations leave alone\<close>

definition profile_of :: "ptp_daemon \<Rightarrow> ptp_profile_e \<times> ptp_profile_e \<times> bool \<times> u8" where
  "profile_of d = (st_active_ptp_profile (dm_state d), st_preferred_ptp_profile (dm_state d),
     st_gptp_fallback_done (dm_state d), st_avb_lite_fallback_reason (dm_state d))"

lemma profile_of_maps [simp]:
  "profile_of (map_port i f d) = profile_of d" "profile_of (map_servo g d) = profile_of d"
  "profile_of (map_source h d) = profile_of d" "profile_of (ptp_invalidate_timing d) = profile_of d"
  "profile_of (retire_injected d) = profile_of d"
  "profile_of (map_state (\<lambda>s. s\<lparr>st_port := k s\<rparr>) d) = profile_of d"
  by (simp_all add: profile_of_def map_servo_def map_source_def ptp_invalidate_timing_def retire_injected_def)

lemma invalidate_timing_simps [simp]:
  "dm_state (ptp_invalidate_timing d) = dm_state d"
  "dm_injected_generation (ptp_invalidate_timing d) = dm_injected_generation d"
  "port_at (ptp_invalidate_timing d) i = port_at d i"
  "dm_running (ptp_invalidate_timing d) = dm_running d"
  by (simp_all add: ptp_invalidate_timing_def port_at_def)

lemma timing_parts_simps [simp]:
  "\<not> tm_valid (dm_timing (ptp_invalidate_timing d))" "\<not> tm_valid (dm_local_source (ptp_invalidate_timing d))"
  "dm_local_source (map_servo f d) = dm_local_source d" "dm_local_source (map_source h d) = dm_local_source d"
  by (simp_all add: ptp_invalidate_timing_def map_servo_def map_source_def)

lemma retire_injected_simps [simp]:
  "dm_state (retire_injected d) = dm_state d" "dm_running (retire_injected d) = dm_running d"
  "dm_injected_generation (retire_injected d) = map (\<lambda>g. g + 1) (dm_injected_generation d)"
  by (simp_all add: retire_injected_def)

lemma reset_for_profile_keeps [simp]:
  "profile_of (ptp_reset_for_profile cfg d) = profile_of d"
  "dm_running (ptp_reset_for_profile cfg d) = dm_running d"
  "num_ports (ptp_reset_for_profile cfg d) = num_ports d"
  by (simp_all add: ptp_reset_for_profile_def Let_def ptp_clean_after_step_def ptp_update_delay_asymmetry_def
      ptp_reset_unicast_delay_req_def)

lemma gptp_profile_of: "dm_gptp d \<longleftrightarrow> fst (profile_of d) = ptp_profile_gptp"
  by (simp add: profile_of_def ptp_is_gptp_def)

lemma reset_for_profile_gptp [simp]: "ptp_is_gptp (dm_state (ptp_reset_for_profile cfg d)) = dm_gptp d"
  by (simp add: gptp_profile_of)

lemma profile_of_fall_back [simp]:
  "profile_of (fall_back cfg d r) = (ptp_profile_standard, st_preferred_ptp_profile (dm_state d), True, r)"
  by (simp add: fall_back_def profile_of_def [of "map_state f d" for f d])

lemma profile_of_arm:
  "profile_of (ptp_arm_profile_fallback cfg d) =
     (let pref = st_preferred_ptp_profile (dm_state d) in
      if pref = ptp_profile_gptp then (pref, pref, False, 0)
      else (pref, pref, st_gptp_fallback_done (dm_state d), 4))"
proof -
  define d1 where "d1 = (if st_active_ptp_profile (dm_state d) \<noteq> st_preferred_ptp_profile (dm_state d)
      then ptp_reset_for_profile cfg (map_state (\<lambda>s. s\<lparr>st_active_ptp_profile := st_preferred_ptp_profile s\<rparr>) d)
      else d)"
  have p1: "profile_of d1 = (st_preferred_ptp_profile (dm_state d), st_preferred_ptp_profile (dm_state d),
      st_gptp_fallback_done (dm_state d), st_avb_lite_fallback_reason (dm_state d))"
    by (simp add: d1_def) (simp add: profile_of_def)
  have "ptp_arm_profile_fallback cfg d =
      (if \<not> dm_gptp d1 then map_state (\<lambda>s. s\<lparr>st_avb_lite_fallback_reason := 4\<rparr>) d1
       else map_port 0 rearm_port
              (map_state (\<lambda>s. s\<lparr>st_avb_lite_fallback_reason := 0, st_gptp_fallback_done := False\<rparr>) d1))"
    by (simp only: ptp_arm_profile_fallback_def d1_def Let_def)
  then show ?thesis
    using p1 by (simp add: gptp_profile_of Let_def) (simp add: profile_of_def)
qed

section \<open>The profile as a state machine\<close>

text \<open>The handlers that may change the profile, and any other work on the ports, the servo and the
  source, which does not.\<close>

inductive profile_step :: "ptp_config \<Rightarrow> ptp_daemon \<Rightarrow> ptp_daemon \<Rightarrow> bool" for cfg where
  check: "profile_step cfg d (ptp_check_profile_fallback cfg d now_us probe_us last_drop_us)"
| rearm: "profile_step cfg d (ptp_arm_profile_fallback cfg d)"
| chosen: "profile_step cfg d (snd (ptpd_set_profile cfg d profile))"
| work: "profile_of d' = profile_of d \<Longrightarrow> profile_step cfg d d'"

definition profile_inv :: "ptp_daemon \<Rightarrow> bool" where
  "profile_inv d \<longleftrightarrow> (case profile_of d of (active, preferred, fallen, reason) \<Rightarrow>
     active = preferred \<or>
     active = ptp_profile_standard \<and> preferred = ptp_profile_gptp \<and> fallen \<and> reason \<in> {1, 2, 3})"

lemma check_profile_cases:
  "profile_of (ptp_check_profile_fallback cfg d now_us probe_us last_drop_us) = profile_of d \<or>
   (\<exists>r \<in> {1, 2, 3}. cf_avb_lite_endpoint cfg \<and> dm_gptp d \<and>
      profile_of (ptp_check_profile_fallback cfg d now_us probe_us last_drop_us) =
        (ptp_profile_standard, st_preferred_ptp_profile (dm_state d), True, r))"
  by (auto simp: ptp_check_profile_fallback_def Let_def)

lemma profile_inv_step: "profile_step cfg d d' \<Longrightarrow> profile_inv d \<Longrightarrow> profile_inv d'"
proof (induction rule: profile_step.induct)
  case (check d now_us probe_us last_drop_us)
  from check_profile_cases [of cfg d now_us probe_us last_drop_us] show ?case
  proof
    assume "\<exists>r \<in> {1, 2, 3}. cf_avb_lite_endpoint cfg \<and> dm_gptp d \<and>
      profile_of (ptp_check_profile_fallback cfg d now_us probe_us last_drop_us) =
        (ptp_profile_standard, st_preferred_ptp_profile (dm_state d), True, r)"
    then show ?thesis
      using check by (cases "st_preferred_ptp_profile (dm_state d)") (auto simp: profile_inv_def)
  qed (use check in \<open>simp add: profile_inv_def\<close>)
next
  case (rearm d)
  show ?case by (simp add: profile_inv_def profile_of_arm Let_def)
next
  case (chosen d profile)
  have "profile_of (ptp_reset_for_profile cfg (map_state
      (\<lambda>s. s\<lparr>st_active_ptp_profile := q, st_preferred_ptp_profile := q\<rparr>) d)) =
      (q, q, st_gptp_fallback_done (dm_state d), st_avb_lite_fallback_reason (dm_state d))" for q
    by simp (simp add: profile_of_def)
  then show ?case using chosen
    by (simp add: ptpd_set_profile_def Let_def profile_inv_def profile_of_arm)
qed (simp add: profile_inv_def)

text \<open>C25. In every reachable state the active profile is the preferred one, or a fallback from
  preferred gPTP is in force with its reason recorded; so a link-up, which re-arms the
  fallback, always returns the daemon to its preferred profile.\<close>

theorem profile_fallback_recovers:
  assumes "(profile_step cfg)\<^sup>*\<^sup>* d0 d" "st_active_ptp_profile (dm_state d0) = st_preferred_ptp_profile (dm_state d0)"
  shows "profile_inv d \<and>
    st_active_ptp_profile (dm_state (ptp_arm_profile_fallback cfg d)) = st_preferred_ptp_profile (dm_state d) \<and>
    st_preferred_ptp_profile (dm_state (ptp_arm_profile_fallback cfg d)) = st_preferred_ptp_profile (dm_state d) \<and>
    (st_preferred_ptp_profile (dm_state d) = ptp_profile_gptp \<longrightarrow>
      \<not> st_gptp_fallback_done (dm_state (ptp_arm_profile_fallback cfg d)))"
proof -
  have "profile_inv d0" using assms(2) by (simp add: profile_inv_def profile_of_def)
  with assms(1) have "profile_inv d" by (induction rule: rtranclp_induct) (auto intro: profile_inv_step)
  then show ?thesis using profile_of_arm [of cfg d] by (simp add: profile_of_def Let_def split: if_splits)
qed

definition profile_example :: ptp_daemon where
  "profile_example = map_state (\<lambda>s. s\<lparr>st_active_ptp_profile := ptp_profile_gptp,
     st_preferred_ptp_profile := ptp_profile_gptp\<rparr>) (daemon_zero 2)"

definition fallen_example :: ptp_daemon where
  "fallen_example = ptp_check_profile_fallback config_default
     (map_port 0 (\<lambda>p. p\<lparr>po_lite := (po_lite p)\<lparr>pl_peer_is_endpoint := True\<rparr>\<rparr>) profile_example) 0 0 0"

theorem profile_fallback_recovers_witness:
  "st_active_ptp_profile (dm_state fallen_example) = ptp_profile_standard \<and>
   st_active_ptp_profile (dm_state (ptp_arm_profile_fallback config_default fallen_example)) = ptp_profile_gptp"
proof -
  define e where "e = map_port 0 (\<lambda>p. p\<lparr>po_lite := (po_lite p)\<lparr>pl_peer_is_endpoint := True\<rparr>\<rparr>) profile_example"
  have "profile_step config_default profile_example e" by (rule profile_step.work) (simp add: e_def)
  moreover have "profile_step config_default e fallen_example"
    unfolding fallen_example_def e_def by (rule profile_step.check)
  ultimately have run: "(profile_step config_default)\<^sup>*\<^sup>* profile_example fallen_example" by force
  have "st_active_ptp_profile (dm_state profile_example) = st_preferred_ptp_profile (dm_state profile_example)"
    by (simp add: profile_example_def)
  from profile_fallback_recovers [OF run this]
  have "st_active_ptp_profile (dm_state (ptp_arm_profile_fallback config_default fallen_example)) =
      st_preferred_ptp_profile (dm_state fallen_example)" by blast
  moreover have "st_active_ptp_profile (dm_state fallen_example) = ptp_profile_standard"
    "st_preferred_ptp_profile (dm_state fallen_example) = ptp_profile_gptp"
    by code_simp+
  ultimately show ?thesis by simp
qed

text \<open>The fallback is justified: it happens only on an endpoint build, in gPTP, once per
  link-up, not on a bridge, and only because the peer declared itself an endpoint, or nine
  requests went unanswered while the receiver had dropped nothing for ten seconds, or several
  responders answered; the recorded reason says which.\<close>

theorem fallback_justified:
  assumes "0 < num_ports d" "profile_of (ptp_check_profile_fallback cfg d now_us probe_us last_drop_us) \<noteq> profile_of d"
  defines "x \<equiv> snd (ptp_peer_expire (po_peer_exchange (port_at d 0)) now_us)"
  shows "cf_avb_lite_endpoint cfg \<and> dm_gptp d \<and> \<not> st_gptp_fallback_done (dm_state d) \<and>
    pg_type (po_config (port_at d 0)) \<noteq> ptp_port_type_bridged \<and>
    st_gptp_fallback_done (dm_state (ptp_check_profile_fallback cfg d now_us probe_us last_drop_us)) \<and>
    (case st_avb_lite_fallback_reason (dm_state (ptp_check_profile_fallback cfg d now_us probe_us last_drop_us)) of
       r \<Rightarrow> r = 1 \<and> pl_peer_is_endpoint (po_lite (port_at d 0)) \<or>
            r = 2 \<and> px_lost_responses x \<ge> 9 \<and>
              (last_drop_us = 0 \<or> probe_us - last_drop_us \<ge> PTP_RX_DROP_WINDOW_US) \<or>
            r = 3 \<and> px_lost_responses x < 9 \<and> pl_pdelay_multi_responder (po_lite (port_at d 0)))"
proof -
  have fb: "st_gptp_fallback_done (dm_state (fall_back cfg e r))"
    "st_avb_lite_fallback_reason (dm_state (fall_back cfg e r)) = r" for e r
    using profile_of_fall_back [of cfg e r] by (simp_all add: profile_of_def)
  show ?thesis
    using assms(1,2) unfolding ptp_check_profile_fallback_def Let_def x_def
    by (auto simp: fb not_le split: if_splits)
qed

definition silent_example :: ptp_daemon where
  "silent_example = map_port 0 (\<lambda>p. p\<lparr>po_peer_exchange := (po_peer_exchange p)\<lparr>px_lost_responses := 9\<rparr>\<rparr>) profile_example"

theorem fallback_justified_witness:
  "st_avb_lite_fallback_reason (dm_state (ptp_check_profile_fallback config_default silent_example 100 100 0)) = 2 \<and>
   px_lost_responses (snd (ptp_peer_expire (po_peer_exchange (port_at silent_example 0)) 100)) \<ge> 9"
proof -
  have "0 < num_ports silent_example"
    "profile_of (ptp_check_profile_fallback config_default silent_example 100 100 0) \<noteq> profile_of silent_example"
    "st_avb_lite_fallback_reason (dm_state (ptp_check_profile_fallback config_default silent_example 100 100 0)) = 2"
    by code_simp+
  with fallback_justified [of silent_example config_default 100 100 0] show ?thesis by simp
qed

text \<open>C37. An explicit choice of standard PTP while a fallback is in force is accepted and has no
  effect: the preferred profile stays gPTP, and the next link-up takes the daemon back to it.\<close>

theorem explicit_standard_lost:
  assumes "dm_running d" "st_active_ptp_profile (dm_state d) = ptp_profile_standard"
    and "st_preferred_ptp_profile (dm_state d) = ptp_profile_gptp"
  shows "ptpd_set_profile cfg d ptp_profile_standard = (Inr (), d) \<and>
    dm_gptp (ptp_arm_profile_fallback cfg (snd (ptpd_set_profile cfg d ptp_profile_standard)))"
proof -
  have "ptpd_set_profile cfg d ptp_profile_standard = (Inr (), d)"
    using assms by (simp add: ptpd_set_profile_def)
  then show ?thesis using assms by (simp add: gptp_profile_of profile_of_arm)
qed

theorem explicit_standard_lost_witness:
  "dm_gptp (ptp_arm_profile_fallback config_default
     (snd (ptpd_set_profile config_default fallen_example ptp_profile_standard)))"
proof -
  have "dm_running fallen_example" "st_active_ptp_profile (dm_state fallen_example) = ptp_profile_standard"
    "st_preferred_ptp_profile (dm_state fallen_example) = ptp_profile_gptp"
    by code_simp+
  then show ?thesis using explicit_standard_lost by blast
qed

section \<open>What a change of profile retires\<close>

lemma abandon_voids:
  "\<not> px_published (ptp_peer_abandon x)" "\<not> px_sending (ptp_peer_abandon x)"
  "\<not> px_response_seen (ptp_peer_abandon x)" "px_generation (ptp_peer_abandon x) = bump32 (px_generation x)"
  by (simp_all add: ptp_peer_abandon_def ptp_peer_invalidate_def exchange_zero_def)

lemma reset_capable_simps [simp]:
  "\<not> cr_valid (pk_capable_receive (reset_capable k))"
  "\<not> wc_bound (pk_wired_capable (reset_capable k))"
  "wc_transmit (pk_wired_capable (reset_capable k)) = schedule_retire (wc_transmit (pk_wired_capable k))"
  "wn_transmit (pk_wifi_neighbor (reset_capable k)) = schedule_retire (wn_transmit (pk_wifi_neighbor k))"
  "ws_entries (pk_wifi_peers (reset_capable k)) = map reset_peer (ws_entries (pk_wifi_peers k))"
  by (simp_all add: reset_capable_def Let_def split_beta wired_capable_zero_def)

lemma port_at_map_all:
  "i < num_ports d \<Longrightarrow> port_at (map_state (\<lambda>s. s\<lparr>st_port := map f (st_port s)\<rparr>) d) i = f (port_at d i)"
  by (simp add: port_at_def)

lemma port_at_retire [simp]: "port_at (retire_injected d) i = port_at d i"
  by (simp add: port_at_def)

text \<open>A change of profile retires everything the old profile had under way: on every port
  the queued frames' generation has passed, the neighbor's indication is void, and no
  capability or Announce transmission is outstanding, while serial numbers go on, so a
  completion that arrives late is not believed; the peer exchange in flight is voided under a
  new generation, the source and its timing are gone, and the rate of the clock is kept.\<close>

theorem profile_change_retires:
  assumes "daemon_wf cfg d" "i < cf_num_ports cfg"
  defines "d' \<equiv> ptp_reset_for_profile cfg d"
  shows "dm_injected_generation d' ! i \<noteq> dm_injected_generation d ! i \<and>
    \<not> cr_valid (pk_capable_receive (po_capable (port_at d' i))) \<and>
    wc_transmit (pk_wired_capable (po_capable (port_at d' i))) =
      schedule_retire (wc_transmit (pk_wired_capable (po_capable (port_at d i)))) \<and>
    ws_entries (pk_wifi_peers (po_capable (port_at d' i))) =
      map reset_peer (ws_entries (pk_wifi_peers (po_capable (port_at d i)))) \<and>
    \<not> px_published (po_peer_exchange (port_at d' 0)) \<and> \<not> px_sending (po_peer_exchange (port_at d' 0)) \<and>
    px_generation (po_peer_exchange (port_at d' 0)) \<noteq> px_generation (po_peer_exchange (port_at d 0)) \<and>
    \<not> so_selected_source_valid (dm_source d') \<and> so_delay_asymmetry_ns (dm_source d') = 0 \<and>
    \<not> tm_valid (dm_timing d') \<and> \<not> tm_valid (dm_local_source d') \<and>
    sv_freq_trim_ppb (dm_servo d') = sv_freq_trim_ppb (dm_servo d) \<and>
    sv_wired_integral_q16 (dm_servo d') = sv_freq_trim_ppb (dm_servo d) * 65536"
proof -
  have n: "0 < num_ports d" "i < num_ports d" "i < length (dm_injected_generation d)"
    using assms(1,2) by (simp_all add: daemon_wf_def)
  show ?thesis
    unfolding d'_def ptp_reset_for_profile_def Let_def ptp_clean_after_step_def ptp_update_delay_asymmetry_def
      ptp_reset_unicast_delay_req_def
    using n by (simp add: port_at_map_all abandon_voids reset_delay_def forget_source_def)
qed

theorem profile_change_retires_witness:
  "let d' = ptp_reset_for_profile config_default profile_example
   in dm_injected_generation d' ! 1 \<noteq> dm_injected_generation profile_example ! 1 \<and>
      \<not> so_selected_source_valid (dm_source d') \<and> \<not> tm_valid (dm_timing d')"
proof -
  have "daemon_wf config_default profile_example" "1 < cf_num_ports config_default" by code_simp+
  from profile_change_retires [OF this] show ?thesis by (simp add: Let_def)
qed

end
