(* ===== verification/Ptp_Link.thy ===== *)
theory Ptp_Link
  imports Ptp_Profile Ptp_Inject
begin

text \<open>
  Links and associations of the daemon (\<^verbatim>\<open>ptp.c\<close>): the Ethernet and Wi-Fi event handlers, the entry
  points through which the radio transports read and reconcile the associations of a port,
  and the capability of a port (asCapable).  Every entry point is one critical
  section on the port and, where something was retired, a second one that increments the port's
  link generation.
\<close>

section \<open>Guards\<close>

text \<open>The test the association entry points share: an enabled gPTP port on an access point
  (a station) whose link is up.\<close>

definition radio_ready :: "ptp_daemon \<Rightarrow> nat \<Rightarrow> ptp_port_wifi_mode_e \<Rightarrow> bool" where
  "radio_ready d i mode \<longleftrightarrow>
     pg_enabled (po_config (port_at d i)) \<and> lk_link_up (po_link (port_at d i)) \<and> dm_gptp d \<and>
     pg_medium (po_config (port_at d i)) = ptp_port_medium_wifi_ftm \<and>
     pg_wifi_mode (po_config (port_at d i)) = mode"

definition bump_generation :: "nat \<Rightarrow> ptp_daemon \<Rightarrow> ptp_daemon" where
  "bump_generation i d =
     d\<lparr>dm_injected_generation := (dm_injected_generation d)[i := dm_injected_generation d ! i + 1]\<rparr>"

definition map_capable :: "nat \<Rightarrow> (ptp_port_capable \<Rightarrow> ptp_port_capable) \<Rightarrow> ptp_daemon \<Rightarrow> ptp_daemon" where
  "map_capable i f d = map_port i (\<lambda>p. p\<lparr>po_capable := f (po_capable p)\<rparr>) d"

abbreviation wifi_neighbor_at :: "ptp_daemon \<Rightarrow> nat \<Rightarrow> ptp_wifi_neighbor" where
  "wifi_neighbor_at d i \<equiv> pk_wifi_neighbor (po_capable (port_at d i))"

abbreviation wifi_peers_at :: "ptp_daemon \<Rightarrow> nat \<Rightarrow> ptp_wifi_peers" where
  "wifi_peers_at d i \<equiv> pk_wifi_peers (po_capable (port_at d i))"

section \<open>Entry points of the radio transports\<close>

record ptp_wifi_sta_timing =
  wt_association :: u32
  wt_revision :: u32
  wt_bssid :: bytes
  wt_stopped :: bool

definition ptpd_wifi_sta_timing_snapshot :: "ptp_config \<Rightarrow> ptp_daemon \<Rightarrow> int \<Rightarrow> ptp_wifi_sta_timing option" where
  "ptpd_wifi_sta_timing_snapshot cfg d port_index =
     (if \<not> valid_port cfg port_index \<or> \<not> dm_running d then None
      else
        let i = nat port_index; neighbor = wifi_neighbor_at d i in
        if radio_ready d i ptp_port_wifi_mode_sta \<and> wn_associated neighbor \<and> wn_bound neighbor
        then Some \<lparr>wt_association = wn_association neighbor, wt_revision = wn_sync_revision neighbor,
                   wt_bssid = wn_bssid neighbor, wt_stopped = wn_sync_stopped neighbor\<rparr>
        else None)"

definition ptpd_wifi_association_snapshot ::
  "ptp_config \<Rightarrow> ptp_daemon \<Rightarrow> int \<Rightarrow> ptp_wifi_association_snapshot option" where
  "ptpd_wifi_association_snapshot cfg d port_index =
     (if \<not> valid_port cfg port_index \<or> \<not> dm_running d then None
      else
        let i = nat port_index in
        if radio_ready d i ptp_port_wifi_mode_ap \<and>
           ptp_wifi_peers_publishable (cf_ap_via_coprocessor cfg) (wifi_peers_at d i)
        then ptp_wifi_peers_snapshot (wifi_peers_at d i) (i + 1) (cf_num_ports cfg)
        else None)"

definition ptpd_wifi_association_reconcile ::
  "ptp_config \<Rightarrow> ptp_daemon \<Rightarrow> int \<Rightarrow> u32 \<Rightarrow> u32 \<Rightarrow> bytes list \<Rightarrow> bool \<times> ptp_daemon" where
  "ptpd_wifi_association_reconcile cfg d port_index radio_boot radio_generation macs =
     (if \<not> valid_port cfg port_index \<or> \<not> dm_running d then (False, d)
      else
        let i = nat port_index in
        if \<not> radio_ready d i ptp_port_wifi_mode_ap then (False, d)
        else
          let previous = ws_generation (wifi_peers_at d i);
              (accepted, peers) = ptp_wifi_peers_reconcile (wifi_peers_at d i) radio_boot radio_generation macs;
              changed = (accepted \<and> previous \<noteq> ws_generation peers);
              peers = (if accepted then peers\<lparr>ws_unreported := False\<rparr> else peers);
              d = map_capable i (\<lambda>k. k\<lparr>pk_wifi_peers := peers\<rparr>) d
          in (accepted, if changed then bump_generation i d else d))"

definition ptpd_wifi_association_unreported :: "ptp_config \<Rightarrow> ptp_daemon \<Rightarrow> int \<Rightarrow> ptp_daemon" where
  "ptpd_wifi_association_unreported cfg d port_index =
     (if \<not> valid_port cfg port_index \<or> \<not> dm_running d then d
      else
        let i = nat port_index in
        if pg_medium (po_config (port_at d i)) = ptp_port_medium_wifi_ftm \<and>
           pg_wifi_mode (po_config (port_at d i)) = ptp_port_wifi_mode_ap \<and>
           \<not> ws_unreported (wifi_peers_at d i)
        then bump_generation i
               (map_capable i (\<lambda>k. k\<lparr>pk_wifi_peers := (pk_wifi_peers k)\<lparr>ws_unreported := True\<rparr>\<rparr>) d)
        else d)"

text \<open>The station an Announce is for: the slot of its address, if it still is the association the
  caller means and the registry may be published.\<close>

definition announce_slot :: "ptp_config \<Rightarrow> ptp_daemon \<Rightarrow> nat \<Rightarrow> bytes \<Rightarrow> u32 \<Rightarrow> nat option" where
  "announce_slot cfg d i mac association =
     (let peers = wifi_peers_at d i in
      case ptp_wifi_peers_find peers (Some mac) of
        None \<Rightarrow> None
      | Some slot \<Rightarrow>
          if radio_ready d i ptp_port_wifi_mode_ap \<and>
             ptp_wifi_peers_publishable (cf_ap_via_coprocessor cfg) peers \<and>
             wp_association (ws_entries peers ! slot) = association
          then Some slot else None)"

definition set_announce :: "nat \<Rightarrow> nat \<Rightarrow> ptp_announce_schedule \<Rightarrow> ptp_daemon \<Rightarrow> ptp_daemon" where
  "set_announce i slot s d =
     map_capable i (\<lambda>k. k\<lparr>pk_wifi_peers := update_entry (pk_wifi_peers k) slot
        ((ws_entries (pk_wifi_peers k) ! slot)\<lparr>wp_announce := s\<rparr>)\<rparr>) d"

definition ptpd_wifi_announce_begin ::
  "ptp_config \<Rightarrow> ptp_daemon \<Rightarrow> int \<Rightarrow> bytes option \<Rightarrow> u32 \<Rightarrow> u32 \<Rightarrow> u32 \<Rightarrow> int \<Rightarrow> int \<Rightarrow>
     u32 \<times> (int \<times> u16) option \<times> ptp_daemon" where
  "ptpd_wifi_announce_begin cfg d port_index mac association revision information_revision initial now_us =
     (case mac of
        None \<Rightarrow> (0, None, d)
      | Some m \<Rightarrow>
        if \<not> valid_port cfg port_index \<or> \<not> dm_running d then (0, None, d)
        else
          let i = nat port_index in
          case announce_slot cfg d i m association of
            None \<Rightarrow> (0, None, d)
          | Some slot \<Rightarrow>
              let (token, out, s) = ptp_announce_begin (wp_announce (ws_entries (wifi_peers_at d i) ! slot))
                                      initial revision information_revision now_us
              in (token, out, set_announce i slot s d))"

definition ptpd_wifi_announce_finish ::
  "ptp_config \<Rightarrow> ptp_daemon \<Rightarrow> int \<Rightarrow> bytes option \<Rightarrow> u32 \<Rightarrow> u32 \<Rightarrow> bool \<Rightarrow> int \<Rightarrow> bool \<times> ptp_daemon" where
  "ptpd_wifi_announce_finish cfg d port_index mac association token accepted now_us =
     (case mac of
        None \<Rightarrow> (False, d)
      | Some m \<Rightarrow>
        if \<not> valid_port cfg port_index \<or> \<not> dm_running d then (False, d)
        else
          let i = nat port_index in
          case announce_slot cfg d i m association of
            None \<Rightarrow> (False, d)
          | Some slot \<Rightarrow>
              let (current, s) = ptp_announce_finish (wp_announce (ws_entries (wifi_peers_at d i) ! slot))
                                   token accepted now_us
              in (current, set_announce i slot s d))"

section \<open>Link events\<close>

text \<open>The first enabled port of the medium (-1 in the source: None).\<close>

definition ptp_find_port_by_medium :: "ptp_config \<Rightarrow> ptp_daemon \<Rightarrow> ptp_port_medium_e \<Rightarrow> nat option" where
  "ptp_find_port_by_medium cfg d medium =
     find (\<lambda>i. pg_enabled (po_config (port_at d i)) \<and> pg_medium (po_config (port_at d i)) = medium)
       [0..<cf_num_ports cfg]"

definition ptp_set_port_link :: "ptp_config \<Rightarrow> ptp_daemon \<Rightarrow> nat option \<Rightarrow> bool \<Rightarrow> ptp_daemon" where
  "ptp_set_port_link cfg d port_index up =
     (case port_index of
        None \<Rightarrow> d
      | Some i \<Rightarrow>
        if i \<ge> cf_num_ports cfg then d
        else if lk_link_up (po_link (port_at d i)) = up then d
        else
          let d = map_port i (\<lambda>p. p\<lparr>po_peer_exchange := ptp_peer_invalidate (po_peer_exchange p),
                    po_capable := (po_capable p)\<lparr>pk_capable_receive :=
                       (pk_capable_receive (po_capable p))\<lparr>cr_valid := False\<rparr>\<rparr>\<rparr>) d;
              d = bump_generation i d
          in map_port i (\<lambda>p. p\<lparr>po_link := (po_link p)\<lparr>lk_link_up := up\<rparr>\<rparr>) d)"

datatype eth_event = ETHERNET_EVENT_CONNECTED | ETHERNET_EVENT_DISCONNECTED | ETHERNET_EVENT_OTHER

definition ptp_eth_event_handler :: "ptp_config \<Rightarrow> ptp_daemon \<Rightarrow> eth_event \<Rightarrow> ptp_daemon" where
  "ptp_eth_event_handler cfg d event_id =
     (let port = ptp_find_port_by_medium cfg d ptp_port_medium_eth_hwts in
      case event_id of
        ETHERNET_EVENT_CONNECTED \<Rightarrow> ptp_arm_profile_fallback cfg (ptp_set_port_link cfg d port True)
      | ETHERNET_EVENT_DISCONNECTED \<Rightarrow> ptp_set_port_link cfg d port False
      | ETHERNET_EVENT_OTHER \<Rightarrow> d)"

text \<open>The events with their data: the access point's address, or the station's (None: the event
  carries no data).\<close>

datatype wifi_event =
    WIFI_EVENT_STA_CONNECTED "bytes option"
  | WIFI_EVENT_STA_STOP
  | WIFI_EVENT_STA_DISCONNECTED
  | WIFI_EVENT_AP_STACONNECTED "bytes option"
  | WIFI_EVENT_AP_STADISCONNECTED "bytes option"
  | WIFI_EVENT_AP_START
  | WIFI_EVENT_AP_STOP
  | WIFI_EVENT_OTHER

definition associate_port :: "nat \<Rightarrow> bytes option \<Rightarrow> ptp_daemon \<Rightarrow> ptp_daemon" where
  "associate_port i bssid d =
     map_capable i (\<lambda>k. k\<lparr>pk_wifi_neighbor := ptp_wifi_neighbor_associate (pk_wifi_neighbor k) bssid,
                          pk_capable_receive := (pk_capable_receive k)\<lparr>cr_valid := False\<rparr>\<rparr>) d"

definition ptp_wifi_event_handler :: "ptp_config \<Rightarrow> ptp_daemon \<Rightarrow> wifi_event \<Rightarrow> ptp_daemon" where
  "ptp_wifi_event_handler cfg d event =
     (case ptp_find_port_by_medium cfg d ptp_port_medium_wifi_ftm of
        None \<Rightarrow> d
      | Some port \<Rightarrow>
        let mode = pg_wifi_mode (po_config (port_at d port)) in
        case event of
          WIFI_EVENT_STA_CONNECTED bssid \<Rightarrow>
            if mode = ptp_port_wifi_mode_sta
            then ptp_set_port_link cfg (bump_generation port (associate_port port bssid d)) (Some port) True
            else d
        | WIFI_EVENT_STA_STOP \<Rightarrow>
            if mode = ptp_port_wifi_mode_sta
            then ptp_set_port_link cfg (associate_port port None d) (Some port) False else d
        | WIFI_EVENT_STA_DISCONNECTED \<Rightarrow>
            if mode = ptp_port_wifi_mode_sta
            then ptp_set_port_link cfg (associate_port port None d) (Some port) False else d
        | WIFI_EVENT_AP_STACONNECTED mac \<Rightarrow>
            if mode = ptp_port_wifi_mode_ap \<and> mac \<noteq> None
            then bump_generation port
                   (map_capable port (\<lambda>k. k\<lparr>pk_wifi_peers := snd (ptp_wifi_peers_join (pk_wifi_peers k) mac)\<rparr>) d)
            else d
        | WIFI_EVENT_AP_STADISCONNECTED mac \<Rightarrow>
            if mode = ptp_port_wifi_mode_ap \<and> mac \<noteq> None
            then bump_generation port
                   (map_capable port (\<lambda>k. k\<lparr>pk_wifi_peers := ptp_wifi_peers_leave (pk_wifi_peers k) mac\<rparr>) d)
            else d
        | WIFI_EVENT_AP_START \<Rightarrow>
            if mode = ptp_port_wifi_mode_ap then ptp_set_port_link cfg d (Some port) True else d
        | WIFI_EVENT_AP_STOP \<Rightarrow>
            if mode = ptp_port_wifi_mode_ap
            then ptp_set_port_link cfg
                   (map_capable port (\<lambda>k. k\<lparr>pk_wifi_peers := ptp_wifi_peers_clear (pk_wifi_peers k)\<rparr>) d)
                   (Some port) False
            else d
        | WIFI_EVENT_OTHER \<Rightarrow> d)"

section \<open>Capability of a port\<close>

text \<open>\<open>media\<close> is what \<open>ptp_wifi_sta_media\<close> reports of the association (None: it returns false).\<close>

definition ptp_wifi_capability ::
  "ptp_config \<Rightarrow> ptp_daemon \<Rightarrow> nat \<Rightarrow> ptp_wifi_media option \<Rightarrow> int \<Rightarrow> bool" where
  "ptp_wifi_capability cfg d i media now_us =
     (if \<not> radio_ready d i ptp_port_wifi_mode_sta then False
      else
        case media of
          None \<Rightarrow> False
        | Some m \<Rightarrow>
            let n = wifi_neighbor_at d i;
                neighbor = (wn_associated n \<and> wn_bound n \<and>
                  ptp_neighbor_capable (pk_capable_receive (po_capable (port_at d i)))
                    (Some (wn_port_identity n)) (wn_association n) now_us)
            in ptp_wifi_as_capable m neighbor (unat (cf_domain cfg)))"

text \<open>The bound port identity and the reason; both calls of \<open>ptp_wifi_sta_media\<close> have an answer.\<close>

definition ptp_wifi_sta_capability_status ::
  "ptp_config \<Rightarrow> ptp_daemon \<Rightarrow> int \<Rightarrow> ptp_wifi_media option \<Rightarrow> ptp_wifi_media option \<Rightarrow> int \<Rightarrow> bytes \<times> u8" where
  "ptp_wifi_sta_capability_status cfg d port_index media media' now_us =
     (if \<not> dm_running d \<or> \<not> valid_port cfg port_index then (replicate 10 0, 2)
      else
        let i = nat port_index;
            n = wifi_neighbor_at d i;
            identity = (if wn_associated n \<and> wn_bound n then wn_port_identity n else replicate 10 0)
        in if ptp_wifi_capability cfg d i media now_us then (identity, 0)
           else
             (case media' of
                None \<Rightarrow> (identity, 2)
              | Some m \<Rightarrow>
                  let support = ptp_wifi_tm_ftm_support m in
                  if support = 0 then (identity, 2)
                  else
                    let small_burst = (wm_granted_frames m = 3 \<or> wm_granted_frames m = 2)
                    in (identity, if and support 1 = 0 \<and> \<not> small_burst then 1 else 3)))"

definition ptp_wired_capability :: "ptp_config \<Rightarrow> ptp_daemon \<Rightarrow> int \<Rightarrow> int \<Rightarrow> bool" where
  "ptp_wired_capability cfg d now_us neighbor_us =
     (let p = port_at d 0 in
      pg_medium (po_config p) = ptp_port_medium_eth_hwts \<and>
      ptp_peer_capable (pk_peer_capability (po_capable p)) (px_lifecycle (po_peer_exchange p)) now_us
        (pd_delayreq_interval_ms (po_delay p) * 1000) (pg_enabled (po_config p)) (lk_link_up (po_link p))
        (dm_gptp d) (unat (cf_domain cfg))
        (ptp_neighbor_capable (pk_capable_receive (po_capable p)) (Some (pr_responder (po_peer_rate p)))
          (px_lifecycle (po_peer_exchange p)) neighbor_us))"

definition ptpd_port_link_up :: "ptp_config \<Rightarrow> ptp_daemon \<Rightarrow> int \<Rightarrow> bool" where
  "ptpd_port_link_up cfg d port_index =
     (if \<not> dm_running d then True
      else if \<not> valid_port cfg port_index then False
      else pg_enabled (po_config (port_at d (nat port_index))) \<and> lk_link_up (po_link (port_at d (nat port_index))))"

section \<open>The registries stay well formed\<close>

lemma peers_inv_entries: "ws_entries p = ws_entries q \<Longrightarrow> peers_inv p = peers_inv q"
  by (simp add: peers_inv_def holds_mac_def)

lemma peers_inv_join: "peers_inv p \<Longrightarrow> peers_inv (snd (ptp_wifi_peers_join p mac))"
proof (cases mac)
  case (Some m)
  assume inv: "peers_inv p"
  show ?thesis
  proof (cases "ptp_wifi_peers_join p (Some m)")
    case (Pair r p')
    show ?thesis
    proof (cases r)
      case None
      then have "p' = p" using Pair by (auto simp: ptp_wifi_peers_join_def Let_def split: if_splits option.splits)
      then show ?thesis using Some Pair inv by simp
    qed (use Some Pair inv join_inv in simp)
  qed
qed (simp add: ptp_wifi_peers_join_def)

lemma peers_inv_leave: "peers_inv p \<Longrightarrow> peers_inv (ptp_wifi_peers_leave p mac)"
proof (cases mac)
  case None
  then show "peers_inv p \<Longrightarrow> ?thesis" by (simp add: ptp_wifi_peers_leave_def ptp_wifi_peers_find_def)
qed (simp add: leave_inv)

lemma peers_inv_clear: "peers_inv (ptp_wifi_peers_clear p)"
  by (auto simp: ptp_wifi_peers_clear_def peers_inv_def holds_mac_def peer_zero_def)

lemma peers_inv_reconcile:
  assumes "peers_inv p" "ptp_wifi_peers_reconcile p boot gen macs = (ok, p')"
  shows "peers_inv p'"
proof (cases "p' = p")
  case False
  define q where "q = join_all macs (ptp_wifi_peers_advance (p\<lparr>ws_entries := drop_unreported macs (ws_entries p)\<rparr>))"
  have "list_all mac_acceptable macs" "length macs \<le> slot_max" "ws_entries p' = ws_entries q"
    using False assms(2) by (auto simp: ptp_wifi_peers_reconcile_def Let_def q_def split: if_splits)
  then show ?thesis
    using reconcile_new_list(1) [OF assms(1)] peers_inv_entries [of p' q] by (simp add: q_def)
qed (use assms in simp)

lemma reset_peer_simps [simp]:
  "wp_associated (reset_peer e) = wp_associated e" "wp_mac (reset_peer e) = wp_mac e"
  "wp_association (reset_peer e) = wp_association e"
  by (simp_all add: reset_peer_def Let_def split_beta)

lemma peers_inv_reset:
  assumes "peers_inv p"
  shows "peers_inv (p\<lparr>ws_entries := map reset_peer (ws_entries p)\<rparr>)"
proof -
  have len: "length (ws_entries p) = slot_max" using assms by (simp add: peers_inv_def)
  then have h: "holds_mac (p\<lparr>ws_entries := map reset_peer (ws_entries p)\<rparr>) i m = holds_mac p i m" for i m
    by (auto simp: holds_mac_def)
  have "wp_association (map reset_peer (ws_entries p) ! i) = wp_association (ws_entries p ! i)"
    if "holds_mac p i m" for i m
    using that len by (simp add: holds_mac_def)
  then show ?thesis using assms unfolding peers_inv_def h by simp
qed

lemma peers_inv_announce:
  assumes "peers_inv p" "slot < slot_max"
  shows "peers_inv (update_entry p slot ((ws_entries p ! slot)\<lparr>wp_announce := s\<rparr>))"
proof -
  have len: "length (ws_entries p) = slot_max" using assms by (simp add: peers_inv_def)
  define q where "q = update_entry p slot ((ws_entries p ! slot)\<lparr>wp_announce := s\<rparr>)"
  have e: "wp_associated (ws_entries q ! i) = wp_associated (ws_entries p ! i)"
    "wp_mac (ws_entries q ! i) = wp_mac (ws_entries p ! i)"
    "wp_association (ws_entries q ! i) = wp_association (ws_entries p ! i)" if "i < slot_max" for i
    using that len by (cases "slot = i"; simp add: q_def update_entry_def)+
  then have "holds_mac q i m = holds_mac p i m" for i m by (auto simp: holds_mac_def)
  moreover have "length (ws_entries q) = slot_max" using len by (simp add: q_def update_entry_def)
  ultimately have "peers_inv q" using assms(1) e unfolding peers_inv_def by (auto simp: holds_mac_def)
  then show ?thesis by (simp add: q_def)
qed

definition registries_ok :: "ptp_config \<Rightarrow> ptp_daemon \<Rightarrow> bool" where
  "registries_ok cfg d \<longleftrightarrow> daemon_wf cfg d \<and> (\<forall>i < cf_num_ports cfg. peers_inv (wifi_peers_at d i))"

lemma bump_generation_simps [simp]:
  "dm_state (bump_generation i d) = dm_state d" "port_at (bump_generation i d) j = port_at d j"
  "length (dm_injected_generation (bump_generation i d)) = length (dm_injected_generation d)"
  "dm_running (bump_generation i d) = dm_running d"
  by (simp_all add: bump_generation_def port_at_def)

lemma registries_bump [simp]: "registries_ok cfg (bump_generation i d) = registries_ok cfg d"
  by (simp add: registries_ok_def daemon_wf_def)

lemma registries_map_port:
  assumes "registries_ok cfg d" "i < cf_num_ports cfg"
    and "\<And>p. peers_inv (pk_wifi_peers (po_capable p)) \<Longrightarrow> peers_inv (pk_wifi_peers (po_capable (f p)))"
  shows "registries_ok cfg (map_port i f d)"
  using assms by (auto simp: registries_ok_def daemon_wf_def)

lemma find_port_bound: "ptp_find_port_by_medium cfg d m = Some i \<Longrightarrow> i < cf_num_ports cfg"
  by (auto simp: ptp_find_port_by_medium_def find_Some_iff)

lemma registries_set_link:
  assumes "registries_ok cfg d"
  shows "registries_ok cfg (ptp_set_port_link cfg d port up)"
proof -
  have "registries_ok cfg (map_port i f (bump_generation i (map_port i g d)))"
    if "i < cf_num_ports cfg" "\<And>p. pk_wifi_peers (po_capable (f p)) = pk_wifi_peers (po_capable p)"
      "\<And>p. pk_wifi_peers (po_capable (g p)) = pk_wifi_peers (po_capable p)" for i f g
    using that assms by (intro registries_map_port) (simp_all add: registries_map_port)
  then show ?thesis using assms by (simp add: ptp_set_port_link_def Let_def split: option.splits)
qed

lemma registries_reset:
  assumes "registries_ok cfg d"
  shows "registries_ok cfg (ptp_reset_for_profile cfg d)"
proof -
  have n: "0 < num_ports d" "num_ports d = cf_num_ports cfg"
    using assms by (simp_all add: registries_ok_def daemon_wf_def)
  have "pk_wifi_peers (po_capable (port_at (ptp_reset_for_profile cfg d) i)) =
      (wifi_peers_at d i)\<lparr>ws_entries := map reset_peer (ws_entries (wifi_peers_at d i))\<rparr>" if "i < num_ports d" for i
    unfolding ptp_reset_for_profile_def Let_def ptp_clean_after_step_def ptp_update_delay_asymmetry_def
      ptp_reset_unicast_delay_req_def
    using n that by (simp add: port_at_map_all reset_delay_def reset_capable_def Let_def split_beta)
  moreover have "length (dm_injected_generation (ptp_reset_for_profile cfg d)) = length (dm_injected_generation d)"
    by (simp add: ptp_reset_for_profile_def Let_def ptp_clean_after_step_def ptp_update_delay_asymmetry_def
        ptp_reset_unicast_delay_req_def)
  ultimately show ?thesis
    using assms n peers_inv_reset by (simp add: registries_ok_def daemon_wf_def)
qed

lemma registries_profile_fields [simp]:
  "registries_ok cfg (map_state (\<lambda>s. s\<lparr>st_active_ptp_profile := f s\<rparr>) d) = registries_ok cfg d"
  "registries_ok cfg (map_state (\<lambda>s. s\<lparr>st_active_ptp_profile := f s, st_preferred_ptp_profile := g s\<rparr>) d) = registries_ok cfg d"
  "registries_ok cfg (map_state (\<lambda>s. s\<lparr>st_avb_lite_fallback_reason := r\<rparr>) d) = registries_ok cfg d"
  "registries_ok cfg (map_state (\<lambda>s. s\<lparr>st_avb_lite_fallback_reason := r, st_gptp_fallback_done := b\<rparr>) d) = registries_ok cfg d"
  by (simp_all add: registries_ok_def daemon_wf_def port_at_def)

lemma registries_arm:
  assumes "registries_ok cfg d"
  shows "registries_ok cfg (ptp_arm_profile_fallback cfg d)"
proof -
  have "0 < cf_num_ports cfg" using assms by (simp add: registries_ok_def daemon_wf_def)
  then show ?thesis
    using assms by (auto simp: ptp_arm_profile_fallback_def Let_def rearm_port_def
        intro!: registries_map_port registries_reset)
qed

text \<open>Everything that changes the associations or the link of a port.\<close>

inductive radio_step :: "ptp_config \<Rightarrow> ptp_daemon \<Rightarrow> ptp_daemon \<Rightarrow> bool" for cfg where
  eth: "radio_step cfg d (ptp_eth_event_handler cfg d e)"
| wifi: "radio_step cfg d (ptp_wifi_event_handler cfg d w)"
| reconcile: "radio_step cfg d (snd (ptpd_wifi_association_reconcile cfg d p boot gen macs))"
| unreported: "radio_step cfg d (ptpd_wifi_association_unreported cfg d p)"
| announce: "radio_step cfg d (snd (snd (ptpd_wifi_announce_begin cfg d p mac a r info initial t)))"
| finish: "radio_step cfg d (snd (ptpd_wifi_announce_finish cfg d p mac a token ok t))"

lemma registries_map_capable:
  assumes "registries_ok cfg d" "i < cf_num_ports cfg"
    and "\<And>k. peers_inv (pk_wifi_peers k) \<Longrightarrow> peers_inv (pk_wifi_peers (f k))"
  shows "registries_ok cfg (map_capable i f d)"
  unfolding map_capable_def using assms by (intro registries_map_port) auto

lemma registries_set_announce:
  assumes "registries_ok cfg d" "i < cf_num_ports cfg" "slot < slot_max"
  shows "registries_ok cfg (set_announce i slot s d)"
  unfolding set_announce_def using assms peers_inv_announce by (intro registries_map_capable) auto

lemma announce_slot_bound: "announce_slot cfg d i mac a = Some slot \<Longrightarrow> slot < slot_max"
  by (auto simp: announce_slot_def Let_def holds_mac_def dest: peers_find_Some split: option.splits if_splits)

lemma valid_port_nat: "valid_port cfg p \<Longrightarrow> nat p < cf_num_ports cfg"
  by (auto simp: valid_port_def)

lemma registries_wifi_event:
  assumes "registries_ok cfg d"
  shows "registries_ok cfg (ptp_wifi_event_handler cfg d w)"
proof (cases "ptp_find_port_by_medium cfg d ptp_port_medium_wifi_ftm")
  case (Some i)
  have i: "i < cf_num_ports cfg" using find_port_bound [OF Some] .
  have a: "registries_ok cfg (associate_port i b d)" for b
    unfolding associate_port_def using assms i by (intro registries_map_capable) auto
  have m: "registries_ok cfg (map_capable i (\<lambda>k. k\<lparr>pk_wifi_peers := f (pk_wifi_peers k)\<rparr>) d)"
    if "\<And>q. peers_inv q \<Longrightarrow> peers_inv (f q)" for f
    using assms i that by (intro registries_map_capable) auto
  note m' = m [of "\<lambda>q. snd (ptp_wifi_peers_join q mac)" for mac] m [of "\<lambda>q. ptp_wifi_peers_leave q mac" for mac]
    m [of ptp_wifi_peers_clear]
  show ?thesis
    using assms a m' peers_inv_join peers_inv_leave peers_inv_clear
    by (cases w) (simp_all add: ptp_wifi_event_handler_def Some Let_def registries_set_link)
qed (use assms in \<open>simp add: ptp_wifi_event_handler_def\<close>)

lemma registries_reconcile:
  assumes "registries_ok cfg d"
  shows "registries_ok cfg (snd (ptpd_wifi_association_reconcile cfg d p boot gen macs))"
proof (cases "valid_port cfg p \<and> dm_running d \<and> radio_ready d (nat p) ptp_port_wifi_mode_ap")
  case True
  obtain ok q where q: "ptp_wifi_peers_reconcile (wifi_peers_at d (nat p)) boot gen macs = (ok, q)" by force
  have i: "nat p < cf_num_ports cfg" using True valid_port_nat by blast
  then have "peers_inv q" using assms peers_inv_reconcile [OF _ q] by (simp add: registries_ok_def)
  then have "peers_inv (if ok then q\<lparr>ws_unreported := False\<rparr> else q)"
    using peers_inv_entries [of "q\<lparr>ws_unreported := False\<rparr>" q] by simp
  then have "registries_ok cfg (map_capable (nat p)
      (\<lambda>k. k\<lparr>pk_wifi_peers := if ok then q\<lparr>ws_unreported := False\<rparr> else q\<rparr>) d)"
    using assms i by (intro registries_map_capable) auto
  then show ?thesis using True q
    by (cases ok) (simp_all add: ptpd_wifi_association_reconcile_def Let_def)
qed (use assms in \<open>auto simp: ptpd_wifi_association_reconcile_def Let_def\<close>)

lemma registries_step: "radio_step cfg d d' \<Longrightarrow> registries_ok cfg d \<Longrightarrow> registries_ok cfg d'"
proof (induction rule: radio_step.induct)
  case (eth d e)
  then show ?case
    by (cases e) (simp_all add: ptp_eth_event_handler_def Let_def registries_arm registries_set_link)
next
  case (unreported d p)
  have "registries_ok cfg (map_capable (nat p) (\<lambda>k. k\<lparr>pk_wifi_peers := (pk_wifi_peers k)\<lparr>ws_unreported := True\<rparr>\<rparr>) d)"
    if "valid_port cfg p"
    using unreported valid_port_nat [OF that] peers_inv_entries [of "q\<lparr>ws_unreported := True\<rparr>" q for q]
    by (intro registries_map_capable) auto
  then show ?case using unreported by (simp add: ptpd_wifi_association_unreported_def Let_def)
next
  case (announce d p mac a r info initial t)
  then show ?case
    by (auto simp: ptpd_wifi_announce_begin_def Let_def split_beta split: option.splits
        intro!: registries_set_announce valid_port_nat dest: announce_slot_bound)
next
  case (finish d p mac a token ok t)
  then show ?case
    by (auto simp: ptpd_wifi_announce_finish_def Let_def split_beta split: option.splits
        intro!: registries_set_announce valid_port_nat dest: announce_slot_bound)
qed (simp_all add: registries_wifi_event registries_reconcile)

text \<open>Whatever sequence of link events, association events, radio reports and Announce
  transmissions the daemon sees, the registry of every port stays well formed: at most one
  slot per station, each associated slot with an acceptable address and a nonzero association.\<close>

theorem registries_well_formed:
  assumes "(radio_step cfg)\<^sup>*\<^sup>* (daemon_zero (cf_num_ports cfg)) d" "1 \<le> cf_num_ports cfg" "i < cf_num_ports cfg"
  shows "peers_inv (wifi_peers_at d i) \<and> daemon_wf cfg d"
proof -
  have "registries_ok cfg (daemon_zero (cf_num_ports cfg))"
    using assms(2) peers_inv_zero
    by (simp add: registries_ok_def daemon_wf_def daemon_zero_def state_zero_def port_at_def port_zero_def)
  with assms(1) have "registries_ok cfg d" by (induction rule: rtranclp_induct) (auto intro: registries_step)
  then show ?thesis using assms(3) by (simp add: registries_ok_def)
qed

theorem registries_well_formed_witness:
  "peers_inv (wifi_peers_at (ptp_wifi_event_handler config_default (daemon_zero 2)
     (WIFI_EVENT_AP_STACONNECTED (Some [2, 0, 0, 0, 0, 1]))) 1)"
proof -
  have n: "cf_num_ports config_default = 2" by (simp add: config_default_def)
  have "(radio_step config_default)\<^sup>*\<^sup>* (daemon_zero (cf_num_ports config_default))
      (ptp_wifi_event_handler config_default (daemon_zero 2) (WIFI_EVENT_AP_STACONNECTED (Some [2, 0, 0, 0, 0, 1])))"
    unfolding n by (intro r_into_rtranclp radio_step.wifi)
  from registries_well_formed [OF this, of 1] show ?thesis by (simp add: n)
qed

section \<open>A link change voids what was learnt over the old link\<close>

text \<open>asCapable does not survive a link change: when the link of the wired port goes down or
  comes up, the exchange in flight is voided under a new lifetime, the neighbor's indication
  is void and the queued frames' generation has passed, so the port is not capable at
  any later time until a measurement of the new lifetime is made.\<close>

theorem link_change_voids_capability:
  assumes "daemon_wf cfg d" "lk_link_up (po_link (port_at d 0)) \<noteq> up"
    and "pc_lifecycle (pk_peer_capability (po_capable (port_at d 0))) = px_lifecycle (po_peer_exchange (port_at d 0))"
  defines "d' \<equiv> ptp_set_port_link cfg d (Some 0) up"
  shows "lk_link_up (po_link (port_at d' 0)) = up \<and> \<not> ptp_wired_capability cfg d' now_us neighbor_us \<and>
    px_lifecycle (po_peer_exchange (port_at d' 0)) \<noteq> px_lifecycle (po_peer_exchange (port_at d 0)) \<and>
    \<not> px_published (po_peer_exchange (port_at d' 0)) \<and>
    \<not> cr_valid (pk_capable_receive (po_capable (port_at d' 0))) \<and>
    dm_injected_generation d' ! 0 \<noteq> dm_injected_generation d ! 0"
proof -
  have n: "0 < cf_num_ports cfg" "0 < num_ports d" "0 < length (dm_injected_generation d)"
    using assms(1) by (simp_all add: daemon_wf_def)
  have p: "port_at d' 0 = (port_at d 0)\<lparr>po_peer_exchange := ptp_peer_invalidate (po_peer_exchange (port_at d 0)),
      po_capable := (po_capable (port_at d 0))\<lparr>pk_capable_receive :=
        (pk_capable_receive (po_capable (port_at d 0)))\<lparr>cr_valid := False\<rparr>\<rparr>,
      po_link := (po_link (port_at d 0))\<lparr>lk_link_up := up\<rparr>\<rparr>"
    using n assms(2) by (simp add: d'_def ptp_set_port_link_def Let_def)
  have g: "dm_injected_generation d' = (dm_injected_generation d)[0 := dm_injected_generation d ! 0 + 1]"
    using n assms(2) by (simp add: d'_def ptp_set_port_link_def Let_def bump_generation_def)
  show ?thesis
    using n assms(3) by (simp add: p g ptp_wired_capability_def ptp_peer_capable_def Let_def
        ptp_peer_invalidate_def exchange_zero_def)
qed

theorem link_change_voids_capability_witness:
  "\<not> ptp_wired_capability config_default (ptp_set_port_link config_default (daemon_zero 2) (Some 0) True) 5 5 \<and>
   lk_link_up (po_link (port_at (ptp_set_port_link config_default (daemon_zero 2) (Some 0) True) 0))"
proof -
  have "daemon_wf config_default (daemon_zero 2)" "lk_link_up (po_link (port_at (daemon_zero 2) 0)) \<noteq> True"
    "pc_lifecycle (pk_peer_capability (po_capable (port_at (daemon_zero 2) 0))) =
       px_lifecycle (po_peer_exchange (port_at (daemon_zero 2) 0))"
    by code_simp+
  from link_change_voids_capability [OF this] show ?thesis by simp
qed

text \<open>An Announce transmission is tied to one association: a token is given, and a completion
  believed, only on an enabled gPTP access point whose link is up and whose registry may be
  published, and only while the station holds exactly the association the caller names.\<close>

theorem announce_for_current_association:
  assumes "dm_running d" "daemon_wf cfg d"
    and "fst (ptpd_wifi_announce_begin cfg d p mac association revision information initial now) \<noteq> 0 \<or>
         fst (ptpd_wifi_announce_finish cfg d p mac association token accepted now)"
  shows "\<exists>m. mac = Some m \<and> valid_port cfg p \<and> radio_ready d (nat p) ptp_port_wifi_mode_ap \<and>
    ptp_wifi_peers_publishable (cf_ap_via_coprocessor cfg) (wifi_peers_at d (nat p)) \<and>
    peers_lookup (wifi_peers_at d (nat p)) m = Some association"
proof -
  obtain m slot where "mac = Some m" "valid_port cfg p" "announce_slot cfg d (nat p) m association = Some slot"
    using assms(3) by (auto simp: ptpd_wifi_announce_begin_def ptpd_wifi_announce_finish_def Let_def
        split: option.splits if_splits)
  then show ?thesis
    by (auto simp: announce_slot_def Let_def peers_lookup_def split: option.splits if_splits)
qed

definition access_point_example :: ptp_daemon where
  "access_point_example = snd (ptpd_wifi_association_reconcile config_default
     (map_port 1 (\<lambda>p. p\<lparr>po_config := \<lparr>pg_enabled = True, pg_medium = ptp_port_medium_wifi_ftm,
          pg_type = ptp_port_type_primary, pg_wifi_mode = ptp_port_wifi_mode_ap\<rparr>,
        po_link := (po_link p)\<lparr>lk_link_up := True\<rparr>\<rparr>) profile_example) 1 5 6 [[2, 0, 0, 0, 0, 1]])"

theorem announce_for_current_association_witness:
  "fst (ptpd_wifi_announce_begin config_default access_point_example 1 (Some [2, 0, 0, 0, 0, 1]) 2 0 0 0 1000) = 1 \<and>
   peers_lookup (wifi_peers_at access_point_example 1) [2, 0, 0, 0, 0, 1] = Some 2"
proof -
  have "fst (ptpd_wifi_announce_begin config_default access_point_example 1 (Some [2, 0, 0, 0, 0, 1]) 2 0 0 0 1000) = 1"
    "dm_running access_point_example" "daemon_wf config_default access_point_example"
    by code_simp+
  then show ?thesis
    using announce_for_current_association [of access_point_example config_default 1 "Some [2, 0, 0, 0, 0, 1]" 2 0 0 0 1000]
    by simp
qed

end
