(* ===== verification/Ptp_Servo.thy ===== *)
theory Ptp_Servo
  imports Ptp_Profile
begin

text \<open>
  The servo of \<^verbatim>\<open>ptp.c\<close>: how a pair of time stamps (the remote time at a local instant) moves the
  local clock, by a jump when the difference exceeds the threshold and by a change of its rate
  otherwise, and when the clock counts as stable enough to measure path delays.

  A difference of 64-bit time stamps is a mathematical integer.  Where the source stores a wider
  value into an \<open>int32_t\<close> the conversion is written out (\<open>int32_of\<close>).
\<close>

section \<open>Time stamp arithmetic\<close>

definition int32_of :: "int \<Rightarrow> int" where
  "int32_of x = (x + 2147483648) mod 4294967296 - 2147483648"

definition timespecadd :: "timespec \<Rightarrow> timespec \<Rightarrow> timespec" where
  "timespecadd a b =
     (let nsec = tv_nsec a + tv_nsec b; sec = tv_sec a + tv_sec b
      in if nsec \<ge> NSEC_PER_SEC then \<lparr>tv_sec = sec + 1, tv_nsec = nsec - NSEC_PER_SEC\<rparr>
         else \<lparr>tv_sec = sec, tv_nsec = nsec\<rparr>)"

definition timespecsub :: "timespec \<Rightarrow> timespec \<Rightarrow> timespec" where
  "timespecsub a b =
     (let nsec = tv_nsec a - tv_nsec b; sec = tv_sec a - tv_sec b
      in if nsec < 0 then \<lparr>tv_sec = sec - 1, tv_nsec = nsec + NSEC_PER_SEC\<rparr>
         else \<lparr>tv_sec = sec, tv_nsec = nsec\<rparr>)"

section \<open>Rate\<close>

definition ADJ_FREQ_MAX :: int where "ADJ_FREQ_MAX = 512000"
definition PTP_FREQ_P_DIV_SW :: int where "PTP_FREQ_P_DIV_SW = 2000"
definition PTP_FREQ_I_DIV_SW :: int where "PTP_FREQ_I_DIV_SW = 8000"
definition PTP_FREQ_STABLE_PPB :: int where "PTP_FREQ_STABLE_PPB = 12000"
definition PTP_FREQ_STABLE_WIN :: nat where "PTP_FREQ_STABLE_WIN = 6"

text \<open>The measured error: the difference of the time stamps, with the delay of the link.  The code
  adds it in 64 bits and, because the correction is a double with a whole value, in a double, which
  is exact below 2 to the 53; here it is exact always.\<close>

definition servo_offset :: "ptp_config \<Rightarrow> ptp_daemon \<Rightarrow> timespec \<Rightarrow> timespec \<Rightarrow> int" where
  "servo_offset cfg d remote_timestamp local_timestamp =
     timespec_delta_ns (cf_time64 cfg) remote_timestamp local_timestamp +
     (if dm_gptp d
      then pd_peer_delay_ns (po_delay (port_at d 0)) + sv_correction_ns (dm_servo d)
      else pd_path_delay_ns (po_delay (port_at d 0)) + so_delay_asymmetry_ns (dm_source d))"

text \<open>The controller of the software clock: the new integral and the target.\<close>

definition sw_controller :: "int \<Rightarrow> int \<Rightarrow> int \<times> int" where
  "sw_controller drift_acc offset_ns =
     (let acc = clamp ADJ_FREQ_MAX (int32_of (drift_acc + offset_ns sdiv PTP_FREQ_I_DIV_SW))
      in (acc, clamp ADJ_FREQ_MAX (offset_ns sdiv PTP_FREQ_P_DIV_SW + acc)))"

text \<open>Apply a trim: the software clock takes the difference, the hardware clock the relative one,
  and only an accepted change is recorded; the wired integral is restored otherwise.\<close>

definition apply_sw_trim :: "ptp_daemon \<Rightarrow> clock_env \<Rightarrow> int \<Rightarrow> int \<Rightarrow> ptp_daemon" where
  "apply_sw_trim d env acc target_trim =
     (let trim_delta = int32_of target_trim - sv_freq_trim_ppb (dm_servo d);
          (ok, sw) = ptp_clock_sw_adjtime_rate (dm_sw_clock d) (ce_local_ns env) trim_delta
      in map_servo (\<lambda>s. s\<lparr>sv_drift_acc := acc,
                          sv_freq_trim_ppb := (if ok then int32_of target_trim else sv_freq_trim_ppb s)\<rparr>)
           (d\<lparr>dm_sw_clock := sw\<rparr>))"

definition apply_hw_trim :: "ptp_daemon \<Rightarrow> clock_env \<Rightarrow> int \<Rightarrow> int \<Rightarrow> ptp_daemon" where
  "apply_hw_trim d env integral target_trim =
     (let saved_integral = sv_wired_integral_q16 (dm_servo d);
          trim_delta = ptp_trim_relative_delta (sv_freq_trim_ppb (dm_servo d)) (int32_of target_trim)
      in if ce_adjtime_ok env
         then map_servo (\<lambda>s. s\<lparr>sv_wired_integral_q16 := integral, sv_drift_acc := int32_of (integral sdiv 65536),
                               sv_freq_trim_ppb := int32_of target_trim\<rparr>)
                (d\<lparr>dm_hw_clock := Adjfreq trim_delta # dm_hw_clock d\<rparr>)
         else map_servo (\<lambda>s. s\<lparr>sv_wired_integral_q16 := saved_integral,
                               sv_drift_acc := int32_of (saved_integral sdiv 65536)\<rparr>) d)"

section \<open>Stability\<close>

text \<open>The ring of integrals of the software clock: whether it is flat, and the ring.\<close>

definition drift_ring_push :: "ptp_servo \<Rightarrow> bool \<times> ptp_servo" where
  "drift_ring_push s =
     (let ring = (sv_drift_ring s)[sv_drift_ring_pos s := sv_drift_acc s];
          count = (if sv_drift_ring_count s < PTP_FREQ_STABLE_WIN then sv_drift_ring_count s + 1
                   else sv_drift_ring_count s);
          dmin = fold (\<lambda>x m. if x < m then x else m) (take (count - 1) (tl ring)) (ring ! 0);
          dmax = fold (\<lambda>x m. if x > m then x else m) (take (count - 1) (tl ring)) (ring ! 0)
      in (count \<ge> PTP_FREQ_STABLE_WIN \<and> dmax - dmin < PTP_FREQ_STABLE_PPB,
          s\<lparr>sv_drift_ring := ring, sv_drift_ring_count := count,
            sv_drift_ring_pos := (sv_drift_ring_pos s + 1) mod PTP_FREQ_STABLE_WIN\<rparr>))"

definition wired_stable :: "ptp_config \<Rightarrow> ptp_daemon \<Rightarrow> int \<Rightarrow> bool" where
  "wired_stable cfg d offset_ns =
     (let diff = \<bar>offset_ns\<bar> - \<bar>sv_last_offset_ns (dm_servo d)\<bar>
      in \<bar>diff\<bar> < (if dm_gptp d then cf_peer_delay_stability_ns cfg else cf_path_delay_stability_ns cfg))"

text \<open>\<open>sv_stable_cnt\<close> is the function's static counter.\<close>

definition note_stability :: "bool \<Rightarrow> int \<Rightarrow> ptp_daemon \<Rightarrow> ptp_daemon" where
  "note_stability steady offset_ns d =
     (let cnt0 = sv_stable_cnt (dm_servo d);
          cnt = (if steady then if cnt0 \<le> 3 then cnt0 + 1 else cnt0 else 0);
          d = map_servo (\<lambda>s. s\<lparr>sv_stable_cnt := cnt, sv_last_offset_ns := offset_ns\<rparr>) d
      in if cnt > 3 then map_port 0 (\<lambda>p. p\<lparr>po_delay := (po_delay p)\<lparr>pd_can_send_delayreq := True\<rparr>\<rparr>) d else d)"

definition ptp_lock_local_clock_freq ::
  "ptp_config \<Rightarrow> ptp_daemon \<Rightarrow> clock_env \<Rightarrow> timespec \<Rightarrow> timespec \<Rightarrow> ptp_daemon" where
  "ptp_lock_local_clock_freq cfg d env remote_timestamp local_timestamp =
     (let offset_ns = servo_offset cfg d remote_timestamp local_timestamp;
          remote_time_ns = timespec_to_ns remote_timestamp;
          local_time_ns = timespec_to_ns local_timestamp;
          local_delta_ns = local_time_ns - sv_local_time_ns_prev (dm_servo d);
          d1 = (if dm_use_sw_clock d then
                  let (acc, target_trim) = sw_controller (sv_drift_acc (dm_servo d)) offset_ns
                  in apply_sw_trim d env acc target_trim
                else
                  let interval_ns = (if sv_local_time_ns_prev (dm_servo d) \<noteq> 0 \<and> local_delta_ns > 0
                                     then local_delta_ns else cf_sync_interval_ms cfg * 1000000);
                      (target_trim, integral) =
                        ptp_wired_pi_step (sv_wired_integral_q16 (dm_servo d)) offset_ns interval_ns
                  in apply_hw_trim d env integral target_trim);
          d2 = map_servo (\<lambda>s. s\<lparr>sv_remote_time_ns_prev := remote_time_ns,
                                sv_local_time_ns_prev := local_time_ns\<rparr>) d1
      in if dm_use_sw_clock d
         then note_stability (fst (drift_ring_push (dm_servo d2))) offset_ns
                (map_servo (\<lambda>s. snd (drift_ring_push s)) d2)
         else note_stability (wired_stable cfg d2 offset_ns) offset_ns d2)"

section \<open>Jump or lock\<close>

text \<open>\<open>new_time\<close> is the local time at which the code acts, moved by the measured difference, as the
  source computes it.  The boolean is whether the function returns OK.\<close>

definition jump_target :: "timespec \<Rightarrow> timespec \<Rightarrow> timespec \<Rightarrow> timespec" where
  "jump_target now remote_timestamp local_timestamp =
     timespecadd (timespecsub now local_timestamp) remote_timestamp"

definition ptp_update_local_clock ::
  "ptp_config \<Rightarrow> ptp_daemon \<Rightarrow> clock_env \<Rightarrow> timespec \<Rightarrow> timespec \<Rightarrow> bool \<times> ptp_daemon" where
  "ptp_update_local_clock cfg d env remote_timestamp local_timestamp =
     (let adj_limit_ns = cf_settime_threshold_ms cfg * 1000000;
          delta_ns = servo_offset cfg d remote_timestamp local_timestamp;
          (ret, d) =
            (if \<bar>delta_ns\<bar> > adj_limit_ns then
               let now = (case ptp_gettime d env of None \<Rightarrow> ce_unset env | Some ts \<Rightarrow> ts);
                   new_time = jump_target now remote_timestamp local_timestamp;
                   (ok, d) = ptp_settime d env new_time;
                   d = (if ok then map_gm (\<lambda>g. g\<lparr>gm_clock_steps_ns := gm_clock_steps_ns g +
                            timespec_delta_ns (cf_time64 cfg) remote_timestamp local_timestamp\<rparr>) d else d);
                   d = map_servo (\<lambda>s. s\<lparr>sv_last_delta_timestamp := new_time, sv_last_delta_ns := 0,
                            sv_last_adjtime_ns := 0, sv_drift_avg_total_ms := 0, sv_drift_ppb := 0\<rparr>) d
               in (ok, ptp_clean_after_step d)
             else (True, ptp_lock_local_clock_freq cfg d env remote_timestamp local_timestamp))
      in (ret, map_gm (\<lambda>g. g\<lparr>gm_clock_updates := gm_clock_updates g + 1\<rparr>) d))"

section \<open>Time stamps add up\<close>

lemma timespec_arith:
  "timespec_to_ns (timespecadd a b) = timespec_to_ns a + timespec_to_ns b"
  "timespec_to_ns (timespecsub a b) = timespec_to_ns a - timespec_to_ns b"
  by (simp_all add: timespecadd_def timespecsub_def timespec_to_ns_def Let_def algebra_simps)

lemma jump_target_ns:
  "timespec_to_ns (jump_target now remote local) = timespec_to_ns now + (timespec_to_ns remote - timespec_to_ns local)"
  by (simp add: jump_target_def timespec_arith)

lemma int32_of_id: "- 2147483648 \<le> x \<Longrightarrow> x \<le> 2147483647 \<Longrightarrow> int32_of x = x"
  by (simp add: int32_of_def)

section \<open>What the servo leaves alone\<close>

lemma settime_simps [simp]:
  "dm_state (snd (ptp_settime d env ts)) = dm_state d" "port_at (snd (ptp_settime d env ts)) i = port_at d i"
  "dm_use_sw_clock (snd (ptp_settime d env ts)) = dm_use_sw_clock d"
  "dm_timing (snd (ptp_settime d env ts)) = dm_timing d"
  by (simp_all add: ptp_settime_def split_beta port_at_def)

lemma clean_after_step_servo:
  "dm_servo (ptp_clean_after_step d) = (dm_servo d)\<lparr>sv_remote_time_ns_prev := 0, sv_local_time_ns_prev := 0,
     sv_drift_acc := 0, sv_wired_integral_q16 := sv_freq_trim_ppb (dm_servo d) * 65536, sv_last_offset_ns := 0\<rparr>"
  by (simp add: ptp_clean_after_step_def Let_def)

lemma clean_after_step_simps [simp]:
  "dm_gm (ptp_clean_after_step d) = dm_gm d" "dm_source (ptp_clean_after_step d) = dm_source d"
  "num_ports (ptp_clean_after_step d) = num_ports d" "ptp_is_gptp (dm_state (ptp_clean_after_step d)) = dm_gptp d"
  "\<not> tm_valid (dm_timing (ptp_clean_after_step d))"
  by (simp_all add: ptp_clean_after_step_def Let_def)

lemma clocks_maps [simp]:
  "dm_hw_clock (map_servo f d) = dm_hw_clock d" "dm_sw_clock (map_servo f d) = dm_sw_clock d"
  "dm_hw_clock (map_gm g d) = dm_hw_clock d" "dm_sw_clock (map_gm g d) = dm_sw_clock d"
  "dm_hw_clock (ptp_clean_after_step d) = dm_hw_clock d" "dm_sw_clock (ptp_clean_after_step d) = dm_sw_clock d"
  "dm_use_sw_clock (map_servo f d) = dm_use_sw_clock d" "dm_use_sw_clock (map_gm g d) = dm_use_sw_clock d"
  by (simp_all add: map_servo_def map_gm_def ptp_clean_after_step_def Let_def ptp_invalidate_timing_def)

section \<open>The trim stays in range\<close>

definition servo_inv :: "ptp_servo \<Rightarrow> bool" where
  "servo_inv s \<longleftrightarrow> \<bar>sv_freq_trim_ppb s\<bar> \<le> 512000 \<and> \<bar>sv_drift_acc s\<bar> \<le> 512000 \<and>
     \<bar>sv_wired_integral_q16 s\<bar> \<le> 512000 * 65536"

lemma sw_controller_bounds: "\<bar>fst (sw_controller acc off)\<bar> \<le> 512000" "\<bar>snd (sw_controller acc off)\<bar> \<le> 512000"
  using abs_clamp_le [of 512000] by (simp_all add: sw_controller_def Let_def ADJ_FREQ_MAX_def)

lemma wired_pi_range:
  assumes "\<bar>integral\<bar> \<le> 512000 * 65536"
  shows "\<bar>fst (ptp_wired_pi_step integral off i)\<bar> \<le> 512000" "\<bar>snd (ptp_wired_pi_step integral off i)\<bar> \<le> 512000 * 65536"
  using assms abs_clamp_le [of 512000] abs_clamp_le [of "512000 * 65536"]
  by (simp_all add: ptp_wired_pi_step_def Let_def split_beta PTP_WIRED_TRIM_LIMIT_def)

lemma abs_q16:
  assumes "\<bar>x :: int\<bar> \<le> 512000 * 65536"
  shows "\<bar>x sdiv 65536\<bar> \<le> 512000"
proof -
  have "\<bar>x\<bar> div 65536 \<le> 512000 * 65536 div 65536" using assms by (intro zdiv_mono1) simp_all
  then show ?thesis by (simp add: abs_sdiv)
qed

lemma int32_of_trim: "\<bar>x\<bar> \<le> 512000 \<Longrightarrow> int32_of x = x"
  by (intro int32_of_id) linarith+

lemma note_stability_servo:
  "servo_inv (dm_servo (note_stability b off d)) = servo_inv (dm_servo d)"
  by (simp add: note_stability_def Let_def servo_inv_def)

lemma drift_ring_servo: "servo_inv (snd (drift_ring_push s)) = servo_inv s"
  by (simp add: drift_ring_push_def Let_def servo_inv_def)

lemma servo_inv_sw_trim:
  assumes "servo_inv (dm_servo d)" "\<bar>acc\<bar> \<le> 512000" "\<bar>target\<bar> \<le> 512000"
  shows "servo_inv (dm_servo (apply_sw_trim d env acc target))"
  using assms by (simp add: apply_sw_trim_def Let_def split_beta servo_inv_def int32_of_trim)

lemma servo_inv_hw_trim:
  assumes "servo_inv (dm_servo d)" "\<bar>integral\<bar> \<le> 512000 * 65536" "\<bar>target\<bar> \<le> 512000"
  shows "servo_inv (dm_servo (apply_hw_trim d env integral target))"
  using assms by (simp add: apply_hw_trim_def Let_def servo_inv_def int32_of_trim abs_q16)

lemma servo_inv_lock:
  assumes "servo_inv (dm_servo d)"
  shows "servo_inv (dm_servo (ptp_lock_local_clock_freq cfg d env remote local))"
proof -
  have keep: "servo_inv (s\<lparr>sv_remote_time_ns_prev := a, sv_local_time_ns_prev := b\<rparr>) = servo_inv s" for s a b
    by (simp add: servo_inv_def)
  have i: "\<bar>sv_wired_integral_q16 (dm_servo d)\<bar> \<le> 512000 * 65536" using assms by (simp add: servo_inv_def)
  show ?thesis
    unfolding ptp_lock_local_clock_freq_def Let_def
    using servo_inv_sw_trim [OF assms sw_controller_bounds] servo_inv_hw_trim [OF assms wired_pi_range(2,1) [OF i]]
    by (simp add: note_stability_servo drift_ring_servo keep split_beta)
qed

lemma servo_inv_clean: "servo_inv (dm_servo d) \<Longrightarrow> servo_inv (dm_servo (ptp_clean_after_step d))"
  by (simp add: clean_after_step_servo servo_inv_def abs_mult)

lemma servo_inv_update:
  assumes "servo_inv (dm_servo d)"
  shows "servo_inv (dm_servo (snd (ptp_update_local_clock cfg d env remote_timestamp local_timestamp)))"
proof -
  have "servo_inv (dm_servo (ptp_clean_after_step (map_servo (\<lambda>s. s\<lparr>sv_last_delta_timestamp := t,
      sv_last_delta_ns := 0, sv_last_adjtime_ns := 0, sv_drift_avg_total_ms := 0, sv_drift_ppb := 0\<rparr>) e)))"
    if "dm_servo e = dm_servo d" for t e
    using assms that by (intro servo_inv_clean) (simp add: servo_inv_def)
  then show ?thesis
    using servo_inv_lock [OF assms] by (simp add: ptp_update_local_clock_def Let_def split_beta)
qed

text \<open>C16. Whatever time stamps arrive, in whatever order, and whether the clock takes a change or
  refuses it, the frequency trim, the drift accumulator and the integral stay within 512 ppm.\<close>

theorem servo_trim_bounded:
  assumes "servo_inv (dm_servo d)"
  shows "servo_inv (dm_servo (snd (ptp_update_local_clock cfg d env remote_timestamp local_timestamp)))"
  by (rule servo_inv_update [OF assms])

theorem servo_trim_bounded_witness:
  "servo_inv (dm_servo (snd (ptp_update_local_clock config_default (daemon_zero 1)
     \<lparr>ce_hw_time = None, ce_local_ns = 0, ce_settime_ok = True, ce_adjtime_ok = True, ce_unset = timespec_zero\<rparr>
     \<lparr>tv_sec = 7, tv_nsec = 90000000\<rparr> \<lparr>tv_sec = 7, tv_nsec = 0\<rparr>)))"
proof -
  have "servo_inv (dm_servo (daemon_zero 1))" by code_simp
  then show ?thesis by (rule servo_trim_bounded)
qed

section \<open>Jumps\<close>

lemma note_stability_simps [simp]:
  "dm_hw_clock (note_stability b v e) = dm_hw_clock e" "dm_gm (note_stability b v e) = dm_gm e"
  by (simp_all add: note_stability_def Let_def)

lemma apply_trim_gm [simp]:
  "dm_gm (apply_hw_trim d env i tr) = dm_gm d" "dm_gm (apply_sw_trim d env acc tr) = dm_gm d"
  by (simp_all add: apply_hw_trim_def apply_sw_trim_def Let_def split_beta)

lemma lock_gm: "dm_gm (ptp_lock_local_clock_freq cfg d env remote local) = dm_gm d"
  by (simp add: ptp_lock_local_clock_freq_def Let_def split_beta)

lemma lock_hw_clock:
  assumes "\<not> dm_use_sw_clock d"
  shows "\<exists>acts. dm_hw_clock (ptp_lock_local_clock_freq cfg d env remote local) = acts @ dm_hw_clock d \<and>
    (\<forall>t. Settime t \<notin> set acts)"
proof -
  have "\<exists>acts. dm_hw_clock (apply_hw_trim d env i tr) = acts @ dm_hw_clock d \<and> (\<forall>t. Settime t \<notin> set acts)" for i tr
    by (simp add: apply_hw_trim_def Let_def)
  then show ?thesis using assms by (simp add: ptp_lock_local_clock_freq_def Let_def split_beta)
qed


definition hw_env_example :: clock_env where
  "hw_env_example = \<lparr>ce_hw_time = Some \<lparr>tv_sec = 10, tv_nsec = 300\<rparr>, ce_local_ns = 0, ce_settime_ok = True,
     ce_adjtime_ok = True, ce_unset = timespec_zero\<rparr>"


end
