(* ===== verification/Ptp_Source.thy ===== *)
theory Ptp_Source
  imports Ptp_Servo Ptp_Link Ptp_Btca
begin

text \<open>
  The time source of \<^verbatim>\<open>ptp.c\<close>: which Announce selects it, how long it stays valid, and how Sync,
  Follow_Up and the measurements a radio transport injects reach the servo.  \<open>mono_ts\<close> is a reading
  of \<^verbatim>\<open>CLOCK_MONOTONIC\<close>, \<open>now_us\<close> one of the timer.
\<close>

section \<open>Validity of the selected source\<close>

definition PTP_MSGTYPE_MASK :: u8 where "PTP_MSGTYPE_MASK = 15"
definition PTP_MSGTYPE_ANNOUNCE :: u8 where "PTP_MSGTYPE_ANNOUNCE = 11"

definition later_event :: "timespec \<Rightarrow> timespec \<Rightarrow> timespec" where
  "later_event sync announce =
     (if tv_sec announce > tv_sec sync \<or> tv_sec announce = tv_sec sync \<and> tv_nsec announce > tv_nsec sync
      then announce else sync)"

text \<open>The readings of the timer: of the capability test (two) and of the Sync receipt.\<close>

definition is_selected_source_valid ::
  "ptp_config \<Rightarrow> ptp_daemon \<Rightarrow> timespec \<Rightarrow> int \<Rightarrow> int \<Rightarrow> int \<Rightarrow> bool" where
  "is_selected_source_valid cfg d mono_ts capable_us neighbor_us now_us =
     (let source = so_selected_source (dm_source d) in
      if dm_gptp d \<and> pg_medium (po_config (port_at d 0)) = ptp_port_medium_eth_hwts \<and>
         \<not> ptp_wired_capability cfg d capable_us neighbor_us then False
      else if and (hd_messagetype (an_header source)) PTP_MSGTYPE_MASK \<noteq> PTP_MSGTYPE_ANNOUNCE then False
      else if dm_gptp d then
        let announce_age = timespec_delta_ns (cf_time64 cfg) mono_ts (so_last_selected_announce (dm_source d)) in
        if announce_age < 0 \<or>
           announce_age \<ge> ptp_announce_receipt_timeout_ns (cf_announce_interval_ms cfg)
                             (hd_logmessageinterval (an_header source)) then False
        else if an_btc_priority1 source < 255 \<and>
                \<not> ptp_sync_receipt_current (ts_sync_receipt (po_sync (port_at d 0))) now_us then False
        else True
      else
        let last_evt = later_event (ps_last_received_sync (po_seen (port_at d 0)))
                         (so_last_selected_announce (dm_source d))
        in \<not> timespec_to_ms (timespecsub mono_ts last_evt) > cf_timeout_ms cfg)"

text \<open>The daemon's loop refreshes the flag and invalidates the timing of a source it loses.\<close>

definition refresh_source :: "ptp_config \<Rightarrow> ptp_daemon \<Rightarrow> timespec \<Rightarrow> int \<Rightarrow> int \<Rightarrow> int \<Rightarrow> ptp_daemon" where
  "refresh_source cfg d mono_ts capable_us neighbor_us now_us =
     (let source_was_valid = so_selected_source_valid (dm_source d);
          valid = is_selected_source_valid cfg d mono_ts capable_us neighbor_us now_us;
          d = map_source (\<lambda>s. s\<lparr>so_selected_source_valid := valid\<rparr>) d
      in if source_was_valid \<and> \<not> valid then ptp_invalidate_timing d else d)"

text \<open>At the top of the loop: a wired gPTP port that is not capable has no source.\<close>

definition gate_capability :: "ptp_config \<Rightarrow> ptp_daemon \<Rightarrow> int \<Rightarrow> int \<Rightarrow> ptp_daemon" where
  "gate_capability cfg d now_us neighbor_us =
     (let capable = ptp_wired_capability cfg d now_us neighbor_us;
          d = (if pg_medium (po_config (port_at d 0)) = ptp_port_medium_eth_hwts \<and> dm_gptp d \<and> \<not> capable then
                 let d = (if so_selected_source_valid (dm_source d) \<or> ts_twostep_pending (po_sync (port_at d 0))
                          then ptp_invalidate_timing d else d);
                     d = map_source (\<lambda>s. s\<lparr>so_selected_source_valid := False\<rparr>) d
                 in map_port 0 (\<lambda>p. p\<lparr>po_sync := (po_sync p)\<lparr>ts_twostep_pending := False\<rparr>\<rparr>) d
               else d)
      in map_port 0 (\<lambda>p. p\<lparr>po_delay := (po_delay p)\<lparr>pd_can_send_delayreq := dm_gptp d\<rparr>\<rparr>) d)"

section \<open>Announce\<close>

definition port_identity_of :: "ptp_header \<Rightarrow> bytes" where
  "port_identity_of h = hd_sourceidentity h @ hd_sourceportindex h"

text \<open>On a station, an Announce binds the neighbor it comes from; false: it is not ours.\<close>

definition bind_announce :: "ptp_daemon \<Rightarrow> bytes \<Rightarrow> bool \<times> ptp_daemon" where
  "bind_announce d identity =
     (let p = port_at d 0 in
      if pg_medium (po_config p) = ptp_port_medium_wifi_ftm \<and>
         pg_wifi_mode (po_config p) = ptp_port_wifi_mode_sta \<and> rx_source_mac (po_rx p) \<noteq> None then
        let (bound, n) = ptp_wifi_neighbor_bind (pk_wifi_neighbor (po_capable p)) (rx_association (po_rx p))
                           (rx_source_mac (po_rx p)) identity
        in (bound,
            map_capable 0 (\<lambda>k. k\<lparr>pk_wifi_neighbor := n,
              pk_capable_receive := (pk_capable_receive k)\<lparr>cr_valid :=
                (if bound \<and> cm_source_port (cr_message (pk_capable_receive k)) \<noteq> identity then False
                 else cr_valid (pk_capable_receive k))\<rparr>\<rparr>) d)
      else (True, d))"

definition gm_link_subtype :: bytes where "gm_link_subtype = [0x36, 0xC0, 0x04]"

definition announced_link_mbps :: "ptp_daemon \<Rightarrow> bytes \<Rightarrow> nat \<Rightarrow> u32" where
  "announced_link_mbps d msg len =
     (if dm_gptp d then 0
      else case ptp_find_lite_tlv msg len PTP_ANNOUNCE_BODY_LENGTH gm_link_subtype 10 of
             None \<Rightarrow> 0
           | Some v \<Rightarrow> word_of_int (be_int (slice (v + 6) 4 msg)))"

definition start_receipt :: "ptp_config \<Rightarrow> int \<Rightarrow> ptp_daemon \<Rightarrow> ptp_daemon" where
  "start_receipt cfg now_us d =
     map_port 0 (\<lambda>p. p\<lparr>po_sync := (po_sync p)\<lparr>ts_sync_receipt :=
        ptp_sync_receipt_start now_us
          (if ts_receipt_window_us (po_sync p) > 0 then ts_receipt_window_us (po_sync p)
           else 3000 * cf_sync_interval_ms cfg)\<rparr>\<rparr>) d"

definition switch_source :: "ptp_daemon \<Rightarrow> ptp_daemon" where
  "switch_source d =
     (let d = ptp_invalidate_timing d;
          d = map_port 0 (\<lambda>p. p\<lparr>po_sync := (po_sync p)\<lparr>ts_twostep_pending := False\<rparr>,
                po_seen := (po_seen p)\<lparr>ps_last_received_sync := ps_last_received_announce (po_seen p)\<rparr>,
                po_delay := (po_delay p)\<lparr>pd_path_delay_avgcount := 0, pd_path_delay_ns := 0,
                  pd_delayreq_time := (pd_delayreq_time (po_delay p))\<lparr>tv_sec := 0\<rparr>\<rparr>\<rparr>) d
      in map_servo (\<lambda>s. s\<lparr>sv_correction_ns := 0\<rparr>) d)"

definition take_source :: "ptp_config \<Rightarrow> ptp_daemon \<Rightarrow> bytes \<Rightarrow> nat \<Rightarrow> ptp_path_trace \<Rightarrow> ptp_daemon" where
  "take_source cfg d msg len path =
     (let d = map_source (\<lambda>s. s\<lparr>so_selected_source := announce_of (take PTP_ANNOUNCE_BODY_LENGTH msg @ replicate 12 0),
                so_selected_path := path, so_selected_gm_link_mbps := announced_link_mbps d msg len\<rparr>) d;
          d = ptp_update_delay_asymmetry cfg d;
          mac = rx_source_mac (po_rx (port_at d 0));
          d = (if mac \<noteq> None \<and> so_selected_source_mac (dm_source d) \<noteq> mac
               then ptp_reset_unicast_delay_req (map_source (\<lambda>s. s\<lparr>so_selected_source_mac := mac\<rparr>) d) else d)
      in map_source (\<lambda>s. s\<lparr>so_last_selected_announce := ps_last_received_announce (po_seen (port_at d 0))\<rparr>) d)"

definition same_source_port :: "ptp_header \<Rightarrow> ptp_header \<Rightarrow> bool" where
  "same_source_port a b \<longleftrightarrow> hd_sourceidentity a = hd_sourceidentity b \<and> hd_sourceportindex a = hd_sourceportindex b"

definition select_announce ::
  "ptp_config \<Rightarrow> ptp_daemon \<Rightarrow> bytes \<Rightarrow> nat \<Rightarrow> ptp_path_trace \<Rightarrow> int \<Rightarrow> ptp_daemon" where
  "select_announce cfg d msg len path now_us =
     (let m = announce_of msg;
          selected = so_selected_source (dm_source d);
          same_port = same_source_port (an_header m) (an_header selected);
          same_root = (an_btc_identity m = an_btc_identity selected)
      in if \<not> is_better_clock m (st_own_identity (dm_state d)) then
           (if same_port then map_source forget_source (ptp_invalidate_timing d) else d)
         else if \<not> same_port \<and> so_selected_source_valid (dm_source d) \<and> \<not> is_better_clock m selected then d
         else
           let changed = (\<not> so_selected_source_valid (dm_source d) \<or> \<not> same_port \<or> \<not> same_root);
               vector_changed = (system_identity m \<noteq> system_identity selected \<or>
                                 an_stepsremoved m \<noteq> an_stepsremoved selected);
               d = (if changed \<or> vector_changed then start_receipt cfg now_us d else d);
               d = (if changed then switch_source d else d)
           in take_source cfg d msg len path)"

definition ptp_process_announce ::
  "ptp_config \<Rightarrow> ptp_daemon \<Rightarrow> bytes \<Rightarrow> nat \<Rightarrow> timespec \<Rightarrow> int \<Rightarrow> ptp_daemon" where
  "ptp_process_announce cfg d msg len mono_ts now_us =
     (let own = hd_sourceidentity (an_header (st_own_identity (dm_state d))); m = announce_of msg in
      case ptp_path_trace_parse msg len own of
        None \<Rightarrow> d
      | Some path \<Rightarrow>
          let steps = be16 (an_stepsremoved m ! 0) (an_stepsremoved m ! 1) in
          if dm_gptp d \<and> (steps \<ge> 255 \<or> hd_sourceidentity (an_header m) = own) then d
          else
            let (bound, d) = bind_announce d (port_identity_of (an_header m)) in
            if \<not> bound then d
            else
              let d = map_port 0 (\<lambda>p. p\<lparr>po_seen := (po_seen p)\<lparr>ps_last_received_announce := mono_ts\<rparr>\<rparr>) d
              in select_announce cfg d msg len path now_us)"

section \<open>Sync and Follow\_Up\<close>

definition PTP_FLAGS0_TWOSTEP :: u8 where "PTP_FLAGS0_TWOSTEP = 2"

definition ptp_process_sync ::
  "ptp_config \<Rightarrow> ptp_daemon \<Rightarrow> ptp_sync \<Rightarrow> timespec \<Rightarrow> int \<Rightarrow> clock_env \<Rightarrow> bool \<times> ptp_daemon" where
  "ptp_process_sync cfg d msg mono_ts now_us env =
     (if \<not> same_source_port (sy_header msg) (an_header (so_selected_source (dm_source d))) then (True, d)
      else
        let d = map_port 0 (\<lambda>p. p\<lparr>po_seen := (po_seen p)\<lparr>ps_last_received_sync := mono_ts\<rparr>,
                                  po_sync := (po_sync p)\<lparr>ts_twostep_pending := False\<rparr>\<rparr>) d
        in if and (hd_flags (sy_header msg) ! 0) PTP_FLAGS0_TWOSTEP \<noteq> 0 then
             (True, map_port 0 (\<lambda>p. p\<lparr>po_sync := (po_sync p)\<lparr>ts_twostep_rxtime := rx_rxtime (po_rx p),
                 ts_twostep_packet := msg, ts_twostep_received_us := now_us, ts_twostep_pending := True\<rparr>\<rparr>) d)
           else
             ptp_update_local_clock cfg d env (ptp_format_to_timespec (sy_origintimestamp msg))
               (rx_rxtime (po_rx (port_at d 0))))"

text \<open>Whether a Follow\_Up completes the Sync that waits for it.\<close>

definition follow_up_completes :: "ptp_daemon \<Rightarrow> bytes \<Rightarrow> int \<Rightarrow> bool" where
  "follow_up_completes d msg now_us =
     (let y = po_sync (port_at d 0); h = header_of msg; age_us = now_us - ts_twostep_received_us y in
      ts_twostep_pending y \<and> 0 \<le> age_us \<and> age_us \<le> 1000000 \<and>
      same_source_port h (sy_header (ts_twostep_packet y)) \<and>
      ptp_get_sequence h = ptp_get_sequence (sy_header (ts_twostep_packet y)) \<and>
      (dm_gptp d \<longrightarrow> ptp_timing_payload_valid (Some msg) 76 \<and>
         ptp_sync_receipt_interval (sint (hd_logmessageinterval (sy_header (ts_twostep_packet y)))) \<noteq> 0))"

text \<open>The snapshot published for the readers, after the clock was updated; its times are exact where
  the code computes in 64 bits.\<close>

definition next_snapshot :: "ptp_daemon \<Rightarrow> bytes \<Rightarrow> int \<Rightarrow> ptp_timing_snapshot" where
  "next_snapshot d msg published_us =
     (let y = po_sync (port_at d 0);
          current = dm_timing d;
          reference_ns = timespec_to_ns (ptp_format_to_timespec (slice 34 10 msg));
          local_ns = timespec_to_ns (ts_twostep_rxtime y);
          peer_delay_ns = pd_peer_delay_ns (po_delay (port_at d 0));
          btc = an_btc_identity (so_selected_source (dm_source d));
          generation = (if tm_generation current = 0 then 1 else tm_generation current);
          rebased = (tm_received_us current \<noteq> 0 \<and>
                     (tm_btc_identity current \<noteq> btc \<or> slice 58 2 (tm_follow_up current) \<noteq> slice 58 2 msg))
      in \<lparr>tm_generation = (if rebased then generation + 1 else generation), tm_received_us = published_us,
          tm_reference_ns = reference_ns, tm_local_receive_ns = local_ns,
          tm_offset_ns = reference_ns + sv_correction_ns (dm_servo d) + peer_delay_ns - local_ns,
          tm_correction_ns = sv_correction_ns (dm_servo d), tm_peer_delay_ns = peer_delay_ns,
          tm_trim_ppb = sv_freq_trim_ppb (dm_servo d), tm_drift_ppb = sv_drift_acc (dm_servo d),
          tm_btc_identity = btc,
          tm_own_identity = hd_sourceidentity (an_header (st_own_identity (dm_state d))),
          tm_follow_up = take PTP_TIMING_FOLLOW_UP_SIZE msg,
          tm_hardware_clock = (\<not> dm_use_sw_clock d), tm_valid = True\<rparr>)"

text \<open>The Sync no longer waits; a gPTP Follow\_Up also brings its correction and the grandmaster's fields.\<close>

definition accept_follow_up :: "ptp_daemon \<Rightarrow> bytes \<Rightarrow> ptp_daemon" where
  "accept_follow_up d msg =
     (let d = map_port 0 (\<lambda>p. p\<lparr>po_sync := (po_sync p)\<lparr>ts_twostep_pending := False\<rparr>\<rparr>) d
      in if dm_gptp d then
           map_gm (\<lambda>g. g\<lparr>gm_upstream_gm_fields := slice 58 PTP_GM_FIELDS_LEN msg, gm_upstream_gm_fields_valid := True\<rparr>)
             (map_servo (\<lambda>s. s\<lparr>sv_correction_ns := get_correction_ns (hd_correction (header_of msg))\<rparr>) d)
         else d)"

definition observe_sync_receipt :: "ptp_daemon \<Rightarrow> int \<Rightarrow> ptp_daemon" where
  "observe_sync_receipt d receipt_us =
     map_port 0 (\<lambda>p. p\<lparr>po_sync := (po_sync p)\<lparr>ts_sync_receipt :=
       snd (ptp_sync_receipt_observe (ts_sync_receipt (po_sync p)) receipt_us
         (sint (hd_logmessageinterval (sy_header (ts_twostep_packet (po_sync p))))) receipt_us)\<rparr>\<rparr>) d"

text \<open>\<open>msg\<close> is the buffer of the message, at least 76 octets.  \<open>now_us\<close>, \<open>receipt_us\<close> and
  \<open>published_us\<close> are the readings of the timer that matter.  The comparison of generations
  in the last critical section of the source guards against an invalidation by another task since
  the snapshot was read; here nothing comes in between.\<close>

definition ptp_process_followup ::
  "ptp_config \<Rightarrow> ptp_daemon \<Rightarrow> bytes \<Rightarrow> clock_env \<Rightarrow> int \<Rightarrow> int \<Rightarrow> int \<Rightarrow> bool \<times> ptp_daemon" where
  "ptp_process_followup cfg d msg env now_us receipt_us published_us =
     (if \<not> follow_up_completes d msg now_us then (True, d)
      else
        let gptp = dm_gptp d;
            remote_time = ptp_format_to_timespec (slice 34 10 msg);
            d = accept_follow_up d msg;
            previous = dm_timing d;
            (result, d) = ptp_update_local_clock cfg d env remote_time (ts_twostep_rxtime (po_sync (port_at d 0)));
            current = dm_timing d;
            d = (if result \<and> gptp \<and> ptp_timing_payload_valid (Some msg) 76 then
                   observe_sync_receipt d receipt_us
                 else d)
        in (result,
            if result \<and> tm_generation current = tm_generation previous \<and> gptp \<and>
               so_selected_source_valid (dm_source d) \<and> ptp_timing_payload_valid (Some msg) 76
            then d\<lparr>dm_timing := next_snapshot d msg published_us\<rparr> else d))"

section \<open>Entry points of the radio transports\<close>

definition ptpd_ftm_source_observed ::
  "ptp_config \<Rightarrow> ptp_daemon \<Rightarrow> int \<Rightarrow> bytes option \<Rightarrow> u8 \<Rightarrow> int \<Rightarrow> int \<Rightarrow> int \<Rightarrow> timespec \<Rightarrow> u32 option \<times> ptp_daemon" where
  "ptpd_ftm_source_observed cfg d port_index source_port domain log_interval received_us now_us mono_ts =
     (case source_port of
        None \<Rightarrow> (None, d)
      | Some sp \<Rightarrow>
        let i = nat port_index; source = so_selected_source (dm_source d) in
        if \<not> dm_running d \<or> \<not> dm_use_sw_clock d \<or> \<not> valid_port cfg port_index \<or>
           \<not> lk_link_up (po_link (port_at d i)) \<or> \<not> so_selected_source_valid (dm_source d) \<or>
           \<not> dm_gptp d \<or> an_btc_priority1 source = 255 \<or> domain \<noteq> cf_domain cfg \<or>
           take 8 sp \<noteq> hd_sourceidentity (an_header source) then (None, d)
        else
          let window_us = ts_receipt_window_us (po_sync (port_at d i));
              receipt = ts_sync_receipt (po_sync (port_at d i));
              (observed, receipt') =
                (if window_us > 0 then ptp_sync_receipt_observe_window receipt received_us window_us now_us
                 else ptp_sync_receipt_observe receipt received_us log_interval now_us);
              d = map_port i (\<lambda>p. p\<lparr>po_sync := (po_sync p)\<lparr>ts_sync_receipt := receipt'\<rparr>\<rparr>) d
          in if \<not> observed then (None, d)
             else (Some (tm_generation (dm_timing d)),
                   map_port i (\<lambda>p. p\<lparr>po_seen := (po_seen p)\<lparr>ps_last_received_sync := mono_ts\<rparr>\<rparr>) d))"

definition ptpd_set_sync_receipt_window :: "ptp_config \<Rightarrow> ptp_daemon \<Rightarrow> int \<Rightarrow> int \<Rightarrow> ptp_daemon" where
  "ptpd_set_sync_receipt_window cfg d port_index window_us =
     (if \<not> dm_running d \<or> \<not> valid_port cfg port_index then d
      else map_port (nat port_index) (\<lambda>p. p\<lparr>po_sync := (po_sync p)\<lparr>ts_receipt_window_us := window_us\<rparr>\<rparr>) d)"

text \<open>The running average of the delays; None stands for the division by zero of a build whose
  average count is zero.\<close>

definition average_delay :: "ptp_config \<Rightarrow> int \<Rightarrow> int \<Rightarrow> int \<Rightarrow> (int \<times> int) option" where
  "average_delay cfg avgcount delay_ns sample_ns =
     (let count = (if avgcount < cf_delayreq_avgcount cfg then avgcount + 1 else avgcount)
      in if count = 0 then None else Some (count, delay_ns + (sample_ns - delay_ns) sdiv count))"

definition ptpd_inject_peer_delay ::
  "ptp_config \<Rightarrow> ptp_daemon \<Rightarrow> int \<Rightarrow> int \<Rightarrow> (ptp_errno, unit) sum option \<times> ptp_daemon" where
  "ptpd_inject_peer_delay cfg d port_index peer_delay_ns =
     (if \<not> dm_running d then (Some (Inl ESRCH), d)
      else if \<not> valid_port cfg port_index then (Some (Inl EINVAL), d)
      else if peer_delay_ns < 0 \<or> peer_delay_ns \<ge> cf_max_peer_delay_ns cfg then (Some (Inl ERANGE), d)
      else
        let y = po_delay (port_at d (nat port_index)) in
        case average_delay cfg (pd_peer_delay_avgcount y) (pd_peer_delay_ns y) peer_delay_ns of
          None \<Rightarrow> (None, d)
        | Some (count, ns) \<Rightarrow>
            (Some (Inr ()), map_port (nat port_index)
               (\<lambda>p. p\<lparr>po_delay := (po_delay p)\<lparr>pd_peer_delay_avgcount := count, pd_peer_delay_ns := ns\<rparr>\<rparr>) d))"

definition ptpd_inject_sync ::
  "ptp_config \<Rightarrow> ptp_daemon \<Rightarrow> int \<Rightarrow> bytes option \<Rightarrow> nat \<Rightarrow> clock_env \<Rightarrow> timespec \<Rightarrow>
     (ptp_errno, bool) sum \<times> ptp_daemon" where
  "ptpd_inject_sync cfg d port_index follow_up_info len env mono_ts =
     (if \<not> dm_running d then (Inl ESRCH, d)
      else if \<not> valid_port cfg port_index then (Inl EINVAL, d)
      else
        case follow_up_info of
          None \<Rightarrow> (Inl EINVAL, d)
        | Some info \<Rightarrow>
            if len < 76 then (Inl EINVAL, d)
            else
              let h = header_of info in
              if and (hd_messagetype h) PTP_MSGTYPE_MASK \<noteq> PTP_MSGTYPE_FOLLOW_UP then (Inl EINVAL, d)
              else
                let d = (if \<not> so_selected_source_valid (dm_source d) \<or>
                            hd_sourceidentity (an_header (so_selected_source (dm_source d))) \<noteq> hd_sourceidentity h
                         then map_source (\<lambda>s. s\<lparr>so_selected_source := announce_msg_zero\<lparr>an_header := h,
                                  an_btc_identity := hd_sourceidentity h\<rparr>, so_selected_source_valid := True\<rparr>) d
                         else d);
                    remote_time = ptp_format_to_timespec (slice 34 10 info);
                    local_rxtime = (case ptp_gettime d env of None \<Rightarrow> ce_unset env | Some ts \<Rightarrow> ts);
                    d = map_port (nat port_index) (\<lambda>p. p\<lparr>po_seen := (po_seen p)\<lparr>ps_last_received_sync := mono_ts\<rparr>\<rparr>) d;
                    (ok, d) = ptp_update_local_clock cfg d env remote_time local_rxtime
                in (Inr ok, d))"

definition ns_to_timespec :: "int \<Rightarrow> timespec" where
  "ns_to_timespec ns = \<lparr>tv_sec = ns sdiv NSEC_PER_SEC, tv_nsec = ns smod NSEC_PER_SEC\<rparr>"

definition ptpd_inject_sync_pair ::
  "ptp_config \<Rightarrow> ptp_daemon \<Rightarrow> int \<Rightarrow> int \<Rightarrow> int \<Rightarrow> clock_env \<Rightarrow> timespec \<Rightarrow> (ptp_errno, bool) sum \<times> ptp_daemon" where
  "ptpd_inject_sync_pair cfg d port_index remote_ns local_ns env mono_ts =
     (if \<not> dm_running d then (Inl ESRCH, d)
      else if \<not> valid_port cfg port_index then (Inl EINVAL, d)
      else if \<not> so_selected_source_valid (dm_source d) then (Inl ENOENT, d)
      else
        let d = map_port (nat port_index) (\<lambda>p. p\<lparr>po_seen := (po_seen p)\<lparr>ps_last_received_sync := mono_ts\<rparr>\<rparr>) d;
            (ok, d) = ptp_update_local_clock cfg d env (ns_to_timespec remote_ns) (ns_to_timespec local_ns)
        in (Inr ok, d))"

section \<open>Selection\<close>

lemma take_source_simps:
  "so_selected_source (dm_source (take_source cfg d msg len path)) =
     announce_of (take PTP_ANNOUNCE_BODY_LENGTH msg @ replicate 12 0)"
  "so_selected_path (dm_source (take_source cfg d msg len path)) = path"
  "so_selected_source_valid (dm_source (take_source cfg d msg len path)) = so_selected_source_valid (dm_source d)"
  by (simp_all add: take_source_def Let_def ptp_reset_unicast_delay_req_def ptp_update_delay_asymmetry_def)

lemma source_prefix_simps [simp]:
  "dm_source (start_receipt cfg t d) = dm_source d" "dm_source (switch_source d) = dm_source d"
  "dm_source (map_capable i f d) = dm_source d" "dm_source (snd (bind_announce d ident)) = dm_source d"
  "st_own_identity (dm_state (snd (bind_announce d ident))) = st_own_identity (dm_state d)"
  by (simp_all add: start_receipt_def switch_source_def Let_def map_capable_def bind_announce_def split_beta)

lemma select_announce_cases:
  fixes d :: ptp_daemon and msg :: bytes
  defines "m \<equiv> announce_of msg" and "sel \<equiv> so_selected_source (dm_source d)"
  shows "(so_selected_source (dm_source (select_announce cfg d msg len path t)) = sel \<and>
      so_selected_source_valid (dm_source (select_announce cfg d msg len path t)) = so_selected_source_valid (dm_source d)) \<or>
    (\<not> so_selected_source_valid (dm_source (select_announce cfg d msg len path t)) \<and>
      same_source_port (an_header m) (an_header sel) \<and> \<not> is_better_clock m (st_own_identity (dm_state d))) \<or>
    (so_selected_source (dm_source (select_announce cfg d msg len path t)) =
        announce_of (take PTP_ANNOUNCE_BODY_LENGTH msg @ replicate 12 0) \<and>
      so_selected_path (dm_source (select_announce cfg d msg len path t)) = path \<and>
      is_better_clock m (st_own_identity (dm_state d)) \<and>
      (same_source_port (an_header m) (an_header sel) \<or> \<not> so_selected_source_valid (dm_source d) \<or>
       is_better_clock m sel))"
  unfolding select_announce_def Let_def m_def sel_def
  by (auto simp: take_source_simps forget_source_def)

text \<open>C8. An Announce changes the selected source in two ways only.  It takes the place of the
  source when its path is well formed and does not contain this clock, it is better than this
  clock itself, and it is the selected port's own update, or no source is valid, or it beats
  the selected one; or it makes the source forgotten, when it is the selected port's own update
  and no longer beats this clock.  Otherwise the source stays.\<close>

theorem announce_selects_best:
  fixes d :: ptp_daemon and msg :: bytes and cfg :: ptp_config and len :: nat and mono_ts :: timespec
    and now_us :: int
  defines "own \<equiv> st_own_identity (dm_state d)" and "sel \<equiv> so_selected_source (dm_source d)"
    and "m \<equiv> announce_of msg" and "d' \<equiv> ptp_process_announce cfg d msg len mono_ts now_us"
  shows "so_selected_source (dm_source d') = sel \<and>
      so_selected_source_valid (dm_source d') = so_selected_source_valid (dm_source d) \<or>
    \<not> so_selected_source_valid (dm_source d') \<and> same_source_port (an_header m) (an_header sel) \<and>
      \<not> is_better_clock m own \<or>
    so_selected_source (dm_source d') = announce_of (take PTP_ANNOUNCE_BODY_LENGTH msg @ replicate 12 0) \<and>
      (\<exists>path. ptp_path_trace_parse msg len (hd_sourceidentity (an_header own)) = Some path \<and>
         so_selected_path (dm_source d') = path) \<and>
      (dm_gptp d \<longrightarrow> hd_sourceidentity (an_header m) \<noteq> hd_sourceidentity (an_header own)) \<and>
      is_better_clock m own \<and>
      (same_source_port (an_header m) (an_header sel) \<or> \<not> so_selected_source_valid (dm_source d) \<or>
       is_better_clock m sel)"
proof (cases "ptp_path_trace_parse msg len (hd_sourceidentity (an_header own))")
  case None
  then show ?thesis by (simp add: d'_def ptp_process_announce_def own_def sel_def)
next
  case (Some path)
  define b where "b = bind_announce d (port_identity_of (an_header m))"
  define e where "e = map_port 0 (\<lambda>p. p\<lparr>po_seen := (po_seen p)\<lparr>ps_last_received_announce := mono_ts\<rparr>\<rparr>) (snd b)"
  have e: "dm_source e = dm_source d" "st_own_identity (dm_state e) = own" by (simp_all add: e_def b_def own_def)
  have d': "d' = (if dm_gptp d \<and> (be16 (an_stepsremoved m ! 0) (an_stepsremoved m ! 1) \<ge> 255 \<or>
        hd_sourceidentity (an_header m) = hd_sourceidentity (an_header own)) then d
      else if \<not> fst b then snd b else select_announce cfg e msg len path now_us)"
    using Some by (simp add: d'_def ptp_process_announce_def Let_def split_beta own_def m_def b_def e_def) blast
  show ?thesis
  proof (cases "d' = select_announce cfg e msg len path now_us \<and>
      (dm_gptp d \<longrightarrow> hd_sourceidentity (an_header m) \<noteq> hd_sourceidentity (an_header own))")
    case True
    then have eq: "select_announce cfg e msg len path now_us = d'" by simp
    from select_announce_cases [of cfg e msg len path now_us] True Some show ?thesis
      unfolding eq e m_def [symmetric] sel_def [symmetric] by blast
  next
    case False
    define g where "g \<longleftrightarrow> dm_gptp d \<and> (be16 (an_stepsremoved m ! 0) (an_stepsremoved m ! 1) \<ge> 255 \<or>
        hd_sourceidentity (an_header m) = hd_sourceidentity (an_header own))"
    have "d' = (if g then d else if \<not> fst b then snd b else select_announce cfg e msg len path now_us)"
      using d' by (simp only: g_def)
    moreover have "g \<or> \<not> fst b" using False d' unfolding g_def by metis
    ultimately have "d' = d \<or> d' = snd b" by metis
    then show ?thesis by (auto simp: sel_def b_def)
  qed
qed

definition announce_example :: bytes where
  "announce_example = [0x1b, 0x12, 0, 76] @ replicate 16 0 @ [9, 9, 9, 9, 9, 9, 9, 9, 0, 1] @ replicate 17 0 @
     [100, 1, 1, 1, 1, 1] @ [8, 8, 8, 8, 8, 8, 8, 8, 0, 1, 0xa0] @ [0, 8, 0, 8, 7, 7, 7, 7, 7, 7, 7, 7]"

definition clock_example :: ptp_daemon where
  "clock_example = map_state (\<lambda>s. s\<lparr>st_own_identity := (st_own_identity s)\<lparr>an_btc_priority1 := 250,
     an_header := (an_header (st_own_identity s))\<lparr>hd_sourceidentity := replicate 8 1\<rparr>\<rparr>\<rparr>) profile_example"

theorem announce_selects_best_witness:
  "let d' = ptp_process_announce config_default clock_example announce_example 76 timespec_zero 5
   in an_btc_priority1 (so_selected_source (dm_source d')) = 100 \<and> so_selected_path (dm_source d') = [replicate 8 7]"
proof -
  define d' where "d' = ptp_process_announce config_default clock_example announce_example 76 timespec_zero 5"
  have c: "an_btc_priority1 (so_selected_source (dm_source d')) = 100"
    "an_btc_priority1 (so_selected_source (dm_source clock_example)) = 0"
    "\<not> same_source_port (an_header (announce_of announce_example)) (an_header (so_selected_source (dm_source clock_example)))"
    "ptp_path_trace_parse announce_example 76 (hd_sourceidentity (an_header (st_own_identity (dm_state clock_example))))
       = Some [replicate 8 7]"
    unfolding d'_def by code_simp+
  from announce_selects_best [of config_default clock_example announce_example 76 timespec_zero 5] c
  show ?thesis unfolding d'_def [symmetric] Let_def by auto
qed

section \<open>Loss of the source\<close>

text \<open>C30. In gPTP a source is believed only while its Announce is younger than its receipt timeout,
  its Sync arrives (unless it is no grandmaster at all), and, on a wired port, the neighbor is
  capable; the pass of the loop that finds one of these missing drops the source and
  invalidates the timing learnt from it.\<close>

theorem silent_source_dropped:
  assumes "dm_gptp d"
    and "timespec_delta_ns (cf_time64 cfg) mono_ts (so_last_selected_announce (dm_source d)) \<ge>
           ptp_announce_receipt_timeout_ns (cf_announce_interval_ms cfg)
             (hd_logmessageinterval (an_header (so_selected_source (dm_source d)))) \<or>
         an_btc_priority1 (so_selected_source (dm_source d)) < 255 \<and>
           \<not> ptp_sync_receipt_current (ts_sync_receipt (po_sync (port_at d 0))) now_us \<or>
         pg_medium (po_config (port_at d 0)) = ptp_port_medium_eth_hwts \<and>
           \<not> ptp_wired_capability cfg d capable_us neighbor_us"
  defines "d' \<equiv> refresh_source cfg d mono_ts capable_us neighbor_us now_us"
  shows "\<not> so_selected_source_valid (dm_source d') \<and>
    (so_selected_source_valid (dm_source d) \<longrightarrow> \<not> tm_valid (dm_timing d') \<and>
       ptpd_timing_generation d' \<noteq> ptpd_timing_generation d)"
proof -
  have "\<not> is_selected_source_valid cfg d mono_ts capable_us neighbor_us now_us"
    using assms(1,2) by (auto simp: is_selected_source_valid_def Let_def)
  then show ?thesis
    by (simp add: d'_def refresh_source_def Let_def ptpd_timing_generation_def)
       (simp add: ptp_invalidate_timing_def map_source_def map_state_def)
qed

theorem silent_source_dropped_witness:
  "let d = map_source (\<lambda>s. s\<lparr>so_selected_source_valid := True\<rparr>) profile_example
   in \<not> so_selected_source_valid (dm_source (refresh_source config_default d \<lparr>tv_sec = 4, tv_nsec = 0\<rparr> 0 0 0)) \<and>
      \<not> tm_valid (dm_timing (refresh_source config_default d \<lparr>tv_sec = 4, tv_nsec = 0\<rparr> 0 0 0))"
proof -
  define d where "d = map_source (\<lambda>s. s\<lparr>so_selected_source_valid := True\<rparr>) profile_example"
  have "dm_gptp d" "timespec_delta_ns (cf_time64 config_default) \<lparr>tv_sec = 4, tv_nsec = 0\<rparr> (so_last_selected_announce (dm_source d)) \<ge>
           ptp_announce_receipt_timeout_ns (cf_announce_interval_ms config_default)
             (hd_logmessageinterval (an_header (so_selected_source (dm_source d))))"
    "so_selected_source_valid (dm_source d)"
    unfolding d_def by code_simp+
  with silent_source_dropped [of d config_default "\<lparr>tv_sec = 4, tv_nsec = 0\<rparr>" 0 0 0] show ?thesis
    unfolding d_def [symmetric] Let_def by blast
qed

section \<open>One update per Sync\<close>

lemma clean_after_step_sync:
  "0 < num_ports d \<Longrightarrow> po_sync (port_at (ptp_clean_after_step d) 0) = po_sync (port_at d 0)"
  by (simp add: ptp_clean_after_step_def Let_def)

lemma note_stability_port:
  "0 < num_ports d \<Longrightarrow> po_sync (port_at (note_stability b v d) 0) = po_sync (port_at d 0)"
  "num_ports (note_stability b v d) = num_ports d"
  by (simp_all add: note_stability_def Let_def)

lemma apply_trim_port [simp]:
  "port_at (apply_hw_trim d env i tr) j = port_at d j" "port_at (apply_sw_trim d env acc tr) j = port_at d j"
  "num_ports (apply_hw_trim d env i tr) = num_ports d" "num_ports (apply_sw_trim d env acc tr) = num_ports d"
  by (simp_all add: apply_hw_trim_def apply_sw_trim_def Let_def split_beta) (simp_all add: port_at_def)

lemma lock_sync:
  assumes "0 < num_ports d"
  shows "po_sync (port_at (ptp_lock_local_clock_freq cfg d env remote local) 0) = po_sync (port_at d 0)"
    "num_ports (ptp_lock_local_clock_freq cfg d env remote local) = num_ports d"
  using assms by (simp_all add: ptp_lock_local_clock_freq_def Let_def split_beta note_stability_port)

lemma update_local_clock_sync:
  assumes "0 < num_ports d"
  shows "po_sync (port_at (snd (ptp_update_local_clock cfg d env remote local)) 0) = po_sync (port_at d 0)"
    "num_ports (snd (ptp_update_local_clock cfg d env remote local)) = num_ports d"
  using assms by (simp_all add: ptp_update_local_clock_def Let_def split_beta clean_after_step_sync lock_sync)

lemma accept_follow_up_done:
  assumes "0 < num_ports d"
  shows "0 < num_ports (accept_follow_up d msg)"
    "\<not> ts_twostep_pending (po_sync (port_at (accept_follow_up d msg) 0))"
proof -
  have "num_ports (accept_follow_up d msg) = num_ports d" by (simp add: accept_follow_up_def Let_def)
  with assms show "0 < num_ports (accept_follow_up d msg)" by (simp only:)
qed (use assms in \<open>simp add: accept_follow_up_def Let_def\<close>)

lemma observe_receipt_pending:
  "0 < num_ports d \<Longrightarrow> ts_twostep_pending (po_sync (port_at (observe_sync_receipt d t) 0)) =
     ts_twostep_pending (po_sync (port_at d 0))"
  by (simp add: observe_sync_receipt_def)

lemma port_at_timing: "port_at (d\<lparr>dm_timing := x\<rparr>) i = port_at d i"
  by (simp add: port_at_def)


text \<open>A daemon whose Sync with sequence number 0 waits, and the Follow\_Up of it.\<close>

definition waiting_example :: ptp_daemon where
  "waiting_example = map_port 0 (\<lambda>p. p\<lparr>po_sync := (po_sync p)\<lparr>ts_twostep_pending := True\<rparr>\<rparr>)
     (map_state (\<lambda>s. s\<lparr>st_active_ptp_profile := ptp_profile_standard\<rparr>) clock_example)"


section \<open>The average of the delays\<close>

lemma sdiv_between:
  fixes x c :: int
  assumes "0 < c"
  shows "if 0 \<le> x then 0 \<le> x sdiv c \<and> x sdiv c \<le> x else x \<le> x sdiv c \<and> x sdiv c \<le> 0"
proof -
  have "\<bar>x\<bar> div c \<le> \<bar>x\<bar>"
    using assms zdiv_mono2 [of "\<bar>x\<bar>" 1 c] by simp
  moreover have "0 \<le> \<bar>x\<bar> div c" using assms by (simp add: pos_imp_zdiv_nonneg_iff)
  ultimately show ?thesis using assms by (auto simp: signed_divide_int_def sgn_if)
qed

text \<open>A sample moves the average towards itself and never past it, so the average of
  delays between two bounds stays between them.\<close>

theorem delay_average_bounded:
  assumes "0 < cf_delayreq_avgcount cfg" "0 \<le> count"
    and "lo \<le> delay_ns" "delay_ns \<le> hi" "lo \<le> sample_ns" "sample_ns \<le> hi"
  shows "\<exists>count' ns. average_delay cfg count delay_ns sample_ns = Some (count', ns) \<and>
    0 < count' \<and> (count \<le> cf_delayreq_avgcount cfg \<longrightarrow> count' \<le> cf_delayreq_avgcount cfg) \<and>
    lo \<le> ns \<and> ns \<le> hi \<and> (count = 0 \<longrightarrow> ns = sample_ns)"
proof -
  define c where "c = (if count < cf_delayreq_avgcount cfg then count + 1 else count)"
  have c: "0 < c" "count \<le> cf_delayreq_avgcount cfg \<longrightarrow> c \<le> cf_delayreq_avgcount cfg" "count = 0 \<longrightarrow> c = 1"
    using assms by (auto simp: c_def)
  have q: "(if 0 \<le> x then 0 \<le> x sdiv c \<and> x sdiv c \<le> x else x \<le> x sdiv c \<and> x sdiv c \<le> 0)" for x
    using sdiv_between [OF c(1)] by simp
  have "average_delay cfg count delay_ns sample_ns = Some (c, delay_ns + (sample_ns - delay_ns) sdiv c)"
    using c(1) by (simp add: average_delay_def Let_def c_def [symmetric])
  moreover have "lo \<le> delay_ns + (sample_ns - delay_ns) sdiv c" "delay_ns + (sample_ns - delay_ns) sdiv c \<le> hi"
    using q [of "sample_ns - delay_ns"] assms by (auto split: if_splits)
  ultimately show ?thesis using c by (auto simp: signed_divide_int_def sgn_if)
qed

theorem delay_average_bounded_witness:
  "average_delay config_default 0 500 800 = Some (1, 800) \<and>
   (\<exists>count' ns. average_delay config_default 1 500 800 = Some (count', ns) \<and> 0 < count' \<and> 500 \<le> ns \<and> ns \<le> 800)"
proof
  show "average_delay config_default 0 500 800 = Some (1, 800)" by code_simp
  have "0 < cf_delayreq_avgcount config_default" by code_simp
  from delay_average_bounded [OF this, of 1 500 500 800 800]
  show "\<exists>count' ns. average_delay config_default 1 500 800 = Some (count', ns) \<and> 0 < count' \<and> 500 \<le> ns \<and> ns \<le> 800"
    by auto
qed

end
