(* ===== verification/Ptp_Net.thy ===== *)
theory Ptp_Net
  imports Ptp_Timing
begin

text \<open>
  Ethernet framing of \<^verbatim>\<open>ptp.c\<close>: what the daemon hands to the network for a message, with and without
  the priority tag of AVB Lite, and what it makes of a frame it reads.

  The driver and the socket are parameters: \<open>tx_env\<close> holds what they answer during one
  transmission, and what goes out is a value of type \<open>transmission\<close>.  The transmit hook and the
  log are left out.
\<close>

section \<open>Constants\<close>

definition ETH_HEADER_LEN :: nat where "ETH_HEADER_LEN = 14"
definition PTP_VLAN_TAG_LEN :: nat where "PTP_VLAN_TAG_LEN = 4"
definition PTP_PRIORITY_TAG_PCP :: u8 where "PTP_PRIORITY_TAG_PCP = 7"
definition LLDP_MULTICAST_ADDR :: bytes where "LLDP_MULTICAST_ADDR = [0x01, 0x80, 0xC2, 0x00, 0x00, 0x0e]"
definition PTP4L_MULTICAST_ADDR :: bytes where "PTP4L_MULTICAST_ADDR = [0x01, 0x1B, 0x19, 0x00, 0x00, 0x00]"

text \<open>\<open>ETH_TYPE_PTP\<close>, \<open>0x88F7\<close>, in network order.\<close>

definition eth_type_ptp :: bytes where "eth_type_ptp = [0x88, 0xF7]"

section \<open>Transmission\<close>

datatype esp_err = ESP_OK | ESP_ERR_TIMEOUT | ESP_ERR_OTHER

text \<open>Whether the driver handle is available, the answer of the driver with its time stamp, and the
  result of the write to the socket with the time stamp it leaves, if any.\<close>

record tx_env =
  te_handle_ok :: bool
  te_err :: esp_err
  te_mac_time :: timespec
  te_write_ret :: int
  te_stamp :: "timespec option"

record transmission =
  tx_frame :: bytes
  tx_socket :: bool
  tx_timed :: bool

definition ptp_tx_minor_version :: "ptp_port \<Rightarrow> u8" where
  "ptp_tx_minor_version p =
     (if pg_medium (po_config p) = ptp_port_medium_wifi_ftm then 1 else lk_rx_minor_version (po_link p))"

definition ptp_create_eth_frame_to :: "ptp_daemon \<Rightarrow> bytes \<Rightarrow> bytes \<Rightarrow> bytes" where
  "ptp_create_eth_frame_to d ptp_msg dest_mac =
     dest_mac @ lk_intf_hw_addr (po_link (port_at d 0)) @ eth_type_ptp @
     ptp_gptp_wire_normalize ptp_msg (length ptp_msg) (dm_gptp d) (ptp_tx_minor_version (port_at d 0))"

definition ptp_tags_frame :: "ptp_config \<Rightarrow> ptp_daemon \<Rightarrow> bytes \<Rightarrow> bool" where
  "ptp_tags_frame cfg d dest_mac \<longleftrightarrow>
     cf_lite_priority_tag cfg \<and> \<not> dm_gptp d \<and> dest_mac \<noteq> LLDP_MULTICAST_ADDR"

definition tagged_frame :: "ptp_daemon \<Rightarrow> bytes \<Rightarrow> bytes \<Rightarrow> bytes" where
  "tagged_frame d ptp_msg dest_mac =
     dest_mac @ lk_intf_hw_addr (po_link (port_at d 0)) @
     [0x81, 0x00, push_bit 5 PTP_PRIORITY_TAG_PCP, 0x00] @ eth_type_ptp @
     ptp_gptp_wire_normalize ptp_msg (length ptp_msg) (dm_gptp d) (ptp_tx_minor_version (port_at d 0))"

text \<open>The results: the value returned (\<open>ERROR\<close> is -1), the time stamp if one is written, and
  what was handed to the network.  \<open>timed\<close>: the caller passes a time stamp to fill in.\<close>

definition ptp_net_send_tagged ::
  "ptp_daemon \<Rightarrow> bytes \<Rightarrow> bool \<Rightarrow> bytes \<Rightarrow> tx_env \<Rightarrow> int \<times> timespec option \<times> transmission option" where
  "ptp_net_send_tagged d ptp_msg timed dest_mac env =
     (if \<not> te_handle_ok env then (-1, None, None)
      else
        let frame = tagged_frame d ptp_msg dest_mac;
            out = Some \<lparr>tx_frame = frame, tx_socket = False, tx_timed = timed\<rparr>
        in if te_err env \<noteq> ESP_OK then (-1, None, out)
           else (int (length frame), if timed then Some (te_mac_time env) else None, out))"

definition ptp_net_send_to ::
  "ptp_config \<Rightarrow> ptp_daemon \<Rightarrow> bytes \<Rightarrow> bool \<Rightarrow> bytes \<Rightarrow> tx_env \<Rightarrow>
     int \<times> timespec option \<times> transmission option" where
  "ptp_net_send_to cfg d ptp_msg timed dest_mac env =
     (if ptp_tags_frame cfg d dest_mac then ptp_net_send_tagged d ptp_msg timed dest_mac env
      else
        let frame = ptp_create_eth_frame_to d ptp_msg dest_mac in
        if \<not> timed \<and> te_handle_ok env then
          (if te_err env \<noteq> ESP_OK then -1 else int (length frame), None,
           Some \<lparr>tx_frame = frame, tx_socket = False, tx_timed = False\<rparr>)
        else
          (te_write_ret env, if te_write_ret env > 0 \<and> timed then te_stamp env else None,
           Some \<lparr>tx_frame = frame, tx_socket = True, tx_timed = True\<rparr>))"

definition profile_multicast :: "ptp_daemon \<Rightarrow> bytes" where
  "profile_multicast d = (if dm_gptp d then LLDP_MULTICAST_ADDR else PTP4L_MULTICAST_ADDR)"

definition ptp_net_send ::
  "ptp_config \<Rightarrow> ptp_daemon \<Rightarrow> bytes \<Rightarrow> bool \<Rightarrow> tx_env \<Rightarrow> int \<times> timespec option \<times> transmission option" where
  "ptp_net_send cfg d ptp_msg timed env = ptp_net_send_to cfg d ptp_msg timed (profile_multicast d) env"

section \<open>Reception\<close>

definition RXBUF_SIZE :: nat where "RXBUF_SIZE = 256"

text \<open>\<open>ret\<close> octets were read into \<open>eth_frame\<close>, or \<open>ret\<close> is not positive; \<open>stamp\<close> is the time stamp
  that came with them.\<close>

definition eth_payload_offset :: "int \<Rightarrow> bytes \<Rightarrow> nat" where
  "eth_payload_offset ret eth_frame =
     (if ret > int (ETH_HEADER_LEN + PTP_VLAN_TAG_LEN) \<and> eth_frame ! 12 = 0x81 \<and> eth_frame ! 13 = 0 \<and>
         eth_frame ! 16 = 0x88 \<and> eth_frame ! 17 = 0xF7
      then ETH_HEADER_LEN + PTP_VLAN_TAG_LEN else ETH_HEADER_LEN)"

definition note_read :: "int \<Rightarrow> ptp_daemon \<Rightarrow> ptp_daemon" where
  "note_read ret d = d\<lparr>dm_stats := (if ret > 0 then (dm_stats d)\<lparr>sx_read_ok := sx_read_ok (dm_stats d) + 1\<rparr>
                                    else (dm_stats d)\<lparr>sx_read_err := sx_read_err (dm_stats d) + 1\<rparr>)\<rparr>"

definition ptp_net_recv :: "ptp_daemon \<Rightarrow> int \<Rightarrow> bytes \<Rightarrow> timespec option \<Rightarrow> int \<times> ptp_daemon" where
  "ptp_net_recv d ret eth_frame stamp =
     (let d = note_read ret d;
          d = (case stamp of
                 Some ts \<Rightarrow> if ret > 0 then map_port 0 (\<lambda>p. p\<lparr>po_rx := (po_rx p)\<lparr>rx_rxtime := ts\<rparr>\<rparr>) d else d
               | None \<Rightarrow> d)
      in if ret \<le> int ETH_HEADER_LEN then (-1, d)
         else if and (eth_frame ! 0) 1 = 0 \<and> take 6 eth_frame \<noteq> lk_intf_hw_addr (po_link (port_at d 0)) then (-1, d)
         else
           let header_len = eth_payload_offset ret eth_frame;
               payload_len = min (nat ret - header_len) RXBUF_SIZE
           in (int payload_len,
               map_port 0 (\<lambda>p. p\<lparr>po_rx := (po_rx p)\<lparr>rx_dest_mac := Some (take 6 eth_frame),
                 rx_source_mac := Some (slice 6 6 eth_frame),
                 rx_rxbuf := splice 0 (slice header_len payload_len eth_frame) (rx_rxbuf (po_rx p))\<rparr>\<rparr>) d))"

section \<open>What is sent is received\<close>

lemma length_normalize [simp]: "length (ptp_gptp_wire_normalize w (length w) g v) = length w"
  by (auto simp: ptp_gptp_wire_normalize_def Let_def)

text \<open>The views of a normalised message.\<close>

lemma header_of_normalize:
  assumes "34 \<le> length w"
  shows "header_of (normalize_header w v) = (header_of w)\<lparr>hd_version := or (push_bit 4 v) 2, hd_reserved1 := 0,
     hd_reserved2 := replicate 4 0, hd_controlfield := 0\<rparr>"
proof -
  have "slice 16 4 (normalize_header w v) = replicate 4 0"
    using assms by (intro nth_equalityI) (auto simp: nth_slice nth_normalize_header)
  moreover have "normalize_header w v ! 0 = w ! 0"
    using assms nth_normalize_header [of w 0 v] by (cases w) simp_all
  ultimately show ?thesis
    using assms by (simp add: header_of_def normalize_header_slice nth_normalize_header)
qed

lemma normalize_plain:
  assumes "34 \<le> length w" "and (w ! 0) 15 \<notin> {0, 2, 11, 12}"
  shows "ptp_gptp_wire_normalize w (length w) True v = normalize_header w v"
  using normalize_cases [of "length w" w v] assms by (simp add: Let_def)

lemma note_read_simps [simp]:
  "dm_state (note_read r d) = dm_state d" "port_at (note_read r d) i = port_at d i"
  by (simp_all add: note_read_def port_at_def)

lemma sent_frame:
  assumes "ptp_net_send_to cfg d msg timed dest env = (ret, ts, Some t)"
  shows "tx_frame t = (if ptp_tags_frame cfg d dest then tagged_frame d msg dest else ptp_create_eth_frame_to d msg dest)"
  using assms by (auto simp: ptp_net_send_to_def ptp_net_send_tagged_def Let_def split: if_splits)

text \<open>The payload of either frame, with the padding the medium adds.\<close>

lemma frame_layout:
  fixes d :: ptp_daemon
  assumes "length (lk_intf_hw_addr (po_link (port_at d 0))) = 6" "length dest = 6" "msg \<noteq> []"
    and "f = tagged_frame d msg dest \<and> n = 18 \<or> f = ptp_create_eth_frame_to d msg dest \<and> n = 14"
  defines "w \<equiv> ptp_gptp_wire_normalize msg (length msg) (dm_gptp d) (ptp_tx_minor_version (port_at d 0))"
  shows "take 6 (f @ pad) = dest" "slice 6 6 (f @ pad) = lk_intf_hw_addr (po_link (port_at d 0))"
    "slice n k (f @ pad) = take k (w @ pad)" "length f = n + length msg" "(f @ pad) ! 0 = dest ! 0"
    "eth_payload_offset (int (length (f @ pad))) (f @ pad) = n"
proof -
  define tag :: bytes where
    "tag = (if n = 18 then [0x81, 0, push_bit 5 PTP_PRIORITY_TAG_PCP, 0, 0x88, 0xF7] else [0x88, 0xF7])"
  have n: "n = 18 \<or> n = 14" using assms(4) by blast
  have frame: "f = dest @ lk_intf_hw_addr (po_link (port_at d 0)) @ tag @ w"
    using assms(4) by (auto simp: tagged_frame_def ptp_create_eth_frame_to_def eth_type_ptp_def w_def tag_def)
  have len: "length w = length msg" "length tag = n - 12" using n by (auto simp: w_def tag_def)
  show "take 6 (f @ pad) = dest" "(f @ pad) ! 0 = dest ! 0"
    using frame assms(2) by (simp_all add: nth_append)
  show "slice 6 6 (f @ pad) = lk_intf_hw_addr (po_link (port_at d 0))"
    using frame assms(1,2) by (simp add: slice_def)
  show "slice n k (f @ pad) = take k (w @ pad)" "length f = n + length msg"
    using frame assms(1,2) len n by (auto simp: slice_def)
  from n show "eth_payload_offset (int (length (f @ pad))) (f @ pad) = n"
  proof
    assume "n = 18"
    moreover have "0 < int (length msg) + int (length pad)" using assms(3) by (cases msg) simp_all
    ultimately show ?thesis
      using frame assms(1,2) len
      by (simp add: eth_payload_offset_def ETH_HEADER_LEN_def PTP_VLAN_TAG_LEN_def nth_append tag_def)
  next
    assume "n = 14"
    then show ?thesis using frame assms(1,2)
      by (simp add: eth_payload_offset_def ETH_HEADER_LEN_def PTP_VLAN_TAG_LEN_def nth_append tag_def)
  qed
qed

text \<open>C32. A message one daemon sends is the message another reads: whether the frame goes out tagged
  or not, through the socket or the driver, and padded by the medium, the receiver finds the
  message as it was normalised, followed by the padding, and the sender's and the destination's
  addresses; a unicast frame for another station is refused and leaves the buffer alone.\<close>

theorem frame_roundtrip:
  fixes cfg :: ptp_config and d e :: ptp_daemon and msg pad :: bytes and stamp :: "timespec option"
    and t :: transmission
  assumes "length (lk_intf_hw_addr (po_link (port_at d 0))) = 6" "length dest = 6" "msg \<noteq> []"
    and "length msg + length pad \<le> RXBUF_SIZE" "0 < num_ports e"
    and "ptp_net_send_to cfg d msg timed dest env = (ret, ts, Some t)"
  defines "w \<equiv> ptp_gptp_wire_normalize msg (length msg) (dm_gptp d) (ptp_tx_minor_version (port_at d 0))"
    and "r \<equiv> ptp_net_recv e (int (length (tx_frame t @ pad))) (tx_frame t @ pad) stamp"
  shows "(and (dest ! 0) 1 \<noteq> 0 \<or> dest = lk_intf_hw_addr (po_link (port_at e 0)) \<longrightarrow>
      fst r = int (length msg + length pad) \<and> take (length msg + length pad) (rx_rxbuf (po_rx (port_at (snd r) 0))) = w @ pad \<and>
      rx_source_mac (po_rx (port_at (snd r) 0)) = Some (lk_intf_hw_addr (po_link (port_at d 0))) \<and>
      rx_dest_mac (po_rx (port_at (snd r) 0)) = Some dest) \<and>
    (and (dest ! 0) 1 = 0 \<and> dest \<noteq> lk_intf_hw_addr (po_link (port_at e 0)) \<longrightarrow>
      fst r = -1 \<and> rx_rxbuf (po_rx (port_at (snd r) 0)) = rx_rxbuf (po_rx (port_at e 0)))"
proof -
  define n :: nat where "n = (if ptp_tags_frame cfg d dest then 18 else 14)"
  have f: "tx_frame t = tagged_frame d msg dest \<and> n = 18 \<or> tx_frame t = ptp_create_eth_frame_to d msg dest \<and> n = 14"
    using sent_frame [OF assms(6)] by (simp add: n_def)
  note lay = frame_layout(1-3) [where pad = pad, OF assms(1,2,3) f, folded w_def]
    frame_layout(4) [OF assms(1,2,3) f] frame_layout(5,6) [where pad = pad, OF assms(1,2,3) f]
  have w: "length w = length msg" by (simp add: w_def)
  have n: "14 < length (tx_frame t @ pad)" using lay(4) assms(3) by (auto simp: n_def)
  have k: "min (length (tx_frame t @ pad) - n) RXBUF_SIZE = length msg + length pad"
    using lay(4) assms(4) by (auto simp: min_def)
  define e1 where "e1 = (case stamp of
        Some ts \<Rightarrow> if int (length (tx_frame t @ pad)) > 0 then map_port 0 (\<lambda>p. p\<lparr>po_rx := (po_rx p)\<lparr>rx_rxtime := ts\<rparr>\<rparr>)
          (note_read (int (length (tx_frame t @ pad))) e) else note_read (int (length (tx_frame t @ pad))) e
      | None \<Rightarrow> note_read (int (length (tx_frame t @ pad))) e)"
  have e1: "num_ports e1 = num_ports e" "po_link (port_at e1 0) = po_link (port_at e 0)"
    "rx_rxbuf (po_rx (port_at e1 0)) = rx_rxbuf (po_rx (port_at e 0))"
    using assms(5) by (auto simp: e1_def split: option.splits)
  have r: "r = (if and (dest ! 0) 1 = 0 \<and> dest \<noteq> lk_intf_hw_addr (po_link (port_at e 0)) then (-1, e1)
      else (int (length msg + length pad), map_port 0 (\<lambda>p. p\<lparr>po_rx := (po_rx p)\<lparr>rx_dest_mac := Some dest,
         rx_source_mac := Some (lk_intf_hw_addr (po_link (port_at d 0))),
         rx_rxbuf := splice 0 (w @ pad) (rx_rxbuf (po_rx p))\<rparr>\<rparr>) e1))"
    using n unfolding r_def ptp_net_recv_def Let_def e1_def [symmetric] e1(2) lay(1,2,5) lay(6) nat_int k
    by (simp add: ETH_HEADER_LEN_def lay(3) w)
  have "0 < num_ports e1" using e1(1) assms(5) by (simp only:)
  then show ?thesis by (auto simp: r e1(3) w splice_def)
qed

text \<open>A standard-profile daemon that tags its frames and sends to the standard group.\<close>

theorem frame_roundtrip_witness:
  "let r = ptp_net_recv (daemon_zero 1) 22 (PTP4L_MULTICAST_ADDR @ replicate 6 0 @ [0x81, 0, 0xe0, 0, 0x88, 0xF7, 5, 6, 7, 8]) None
   in fst r = 4 \<and> take 4 (rx_rxbuf (po_rx (port_at (snd r) 0))) = [5, 6, 7, 8]"
proof -
  define env where "env = \<lparr>te_handle_ok = True, te_err = ESP_OK, te_mac_time = timespec_zero, te_write_ret = 0, te_stamp = None\<rparr>"
  define cfg where "cfg = config_default\<lparr>cf_lite_priority_tag := True\<rparr>"
  define t where "t = \<lparr>tx_frame = tagged_frame (daemon_zero 1) [5, 6, 7, 8] PTP4L_MULTICAST_ADDR, tx_socket = False, tx_timed = False\<rparr>"
  have s: "ptp_net_send_to cfg (daemon_zero 1) [5, 6, 7, 8] False PTP4L_MULTICAST_ADDR env = (22, None, Some t)"
    unfolding cfg_def env_def t_def by code_simp
  have f: "tx_frame t @ [] = PTP4L_MULTICAST_ADDR @ replicate 6 0 @ [0x81, 0, 0xe0, 0, 0x88, 0xF7, 5, 6, 7, 8]"
    unfolding t_def by code_simp
  have h: "length (lk_intf_hw_addr (po_link (port_at (daemon_zero 1) 0))) = 6" "length PTP4L_MULTICAST_ADDR = 6"
    "([5, 6, 7, 8] :: bytes) \<noteq> []" "length ([5, 6, 7, 8] :: bytes) + length ([] :: bytes) \<le> RXBUF_SIZE"
    "0 < num_ports (daemon_zero 1)" "and (PTP4L_MULTICAST_ADDR ! 0) 1 \<noteq> 0" "\<not> dm_gptp (daemon_zero 1)"
    by code_simp+
  have w: "ptp_gptp_wire_normalize [5, 6, 7, 8] (length ([5, 6, 7, 8] :: bytes)) (dm_gptp (daemon_zero 1)) v @ [] = [5, 6, 7, 8]" for v
    using h(7) by (simp add: ptp_gptp_wire_normalize_def)
  have k: "int (length (PTP4L_MULTICAST_ADDR @ replicate 6 0 @ [0x81, 0, 0xe0, 0, 0x88, 0xF7, 5, 6, 7, 8])) = 22"
    "length ([5, 6, 7, 8] :: bytes) + length ([] :: bytes) = 4"
    by (simp_all add: PTP4L_MULTICAST_ADDR_def)
  from frame_roundtrip [OF h(1-5) s, where stamp = None] h(6) show ?thesis
    unfolding f w k Let_def by simp
qed

end
