(* ===== verification/Ptp_Delay.thy ===== *)
theory Ptp_Delay
  imports Ptp_Net Ptp_Source
begin

text \<open>
  Delay requests and their answers (\<^verbatim>\<open>ptp.c\<close>): the responder's Pdelay_Resp with its
  Follow_Up or Delay_Resp, and the requester's side, from the admission of a response to the
  measured delay and the capability of the link.

  A conversion the C standard leaves undefined yields the parameter \<open>conv\<close>, an uninitialised time
  stamp the parameter \<open>unset\<close>.  None as the result of a handler stands for a division by zero.
  \<open>raw\<close> is the value of \<^verbatim>\<open>random()\<close>.
\<close>

section \<open>Constants and helpers\<close>

definition PTP_MSGTYPE_SYNC :: u8 where "PTP_MSGTYPE_SYNC = 0"
definition PTP_MSGTYPE_DELAY_REQ :: u8 where "PTP_MSGTYPE_DELAY_REQ = 1"
definition PTP_MSGTYPE_PDELAY_REQ :: u8 where "PTP_MSGTYPE_PDELAY_REQ = 2"
definition PTP_MSGTYPE_PDELAY_RESP :: u8 where "PTP_MSGTYPE_PDELAY_RESP = 3"
definition PTP_MSGTYPE_DELAY_RESP :: u8 where "PTP_MSGTYPE_DELAY_RESP = 9"
definition PTP_MSGTYPE_PDELAY_RESP_FOLLOW_UP :: u8 where "PTP_MSGTYPE_PDELAY_RESP_FOLLOW_UP = 10"
definition PTP_MSGTYPE_SIGNALING :: u8 where "PTP_MSGTYPE_SIGNALING = 12"
definition PTP_FLAGS0_UNICAST :: u8 where "PTP_FLAGS0_UNICAST = 4"

definition ptp_sends_endpoint_decl :: "ptp_config \<Rightarrow> ptp_daemon \<Rightarrow> bool" where
  "ptp_sends_endpoint_decl cfg d \<longleftrightarrow>
     cf_avb_lite_endpoint cfg \<and> pg_type (po_config (port_at d 0)) \<noteq> ptp_port_type_bridged \<and>
     pg_medium (po_config (port_at d 0)) = ptp_port_medium_eth_hwts"

text \<open>The jitter of delay requests, in binary64.\<close>

definition rand_delayreq_interval :: "int \<Rightarrow> int \<Rightarrow> int" where
  "rand_delayreq_interval raw mean_interval_ms =
     (let normalized = rnd (rnd (of_int raw) / 2147483647);
          jitter_multiplier = rnd (rnd (4 / 5) + rnd (normalized * rnd (9 / 20)))
      in \<lfloor>rnd (of_int mean_interval_ms * jitter_multiplier)\<rfloor>)"

section \<open>The responder\<close>

definition delay_resp_interval :: "ptp_config \<Rightarrow> ptp_daemon \<Rightarrow> u32 \<Rightarrow> u8" where
  "delay_resp_interval cfg d conv =
     word_of_int (msec_to_log_period
       (if dm_gptp d then (case log_period_to_msec 127 of None \<Rightarrow> ucast conv | Some ms \<Rightarrow> ucast ms)
        else word_of_int (cf_delayreq_interval_ms cfg)))"

text \<open>A response, with the Endpoint Declaration TLV after it where the port declares itself.\<close>

definition delay_resp_header :: "ptp_config \<Rightarrow> ptp_daemon \<Rightarrow> ptp_header \<Rightarrow> u32 \<Rightarrow> bool \<Rightarrow> ptp_header" where
  "delay_resp_header cfg d req conv unicast_reply =
     (let h = an_header (st_own_identity (dm_state d)); gptp = dm_gptp d;
          declares = (gptp \<and> ptp_sends_endpoint_decl cfg d)
      in ptp_set_message_length
           (h\<lparr>hd_messagetype := (if gptp then or PTP_MSGTYPE_PDELAY_RESP PTP_MSGTYPE_SDOID_GPTP else PTP_MSGTYPE_DELAY_RESP),
              hd_flags := (if gptp then [PTP_FLAGS0_TWOSTEP, PTP_FLAGS1_PTP_TIMESCALE]
                           else if unicast_reply then (hd_flags h)[0 := or (hd_flags h ! 0) PTP_FLAGS0_UNICAST]
                           else hd_flags h),
              hd_controlfield := (if gptp then 5 else hd_controlfield h),
              hd_sequenceid := hd_sequenceid req,
              hd_logmessageinterval := delay_resp_interval cfg d conv\<rparr>)
           (if declares then 66 else 54))"

definition delay_resp_message :: "ptp_config \<Rightarrow> ptp_daemon \<Rightarrow> ptp_header \<Rightarrow> u32 \<Rightarrow> bool \<Rightarrow> bytes" where
  "delay_resp_message cfg d req conv unicast_reply =
     delay_resp_bytes
       \<lparr>dr_header = delay_resp_header cfg d req conv unicast_reply,
        dr_receivetimestamp = timespec_to_ptp_format (cf_time64 cfg) (rx_rxtime (po_rx (port_at d 0))),
        dr_reqidentity = hd_sourceidentity req, dr_reqportindex = hd_sourceportindex req\<rparr> @
     (if dm_gptp d \<and> ptp_sends_endpoint_decl cfg d then endpoint_decl_tlv else [])"

definition delay_resp_follow_up_message :: "ptp_config \<Rightarrow> ptp_daemon \<Rightarrow> ptp_header \<Rightarrow> u32 \<Rightarrow> timespec \<Rightarrow> bytes" where
  "delay_resp_follow_up_message cfg d req conv ts =
     (let h = delay_resp_header cfg d req conv False in
      delay_resp_follow_up_bytes
        \<lparr>df_header = h\<lparr>hd_messagetype := or PTP_MSGTYPE_PDELAY_RESP_FOLLOW_UP PTP_MSGTYPE_SDOID_GPTP,
                        hd_flags := (hd_flags h)[0 := 0]\<rparr>,
         df_origintimestamp = timespec_to_ptp_format (cf_time64 cfg) ts,
         df_reqidentity = hd_sourceidentity req, df_reqportindex = hd_sourceportindex req\<rparr> @
      (if ptp_sends_endpoint_decl cfg d then endpoint_decl_tlv else []))"

text \<open>The value returned, the new state and what was handed to the network, in order; \<open>env\<close> and
  \<open>env'\<close> are the answers to the first and the second transmission.\<close>

definition ptp_process_delay_req ::
  "ptp_config \<Rightarrow> ptp_daemon \<Rightarrow> ptp_header \<Rightarrow> tx_env \<Rightarrow> tx_env \<Rightarrow> u32 \<Rightarrow> timespec \<Rightarrow> timespec \<Rightarrow>
     int \<times> ptp_daemon \<times> transmission list" where
  "ptp_process_delay_req cfg d req env env' conv unset mono_ts =
     (if \<not> dm_gptp d \<and> so_selected_source_valid (dm_source d) then (0, d, [])
      else
        let rx = po_rx (port_at d 0);
            unicast_reply = (\<not> dm_gptp d \<and> rx_source_mac rx \<noteq> None \<and>
              (case rx_dest_mac rx of None \<Rightarrow> False | Some mac \<Rightarrow> and (mac ! 0) 1 = 0));
            resp = delay_resp_message cfg d req conv unicast_reply;
            (ret, ts, out) =
              (if unicast_reply then ptp_net_send_to cfg d resp True (the (rx_source_mac rx)) env
               else ptp_net_send cfg d resp True env);
            ts = (case ts of None \<Rightarrow> unset | Some t \<Rightarrow> t);
            sent = (case out of None \<Rightarrow> [] | Some t \<Rightarrow> [t])
        in if ret < 0 then (ret, d, sent)
           else
             let d = map_port 0 (\<lambda>p. p\<lparr>po_sent := (po_sent p)\<lparr>pt_last_transmitted_delayresp := mono_ts\<rparr>\<rparr>) d in
             if dm_gptp d then
               let (ret', _, out') = ptp_net_send cfg d (delay_resp_follow_up_message cfg d req conv ts) False env';
                   sent = sent @ (case out' of None \<Rightarrow> [] | Some t \<Rightarrow> [t])
               in (if ret' < 0 then ret' else 0, d, sent)
             else (0, d, sent))"

section \<open>The requester\<close>

text \<open>The peer exchange of a gPTP port: true when the response was accepted.\<close>

definition admit_pdelay_resp :: "ptp_daemon \<Rightarrow> ptp_delay_resp \<Rightarrow> int \<Rightarrow> bool \<times> ptp_daemon" where
  "admit_pdelay_resp d msg now_us =
     (let (admission, x) = ptp_peer_response (po_peer_exchange (port_at d 0)) msg (rx_rxtime (po_rx (port_at d 0))) now_us;
          d = map_port 0 (\<lambda>p. p\<lparr>po_peer_exchange := x,
                po_capable := (if px_multiple x
                  then (po_capable p)\<lparr>pk_peer_capability := (pk_peer_capability (po_capable p))\<lparr>pc_qualified := False\<rparr>\<rparr>
                  else po_capable p),
                po_lite := (if admission = PTP_PEER_MULTIPLE then (po_lite p)\<lparr>pl_pdelay_multi_responder := True\<rparr>
                            else po_lite p)\<rparr>) d
      in (admission = PTP_PEER_ACCEPTED, d))"

definition delay_resp_for_us :: "ptp_daemon \<Rightarrow> ptp_delay_resp \<Rightarrow> bool" where
  "delay_resp_for_us d msg \<longleftrightarrow>
     so_selected_source_valid (dm_source d) \<and>
     hd_sourceidentity (dr_header msg) = hd_sourceidentity (an_header (so_selected_source (dm_source d))) \<and>
     dr_reqidentity msg = hd_sourceidentity (an_header (st_own_identity (dm_state d))) \<and>
     dr_reqportindex msg = hd_sourceportindex (an_header (st_own_identity (dm_state d))) \<and>
     ptp_get_sequence (dr_header msg) = st_delay_req_seq (dm_state d)"

definition path_delay_sample :: "ptp_config \<Rightarrow> ptp_daemon \<Rightarrow> ptp_delay_resp \<Rightarrow> int" where
  "path_delay_sample cfg d msg =
     (let y = po_delay (port_at d 0);
          path_delay = timespec_delta_ns (cf_time64 cfg) (ptp_format_to_timespec (dr_receivetimestamp msg)) (pd_delayreq_time y);
          sync_delay = pd_path_delay_ns y + so_delay_asymmetry_ns (dm_source d) - sv_last_delta_ns (dm_servo d)
      in (path_delay + sync_delay) sdiv 2)"

definition take_path_delay :: "ptp_config \<Rightarrow> ptp_daemon \<Rightarrow> int \<Rightarrow> ptp_daemon option" where
  "take_path_delay cfg d path_delay =
     (if 0 \<le> path_delay \<and> path_delay < cf_max_path_delay_ns cfg then
        (case average_delay cfg (pd_path_delay_avgcount (po_delay (port_at d 0)))
                (pd_path_delay_ns (po_delay (port_at d 0))) path_delay of
           None \<Rightarrow> None
         | Some (count, ns) \<Rightarrow>
             Some (map_port 0 (\<lambda>p. p\<lparr>po_delay := (po_delay p)\<lparr>pd_path_delay_avgcount := count, pd_path_delay_ns := ns\<rparr>\<rparr>) d))
      else Some d)"

definition ptp_process_delay_resp ::
  "ptp_config \<Rightarrow> ptp_daemon \<Rightarrow> ptp_delay_resp \<Rightarrow> int \<Rightarrow> int \<Rightarrow> ptp_daemon option" where
  "ptp_process_delay_resp cfg d msg now_us raw =
     (if dm_gptp d then
        let (accepted, d) = admit_pdelay_resp d msg now_us in
        if \<not> accepted then Some d
        else Some (map_port 0 (\<lambda>p. p\<lparr>po_delay := (po_delay p)\<lparr>pd_next_delayreq_interval_ms :=
                                        pd_delayreq_interval_ms (po_delay p)\<rparr>\<rparr>) d)
      else if \<not> delay_resp_for_us d msg then Some d
      else
        let d = map_source (\<lambda>s. s\<lparr>so_unicast_delay_req_outstanding := False, so_unicast_delay_req_misses := 0\<rparr>) d in
        (case take_path_delay cfg d (path_delay_sample cfg d msg) of
           None \<Rightarrow> None
         | Some d \<Rightarrow>
             let logmsg = sint (hd_logmessageinterval (dr_header msg));
                 d = (if -8 \<le> logmsg \<and> logmsg \<le> 8 then
                        map_port 0 (\<lambda>p. p\<lparr>po_delay := (po_delay p)\<lparr>pd_delayreq_interval_ms :=
                          (case log_period_to_msec logmsg of None \<Rightarrow> 0 | Some ms \<Rightarrow> uint ms)\<rparr>\<rparr>) d
                      else d)
             in Some (map_port 0 (\<lambda>p. p\<lparr>po_delay := (po_delay p)\<lparr>pd_next_delayreq_interval_ms :=
                        rand_delayreq_interval raw (pd_delayreq_interval_ms (po_delay p))\<rparr>\<rparr>) d)))"

section \<open>The measured delay\<close>

text \<open>The round trip and the reflection of a measurement, if they are plausible.\<close>

definition measured_intervals ::
  "ptp_config \<Rightarrow> ptp_peer_measurement \<Rightarrow> ptp_delay_resp_follow_up \<Rightarrow> (int \<times> int) option" where
  "measured_intervals cfg m msg =
     (let remote_rxtime = ptp_format_to_timespec (dr_receivetimestamp (pm_response m));
          remote_txtime = ptp_format_to_timespec (df_origintimestamp msg);
          roundtrip = timespec_delta_ns (cf_time64 cfg) (pm_receive m) (pm_transmit m);
          reflection = timespec_delta_ns (cf_time64 cfg) remote_txtime remote_rxtime
      in if tv_sec remote_txtime < tv_sec remote_rxtime \<or> tv_sec remote_txtime - tv_sec remote_rxtime > 1 \<or>
            roundtrip < 0 \<or> roundtrip > 1000000000 \<or> reflection < 0 \<or> reflection > 1000000000
         then None else Some (roundtrip, reflection))"

definition measured_delay ::
  "ptp_config \<Rightarrow> rat \<Rightarrow> ptp_peer_measurement \<Rightarrow> ptp_delay_resp_follow_up \<Rightarrow> int \<times> int \<Rightarrow> rat option" where
  "measured_delay cfg ratio m msg intervals =
     (case ptp_peer_delay_local ratio (fst intervals) (snd intervals)
             (ptp_peer_correction (hd_correction (dr_header (pm_response m))))
             (ptp_peer_correction (hd_correction (df_header msg))) of
        None \<Rightarrow> None
      | Some delay \<Rightarrow> if delay < of_int (cf_max_peer_delay_ns cfg) then Some delay else None)"

text \<open>The average restarts for another responder or another lifetime of the link.\<close>

definition restart_average :: "ptp_peer_rate \<Rightarrow> ptp_port \<Rightarrow> ptp_port_delay" where
  "restart_average rate p =
     (if pr_lifecycle (po_peer_rate p) \<noteq> pr_lifecycle rate \<or> pr_responder (po_peer_rate p) \<noteq> pr_responder rate
      then (po_delay p)\<lparr>pd_peer_delay_avgcount := 0, pd_peer_delay_ns := 0\<rparr> else po_delay p)"

definition peer_qualified :: "ptp_daemon \<Rightarrow> ptp_peer_measurement \<Rightarrow> ptp_delay_resp_follow_up \<Rightarrow> int \<Rightarrow> bool" where
  "peer_qualified d m msg delay_ns \<longleftrightarrow>
     delay_ns \<le> 800 \<and>
     hd_messagetype (dr_header (pm_response m)) = 0x13 \<and> hd_reserved1 (dr_header (pm_response m)) = 0 \<and>
     hd_messagetype (df_header msg) = 0x1a \<and> hd_reserved1 (df_header msg) = 0 \<and>
     hd_sourceidentity (df_header msg) \<noteq> hd_sourceidentity (an_header (st_own_identity (dm_state d)))"

definition take_peer_delay ::
  "ptp_config \<Rightarrow> ptp_daemon \<Rightarrow> ptp_peer_rate \<Rightarrow> rat option \<Rightarrow> ptp_peer_measurement \<Rightarrow> ptp_delay_resp_follow_up \<Rightarrow>
     int \<Rightarrow> ptp_daemon option" where
  "take_peer_delay cfg d rate delay m msg received_us =
     (let y = restart_average rate (port_at d 0);
          averaged = (case delay of
              None \<Rightarrow> Some (pd_peer_delay_avgcount y, pd_peer_delay_ns y)
            | Some peer_delay \<Rightarrow> average_delay cfg (pd_peer_delay_avgcount y) (pd_peer_delay_ns y) (llround peer_delay))
      in case averaged of
           None \<Rightarrow> None
         | Some (count, ns) \<Rightarrow>
             Some (map_port 0 (\<lambda>p. p\<lparr>po_peer_rate := rate,
               po_delay := (po_delay p)\<lparr>pd_peer_delay_avgcount := count, pd_peer_delay_ns := ns\<rparr>,
               po_capable := (po_capable p)\<lparr>pk_peer_capability :=
                 \<lparr>pc_lifecycle = pm_lifecycle m, pc_received_us = received_us,
                  pc_qualified = (delay \<noteq> None \<and> peer_qualified d m msg ns)\<rparr>\<rparr>\<rparr>) d))"

text \<open>\<open>expected_generation\<close> is zero for a message from the wire.\<close>

definition ptp_process_delay_resp_follow_up ::
  "ptp_config \<Rightarrow> ptp_daemon \<Rightarrow> ptp_delay_resp_follow_up \<Rightarrow> u32 \<Rightarrow> int \<Rightarrow> int \<Rightarrow> ptp_daemon option" where
  "ptp_process_delay_resp_follow_up cfg d msg expected_generation now_us received_us =
     (if \<not> dm_gptp d then Some d
      else if expected_generation \<noteq> 0 \<and> px_generation (po_peer_exchange (port_at d 0)) \<noteq> expected_generation then Some d
      else
        let (measurement, x) = ptp_peer_finish (po_peer_exchange (port_at d 0)) msg now_us;
            rate0 = po_peer_rate (port_at d 0);
            d = map_port 0 (\<lambda>p. p\<lparr>po_peer_exchange := x,
                  po_capable := (if px_multiple x
                    then (po_capable p)\<lparr>pk_peer_capability := (pk_peer_capability (po_capable p))\<lparr>pc_qualified := False\<rparr>\<rparr>
                    else po_capable p)\<rparr>) d
        in case measurement of
             None \<Rightarrow> Some d
           | Some m \<Rightarrow>
               (case measured_intervals cfg m msg of
                  None \<Rightarrow> Some d
                | Some intervals \<Rightarrow>
                    let (rate_valid, rate) = ptp_peer_rate_update rate0 (pm_lifecycle m) (port_identity_of (df_header msg))
                          (ptp_format_to_timespec (df_origintimestamp msg))
                          (ptp_peer_correction (hd_correction (df_header msg))) (pm_receive m);
                        delay = (if rate_valid then measured_delay cfg (pr_ratio rate) m msg intervals else None);
                        x = po_peer_exchange (port_at d 0);
                        current = (px_generation x = pm_generation m \<and> px_lifecycle x = pm_lifecycle m \<and> \<not> px_multiple x)
                    in if current then take_peer_delay cfg d rate delay m msg received_us else Some d))"

section \<open>The answer completes the exchange of the requester\<close>

lemma version_nibble: "and (or (push_bit 4 v) 2) 15 = (2 :: u8)"
proof -
  have "bit (2 :: u8) n \<longleftrightarrow> n = 1" "bit (15 :: u8) n \<longleftrightarrow> n < 4" if "n < 8" for n
    using that by (auto simp: less_Suc_eq numeral_eq_Suc bit_simps)
  then show ?thesis by (intro bit_word_eqI) (auto simp: bit_and_iff bit_or_iff bit_push_bit_iff)
qed

lemma header_wf_set_length [simp]: "header_wf (ptp_set_message_length h n) \<longleftrightarrow>
    header_wf (h\<lparr>hd_messagelength := octets 2 (int n)\<rparr>)"
  by (simp add: ptp_set_message_length_def)

lemma delay_resp_header_gptp:
  fixes cfg :: ptp_config and d :: ptp_daemon and req :: ptp_header and conv :: u32 and u :: bool
  assumes "dm_gptp d" "header_wf (an_header (st_own_identity (dm_state d)))" "header_wf req"
  defines "h \<equiv> delay_resp_header cfg d req conv u"
  shows "header_wf h" "hd_messagetype h = 0x13" "hd_sequenceid h = hd_sequenceid req"
    "hd_sourceidentity h = hd_sourceidentity (an_header (st_own_identity (dm_state d)))"
    "hd_sourceportindex h = hd_sourceportindex (an_header (st_own_identity (dm_state d)))"
    "hd_messagelength h = octets 2 (if ptp_sends_endpoint_decl cfg d then 66 else 54)" "length (hd_flags h) = 2"
  using assms by (simp_all add: h_def delay_resp_header_def Let_def ptp_set_message_length_def header_wf_def
      PTP_MSGTYPE_PDELAY_RESP_def PTP_MSGTYPE_SDOID_GPTP_def)

text \<open>A Pdelay message as it leaves: header, time stamp, requester, TLV; all of it but the
  normalised header octets is as marshalled.\<close>

lemma pdelay_payload:
  fixes h :: ptp_header and stamp ident port tlv :: bytes and v :: u8
  assumes "header_wf h" "hd_messagetype h \<in> {0x13, 0x1a}" "length stamp = 10" "length ident = 8" "length port = 2"
    and "hd_messagelength h = octets 2 (int (54 + length tlv))" "length tlv < 100"
  defines "w \<equiv> header_bytes h @ stamp @ ident @ port @ tlv"
  defines "p \<equiv> ptp_gptp_wire_normalize w (length w) True v"
  shows "slice 34 10 p = stamp" "slice 44 8 p = ident" "slice 52 2 p = port" "length p = 54 + length tlv"
    "header_of p = h\<lparr>hd_version := or (push_bit 4 v) 2, hd_reserved1 := 0, hd_reserved2 := replicate 4 0,
       hd_controlfield := 0\<rparr>"
    "ptp_message_bounded_length (Some p) (length p) = length p"
proof -
  have l: "length w = 54 + length tlv" using assms(1,3,4,5) by (simp add: w_def)
  have ho: "header_of w = h" using assms(1) by (simp add: w_def header_of_bytes)
  then have "w ! 0 = hd_messagetype h" by (simp add: header_of_def flip: ho)
  then have t: "and (w ! 0) 15 \<notin> {0, 2, 11, 12}" using assms(2) by auto
  have p: "p = normalize_header w v" using normalize_plain [OF _ t] l by (simp add: p_def)
  have lp: "length p = 54 + length tlv" using l by (simp add: p)
  show "slice 34 10 p = stamp" "slice 44 8 p = ident" "slice 52 2 p = port"
    using l assms(1,3,4,5) by (simp_all add: p normalize_header_slice) (simp_all add: w_def slice_past slice_first)
  show "length p = 54 + length tlv" by (fact lp)
  show hp: "header_of p = h\<lparr>hd_version := or (push_bit 4 v) 2, hd_reserved1 := 0, hd_reserved2 := replicate 4 0,
       hd_controlfield := 0\<rparr>"
    using l by (simp add: p header_of_normalize ho)
  have m: "p ! 0 = hd_messagetype h" "p ! 1 = or (push_bit 4 v) 2" "slice 2 2 p = hd_messagelength h"
    using arg_cong [OF hp, of hd_messagetype] arg_cong [OF hp, of hd_version] arg_cong [OF hp, of hd_messagelength]
    by (simp_all add: header_of_def)
  have "[p ! 2, p ! 3] = octets 2 (int (54 + length tlv))"
    using slice_pair [of 2 p] lp unfolding m(3) assms(6) by simp
  then have "p ! 2 = word_of_nat ((54 + length tlv) div 256)" "p ! 3 = word_of_nat (54 + length tlv)"
    unfolding octets2_nat by blast+
  then have "be16 (p ! 2) (p ! 3) = 54 + length tlv"
    using assms(7) by (simp only: be16_of_nat)
  then show "ptp_message_bounded_length (Some p) (length p) = length p"
    using m assms(2) lp by (auto simp: ptp_message_bounded_length_def version_nibble message_minimum_def Let_def)
qed

text \<open>The two messages a gPTP responder sends, as payloads.\<close>

definition answer_tlv :: "ptp_config \<Rightarrow> ptp_daemon \<Rightarrow> bytes" where
  "answer_tlv cfg d = (if ptp_sends_endpoint_decl cfg d then endpoint_decl_tlv else [])"

lemma length_answer_tlv: "length (answer_tlv cfg d) = (if ptp_sends_endpoint_decl cfg d then 12 else 0)"
  by (simp add: answer_tlv_def)

lemma send_gptp:
  assumes "dm_gptp d" "length (lk_intf_hw_addr (po_link (port_at d 0))) = 6"
  shows "\<exists>t. ptp_net_send cfg d m True env = (te_write_ret env, if te_write_ret env > 0 then te_stamp env else None, Some t) \<and>
      drop 14 (tx_frame t) = ptp_gptp_wire_normalize m (length m) True (ptp_tx_minor_version (port_at d 0))"
    "\<exists>t r. ptp_net_send cfg d m False env = (r, None, Some t) \<and>
      drop 14 (tx_frame t) = ptp_gptp_wire_normalize m (length m) True (ptp_tx_minor_version (port_at d 0))"
  using assms
  by (simp_all add: ptp_net_send_def ptp_net_send_to_def ptp_tags_frame_def Let_def ptp_create_eth_frame_to_def
      eth_type_ptp_def profile_multicast_def LLDP_MULTICAST_ADDR_def)

lemma delay_req_answers:
  fixes cfg :: ptp_config and d :: ptp_daemon and req :: ptp_header and conv :: u32
  assumes "dm_gptp d" "length (lk_intf_hw_addr (po_link (port_at d 0))) = 6"
    and "te_write_ret env > 0" "te_stamp env = Some ts"
    and "ptp_process_delay_req cfg d req env env' conv unset mono_ts = (ret, d', sent)" "0 < num_ports d"
  defines "v \<equiv> ptp_tx_minor_version (port_at d 0)"
    and "m1 \<equiv> delay_resp_message cfg d req conv False"
    and "m2 \<equiv> delay_resp_follow_up_message cfg d req conv ts"
  shows "map (\<lambda>t. drop 14 (tx_frame t)) sent =
    [ptp_gptp_wire_normalize m1 (length m1) True v, ptp_gptp_wire_normalize m2 (length m2) True v]"
proof -
  define e where "e = map_port 0 (\<lambda>p. p\<lparr>po_sent := (po_sent p)\<lparr>pt_last_transmitted_delayresp := mono_ts\<rparr>\<rparr>) d"
  have e: "dm_gptp e" "length (lk_intf_hw_addr (po_link (port_at e 0))) = 6" "ptp_tx_minor_version (port_at e 0) = v"
    "delay_resp_follow_up_message cfg e req conv ts = m2"
    using assms(1,2,6) by (simp_all add: e_def v_def ptp_tx_minor_version_def m2_def delay_resp_follow_up_message_def
        delay_resp_header_def delay_resp_interval_def ptp_sends_endpoint_decl_def Let_def)
  obtain t1 where t1: "ptp_net_send cfg d m1 True env = (te_write_ret env, te_stamp env, Some t1)"
    "drop 14 (tx_frame t1) = ptp_gptp_wire_normalize m1 (length m1) True v"
    using send_gptp(1) [OF assms(1,2), of cfg m1 env] assms(3) unfolding v_def by auto
  obtain t2 r where t2: "ptp_net_send cfg e m2 False env' = (r, None, Some t2)"
    "drop 14 (tx_frame t2) = ptp_gptp_wire_normalize m2 (length m2) True v"
    using send_gptp(2) [OF e(1,2), of cfg m2 env'] unfolding e(3) by blast
  have "sent = [t1, t2]"
    using assms(1,3,4,5) t1(1) t2(1) e(1,4)
    by (simp add: ptp_process_delay_req_def Let_def m1_def e_def [symmetric] split_beta)
  with t1(2) t2(2) show ?thesis by simp
qed

lemma stamp_octets_valid:
  "stamp_ok t \<Longrightarrow> ptp_peer_timestamp_valid (timespec_to_ptp_format b t)"
  by (simp add: ptp_peer_timestamp_valid_def timespec_to_ptp_format_def slice_past slice_all be_int_octets stamp_ok_def
      mod_pos_pos_trivial)

text \<open>A Pdelay exchange between two daemons completes.  When a gPTP responder answers a
  request, the response and the follow-up it sends are well-formed messages for the receiver;
  the requester whose exchange is open for that request accepts the response, and the follow-up
  delivers the one measurement, whose four time stamps are the requester's send and receive
  times and the responder's receive and send times.\<close>

lemma answer_completes_exchange:
  fixes x :: ptp_peer_exchange and req :: ptp_header and d :: ptp_daemon
  defines "own \<equiv> an_header (st_own_identity (dm_state d))" and "arrival \<equiv> rx_rxtime (po_rx (port_at d 0))"
  assumes "dm_gptp d" "0 < num_ports d" "header_wf own" "header_wf req" "hd_sourceidentity own \<noteq> hd_sourceidentity req"
    and "length (lk_intf_hw_addr (po_link (port_at d 0))) = 6" "te_write_ret env > 0" "te_stamp env = Some ts"
    and "stamp_ok arrival" "0 \<le> tv_sec arrival" "tv_sec arrival < 2 ^ 32"
    and "stamp_ok ts" "0 \<le> tv_sec ts" "tv_sec ts < 2 ^ 32"
    and "ptp_process_delay_req cfg d req env env' conv unset mono_ts = (ret, d', sent)"
    and "px_published x" "px_sequence x = ptp_get_sequence req" "px_requester x = port_identity_of req"
    and "\<not> px_multiple x" "\<not> px_response_seen x" "\<not> px_consumed x" "\<not> px_follow_up_pending x"
    and "now1 < px_deadline_us x" "now2 < px_deadline_us x" "stamp_ok receive"
  shows "\<exists>p1 p2 x1 x2. map (\<lambda>t. drop 14 (tx_frame t)) sent = [p1, p2] \<and>
    ptp_message_bounded_length (Some p1) (length p1) = length p1 \<and>
    ptp_message_bounded_length (Some p2) (length p2) = length p2 \<and>
    ptp_peer_response x (delay_resp_of p1) receive now1 = (PTP_PEER_ACCEPTED, x1) \<and>
    ptp_peer_finish x1 (delay_resp_follow_up_of p2) now2 =
      (Some \<lparr>pm_generation = px_generation x, pm_lifecycle = px_lifecycle x, pm_transmit = px_transmit x,
             pm_receive = receive, pm_response = delay_resp_of p1\<rparr>, x2) \<and>
    ptp_format_to_timespec (dr_receivetimestamp (delay_resp_of p1)) = arrival \<and>
    ptp_format_to_timespec (df_origintimestamp (delay_resp_follow_up_of p2)) = ts"
proof -
  define v where "v = ptp_tx_minor_version (port_at d 0)"
  define h where "h = delay_resp_header cfg d req conv False"
  define h2 where "h2 = h\<lparr>hd_messagetype := 0x1a, hd_flags := (hd_flags h)[0 := 0]\<rparr>"
  define m1 where "m1 = delay_resp_message cfg d req conv False"
  define m2 where "m2 = delay_resp_follow_up_message cfg d req conv ts"
  define p1 where "p1 = ptp_gptp_wire_normalize m1 (length m1) True v"
  define p2 where "p2 = ptp_gptp_wire_normalize m2 (length m2) True v"
  note hh = delay_resp_header_gptp [OF assms(3,5,6) [unfolded own_def], of cfg conv False, folded h_def own_def]
  have wf2: "header_wf h2" using hh(1,7) by (simp add: h2_def header_wf_def)
  have ident: "length (hd_sourceidentity req) = 8" "length (hd_sourceportindex req) = 2" "length (hd_sequenceid req) = 2"
    using assms(6) by (simp_all add: header_wf_def)
  have len: "hd_messagelength h = octets 2 (int (54 + length (answer_tlv cfg d)))"
    "hd_messagelength h2 = octets 2 (int (54 + length (answer_tlv cfg d)))" "length (answer_tlv cfg d) < 100"
    using hh(6) by (simp_all add: h2_def length_answer_tlv)
  have e1: "m1 = header_bytes h @ timespec_to_ptp_format (cf_time64 cfg) arrival @ hd_sourceidentity req @
      hd_sourceportindex req @ answer_tlv cfg d"
    using assms(3) by (simp add: m1_def delay_resp_message_def delay_resp_bytes_def h_def arrival_def answer_tlv_def)
  have e2: "m2 = header_bytes h2 @ timespec_to_ptp_format (cf_time64 cfg) ts @ hd_sourceidentity req @
      hd_sourceportindex req @ answer_tlv cfg d"
    by (simp add: m2_def delay_resp_follow_up_message_def delay_resp_follow_up_bytes_def h_def [symmetric] h2_def
        answer_tlv_def Let_def PTP_MSGTYPE_PDELAY_RESP_FOLLOW_UP_def PTP_MSGTYPE_SDOID_GPTP_def)
  note v1 = pdelay_payload [where v = v, OF hh(1) _ length_ptp_format [of "cf_time64 cfg" arrival] ident(1,2) len(1,3), folded e1, folded p1_def]
  note v2 = pdelay_payload [where v = v, OF wf2 _ length_ptp_format [of "cf_time64 cfg" ts] ident(1,2) len(2,3), folded e2, folded p2_def]
  have t: "hd_messagetype h \<in> {0x13, 0x1a}" "hd_messagetype h2 \<in> {0x13, 0x1a}" using hh(2) by (simp_all add: h2_def)
  note v1 = v1 [OF t(1)] and v2 = v2 [OF t(2)]
  have sent: "map (\<lambda>t. drop 14 (tx_frame t)) sent = [p1, p2]"
    using delay_req_answers [OF assms(3,8,9,10,17,4)] by (simp add: v_def m1_def m2_def p1_def p2_def)
  have f1: "dr_reqidentity (delay_resp_of p1) = hd_sourceidentity req" "dr_reqportindex (delay_resp_of p1) = hd_sourceportindex req"
    "dr_receivetimestamp (delay_resp_of p1) = timespec_to_ptp_format (cf_time64 cfg) arrival"
    "ptp_get_sequence (dr_header (delay_resp_of p1)) = ptp_get_sequence req"
    "hd_sourceidentity (dr_header (delay_resp_of p1)) = hd_sourceidentity own"
    "hd_sourceportindex (dr_header (delay_resp_of p1)) = hd_sourceportindex own"
    using v1 hh(3,4,5) by (simp_all add: delay_resp_of_def ptp_get_sequence_def)
  have f2: "df_reqidentity (delay_resp_follow_up_of p2) = hd_sourceidentity req"
    "df_reqportindex (delay_resp_follow_up_of p2) = hd_sourceportindex req"
    "df_origintimestamp (delay_resp_follow_up_of p2) = timespec_to_ptp_format (cf_time64 cfg) ts"
    "ptp_get_sequence (df_header (delay_resp_follow_up_of p2)) = ptp_get_sequence req"
    "hd_sourceidentity (df_header (delay_resp_follow_up_of p2)) = hd_sourceidentity own"
    "hd_sourceportindex (df_header (delay_resp_follow_up_of p2)) = hd_sourceportindex own"
    using v2 hh(3,4,5) by (simp_all add: delay_resp_follow_up_of_def ptp_get_sequence_def h2_def)
  have rq: "take 8 (px_requester x) = hd_sourceidentity req" "drop 8 (px_requester x) = hd_sourceportindex req"
    using ident assms(20) by (simp_all add: port_identity_of_def)
  have fmt: "ptp_format_to_timespec (timespec_to_ptp_format (cf_time64 cfg) arrival) = arrival"
    "ptp_format_to_timespec (timespec_to_ptp_format (cf_time64 cfg) ts) = ts"
    using assms(11-16) by (auto simp: stamp_ok_def intro!: ptp_format_back)
  define x1 where "x1 = snd (ptp_peer_response x (delay_resp_of p1) receive now1)"
  have r: "response_rejection x (delay_resp_of p1) receive now1 = 0"
    using assms(11,18,21,25,27) by (simp add: response_rejection_0 f1 rq stamp_octets_valid)
  have a: "ptp_peer_response x (delay_resp_of p1) receive now1 = (PTP_PEER_ACCEPTED, x1)"
    using assms(7,19,22) r by (simp add: x1_def ptp_peer_response_def Let_def f1 rq)
  note c = response_cases [OF a]
  have k: "px_multiple x1 = px_multiple x" "px_generation x1 = px_generation x" "px_lifecycle x1 = px_lifecycle x"
    "px_follow_up_pending x1 = px_follow_up_pending x"
    using assms(7,19,22) r by (simp_all add: x1_def ptp_peer_response_def Let_def f1 rq)
  have "\<exists>x2. ptp_peer_finish x1 (delay_resp_follow_up_of p2) now2 =
      (Some \<lparr>pm_generation = px_generation x, pm_lifecycle = px_lifecycle x, pm_transmit = px_transmit x,
             pm_receive = receive, pm_response = delay_resp_of p1\<rparr>, x2)"
    using c k assms(14,18,19,21,23,24,26)
    by (simp add: ptp_peer_finish_def note_follow_up_def ptp_peer_matches_def Let_def f1 f2 rq same_source_def stamp_octets_valid)
  then show ?thesis using sent v1(6) v2(6) a f1(3) f2(3) fmt by metis
qed

definition responder_example :: ptp_daemon where
  "responder_example = map_port 0 (\<lambda>p. p\<lparr>po_rx := (po_rx p)\<lparr>rx_rxtime := \<lparr>tv_sec = 70, tv_nsec = 500\<rparr>\<rparr>\<rparr>) clock_example"

definition request_example :: ptp_header where
  "request_example = header_zero\<lparr>hd_sourceidentity := replicate 8 2, hd_sequenceid := [0, 9]\<rparr>"

definition requester_example :: ptp_peer_exchange where
  "requester_example = exchange_zero\<lparr>px_published := True, px_sequence := 9, px_requester := replicate 8 2 @ [0, 0],
     px_deadline_us := 1000, px_transmit := \<lparr>tv_sec = 3, tv_nsec = 1\<rparr>\<rparr>"

definition tx_env_example :: tx_env where
  "tx_env_example = \<lparr>te_handle_ok = True, te_err = ESP_OK, te_mac_time = timespec_zero, te_write_ret = 80,
     te_stamp = Some \<lparr>tv_sec = 70, tv_nsec = 900\<rparr>\<rparr>"

section \<open>The link qualifies through a measurement only\<close>

lemma peer_finish_keeps:
  assumes "ptp_peer_finish x f now = (Some m, x')"
  shows "px_generation x' = pm_generation m" "px_lifecycle x' = pm_lifecycle m" "px_lifecycle x' = px_lifecycle x"
    "\<not> px_multiple x'"
  using assms by (auto simp: ptp_peer_finish_def ptp_peer_matches_def note_follow_up_def Let_def split: if_splits)

lemma peer_finish_lifecycle: "px_lifecycle (snd (ptp_peer_finish x f now)) = px_lifecycle x"
  by (simp add: ptp_peer_finish_def note_follow_up_def Let_def)

lemma measured_delay_bounds:
  "measured_delay cfg r m msg i = Some q \<Longrightarrow> 0 \<le> q \<and> q < of_int (cf_max_peer_delay_ns cfg)"
  by (auto simp: measured_delay_def ptp_peer_delay_local_def Let_def split: option.splits if_splits)

text \<open>The state after the exchange has taken the message, and what the handler does then.\<close>

definition after_finish :: "ptp_daemon \<Rightarrow> ptp_peer_exchange \<Rightarrow> ptp_daemon" where
  "after_finish d x = map_port 0 (\<lambda>p. p\<lparr>po_peer_exchange := x,
     po_capable := (if px_multiple x
       then (po_capable p)\<lparr>pk_peer_capability := (pk_peer_capability (po_capable p))\<lparr>pc_qualified := False\<rparr>\<rparr>
       else po_capable p)\<rparr>) d"

lemma after_finish_simps:
  assumes "0 < num_ports d"
  shows "po_peer_exchange (port_at (after_finish d x) 0) = x" "po_delay (port_at (after_finish d x) 0) = po_delay (port_at d 0)"
    "po_peer_rate (port_at (after_finish d x) 0) = po_peer_rate (port_at d 0)" "num_ports (after_finish d x) = num_ports d"
    "pk_peer_capability (po_capable (port_at (after_finish d x) 0)) = pk_peer_capability (po_capable (port_at d 0)) \<or>
     \<not> pc_qualified (pk_peer_capability (po_capable (port_at (after_finish d x) 0)))"
    "st_own_identity (dm_state (after_finish d x)) = st_own_identity (dm_state d)"
  using assms by (simp_all add: after_finish_def)

lemma follow_up_cases:
  assumes "0 < num_ports d" "ptp_process_delay_resp_follow_up cfg d msg gen now_us received_us = r"
  obtains (ignored) "r = Some d"
    | (no_measurement) x' where "ptp_peer_finish (po_peer_exchange (port_at d 0)) msg now_us = (None, x')" "r = Some (after_finish d x')"
    | (implausible) m x' where "ptp_peer_finish (po_peer_exchange (port_at d 0)) msg now_us = (Some m, x')"
        "measured_intervals cfg m msg = None" "r = Some (after_finish d x')"
    | (measured) m x' i v rate where "dm_gptp d" "ptp_peer_finish (po_peer_exchange (port_at d 0)) msg now_us = (Some m, x')"
        "measured_intervals cfg m msg = Some i"
        "ptp_peer_rate_update (po_peer_rate (port_at d 0)) (pm_lifecycle m) (port_identity_of (df_header msg))
           (ptp_format_to_timespec (df_origintimestamp msg)) (ptp_peer_correction (hd_correction (df_header msg))) (pm_receive m)
           = (v, rate)"
        "r = take_peer_delay cfg (after_finish d x') rate (if v then measured_delay cfg (pr_ratio rate) m msg i else None) m msg received_us"
proof (cases "\<not> dm_gptp d \<or> gen \<noteq> 0 \<and> px_generation (po_peer_exchange (port_at d 0)) \<noteq> gen")
  case True
  then have "r = Some d" using assms(2) by (auto simp: ptp_process_delay_resp_follow_up_def)
  then show ?thesis by (rule ignored)
next
  case False
  then have g: "dm_gptp d" "(gen \<noteq> 0 \<and> px_generation (po_peer_exchange (port_at d 0)) \<noteq> gen) = False" by auto
  obtain meas x' where f: "ptp_peer_finish (po_peer_exchange (port_at d 0)) msg now_us = (meas, x')" by force
  note r = assms(2) [unfolded ptp_process_delay_resp_follow_up_def Let_def f prod.case g(2) if_False, folded after_finish_def, symmetric]
  show ?thesis
  proof (cases meas)
    case None
    with g r f show ?thesis by (intro no_measurement) simp_all
  next
    case (Some m)
    show ?thesis
    proof (cases "measured_intervals cfg m msg")
      case None
      with g r f Some show ?thesis by (intro implausible) simp_all
    next
      case i: (Some i)
      obtain v rate where u: "ptp_peer_rate_update (po_peer_rate (port_at d 0)) (pm_lifecycle m) (port_identity_of (df_header msg))
           (ptp_format_to_timespec (df_origintimestamp msg)) (ptp_peer_correction (hd_correction (df_header msg))) (pm_receive m)
           = (v, rate)" by force
      show ?thesis
        using g r f Some i u peer_finish_keeps [OF f [unfolded Some]] after_finish_simps(1) [OF assms(1), of x']
        by (intro measured) (auto simp: after_finish_simps [OF assms(1)])
    qed
  qed
qed

lemma take_peer_delay_Some:
  assumes "0 < num_ports d" "take_peer_delay cfg d rate q m msg received_us = Some d'"
  shows "pk_peer_capability (po_capable (port_at d' 0)) = \<lparr>pc_lifecycle = pm_lifecycle m, pc_received_us = received_us,
      pc_qualified = (q \<noteq> None \<and> peer_qualified d m msg (pd_peer_delay_ns (po_delay (port_at d' 0))))\<rparr>"
    "po_peer_rate (port_at d' 0) = rate" "po_peer_exchange (port_at d' 0) = po_peer_exchange (port_at d 0)"
  using assms by (auto simp: take_peer_delay_def Let_def split: option.splits)

text \<open>C21. A wired port becomes capable only through a measurement.  Where the handler leaves the
  link qualified with a new record, the message completed the outstanding exchange, the rate is
  usable and the delay was computed and is below its limit, the averaged delay is at most
  800 ns, both messages are gPTP messages of another clock, and the record belongs to the
  present lifetime of the link.\<close>

theorem capability_from_measurement:
  assumes "0 < num_ports d" "ptp_process_delay_resp_follow_up cfg d msg gen now_us received_us = Some d'"
  defines "cap \<equiv> pk_peer_capability (po_capable (port_at d 0))"
    and "cap' \<equiv> pk_peer_capability (po_capable (port_at d' 0))"
    and "x \<equiv> po_peer_exchange (port_at d 0)"
  assumes "pc_qualified cap'" "cap' \<noteq> cap"
  shows "\<exists>m x' rate q. dm_gptp d \<and> ptp_peer_finish x msg now_us = (Some m, x') \<and>
    ptp_peer_rate_update (po_peer_rate (port_at d 0)) (pm_lifecycle m) (port_identity_of (df_header msg))
      (ptp_format_to_timespec (df_origintimestamp msg)) (ptp_peer_correction (hd_correction (df_header msg))) (pm_receive m)
      = (True, rate) \<and>
    0 \<le> q \<and> q < of_int (cf_max_peer_delay_ns cfg) \<and>
    (\<exists>i. measured_intervals cfg m msg = Some i \<and> measured_delay cfg (pr_ratio rate) m msg i = Some q) \<and>
    pd_peer_delay_ns (po_delay (port_at d' 0)) \<le> 800 \<and> po_peer_rate (port_at d' 0) = rate \<and>
    hd_messagetype (dr_header (pm_response m)) = 0x13 \<and> hd_messagetype (df_header msg) = 0x1a \<and>
    hd_sourceidentity (df_header msg) \<noteq> hd_sourceidentity (an_header (st_own_identity (dm_state d))) \<and>
    pc_lifecycle cap' = px_lifecycle (po_peer_exchange (port_at d' 0)) \<and> pc_received_us cap' = received_us"
proof -
  from assms(1,2) show ?thesis
  proof (cases rule: follow_up_cases)
    case ignored
    then show ?thesis using assms(6,7) by (simp add: cap_def cap'_def)
  next
    case (no_measurement x')
    then show ?thesis using assms(6,7) after_finish_simps(5) [OF assms(1), of x'] unfolding cap_def cap'_def by simp
  next
    case (implausible m x')
    then show ?thesis using assms(6,7) after_finish_simps(5) [OF assms(1), of x'] unfolding cap_def cap'_def by simp
  next
    case (measured m x' i v rate)
    define q where "q = (if v then measured_delay cfg (pr_ratio rate) m msg i else None)"
    have n: "0 < num_ports (after_finish d x')" using assms(1) by (simp only: after_finish_simps [OF assms(1)])
    note t = take_peer_delay_Some [OF n measured(5) [symmetric], folded q_def cap'_def]
    have "q \<noteq> None" "peer_qualified (after_finish d x') m msg (pd_peer_delay_ns (po_delay (port_at d' 0)))"
      using t(1) assms(6) by simp_all
    then obtain q0 where q0: "v" "measured_delay cfg (pr_ratio rate) m msg i = Some q0"
      by (auto simp: q_def split: if_splits)
    have k: "px_lifecycle (po_peer_exchange (port_at d' 0)) = pm_lifecycle m"
      using peer_finish_keeps(2) [OF measured(2)] t(3) by (simp add: after_finish_simps [OF assms(1)])
    have p: "pd_peer_delay_ns (po_delay (port_at d' 0)) \<le> 800" "hd_messagetype (dr_header (pm_response m)) = 0x13"
      "hd_messagetype (df_header msg) = 0x1a"
      "hd_sourceidentity (df_header msg) \<noteq> hd_sourceidentity (an_header (st_own_identity (dm_state d)))"
      using \<open>peer_qualified (after_finish d x') m msg _\<close> after_finish_simps(6) [OF assms(1)]
      by (simp_all add: peer_qualified_def)
    have c: "pc_lifecycle cap' = px_lifecycle (po_peer_exchange (port_at d' 0))" "pc_received_us cap' = received_us"
      using t(1) k by simp_all
    have u: "v = True" using q0(1) by simp
    show ?thesis
      by (intro exI [of _ m] exI [of _ x'] exI [of _ rate] exI [of _ q0] conjI exI [of _ i])
         (use measured(1-4) [unfolded u] q0(2) measured_delay_bounds [OF q0(2)] t(2) c p in \<open>simp_all add: x_def\<close>)
  qed
qed

text \<open>The exchange of two gPTP clocks 400 ns apart on a link whose rate was already measured.\<close>

definition measuring_example :: ptp_daemon where
  "measuring_example = map_port 0 (\<lambda>p. p\<lparr>
      po_peer_exchange := requester_example\<lparr>px_response_seen := True, px_receive := \<lparr>tv_sec = 3, tv_nsec = 2001\<rparr>,
        px_response := (delay_resp_of (replicate 54 0))\<lparr>dr_header := header_zero\<lparr>hd_messagetype := 0x13,
            hd_sourceidentity := replicate 8 7, hd_sequenceid := [0, 9]\<rparr>,
          dr_receivetimestamp := timespec_to_ptp_format True \<lparr>tv_sec = 70, tv_nsec = 500\<rparr>\<rparr>\<rparr>,
      po_peer_rate := peer_rate_zero\<lparr>pr_responder := replicate 8 7 @ [0, 0], pr_anchored := True, pr_valid := True, pr_ratio := 1,
        pr_remote_previous := \<lparr>tv_sec = 69, tv_nsec = 1700\<rparr>, pr_local_previous := \<lparr>tv_sec = 2, tv_nsec = 2001\<rparr>\<rparr>\<rparr>) clock_example"

definition completing_example :: ptp_delay_resp_follow_up where
  "completing_example = (delay_resp_follow_up_of (replicate 54 0))\<lparr>
     df_header := header_zero\<lparr>hd_messagetype := 0x1a, hd_sourceidentity := replicate 8 7, hd_sequenceid := [0, 9]\<rparr>,
     df_origintimestamp := timespec_to_ptp_format True \<lparr>tv_sec = 70, tv_nsec = 1700\<rparr>, df_reqidentity := replicate 8 2\<rparr>"

theorem capability_from_measurement_witness:
  "\<exists>d' m x' q. ptp_process_delay_resp_follow_up config_default measuring_example completing_example 0 20 30 = Some d' \<and>
     pc_qualified (pk_peer_capability (po_capable (port_at d' 0))) \<and>
     ptp_peer_finish (po_peer_exchange (port_at measuring_example 0)) completing_example 20 = (Some m, x') \<and>
     0 \<le> (q :: rat) \<and> q < of_int (cf_max_peer_delay_ns config_default) \<and> pd_peer_delay_ns (po_delay (port_at d' 0)) \<le> 800"
proof -
  define r where "r = ptp_process_delay_resp_follow_up config_default measuring_example completing_example 0 20 30"
  define d' where "d' = the r"
  have c: "0 < num_ports measuring_example" "r \<noteq> None" "pc_qualified (pk_peer_capability (po_capable (port_at d' 0)))"
    "\<not> pc_qualified (pk_peer_capability (po_capable (port_at measuring_example 0)))"
    unfolding d'_def r_def by code_simp+
  then have r: "ptp_process_delay_resp_follow_up config_default measuring_example completing_example 0 20 30 = Some d'"
    by (auto simp: d'_def r_def)
  from c(3,4) have "pk_peer_capability (po_capable (port_at d' 0)) \<noteq> pk_peer_capability (po_capable (port_at measuring_example 0))"
    by auto
  from capability_from_measurement [OF c(1) r c(3) this] r c(3) show ?thesis by blast
qed

section \<open>The delays stay within their limits\<close>

definition delay_inv :: "ptp_config \<Rightarrow> ptp_port_delay \<Rightarrow> bool" where
  "delay_inv cfg y \<longleftrightarrow>
     0 \<le> pd_path_delay_ns y \<and> pd_path_delay_ns y \<le> cf_max_path_delay_ns cfg \<and>
     0 \<le> pd_peer_delay_ns y \<and> pd_peer_delay_ns y \<le> cf_max_peer_delay_ns cfg \<and>
     0 \<le> pd_path_delay_avgcount y \<and> pd_path_delay_avgcount y \<le> cf_delayreq_avgcount cfg \<and>
     0 \<le> pd_peer_delay_avgcount y \<and> pd_peer_delay_avgcount y \<le> cf_delayreq_avgcount cfg"

definition delay_config :: "ptp_config \<Rightarrow> bool" where
  "delay_config cfg \<longleftrightarrow> 0 < cf_delayreq_avgcount cfg \<and> 0 \<le> cf_max_path_delay_ns cfg \<and> 0 \<le> cf_max_peer_delay_ns cfg"

lemma llround_bounds:
  fixes x :: rat
  assumes "0 \<le> x" "x < of_int n"
  shows "0 \<le> llround x \<and> llround x \<le> n"
proof -
  have "x + 1 / 2 < of_int (n + 1)" using assms(2) by simp
  then have "\<lfloor>x + 1 / 2\<rfloor> < n + 1" by (simp only: floor_less_iff)
  with assms(1) show ?thesis by (simp add: llround_def zero_le_floor)
qed

lemma average_in_range:
  assumes "delay_config cfg" "0 \<le> count" "count \<le> cf_delayreq_avgcount cfg" "0 \<le> ns" "ns \<le> hi" "0 \<le> sample" "sample \<le> hi"
  shows "\<exists>c a. average_delay cfg count ns sample = Some (c, a) \<and> 0 \<le> c \<and> c \<le> cf_delayreq_avgcount cfg \<and> 0 \<le> a \<and> a \<le> hi"
  using delay_average_bounded [of cfg count 0 ns hi sample] assms unfolding delay_config_def by force

lemma delay_invD:
  assumes "delay_inv cfg y"
  shows "0 \<le> pd_path_delay_avgcount y" "pd_path_delay_avgcount y \<le> cf_delayreq_avgcount cfg"
    "0 \<le> pd_path_delay_ns y" "pd_path_delay_ns y \<le> cf_max_path_delay_ns cfg"
    "0 \<le> pd_peer_delay_avgcount y" "pd_peer_delay_avgcount y \<le> cf_delayreq_avgcount cfg"
    "0 \<le> pd_peer_delay_ns y" "pd_peer_delay_ns y \<le> cf_max_peer_delay_ns cfg"
  using assms by (simp_all add: delay_inv_def)

definition delays_ok :: "ptp_config \<Rightarrow> ptp_daemon \<Rightarrow> bool" where
  "delays_ok cfg d \<longleftrightarrow> (\<forall>p \<in> set (st_port (dm_state d)). delay_inv cfg (po_delay p))"

lemma delays_okD: "delays_ok cfg d \<Longrightarrow> i < num_ports d \<Longrightarrow> delay_inv cfg (po_delay (port_at d i))"
  by (simp add: delays_ok_def port_at_def)

lemma delays_ok_map_port:
  assumes "delays_ok cfg d" "i < num_ports d \<Longrightarrow> delay_inv cfg (po_delay (f (port_at d i)))"
  shows "delays_ok cfg (map_port i f d)"
proof (cases "i < num_ports d")
  case True
  have "set ((st_port (dm_state d))[i := f (port_at d i)]) \<subseteq> insert (f (port_at d i)) (set (st_port (dm_state d)))"
    by (rule set_update_subset_insert)
  with assms True show ?thesis by (auto simp: delays_ok_def map_port_def port_at_def)
qed (use assms(1) in \<open>simp add: delays_ok_def map_port_def list_update_beyond\<close>)

lemma delays_ok_keep:
  "delays_ok cfg d \<Longrightarrow> (\<And>p. po_delay (f p) = po_delay p) \<Longrightarrow> delays_ok cfg (map_port i f d)"
  by (rule delays_ok_map_port) (simp_all only: delays_okD)

lemma delays_ok_groups [simp]:
  "delays_ok cfg (map_source f d) = delays_ok cfg d" "delays_ok cfg (map_servo g d) = delays_ok cfg d"
  by (simp_all add: delays_ok_def)

lemma take_path_delay_ok:
  assumes "delay_config cfg" "0 < num_ports d" "delays_ok cfg d"
  shows "\<exists>d'. take_path_delay cfg d s = Some d' \<and> delays_ok cfg d' \<and> num_ports d' = num_ports d"
proof (cases "0 \<le> s \<and> s < cf_max_path_delay_ns cfg")
  case True
  let ?y = "po_delay (port_at d 0)"
  have y: "delay_inv cfg ?y" using assms by (intro delays_okD)
  have "s \<le> cf_max_path_delay_ns cfg" "0 \<le> s" using True by simp_all
  then obtain c a where a: "average_delay cfg (pd_path_delay_avgcount ?y) (pd_path_delay_ns ?y) s = Some (c, a)"
    "0 \<le> c" "c \<le> cf_delayreq_avgcount cfg" "0 \<le> a" "a \<le> cf_max_path_delay_ns cfg"
    using average_in_range [OF assms(1) delay_invD(1-4) [OF y]] by blast
  then have "take_path_delay cfg d s = Some (map_port 0 (\<lambda>p. p\<lparr>po_delay := (po_delay p)\<lparr>pd_path_delay_avgcount := c, pd_path_delay_ns := a\<rparr>\<rparr>) d)"
    using True by (simp add: take_path_delay_def)
  moreover have "delay_inv cfg (?y\<lparr>pd_path_delay_avgcount := c, pd_path_delay_ns := a\<rparr>)"
    using a delay_invD [OF y] by (simp add: delay_inv_def)
  ultimately show ?thesis using assms(3) by (simp add: delays_ok_map_port)
qed (use assms in \<open>auto simp: take_path_delay_def\<close>)

lemma take_peer_delay_ok:
  assumes "delay_config cfg" "0 < num_ports d" "delays_ok cfg d"
    and "\<And>x. q = Some x \<Longrightarrow> 0 \<le> x \<and> x < of_int (cf_max_peer_delay_ns cfg)"
  shows "\<exists>d'. take_peer_delay cfg d rate q m msg t = Some d' \<and> delays_ok cfg d'"
proof -
  define y where "y = restart_average rate (port_at d 0)"
  have p: "delay_inv cfg (po_delay (port_at d 0))" using assms(2,3) by (intro delays_okD)
  then have y: "delay_inv cfg y" using assms(1) by (auto simp: y_def restart_average_def delay_inv_def delay_config_def)
  have "\<exists>c a. (case q of None \<Rightarrow> Some (pd_peer_delay_avgcount y, pd_peer_delay_ns y)
      | Some x \<Rightarrow> average_delay cfg (pd_peer_delay_avgcount y) (pd_peer_delay_ns y) (llround x)) = Some (c, a) \<and>
    0 \<le> c \<and> c \<le> cf_delayreq_avgcount cfg \<and> 0 \<le> a \<and> a \<le> cf_max_peer_delay_ns cfg"
  proof (cases q)
    case None
    then show ?thesis using delay_invD(5-8) [OF y] by simp
  next
    case (Some x)
    have "0 \<le> llround x" "llround x \<le> cf_max_peer_delay_ns cfg" using llround_bounds assms(4) [OF Some] by blast+
    then show ?thesis using average_in_range [OF assms(1) delay_invD(5-8) [OF y]] Some by simp
  qed
  then obtain c a where a: "(case q of None \<Rightarrow> Some (pd_peer_delay_avgcount y, pd_peer_delay_ns y)
      | Some x \<Rightarrow> average_delay cfg (pd_peer_delay_avgcount y) (pd_peer_delay_ns y) (llround x)) = Some (c, a)"
    "0 \<le> c" "c \<le> cf_delayreq_avgcount cfg" "0 \<le> a" "a \<le> cf_max_peer_delay_ns cfg" by blast
  moreover have "delay_inv cfg ((po_delay (port_at d 0))\<lparr>pd_peer_delay_avgcount := c, pd_peer_delay_ns := a\<rparr>)"
    using a delay_invD [OF p] by (simp add: delay_inv_def)
  ultimately show ?thesis
    using assms(3) by (simp add: take_peer_delay_def y_def [symmetric] delays_ok_map_port)
qed

lemma admit_ok: "delays_ok cfg d \<Longrightarrow> delays_ok cfg (snd (admit_pdelay_resp d msg t))"
  by (simp add: admit_pdelay_resp_def Let_def split_beta) (rule delays_ok_keep, simp_all)

lemma interval_ok:
  assumes "delays_ok cfg d"
  shows "delays_ok cfg (map_port 0 (\<lambda>p. p\<lparr>po_delay := (po_delay p)\<lparr>pd_next_delayreq_interval_ms := f p\<rparr>\<rparr>) d)"
    "delays_ok cfg (map_port 0 (\<lambda>p. p\<lparr>po_delay := (po_delay p)\<lparr>pd_delayreq_interval_ms := f p\<rparr>\<rparr>) d)"
proof -
  have "delay_inv cfg (po_delay (port_at d 0)) \<Longrightarrow> delay_inv cfg ((po_delay (port_at d 0))\<lparr>pd_next_delayreq_interval_ms := v\<rparr>)"
    "delay_inv cfg (po_delay (port_at d 0)) \<Longrightarrow> delay_inv cfg ((po_delay (port_at d 0))\<lparr>pd_delayreq_interval_ms := v\<rparr>)" for v
    by (simp_all add: delay_inv_def)
  then show "delays_ok cfg (map_port 0 (\<lambda>p. p\<lparr>po_delay := (po_delay p)\<lparr>pd_next_delayreq_interval_ms := f p\<rparr>\<rparr>) d)"
    "delays_ok cfg (map_port 0 (\<lambda>p. p\<lparr>po_delay := (po_delay p)\<lparr>pd_delayreq_interval_ms := f p\<rparr>\<rparr>) d)"
    using assms by (auto intro!: delays_ok_map_port dest: delays_okD)
qed

lemma delay_resp_ok:
  assumes "delay_config cfg" "0 < num_ports d" "delays_ok cfg d"
  shows "\<exists>d'. ptp_process_delay_resp cfg d resp now_us raw = Some d' \<and> delays_ok cfg d'"
proof (cases "dm_gptp d")
  case True
  then show ?thesis
    using admit_ok [OF assms(3)] by (simp add: ptp_process_delay_resp_def Let_def split_beta interval_ok)
next
  case False
  define e where "e = map_source (\<lambda>s. s\<lparr>so_unicast_delay_req_outstanding := False, so_unicast_delay_req_misses := 0\<rparr>) d"
  have e: "delays_ok cfg e" "num_ports e = num_ports d" using assms(3) by (simp_all add: e_def)
  have "0 < num_ports e" using e(2) assms(2) by (simp only:)
  then obtain f where f: "take_path_delay cfg e (path_delay_sample cfg e resp) = Some f" "delays_ok cfg f"
    using take_path_delay_ok [OF assms(1) _ e(1)] by blast
  show ?thesis
    using False assms(3) f interval_ok
    by (simp add: ptp_process_delay_resp_def Let_def e_def [symmetric])
qed

lemma inject_delay_ok:
  assumes "delay_config cfg" "num_ports d = cf_num_ports cfg" "delays_ok cfg d"
  shows "\<exists>r d'. ptpd_inject_peer_delay cfg d port_index ns = (Some r, d') \<and> delays_ok cfg d'"
proof (cases "\<not> dm_running d \<or> \<not> valid_port cfg port_index \<or> ns < 0 \<or> ns \<ge> cf_max_peer_delay_ns cfg")
  case True
  then show ?thesis using assms(3) by (auto simp: ptpd_inject_peer_delay_def)
next
  case False
  let ?y = "po_delay (port_at d (nat port_index))"
  have "nat port_index < num_ports d" using False assms(2) by (auto simp: valid_port_def)
  then have y: "delay_inv cfg ?y" using assms(3) by (intro delays_okD)
  obtain c a where a: "average_delay cfg (pd_peer_delay_avgcount ?y) (pd_peer_delay_ns ?y) ns = Some (c, a)"
    "0 \<le> c" "c \<le> cf_delayreq_avgcount cfg" "0 \<le> a" "a \<le> cf_max_peer_delay_ns cfg"
    using average_in_range [OF assms(1) delay_invD(5-8) [OF y], of ns] False by auto
  moreover have "delay_inv cfg (?y\<lparr>pd_peer_delay_avgcount := c, pd_peer_delay_ns := a\<rparr>)"
    using a delay_invD [OF y] by (simp add: delay_inv_def)
  ultimately show ?thesis
    using False assms(3) by (simp add: ptpd_inject_peer_delay_def delays_ok_map_port)
qed

lemma follow_up_ok:
  assumes "delay_config cfg" "0 < num_ports d" "delays_ok cfg d"
  shows "\<exists>d'. ptp_process_delay_resp_follow_up cfg d fup gen now_us received_us = Some d' \<and> delays_ok cfg d'"
proof -
  have f: "delays_ok cfg (after_finish d x)" for x
    unfolding after_finish_def by (rule delays_ok_keep [OF assms(3)]) simp
  from assms(2) refl [of "ptp_process_delay_resp_follow_up cfg d fup gen now_us received_us"]
  show ?thesis
  proof (cases rule: follow_up_cases)
    case (measured m x' i v rate)
    have "0 < num_ports (after_finish d x')" using assms(2) by (simp only: after_finish_simps [OF assms(2)])
    then show ?thesis unfolding measured(5)
      by (rule take_peer_delay_ok [OF assms(1) _ f]) (use measured_delay_bounds in \<open>auto split: if_splits\<close>)
  qed (use assms(3) f in auto)
qed

text \<open>Whatever answers arrive, no handler divides by zero, and the averaged delays of every port
  and their counts stay within the configured limits: after a Delay\_Resp or Pdelay\_Resp, after
  a Pdelay\_Resp\_Follow\_Up and after a delay injected by a radio transport.\<close>

theorem delays_bounded:
  assumes "delay_config cfg" "daemon_wf cfg d" "delays_ok cfg d"
  shows "(\<exists>d'. ptp_process_delay_resp cfg d resp now_us raw = Some d' \<and> delays_ok cfg d') \<and>
    (\<exists>d'. ptp_process_delay_resp_follow_up cfg d fup gen now_us received_us = Some d' \<and> delays_ok cfg d') \<and>
    (\<exists>r d'. ptpd_inject_peer_delay cfg d port_index ns = (Some r, d') \<and> delays_ok cfg d')"
proof (intro conjI)
  have n: "num_ports d = cf_num_ports cfg" "1 \<le> num_ports d" using assms(2) by (simp_all add: daemon_wf_def)
  then have n0: "0 < num_ports d" by linarith
  show "\<exists>d'. ptp_process_delay_resp cfg d resp now_us raw = Some d' \<and> delays_ok cfg d'"
    by (rule delay_resp_ok [OF assms(1) n0 assms(3)])
  show "\<exists>r d'. ptpd_inject_peer_delay cfg d port_index ns = (Some r, d') \<and> delays_ok cfg d'"
    by (rule inject_delay_ok [OF assms(1) n(1) assms(3)])
  show "\<exists>d'. ptp_process_delay_resp_follow_up cfg d fup gen now_us received_us = Some d' \<and> delays_ok cfg d'"
    by (rule follow_up_ok [OF assms(1) n0 assms(3)])
qed

theorem delays_bounded_witness:
  "\<exists>d'. ptp_process_delay_resp_follow_up config_default measuring_example completing_example 0 20 30 = Some d' \<and>
     delays_ok config_default d' \<and> 0 \<le> pd_peer_delay_ns (po_delay (port_at d' 0))"
proof -
  have "delay_config config_default" "daemon_wf config_default measuring_example" "delays_ok config_default measuring_example"
    by code_simp+
  from delays_bounded [OF this] obtain d' where
    d': "ptp_process_delay_resp_follow_up config_default measuring_example completing_example 0 20 30 = Some d'"
      "delays_ok config_default d'" by blast
  moreover have "0 < num_ports (the (ptp_process_delay_resp_follow_up config_default measuring_example completing_example 0 20 30))"
    by code_simp
  ultimately show ?thesis using delay_invD(7) [OF delays_okD] by (metis option.sel)
qed

section \<open>Intervals\<close>

lemma log_period_of_u16: "msec \<noteq> 0 \<Longrightarrow> -10 \<le> msec_to_log_period msec \<and> msec_to_log_period msec \<le> 6"
  using period_log_range [of msec] by (auto simp: msec_to_log_period_def Let_def)

text \<open>In gPTP the logMessageInterval of a Pdelay\_Resp is not the value the source means to send:
  the conversion of the sentinel to milliseconds is undefined, and of the values it may yield
  only those whose low 16 bits are zero become the sentinel \<open>0x7F\<close> again; every other one is sent
  as an interval of at most 64 seconds.\<close>

theorem pdelay_resp_interval_sentinel:
  assumes "dm_gptp d"
  shows "log_period_to_msec 127 = None \<and>
    (delay_resp_interval cfg d conv = 0x7F \<longleftrightarrow> (ucast conv :: u16) = 0) \<and>
    ((ucast conv :: u16) \<noteq> 0 \<longrightarrow> -10 \<le> sint (delay_resp_interval cfg d conv) \<and> sint (delay_resp_interval cfg d conv) \<le> 6)"
proof -
  have u: "log_period_to_msec 127 = None" by code_simp
  define l where "l = msec_to_log_period (ucast conv)"
  have e: "delay_resp_interval cfg d conv = word_of_int l"
    using assms u by (simp add: delay_resp_interval_def l_def)
  have z: "(ucast conv :: u16) = 0 \<Longrightarrow> l = 127" by (simp add: l_def msec_to_log_period_def)
  have "(ucast conv :: u16) \<noteq> 0 \<Longrightarrow> -10 \<le> l \<and> l \<le> 6" unfolding l_def by (rule log_period_of_u16)
  then have nz: "(ucast conv :: u16) \<noteq> 0 \<Longrightarrow> -10 \<le> sint (word_of_int l :: u8) \<and> sint (word_of_int l :: u8) \<le> 6"
    by (simp add: sint_sbintrunc' signed_take_bit_int_eq_self)
  have "sint (0x7F :: u8) = 127" by simp
  then have "(word_of_int l :: u8) = 0x7F \<longleftrightarrow> (ucast conv :: u16) = 0" using z nz by (cases "(ucast conv :: u16) = 0") force+
  with u nz show ?thesis unfolding e by blast
qed

theorem pdelay_resp_interval_sentinel_witness:
  "delay_resp_interval config_default profile_example 0xFFFFFFFF \<noteq> 0x7F"
proof -
  have "dm_gptp profile_example" "(ucast (0xFFFFFFFF :: u32) :: u16) \<noteq> 0" by code_simp+
  then show ?thesis using pdelay_resp_interval_sentinel [of profile_example config_default "0xFFFFFFFF"] by blast
qed

text \<open>The jitter of delay requests: between 0.8 and 1.25 of the mean, to the millisecond.\<close>

lemma rnd_unit: "\<bar>x\<bar> \<le> 2 \<Longrightarrow> \<bar>rnd x - x\<bar> \<le> 1 / 4503599627370496"
  using rnd_error_below [of x 2] by simp

lemma jitter_multiplier_bounds:
  assumes "0 \<le> raw" "raw \<le> 2147483647"
  defines "j \<equiv> rnd (rnd (4 / 5) + rnd (rnd (rnd (of_int raw) / 2147483647) * rnd (9 / 20)))"
  shows "4 / 5 - 6 / 4503599627370496 \<le> j" "j \<le> 5 / 4 + 6 / 4503599627370496"
proof -
  define n0 :: rat where "n0 = of_int raw / 2147483647"
  have "(of_int raw :: rat) \<le> of_int 2147483647" "0 \<le> (of_int raw :: rat)" using assms(1,2) by (simp_all only: of_int_le_iff of_int_0_le_iff)
  then have n0: "0 \<le> n0" "n0 \<le> 1" by (simp_all add: n0_def)
  have raw: "rnd (of_int raw) = of_int raw" using assms(1,2) by (intro rnd_int_exact) simp
  define n where "n = rnd n0"
  define c where "c = rnd (9 / 20)"
  have n: "\<bar>n - n0\<bar> \<le> 1 / 4503599627370496" unfolding n_def by (rule rnd_unit) (use n0 in simp)
  have c: "\<bar>c - 9 / 20\<bar> \<le> 1 / 4503599627370496" unfolding c_def by (rule rnd_unit) simp
  have "\<bar>n\<bar> \<le> 2" using n n0 by linarith
  then have "\<bar>n * (c - 9 / 20)\<bar> \<le> 2 * (1 / 4503599627370496)" unfolding abs_mult by (rule mult_mono [OF _ c]) simp_all
  then have z: "\<bar>n * (c - 9 / 20)\<bar> \<le> 2 / 4503599627370496" by simp
  have "\<bar>9 / 20 * (n - n0)\<bar> = 9 / 20 * \<bar>n - n0\<bar>" by (simp only: abs_mult abs_divide abs_numeral)
  also have "\<dots> \<le> 9 / 20 * (1 / 4503599627370496)" by (rule mult_left_mono [OF n]) simp
  finally have w: "\<bar>9 / 20 * (n - n0)\<bar> \<le> 1 / 4503599627370496" by simp
  have "n * c - n0 * (9 / 20) = n * (c - 9 / 20) + 9 / 20 * (n - n0)" by (simp add: field_simps)
  then have p: "\<bar>n * c - n0 * (9 / 20)\<bar> \<le> 3 / 4503599627370496"
    using add_mono [OF z w] abs_triangle_ineq [of "n * (c - 9 / 20)" "9 / 20 * (n - n0)"]
    by (simp only:)
  define b where "b = rnd (n * c)"
  have "\<bar>n * c\<bar> \<le> 2" using p n0 by linarith
  then have b: "\<bar>b - n * c\<bar> \<le> 1 / 4503599627370496" unfolding b_def by (rule rnd_unit)
  have a: "\<bar>rnd (4 / 5) - 4 / 5\<bar> \<le> 1 / 4503599627370496" by (rule rnd_unit) simp
  have s: "\<bar>rnd (4 / 5) + b - (4 / 5 + n0 * (9 / 20))\<bar> \<le> 5 / 4503599627370496" using a b p by linarith
  then have "\<bar>rnd (4 / 5) + b\<bar> \<le> 2" using n0 by linarith
  then have "\<bar>rnd (rnd (4 / 5) + b) - (rnd (4 / 5) + b)\<bar> \<le> 1 / 4503599627370496" by (rule rnd_unit)
  then have "\<bar>j - (4 / 5 + n0 * (9 / 20))\<bar> \<le> 6 / 4503599627370496"
    using s unfolding j_def raw n0_def [symmetric] n_def [symmetric] c_def [symmetric] b_def [symmetric] by linarith
  with n0 show "4 / 5 - 6 / 4503599627370496 \<le> j" "j \<le> 5 / 4 + 6 / 4503599627370496" by linarith+
qed

text \<open>The randomised interval of delay requests is between 0.8 and 1.25 of the mean, to the
  millisecond, in spite of the rounding of the computation.\<close>

theorem rand_delayreq_interval_bounds:
  assumes "0 \<le> raw" "raw \<le> 2147483647" "0 \<le> mean_ms" "mean_ms \<le> 4294967295"
  shows "4 / 5 * of_int mean_ms - 1 - 1 / 100 \<le> (of_int (rand_delayreq_interval raw mean_ms) :: rat) \<and>
    (of_int (rand_delayreq_interval raw mean_ms) :: rat) \<le> 5 / 4 * of_int mean_ms + 1 / 100"
proof -
  define j where "j = rnd (rnd (4 / 5) + rnd (rnd (rnd (of_int raw) / 2147483647) * rnd (9 / 20)))"
  define m :: rat where "m = of_int mean_ms"
  have "(of_int mean_ms :: rat) \<le> of_int 4294967295" "0 \<le> (of_int mean_ms :: rat)" using assms(3,4) by (simp_all only: of_int_le_iff of_int_0_le_iff)
  then have m: "0 \<le> m" "m \<le> 4294967296" by (simp_all add: m_def)
  note j = jitter_multiplier_bounds [OF assms(1,2), folded j_def]
  have s: "m * (6 / 4503599627370496) \<le> 6 / 1048576" using mult_right_mono [OF m(2), of "6 / 4503599627370496"] by simp
  have l: "m * (4 / 5) - m * (6 / 4503599627370496) \<le> m * j" using mult_left_mono [OF j(1) m(1)] by (simp add: right_diff_distrib)
  have u: "m * j \<le> m * (5 / 4) + m * (6 / 4503599627370496)" using mult_left_mono [OF j(2) m(1)] by (simp add: distrib_left)
  have "\<bar>m * j\<bar> \<le> 8589934592" using l u s m by linarith
  then have r: "\<bar>rnd (m * j) - m * j\<bar> \<le> 1 / 1048576" using rnd_error_below by fastforce
  have e: "rand_delayreq_interval raw mean_ms = \<lfloor>rnd (m * j)\<rfloor>"
    by (simp add: rand_delayreq_interval_def Let_def j_def m_def)
  have "of_int \<lfloor>rnd (m * j)\<rfloor> \<le> rnd (m * j)" "rnd (m * j) < of_int \<lfloor>rnd (m * j)\<rfloor> + 1" by linarith+
  then show ?thesis unfolding e m_def [symmetric] using l u s r by linarith
qed

theorem rand_delayreq_interval_bounds_witness:
  "(of_int (rand_delayreq_interval 5 1000) :: rat) \<le> 1251"
  using rand_delayreq_interval_bounds [of 5 1000] by simp

end
