(* ===== verification/Ptp_Send.thy ===== *)
theory Ptp_Send
  imports Ptp_Delay
begin

text \<open>
  The messages the daemon sends of its own accord (\<^verbatim>\<open>ptp.c\<close>): Announce, Sync with its Follow_Up,
  delay requests with the timer that sends them, and the endpoint beacon.  Every function
  returns the value of the source, the new state and what was handed to the network.

  A reading of the clock whose result the source does not test is \<open>read_clock\<close>.
\<close>

section \<open>Helpers\<close>

definition read_clock :: "ptp_daemon \<Rightarrow> clock_env \<Rightarrow> timespec" where
  "read_clock d env = (case ptp_gettime d env of None \<Rightarrow> ce_unset env | Some ts \<Rightarrow> ts)"

definition interval_octet :: "int \<Rightarrow> u8" where
  "interval_octet ms = word_of_int (msec_to_log_period (word_of_int ms))"

section \<open>Announce\<close>

definition gm_link_tlv :: "u32 \<Rightarrow> bytes" where
  "gm_link_tlv link_mbps = [0x80, 0x00, 0, 10] @ lite_orgid @ gm_link_subtype @ octets 4 (uint link_mbps)"

definition announce_link_tlv :: "ptp_daemon \<Rightarrow> bytes" where
  "announce_link_tlv d =
     (let link_mbps = lk_negotiated_link_mbps (po_link (port_at d 0))
      in if \<not> dm_gptp d \<and> link_mbps \<noteq> 0 then gm_link_tlv link_mbps else [])"

definition announce_message :: "ptp_config \<Rightarrow> ptp_daemon \<Rightarrow> u16 \<Rightarrow> timespec \<Rightarrow> ptp_announce" where
  "announce_message cfg d sequence ts =
     (let own = st_own_identity (dm_state d); h = an_header own in
      own\<lparr>an_header := ptp_set_message_length
            (h\<lparr>hd_messagetype := (if dm_gptp d then or PTP_MSGTYPE_ANNOUNCE PTP_MSGTYPE_SDOID_GPTP else PTP_MSGTYPE_ANNOUNCE),
               hd_logmessageinterval := interval_octet (cf_announce_interval_ms cfg),
               hd_flags := (hd_flags h)[1 := PTP_FLAGS1_PTP_TIMESCALE],
               hd_sequenceid := octets 2 (uint sequence)\<rparr>)
            (76 + length (announce_link_tlv d)),
          an_origintimestamp := timespec_to_ptp_format (cf_time64 cfg) ts,
          an_pathtracetlv := [0, 8, 0, 8] @ an_btc_identity own\<rparr>)"

definition ptp_send_announce ::
  "ptp_config \<Rightarrow> ptp_daemon \<Rightarrow> clock_env \<Rightarrow> tx_env \<Rightarrow> int \<times> ptp_daemon \<times> transmission option" where
  "ptp_send_announce cfg d env tx =
     (let seq = st_announce_seq (dm_state d) + 1;
          d = map_state (\<lambda>s. s\<lparr>st_announce_seq := seq\<rparr>) d;
          wire = announce_bytes (announce_message cfg d seq (read_clock d env)) @ announce_link_tlv d;
          (ret, _, out) = ptp_net_send cfg d wire False tx
      in (ret, d, out))"

section \<open>Sync\<close>

definition sync_header :: "ptp_config \<Rightarrow> ptp_daemon \<Rightarrow> u16 \<Rightarrow> ptp_header" where
  "sync_header cfg d sequence =
     (let h = an_header (st_own_identity (dm_state d));
          two_step = (cf_twostep_sync cfg \<or> cf_gptp_profile cfg);
          flags = (if two_step then (hd_flags h)[0 := PTP_FLAGS0_TWOSTEP] else hd_flags h)
      in h\<lparr>hd_messagetype := (if dm_gptp d then or PTP_MSGTYPE_SYNC PTP_MSGTYPE_SDOID_GPTP else PTP_MSGTYPE_SYNC),
           hd_messagelength := (hd_messagelength h)[1 := 44],
           hd_logmessageinterval := interval_octet (cf_sync_interval_ms cfg),
           hd_flags := (if dm_gptp d then flags[1 := PTP_FLAGS1_PTP_TIMESCALE] else flags),
           hd_sequenceid := octets 2 (uint sequence)\<rparr>)"

definition sync_follow_up :: "ptp_config \<Rightarrow> ptp_daemon \<Rightarrow> u16 \<Rightarrow> timespec \<Rightarrow> ptp_follow_up" where
  "sync_follow_up cfg d sequence ts =
     (let h = sync_header cfg d sequence in
      \<lparr>fu_header = h\<lparr>hd_messagetype := (if dm_gptp d then or PTP_MSGTYPE_FOLLOW_UP PTP_MSGTYPE_SDOID_GPTP
                                        else PTP_MSGTYPE_FOLLOW_UP),
                     hd_messagelength := (hd_messagelength h)[1 := 76],
                     hd_flags := (hd_flags h)[0 := 0], hd_controlfield := 2\<rparr>,
       fu_origintimestamp = timespec_to_ptp_format (cf_time64 cfg) ts,
       fu_informationtlv = [0, 3, 0, 0x1c, 0, 0x80, 0xc2, 0, 0, 1] @ replicate 22 0\<rparr>)"

text \<open>The transmission replaces the reading of the clock by the time stamp of the frame, if it has
  one.\<close>

definition ptp_send_sync ::
  "ptp_config \<Rightarrow> ptp_daemon \<Rightarrow> clock_env \<Rightarrow> tx_env \<Rightarrow> tx_env \<Rightarrow> int \<times> ptp_daemon \<times> transmission list" where
  "ptp_send_sync cfg d env tx tx' =
     (let seq = st_sync_seq (dm_state d) + 1;
          d = map_state (\<lambda>s. s\<lparr>st_sync_seq := seq\<rparr>) d;
          ts = read_clock d env;
          msg = sync_bytes \<lparr>sy_header = sync_header cfg d seq,
                            sy_origintimestamp = timespec_to_ptp_format (cf_time64 cfg) ts\<rparr>;
          (ret, stamp, out) = ptp_net_send cfg d msg True tx;
          sent = (case out of None \<Rightarrow> [] | Some t \<Rightarrow> [t])
      in if ret < 0 then (ret, d, sent)
         else if cf_twostep_sync cfg \<or> cf_gptp_profile cfg then
           let ts = (case stamp of None \<Rightarrow> ts | Some t \<Rightarrow> t);
               (ret', _, out') = ptp_net_send cfg d (follow_up_bytes (sync_follow_up cfg d seq ts)) False tx';
               sent = sent @ (case out' of None \<Rightarrow> [] | Some t \<Rightarrow> [t])
           in (if ret' < 0 then ret' else 0, d, sent)
         else (0, d, sent))"

section \<open>Delay requests\<close>

definition pdelay_req_message :: "ptp_config \<Rightarrow> ptp_daemon \<Rightarrow> u16 \<Rightarrow> bytes" where
  "pdelay_req_message cfg d sequence =
     (let h = an_header (st_own_identity (dm_state d));
          tlv = (if ptp_sends_endpoint_decl cfg d then endpoint_decl_tlv else [])
      in pdelay_req_bytes
           \<lparr>pq_header = ptp_set_message_length
              (h\<lparr>hd_logmessageinterval := 0x7F, hd_messagetype := or PTP_MSGTYPE_PDELAY_REQ PTP_MSGTYPE_SDOID_GPTP,
                 hd_flags := (hd_flags h)[1 := PTP_FLAGS1_PTP_TIMESCALE], hd_controlfield := 5,
                 hd_sequenceid := octets 2 (uint sequence)\<rparr>) (54 + length tlv),
            pq_reserved = replicate 20 0\<rparr> @ tlv)"

definition delay_req_message :: "ptp_config \<Rightarrow> ptp_daemon \<Rightarrow> u16 \<Rightarrow> bool \<Rightarrow> timespec \<Rightarrow> bytes" where
  "delay_req_message cfg d sequence unicast_request ts =
     (let h = an_header (st_own_identity (dm_state d)) in
      delay_req_bytes
        \<lparr>dq_header = ptp_set_message_length
           (h\<lparr>hd_logmessageinterval := interval_octet (pd_delayreq_interval_ms (po_delay (port_at d 0))),
              hd_messagetype := PTP_MSGTYPE_DELAY_REQ,
              hd_flags := (if unicast_request then (hd_flags h)[0 := or (hd_flags h ! 0) PTP_FLAGS0_UNICAST] else hd_flags h),
              hd_sequenceid := octets 2 (uint sequence)\<rparr>) 44,
         dq_origintimestamp = timespec_to_ptp_format (cf_time64 cfg) ts\<rparr>)"

text \<open>Open the exchange of a Pdelay\_Req: count a loss of the previous one, then begin.\<close>

definition open_exchange :: "ptp_daemon \<Rightarrow> u16 \<Rightarrow> int \<Rightarrow> int \<Rightarrow> u32 \<times> ptp_daemon" where
  "open_exchange d sequence deadline_base_us expire_us =
     (let p = port_at d 0;
          deadline_us = deadline_base_us + pd_delayreq_interval_ms (po_delay p) * 1000;
          (_, x) = ptp_peer_expire (po_peer_exchange p) expire_us;
          (generation, x) = ptp_peer_begin x sequence (an_header (st_own_identity (dm_state d))) deadline_us
      in (generation, map_port 0 (\<lambda>p. p\<lparr>po_peer_exchange := x\<rparr>)
            (d\<lparr>dm_peer_ingress_sequence := sequence, dm_peer_ingress_count := 0\<rparr>)))"

definition close_exchange :: "ptp_daemon \<Rightarrow> u32 \<Rightarrow> int \<Rightarrow> timespec \<Rightarrow> int \<Rightarrow> ptp_daemon" where
  "close_exchange d generation ret transmit_time now_us =
     (let x = po_peer_exchange (port_at d 0);
          (published, x) = (if ret > 0 then ptp_peer_publish x generation transmit_time now_us else (False, x));
          x = (if published then x else ptp_peer_cancel x generation)
      in map_port 0 (\<lambda>p. p\<lparr>po_peer_exchange := x\<rparr>) d)"

definition note_delayreq_sent :: "int \<Rightarrow> timespec \<Rightarrow> ptp_daemon \<Rightarrow> ptp_daemon" where
  "note_delayreq_sent ret mono_ts d =
     (if ret < 0 then d
      else map_port 0 (\<lambda>p. p\<lparr>po_sent := (po_sent p)\<lparr>pt_last_transmitted_delayreq := mono_ts\<rparr>\<rparr>) d)"

definition send_pdelay_req ::
  "ptp_config \<Rightarrow> ptp_daemon \<Rightarrow> tx_env \<Rightarrow> int \<Rightarrow> int \<Rightarrow> int \<Rightarrow> timespec \<Rightarrow> int \<times> ptp_daemon \<times> transmission option" where
  "send_pdelay_req cfg d tx deadline_base_us expire_us publish_us mono_ts =
     (let seq = st_delay_req_seq (dm_state d) + 1;
          d = map_state (\<lambda>s. s\<lparr>st_delay_req_seq := seq\<rparr>) d;
          (generation, d) = open_exchange d seq deadline_base_us expire_us;
          (ret, stamp, out) = ptp_net_send cfg d (pdelay_req_message cfg d seq) True tx;
          transmit_time = (case stamp of None \<Rightarrow> \<lparr>tv_sec = 0, tv_nsec = -1\<rparr> | Some t \<Rightarrow> t);
          d = close_exchange d generation ret transmit_time publish_us
      in (ret, note_delayreq_sent ret mono_ts d, out))"

definition send_delay_req ::
  "ptp_config \<Rightarrow> ptp_daemon \<Rightarrow> clock_env \<Rightarrow> tx_env \<Rightarrow> int \<Rightarrow> timespec \<Rightarrow> int \<times> ptp_daemon \<times> transmission option" where
  "send_delay_req cfg d env tx unicast_us mono_ts =
     (let ts = read_clock d env;
          d = map_port 0 (\<lambda>p. p\<lparr>po_delay := (po_delay p)\<lparr>pd_delayreq_time := ts\<rparr>\<rparr>) d;
          (unicast_request, d) = ptp_unicast_delay_req_active cfg d unicast_us;
          seq = st_delay_req_seq (dm_state d) + 1;
          d = map_state (\<lambda>s. s\<lparr>st_delay_req_seq := seq\<rparr>) d;
          msg = delay_req_message cfg d seq unicast_request ts;
          (ret, stamp, out) =
            (if unicast_request then ptp_net_send_to cfg d msg True (the (so_selected_source_mac (dm_source d))) tx
             else ptp_net_send cfg d msg True tx);
          d = (case stamp of None \<Rightarrow> d
               | Some t \<Rightarrow> map_port 0 (\<lambda>p. p\<lparr>po_delay := (po_delay p)\<lparr>pd_delayreq_time := t\<rparr>\<rparr>) d);
          d = (if unicast_request \<and> ret > 0
               then map_source (\<lambda>s. s\<lparr>so_unicast_delay_req_outstanding := True\<rparr>) d else d)
      in (ret, note_delayreq_sent ret mono_ts d, out))"

text \<open>\<open>t1\<close>, \<open>t2\<close>, \<open>t3\<close> are the readings of the timer, in order; a standard request reads it once.\<close>

definition ptp_send_delay_req ::
  "ptp_config \<Rightarrow> ptp_daemon \<Rightarrow> clock_env \<Rightarrow> tx_env \<Rightarrow> int \<Rightarrow> int \<Rightarrow> int \<Rightarrow> timespec \<Rightarrow>
     int \<times> ptp_daemon \<times> transmission option" where
  "ptp_send_delay_req cfg d env tx t1 t2 t3 mono_ts =
     (if dm_gptp d then send_pdelay_req cfg d tx t1 t2 t3 mono_ts else send_delay_req cfg d env tx t1 mono_ts)"

section \<open>The timer of delay requests\<close>

definition ptpd_lateness_record_tx :: "int \<Rightarrow> ptp_stats \<Rightarrow> ptp_stats" where
  "ptpd_lateness_record_tx lateness_us x =
     (let x = x\<lparr>sx_tx_req_total := sx_tx_req_total x + 1\<rparr> in
      if lateness_us > 200000
      then x\<lparr>sx_tx_req_late := sx_tx_req_late x + 1,
             sx_tx_req_late_max_us := (if lateness_us > sx_tx_req_late_max_us x then lateness_us else sx_tx_req_late_max_us x)\<rparr>
      else x)"

definition delay_req_due :: "ptp_daemon \<Rightarrow> bool" where
  "delay_req_due d \<longleftrightarrow>
     pg_enabled (po_config (port_at d 0)) \<and> pg_medium (po_config (port_at d 0)) = ptp_port_medium_eth_hwts \<and>
     lk_socket_open (po_link (port_at d 0)) \<and>
     (dm_gptp d \<or> so_selected_source_valid (dm_source d) \<and> pd_can_send_delayreq (po_delay (port_at d 0)))"

definition note_lateness :: "ptp_daemon \<Rightarrow> timespec \<Rightarrow> ptp_daemon" where
  "note_lateness d time_now =
     (let last = pt_last_transmitted_delayreq (po_sent (port_at d 0)) in
      if tv_sec last \<noteq> 0 then
        let late_ms = timespec_to_ms (timespecsub time_now last) - pd_next_delayreq_interval_ms (po_delay (port_at d 0))
        in if late_ms > 0 then d\<lparr>dm_stats := ptpd_lateness_record_tx (late_ms * 1000) (dm_stats d)\<rparr> else d
      else d)"

definition rearm_interval_us :: "ptp_daemon \<Rightarrow> u32" where
  "rearm_interval_us d =
     (let interval_us = word_of_int (pd_next_delayreq_interval_ms (po_delay (port_at d 0))) * 1000 :: u32
      in if interval_us < 100000 then 1000000 else interval_us)"

text \<open>The interval the timer is started with again (None: not at all), the state and what was sent.\<close>

definition pdelay_req_timer_cb ::
  "ptp_config \<Rightarrow> ptp_daemon \<Rightarrow> bool \<Rightarrow> clock_env \<Rightarrow> tx_env \<Rightarrow> timespec \<Rightarrow> int \<Rightarrow> int \<Rightarrow> int \<Rightarrow> timespec \<Rightarrow>
     u32 option \<times> ptp_daemon \<times> transmission option" where
  "pdelay_req_timer_cb cfg d stop env tx time_now t1 t2 t3 mono_ts =
     (if stop then (None, d, None)
      else
        let (d, out) =
              (if delay_req_due d then
                 let d = note_lateness d time_now;
                     (_, d, out) = ptp_send_delay_req cfg d env tx t1 t2 t3 mono_ts
                 in (d, out)
               else (d, None))
        in (Some (rearm_interval_us d), d, out))"

section \<open>The endpoint beacon\<close>

definition endpoint_beacon_message :: "ptp_config \<Rightarrow> ptp_daemon \<Rightarrow> u16 \<Rightarrow> bytes" where
  "endpoint_beacon_message cfg d sequence =
     (let h = an_header (st_own_identity (dm_state d)) in
      pdelay_req_bytes
        \<lparr>pq_header = h\<lparr>hd_messagetype := or PTP_MSGTYPE_PDELAY_REQ PTP_MSGTYPE_SDOID_GPTP,
           hd_flags := (hd_flags h)[1 := PTP_FLAGS1_PTP_TIMESCALE], hd_controlfield := 5,
           hd_messagelength := (hd_messagelength h)[1 := 66], hd_sequenceid := octets 2 (uint sequence)\<rparr>,
         pq_reserved = replicate 20 0\<rparr> @ endpoint_decl_tlv)"

definition ptp_send_endpoint_beacon :: "ptp_config \<Rightarrow> ptp_daemon \<Rightarrow> tx_env \<Rightarrow> int \<times> ptp_daemon \<times> transmission option" where
  "ptp_send_endpoint_beacon cfg d tx =
     (let seq = st_delay_req_seq (dm_state d) + 1;
          d = map_state (\<lambda>s. s\<lparr>st_delay_req_seq := seq\<rparr>) d;
          (ret, _, out) = ptp_net_send_to cfg d (endpoint_beacon_message cfg d seq) True LLDP_MULTICAST_ADDR tx
      in (ret, d, out))"


section \<open>Payloads\<close>

text \<open>What a gPTP daemon hands to the network for a message, seen by the receiver.\<close>

lemma header_of_prefix:
  "34 \<le> length a \<Longrightarrow> 34 \<le> length b \<Longrightarrow> take 34 a = take 34 b \<Longrightarrow> header_of a = header_of b"
  using header_of_take [of 34] by (metis order_refl)

lemma header_of_normalized:
  assumes "34 \<le> length w" "and (w ! 0) 15 \<noteq> 12"
  shows "header_of (ptp_gptp_wire_normalize w (length w) True v) =
    (header_of w)\<lparr>hd_version := or (push_bit 4 v) 2, hd_reserved1 := 0, hd_reserved2 := replicate 4 0, hd_controlfield := 0\<rparr>"
proof -
  have l: "length (normalize_header w v) = length w" using assms(1) by simp
  have "take 34 (ptp_gptp_wire_normalize w (length w) True v) = take 34 (normalize_header w v)"
    using normalize_cases [of "length w" w v] assms l by (auto simp: Let_def splice_def)
  then show ?thesis
    using header_of_prefix [of "ptp_gptp_wire_normalize w (length w) True v" "normalize_header w v"]
      header_of_normalize [OF assms(1), of v] assms(1) l by simp
qed

lemma gptp_payload:
  fixes h :: ptp_header and body :: bytes and v :: u8
  assumes "header_wf h" "and (hd_messagetype h) 15 \<noteq> 12" "length body < 1000"
    and "hd_messagelength h = octets 2 (int (34 + length body))" "message_minimum (hd_messagetype h) \<le> 34 + length body"
  defines "w \<equiv> header_bytes h @ body"
  defines "p \<equiv> ptp_gptp_wire_normalize w (length w) True v"
  shows "length p = 34 + length body"
    "header_of p = h\<lparr>hd_version := or (push_bit 4 v) 2, hd_reserved1 := 0, hd_reserved2 := replicate 4 0, hd_controlfield := 0\<rparr>"
    "ptp_message_bounded_length (Some p) (length p) = length p"
    "p ! 0 = hd_messagetype h" "p ! 1 = or (push_bit 4 v) 2" "be16 (p ! 2) (p ! 3) = 34 + length body"
    "and (hd_messagetype h) 15 \<notin> {0, 2, 11} \<Longrightarrow> drop 34 p = body"
proof -
  have l: "length w = 34 + length body" using assms(1) by (simp add: w_def)
  have ho: "header_of w = h" using assms(1) by (simp add: w_def header_of_bytes)
  then have t: "w ! 0 = hd_messagetype h" by (simp add: header_of_def flip: ho)
  show lp: "length p = 34 + length body" unfolding p_def length_normalize by (fact l)
  show hp: "header_of p = h\<lparr>hd_version := or (push_bit 4 v) 2, hd_reserved1 := 0, hd_reserved2 := replicate 4 0, hd_controlfield := 0\<rparr>"
    using header_of_normalized [of w v] l assms(2) t by (simp add: p_def ho)
  have m: "p ! 0 = hd_messagetype h" "p ! 1 = or (push_bit 4 v) 2" "slice 2 2 p = hd_messagelength h"
    using arg_cong [OF hp, of hd_messagetype] arg_cong [OF hp, of hd_version] arg_cong [OF hp, of hd_messagelength]
    by (simp_all add: header_of_def)
  show "p ! 0 = hd_messagetype h" "p ! 1 = or (push_bit 4 v) 2" by (fact m)+
  have "[p ! 2, p ! 3] = octets 2 (int (34 + length body))"
    using slice_pair [of 2 p] lp unfolding m(3) assms(4) by simp
  then have "p ! 2 = word_of_nat ((34 + length body) div 256)" "p ! 3 = word_of_nat (34 + length body)"
    unfolding octets2_nat by blast+
  then show l16: "be16 (p ! 2) (p ! 3) = 34 + length body"
    using assms(3) by (simp only: be16_of_nat)
  then show "ptp_message_bounded_length (Some p) (length p) = length p"
    using m assms(5) lp by (auto simp: ptp_message_bounded_length_def version_nibble Let_def)
  assume "and (hd_messagetype h) 15 \<notin> {0, 2, 11}"
  then have "p = normalize_header w v" using normalize_plain [of w v] l assms(2) t by (simp add: p_def)
  then show "drop 34 p = body"
    using l assms(1) by (simp add: normalize_header_def splice_def w_def drop_update_cancel)
qed

lemma sequence_of_octets: "hd_sequenceid h = octets 2 (uint s) \<Longrightarrow> ptp_get_sequence h = s"
  using sequence_octets [of s] by (simp add: ptp_get_sequence_def octets2)

lemma slice_after: "k \<le> off \<Longrightarrow> slice off n m = slice (off - k) n (drop k m)"
  by (simp add: slice_def)

section \<open>The exchange of a Pdelay request\<close>

lemma header_wf_own:
  assumes "header_wf (an_header (st_own_identity (dm_state d)))"
  shows "length (hd_flags (an_header (st_own_identity (dm_state d)))) = 2"
    "length (hd_messagelength (an_header (st_own_identity (dm_state d)))) = 2"
    "length (hd_sourceidentity (an_header (st_own_identity (dm_state d)))) = 8"
    "length (hd_sourceportindex (an_header (st_own_identity (dm_state d)))) = 2"
  using assms by (simp_all add: header_wf_def)

text \<open>The request on the wire.\<close>

lemma pdelay_req_payload:
  fixes cfg :: ptp_config and d :: ptp_daemon and s :: u16 and v :: u8
  assumes "header_wf (an_header (st_own_identity (dm_state d)))"
  defines "w \<equiv> pdelay_req_message cfg d s" and "own \<equiv> an_header (st_own_identity (dm_state d))"
  defines "p \<equiv> ptp_gptp_wire_normalize w (length w) True v"
  shows "header_wf (header_of p)" "ptp_message_bounded_length (Some p) (length p) = length p"
    "hd_messagetype (header_of p) = 0x12" "port_identity_of (header_of p) = port_identity_of own"
    "hd_sourceidentity (header_of p) = hd_sourceidentity own" "ptp_get_sequence (header_of p) = s"
proof -
  define tlv where "tlv = (if ptp_sends_endpoint_decl cfg d then endpoint_decl_tlv else [])"
  define h where "h = ptp_set_message_length
      (own\<lparr>hd_logmessageinterval := 0x7F, hd_messagetype := or PTP_MSGTYPE_PDELAY_REQ PTP_MSGTYPE_SDOID_GPTP,
         hd_flags := (hd_flags own)[1 := PTP_FLAGS1_PTP_TIMESCALE], hd_controlfield := 5,
         hd_sequenceid := octets 2 (uint s)\<rparr>) (54 + length tlv)"
  have l: "length tlv < 100" by (simp add: tlv_def)
  have w: "w = header_bytes h @ replicate 20 0 @ tlv"
    by (simp add: w_def pdelay_req_message_def pdelay_req_bytes_def h_def own_def tlv_def Let_def)
  have wf: "header_wf h" using assms(1) by (simp add: h_def header_wf_def own_def ptp_set_message_length_def)
  have ty: "hd_messagetype h = 0x12"
    by (simp add: h_def ptp_set_message_length_def PTP_MSGTYPE_PDELAY_REQ_def PTP_MSGTYPE_SDOID_GPTP_def)
  have len: "hd_messagelength h = octets 2 (int (34 + length (replicate 20 0 @ tlv)))"
    by (simp add: h_def ptp_set_message_length_def)
  note g = gptp_payload [OF wf _ _ len, where v = v, folded w, folded p_def]
  show "ptp_message_bounded_length (Some p) (length p) = length p"
    using g(3) ty l by (simp add: message_minimum_def Let_def)
  have hp: "header_of p = h\<lparr>hd_version := or (push_bit 4 v) 2, hd_reserved1 := 0, hd_reserved2 := replicate 4 0, hd_controlfield := 0\<rparr>"
    using g(2) ty l by (simp add: message_minimum_def Let_def)
  show "header_wf (header_of p)" using wf by (simp add: hp header_wf_def)
  show "hd_messagetype (header_of p) = 0x12" "port_identity_of (header_of p) = port_identity_of own"
    "hd_sourceidentity (header_of p) = hd_sourceidentity own"
    using ty by (simp_all add: hp h_def ptp_set_message_length_def port_identity_of_def)
  show "ptp_get_sequence (header_of p) = s"
    by (rule sequence_of_octets) (simp add: hp h_def ptp_set_message_length_def)
qed

lemma begin_result:
  fixes x :: ptp_peer_exchange
  assumes "ptp_peer_begin x s h t = (g, y)"
  shows "px_generation y = g" "px_sequence y = s" "px_requester y = port_identity_of h" "px_deadline_us y = t" "px_sending y"
    "\<not> px_published y" "\<not> px_multiple y" "\<not> px_response_seen y" "\<not> px_consumed y" "\<not> px_follow_up_pending y"
  using arg_cong [OF assms, of fst] arg_cong [OF assms, of snd]
  by (auto simp: ptp_peer_begin_def ptp_peer_abandon_def ptp_peer_invalidate_def exchange_zero_def port_identity_of_def Let_def)

lemma open_exchange_result:
  assumes "0 < num_ports d" "open_exchange d s t1 t2 = (g, e)"
  defines "x \<equiv> po_peer_exchange (port_at e 0)"
  shows "px_generation x = g" "px_sequence x = s" "px_requester x = port_identity_of (an_header (st_own_identity (dm_state d)))"
    "px_deadline_us x = t1 + pd_delayreq_interval_ms (po_delay (port_at d 0)) * 1000"
    "px_sending x" "\<not> px_published x" "\<not> px_multiple x" "\<not> px_response_seen x" "\<not> px_consumed x" "\<not> px_follow_up_pending x"
    "po_config (port_at e 0) = po_config (port_at d 0)" "po_link (port_at e 0) = po_link (port_at d 0)"
    "num_ports e = num_ports d" "dm_gptp e = dm_gptp d" "st_own_identity (dm_state e) = st_own_identity (dm_state d)"
proof -
  obtain h y where b: "ptp_peer_begin (snd (ptp_peer_expire (po_peer_exchange (port_at d 0)) t2)) s
      (an_header (st_own_identity (dm_state d))) (t1 + pd_delayreq_interval_ms (po_delay (port_at d 0)) * 1000) = (h, y)"
    by fastforce
  have r: "h = g" "e = map_port 0 (\<lambda>p. p\<lparr>po_peer_exchange := y\<rparr>) (d\<lparr>dm_peer_ingress_sequence := s, dm_peer_ingress_count := 0\<rparr>)"
    using assms(2) b by (simp_all add: open_exchange_def split_beta Let_def)
  have n: "port_at e 0 = (port_at d 0)\<lparr>po_peer_exchange := y\<rparr>" "num_ports e = num_ports d" "dm_gptp e = dm_gptp d"
    "st_own_identity (dm_state e) = st_own_identity (dm_state d)"
    using assms(1) by (simp_all add: r(2) port_at_def map_port_def map_state_def ptp_is_gptp_def)
  then have x: "x = y" by (simp add: x_def)
  show "px_generation x = g" "px_sequence x = s" "px_requester x = port_identity_of (an_header (st_own_identity (dm_state d)))"
    "px_deadline_us x = t1 + pd_delayreq_interval_ms (po_delay (port_at d 0)) * 1000"
    "px_sending x" "\<not> px_published x" "\<not> px_multiple x" "\<not> px_response_seen x" "\<not> px_consumed x" "\<not> px_follow_up_pending x"
    using begin_result [OF b] by (simp_all add: x r(1))
  show "po_config (port_at e 0) = po_config (port_at d 0)" "po_link (port_at e 0) = po_link (port_at d 0)"
    "num_ports e = num_ports d" "dm_gptp e = dm_gptp d" "st_own_identity (dm_state e) = st_own_identity (dm_state d)"
    using n by simp_all
qed

lemma publish_cases: "ptp_peer_publish x g t now = (False, x) \<or> fst (ptp_peer_publish x g t now)"
  by (simp add: ptp_peer_publish_def)

definition closed_exchange :: "ptp_peer_exchange \<Rightarrow> u32 \<Rightarrow> int \<Rightarrow> timespec \<Rightarrow> int \<Rightarrow> ptp_peer_exchange" where
  "closed_exchange x g ret t now =
     (if ret > 0 \<and> fst (ptp_peer_publish x g t now) then snd (ptp_peer_publish x g t now) else ptp_peer_cancel x g)"

lemma close_exchange_eq:
  "close_exchange d g ret t now = map_port 0 (\<lambda>p. p\<lparr>po_peer_exchange := closed_exchange (po_peer_exchange (port_at d 0)) g ret t now\<rparr>) d"
  using publish_cases [of "po_peer_exchange (port_at d 0)" g t now]
  by (auto simp: close_exchange_def closed_exchange_def split_beta Let_def)

lemma note_delayreq_sent_result [simp]:
  "0 < num_ports d \<Longrightarrow> po_peer_exchange (port_at (note_delayreq_sent r m d) 0) = po_peer_exchange (port_at d 0)"
  by (simp add: note_delayreq_sent_def)

text \<open>The exchange a sent request leaves behind, and the request that went out.\<close>

lemma send_pdelay_req_opens:
  assumes "dm_gptp d" "0 < num_ports d" "length (lk_intf_hw_addr (po_link (port_at d 0))) = 6"
    and "te_write_ret tx > 0" "te_stamp tx = Some ts" "stamp_ok ts"
    and "t3 < t1 + pd_delayreq_interval_ms (po_delay (port_at d 0)) * 1000"
    and "ptp_send_delay_req cfg d env tx t1 t2 t3 mono_ts = (ret, d', out)"
  defines "x \<equiv> po_peer_exchange (port_at d' 0)" and "own \<equiv> an_header (st_own_identity (dm_state d))"
    and "s \<equiv> st_delay_req_seq (dm_state d) + 1"
  shows "px_published x" "px_sequence x = s" "px_requester x = port_identity_of own" "px_transmit x = ts"
    "px_deadline_us x = t1 + pd_delayreq_interval_ms (po_delay (port_at d 0)) * 1000"
    "\<not> px_multiple x" "\<not> px_response_seen x" "\<not> px_consumed x" "\<not> px_follow_up_pending x"
    "\<exists>t. out = Some t \<and> drop 14 (tx_frame t) = ptp_gptp_wire_normalize (pdelay_req_message cfg d s)
       (length (pdelay_req_message cfg d s)) True (ptp_tx_minor_version (port_at d 0))"
proof -
  define d0 where "d0 = map_state (\<lambda>u. u\<lparr>st_delay_req_seq := s\<rparr>) d"
  obtain g e where oe: "open_exchange d0 s t1 t2 = (g, e)" by fastforce
  have d0: "0 < num_ports d0" "port_at d0 0 = port_at d 0" "dm_gptp d0"
    using assms(1,2) by (simp_all add: d0_def port_at_def ptp_is_gptp_def)
  note o = open_exchange_result [OF d0(1) oe]
  have e: "dm_gptp e" "length (lk_intf_hw_addr (po_link (port_at e 0))) = 6" "0 < num_ports e"
    "ptp_tx_minor_version (port_at e 0) = ptp_tx_minor_version (port_at d 0)"
    "pdelay_req_message cfg e s = pdelay_req_message cfg d s"
    using o(11-15) d0 assms(3)
    by (simp_all add: ptp_tx_minor_version_def pdelay_req_message_def ptp_sends_endpoint_decl_def d0_def Let_def)
  obtain t where t: "ptp_net_send cfg e (pdelay_req_message cfg d s) True tx = (te_write_ret tx, Some ts, Some t)"
    "drop 14 (tx_frame t) = ptp_gptp_wire_normalize (pdelay_req_message cfg d s)
       (length (pdelay_req_message cfg d s)) True (ptp_tx_minor_version (port_at d 0))"
    using send_gptp(1) [OF e(1,2), of cfg "pdelay_req_message cfg d s" tx] assms(4,5) e(4) by auto
  have r: "out = Some t" "d' = note_delayreq_sent (te_write_ret tx) mono_ts (close_exchange e g (te_write_ret tx) ts t3)"
    using assms(1,8) oe t(1) e(5)
    by (auto simp: ptp_send_delay_req_def send_pdelay_req_def Let_def s_def d0_def split_beta)
  have p: "ptp_peer_publish (po_peer_exchange (port_at e 0)) g ts t3 =
      (True, (po_peer_exchange (port_at e 0))\<lparr>px_transmit := ts, px_published := True, px_sending := False, px_published_us := t3\<rparr>)"
    using o(1,4,5,6) assms(6,7) d0(2) by (simp add: ptp_peer_publish_def stamp_ok_def)
  have "x = (po_peer_exchange (port_at e 0))\<lparr>px_transmit := ts, px_published := True, px_sending := False, px_published_us := t3\<rparr>"
    using e(3) assms(4) by (simp add: x_def r(2) close_exchange_eq closed_exchange_def p)
  then show "px_published x" "px_sequence x = s" "px_requester x = port_identity_of own" "px_transmit x = ts"
    "px_deadline_us x = t1 + pd_delayreq_interval_ms (po_delay (port_at d 0)) * 1000"
    "\<not> px_multiple x" "\<not> px_response_seen x" "\<not> px_consumed x" "\<not> px_follow_up_pending x"
    using o(2,3,4,7-10) d0(2) by (simp_all add: own_def d0_def)
  show "\<exists>t. out = Some t \<and> drop 14 (tx_frame t) = ptp_gptp_wire_normalize (pdelay_req_message cfg d s)
       (length (pdelay_req_message cfg d s)) True (ptp_tx_minor_version (port_at d 0))" using r(1) t(2) by blast
qed

text \<open>C3. A Pdelay exchange between two daemons completes.  The request a gPTP daemon sends
  is a well-formed message from its own port; when the responder answers it, the response and the
  follow-up are well-formed, the requester accepts the response within the interval, and the
  follow-up yields the one measurement, whose four time stamps are the requester's send and
  receive times and the responder's receive and send times.\<close>

theorem pdelay_round_trip:
  fixes a d :: ptp_daemon and t :: transmission and t1 :: int
  defines "own \<equiv> an_header (st_own_identity (dm_state a))" and "peer \<equiv> an_header (st_own_identity (dm_state d))"
    and "arrival \<equiv> rx_rxtime (po_rx (port_at d 0))" and "q \<equiv> drop 14 (tx_frame t)"
    and "deadline \<equiv> t1 + pd_delayreq_interval_ms (po_delay (port_at a 0)) * 1000"
  assumes "dm_gptp a" "0 < num_ports a" "length (lk_intf_hw_addr (po_link (port_at a 0))) = 6" "header_wf own"
    and "te_write_ret tx > 0" "te_stamp tx = Some sent_at" "stamp_ok sent_at" "t3 < deadline"
    and "ptp_send_delay_req cfga a cenv tx t1 t2 t3 mono_a = (reta, a', Some t)"
    and "dm_gptp d" "0 < num_ports d" "length (lk_intf_hw_addr (po_link (port_at d 0))) = 6" "header_wf peer"
    and "hd_sourceidentity peer \<noteq> hd_sourceidentity own" "te_write_ret env > 0" "te_stamp env = Some ts"
    and "stamp_ok arrival" "0 \<le> tv_sec arrival" "tv_sec arrival < 2 ^ 32"
    and "stamp_ok ts" "0 \<le> tv_sec ts" "tv_sec ts < 2 ^ 32"
    and "ptp_process_delay_req cfg d (header_of q) env env' conv unset mono_ts = (ret, d', sent)"
    and "now1 < deadline" "now2 < deadline" "stamp_ok receive"
  shows "ptp_message_bounded_length (Some q) (length q) = length q \<and> hd_messagetype (header_of q) = 0x12 \<and>
    (\<exists>p1 p2 x1 x2 m. map (\<lambda>t. drop 14 (tx_frame t)) sent = [p1, p2] \<and>
      ptp_message_bounded_length (Some p1) (length p1) = length p1 \<and>
      ptp_message_bounded_length (Some p2) (length p2) = length p2 \<and>
      ptp_peer_response (po_peer_exchange (port_at a' 0)) (delay_resp_of p1) receive now1 = (PTP_PEER_ACCEPTED, x1) \<and>
      ptp_peer_finish x1 (delay_resp_follow_up_of p2) now2 = (Some m, x2) \<and>
      pm_transmit m = sent_at \<and> pm_receive m = receive \<and>
      ptp_format_to_timespec (dr_receivetimestamp (pm_response m)) = arrival \<and>
      ptp_format_to_timespec (df_origintimestamp (delay_resp_follow_up_of p2)) = ts)"
proof -
  note x = send_pdelay_req_opens [OF assms(6,7,8,10,11,12) assms(13) [unfolded deadline_def] assms(14)]
  note p = pdelay_req_payload [OF assms(9) [unfolded own_def], of cfga "st_delay_req_seq (dm_state a) + 1"
      "ptp_tx_minor_version (port_at a 0)"]
  have q: "q = ptp_gptp_wire_normalize (pdelay_req_message cfga a (st_delay_req_seq (dm_state a) + 1))
      (length (pdelay_req_message cfga a (st_delay_req_seq (dm_state a) + 1))) True (ptp_tx_minor_version (port_at a 0))"
    using x(10) by (auto simp: q_def)
  note p = p [folded q]
  have "hd_sourceidentity peer \<noteq> hd_sourceidentity (header_of q)" using assms(19) p(5) by (simp add: own_def)
  note c = answer_completes_exchange [where receive = receive and ?now1.0 = now1 and ?now2.0 = now2 and x = "po_peer_exchange (port_at a' 0)",
      OF assms(15,16) assms(18) [unfolded peer_def] p(1) this [unfolded peer_def] assms(17,20,21)
      assms(22,23,24) [unfolded arrival_def] assms(25-28) x(1) _ _ x(6-9) _ _ assms(31)]
  show ?thesis
    using c p(2,3,4,6) x(2,3,4,5) assms(29,30) by (fastforce simp: deadline_def arrival_def)
qed

text \<open>Clock 2 asks and clock 1 answers.\<close>

definition asking_example :: ptp_daemon where
  "asking_example = map_port 0 (\<lambda>p. p\<lparr>po_delay := (po_delay p)\<lparr>pd_delayreq_interval_ms := 1000\<rparr>\<rparr>)
     (map_state (\<lambda>s. s\<lparr>st_own_identity := (st_own_identity s)\<lparr>
        an_header := (an_header (st_own_identity s))\<lparr>hd_sourceidentity := replicate 8 2\<rparr>\<rparr>\<rparr>) clock_example)"

theorem pdelay_round_trip_witness:
  "\<exists>a' t p1 p2 x1 x2 m. snd (ptp_send_delay_req config_default asking_example hw_env_example tx_env_example 0 0 10 timespec_zero)
      = (a', Some t) \<and>
    map (\<lambda>t. drop 14 (tx_frame t)) (snd (snd (ptp_process_delay_req config_default responder_example
      (header_of (drop 14 (tx_frame t))) tx_env_example tx_env_example 0 timespec_zero timespec_zero))) = [p1, p2] \<and>
    ptp_peer_response (po_peer_exchange (port_at a' 0)) (delay_resp_of p1) \<lparr>tv_sec = 70, tv_nsec = 2000\<rparr> 20 = (PTP_PEER_ACCEPTED, x1) \<and>
    ptp_peer_finish x1 (delay_resp_follow_up_of p2) 30 = (Some m, x2) \<and> pm_transmit m = \<lparr>tv_sec = 70, tv_nsec = 900\<rparr>"
proof -
  have h: "dm_gptp asking_example" "0 < num_ports asking_example"
    "length (lk_intf_hw_addr (po_link (port_at asking_example 0))) = 6"
    "header_wf (an_header (st_own_identity (dm_state asking_example)))" "te_write_ret tx_env_example > 0"
    "te_stamp tx_env_example = Some \<lparr>tv_sec = 70, tv_nsec = 900\<rparr>"
    "pd_delayreq_interval_ms (po_delay (port_at asking_example 0)) = 1000"
    "dm_gptp responder_example" "0 < num_ports responder_example"
    "length (lk_intf_hw_addr (po_link (port_at responder_example 0))) = 6"
    "header_wf (an_header (st_own_identity (dm_state responder_example)))"
    "hd_sourceidentity (an_header (st_own_identity (dm_state responder_example))) \<noteq>
       hd_sourceidentity (an_header (st_own_identity (dm_state asking_example)))"
    "rx_rxtime (po_rx (port_at responder_example 0)) = \<lparr>tv_sec = 70, tv_nsec = 500\<rparr>"
    by code_simp+
  obtain ra a' out where qa: "ptp_send_delay_req config_default asking_example hw_env_example tx_env_example 0 0 10 timespec_zero = (ra, a', out)"
    by (rule prod_cases3)
  obtain t where t: "out = Some t"
    using send_pdelay_req_opens(10) [OF h(1-3,5,6) _ _ qa] h(7) by (auto simp: stamp_ok_def)
  obtain ret e sent where q: "ptp_process_delay_req config_default responder_example (header_of (drop 14 (tx_frame t))) tx_env_example
      tx_env_example 0 timespec_zero timespec_zero = (ret, e, sent)" by (rule prod_cases3)
  show ?thesis
    using pdelay_round_trip [OF h(1-6) _ _ qa [unfolded t] h(8-12,5,6) _ _ _ _ _ _ q, of 20 30 "\<lparr>tv_sec = 70, tv_nsec = 2000\<rparr>"]
    unfolding h(7,13) qa t by (auto simp: q stamp_ok_def)
qed

section \<open>Sync and its Follow\_Up\<close>

lemma sync_payloads:
  fixes cfg :: ptp_config and d :: ptp_daemon and s :: u16 and v :: u8 and ts t0 :: timespec
  assumes own: "own = an_header (st_own_identity (dm_state d))"
    and "dm_gptp d" "header_wf own" "hd_messagelength own ! 0 = 0" "cf_gptp_profile cfg"
    and w1_def: "w1 = sync_bytes \<lparr>sy_header = sync_header cfg d s, sy_origintimestamp = timespec_to_ptp_format (cf_time64 cfg) t0\<rparr>"
    and w2_def: "w2 = follow_up_bytes (sync_follow_up cfg d s ts)"
    and p1_def: "p1 = ptp_gptp_wire_normalize w1 (length w1) True v" and p2_def: "p2 = ptp_gptp_wire_normalize w2 (length w2) True v"
  shows "length p1 = 44" "length p2 = 76" "ptp_message_bounded_length (Some p1) 44 = 44" "ptp_message_bounded_length (Some p2) 76 = 76"
    "ptp_timing_payload_valid (Some p2) 76" "slice 34 10 p2 = timespec_to_ptp_format (cf_time64 cfg) ts"
    "hd_messagetype (header_of p1) = 0x10" "hd_messagetype (header_of p2) = 0x18"
    "and (hd_flags (header_of p1) ! 0) PTP_FLAGS0_TWOSTEP \<noteq> 0"
    "same_source_port (header_of p1) own" "same_source_port (header_of p2) own"
    "ptp_get_sequence (header_of p1) = s" "ptp_get_sequence (header_of p2) = s"
    "hd_logmessageinterval (header_of p1) = interval_octet (cf_sync_interval_ms cfg)"
proof -
  obtain b where b: "hd_messagelength own = [0, b]"
    using assms(3,4) by (auto simp: header_wf_def length_Suc_conv numeral_2_eq_2)
  have fl: "length (hd_flags own) = 2" using assms(3) by (simp add: header_wf_def)
  define h1 where "h1 = sync_header cfg d s"
  define h2 where "h2 = fu_header (sync_follow_up cfg d s ts)"
  have f1: "hd_messagetype h1 = 0x10" "hd_messagelength h1 = octets 2 44" "hd_sequenceid h1 = octets 2 (uint s)"
    "hd_flags h1 = [2, PTP_FLAGS1_PTP_TIMESCALE]" "same_source_port h1 own" "header_wf h1"
    "hd_logmessageinterval h1 = interval_octet (cf_sync_interval_ms cfg)"
    using assms(2,3,5) b fl
    by (auto simp: h1_def sync_header_def Let_def own [symmetric] PTP_MSGTYPE_SYNC_def PTP_MSGTYPE_SDOID_GPTP_def
        octets2 PTP_FLAGS0_TWOSTEP_def same_source_port_def header_wf_def length_Suc_conv numeral_2_eq_2)
  have f2: "hd_messagetype h2 = 0x18" "hd_messagelength h2 = octets 2 76" "hd_sequenceid h2 = octets 2 (uint s)"
    "same_source_port h2 own" "header_wf h2"
    using f1 assms(2)
    by (auto simp: h2_def sync_follow_up_def Let_def h1_def [symmetric] PTP_MSGTYPE_FOLLOW_UP_def PTP_MSGTYPE_SDOID_GPTP_def
        octets2 same_source_port_def header_wf_def)
  have w1: "w1 = header_bytes h1 @ timespec_to_ptp_format (cf_time64 cfg) t0"
    by (simp add: w1_def sync_bytes_def h1_def)
  have w2: "w2 = header_bytes h2 @ timespec_to_ptp_format (cf_time64 cfg) ts @ [0, 3, 0, 0x1c, 0, 0x80, 0xc2, 0, 0, 1] @ replicate 22 0"
    by (simp add: w2_def follow_up_bytes_def h2_def sync_follow_up_def Let_def)
  note g1 = gptp_payload [OF f1(6), where v = v and body = "timespec_to_ptp_format (cf_time64 cfg) t0", folded w1, folded p1_def]
  note g2 = gptp_payload [OF f2(5), where v = v and
      body = "timespec_to_ptp_format (cf_time64 cfg) ts @ [0, 3, 0, 0x1c, 0, 0x80, 0xc2, 0, 0, 1] @ replicate 22 0", folded w2, folded p2_def]
  have m: "message_minimum 0x10 = 44" "message_minimum 0x18 = 76" by code_simp+
  have k1: "length p1 = 44" "header_of p1 = h1\<lparr>hd_version := or (push_bit 4 v) 2, hd_reserved1 := 0, hd_reserved2 := replicate 4 0, hd_controlfield := 0\<rparr>"
    "ptp_message_bounded_length (Some p1) (length p1) = length p1"
    using g1(1-3) f1(1,2) m by simp_all
  have k2: "length p2 = 76" "header_of p2 = h2\<lparr>hd_version := or (push_bit 4 v) 2, hd_reserved1 := 0, hd_reserved2 := replicate 4 0, hd_controlfield := 0\<rparr>"
    "ptp_message_bounded_length (Some p2) (length p2) = length p2"
    "drop 34 p2 = timespec_to_ptp_format (cf_time64 cfg) ts @ [0, 3, 0, 0x1c, 0, 0x80, 0xc2, 0, 0, 1] @ replicate 22 0"
    "p2 ! 0 = 0x18" "p2 ! 1 = or (push_bit 4 v) 2" "be16 (p2 ! 2) (p2 ! 3) = 76"
    using g2(1-3,7,4-6) f2(1,2) m by simp_all
  show "length p1 = 44" "length p2 = 76" "ptp_message_bounded_length (Some p1) 44 = 44" "ptp_message_bounded_length (Some p2) 76 = 76"
    using k1 k2 by simp_all
  show "slice 34 10 p2 = timespec_to_ptp_format (cf_time64 cfg) ts"
    by (simp add: slice_after [of 34 34] k2(4) slice_first)
  have "slice 44 10 p2 = [0, 3, 0, 0x1c, 0, 0x80, 0xc2, 0, 0, 1]"
    by (simp add: slice_after [of 34 44] k2(4) slice_past) (simp add: slice_def)
  then show "ptp_timing_payload_valid (Some p2) 76"
    using k2(5-7) by (simp add: ptp_timing_payload_valid_def PTP_TIMING_FOLLOW_UP_SIZE_def version_nibble)
  show "hd_messagetype (header_of p1) = 0x10" "hd_messagetype (header_of p2) = 0x18"
    "and (hd_flags (header_of p1) ! 0) PTP_FLAGS0_TWOSTEP \<noteq> 0"
    "same_source_port (header_of p1) own" "same_source_port (header_of p2) own"
    "hd_logmessageinterval (header_of p1) = interval_octet (cf_sync_interval_ms cfg)"
    using f1 f2 by (simp_all add: k1(2) k2(2) same_source_port_def PTP_FLAGS0_TWOSTEP_def)
  show "ptp_get_sequence (header_of p1) = s" "ptp_get_sequence (header_of p2) = s"
    using f1(3) f2(3) by (auto simp: k1(2) k2(2) intro: sequence_of_octets)
qed

text \<open>C10. A Sync and its Follow\_Up, from the daemon that sends them to the one that follows it.
  Both are well-formed messages for the receiver; the Sync opens the two-step wait there with its
  time of arrival, and the Follow\_Up that arrives within a second completes it and carries
  exactly the time at which the Sync left.\<close>

theorem sync_pair_completes:
  fixes d e :: ptp_daemon and ce :: ptp_config and env' :: clock_env and mono_ts :: timespec and now1 :: int
  defines "own \<equiv> an_header (st_own_identity (dm_state d))"
  assumes "dm_gptp d" "cf_gptp_profile cfg" "header_wf own" "hd_messagelength own ! 0 = 0"
    and "length (lk_intf_hw_addr (po_link (port_at d 0))) = 6" "te_write_ret tx > 0" "te_stamp tx = Some ts"
    and "stamp_ok ts" "0 \<le> tv_sec ts" "tv_sec ts < 2 ^ 32" "ptp_send_sync cfg d env tx tx' = (ret, d', sent)"
    and "0 < num_ports e" "dm_gptp e" "same_source_port own (an_header (so_selected_source (dm_source e)))"
    and "ptp_sync_receipt_interval (sint (interval_octet (cf_sync_interval_ms cfg))) \<noteq> 0"
    and "now1 \<le> now2" "now2 \<le> now1 + 1000000"
  shows "\<exists>p1 p2. map (\<lambda>t. drop 14 (tx_frame t)) sent = [p1, p2] \<and>
    ptp_message_bounded_length (Some p1) (length p1) = 44 \<and> ptp_message_bounded_length (Some p2) (length p2) = 76 \<and>
    (let (ok, e') = ptp_process_sync ce e (sync_of p1) mono_ts now1 env' in
      ok \<and> ts_twostep_rxtime (po_sync (port_at e' 0)) = rx_rxtime (po_rx (port_at e 0)) \<and>
      follow_up_completes e' p2 now2 \<and> ptp_format_to_timespec (slice 34 10 p2) = ts)"
proof -
  define s where "s = st_sync_seq (dm_state d) + 1"
  define f where "f = map_state (\<lambda>u. u\<lparr>st_sync_seq := s\<rparr>) d"
  define v where "v = ptp_tx_minor_version (port_at d 0)"
  define w1 where "w1 = sync_bytes \<lparr>sy_header = sync_header cfg f s, sy_origintimestamp = timespec_to_ptp_format (cf_time64 cfg) (read_clock f env)\<rparr>"
  define w2 where "w2 = follow_up_bytes (sync_follow_up cfg f s ts)"
  have f: "dm_gptp f" "st_own_identity (dm_state f) = st_own_identity (dm_state d)" "port_at f 0 = port_at d 0"
    using assms(2) by (simp_all add: f_def port_at_def ptp_is_gptp_def)
  obtain t1 where t1: "ptp_net_send cfg f w1 True tx = (te_write_ret tx, Some ts, Some t1)"
    "drop 14 (tx_frame t1) = ptp_gptp_wire_normalize w1 (length w1) True v"
    using send_gptp(1) [OF f(1), of cfg w1 tx] assms(6-8) by (auto simp: f(3) v_def)
  obtain t2 r where t2: "ptp_net_send cfg f w2 False tx' = (r, None, Some t2)"
    "drop 14 (tx_frame t2) = ptp_gptp_wire_normalize w2 (length w2) True v"
    using send_gptp(2) [OF f(1), of cfg w2 tx'] assms(6) by (auto simp: f(3) v_def)
  have sent: "sent = [t1, t2]"
    using assms(3,7,12) t1(1) t2(1) by (simp add: ptp_send_sync_def Let_def f_def s_def w1_def w2_def)
  define p1 where "p1 = ptp_gptp_wire_normalize w1 (length w1) True v"
  define p2 where "p2 = ptp_gptp_wire_normalize w2 (length w2) True v"
  have own: "own = an_header (st_own_identity (dm_state f))" by (simp add: own_def f(2))
  note p = sync_payloads [OF own f(1) assms(4,5,3) w1_def w2_def p1_def p2_def]
  define e' where "e' = snd (ptp_process_sync ce e (sync_of p1) mono_ts now1 env')"
  have src: "same_source_port (header_of p1) (an_header (so_selected_source (dm_source e)))"
    "same_source_port (header_of p2) (header_of p1)"
    using p(10,11) assms(15) by (simp_all add: same_source_port_def)
  have e': "ptp_process_sync ce e (sync_of p1) mono_ts now1 env' = (True, e')" "dm_gptp e'"
    "ts_twostep_rxtime (po_sync (port_at e' 0)) = rx_rxtime (po_rx (port_at e 0))" "ts_twostep_pending (po_sync (port_at e' 0))"
    "ts_twostep_packet (po_sync (port_at e' 0)) = sync_of p1" "ts_twostep_received_us (po_sync (port_at e' 0)) = now1"
    using src(1) p(9) assms(13,14) by (simp_all add: e'_def ptp_process_sync_def sync_of_def Let_def)
  have "ptp_format_to_timespec (slice 34 10 p2) = ts"
    unfolding p(6) using assms(9-11) by (auto simp: stamp_ok_def intro!: ptp_format_back)
  moreover have "follow_up_completes e' p2 now2"
    using e' src(2) p(5,12,13,14) assms(16-18) by (simp add: follow_up_completes_def Let_def sync_of_def)
  ultimately show ?thesis
    using sent t1(2) t2(2) p(1-4) e'(1,3) by (simp add: p1_def [symmetric] p2_def [symmetric])
qed

definition following_example :: ptp_daemon where
  "following_example = map_source (\<lambda>s. s\<lparr>so_selected_source := (so_selected_source s)\<lparr>
     an_header := an_header (st_own_identity (dm_state clock_example))\<rparr>\<rparr>) responder_example"

theorem sync_pair_completes_witness:
  "\<exists>p1 p2. map (\<lambda>t. drop 14 (tx_frame t)) (snd (snd (ptp_send_sync config_default clock_example hw_env_example
       tx_env_example tx_env_example))) = [p1, p2] \<and>
    follow_up_completes (snd (ptp_process_sync config_default following_example (sync_of p1) timespec_zero 5 hw_env_example)) p2 900 \<and>
    ptp_format_to_timespec (slice 34 10 p2) = \<lparr>tv_sec = 70, tv_nsec = 900\<rparr>"
proof -
  have h: "dm_gptp clock_example" "cf_gptp_profile config_default"
    "header_wf (an_header (st_own_identity (dm_state clock_example)))"
    "hd_messagelength (an_header (st_own_identity (dm_state clock_example))) ! 0 = 0"
    "length (lk_intf_hw_addr (po_link (port_at clock_example 0))) = 6" "te_write_ret tx_env_example > 0"
    "te_stamp tx_env_example = Some \<lparr>tv_sec = 70, tv_nsec = 900\<rparr>"
    "0 < num_ports following_example" "dm_gptp following_example"
    "same_source_port (an_header (st_own_identity (dm_state clock_example))) (an_header (so_selected_source (dm_source following_example)))"
    "ptp_sync_receipt_interval (sint (interval_octet (cf_sync_interval_ms config_default))) \<noteq> 0"
    by code_simp+
  obtain ret e sent where q: "ptp_send_sync config_default clock_example hw_env_example tx_env_example tx_env_example = (ret, e, sent)"
    by (rule prod_cases3)
  show ?thesis
    using sync_pair_completes [OF h(1-7) _ _ _ q h(8-11), of 5 900 config_default timespec_zero hw_env_example]
    by (auto simp: q stamp_ok_def split_beta)
qed

section \<open>The endpoint beacon and the outstanding delay request\<close>

text \<open>C38. The endpoint beacon takes its sequence number from the counter of the delay requests:
  a Delay\_Resp that answers the outstanding request is no longer recognised once a beacon was
  sent, whatever the network made of the beacon.\<close>

theorem beacon_orphans_delay_resp:
  assumes "delay_resp_for_us d msg" "ptp_send_endpoint_beacon cfg d tx = (ret, d', out)"
  shows "\<not> delay_resp_for_us d' msg \<and> (\<not> dm_gptp d \<longrightarrow> ptp_process_delay_resp cfg d' msg now_us raw = Some d')"
proof -
  have "st_delay_req_seq (dm_state d') = st_delay_req_seq (dm_state d) + 1" "dm_gptp d' = dm_gptp d"
    using assms(2) by (auto simp: ptp_send_endpoint_beacon_def Let_def split_beta ptp_is_gptp_def)
  then show ?thesis
    using assms(1) by (simp add: delay_resp_for_us_def ptp_process_delay_resp_def)
qed

definition answer_example :: ptp_delay_resp where
  "answer_example = delay_resp_of (replicate 54 0)"

definition awaiting_example :: ptp_daemon where
  "awaiting_example = map_state (\<lambda>s. s\<lparr>st_source := (st_source s)\<lparr>so_selected_source_valid := True\<rparr>\<rparr>) (daemon_zero 1)"

theorem beacon_orphans_delay_resp_witness:
  "delay_resp_for_us awaiting_example answer_example \<and>
   \<not> delay_resp_for_us (fst (snd (ptp_send_endpoint_beacon config_default awaiting_example tx_env_example))) answer_example"
proof -
  have h: "delay_resp_for_us awaiting_example answer_example" by code_simp
  obtain r e out where q: "ptp_send_endpoint_beacon config_default awaiting_example tx_env_example = (r, e, out)"
    by (rule prod_cases3)
  show ?thesis using beacon_orphans_delay_resp [OF h q] h by (simp add: q)
qed

end
