(* ===== verification/Ptp_Periodic.thy ===== *)
theory Ptp_Periodic
  imports Ptp_Send Ptp_Inject
begin

text \<open>
  One round of periodic transmission (\<^verbatim>\<open>ptp_periodic_send\<close> of \<^verbatim>\<open>ptp.c\<close>): capability messages on the
  wired and the radio ports, the time transmitter's Announce and Sync, the broadcast element and the
  relayed Announce of the radio ports, and the endpoint beacon.

  The readings of the clocks, the answers of the network and of the radio driver during the round
  are the record \<open>periodic_env\<close>, what leaves the daemon is a list of \<open>emission\<close>s.  The two
  probe builds (interval and path) are left out.
\<close>

section \<open>Environment\<close>

record ptp_wifi_capable_result =
  wr_port_index :: int
  wr_destination :: bytes
  wr_generation :: u32
  wr_association :: u32
  wr_token :: u32
  wr_completed_us :: int
  wr_accepted :: bool

text \<open>Functions of a port (and of a slot) hold one reading or answer each.\<close>

record periodic_env =
  pv_results :: "ptp_wifi_capable_result list"
  pv_wired_us :: int
  pv_wired_done_us :: int
  pv_wired_tx :: tx_env
  pv_slot_us :: "nat \<Rightarrow> nat \<Rightarrow> int"
  pv_slot_ok :: "nat \<Rightarrow> nat \<Rightarrow> bool"
  pv_capable_us :: int
  pv_neighbor_us :: int
  pv_clock :: clock_env
  pv_server_ts :: timespec
  pv_announce_tx :: tx_env
  pv_sync_tx :: tx_env
  pv_follow_up_tx :: tx_env
  pv_egress_ts :: "nat \<Rightarrow> timespec"
  pv_relay_ts :: "nat \<Rightarrow> timespec"
  pv_beacon_ts :: timespec
  pv_beacon_tx :: tx_env

datatype emission =
    Wire transmission
  | Radio_capable nat bytes u32 u32 u32 bytes
  | Radio_sync nat bytes
  | Radio_announce nat bytes

section \<open>Capability messages\<close>

definition capable_message :: "ptp_config \<Rightarrow> bytes \<Rightarrow> u16 \<Rightarrow> int \<Rightarrow> bytes option" where
  "capable_message cfg source_port sequence interval =
     ptp_signaling_write_capable PTP_CAPABLE_MESSAGE_LENGTH (Some source_port) (cf_domain cfg) sequence interval"

definition capable_completion :: "ptp_config \<Rightarrow> ptp_wifi_capable_result \<Rightarrow> ptp_daemon \<Rightarrow> ptp_daemon" where
  "capable_completion cfg r d =
     (let i = nat (wr_port_index r) in
      if \<not> valid_port cfg (wr_port_index r) \<or>
         wr_generation r \<noteq> ptp_wifi_link_generation cfg (dm_injected_generation d) (wr_port_index r) then d
      else if pg_wifi_mode (po_config (port_at d i)) = ptp_port_wifi_mode_ap then
        map_port i (\<lambda>p. p\<lparr>po_capable := (po_capable p)\<lparr>pk_wifi_peers :=
          snd (ptp_wifi_peers_sent (pk_wifi_peers (po_capable p)) (Some (wr_destination r)) (wr_association r)
                 (wr_token r) (wr_accepted r) (wr_completed_us r))\<rparr>\<rparr>) d
      else if pg_wifi_mode (po_config (port_at d i)) = ptp_port_wifi_mode_sta then
        map_port i (\<lambda>p. p\<lparr>po_capable := (po_capable p)\<lparr>pk_wifi_neighbor :=
          snd (ptp_wifi_neighbor_sent (pk_wifi_neighbor (po_capable p)) (Some (wr_destination r)) (wr_association r)
                 (wr_token r) (wr_accepted r) (wr_completed_us r))\<rparr>\<rparr>) d
      else d)"

definition ptp_wifi_capable_completions ::
  "ptp_config \<Rightarrow> ptp_daemon \<Rightarrow> ptp_wifi_capable_result list \<Rightarrow> ptp_daemon" where
  "ptp_wifi_capable_completions cfg d results =
     fold (capable_completion cfg) (take (PTP_WIFI_PEERS_MAX * cf_num_ports cfg) results) d"

text \<open>One slot of an access point: the schedule decides, the radio is asked, a refusal is noted.\<close>

definition ap_capable_slot ::
  "ptp_config \<Rightarrow> nat \<Rightarrow> bool \<Rightarrow> periodic_env \<Rightarrow> nat \<Rightarrow> ptp_daemon \<Rightarrow> ptp_daemon \<times> emission list" where
  "ap_capable_slot cfg index enabled env slot d =
     (let generation = ptp_wifi_link_generation cfg (dm_injected_generation d) (int index);
          now_us = pv_slot_us env index slot;
          peers = pk_wifi_peers (po_capable (port_at d index));
          peer = ws_entries peers ! slot;
          (token, transmit) = ptp_capable_schedule_begin (wp_transmit peer)
             (enabled \<and> ptp_wifi_peers_publishable (cf_ap_via_coprocessor cfg) peers \<and> wp_associated peer) now_us;
          peer = peer\<lparr>wp_transmit := transmit\<rparr>;
          peers = update_entry peers slot peer;
          set_peers = (\<lambda>ws d. map_port index (\<lambda>p. p\<lparr>po_capable := (po_capable p)\<lparr>pk_wifi_peers := ws\<rparr>\<rparr>) d);
          d = set_peers peers d
      in if token = 0 then (d, [])
         else
           let logical_port = ptp_wifi_association_port (index + 1) (cf_num_ports cfg) slot;
               source_port = hd_sourceidentity (an_header (st_own_identity (dm_state d))) @ octets 2 (int logical_port);
               refused = set_peers (snd (ptp_wifi_peers_sent peers (Some (wp_mac peer)) (wp_association peer) token False now_us)) d
           in case capable_message cfg source_port (cs_sequence transmit) (cs_advertised_interval transmit) of
                None \<Rightarrow> (refused, [])
              | Some message \<Rightarrow>
                  (if pv_slot_ok env index slot then d else refused,
                   [Radio_capable index (wp_mac peer) generation (wp_association peer) token message]))"

fun ap_capable_slots ::
  "ptp_config \<Rightarrow> nat \<Rightarrow> bool \<Rightarrow> periodic_env \<Rightarrow> nat list \<Rightarrow> ptp_daemon \<Rightarrow> ptp_daemon \<times> emission list" where
  "ap_capable_slots cfg index enabled env [] d = (d, [])"
| "ap_capable_slots cfg index enabled env (slot # slots) d =
     (let (d, out) = ap_capable_slot cfg index enabled env slot d;
          (d, rest) = ap_capable_slots cfg index enabled env slots d
      in (d, out @ rest))"

definition ptp_wifi_ap_capable_send ::
  "ptp_config \<Rightarrow> ptp_daemon \<Rightarrow> nat \<Rightarrow> bool \<Rightarrow> periodic_env \<Rightarrow> ptp_daemon \<times> emission list" where
  "ptp_wifi_ap_capable_send cfg d index enabled env = ap_capable_slots cfg index enabled env [0..<PTP_WIFI_PEERS_MAX] d"

definition ptp_wifi_sta_capable_send ::
  "ptp_config \<Rightarrow> ptp_daemon \<Rightarrow> nat \<Rightarrow> bool \<Rightarrow> periodic_env \<Rightarrow> ptp_daemon \<times> emission list" where
  "ptp_wifi_sta_capable_send cfg d index enabled env =
     (let generation = ptp_wifi_link_generation cfg (dm_injected_generation d) (int index);
          now_us = pv_slot_us env index 0;
          neighbor = pk_wifi_neighbor (po_capable (port_at d index));
          (token, transmit) = ptp_capable_schedule_begin (wn_transmit neighbor) (enabled \<and> wn_associated neighbor) now_us;
          neighbor = neighbor\<lparr>wn_transmit := transmit\<rparr>;
          set_neighbor = (\<lambda>n d. map_port index (\<lambda>p. p\<lparr>po_capable := (po_capable p)\<lparr>pk_wifi_neighbor := n\<rparr>\<rparr>) d);
          d = set_neighbor neighbor d
      in if token = 0 then (d, [])
         else
           let source_port = hd_sourceidentity (an_header (st_own_identity (dm_state d))) @ octets 2 (int (index + 1));
               refused = set_neighbor (snd (ptp_wifi_neighbor_sent neighbor (Some (wn_bssid neighbor))
                           (wn_association neighbor) token False now_us)) d
           in case capable_message cfg source_port (cs_sequence transmit) (cs_advertised_interval transmit) of
                None \<Rightarrow> (refused, [])
              | Some message \<Rightarrow>
                  (if pv_slot_ok env index 0 then d else refused,
                   [Radio_capable index (wn_bssid neighbor) generation (wn_association neighbor) token message]))"

text \<open>Nothing comes between the two critical sections of the source here.\<close>

definition ptp_wired_capable_send :: "ptp_config \<Rightarrow> ptp_daemon \<Rightarrow> periodic_env \<Rightarrow> ptp_daemon \<times> emission list" where
  "ptp_wired_capable_send cfg d env =
     (let p = port_at d 0;
          lifecycle = px_lifecycle (po_peer_exchange p);
          identity = (if pr_anchored (po_peer_rate p) \<and> pr_lifecycle (po_peer_rate p) = lifecycle
                      then Some (pr_responder (po_peer_rate p)) else None);
          wired = ptp_wired_capable_bind (pk_wired_capable (po_capable p)) lifecycle identity;
          enabled = (dm_gptp d \<and> pg_enabled (po_config p) \<and> lk_link_up (po_link p) \<and> lk_socket_open (po_link p));
          (token, transmit) = ptp_capable_schedule_begin (wc_transmit wired) enabled (pv_wired_us env);
          set_transmit = (\<lambda>t d. map_port 0 (\<lambda>p. p\<lparr>po_capable := (po_capable p)\<lparr>pk_wired_capable := wired\<lparr>wc_transmit := t\<rparr>\<rparr>\<rparr>) d);
          d = set_transmit transmit d
      in if token = 0 then (d, [])
         else
           let h = an_header (st_own_identity (dm_state d));
               source_port = hd_sourceidentity h @ hd_sourceportindex h;
               (accepted, out) =
                 (case capable_message cfg source_port (cs_sequence transmit) (cs_advertised_interval transmit) of
                    None \<Rightarrow> (False, [])
                  | Some message \<Rightarrow>
                      (case ptp_net_send cfg d message False (pv_wired_tx env) of
                         (ret, _, t) \<Rightarrow> (ret > 0, case t of None \<Rightarrow> [] | Some t \<Rightarrow> [Wire t])))
           in (set_transmit (snd (ptp_capable_schedule_finish transmit token accepted (pv_wired_done_us env))) d, out))"

definition radio_capable_port ::
  "ptp_config \<Rightarrow> periodic_env \<Rightarrow> nat \<Rightarrow> ptp_daemon \<Rightarrow> ptp_daemon \<times> emission list" where
  "radio_capable_port cfg env index d =
     (let c = po_config (port_at d index) in
      if pg_medium c \<noteq> ptp_port_medium_wifi_ftm then (d, [])
      else
        let enabled = (dm_gptp d \<and> pg_enabled c \<and> lk_link_up (po_link (port_at d index)) \<and>
                       (pg_wifi_mode c = ptp_port_wifi_mode_ap \<or> pg_wifi_mode c = ptp_port_wifi_mode_sta))
        in if pg_wifi_mode c = ptp_port_wifi_mode_ap then ptp_wifi_ap_capable_send cfg d index enabled env
           else ptp_wifi_sta_capable_send cfg d index enabled env)"

text \<open>A loop over the ports that threads the state and collects what is sent.\<close>

fun each_port :: "(nat \<Rightarrow> ptp_daemon \<Rightarrow> ptp_daemon \<times> emission list) \<Rightarrow> nat list \<Rightarrow> ptp_daemon \<Rightarrow> ptp_daemon \<times> emission list" where
  "each_port f [] d = (d, [])"
| "each_port f (i # ports) d =
     (let (d, out) = f i d; (d, rest) = each_port f ports d in (d, out @ rest))"

section \<open>The time transmitter\<close>

definition sync_interval :: "ptp_config \<Rightarrow> timespec" where
  "sync_interval cfg = \<lparr>tv_sec = cf_sync_interval_ms cfg sdiv 1000,
                        tv_nsec = (cf_sync_interval_ms cfg smod 1000) * 1000000\<rparr>"

text \<open>When a Sync is due at \<open>time_now\<close>, the time of the grid it is accounted to.\<close>

definition sync_due :: "ptp_config \<Rightarrow> timespec \<Rightarrow> timespec \<Rightarrow> timespec option" where
  "sync_due cfg sent time_now =
     (let delta = timespec_to_ms (timespecsub time_now sent) in
      if delta > cf_sync_interval_ms cfg then
        Some (if delta > 2 * cf_sync_interval_ms cfg then time_now else timespecadd sent (sync_interval cfg))
      else None)"

definition transmits_time :: "ptp_config \<Rightarrow> ptp_daemon \<Rightarrow> periodic_env \<Rightarrow> bool" where
  "transmits_time cfg d env \<longleftrightarrow>
     (cf_server cfg \<or> cf_gptp_profile cfg) \<and>
     \<not> so_selected_source_valid (dm_source d) \<and> pg_enabled (po_config (port_at d 0)) \<and>
     pg_medium (po_config (port_at d 0)) = ptp_port_medium_eth_hwts \<and> lk_socket_open (po_link (port_at d 0)) \<and>
     (\<not> dm_gptp d \<or> ptp_wired_capability cfg d (pv_capable_us env) (pv_neighbor_us env))"

definition set_sent :: "nat \<Rightarrow> (ptp_port_sent \<Rightarrow> ptp_port_sent) \<Rightarrow> ptp_daemon \<Rightarrow> ptp_daemon" where
  "set_sent i f d = map_port i (\<lambda>p. p\<lparr>po_sent := f (po_sent p)\<rparr>) d"

definition server_announce :: "ptp_config \<Rightarrow> periodic_env \<Rightarrow> ptp_daemon \<Rightarrow> ptp_daemon \<times> emission list" where
  "server_announce cfg env d =
     (if timespec_to_ms (timespecsub (pv_server_ts env) (pt_last_transmitted_announce (po_sent (port_at d 0))))
           > cf_announce_interval_ms cfg then
        let d = set_sent 0 (\<lambda>s. s\<lparr>pt_last_transmitted_announce := pv_server_ts env\<rparr>) d;
            (_, d, out) = ptp_send_announce cfg d (pv_clock env) (pv_announce_tx env)
        in (d, case out of None \<Rightarrow> [] | Some t \<Rightarrow> [Wire t])
      else (d, []))"

definition server_sync :: "ptp_config \<Rightarrow> periodic_env \<Rightarrow> ptp_daemon \<Rightarrow> ptp_daemon \<times> emission list" where
  "server_sync cfg env d =
     (case sync_due cfg (pt_last_transmitted_sync (po_sent (port_at d 0))) (pv_server_ts env) of
        None \<Rightarrow> (d, [])
      | Some grid \<Rightarrow>
          if \<not> dm_gptp d \<or> an_btc_priority1 (st_own_identity (dm_state d)) < 255 then
            let d = set_sent 0 (\<lambda>s. s\<lparr>pt_last_transmitted_sync := grid\<rparr>) d;
                (_, d, out) = ptp_send_sync cfg d (pv_clock env) (pv_sync_tx env) (pv_follow_up_tx env)
            in (d, map Wire out)
          else (d, []))"

definition server_send :: "ptp_config \<Rightarrow> periodic_env \<Rightarrow> ptp_daemon \<Rightarrow> ptp_daemon \<times> emission list" where
  "server_send cfg env d =
     (if transmits_time cfg d env then
        let (d, out) = server_announce cfg env d; (d, out') = server_sync cfg env d in (d, out @ out')
      else (d, []))"

section \<open>Radio ports\<close>

definition radio_sync_port :: "ptp_config \<Rightarrow> periodic_env \<Rightarrow> nat \<Rightarrow> ptp_daemon \<Rightarrow> ptp_daemon \<times> emission list" where
  "radio_sync_port cfg env i d =
     (let p = port_at d i;
          priority1 = (if so_selected_source_valid (dm_source d) then an_btc_priority1 (so_selected_source (dm_source d))
                       else an_btc_priority1 (st_own_identity (dm_state d)))
      in if \<not> pg_enabled (po_config p) then (d, [])
         else if dm_gptp d \<and> priority1 = 255 then (d, [])
         else if pg_medium (po_config p) \<noteq> ptp_port_medium_wifi_ftm then (d, [])
         else if \<not> lk_sync_egress_cb (po_link p) then (d, [])
         else if timespec_to_ms (timespecsub (pv_egress_ts env i) (pt_last_transmitted_sync (po_sent p)))
                   \<le> cf_sync_interval_ms cfg then (d, [])
         else
           let d = set_sent i (\<lambda>s. s\<lparr>pt_last_transmitted_sync := pv_egress_ts env i\<rparr>) d;
               (fu, state) = ptp_marshal_follow_up_for_beacon_ie cfg (dm_state d) (read_clock d (pv_clock env)) (int i)
           in (d\<lparr>dm_state := state\<rparr>, [Radio_sync i fu]))"

text \<open>The Announce of an access point: the selected source's one step further, or the own one.  None:
  there is none to send.\<close>

definition relay_body :: "ptp_config \<Rightarrow> ptp_daemon \<Rightarrow> nat \<Rightarrow> timespec \<Rightarrow> ptp_announce option" where
  "relay_body cfg d i ts =
     (let own = st_own_identity (dm_state d);
          source = so_selected_source (dm_source d);
          steps = be16 (an_stepsremoved source ! 0) (an_stepsremoved source ! 1);
          selected = so_selected_source_valid (dm_source d)
      in if selected \<and> steps = 65535 then None
         else
           let msg = (if selected then source\<lparr>an_stepsremoved := octets 2 (int (steps + 1))\<rparr> else own);
               h = an_header msg
           in Some (msg\<lparr>an_header := h\<lparr>hd_sourceidentity := hd_sourceidentity (an_header own),
                hd_sourceportindex := octets 2 (int (i + 1)),
                hd_messagetype := (if dm_gptp d then or PTP_MSGTYPE_ANNOUNCE PTP_MSGTYPE_SDOID_GPTP else PTP_MSGTYPE_ANNOUNCE),
                hd_messagelength := (hd_messagelength h)[1 := 76],
                hd_logmessageinterval := interval_octet (cf_announce_interval_ms cfg),
                hd_flags := (if dm_gptp d then (hd_flags h)[1 := PTP_FLAGS1_PTP_TIMESCALE] else hd_flags h)\<rparr>,
              an_origintimestamp := timespec_to_ptp_format (cf_time64 cfg) ts\<rparr>))"

text \<open>The path goes on from the known one; an unknown path stays unknown.\<close>

definition relay_path :: "ptp_daemon \<Rightarrow> bytes option" where
  "relay_path d =
     (let selected = so_selected_source_valid (dm_source d);
          path = (if selected then so_selected_path (dm_source d) else [])
      in if \<not> selected \<or> path \<noteq> []
         then ptp_path_trace_write (4 + PTP_PATH_TRACE_MAX_CLOCKS * 8) path
                (hd_sourceidentity (an_header (st_own_identity (dm_state d))))
         else Some [])"

definition relay_announce :: "ptp_config \<Rightarrow> ptp_daemon \<Rightarrow> nat \<Rightarrow> timespec \<Rightarrow> bytes option" where
  "relay_announce cfg d i ts =
     (case (relay_body cfg d i ts, relay_path d) of
        (Some msg, Some tlv) \<Rightarrow>
          (let wire_length = PTP_ANNOUNCE_BODY_LENGTH + length tlv;
               wire = splice 2 (octets 2 (int wire_length)) (take PTP_ANNOUNCE_BODY_LENGTH (announce_bytes msg) @ tlv)
           in Some (ptp_gptp_wire_normalize wire wire_length (dm_gptp d) (ptp_tx_minor_version (port_at d i))))
      | _ \<Rightarrow> None)"

definition publish_ms :: "ptp_config \<Rightarrow> int" where
  "publish_ms cfg = (let ms = cf_announce_interval_ms cfg sdiv 4; ms = (if ms < 1 then 1 else ms) in if ms > 125 then 125 else ms)"

definition radio_announce_port :: "ptp_config \<Rightarrow> periodic_env \<Rightarrow> nat \<Rightarrow> ptp_daemon \<Rightarrow> ptp_daemon \<times> emission list" where
  "radio_announce_port cfg env i d =
     (let p = port_at d i in
      if \<not> pg_enabled (po_config p) \<or> pg_medium (po_config p) \<noteq> ptp_port_medium_wifi_ftm \<or>
         pg_wifi_mode (po_config p) \<noteq> ptp_port_wifi_mode_ap then (d, [])
      else if timespec_to_ms (timespecsub (pv_relay_ts env i) (pt_last_transmitted_announce (po_sent p))) < publish_ms cfg
      then (d, [])
      else
        let d = set_sent i (\<lambda>s. s\<lparr>pt_last_transmitted_announce := pv_relay_ts env i\<rparr>) d
        in case relay_announce cfg d i (read_clock d (pv_clock env)) of
             None \<Rightarrow> (d, [])
           | Some wire \<Rightarrow> (d, [Radio_announce i wire]))"

section \<open>The round\<close>

definition beacon_send :: "ptp_config \<Rightarrow> periodic_env \<Rightarrow> ptp_daemon \<Rightarrow> ptp_daemon \<times> emission list" where
  "beacon_send cfg env d =
     (let last = pt_last_endpoint_beacon (po_sent (port_at d 0)) in
      if st_gptp_fallback_done (dm_state d) \<and> st_active_ptp_profile (dm_state d) = ptp_profile_standard \<and>
         pg_enabled (po_config (port_at d 0)) \<and> pg_medium (po_config (port_at d 0)) = ptp_port_medium_eth_hwts \<and>
         lk_socket_open (po_link (port_at d 0)) \<and>
         (tv_sec last = 0 \<or> timespec_to_ms (timespecsub (pv_beacon_ts env) last) \<ge> 3000) then
        let (_, d, out) = ptp_send_endpoint_beacon cfg d (pv_beacon_tx env)
        in (set_sent 0 (\<lambda>s. s\<lparr>pt_last_endpoint_beacon := pv_beacon_ts env\<rparr>) d, case out of None \<Rightarrow> [] | Some t \<Rightarrow> [Wire t])
      else (d, []))"

definition ptp_periodic_send :: "ptp_config \<Rightarrow> ptp_daemon \<Rightarrow> periodic_env \<Rightarrow> ptp_daemon \<times> emission list" where
  "ptp_periodic_send cfg d env =
     (let ports = [0..<cf_num_ports cfg];
          (d, wired) = (if pg_medium (po_config (port_at d 0)) = ptp_port_medium_eth_hwts
                        then ptp_wired_capable_send cfg d env else (d, []));
          d = ptp_wifi_capable_completions cfg d (pv_results env);
          (d, capable) = each_port (radio_capable_port cfg env) ports d;
          (d, server) = server_send cfg env d;
          (d, sync) = each_port (radio_sync_port cfg env) ports d;
          (d, announce) = each_port (radio_announce_port cfg env) ports d;
          (d, beacon) = beacon_send cfg env d
      in (d, wired @ capable @ server @ sync @ announce @ beacon))"

definition ptpd_register_sync_egress_cb ::
  "ptp_config \<Rightarrow> ptp_daemon \<Rightarrow> int \<Rightarrow> bool \<Rightarrow> (ptp_errno, unit) sum \<times> ptp_daemon" where
  "ptpd_register_sync_egress_cb cfg d port_index cb =
     (if \<not> valid_port cfg port_index then (Inl EINVAL, d)
      else if \<not> dm_running d then (Inl ESRCH, d)
      else (Inr (), map_port (nat port_index) (\<lambda>p. p\<lparr>po_link := (po_link p)\<lparr>lk_sync_egress_cb := cb\<rparr>\<rparr>) d))"


section \<open>The relayed Announce\<close>

lemma normalize_announce:
  fixes w :: bytes and v :: u8 and g :: bool
  assumes "64 \<le> length w" "and (w ! 0) 15 = 11"
  defines "p \<equiv> ptp_gptp_wire_normalize w (length w) g v"
  shows "length p = length w" "drop 64 p = drop 64 w" "p ! 2 = w ! 2" "p ! 3 = w ! 3" "slice 47 17 p = slice 47 17 w"
    "slice 20 10 p = slice 20 10 w" "and (p ! 0) 15 = 11"
proof -
  define h where "h = normalize_header w v"
  have lh: "length h = length w" using assms(1) by (simp add: h_def)
  have hi: "h ! i = w ! i" if "i < length w" "i \<noteq> 1" "i \<noteq> 5" "i \<notin> {16..<20}" "i \<noteq> 32" for i
    using that assms(1) by (auto simp: h_def nth_normalize_header)
  have p: "p = (if g then (splice 34 (replicate 10 0) h)[46 := 0] else w)"
    using normalize_cases [of "length w" w v] assms(1,2)
    by (simp add: p_def h_def Let_def ptp_gptp_wire_normalize_def [of w _ False])
  show lp: "length p = length w" using lh assms(1) by (simp add: p)
  have pi: "p ! i = w ! i" if "i < length w" "i \<notin> {1, 5, 32, 46}" "i \<notin> {16..<20}" "i \<notin> {34..<44}" for i
    using that hi [of i] lh assms(1) by (auto simp: p nth_splice_other)
  show "drop 64 p = drop 64 w" using lp by (intro nth_equalityI) (auto simp: pi)
  show "slice 47 17 p = slice 47 17 w" "slice 20 10 p = slice 20 10 w"
    using lp assms(1) by (auto intro!: nth_equalityI simp: nth_slice pi)
  show "p ! 2 = w ! 2" "p ! 3 = w ! 3" "and (p ! 0) 15 = 11"
    using assms(1,2) pi [of 0] by (cases w, auto simp: pi)+
qed

lemma path_walk_end: "path_walk m n loc found n = Some (case found of None \<Rightarrow> [] | Some ids \<Rightarrow> ids)"
  by (subst path_walk.simps) simp

lemma slice_of_take: "k + n \<le> m \<Longrightarrow> slice k n (take m xs) = slice k n xs"
  by (simp add: slice_def drop_take min_absorb1)

lemma slice_splice_past:
  "off + length z \<le> k \<Longrightarrow> off + length z \<le> length xs \<Longrightarrow> slice k n (splice off z xs) = slice k n xs"
  by (simp add: splice_def slice_def drop_drop)

lemma slice_of_slice: "a + n \<le> m \<Longrightarrow> slice a n (slice k m xs) = slice (k + a) n xs"
  by (simp add: slice_def drop_take min_absorb1 add.commute)

text \<open>The octets of an Announce that are laid out after the message length.\<close>

lemma announce_wire:
  fixes msg :: ptp_announce and tlv :: bytes
  assumes "announce_wf msg"
  defines "n \<equiv> 64 + length tlv"
  defines "w \<equiv> splice 2 (octets 2 (int n)) (take 64 (announce_bytes msg) @ tlv)"
  shows "length w = n" "w ! 0 = hd_messagetype (an_header msg)" "[w ! 2, w ! 3] = octets 2 (int n)" "drop 64 w = tlv"
    "slice 47 14 w = slice 47 14 (announce_bytes msg)" "slice 61 2 w = an_stepsremoved msg"
    "slice 20 10 w = hd_sourceidentity (an_header msg) @ hd_sourceportindex (an_header msg)"
proof -
  have l: "length (announce_bytes msg) = 76" using assms(1) by (simp add: announce_wf_def announce_bytes_def)
  show lw: "length w = n" using l by (simp add: w_def n_def)
  have s: "slice k j w = slice k j (announce_bytes msg)" if "4 \<le> k" "k + j \<le> 64" for k j
    using that l by (simp add: w_def slice_splice_past slice_within slice_of_take)
  show "slice 47 14 w = slice 47 14 (announce_bytes msg)" by (rule s) simp_all
  have ao: "announce_of (announce_bytes msg) = msg" using assms(1)
    by (simp add: announce_wf_def announce_of_def announce_bytes_def header_of_bytes slice_layout)
  show "slice 61 2 w = an_stepsremoved msg" using s [of 61 2] arg_cong [OF ao, of an_stepsremoved] by (simp add: announce_of_def)
  have "slice 20 8 w = hd_sourceidentity (an_header msg)" "slice 28 2 w = hd_sourceportindex (an_header msg)"
    using s [of 20 8] s [of 28 2] arg_cong [OF ao, of "\<lambda>a. hd_sourceidentity (an_header a)"]
      arg_cong [OF ao, of "\<lambda>a. hd_sourceportindex (an_header a)"] by (simp_all add: announce_of_def header_of_def)
  then show "slice 20 10 w = hd_sourceidentity (an_header msg) @ hd_sourceportindex (an_header msg)"
    using slice_join [of 28 20 8 w 2] by simp
  have "slice 2 2 w = octets 2 (int n)" using l by (simp add: w_def slice_splice)
  then show "[w ! 2, w ! 3] = octets 2 (int n)" using slice_pair [of 2 w] lw by (simp add: n_def)
  show "drop 64 w = tlv" using l by (simp add: w_def splice_def)
  show "w ! 0 = hd_messagetype (an_header msg)"
    using assms(1) l by (simp add: w_def splice_def nth_append announce_bytes_def header_bytes_def)
qed

text \<open>The same after the octets the standard fixes were normalised, with the path the next clock reads.\<close>

lemma announce_payload:
  fixes msg :: ptp_announce and tlv :: bytes and v :: u8 and g :: bool
  assumes "announce_wf msg" "length tlv < 1000" "and (hd_messagetype (an_header msg)) 15 = 11"
  defines "n \<equiv> 64 + length tlv"
  defines "p \<equiv> ptp_gptp_wire_normalize (splice 2 (octets 2 (int n)) (take 64 (announce_bytes msg) @ tlv)) n g v"
  shows "length p = n" "be16 (p ! 2) (p ! 3) = n" "slice 47 14 p = slice 47 14 (announce_bytes msg)"
    "slice 61 2 p = an_stepsremoved msg" "drop 64 p = tlv"
    "slice 20 10 p = hd_sourceidentity (an_header msg) @ hd_sourceportindex (an_header msg)"
proof -
  define w where "w = splice 2 (octets 2 (int n)) (take 64 (announce_bytes msg) @ tlv)"
  note w = announce_wire [OF assms(1), of tlv, folded n_def, folded w_def]
  have "64 \<le> length w" using w(1) by (simp add: n_def)
  note p = normalize_announce [OF this, of g v, unfolded w(1), folded w_def p_def [folded w_def]]
  note p = p [unfolded w(2), OF assms(3)]
  show "length p = n" "drop 64 p = tlv" using p w by simp_all
  show "slice 20 10 p = hd_sourceidentity (an_header msg) @ hd_sourceportindex (an_header msg)" using p(6) w(7) by simp
  show "slice 47 14 p = slice 47 14 (announce_bytes msg)" "slice 61 2 p = an_stepsremoved msg"
    using slice_of_slice [of 0 14 17 47 p] slice_of_slice [of 0 14 17 47 w] slice_of_slice [of 14 2 17 47 p]
      slice_of_slice [of 14 2 17 47 w] p(5) w(5,6) by simp_all
  have "w ! 2 = word_of_nat (n div 256)" "w ! 3 = word_of_nat n" using w(3) by (simp_all add: octets2_nat)
  then show "be16 (p ! 2) (p ! 3) = n" using p(3,4) assms(2) by (simp only: be16_of_nat n_def)
qed

lemma relay_body_fields:
  assumes "so_selected_source_valid (dm_source d)" "announce_wf (so_selected_source (dm_source d))"
    and "length (hd_sourceidentity (an_header (st_own_identity (dm_state d)))) = 8" "relay_body cfg d i ts = Some msg"
  shows "announce_wf msg" "and (hd_messagetype (an_header msg)) 15 = 11"
    "an_stepsremoved msg = octets 2 (int (be16 (an_stepsremoved (so_selected_source (dm_source d)) ! 0)
       (an_stepsremoved (so_selected_source (dm_source d)) ! 1) + 1))"
    "hd_sourceidentity (an_header msg) = hd_sourceidentity (an_header (st_own_identity (dm_state d)))"
    "hd_sourceportindex (an_header msg) = octets 2 (int (i + 1))"
    "slice 47 14 (announce_bytes msg) = slice 47 14 (announce_bytes (so_selected_source (dm_source d)))"
proof -
  define src where "src = so_selected_source (dm_source d)"
  define m where "m = relay_body cfg d i ts"
  have wf: "announce_wf src" using assms(2) by (simp add: src_def)
  have e: "an_header msg = (an_header src)\<lparr>hd_sourceidentity := hd_sourceidentity (an_header (st_own_identity (dm_state d))),
       hd_sourceportindex := octets 2 (int (i + 1)),
       hd_messagetype := (if dm_gptp d then or PTP_MSGTYPE_ANNOUNCE PTP_MSGTYPE_SDOID_GPTP else PTP_MSGTYPE_ANNOUNCE),
       hd_messagelength := (hd_messagelength (an_header src))[1 := 76],
       hd_logmessageinterval := interval_octet (cf_announce_interval_ms cfg),
       hd_flags := (if dm_gptp d then (hd_flags (an_header src))[1 := PTP_FLAGS1_PTP_TIMESCALE] else hd_flags (an_header src))\<rparr>"
    "msg = src\<lparr>an_header := an_header msg, an_stepsremoved := octets 2 (int (be16 (an_stepsremoved src ! 0) (an_stepsremoved src ! 1) + 1)),
       an_origintimestamp := timespec_to_ptp_format (cf_time64 cfg) ts\<rparr>"
    using assms(1,4) by (auto simp: relay_body_def Let_def src_def split: if_splits)
  have hw: "header_wf (an_header msg)"
    using wf assms(3) by (simp add: e(1) announce_wf_def header_wf_def)
  show "announce_wf msg" using wf hw by (subst e(2)) (simp add: announce_wf_def)
  show "and (hd_messagetype (an_header msg)) 15 = 11"
    by (simp add: e(1) PTP_MSGTYPE_ANNOUNCE_def PTP_MSGTYPE_SDOID_GPTP_def)
  show "hd_sourceidentity (an_header msg) = hd_sourceidentity (an_header (st_own_identity (dm_state d)))"
    "hd_sourceportindex (an_header msg) = octets 2 (int (i + 1))" by (simp_all add: e(1))
  show "an_stepsremoved msg = octets 2 (int (be16 (an_stepsremoved (so_selected_source (dm_source d)) ! 0)
       (an_stepsremoved (so_selected_source (dm_source d)) ! 1) + 1))" by (subst e(2)) (simp add: src_def)
  show "slice 47 14 (announce_bytes msg) = slice 47 14 (announce_bytes (so_selected_source (dm_source d)))"
    using wf hw by (subst e(2)) (simp add: announce_bytes_def announce_wf_def slice_past slice_Cons flip: src_def,
        simp add: slice_def)
qed

text \<open>C24. A relayed Announce extends the path.  What an access point sends to its stations on
  behalf of the selected source is one hop further from the grandmaster, comes from this clock's
  port, keeps the grandmaster's priorities, quality and identity, and the next clock reads the
  upstream path with this clock appended, unless it is itself on the path, when it rejects the
  message; an upstream path that is not known stays unknown.  Nothing is sent when the hop count is
  exhausted or this clock is on the path already.\<close>

theorem relay_extends_path:
  fixes cfg :: ptp_config and d :: ptp_daemon and i :: nat and ts :: timespec and w :: bytes
  defines "own \<equiv> hd_sourceidentity (an_header (st_own_identity (dm_state d)))"
    and "src \<equiv> so_selected_source (dm_source d)" and "path \<equiv> so_selected_path (dm_source d)"
  defines "steps \<equiv> be16 (an_stepsremoved src ! 0) (an_stepsremoved src ! 1)"
  assumes "so_selected_source_valid (dm_source d)" "announce_wf src" "length own = 8"
    and "length path \<le> PTP_PATH_TRACE_MAX_CLOCKS" "\<forall>c \<in> set path. length c = 8"
  shows "(relay_announce cfg d i ts = None \<longleftrightarrow>
      steps = 65535 \<or> length path = PTP_PATH_TRACE_MAX_CLOCKS \<or> own \<in> set path) \<and>
    (\<forall>wire. relay_announce cfg d i ts = Some wire \<longrightarrow>
      slice 47 14 wire = slice 47 14 (announce_bytes src) \<and> be16 (wire ! 61) (wire ! 62) = steps + 1 \<and>
      slice 20 10 wire = own @ octets 2 (int (i + 1)) \<and> be16 (wire ! 2) (wire ! 3) = length wire \<and>
      (\<forall>next. ptp_path_trace_parse wire (length wire) next =
        (if path = [] then Some [] else if next \<in> insert own (set path) then None else Some (path @ [own]))))"
proof -
  define msg where "msg = the (relay_body cfg d i ts)"
  have b: "relay_body cfg d i ts = (if steps = 65535 then None else Some msg)"
    using assms(5) by (simp add: msg_def relay_body_def Let_def steps_def src_def)
  have t: "relay_path d = (if path = [] then Some [] else ptp_path_trace_write 132 path own)"
    using assms(5) by (simp add: relay_path_def path_def own_def PTP_PATH_TRACE_MAX_CLOCKS_def)
  have wr: "ptp_path_trace_write 132 path own =
      (if length path = PTP_PATH_TRACE_MAX_CLOCKS \<or> own \<in> set path then None
       else Some ([0, 8] @ octets 2 (int ((length path + 1) * 8)) @ concat path @ own))"
    using assms(8) by (auto simp: ptp_path_trace_write_def Let_def PTP_PATH_TRACE_MAX_CLOCKS_def)
  have s65: "steps < 65536" by (simp add: steps_def)
  have none: "relay_announce cfg d i ts = None \<longleftrightarrow> steps = 65535 \<or> length path = PTP_PATH_TRACE_MAX_CLOCKS \<or> own \<in> set path"
    by (auto simp: relay_announce_def b t wr Let_def PTP_PATH_TRACE_MAX_CLOCKS_def split: option.splits)
  have "slice 47 14 wire = slice 47 14 (announce_bytes src) \<and> be16 (wire ! 61) (wire ! 62) = steps + 1 \<and>
      slice 20 10 wire = own @ octets 2 (int (i + 1)) \<and> be16 (wire ! 2) (wire ! 3) = length wire \<and>
      (\<forall>next. ptp_path_trace_parse wire (length wire) next =
        (if path = [] then Some [] else if next \<in> insert own (set path) then None else Some (path @ [own])))"
    if "relay_announce cfg d i ts = Some wire" for wire
  proof -
    have ok: "steps < 65535" "\<not> (length path = PTP_PATH_TRACE_MAX_CLOCKS \<or> own \<in> set path)"
      using none that s65 by auto
    define tlv where "tlv = the (relay_path d)"
    have rp: "relay_path d = Some tlv" using ok(2) by (simp add: tlv_def t wr)
    have m: "announce_wf msg" "and (hd_messagetype (an_header msg)) 15 = 11" "an_stepsremoved msg = octets 2 (int (steps + 1))"
      "hd_sourceidentity (an_header msg) = own" "hd_sourceportindex (an_header msg) = octets 2 (int (i + 1))"
      "slice 47 14 (announce_bytes msg) = slice 47 14 (announce_bytes src)"
      using relay_body_fields [OF assms(5), folded src_def, OF assms(6), folded own_def steps_def, OF assms(7), of cfg i ts msg]
        b ok(1) by simp_all
    have lc: "length (concat path) = length path * 8" by (rule length_concat8 [OF assms(9)])
    then have lt: "length tlv < 1000" using ok(2) assms(7,8) by (simp add: tlv_def t wr PTP_PATH_TRACE_MAX_CLOCKS_def)
    have w: "wire = ptp_gptp_wire_normalize (splice 2 (octets 2 (int (64 + length tlv))) (take 64 (announce_bytes msg) @ tlv))
        (64 + length tlv) (dm_gptp d) (ptp_tx_minor_version (port_at d i))"
      using that ok(1) by (simp add: relay_announce_def b rp PTP_ANNOUNCE_BODY_LENGTH_def Let_def)
    note p = announce_payload [OF m(1) lt m(2), of "dm_gptp d" "ptp_tx_minor_version (port_at d i)", folded w]
    have st: "be16 (wire ! 61) (wire ! 62) = steps + 1"
      using slice_pair [of 61 wire] p(1,4) m(3) ok(1) by (simp add: octets2_nat be16_of_nat del: of_nat_Suc)
    have parse: "ptp_path_trace_parse wire (length wire) nx =
        (if path = [] then Some [] else if nx \<in> insert own (set path) then None else Some (path @ [own]))" for nx
    proof (cases "path = []")
      case True
      then have "length wire = 64" using p(1) rp by (simp add: t)
      then show ?thesis using True p(2) path_walk_end [of wire 64 nx None] rp
        by (simp add: ptp_path_trace_parse_def PTP_ANNOUNCE_BODY_LENGTH_def t)
    next
      case False
      have "take 64 wire @ tlv @ [] = wire" using p(5) append_take_drop_id [of 64 wire] by simp
      moreover have "take 64 wire ! 2 = wire ! 2" "take 64 wire ! 3 = wire ! 3" by simp_all
      ultimately show ?thesis
        using path_trace_relay [of own path 132 tlv "take 64 wire" "length wire" "[]" nx] assms(7,8,9) ok(2) p(1,2) rp False
        by (simp add: path_ok_def t)
    qed
    show ?thesis using p(1,2,3,6) m(4,5,6) st parse by simp
  qed
  with none show ?thesis by blast
qed

definition relaying_example :: ptp_daemon where
  "relaying_example = map_source (\<lambda>s. s\<lparr>so_selected_source_valid := True, so_selected_source := announce_of announce_example,
     so_selected_path := [replicate 8 7]\<rparr>) clock_example"

theorem relay_extends_path_witness:
  "\<exists>wire. relay_announce config_default relaying_example 1 timespec_zero = Some wire \<and>
     ptp_path_trace_parse wire (length wire) (replicate 8 9) = Some [replicate 8 7, replicate 8 1]"
proof -
  have h: "so_selected_source_valid (dm_source relaying_example)" "announce_wf (so_selected_source (dm_source relaying_example))"
    "length (hd_sourceidentity (an_header (st_own_identity (dm_state relaying_example)))) = 8"
    "length (so_selected_path (dm_source relaying_example)) \<le> PTP_PATH_TRACE_MAX_CLOCKS"
    "\<forall>c \<in> set (so_selected_path (dm_source relaying_example)). length c = 8"
    and v: "so_selected_path (dm_source relaying_example) = [replicate 8 7]"
    "hd_sourceidentity (an_header (st_own_identity (dm_state relaying_example))) = replicate 8 1"
    and st: "an_stepsremoved (so_selected_source (dm_source relaying_example)) ! 0 = 0"
    by code_simp+
  have n: "be16 0 (an_stepsremoved (so_selected_source (dm_source relaying_example)) ! 1) \<noteq> 65535"
    using unat_u8_less [of "an_stepsremoved (so_selected_source (dm_source relaying_example)) ! 1"]
    unfolding be16_def by (simp del: unat_u8_less)
  have ne: "(replicate 8 9 :: bytes) \<noteq> replicate 8 7" "(replicate 8 9 :: bytes) \<noteq> replicate 8 1"
    "(replicate 8 1 :: bytes) \<noteq> replicate 8 7"
    by (simp_all add: replicate_eq_replicate)
  note r = relay_extends_path [OF h, of config_default 1 timespec_zero, unfolded v st]
  obtain wire where "relay_announce config_default relaying_example 1 timespec_zero = Some wire"
    using r n ne(3) by (auto simp: PTP_PATH_TRACE_MAX_CLOCKS_def)
  then show ?thesis using r ne(1,2) by auto
qed

section \<open>The grid of the Sync messages\<close>

lemma timespec_to_ms_ns: "0 \<le> tv_nsec t \<Longrightarrow> timespec_to_ms t = timespec_to_ns t div 1000000"
proof -
  assume "0 \<le> tv_nsec t"
  then have "timespec_to_ms t = tv_sec t * 1000 + tv_nsec t div 1000000" by (simp add: timespec_to_ms_def sdiv_pos)
  also have "\<dots> = ((tv_sec t * 1000) * 1000000 + tv_nsec t) div 1000000" by simp
  finally show ?thesis by (simp add: timespec_to_ns_def)
qed

lemma timespec_to_ms_sub:
  assumes "stamp_ok a" "stamp_ok b"
  shows "timespec_to_ms (timespecsub a b) = (timespec_to_ns a - timespec_to_ns b) div 1000000"
proof -
  have "0 \<le> tv_nsec (timespecsub a b)" "timespec_to_ns (timespecsub a b) = timespec_to_ns a - timespec_to_ns b"
    using assms by (auto simp: timespecsub_def timespec_to_ns_def stamp_ok_def Let_def algebra_simps)
  then show ?thesis using timespec_to_ms_ns by simp
qed

lemma add_interval:
  assumes "stamp_ok t" "0 < cf_sync_interval_ms cfg"
  shows "stamp_ok (timespecadd t (sync_interval cfg))"
    "timespec_to_ns (timespecadd t (sync_interval cfg)) = timespec_to_ns t + cf_sync_interval_ms cfg * 1000000"
proof -
  have s: "cf_sync_interval_ms cfg sdiv 1000 = cf_sync_interval_ms cfg div 1000"
    "cf_sync_interval_ms cfg smod 1000 = cf_sync_interval_ms cfg mod 1000"
    "cf_sync_interval_ms cfg div 1000 * 1000 + cf_sync_interval_ms cfg mod 1000 = cf_sync_interval_ms cfg"
    "0 \<le> cf_sync_interval_ms cfg mod 1000" "cf_sync_interval_ms cfg mod 1000 < 1000"
    using assms(2) by (simp_all add: sdiv_pos smod_pos)
  then show "stamp_ok (timespecadd t (sync_interval cfg))"
    using assms(1) by (auto simp: stamp_ok_def timespecadd_def sync_interval_def Let_def)
  have "(cf_sync_interval_ms cfg div 1000) * 1000000000 + (cf_sync_interval_ms cfg mod 1000) * 1000000 = cf_sync_interval_ms cfg * 1000000"
    using s(3) by linarith
  then show "timespec_to_ns (timespecadd t (sync_interval cfg)) = timespec_to_ns t + cf_sync_interval_ms cfg * 1000000"
    using s(1,2) by (simp add: timespec_to_ns_def timespecadd_def sync_interval_def Let_def algebra_simps)
qed

text \<open>The polls are at most one interval apart, the first one after the time \<open>t\<close>.\<close>

fun polled :: "ptp_config \<Rightarrow> int \<Rightarrow> timespec list \<Rightarrow> bool" where
  "polled cfg t [] = True"
| "polled cfg t (now # rest) \<longleftrightarrow> stamp_ok now \<and> t \<le> timespec_to_ns now \<and>
     timespec_to_ns now \<le> t + cf_sync_interval_ms cfg * 1000000 \<and> polled cfg (timespec_to_ns now) rest"

lemma quotient_exceeds:
  fixes q r x i :: int
  assumes "q * 1000000 + r = x" "0 \<le> r" "r < 1000000"
  shows "i < q \<longleftrightarrow> i * 1000000 + 1000000 \<le> x"
  using assms by linarith

lemma sync_due_step:
  assumes "0 < cf_sync_interval_ms cfg" "stamp_ok sent" "stamp_ok now"
    and "0 \<le> timespec_to_ns now - timespec_to_ns sent"
    and "timespec_to_ns now - timespec_to_ns sent < (2 * cf_sync_interval_ms cfg + 1) * 1000000"
  shows "case sync_due cfg sent now of
      None \<Rightarrow> timespec_to_ns now - timespec_to_ns sent < (cf_sync_interval_ms cfg + 1) * 1000000
    | Some grid \<Rightarrow> grid = timespecadd sent (sync_interval cfg) \<and>
        cf_sync_interval_ms cfg * 1000000 + 1000000 \<le> timespec_to_ns now - timespec_to_ns sent"
proof -
  define x where "x = timespec_to_ns now - timespec_to_ns sent"
  define i where "i = cf_sync_interval_ms cfg"
  have "x div 1000000 \<le> 2 * i" using assms(5) by (simp add: x_def i_def)
  moreover have "x div 1000000 > i \<longleftrightarrow> i * 1000000 + 1000000 \<le> x"
    by (rule quotient_exceeds [of _ "x mod 1000000"]) simp_all
  ultimately show ?thesis
    using timespec_to_ms_sub [OF assms(3,2)] by (simp add: sync_due_def Let_def algebra_simps flip: x_def i_def)
qed

text \<open>The time the last Sync of the wired port was accounted to, and what one round of the time
  transmitter makes of it: a Sync takes the next sequence number.\<close>

definition sync_account :: "ptp_daemon \<Rightarrow> timespec" where
  "sync_account d = pt_last_transmitted_sync (po_sent (port_at d 0))"

definition sync_permitted :: "ptp_config \<Rightarrow> ptp_daemon \<Rightarrow> periodic_env \<Rightarrow> bool" where
  "sync_permitted cfg d env \<longleftrightarrow> 0 < num_ports d \<and> transmits_time cfg d env \<and>
     (\<not> dm_gptp d \<or> an_btc_priority1 (st_own_identity (dm_state d)) < 255)"

definition sends_sync :: "ptp_config \<Rightarrow> ptp_daemon \<times> periodic_env \<Rightarrow> bool" where
  "sends_sync cfg r = (case r of (d, env) \<Rightarrow>
     st_sync_seq (dm_state (fst (server_send cfg env d))) \<noteq> st_sync_seq (dm_state d))"

text \<open>Rounds of a run: the state and the readings each starts with.  Between two rounds anything may
  happen that leaves the account alone.\<close>

fun server_rounds :: "ptp_config \<Rightarrow> timespec \<Rightarrow> (ptp_daemon \<times> periodic_env) list \<Rightarrow> bool" where
  "server_rounds cfg sent [] = True"
| "server_rounds cfg sent ((d, env) # rounds) \<longleftrightarrow>
     sync_account d = sent \<and> sync_permitted cfg d env \<and>
     server_rounds cfg (sync_account (fst (server_send cfg env d))) rounds"

fun final_account :: "ptp_config \<Rightarrow> timespec \<Rightarrow> (ptp_daemon \<times> periodic_env) list \<Rightarrow> timespec" where
  "final_account cfg sent [] = sent"
| "final_account cfg sent ((d, env) # rounds) = final_account cfg (sync_account (fst (server_send cfg env d))) rounds"

abbreviation round_times :: "(ptp_daemon \<times> periodic_env) list \<Rightarrow> timespec list" where
  "round_times rounds \<equiv> map (\<lambda>(d, env). pv_server_ts env) rounds"

lemma server_announce_keeps:
  assumes "0 < num_ports d"
  shows "sync_account (fst (server_announce cfg env d)) = sync_account d"
    "st_sync_seq (dm_state (fst (server_announce cfg env d))) = st_sync_seq (dm_state d)"
    "dm_gptp (fst (server_announce cfg env d)) = dm_gptp d"
    "st_own_identity (dm_state (fst (server_announce cfg env d))) = st_own_identity (dm_state d)"
    "num_ports (fst (server_announce cfg env d)) = num_ports d"
  using assms by (simp_all add: server_announce_def sync_account_def set_sent_def ptp_send_announce_def Let_def split_beta
      map_port_def port_at_def ptp_is_gptp_def)

lemma server_sync_result:
  assumes "0 < num_ports d" "\<not> dm_gptp d \<or> an_btc_priority1 (st_own_identity (dm_state d)) < 255"
  shows "sync_account (fst (server_sync cfg env d)) =
      (case sync_due cfg (sync_account d) (pv_server_ts env) of None \<Rightarrow> sync_account d | Some grid \<Rightarrow> grid)"
    "st_sync_seq (dm_state (fst (server_sync cfg env d))) =
      (case sync_due cfg (sync_account d) (pv_server_ts env) of None \<Rightarrow> st_sync_seq (dm_state d)
       | Some grid \<Rightarrow> st_sync_seq (dm_state d) + 1)"
  using assms by (auto simp: server_sync_def sync_account_def set_sent_def ptp_send_sync_def Let_def split_beta
      map_port_def port_at_def split: option.split)

lemma server_round:
  assumes "sync_permitted cfg d env"
  shows "case sync_due cfg (sync_account d) (pv_server_ts env) of
      None \<Rightarrow> sync_account (fst (server_send cfg env d)) = sync_account d \<and> \<not> sends_sync cfg (d, env)
    | Some grid \<Rightarrow> sync_account (fst (server_send cfg env d)) = grid \<and> sends_sync cfg (d, env)"
proof -
  define e where "e = fst (server_announce cfg env d)"
  have p: "0 < num_ports d" "transmits_time cfg d env" "\<not> dm_gptp d \<or> an_btc_priority1 (st_own_identity (dm_state d)) < 255"
    using assms by (simp_all add: sync_permitted_def)
  note k = server_announce_keeps [OF p(1), of cfg env, folded e_def]
  have e: "0 < num_ports e" "\<not> dm_gptp e \<or> an_btc_priority1 (st_own_identity (dm_state e)) < 255"
    using p(1,3) k(3-5) by simp_all
  have "fst (server_send cfg env d) = fst (server_sync cfg env e)" using p(2) by (simp add: server_send_def e_def split_beta Let_def)
  then show ?thesis
    using server_sync_result [OF e, of cfg env] k(1,2) by (auto simp: sends_sync_def split: option.split)
qed

lemma rounds_grid:
  fixes cfg :: ptp_config
  shows "0 < cf_sync_interval_ms cfg \<Longrightarrow> stamp_ok sent \<Longrightarrow> server_rounds cfg sent rounds \<Longrightarrow>
    polled cfg t (round_times rounds) \<Longrightarrow> 0 \<le> t - timespec_to_ns sent \<Longrightarrow>
    t - timespec_to_ns sent < cf_sync_interval_ms cfg * 1000000 + 1000000 \<Longrightarrow>
    timespec_to_ns (final_account cfg sent rounds) =
      timespec_to_ns sent + int (length (filter (sends_sync cfg) rounds)) * (cf_sync_interval_ms cfg * 1000000) \<and>
    (rounds \<noteq> [] \<longrightarrow> 0 \<le> timespec_to_ns (List.last (round_times rounds)) - timespec_to_ns (final_account cfg sent rounds) \<and>
       timespec_to_ns (List.last (round_times rounds)) - timespec_to_ns (final_account cfg sent rounds) <
         cf_sync_interval_ms cfg * 1000000 + 1000000)"
proof (induction cfg sent rounds arbitrary: t rule: server_rounds.induct)
  case (2 cfg sent d env rounds)
  let ?step = "cf_sync_interval_ms cfg * 1000000" and ?now = "pv_server_ts env"
  let ?sent = "sync_account (fst (server_send cfg env d))"
  have p: "stamp_ok ?now" "t \<le> timespec_to_ns ?now" "timespec_to_ns ?now \<le> t + ?step"
    "polled cfg (timespec_to_ns ?now) (round_times rounds)" using "2.prems"(4) by simp_all
  have r: "sync_account d = sent" "sync_permitted cfg d env" "server_rounds cfg ?sent rounds" using "2.prems"(3) by simp_all
  have lag: "0 \<le> timespec_to_ns ?now - timespec_to_ns sent"
    "timespec_to_ns ?now - timespec_to_ns sent < (2 * cf_sync_interval_ms cfg + 1) * 1000000"
    using "2.prems"(5,6) p(2,3) by (simp_all add: algebra_simps)
  note step = sync_due_step [OF "2.prems"(1,2) p(1) lag] and out = server_round [OF r(2), unfolded r(1)]
  show ?case
  proof (cases "sync_due cfg sent ?now")
    case None
    with step have "timespec_to_ns ?now - timespec_to_ns sent < ?step + 1000000" by (simp add: algebra_simps)
    moreover have "?sent = sent" "\<not> sends_sync cfg (d, env)" using out None by simp_all
    ultimately show ?thesis
      using "2.IH" [OF "2.prems"(1) _ r(3) p(4)] "2.prems"(2) lag(1) by (cases rounds) auto
  next
    case (Some grid)
    with step have g: "grid = timespecadd sent (sync_interval cfg)" "?step + 1000000 \<le> timespec_to_ns ?now - timespec_to_ns sent"
      by simp_all
    have o: "?sent = grid" "sends_sync cfg (d, env)" using out Some by simp_all
    note a = add_interval [OF "2.prems"(2,1), folded g(1)]
    have l: "0 \<le> timespec_to_ns ?now - timespec_to_ns grid" "timespec_to_ns ?now - timespec_to_ns grid < ?step + 1000000"
      using g(2) a(2) lag(2) "2.prems"(1) by (simp_all add: algebra_simps)
    note ih = "2.IH" [OF "2.prems"(1) _ r(3) p(4), unfolded o(1), OF a(1) l]
    show ?thesis using ih l a(2) o by (cases rounds) (auto simp: algebra_simps)
  qed
qed simp

text \<open>C33. The Syncs of the wired port keep their mean interval.  In a run of the time transmitter whose
  rounds are at most one interval apart, however irregularly, and start within one interval of the
  last Sync, every Sync that is sent is accounted to the next point of the grid: after any number of
  rounds the stored time is the first plus the number of Syncs sent times the interval, and the
  daemon is less than one interval and a millisecond behind it, so the polling neither stretches
  nor shortens the mean interval.\<close>

theorem sync_keeps_grid:
  assumes "0 < cf_sync_interval_ms cfg" "stamp_ok sent" "server_rounds cfg sent rounds"
    and "polled cfg (timespec_to_ns sent) (round_times rounds)" "rounds \<noteq> []"
  shows "timespec_to_ns (final_account cfg sent rounds) =
      timespec_to_ns sent + int (length (filter (sends_sync cfg) rounds)) * (cf_sync_interval_ms cfg * 1000000) \<and>
    0 \<le> timespec_to_ns (List.last (round_times rounds)) - timespec_to_ns (final_account cfg sent rounds) \<and>
    timespec_to_ns (List.last (round_times rounds)) - timespec_to_ns (final_account cfg sent rounds) <
      (cf_sync_interval_ms cfg + 1) * 1000000"
  using rounds_grid [OF assms(1-4)] assms(1,5) by (simp add: algebra_simps)

text \<open>Rounds at 100, 180 and 300 ms, with an interval of 125 ms: two Syncs.\<close>

definition transmitting_example :: ptp_daemon where
  "transmitting_example = map_port 0 (\<lambda>p. p\<lparr>po_link := (po_link p)\<lparr>lk_socket_open := True\<rparr>,
     po_config := (po_config p)\<lparr>pg_enabled := True, pg_medium := ptp_port_medium_eth_hwts\<rparr>\<rparr>)
     (map_state (\<lambda>s. s\<lparr>st_active_ptp_profile := ptp_profile_standard\<rparr>) (map_source (\<lambda>s. s\<lparr>so_selected_source_valid := False\<rparr>) relaying_example))"

definition round_example :: "int \<Rightarrow> periodic_env" where
  "round_example ms = \<lparr>pv_results = [], pv_wired_us = 0, pv_wired_done_us = 0, pv_wired_tx = tx_env_example,
     pv_slot_us = (\<lambda>_ _. 0), pv_slot_ok = (\<lambda>_ _. True), pv_capable_us = 0, pv_neighbor_us = 0, pv_clock = hw_env_example,
     pv_server_ts = \<lparr>tv_sec = 0, tv_nsec = ms * 1000000\<rparr>, pv_announce_tx = tx_env_example, pv_sync_tx = tx_env_example,
     pv_follow_up_tx = tx_env_example, pv_egress_ts = (\<lambda>_. timespec_zero), pv_relay_ts = (\<lambda>_. timespec_zero),
     pv_beacon_ts = timespec_zero, pv_beacon_tx = tx_env_example\<rparr>"

definition rounds_example :: "(ptp_daemon \<times> periodic_env) list" where
  "rounds_example =
     (let d1 = transmitting_example; d2 = fst (server_send config_default (round_example 100) d1);
          d3 = fst (server_send config_default (round_example 180) d2)
      in [(d1, round_example 100), (d2, round_example 180), (d3, round_example 300)])"

theorem sync_keeps_grid_witness:
  "length (filter (sends_sync config_default) rounds_example) = 2 \<and>
   timespec_to_ns (final_account config_default timespec_zero rounds_example) = 0 + int 2 * (125 * 1000000)"
proof -
  have h: "0 < cf_sync_interval_ms config_default" "stamp_ok timespec_zero"
    "server_rounds config_default timespec_zero rounds_example"
    "polled config_default (timespec_to_ns timespec_zero) (round_times rounds_example)" "rounds_example \<noteq> []"
    and n: "length (filter (sends_sync config_default) rounds_example) = 2"
    by code_simp+
  from sync_keeps_grid [OF h] n show ?thesis by (simp add: config_default_def timespec_to_ns_def timespec_zero_def)
qed

end
