(* ===== verification/Ptp_Rx.thy ===== *)
theory Ptp_Rx
  imports Ptp_Delay
begin

text \<open>
  Reception of a message (\<^verbatim>\<open>ptp_process_rx_packet\<close> of \<^verbatim>\<open>ptp.c\<close>): the checks every message passes,
  the association of the sender on a radio port, signaling, and the dispatch to the handlers.

  The message is in the receive buffer of port 0, whatever port it came in by; \<open>process_message\<close> is the
  body of the function with the buffer as an argument of its own, so that what reception reads of
  it can be stated.  \<open>rx_env\<close> holds the readings of the clocks, the answers of the network and
  the value of the undefined conversion of \<^verbatim>\<open>msec_to_log_period\<close> during the call.  None as the result
  stands for an average over zero samples, a division by zero; the dump of refused messages and the
  log are left out, as is the build that drops messages on purpose.
\<close>

section \<open>Environment and helpers\<close>

record rx_env =
  rv_alive_ts :: timespec
  rv_multicast_ts :: timespec
  rv_capable_us :: int
  rv_neighbor_us :: int
  rv_indication_us :: int
  rv_indication_ts :: timespec
  rv_mono_ts :: timespec
  rv_sync_us :: int
  rv_now_us :: int
  rv_receipt_us :: int
  rv_published_us :: int
  rv_clock :: clock_env
  rv_random :: int
  rv_tx :: tx_env
  rv_tx' :: tx_env
  rv_conv :: u32
  rv_unset :: timespec

abbreviation rxbuf :: "ptp_daemon \<Rightarrow> bytes" where "rxbuf d \<equiv> rx_rxbuf (po_rx (port_at d 0))"
abbreviation rx_mac :: "ptp_daemon \<Rightarrow> bytes option" where "rx_mac d \<equiv> rx_source_mac (po_rx (port_at d 0))"
abbreviation rx_assoc :: "ptp_daemon \<Rightarrow> u32" where "rx_assoc d \<equiv> rx_association (po_rx (port_at d 0))"

definition map_seen :: "nat \<Rightarrow> (ptp_port_seen \<Rightarrow> ptp_port_seen) \<Rightarrow> ptp_daemon \<Rightarrow> ptp_daemon" where
  "map_seen i f d = map_port i (\<lambda>p. p\<lparr>po_seen := f (po_seen p)\<rparr>) d"

definition set_rx_association :: "u32 \<Rightarrow> ptp_daemon \<Rightarrow> ptp_daemon" where
  "set_rx_association a d = map_port 0 (\<lambda>p. p\<lparr>po_rx := (po_rx p)\<lparr>rx_association := a\<rparr>\<rparr>) d"

definition note_endpoint :: "bytes \<Rightarrow> nat \<Rightarrow> nat \<Rightarrow> ptp_daemon \<Rightarrow> ptp_daemon" where
  "note_endpoint m len base d =
     (if ptp_msg_has_endpoint_decl_tlv m len base
      then map_port 0 (\<lambda>p. p\<lparr>po_lite := (po_lite p)\<lparr>pl_peer_is_endpoint := True\<rparr>\<rparr>) d else d)"

definition count_rx :: "(ptp_stats \<Rightarrow> ptp_stats) \<Rightarrow> ptp_daemon \<Rightarrow> ptp_daemon" where
  "count_rx f d = d\<lparr>dm_stats := f (dm_stats d)\<rparr>"

definition ptpd_lateness_record_rx_sync :: "int \<Rightarrow> ptp_stats \<Rightarrow> ptp_stats" where
  "ptpd_lateness_record_rx_sync now x =
     (let gap = now - sx_rx_sync_last_us x;
          x = (if sx_rx_sync_last_us x \<noteq> 0 \<and> gap > sx_rx_sync_max_gap_us x
               then x\<lparr>sx_rx_sync_max_gap_us := gap\<rparr> else x)
      in x\<lparr>sx_rx_sync_last_us := now, sx_rx_sync := sx_rx_sync x + 1\<rparr>)"

section \<open>Admission\<close>

text \<open>The length the message declares, when it is one for this daemon: well-formed, of the
  domain and of the active profile.  The flag: only the profile differs.\<close>

definition message_admitted :: "ptp_config \<Rightarrow> bytes \<Rightarrow> ptp_daemon \<Rightarrow> int \<Rightarrow> nat option \<times> bool" where
  "message_admitted cfg m d received =
     (if received < 34 then (None, False)
      else
        let len = ptp_message_bounded_length (Some m) (nat received);
            h = header_of m
        in if len = 0 then (None, False)
           else if dm_gptp d \<and> and (hd_messagetype h) PTP_MSGTYPE_MASK = PTP_MSGTYPE_FOLLOW_UP \<and>
                   \<not> ptp_timing_payload_valid (Some m) len then (None, False)
           else if hd_domain h \<noteq> cf_domain cfg then (None, False)
           else if (and (hd_messagetype h) PTP_MSGTYPE_SDOID_GPTP \<noteq> 0) \<noteq> dm_gptp d then (None, True)
           else (Some len, False))"

text \<open>The minor version of the sender, then, on a radio port, whether it is associated.\<close>

definition note_minor_version :: "bytes \<Rightarrow> nat \<Rightarrow> ptp_daemon \<Rightarrow> ptp_daemon" where
  "note_minor_version m i d =
     map_port i (\<lambda>p. p\<lparr>po_link := (po_link p)\<lparr>lk_rx_minor_version :=
       (if drop_bit 4 (m ! 1) \<noteq> 0 then 1 else 0)\<rparr>\<rparr>) d"

definition radio_port :: "ptp_daemon \<Rightarrow> nat \<Rightarrow> ptp_port_wifi_mode_e \<Rightarrow> bool" where
  "radio_port d i mode \<longleftrightarrow> pg_medium (po_config (port_at d i)) = ptp_port_medium_wifi_ftm \<and>
     pg_wifi_mode (po_config (port_at d i)) = mode"

definition admit_sta :: "nat \<Rightarrow> ptp_daemon \<Rightarrow> bool \<times> ptp_daemon" where
  "admit_sta i d =
     (if dm_gptp d \<and> radio_port d i ptp_port_wifi_mode_sta then
        let neighbor = pk_wifi_neighbor (po_capable (port_at d i))
        in (rx_mac d \<noteq> None \<and> ptp_wifi_neighbor_accepts neighbor (rx_mac d),
            set_rx_association (wn_association neighbor) d)
      else (True, d))"

definition admit_ap :: "ptp_config \<Rightarrow> nat \<Rightarrow> ptp_daemon \<Rightarrow> bool \<times> ptp_daemon" where
  "admit_ap cfg i d =
     (if dm_gptp d \<and> radio_port d i ptp_port_wifi_mode_ap then
        let peers = pk_wifi_peers (po_capable (port_at d i));
            peer = (if rx_mac d \<noteq> None then ptp_wifi_peers_find peers (rx_mac d) else None)
        in (peer \<noteq> None \<and> ptp_wifi_peers_publishable (cf_ap_via_coprocessor cfg) peers,
            set_rx_association (case peer of None \<Rightarrow> 0 | Some slot \<Rightarrow> wp_association (ws_entries peers ! slot)) d)
      else (True, d))"

section \<open>Signaling\<close>

text \<open>The identity of the port the message is for; None: it is for no association of the access point.\<close>

definition local_port :: "ptp_config \<Rightarrow> nat \<Rightarrow> ptp_daemon \<Rightarrow> bytes option" where
  "local_port cfg i d =
     (let own = hd_sourceidentity (an_header (st_own_identity (dm_state d))) in
      if radio_port d i ptp_port_wifi_mode_ap then
        let peers = pk_wifi_peers (po_capable (port_at d i));
            logical_port =
              (case (if rx_mac d \<noteq> None then ptp_wifi_peers_find peers (rx_mac d) else None) of
                 None \<Rightarrow> 0
               | Some slot \<Rightarrow> if wp_association (ws_entries peers ! slot) = rx_assoc d
                              then ptp_wifi_association_port (i + 1) (cf_num_ports cfg) slot else 0)
        in if logical_port = 0 then None else Some (own @ octets 2 (int logical_port))
      else Some (own @ octets 2 (int (i + 1))))"

definition port_active :: "ptp_daemon \<Rightarrow> nat \<Rightarrow> bool" where
  "port_active d i \<longleftrightarrow> pg_enabled (po_config (port_at d i)) \<and> lk_link_up (po_link (port_at d i)) \<and> dm_gptp d"

definition wired_peer_known :: "ptp_daemon \<Rightarrow> nat \<Rightarrow> bool" where
  "wired_peer_known d i \<longleftrightarrow> pg_medium (po_config (port_at d i)) = ptp_port_medium_eth_hwts \<and>
     pr_valid (po_peer_rate (port_at d i)) \<and>
     pr_lifecycle (po_peer_rate (port_at d i)) = px_lifecycle (po_peer_exchange (port_at d i))"

definition set_capable :: "nat \<Rightarrow> (ptp_port_capable \<Rightarrow> ptp_port_capable) \<Rightarrow> ptp_daemon \<Rightarrow> ptp_daemon" where
  "set_capable i f d = map_port i (\<lambda>p. p\<lparr>po_capable := f (po_capable p)\<rparr>) d"

definition take_indication :: "nat \<Rightarrow> rx_env \<Rightarrow> ptp_capable_message \<Rightarrow> ptp_daemon \<Rightarrow> ptp_daemon" where
  "take_indication i env indication d =
     (let p = port_at d i; k = po_capable p; n = pk_wifi_neighbor k;
          d = (if port_active d i \<and> wired_peer_known d i then
                 set_capable i (\<lambda>k. k\<lparr>pk_capable_receive := snd (ptp_capable_receive (pk_capable_receive k) indication
                   (Some (pr_responder (po_peer_rate p))) (px_lifecycle (po_peer_exchange p)) (rv_indication_us env))\<rparr>) d
               else if port_active d i \<and> radio_port d i ptp_port_wifi_mode_sta \<and> wn_bound n \<and>
                       rx_assoc d = wn_association n \<and> rx_mac d \<noteq> None \<and> ptp_wifi_neighbor_accepts n (rx_mac d) then
                 set_capable i (\<lambda>k. k\<lparr>pk_capable_receive := snd (ptp_capable_receive (pk_capable_receive k) indication
                   (Some (wn_port_identity n)) (wn_association n) (rv_indication_us env))\<rparr>) d
               else if port_active d i \<and> radio_port d i ptp_port_wifi_mode_ap \<and> rx_mac d \<noteq> None then
                 set_capable i (\<lambda>k. k\<lparr>pk_wifi_peers := snd (ptp_wifi_peers_capable (pk_wifi_peers k) (rx_mac d)
                   (rx_assoc d) indication (rv_indication_us env))\<rparr>) d
               else d)
      in map_seen i (\<lambda>s. s\<lparr>ps_last_capable_indication := indication,
           ps_last_received_capable_indication := rv_indication_ts env,
           ps_capable_indication_count := ps_capable_indication_count s + 1\<rparr>) d)"

definition take_timing_request :: "ptp_config \<Rightarrow> nat \<Rightarrow> ptp_interval_message \<Rightarrow> ptp_daemon \<Rightarrow> ptp_daemon" where
  "take_timing_request cfg i request d =
     (if port_active d i \<and> radio_port d i ptp_port_wifi_mode_ap \<and> rx_mac d \<noteq> None then
        set_capable i (\<lambda>k. k\<lparr>pk_wifi_peers :=
          snd (ptp_wifi_peers_announce_interval
            (snd (ptp_wifi_peers_sync_interval (pk_wifi_peers k) (rx_mac d) (rx_assoc d) request))
            (rx_mac d) (rx_assoc d) request (msec_to_log_period (word_of_int (cf_announce_interval_ms cfg))))\<rparr>) d
      else if port_active d i \<and> radio_port d i ptp_port_wifi_mode_sta \<and> rx_mac d \<noteq> None then
        set_capable i (\<lambda>k. k\<lparr>pk_wifi_neighbor :=
          snd (ptp_wifi_neighbor_sync_interval (pk_wifi_neighbor k) (rx_mac d) (rx_assoc d) (Some request))\<rparr>) d
      else d)"

definition take_interval_request :: "nat \<Rightarrow> ptp_capable_message \<Rightarrow> ptp_daemon \<Rightarrow> ptp_daemon" where
  "take_interval_request i request d =
     (let p = port_at d i; lifecycle = px_lifecycle (po_peer_exchange p) in
      if port_active d i \<and> radio_port d i ptp_port_wifi_mode_ap \<and> rx_mac d \<noteq> None then
        set_capable i (\<lambda>k. k\<lparr>pk_wifi_peers :=
          snd (ptp_wifi_peers_interval (pk_wifi_peers k) (rx_mac d) (rx_assoc d) request)\<rparr>) d
      else if port_active d i \<and> radio_port d i ptp_port_wifi_mode_sta \<and> rx_mac d \<noteq> None then
        set_capable i (\<lambda>k. k\<lparr>pk_wifi_neighbor :=
          snd (ptp_wifi_neighbor_interval (pk_wifi_neighbor k) (rx_mac d) (rx_assoc d) request)\<rparr>) d
      else if port_active d i \<and> wired_peer_known d i then
        set_capable i (\<lambda>k. k\<lparr>pk_wired_capable := snd (ptp_wired_capable_request
          (ptp_wired_capable_bind (pk_wired_capable k) lifecycle (Some (pr_responder (po_peer_rate p)))) lifecycle request)\<rparr>) d
      else d)"

text \<open>All three decoders run before any TLV takes effect.\<close>

definition process_signaling :: "ptp_config \<Rightarrow> bytes \<Rightarrow> nat \<Rightarrow> nat \<Rightarrow> rx_env \<Rightarrow> ptp_daemon \<Rightarrow> ptp_daemon" where
  "process_signaling cfg m i len env d =
     (case local_port cfg i d of
        None \<Rightarrow> d
      | Some port \<Rightarrow>
          let buf = Some m;
              decoded = ptp_signaling_read_capable buf len (cf_domain cfg) (Some port);
              interval_decoded = ptp_signaling_read_capable_interval buf len (cf_domain cfg) (Some port);
              timing_decoded = ptp_signaling_read_message_interval buf len (cf_domain cfg) (Some port)
          in if decoded = SIG_MALFORMED \<or> interval_decoded = SIG_MALFORMED \<or> timing_decoded = SIG_MALFORMED then d
             else
               let d = (case decoded of SIG_FOUND x \<Rightarrow> take_indication i env x d | _ \<Rightarrow> d);
                   d = (case timing_decoded of SIG_FOUND x \<Rightarrow> take_timing_request cfg i x d | _ \<Rightarrow> d)
               in (case interval_decoded of SIG_FOUND x \<Rightarrow> take_interval_request i x d | _ \<Rightarrow> d))"

section \<open>Dispatch\<close>

definition ignores_timing :: "ptp_daemon \<Rightarrow> bool" where
  "ignores_timing d \<longleftrightarrow> \<not> so_selected_source_valid (dm_source d) \<or>
     dm_gptp d \<and> an_btc_priority1 (so_selected_source (dm_source d)) = 255"

text \<open>The result of a handler that sends nothing and always succeeds.\<close>

definition quietly :: "ptp_daemon \<Rightarrow> (bool \<times> ptp_daemon \<times> transmission list) option" where
  "quietly d = Some (True, d, [])"

definition dispatch_timing :: "ptp_config \<Rightarrow> bytes \<Rightarrow> u8 \<Rightarrow> nat \<Rightarrow> rx_env \<Rightarrow> ptp_daemon \<Rightarrow> bool \<times> ptp_daemon" where
  "dispatch_timing cfg m ty len env d =
     (if ty = PTP_MSGTYPE_ANNOUNCE then
        let d = count_rx (\<lambda>x. x\<lparr>sx_rx_announce := sx_rx_announce x + 1\<rparr>) d
        in (True, ptp_process_announce cfg d m len (rv_mono_ts env) (rv_now_us env))
      else if ty = PTP_MSGTYPE_SYNC then
        let d = count_rx (ptpd_lateness_record_rx_sync (rv_sync_us env)) d
        in if ignores_timing d then (True, d)
           else ptp_process_sync cfg d (sync_of m) (rv_mono_ts env) (rv_now_us env) (rv_clock env)
      else
        let d = count_rx (\<lambda>x. x\<lparr>sx_rx_followup := sx_rx_followup x + 1\<rparr>) d
        in if ignores_timing d then (True, d)
           else ptp_process_followup cfg d m (rv_clock env) (rv_now_us env) (rv_receipt_us env) (rv_published_us env))"

definition dispatch_response ::
  "ptp_config \<Rightarrow> bytes \<Rightarrow> u8 \<Rightarrow> nat \<Rightarrow> nat \<Rightarrow> rx_env \<Rightarrow> ptp_daemon \<Rightarrow> (bool \<times> ptp_daemon \<times> transmission list) option" where
  "dispatch_response cfg m ty i len env d =
     (if i \<noteq> 0 then quietly d
      else if dm_gptp d \<and> ty \<noteq> PTP_MSGTYPE_PDELAY_RESP then quietly d
      else
        let d = count_rx (\<lambda>x. x\<lparr>sx_rx_pdelay_resp := sx_rx_pdelay_resp x + 1\<rparr>) d;
            d = note_endpoint m len 54 d
        in Option.bind (ptp_process_delay_resp cfg d (delay_resp_of m) (rv_now_us env) (rv_random env)) quietly)"

definition dispatch_request ::
  "ptp_config \<Rightarrow> bytes \<Rightarrow> nat \<Rightarrow> rx_env \<Rightarrow> ptp_daemon \<Rightarrow> (bool \<times> ptp_daemon \<times> transmission list) option" where
  "dispatch_request cfg m len env d =
     (let d = count_rx (\<lambda>x. x\<lparr>sx_rx_pdelay_req := sx_rx_pdelay_req x + 1\<rparr>) d;
          d = note_endpoint m len 54 d;
          (ret, d, sent) = ptp_process_delay_req cfg d (header_of m) (rv_tx env) (rv_tx' env) (rv_conv env)
                             (rv_unset env) (rv_mono_ts env)
      in Some (ret \<ge> 0, d, sent))"

definition dispatch_response_follow_up ::
  "ptp_config \<Rightarrow> bytes \<Rightarrow> nat \<Rightarrow> nat \<Rightarrow> rx_env \<Rightarrow> ptp_daemon \<Rightarrow> (bool \<times> ptp_daemon \<times> transmission list) option" where
  "dispatch_response_follow_up cfg m i len env d =
     (if i \<noteq> 0 then quietly d
      else
        let d = count_rx (\<lambda>x. x\<lparr>sx_rx_pdelay_fup := sx_rx_pdelay_fup x + 1\<rparr>) d;
            d = note_endpoint m len 54 d
        in Option.bind (ptp_process_delay_resp_follow_up cfg d (delay_resp_follow_up_of m) 0
             (rv_now_us env) (rv_receipt_us env)) quietly)"

definition timing_message :: "u8 \<Rightarrow> bool" where
  "timing_message ty \<longleftrightarrow> ty = PTP_MSGTYPE_ANNOUNCE \<or> ty = PTP_MSGTYPE_SYNC \<or> ty = PTP_MSGTYPE_FOLLOW_UP"

definition dispatch ::
  "ptp_config \<Rightarrow> bytes \<Rightarrow> nat \<Rightarrow> nat \<Rightarrow> rx_env \<Rightarrow> ptp_daemon \<Rightarrow> (bool \<times> ptp_daemon \<times> transmission list) option" where
  "dispatch cfg m i len env d =
     (let ty = and (hd_messagetype (header_of m)) PTP_MSGTYPE_MASK in
      if timing_message ty \<and> i \<noteq> 0 then quietly d
      else if timing_message ty \<and> dm_gptp d \<and> pg_medium (po_config (port_at d 0)) = ptp_port_medium_eth_hwts \<and>
              \<not> ptp_wired_capability cfg d (rv_capable_us env) (rv_neighbor_us env) then
        quietly (map_port 0 (\<lambda>p. p\<lparr>po_sync := (po_sync p)\<lparr>ts_twostep_pending := False\<rparr>\<rparr>) d)
      else if ty = PTP_MSGTYPE_SIGNALING then quietly (process_signaling cfg m i len env d)
      else if timing_message ty \<and> (cf_client cfg \<or> cf_gptp_profile cfg) then
        (case dispatch_timing cfg m ty len env d of (ok, d) \<Rightarrow> Some (ok, d, []))
      else if (ty = PTP_MSGTYPE_DELAY_RESP \<or> ty = PTP_MSGTYPE_PDELAY_RESP) \<and> (cf_client cfg \<or> cf_gptp_profile cfg) then
        dispatch_response cfg m ty i len env d
      else if (ty = PTP_MSGTYPE_DELAY_REQ \<or> ty = PTP_MSGTYPE_PDELAY_REQ) \<and> (cf_server cfg \<or> cf_gptp_profile cfg) then
        dispatch_request cfg m len env d
      else if ty = PTP_MSGTYPE_PDELAY_RESP_FOLLOW_UP then dispatch_response_follow_up cfg m i len env d
      else quietly d)"

text \<open>The buffer is an argument of everything that reads the message; \<open>ptp_process_rx_packet\<close> passes the
  receive buffer of port 0.\<close>

definition process_message ::
  "ptp_config \<Rightarrow> bytes \<Rightarrow> ptp_daemon \<Rightarrow> int \<Rightarrow> int \<Rightarrow> rx_env \<Rightarrow> (ptp_errno, bool \<times> ptp_daemon \<times> transmission list) sum option" where
  "process_message cfg m d received ingress_port env =
     (if \<not> valid_port cfg ingress_port then Some (Inl EINVAL)
      else
        let i = nat ingress_port in
        case message_admitted cfg m d received of
          (None, alive) \<Rightarrow>
            map_option Inr (quietly (if alive then map_seen i (\<lambda>s. s\<lparr>ps_last_socket_alive := rv_alive_ts env\<rparr>) d else d))
        | (Some len, _) \<Rightarrow>
            let d = note_minor_version m i d;
                (sta, d) = admit_sta i d
            in if \<not> sta then map_option Inr (quietly d)
               else
                 let (ap, d) = admit_ap cfg i d
                 in if \<not> ap then map_option Inr (quietly d)
                    else map_option Inr
                      (dispatch cfg m i len env (map_seen i (\<lambda>s. s\<lparr>ps_last_received_multicast := rv_multicast_ts env\<rparr>) d)))"

definition ptp_process_rx_packet ::
  "ptp_config \<Rightarrow> ptp_daemon \<Rightarrow> int \<Rightarrow> int \<Rightarrow> rx_env \<Rightarrow> (ptp_errno, bool \<times> ptp_daemon \<times> transmission list) sum option" where
  "ptp_process_rx_packet cfg d received ingress_port env = process_message cfg (rxbuf d) d received ingress_port env"

section \<open>The invariant of the daemon\<close>

text \<open>Every port is there and its averaged delays are within their limits.\<close>

definition daemon_inv :: "ptp_config \<Rightarrow> ptp_daemon \<Rightarrow> bool" where
  "daemon_inv cfg d \<longleftrightarrow> 1 \<le> cf_num_ports cfg \<and> num_ports d = cf_num_ports cfg \<and> delays_ok cfg d"

named_theorems daemon_inv_intros \<open>operations that preserve the invariant of the daemon\<close>

lemma daemon_inv_cong: "st_port (dm_state d') = st_port (dm_state d) \<Longrightarrow> daemon_inv cfg d' = daemon_inv cfg d"
  by (simp add: daemon_inv_def delays_ok_def)

lemma daemon_inv_simps [simp]:
  "daemon_inv cfg (map_source f d) = daemon_inv cfg d" "daemon_inv cfg (map_servo g d) = daemon_inv cfg d"
  "daemon_inv cfg (map_gm h d) = daemon_inv cfg d" "daemon_inv cfg (count_rx c d) = daemon_inv cfg d"
  "daemon_inv cfg (d\<lparr>dm_timing := t\<rparr>) = daemon_inv cfg d" "daemon_inv cfg (d\<lparr>dm_sw_clock := sw\<rparr>) = daemon_inv cfg d"
  "daemon_inv cfg (d\<lparr>dm_hw_clock := hw\<rparr>) = daemon_inv cfg d" "daemon_inv cfg (ptp_invalidate_timing d) = daemon_inv cfg d"
  "daemon_inv cfg (snd (ptp_settime d env ts)) = daemon_inv cfg d"
  by (intro daemon_inv_cong; simp add: map_source_def map_servo_def map_gm_def count_rx_def ptp_invalidate_timing_def)+

lemma daemon_inv_keep [daemon_inv_intros]:
  "daemon_inv cfg d \<Longrightarrow> (\<And>p. delay_inv cfg (po_delay p) \<Longrightarrow> delay_inv cfg (po_delay (f p))) \<Longrightarrow> daemon_inv cfg (map_port i f d)"
  by (auto simp: daemon_inv_def intro: delays_ok_map_port dest: delays_okD)

lemma daemon_inv_ports: "daemon_inv cfg d \<Longrightarrow> 0 < num_ports d" "daemon_inv cfg d \<Longrightarrow> num_ports d = cf_num_ports cfg"
  by (simp_all add: daemon_inv_def)

lemma bind_announce_inv [daemon_inv_intros]: "daemon_inv cfg d \<Longrightarrow> daemon_inv cfg (snd (bind_announce d i))"
  by (auto simp: bind_announce_def Let_def split_beta map_capable_def intro: daemon_inv_intros)

lemma start_receipt_inv [daemon_inv_intros]: "daemon_inv cfg d \<Longrightarrow> daemon_inv cfg (start_receipt c now d)"
  by (auto simp: start_receipt_def intro: daemon_inv_intros)

lemma switch_source_inv [daemon_inv_intros]: "delay_config cfg \<Longrightarrow> daemon_inv cfg d \<Longrightarrow> daemon_inv cfg (switch_source d)"
  by (auto simp: switch_source_def Let_def delay_inv_def delay_config_def intro!: daemon_inv_keep)

lemma take_source_inv [daemon_inv_intros]: "daemon_inv cfg d \<Longrightarrow> daemon_inv cfg (take_source c d m l p)"
  by (simp add: take_source_def Let_def ptp_update_delay_asymmetry_def ptp_reset_unicast_delay_req_def)

lemma announce_inv [daemon_inv_intros]:
  assumes "delay_config cfg" "daemon_inv cfg d"
  shows "daemon_inv cfg (ptp_process_announce cfg d m l mt now)"
proof -
  have s: "daemon_inv cfg (select_announce cfg e m l p now)" if "daemon_inv cfg e" for e p
    using that assms(1) by (auto simp: select_announce_def Let_def intro!: daemon_inv_intros)
  have b: "daemon_inv cfg (map_port 0 (\<lambda>p. p\<lparr>po_seen := (po_seen p)\<lparr>ps_last_received_announce := mt\<rparr>\<rparr>) (snd (bind_announce d i)))" for i
    using assms(2) by (auto intro!: daemon_inv_intros)
  show ?thesis
    using assms(2) s b bind_announce_inv [OF assms(2)]
    by (auto simp: ptp_process_announce_def Let_def split_beta split: option.splits)
qed

lemma lock_inv [daemon_inv_intros]: "daemon_inv cfg d \<Longrightarrow> daemon_inv cfg (ptp_lock_local_clock_freq c d env r l)"
  by (auto simp: ptp_lock_local_clock_freq_def Let_def split_beta note_stability_def apply_sw_trim_def apply_hw_trim_def
      delay_inv_def intro!: daemon_inv_keep)

lemma clean_inv [daemon_inv_intros]: "daemon_inv cfg d \<Longrightarrow> daemon_inv cfg (ptp_clean_after_step d)"
  by (auto simp: ptp_clean_after_step_def Let_def intro!: daemon_inv_intros)

lemma update_clock_inv [daemon_inv_intros]: "daemon_inv cfg d \<Longrightarrow> daemon_inv cfg (snd (ptp_update_local_clock c d env r l))"
  by (auto simp: ptp_update_local_clock_def Let_def split_beta intro!: daemon_inv_intros)

lemma sync_inv [daemon_inv_intros]: "daemon_inv cfg d \<Longrightarrow> daemon_inv cfg (snd (ptp_process_sync c d m mt now env))"
  by (auto simp: ptp_process_sync_def Let_def intro!: daemon_inv_intros)

lemma followup_inv [daemon_inv_intros]: "daemon_inv cfg d \<Longrightarrow> daemon_inv cfg (snd (ptp_process_followup c d m env now r p))"
  by (auto simp: ptp_process_followup_def accept_follow_up_def observe_sync_receipt_def Let_def split_beta intro!: daemon_inv_intros)

lemma take_path_delay_ports: "take_path_delay cfg d x = Some d' \<Longrightarrow> num_ports d' = num_ports d"
  by (auto simp: take_path_delay_def split: if_splits option.splits)

lemma delay_resp_inv:
  assumes "delay_config cfg" "daemon_inv cfg d"
  shows "\<exists>d'. ptp_process_delay_resp cfg d m now raw = Some d' \<and> daemon_inv cfg d'"
proof -
  obtain d' where d': "ptp_process_delay_resp cfg d m now raw = Some d'" "delays_ok cfg d'"
    using delay_resp_ok [OF assms(1) daemon_inv_ports(1) [OF assms(2)]] assms(2) unfolding daemon_inv_def by blast
  have "num_ports d' = num_ports d"
    using d'(1) by (auto simp: ptp_process_delay_resp_def admit_pdelay_resp_def Let_def split_beta take_path_delay_ports
        split: if_splits option.splits)
  with d' assms(2) show ?thesis by (auto simp: daemon_inv_def)
qed

lemma take_peer_delay_ports: "take_peer_delay cfg d rate q m f t = Some d' \<Longrightarrow> num_ports d' = num_ports d"
  by (auto simp: take_peer_delay_def Let_def split: option.splits)

lemma response_follow_up_inv:
  assumes "delay_config cfg" "daemon_inv cfg d"
  shows "\<exists>d'. ptp_process_delay_resp_follow_up cfg d m g now r = Some d' \<and> daemon_inv cfg d'"
proof -
  obtain d' where d': "ptp_process_delay_resp_follow_up cfg d m g now r = Some d'" "delays_ok cfg d'"
    using follow_up_ok [OF assms(1) daemon_inv_ports(1) [OF assms(2)]] assms(2) unfolding daemon_inv_def by blast
  have "num_ports d' = num_ports d"
    using d'(1) by (auto simp: ptp_process_delay_resp_follow_up_def Let_def split_beta take_peer_delay_ports
        split: if_splits option.splits)
  with d' assms(2) show ?thesis by (auto simp: daemon_inv_def)
qed

lemma delay_req_inv [daemon_inv_intros]:
  "daemon_inv cfg d \<Longrightarrow> daemon_inv cfg (fst (snd (ptp_process_delay_req c d q e e' v u mt)))"
  by (auto simp: ptp_process_delay_req_def Let_def split_beta intro!: daemon_inv_keep)

lemma rx_helpers_inv [daemon_inv_intros]:
  "daemon_inv cfg d \<Longrightarrow> daemon_inv cfg (map_seen i f d)" "daemon_inv cfg d \<Longrightarrow> daemon_inv cfg (set_rx_association a d)"
  "daemon_inv cfg d \<Longrightarrow> daemon_inv cfg (note_endpoint m len base d)" "daemon_inv cfg d \<Longrightarrow> daemon_inv cfg (note_minor_version m i d)"
  "daemon_inv cfg d \<Longrightarrow> daemon_inv cfg (set_capable i g d)"
  by (auto simp: map_seen_def set_rx_association_def note_endpoint_def note_minor_version_def set_capable_def intro!: daemon_inv_keep)

lemma admit_inv [daemon_inv_intros]:
  "daemon_inv cfg d \<Longrightarrow> daemon_inv cfg (snd (admit_sta i d))" "daemon_inv cfg d \<Longrightarrow> daemon_inv cfg (snd (admit_ap c i d))"
  by (auto simp: admit_sta_def admit_ap_def Let_def intro!: daemon_inv_intros)

lemma signaling_inv [daemon_inv_intros]: "daemon_inv cfg d \<Longrightarrow> daemon_inv cfg (process_signaling c m i len env d)"
proof -
  have t: "daemon_inv cfg e \<Longrightarrow> daemon_inv cfg (take_indication i env m e)" for e m
    by (auto simp: take_indication_def Let_def intro!: daemon_inv_intros)
  have q: "daemon_inv cfg e \<Longrightarrow> daemon_inv cfg (take_timing_request c i m e)" for e m
    by (auto simp: take_timing_request_def intro!: daemon_inv_intros)
  have r: "daemon_inv cfg e \<Longrightarrow> daemon_inv cfg (take_interval_request i m e)" for e m
    by (auto simp: take_interval_request_def Let_def intro!: daemon_inv_intros)
  show "daemon_inv cfg d \<Longrightarrow> daemon_inv cfg (process_signaling c m i len env d)"
    by (auto simp: process_signaling_def Let_def t q r split: option.splits signaling.splits)
qed

lemma dispatch_timing_inv [daemon_inv_intros]:
  "delay_config cfg \<Longrightarrow> daemon_inv cfg d \<Longrightarrow> daemon_inv cfg (snd (dispatch_timing cfg m ty len env d))"
  by (auto simp: dispatch_timing_def Let_def intro!: daemon_inv_intros)

text \<open>A handler's result is defined and keeps the invariant.\<close>

definition handled :: "ptp_config \<Rightarrow> (bool \<times> ptp_daemon \<times> transmission list) option \<Rightarrow> bool" where
  "handled cfg r \<longleftrightarrow> r \<noteq> None \<and> daemon_inv cfg (fst (snd (the r)))"

lemma handled_quietly [simp]: "handled cfg (quietly d) = daemon_inv cfg d"
  by (auto simp: handled_def quietly_def)

lemma handled_bind: "\<exists>d'. r = Some d' \<and> daemon_inv cfg d' \<Longrightarrow> handled cfg (Option.bind r quietly)"
  by auto

lemma dispatch_inv:
  assumes "delay_config cfg" "daemon_inv cfg d"
  shows "handled cfg (dispatch cfg m i len env d)"
proof -
  have e: "daemon_inv cfg (note_endpoint m len 54 (count_rx f d))" for f
    using assms(2) by (intro daemon_inv_intros) simp
  have resp: "handled cfg (dispatch_response cfg m ty i len env d)" for ty
    using assms(2) by (auto simp: dispatch_response_def Let_def intro!: handled_bind delay_resp_inv [OF assms(1) e])
  have fup: "handled cfg (dispatch_response_follow_up cfg m i len env d)"
    using assms(2) by (auto simp: dispatch_response_follow_up_def Let_def intro!: handled_bind response_follow_up_inv [OF assms(1) e])
  have req: "handled cfg (dispatch_request cfg m len env d)"
    using delay_req_inv [OF e] by (auto simp: dispatch_request_def Let_def handled_def split_beta)
  have tim: "handled cfg (case dispatch_timing cfg m ty len env d of (ok, d) \<Rightarrow> Some (ok, d, []))" for ty
    using dispatch_timing_inv [OF assms] by (auto simp: handled_def split_beta)
  have cap: "daemon_inv cfg (map_port 0 (\<lambda>p. p\<lparr>po_sync := (po_sync p)\<lparr>ts_twostep_pending := False\<rparr>\<rparr>) d)"
    using assms(2) by (auto intro!: daemon_inv_keep)
  show ?thesis
    using assms(2) resp fup req tim cap signaling_inv [OF assms(2)] by (simp add: dispatch_def Let_def)
qed

lemma rx_keeps_inv:
  assumes "delay_config cfg" "daemon_inv cfg d"
  shows "case ptp_process_rx_packet cfg d received ingress_port env of
      None \<Rightarrow> False
    | Some (Inl e) \<Rightarrow> e = EINVAL \<and> \<not> valid_port cfg ingress_port
    | Some (Inr (ok, d', sent)) \<Rightarrow> valid_port cfg ingress_port \<and> daemon_inv cfg d'"
proof -
  define i where "i = nat ingress_port"
  have m: "daemon_inv cfg (note_minor_version (rxbuf d) i d)" using assms(2) by (rule daemon_inv_intros)
  obtain sta d1 where s: "admit_sta i (note_minor_version (rxbuf d) i d) = (sta, d1)" by fastforce
  obtain ap d2 where a: "admit_ap cfg i d1 = (ap, d2)" by fastforce
  have inv: "daemon_inv cfg d1" "daemon_inv cfg d2"
    using admit_inv(1) [OF m, of i] s admit_inv(2) [of cfg d1 cfg i] a by simp_all
  have h: "handled cfg (dispatch cfg (rxbuf d) i len env (map_seen i f d2))" for len f
    by (intro dispatch_inv assms(1) rx_helpers_inv inv(2))
  have al: "daemon_inv cfg (map_seen i f d)" for f using assms(2) by (rule daemon_inv_intros)
  show ?thesis
  proof (cases "valid_port cfg ingress_port")
    case True
    obtain r alive where adm: "message_admitted cfg (rxbuf d) d received = (r, alive)" by fastforce
    have "\<exists>ok d' sent. ptp_process_rx_packet cfg d received ingress_port env = Some (Inr (ok, d', sent)) \<and> daemon_inv cfg d'"
    proof (cases r)
      case None
      then show ?thesis using True adm al assms(2) by (auto simp: ptp_process_rx_packet_def process_message_def quietly_def i_def)
    next
      case (Some len)
      then show ?thesis
        using True adm s a inv h [of len "\<lambda>s. s\<lparr>ps_last_received_multicast := rv_multicast_ts env\<rparr>"]
        by (auto simp: ptp_process_rx_packet_def process_message_def quietly_def handled_def i_def [symmetric])
    qed
    then show ?thesis using True by auto
  qed (simp add: ptp_process_rx_packet_def process_message_def)
qed

section \<open>Reading within the message\<close>

text \<open>A reader of the message sees only its first octets: buffers that agree on them are read alike.\<close>

named_theorems same_reading \<open>readers of a message depend on its first octets only\<close>

lemma take_eq_less: "take n m = take n m' \<Longrightarrow> k \<le> n \<Longrightarrow> take k m = take k m'"
  by (metis min.absorb1 take_take)

lemma slice_eq_of_take:
  assumes "take n m = take n m'" "off + k \<le> n"
  shows "slice off k m = slice off k m'"
proof -
  have "take (off + k) m = take (off + k) m'" by (rule take_eq_less [OF assms])
  then have "drop off (take (off + k) m) = drop off (take (off + k) m')" by simp
  then show ?thesis by (simp add: slice_def drop_take)
qed

lemma header_same [same_reading]:
  assumes "take n m = take n m'" "34 \<le> n"
  shows "header_of m' = header_of m"
proof -
  have "slice off k m' = slice off k m" if "off + k \<le> 34" for off k
    using slice_eq_of_take [OF assms(1), of off k] that assms(2) by simp
  moreover have "m' ! i = m ! i" if "i < 34" for i using nth_eq_of_take [OF assms(1), of i] that assms(2) by simp
  ultimately show ?thesis by (simp add: header_of_def)
qed

lemma sync_same [same_reading]: "take n m = take n m' \<Longrightarrow> 44 \<le> n \<Longrightarrow> sync_of m' = sync_of m"
  using header_same [of n m m'] slice_eq_of_take [of n m m' 34 10] by (simp add: sync_of_def)

lemma response_same [same_reading]:
  assumes "take n m = take n m'" "54 \<le> n"
  shows "delay_resp_of m' = delay_resp_of m" "delay_resp_follow_up_of m' = delay_resp_follow_up_of m"
  using header_same [OF assms(1)] slice_eq_of_take [OF assms(1), of 34 10] slice_eq_of_take [OF assms(1), of 44 8]
    slice_eq_of_take [OF assms(1), of 52 2] assms(2)
  by (simp_all add: delay_resp_of_def delay_resp_follow_up_of_def)

lemma timing_payload_same [same_reading]:
  assumes "take n m = take n m'" "len \<le> n"
  shows "ptp_timing_payload_valid (Some m') len = ptp_timing_payload_valid (Some m) len"
proof (cases "len < 76")
  case False
  then have "m' ! i = m ! i" if "i < 4" for i using nth_eq_of_take [OF assms(1), of i] that assms(2) by simp
  moreover have "slice 44 10 m' = slice 44 10 m"
    using slice_eq_of_take [OF assms(1), of 44 10] False assms(2) by simp
  ultimately show ?thesis by (simp add: ptp_timing_payload_valid_def)
qed (simp add: ptp_timing_payload_valid_def PTP_TIMING_FOLLOW_UP_SIZE_def)

lemma path_walk_same:
  "take len m = take len m' \<Longrightarrow> path_walk m' len loc found off = path_walk m len loc found off"
proof (induction m len loc found off rule: path_walk.induct)
  case (1 m len loc found off)
  show ?case
  proof (cases "off < len \<and> \<not> len - off < 4")
    case False
    then show ?thesis by (auto simp: path_walk.simps [of m len loc found off] path_walk.simps [of m' len loc found off])
  next
    case True
    define n where "n = be16 (m ! Suc (Suc off)) (m ! (off + 3))"
    have eq: "m' ! off = m ! off" "m' ! Suc off = m ! Suc off" "m' ! Suc (Suc off) = m ! Suc (Suc off)" "m' ! (off + 3) = m ! (off + 3)"
      using True by (auto intro!: nth_eq_of_take [OF "1.prems", symmetric])
    show ?thesis
    proof (cases "n > len - (off + 4)")
      case bad: True
      then show ?thesis using True eq by (simp add: path_walk.simps [of m len loc found off] path_walk.simps [of m' len loc found off] n_def Let_def)
    next
      case ok: False
      have "slice (off + 4 + index * 8) 8 m' = slice (off + 4 + index * 8) 8 m" if "index < n div 8" for index
      proof -
        have "(index + 1) * 8 \<le> n" using that less_eq_div_iff_mult_less_eq [of 8 "index + 1" n] by simp
        then show ?thesis using slice_eq_of_take [OF "1.prems", of "off + 4 + index * 8" 8] ok True by simp
      qed
      then have ids: "path_identities m' (off + 4) (n div 8) = path_identities m (off + 4) (n div 8)"
        by (simp add: path_identities_def)
      show ?thesis
        using "1.IH" "1.prems" True ok eq ids
        by (simp add: path_walk.simps [of m len loc found off] path_walk.simps [of m' len loc found off] Let_def flip: n_def)
    qed
  qed
qed

lemma path_trace_same [same_reading]:
  assumes "take len m = take len m'"
  shows "ptp_path_trace_parse m' len loc = ptp_path_trace_parse m len loc"
proof (cases "len < 64")
  case False
  then have "m' ! i = m ! i" if "i < 4" for i using nth_eq_of_take [OF assms, of i] that by simp
  moreover have "path_walk m' k loc None 64 = path_walk m k loc None 64" if "k \<le> len" for k
    by (rule path_walk_same [OF take_eq_less [OF assms that]])
  ultimately show ?thesis by (simp add: ptp_path_trace_parse_def PTP_ANNOUNCE_BODY_LENGTH_def Let_def)
qed (simp add: ptp_path_trace_parse_def PTP_ANNOUNCE_BODY_LENGTH_def)

lemma lite_walk_same:
  "take len m = take len m' \<Longrightarrow> 6 \<le> mn \<Longrightarrow> lite_tlv_walk m' len sub mn off = lite_tlv_walk m len sub mn off"
proof (induction m len sub mn off rule: lite_tlv_walk.induct)
  case (1 m len sub mn off)
  show ?case
  proof (cases "off + 4 \<le> len")
    case False
    then show ?thesis by (simp add: lite_tlv_walk.simps [of m len sub mn off] lite_tlv_walk.simps [of m' len sub mn off])
  next
    case True
    define n where "n = be16 (m ! Suc (Suc off)) (m ! (off + 3))"
    have eq: "m' ! off = m ! off" "m' ! Suc off = m ! Suc off" "m' ! Suc (Suc off) = m ! Suc (Suc off)" "m' ! (off + 3) = m ! (off + 3)"
      using True by (auto intro!: nth_eq_of_take [OF "1.prems"(1), symmetric])
    show ?thesis
    proof (cases "off + 4 + n > len")
      case bad: True
      then show ?thesis using True eq by (simp add: lite_tlv_walk.simps [of m len sub mn off] lite_tlv_walk.simps [of m' len sub mn off] n_def Let_def)
    next
      case ok: False
      have "slice (off + 4) 3 m' = slice (off + 4) 3 m" "slice (off + 7) 3 m' = slice (off + 7) 3 m" if "6 \<le> n"
        using slice_eq_of_take [OF "1.prems"(1), of "off + 4" 3] slice_eq_of_take [OF "1.prems"(1), of "off + 7" 3] ok that
        by simp_all
      then have f: "lite_tlv_match m' off sub mn = lite_tlv_match m off sub mn"
        using eq by (cases "6 \<le> n") (simp_all add: lite_tlv_match_def Let_def add.commute flip: n_def)
      show ?thesis
        using "1.IH" "1.prems" True ok eq f
        by (simp add: lite_tlv_walk.simps [of m len sub mn off] lite_tlv_walk.simps [of m' len sub mn off] Let_def flip: n_def)
    qed
  qed
qed

lemma lite_tlvs_same [same_reading]:
  assumes "take len m = take len m'"
  shows "ptp_msg_has_endpoint_decl_tlv m' len base = ptp_msg_has_endpoint_decl_tlv m len base"
    and "announced_link_mbps d m' len = announced_link_mbps d m len"
proof -
  have w: "lite_tlv_walk m' len sub mn off = lite_tlv_walk m len sub mn off" if "6 \<le> mn" for sub mn off
    by (rule lite_walk_same [OF assms that])
  have "m' ! (v + 6) = m ! (v + 6)" if "lite_tlv_walk m len endpoint_decl_subtype 7 base = Some v" for v
    using lite_tlv_walk_bounds [OF that] by (intro nth_eq_of_take [OF assms, symmetric]) simp
  then show "ptp_msg_has_endpoint_decl_tlv m' len base = ptp_msg_has_endpoint_decl_tlv m len base"
    by (auto simp: ptp_msg_has_endpoint_decl_tlv_def ptp_find_lite_tlv_def w split: option.splits)
  have "slice (v + 6) 4 m' = slice (v + 6) 4 m" if "lite_tlv_walk m len gm_link_subtype 10 PTP_ANNOUNCE_BODY_LENGTH = Some v" for v
    using lite_tlv_walk_bounds [OF that] slice_eq_of_take [OF assms, of "v + 6" 4] by simp
  then show "announced_link_mbps d m' len = announced_link_mbps d m len"
    by (auto simp: announced_link_mbps_def ptp_find_lite_tlv_def w split: option.splits)
qed

text \<open>The cast of an Announce reaches past its body of 64 octets; nothing uses that field.\<close>

lemma announce_same:
  assumes "take n m = take n m'" "64 \<le> n"
  shows "announce_of m' = (announce_of m)\<lparr>an_pathtracetlv := slice 64 12 m'\<rparr>"
proof -
  have "slice off k m' = slice off k m" if "off + k \<le> 64" for off k
    using slice_eq_of_take [OF assms(1), of off k] that assms(2) by simp
  moreover have "m' ! i = m ! i" if "i < 64" for i using nth_eq_of_take [OF assms(1), of i] that assms(2) by simp
  moreover have "header_of m' = header_of m" by (rule header_same [OF assms(1)]) (use assms(2) in simp)
  ultimately show ?thesis by (simp add: announce_of_def)
qed

lemma is_better_clock_path [simp]: "is_better_clock (a\<lparr>an_pathtracetlv := t\<rparr>) b = is_better_clock a b"
  by (simp add: is_better_clock_def system_identity_def)

lemma process_announce_same [same_reading]:
  assumes "take len m = take len m'" "64 \<le> len"
  shows "ptp_process_announce cfg d m' len mt now = ptp_process_announce cfg d m len mt now"
proof -
  have "take_source cfg e m' len path = take_source cfg e m len path" for e path
    using take_eq_less [OF assms] lite_tlvs_same(2) [OF assms(1)]
    by (simp add: take_source_def PTP_ANNOUNCE_BODY_LENGTH_def)
  then have "select_announce cfg e m' len path now = select_announce cfg e m len path now" for e path
    by (simp add: select_announce_def announce_same [OF assms] system_identity_def Let_def)
  then show ?thesis
    by (cases "ptp_path_trace_parse m len (hd_sourceidentity (an_header (st_own_identity (dm_state d))))")
      (auto simp: ptp_process_announce_def path_trace_same [OF assms(1)] announce_same [OF assms] split_beta Let_def)
qed

text \<open>The fields a gPTP Follow\_Up adds are read in gPTP operation only.\<close>

lemma process_followup_same [same_reading]:
  assumes "take n m = take n m'" "44 \<le> n" "dm_gptp d \<Longrightarrow> 76 \<le> n"
  shows "ptp_process_followup cfg d m' env now r p = ptp_process_followup cfg d m env now r p"
proof -
  have h: "header_of m' = header_of m" by (rule header_same [OF assms(1)]) (use assms(2) in simp)
  have ts: "slice 34 10 m' = slice 34 10 m" using slice_eq_of_take [OF assms(1), of 34 10] assms(2) by simp
  have g: "ptp_timing_payload_valid (Some m') 76 = ptp_timing_payload_valid (Some m) 76"
    "slice 58 k m' = slice 58 k m" "take 76 m' = take 76 m" if "dm_gptp d" "k \<le> 18" for k
    using timing_payload_same [OF assms(1), of 76] slice_eq_of_take [OF assms(1), of 58 k] take_eq_less [OF assms(1), of 76]
      assms(3) [OF that(1)] that(2) by simp_all
  have c: "follow_up_completes d m' now = follow_up_completes d m now"
    using g(1) [of 0] by (auto simp: follow_up_completes_def h Let_def)
  have a: "accept_follow_up d m' = accept_follow_up d m"
    using g(2) [of PTP_GM_FIELDS_LEN] by (simp add: accept_follow_up_def h PTP_GM_FIELDS_LEN_def Let_def)
  have s: "next_snapshot e m' p = next_snapshot e m p" if "dm_gptp d" for e
    using g(2) [OF that, of 2] g(3) [OF that, of 0] by (simp add: next_snapshot_def ts PTP_TIMING_FOLLOW_UP_SIZE_def Let_def)
  show ?thesis
  proof (cases "dm_gptp d")
    case True
    show ?thesis by (simp add: ptp_process_followup_def c a ts s [OF True] g(1) [OF True, of 0] split_beta Let_def cong: if_cong split del: if_split)
  qed (simp add: ptp_process_followup_def c a ts split_beta Let_def cong: if_cong split del: if_split)
qed


lemma find_tlv_same:
  assumes "take n m = take n m'"
  shows "ptp_signaling_find_tlv (Some m') n domain lp subtype = ptp_signaling_find_tlv (Some m) n domain lp subtype"
proof (cases "n < 44")
  case True
  then show ?thesis by (simp add: ptp_signaling_find_tlv_def split: option.split)
next
  case False
  then have nth: "m' ! i = m ! i" if "i < 44" for i using nth_eq_of_take [OF assms, of i] that by simp
  then have len: "message_length m' = message_length m" by (simp add: message_length_def)
  have sl: "slice off k m' = slice off k m" if "off + k \<le> 44" for off k
    using slice_eq_of_take [OF assms, of off k] that False by simp
  have walk: "sig_walk m' (message_length m) subtype 44 0 None = sig_walk m (message_length m) subtype 44 0 None"
    if "message_length m \<le> n"
    using sig_walk_cong [OF take_eq_less [OF assms that]] by simp
  show ?thesis using nth sl walk by (simp add: ptp_signaling_find_tlv_def len split: option.split)
qed

lemma found_tlv_fits:
  assumes "ptp_signaling_find_tlv (Some m) n domain lp subtype = SIG_FOUND tlv"
  shows "44 \<le> n \<and> tlv + (if subtype = 5 then 14 else 16) \<le> n"
proof -
  from assms have n: "44 \<le> n" "message_length m \<le> n" and w: "sig_walk m (message_length m) subtype 44 0 None = SIG_FOUND tlv"
    by (auto simp: ptp_signaling_find_tlv_def split: option.splits if_splits)
  have "tlv_at m (message_length m) subtype tlv" by (rule sig_walk_found [OF w]) simp_all
  with n show ?thesis by (auto simp: tlv_at_def Let_def)
qed

lemma signaling_same [same_reading]:
  assumes "take n m = take n m'"
  shows "process_signaling cfg m' i n env d = process_signaling cfg m i n env d"
proof -
  have sl: "slice 20 10 m' = slice 20 10 m" if "44 \<le> n" using slice_eq_of_take [OF assms, of 20 10] that by simp
  have at: "m' ! (tlv + k) = m ! (tlv + k)" if "tlv + k < n" for tlv k using nth_eq_of_take [OF assms that] by simp
  have cap: "ptp_signaling_read_capable_tlv (Some m') n dom lp st = ptp_signaling_read_capable_tlv (Some m) n dom lp st" for dom lp st
    using sl at found_tlv_fits [of m n dom lp st]
    by (cases "ptp_signaling_find_tlv (Some m) n dom lp st")
      (auto simp: ptp_signaling_read_capable_tlv_def find_tlv_same [OF assms] split: if_splits)
  have itv: "ptp_signaling_read_message_interval (Some m') n dom lp = ptp_signaling_read_message_interval (Some m) n dom lp" for dom lp
    using sl at found_tlv_fits [of m n dom lp 2]
    by (cases "ptp_signaling_find_tlv (Some m) n dom lp 2")
      (auto simp: ptp_signaling_read_message_interval_def find_tlv_same [OF assms])
  show ?thesis
    by (cases "local_port cfg i d")
      (simp_all add: process_signaling_def ptp_signaling_read_capable_def ptp_signaling_read_capable_interval_def cap itv Let_def)
qed

text \<open>The octets of a received message that may be looked at: those of the length it was admitted
  with, or, when it is refused, those that were received.\<close>

definition message_extent :: "ptp_config \<Rightarrow> bytes \<Rightarrow> ptp_daemon \<Rightarrow> int \<Rightarrow> nat" where
  "message_extent cfg m d received =
     (case fst (message_admitted cfg m d received) of None \<Rightarrow> nat received | Some len \<Rightarrow> len)"

lemma message_minimum_34: "34 \<le> message_minimum octet"
  by (simp add: message_minimum_def Let_def)

lemma bounded_length_bounds:
  assumes "ptp_message_bounded_length (Some m) n = len" "len \<noteq> 0"
  shows "34 \<le> len" "len \<le> n" "message_minimum (m ! 0) \<le> len"
  using assms message_minimum_34 [of "m ! 0"] by (auto simp: ptp_message_bounded_length_def Let_def split: if_splits)

lemma admitted_bounds:
  assumes "message_admitted cfg m d received = (Some len, alive)"
  shows "message_minimum (m ! 0) \<le> len" "34 \<le> len" "len \<le> nat received"
    and "dm_gptp d \<and> and (m ! 0) 15 = 8 \<longrightarrow> 76 \<le> len"
proof -
  let ?len = "ptp_message_bounded_length (Some m) (nat received)"
  have l: "?len = len" "len \<noteq> 0"
    and g: "dm_gptp d \<and> and (m ! 0) PTP_MSGTYPE_MASK = PTP_MSGTYPE_FOLLOW_UP \<Longrightarrow> ptp_timing_payload_valid (Some m) len"
    using assms by (auto simp: message_admitted_def header_of_def Let_def split: if_splits)
  show "message_minimum (m ! 0) \<le> len" "34 \<le> len" "len \<le> nat received" using bounded_length_bounds [OF l] by simp_all
  show "dm_gptp d \<and> and (m ! 0) 15 = 8 \<longrightarrow> 76 \<le> len"
    using g by (auto simp: PTP_MSGTYPE_MASK_def PTP_MSGTYPE_FOLLOW_UP_def ptp_timing_payload_valid_def
        PTP_TIMING_FOLLOW_UP_SIZE_def split: if_splits)
qed

lemma message_admitted_same [same_reading]:
  assumes "take (message_extent cfg m d received) m = take (message_extent cfg m d received) m'"
  shows "message_admitted cfg m' d received = message_admitted cfg m d received"
proof (cases "received < 34")
  case False
  let ?n = "message_extent cfg m d received"
  let ?len = "ptp_message_bounded_length (Some m) (nat received)"
  have n: "34 \<le> ?n" "?len \<le> ?n"
  proof -
    obtain r alive where r: "message_admitted cfg m d received = (r, alive)" by fastforce
    show "34 \<le> ?n" using False admitted_bounds(2) [of cfg m d received] by (cases r) (simp_all add: message_extent_def r)
    show "?len \<le> ?n"
    proof (cases r)
      case None
      have "?len \<le> nat received" using bounded_length_bounds(2) [of m "nat received" ?len] by (cases "?len = 0") simp_all
      then show ?thesis by (simp add: message_extent_def r None)
    next
      case (Some len)
      then have "?len = len" using r by (auto simp: message_admitted_def Let_def split: if_splits)
      then show ?thesis by (simp add: message_extent_def r Some)
    qed
  qed
  have "m' ! i = m ! i" if "i < 34" for i using nth_eq_of_take [OF assms, of i] n(1) that by simp
  then have "ptp_message_bounded_length (Some m') (nat received) = ?len" by (simp add: ptp_message_bounded_length_def)
  moreover have "ptp_timing_payload_valid (Some m') ?len = ptp_timing_payload_valid (Some m) ?len"
    by (rule timing_payload_same [OF assms n(2)])
  ultimately show ?thesis using header_same [OF assms n(1)] by (simp add: message_admitted_def Let_def)
qed (simp add: message_admitted_def)

lemma dispatch_same:
  assumes eq: "take len m = take len m'" and min: "message_minimum (m ! 0) \<le> len"
    and gptp: "dm_gptp d \<and> and (m ! 0) 15 = 8 \<longrightarrow> 76 \<le> len"
  shows "dispatch cfg m' i len env d = dispatch cfg m i len env d"
proof -
  define ty where "ty = and (m ! 0) 15"
  have h: "header_of m' = header_of m" by (rule header_same [OF eq]) (use min message_minimum_34 [of "m ! 0"] in simp)
  have e: "note_endpoint m' len 54 e = note_endpoint m len 54 e" for e
    by (simp add: note_endpoint_def lite_tlvs_same(1) [OF eq])
  have ann: "64 \<le> len" if "ty = 11" using min that by (simp add: message_minimum_def ty_def [symmetric])
  have sync: "44 \<le> len" if "ty = 0" using min that by (simp add: message_minimum_def ty_def [symmetric])
  have fup: "44 \<le> len" if "ty = 8" using min that by (simp add: message_minimum_def ty_def [symmetric] split: if_splits)
  have resp: "54 \<le> len" if "ty \<in> {3, 9, 10}" using min that by (auto simp: message_minimum_def ty_def [symmetric])
  have tim: "dispatch_timing cfg m' ty len env d = dispatch_timing cfg m ty len env d" if "timing_message ty"
  proof -
    have "ty = 11 \<or> ty = 0 \<or> ty = 8" using that
      by (simp add: timing_message_def PTP_MSGTYPE_ANNOUNCE_def PTP_MSGTYPE_SYNC_def PTP_MSGTYPE_FOLLOW_UP_def)
    then show ?thesis
    proof (elim disjE)
      assume t: "ty = 11"
      then show ?thesis using process_announce_same [OF eq ann [OF t]] by (simp add: dispatch_timing_def PTP_MSGTYPE_ANNOUNCE_def Let_def)
    next
      assume t: "ty = 0"
      then show ?thesis using sync_same [OF eq sync [OF t]]
        by (simp add: dispatch_timing_def PTP_MSGTYPE_ANNOUNCE_def PTP_MSGTYPE_SYNC_def Let_def)
    next
      assume t: "ty = 8"
      have "ptp_process_followup cfg (count_rx c d) m' = ptp_process_followup cfg (count_rx c d) m" for c
        by (intro ext process_followup_same [OF eq fup [OF t]]) (use gptp t in \<open>simp add: ty_def count_rx_def\<close>)
      then show ?thesis using t by (simp add: dispatch_timing_def PTP_MSGTYPE_ANNOUNCE_def PTP_MSGTYPE_SYNC_def Let_def)
    qed
  qed
  have rsp: "dispatch_response cfg m' ty i len env d = dispatch_response cfg m ty i len env d"
    if "ty = PTP_MSGTYPE_DELAY_RESP \<or> ty = PTP_MSGTYPE_PDELAY_RESP"
    using response_same [OF eq] resp that
    by (auto simp: dispatch_response_def e PTP_MSGTYPE_DELAY_RESP_def PTP_MSGTYPE_PDELAY_RESP_def)
  have req: "dispatch_request cfg m' len env d = dispatch_request cfg m len env d" by (simp add: dispatch_request_def e h)
  have rfu: "dispatch_response_follow_up cfg m' i len env d = dispatch_response_follow_up cfg m i len env d"
    if "ty = PTP_MSGTYPE_PDELAY_RESP_FOLLOW_UP"
    using response_same [OF eq] resp that by (simp add: dispatch_response_follow_up_def e PTP_MSGTYPE_PDELAY_RESP_FOLLOW_UP_def)
  have "and (hd_messagetype (header_of m)) PTP_MSGTYPE_MASK = ty" by (simp add: header_of_def ty_def PTP_MSGTYPE_MASK_def)
  then show ?thesis using tim rsp req rfu signaling_same [OF eq] by (simp add: dispatch_def h Let_def cong: if_cong split del: if_split)
qed

lemma admit_gptp [simp]:
  "ptp_is_gptp (dm_state (snd (admit_sta i d))) = dm_gptp d" "ptp_is_gptp (dm_state (snd (admit_ap c i d))) = dm_gptp d"
  "ptp_is_gptp (dm_state (map_seen i f d)) = dm_gptp d" "ptp_is_gptp (dm_state (note_minor_version m i d)) = dm_gptp d"
  by (simp_all add: admit_sta_def admit_ap_def set_rx_association_def map_seen_def note_minor_version_def Let_def)

lemma process_message_same:
  assumes "take (message_extent cfg m d received) m = take (message_extent cfg m d received) m'"
  shows "process_message cfg m' d received port env = process_message cfg m d received port env"
proof -
  obtain r alive where adm: "message_admitted cfg m d received = (r, alive)" by fastforce
  show ?thesis
  proof (cases r)
    case None
    then show ?thesis by (simp add: process_message_def message_admitted_same [OF assms] adm)
  next
    case (Some len)
    note b = admitted_bounds [OF adm [unfolded Some]]
    have eq: "take len m = take len m'" using assms by (simp add: message_extent_def adm Some)
    have "m' ! 1 = m ! 1" using nth_eq_of_take [OF eq, of 1] b(2) by simp
    then have v: "note_minor_version m' i e = note_minor_version m i e" for i e by (simp add: note_minor_version_def)
    have "dispatch cfg m' i len env e = dispatch cfg m i len env e" if "dm_gptp e = dm_gptp d" for i e
      by (rule dispatch_same [OF eq b(1)]) (use b(4) that in simp)
    then show ?thesis by (simp add: process_message_def message_admitted_same [OF assms] adm Some v Let_def split_beta)
  qed
qed

text \<open>C14. Reception looks at nothing outside the message.  The length a message is admitted with is
  at most what was received and at least the size of the structure its type is read as.  And
  whatever the receive buffer holds after that length - or, for a message that is refused, after
  the received octets - has no influence: with any other buffer that agrees on the octets of the
  message, every port, state and time give the same result, messages sent and state.\<close>

theorem rx_reads_within_message:
  assumes "take (message_extent cfg (rxbuf d) d received) m = take (message_extent cfg (rxbuf d) d received) (rxbuf d)"
  shows "ptp_process_rx_packet cfg d received ingress_port env = process_message cfg m d received ingress_port env \<and>
    (case fst (message_admitted cfg (rxbuf d) d received) of
       None \<Rightarrow> True
     | Some len \<Rightarrow> message_minimum (rxbuf d ! 0) \<le> len \<and> len \<le> nat received)"
proof
  show "ptp_process_rx_packet cfg d received ingress_port env = process_message cfg m d received ingress_port env"
    using process_message_same [OF assms [symmetric]] by (simp add: ptp_process_rx_packet_def)
  obtain r alive where "message_admitted cfg (rxbuf d) d received = (r, alive)" by fastforce
  then show "case fst (message_admitted cfg (rxbuf d) d received) of None \<Rightarrow> True
     | Some len \<Rightarrow> message_minimum (rxbuf d ! 0) \<le> len \<and> len \<le> nat received"
    using admitted_bounds [of cfg "rxbuf d" d received] by (cases r) simp_all
qed

section \<open>Concrete receptions\<close>

text \<open>An empty buffer and a buffer that claims to be a Pdelay\_Resp\_Follow\_Up.\<close>

definition rx_env_example :: rx_env where
  "rx_env_example = \<lparr>rv_alive_ts = timespec_zero, rv_multicast_ts = timespec_zero, rv_capable_us = 0, rv_neighbor_us = 0,
     rv_indication_us = 0, rv_indication_ts = timespec_zero, rv_mono_ts = timespec_zero, rv_sync_us = 0, rv_now_us = 20,
     rv_receipt_us = 30, rv_published_us = 40, rv_clock = hw_env_example, rv_random = 0, rv_tx = tx_env_example,
     rv_tx' = tx_env_example, rv_conv = 0, rv_unset = timespec_zero\<rparr>"

definition receiving_example :: ptp_daemon where
  "receiving_example = map_port 0 (\<lambda>p. p\<lparr>po_rx := (po_rx p)\<lparr>rx_rxbuf :=
     [0x1a, 0x12, 0, 54] @ replicate 252 0\<rparr>\<rparr>) measuring_example"

theorem rx_reads_within_message_witness:
  "ptp_process_rx_packet config_default receiving_example 54 0 rx_env_example =
     process_message config_default (take 54 (rxbuf receiving_example) @ [9, 8, 7]) receiving_example 54 0 rx_env_example \<and>
   fst (message_admitted config_default (rxbuf receiving_example) receiving_example 54) = Some 54"
proof -
  have e: "take (message_extent config_default (rxbuf receiving_example) receiving_example 54)
      (take 54 (rxbuf receiving_example) @ [9, 8, 7]) =
      take (message_extent config_default (rxbuf receiving_example) receiving_example 54) (rxbuf receiving_example)"
    and a: "fst (message_admitted config_default (rxbuf receiving_example) receiving_example 54) = Some 54"
    by code_simp+
  from rx_reads_within_message [OF e] a show ?thesis by blast
qed

section \<open>What a radio port can reach\<close>

text \<open>The state that follows the time of the network: servo and clocks, the selected source, the
  published snapshot, and the measurements of the wired port.\<close>

definition timing_part :: "ptp_daemon \<Rightarrow> (ptp_servo \<times> ptp_source \<times> ptp_gm_base \<times> ptp_timing_snapshot \<times> sw_clock \<times> clock_action list) \<times>
    ptp_port_sync \<times> ptp_port_delay \<times> ptp_peer_exchange \<times> ptp_peer_rate" where
  "timing_part d =
     ((dm_servo d, dm_source d, dm_gm d, dm_timing d, dm_sw_clock d, dm_hw_clock d),
      po_sync (port_at d 0), po_delay (port_at d 0), po_peer_exchange (port_at d 0), po_peer_rate (port_at d 0))"

lemma timing_part_map_port:
  assumes "\<And>p. po_sync (f p) = po_sync p" "\<And>p. po_delay (f p) = po_delay p"
    and "\<And>p. po_peer_exchange (f p) = po_peer_exchange p" "\<And>p. po_peer_rate (f p) = po_peer_rate p"
  shows "timing_part (map_port i f d) = timing_part d"
proof (cases "i < num_ports d")
  case True
  then show ?thesis using assms by (auto simp: timing_part_def)
qed (simp add: timing_part_def map_port_def port_at_def list_update_beyond)

lemma timing_part_simps [simp]:
  "timing_part (map_seen i f d) = timing_part d" "timing_part (set_rx_association a d) = timing_part d"
  "timing_part (note_endpoint m len base d) = timing_part d" "timing_part (note_minor_version m i d) = timing_part d"
  "timing_part (set_capable i g d) = timing_part d"
  by (simp_all add: map_seen_def set_rx_association_def note_endpoint_def note_minor_version_def set_capable_def timing_part_map_port)

lemma timing_part_admit [simp]:
  "timing_part (snd (admit_sta i d)) = timing_part d" "timing_part (snd (admit_ap c i d)) = timing_part d"
  by (simp_all add: admit_sta_def admit_ap_def Let_def)

lemma timing_part_signaling [simp]: "timing_part (process_signaling c m i len env d) = timing_part d"
  by (simp add: process_signaling_def take_indication_def take_timing_request_def take_interval_request_def Let_def
      split: option.splits signaling.splits)

lemma rxbuf_keep:
  assumes "\<And>p. rx_rxbuf (po_rx (f p)) = rx_rxbuf (po_rx p)"
  shows "rxbuf (map_port i f d) = rxbuf d"
proof (cases "i < num_ports d")
  case True
  then show ?thesis using assms by auto
qed (simp add: map_port_def port_at_def list_update_beyond)

lemma rxbuf_simps [simp]:
  "rxbuf (map_seen i f d) = rxbuf d" "rxbuf (set_rx_association a d) = rxbuf d" "rxbuf (note_minor_version m i d) = rxbuf d"
  by (simp_all add: map_seen_def set_rx_association_def note_minor_version_def rxbuf_keep)

lemma rxbuf_admit [simp]: "rxbuf (snd (admit_sta i d)) = rxbuf d" "rxbuf (snd (admit_ap c i d)) = rxbuf d"
  by (simp_all add: admit_sta_def admit_ap_def Let_def)

definition delay_request :: "bytes \<Rightarrow> bool" where
  "delay_request m \<longleftrightarrow> and (hd_messagetype (header_of m)) PTP_MSGTYPE_MASK \<in> {PTP_MSGTYPE_DELAY_REQ, PTP_MSGTYPE_PDELAY_REQ}"

lemma dispatch_radio:
  assumes "i \<noteq> 0" "\<not> delay_request m"
  shows "\<exists>d'. dispatch cfg m i len env d = quietly d' \<and> timing_part d' = timing_part d"
  using assms by (auto simp: dispatch_def dispatch_response_def dispatch_response_follow_up_def delay_request_def Let_def)

text \<open>C22. Timing follows the first port only.  A message that comes in by another port, whatever it
  contains, sends nothing and leaves the servo, the clocks, the selected source, the published
  time, the pending Sync and the peer-delay measurements as they are, unless it is a delay
  request.\<close>

theorem radio_port_isolated:
  assumes "ingress_port \<noteq> 0" "\<not> delay_request (rxbuf d)"
    and "ptp_process_rx_packet cfg d received ingress_port env = Some (Inr (ok, d', sent))"
  shows "ok \<and> sent = [] \<and> timing_part d' = timing_part d"
proof -
  define i where "i = nat ingress_port"
  have v: "valid_port cfg ingress_port" using assms(3) by (auto simp: ptp_process_rx_packet_def process_message_def split: if_splits)
  then have i: "i \<noteq> 0" using assms(1) by (simp add: i_def valid_port_def)
  obtain r alive where adm: "message_admitted cfg (rxbuf d) d received = (r, alive)" by fastforce
  obtain sta d1 where s: "admit_sta i (note_minor_version (rxbuf d) i d) = (sta, d1)" by fastforce
  obtain ap d2 where a: "admit_ap cfg i d1 = (ap, d2)" by fastforce
  have k: "timing_part d1 = timing_part d" "timing_part d2 = timing_part d" "rxbuf d2 = rxbuf d"
    using timing_part_admit(1) [of i "note_minor_version (rxbuf d) i d"] rxbuf_admit(1) [of i "note_minor_version (rxbuf d) i d"] s
      timing_part_admit(2) [of cfg i d1] rxbuf_admit(2) [of cfg i d1] a by simp_all
  show ?thesis
  proof (cases r)
    case None
    then show ?thesis using assms(3) v adm by (auto simp: ptp_process_rx_packet_def process_message_def quietly_def)
  next
    case (Some len)
    define e where "e = map_seen i (\<lambda>s. s\<lparr>ps_last_received_multicast := rv_multicast_ts env\<rparr>) d2"
    have e: "timing_part e = timing_part d" using k by (simp add: e_def)
    obtain f where f: "dispatch cfg (rxbuf d) i len env e = quietly f" "timing_part f = timing_part e"
      using dispatch_radio [OF i assms(2)] by blast
    show ?thesis
      using assms(3) v adm Some s a k e f
      by (auto simp: ptp_process_rx_packet_def process_message_def i_def [symmetric] e_def [symmetric] quietly_def split: if_splits)
  qed
qed

definition radio_message_example :: ptp_daemon where
  "radio_message_example = map_port 0 (\<lambda>p. p\<lparr>po_rx := (po_rx p)\<lparr>rx_rxbuf := [0x1b, 0x12, 0, 64] @ replicate 252 0\<rparr>\<rparr>) measuring_example"

theorem radio_port_isolated_witness:
  "\<exists>d'. ptp_process_rx_packet config_default radio_message_example 64 1 rx_env_example = Some (Inr (True, d', [])) \<and>
     timing_part d' = timing_part radio_message_example"
proof -
  have h: "\<not> delay_request (rxbuf radio_message_example)"
    and v: "case ptp_process_rx_packet config_default radio_message_example 64 1 rx_env_example of Some (Inr _) \<Rightarrow> True | _ \<Rightarrow> False"
    by code_simp+
  obtain ok d' sent where r: "ptp_process_rx_packet config_default radio_message_example 64 1 rx_env_example = Some (Inr (ok, d', sent))"
    using v by (auto split: option.splits sum.splits)
  show ?thesis using radio_port_isolated [OF _ h r] r by simp
qed

section \<open>Senders that are not associated\<close>

lemma port_part_keep:
  assumes "\<And>p. g (f p) = g p"
  shows "j < num_ports d \<Longrightarrow> g (port_at (map_port i f d) j) = g (port_at d j)"
proof (cases "i < num_ports d")
  case True
  then show ?thesis using assms by simp
qed (simp add: map_port_def port_at_def list_update_beyond)

text \<open>What a message leaves behind of a port: everything but what was noted of its reception.\<close>

definition port_part :: "ptp_daemon \<Rightarrow> nat \<Rightarrow> ptp_port_config \<times> ptp_port_capable \<times> ptp_port_sent \<times> ptp_port_lite" where
  "port_part d j = (po_config (port_at d j), po_capable (port_at d j), po_sent (port_at d j), po_lite (port_at d j))"

lemma port_part_simps [simp]:
  "j < num_ports d \<Longrightarrow> port_part (map_seen i f d) j = port_part d j"
  "j < num_ports d \<Longrightarrow> port_part (set_rx_association a d) j = port_part d j"
  "j < num_ports d \<Longrightarrow> port_part (note_minor_version m i d) j = port_part d j"
  unfolding port_part_def map_seen_def set_rx_association_def note_minor_version_def
  by (subst port_part_keep [where g = po_config] port_part_keep [where g = po_capable] port_part_keep [where g = po_sent]
      port_part_keep [where g = po_lite]; simp)+

lemma num_ports_rx [simp]:
  "num_ports (map_seen i f d) = num_ports d" "num_ports (set_rx_association a d) = num_ports d"
  "num_ports (note_minor_version m i d) = num_ports d"
  by (simp_all add: map_seen_def set_rx_association_def note_minor_version_def)

lemma gptp_rx [simp]:
  "ptp_is_gptp (dm_state (note_minor_version m i d)) = dm_gptp d" "ptp_is_gptp (dm_state (set_rx_association a d)) = dm_gptp d"
  by (simp_all add: note_minor_version_def set_rx_association_def)

text \<open>The sender is associated with the radio port in gPTP operation.\<close>

definition associated_sender :: "ptp_config \<Rightarrow> ptp_daemon \<Rightarrow> nat \<Rightarrow> bool" where
  "associated_sender cfg d i \<longleftrightarrow>
     (radio_port d i ptp_port_wifi_mode_sta \<longrightarrow> ptp_wifi_neighbor_accepts (pk_wifi_neighbor (po_capable (port_at d i))) (rx_mac d)) \<and>
     (radio_port d i ptp_port_wifi_mode_ap \<longrightarrow>
        ptp_wifi_peers_find (pk_wifi_peers (po_capable (port_at d i))) (rx_mac d) \<noteq> None \<and>
        ptp_wifi_peers_publishable (cf_ap_via_coprocessor cfg) (pk_wifi_peers (po_capable (port_at d i))))"

text \<open>C23. Only associated stations are heard.  A gPTP message on a radio port whose sender is not
  the access point this station is associated with, or not a station of this access point, sends
  nothing, and of the daemon it changes neither the timing state nor any port's configuration,
  capability and neighbor records, schedules or endpoint flags.\<close>

theorem unassociated_ignored:
  fixes cfg :: ptp_config and d :: ptp_daemon and ingress_port :: int
  defines "i \<equiv> nat ingress_port"
  assumes "daemon_inv cfg d" "valid_port cfg ingress_port" "dm_gptp d" "\<not> associated_sender cfg d i"
  shows "\<exists>d'. ptp_process_rx_packet cfg d received ingress_port env = Some (Inr (True, d', [])) \<and>
    timing_part d' = timing_part d \<and> num_ports d' = num_ports d \<and> (\<forall>j < num_ports d. port_part d' j = port_part d j)"
proof -
  have i: "i < num_ports d" using assms(2,3) by (auto simp: i_def valid_port_def daemon_inv_def)
  have n0: "0 < num_ports d" using i by linarith
  define d0 where "d0 = note_minor_version (rxbuf d) i d"
  have d0: "dm_gptp d0" "num_ports d0 = num_ports d" "radio_port d0 i = radio_port d i" "rx_mac d0 = rx_mac d"
    "pk_wifi_neighbor (po_capable (port_at d0 i)) = pk_wifi_neighbor (po_capable (port_at d i))"
    "pk_wifi_peers (po_capable (port_at d0 i)) = pk_wifi_peers (po_capable (port_at d i))"
    using assms(4) i n0 by (auto simp: d0_def note_minor_version_def radio_port_def fun_eq_iff)
  obtain r alive where adm: "message_admitted cfg (rxbuf d) d received = (r, alive)" by fastforce
  show ?thesis
  proof (cases r)
    case None
    then show ?thesis using assms(3) adm by (auto simp: ptp_process_rx_packet_def process_message_def quietly_def)
  next
    case (Some len)
    show ?thesis
    proof (cases "radio_port d i ptp_port_wifi_mode_sta")
      case True
      then have "admit_sta i d0 = (False, set_rx_association (wn_association (pk_wifi_neighbor (po_capable (port_at d0 i)))) d0)"
        using assms(5) d0 by (auto simp: admit_sta_def associated_sender_def radio_port_def Let_def)
      then show ?thesis
        using assms(3) adm Some by (simp add: ptp_process_rx_packet_def process_message_def i_def [symmetric] d0_def quietly_def)
    next
      case False
      then have "admit_sta i d0 = (True, d0)" "\<exists>a. admit_ap cfg i d0 = (False, set_rx_association a d0)"
        using assms(5) d0 by (auto simp: admit_sta_def admit_ap_def associated_sender_def Let_def)
      then show ?thesis
        using assms(3) adm Some by (auto simp: ptp_process_rx_packet_def process_message_def i_def [symmetric] d0_def quietly_def)
    qed
  qed
qed

definition stranger_example :: ptp_daemon where
  "stranger_example = map_port 1 (\<lambda>p. p\<lparr>po_config := (po_config p)\<lparr>pg_medium := ptp_port_medium_wifi_ftm,
     pg_wifi_mode := ptp_port_wifi_mode_ap\<rparr>\<rparr>) radio_message_example"

theorem unassociated_ignored_witness:
  "\<exists>d'. ptp_process_rx_packet config_default stranger_example 64 1 rx_env_example = Some (Inr (True, d', [])) \<and>
     timing_part d' = timing_part stranger_example \<and> port_part d' 1 = port_part stranger_example 1"
proof -
  have h: "daemon_inv config_default stranger_example" "valid_port config_default 1" "dm_gptp stranger_example"
    "\<not> associated_sender config_default stranger_example (nat 1)" "1 < num_ports stranger_example"
    by code_simp+
  from unassociated_ignored [OF h(1-4), of 64 rx_env_example] h(5) show ?thesis by blast
qed

section \<open>Delay requests from other ports\<close>

lemma dispatch_request_endpoint:
  assumes "0 < num_ports d" "delay_request m" "cf_gptp_profile cfg" "ptp_msg_has_endpoint_decl_tlv m len 54"
  shows "\<exists>ok d' sent. dispatch cfg m i len env d = Some (ok, d', sent) \<and> pl_peer_is_endpoint (po_lite (port_at d' 0))"
proof -
  define e where "e = note_endpoint m len 54 (count_rx (\<lambda>x. x\<lparr>sx_rx_pdelay_req := sx_rx_pdelay_req x + 1\<rparr>) d)"
  have e: "pl_peer_is_endpoint (po_lite (port_at e 0))" "num_ports e = num_ports d"
    using assms(1,4) by (simp_all add: e_def note_endpoint_def count_rx_def port_at_def map_port_def)
  have "0 < num_ports e" using e(2) assms(1) by (simp only:)
  then have r: "pl_peer_is_endpoint (po_lite (port_at (fst (snd (ptp_process_delay_req cfg e q t t' c u mt))) 0))" for q t t' c u mt
    using e(1) by (simp add: ptp_process_delay_req_def Let_def split_beta)
  have "dispatch cfg m i len env d = dispatch_request cfg m len env d"
    using assms(2,3) by (auto simp: dispatch_def timing_message_def delay_request_def Let_def PTP_MSGTYPE_DELAY_REQ_def
        PTP_MSGTYPE_PDELAY_REQ_def PTP_MSGTYPE_ANNOUNCE_def PTP_MSGTYPE_SYNC_def PTP_MSGTYPE_FOLLOW_UP_def
        PTP_MSGTYPE_SIGNALING_def PTP_MSGTYPE_DELAY_RESP_def PTP_MSGTYPE_PDELAY_RESP_def)
  then show ?thesis using r [of "header_of m" "rv_tx env" "rv_tx' env" "rv_conv env" "rv_unset env" "rv_mono_ts env"]
    by (auto simp: dispatch_request_def Let_def split_beta prod_eq_iff simp flip: e_def)
qed

lemma associated_admitted:
  assumes "associated_sender cfg d i" "i < num_ports d"
  shows "\<exists>d'. admit_sta i d = (True, d') \<and> fst (admit_ap cfg i d') \<and> num_ports (snd (admit_ap cfg i d')) = num_ports d"
proof (cases "radio_port d i ptp_port_wifi_mode_sta")
  case True
  have keep: "radio_port (set_rx_association a d) i mode = radio_port d i mode" for a mode
    using assms(2) port_part_keep [where g = po_config, of "\<lambda>p. p\<lparr>po_rx := (po_rx p)\<lparr>rx_association := a\<rparr>\<rparr>" i d 0]
    by (simp add: radio_port_def set_rx_association_def)
  have "\<exists>a. admit_sta i d = (True, set_rx_association a d)" if "dm_gptp d"
    using True that assms(1) by (auto simp: admit_sta_def associated_sender_def ptp_wifi_neighbor_accepts_def Let_def)
  moreover have "admit_ap cfg i (set_rx_association a d) = (True, set_rx_association a d)" for a
    using True by (auto simp: admit_ap_def keep) (simp add: radio_port_def)
  moreover have "admit_sta i d = (True, d) \<and> admit_ap cfg i d = (True, d)" if "\<not> dm_gptp d"
    using that by (simp add: admit_sta_def admit_ap_def)
  ultimately show ?thesis by (cases "dm_gptp d") force+
next
  case False
  then have "admit_sta i d = (True, d)" by (simp add: admit_sta_def)
  moreover have "fst (admit_ap cfg i d) \<and> num_ports (snd (admit_ap cfg i d)) = num_ports d"
    using assms(1) by (auto simp: admit_ap_def associated_sender_def ptp_wifi_peers_find_def Let_def)
  ultimately show ?thesis by simp
qed

text \<open>C39. The declaration a delay request carries is noted for the first port whatever port the
  request came in by.  In the gPTP profile, when an admitted delay request that carries the endpoint
  TLV comes in by another port - on a radio port, from an associated sender - the wired link counts
  afterwards as one to an endpoint, which is a condition to leave gPTP.\<close>

theorem request_reaches_wired_port:
  fixes cfg :: ptp_config and d :: ptp_daemon and ingress_port :: int
  assumes "valid_port cfg ingress_port" "ingress_port \<noteq> 0" "num_ports d = cf_num_ports cfg"
    and "associated_sender cfg d (nat ingress_port)"
    and "fst (message_admitted cfg (rxbuf d) d received) = Some len" "delay_request (rxbuf d)" "cf_gptp_profile cfg"
    and "ptp_msg_has_endpoint_decl_tlv (rxbuf d) len 54"
  shows "\<exists>ok d' sent. ptp_process_rx_packet cfg d received ingress_port env = Some (Inr (ok, d', sent)) \<and>
    pl_peer_is_endpoint (po_lite (port_at d' 0))"
proof -
  define i where "i = nat ingress_port"
  define e where "e = note_minor_version (rxbuf d) i d"
  have i: "i < num_ports d" using assms(1,3) by (auto simp: i_def valid_port_def)
  then have n0: "0 < num_ports d" by linarith
  have "rx_mac e = rx_mac d" "radio_port e i m = radio_port d i m" "num_ports e = num_ports d"
    "po_capable (port_at e i) = po_capable (port_at d i)" for m
    using i n0 by (auto simp: e_def note_minor_version_def radio_port_def)
  then have "associated_sender cfg e i" "i < num_ports e" using assms(4) i by (simp_all add: associated_sender_def i_def)
  then obtain d1 where s: "admit_sta i e = (True, d1)" "fst (admit_ap cfg i d1)" "num_ports (snd (admit_ap cfg i d1)) = num_ports d"
    using associated_admitted \<open>num_ports e = num_ports d\<close> by metis
  then obtain d2 where a: "admit_ap cfg i d1 = (True, d2)" "num_ports d2 = num_ports d"
    by (metis (full_types) prod.collapse)
  define f where "f = map_seen i (\<lambda>s. s\<lparr>ps_last_received_multicast := rv_multicast_ts env\<rparr>) d2"
  obtain alive where adm: "message_admitted cfg (rxbuf d) d received = (Some len, alive)" using assms(5) by (metis prod.collapse)
  have "0 < num_ports f" using a(2) n0 by (simp add: f_def)
  then obtain ok d' sent where "dispatch cfg (rxbuf d) i len env f = Some (ok, d', sent)" "pl_peer_is_endpoint (po_lite (port_at d' 0))"
    using dispatch_request_endpoint [OF _ assms(6-8)] by blast
  then show ?thesis
    using assms(1) adm s(1) a(1) by (simp add: ptp_process_rx_packet_def process_message_def f_def flip: i_def e_def)
qed

text \<open>Port 1 is an access point with one station, which sends a Pdelay\_Req with the TLV.\<close>

definition radio_request_example :: ptp_daemon where
  "radio_request_example = map_port 1 (\<lambda>p. p\<lparr>po_config := (po_config p)\<lparr>pg_medium := ptp_port_medium_wifi_ftm,
       pg_wifi_mode := ptp_port_wifi_mode_ap\<rparr>,
     po_capable := (po_capable p)\<lparr>pk_wifi_peers := (snd (ptp_wifi_peers_join peers_zero (Some [2, 0, 0, 0, 0, 7])))\<lparr>ws_unreported := True\<rparr>\<rparr>\<rparr>)
     (map_port 0 (\<lambda>p. p\<lparr>po_rx := (po_rx p)\<lparr>rx_source_mac := Some [2, 0, 0, 0, 0, 7], rx_rxbuf :=
     [0x12, 0x12, 0, 66] @ replicate 50 0 @ endpoint_decl_tlv @ replicate 190 0\<rparr>\<rparr>) measuring_example)"

theorem request_reaches_wired_port_witness:
  "radio_port radio_request_example 1 ptp_port_wifi_mode_ap \<and> dm_gptp radio_request_example \<and>
   \<not> pl_peer_is_endpoint (po_lite (port_at radio_request_example 0)) \<and>
   (\<exists>ok d' sent. ptp_process_rx_packet config_default radio_request_example 66 1 rx_env_example = Some (Inr (ok, d', sent)) \<and>
     pl_peer_is_endpoint (po_lite (port_at d' 0)))"
proof -
  have h: "valid_port config_default 1" "(1::int) \<noteq> 0" "num_ports radio_request_example = cf_num_ports config_default"
    "associated_sender config_default radio_request_example (nat 1)"
    "fst (message_admitted config_default (rxbuf radio_request_example) radio_request_example 66) = Some 66"
    "delay_request (rxbuf radio_request_example)" "cf_gptp_profile config_default"
    "ptp_msg_has_endpoint_decl_tlv (rxbuf radio_request_example) 66 54"
    and w: "radio_port radio_request_example 1 ptp_port_wifi_mode_ap" "dm_gptp radio_request_example"
      "\<not> pl_peer_is_endpoint (po_lite (port_at radio_request_example 0))"
    by code_simp+
  from request_reaches_wired_port [OF h] w show ?thesis by blast
qed

end
