(* ===== verification/Ptp_Loop.thy ===== *)
theory Ptp_Loop
  imports Ptp_Rx Ptp_Periodic
begin

text \<open>
  The daemon's loop (\<^verbatim>\<open>ptp_daemon\<close> of \<^verbatim>\<open>ptp.c\<close>): one pass waits for a frame no longer than its
  deadlines allow, receives it, drains the frames the radio ports injected, takes a deferred
  follow-up, watches the socket, and runs the periodic work.

  \<open>pass_env\<close> holds the readings of the clocks and the answers of the system during one pass.
  \<open>tick\<close> is the hook of the radio transport, \<^verbatim>\<open>ptp_ftm_daemon_tick\<close>, a weak symbol that a build
  without that transport does not have.  The reports of changes of capability are left out.
\<close>

section \<open>Diagnostics\<close>

definition lateness_report :: "int \<Rightarrow> ptp_stats \<Rightarrow> ptp_stats" where
  "lateness_report now x =
     x\<lparr>sx_poll_wake := 0, sx_read_ok := 0, sx_read_err := 0, sx_loop_max_gap_us := 0, sx_loop_iters := 0,
       sx_tx_req_total := 0, sx_tx_req_late := 0, sx_tx_req_late_max_us := 0, sx_rx_sync := 0,
       sx_rx_sync_max_gap_us := 0, sx_rx_followup := 0, sx_rx_announce := 0, sx_rx_pdelay_req := 0,
       sx_rx_pdelay_resp := 0, sx_rx_pdelay_fup := 0, sx_last_report_us := now\<rparr>"

definition ptpd_lateness_tick :: "int \<Rightarrow> ptp_stats \<Rightarrow> ptp_stats" where
  "ptpd_lateness_tick now x =
     (let x = x\<lparr>sx_loop_iters := sx_loop_iters x + 1\<rparr>;
          gap = now - sx_last_loop_us x;
          x = (if sx_last_loop_us x \<noteq> 0 \<and> gap > sx_loop_max_gap_us x then x\<lparr>sx_loop_max_gap_us := gap\<rparr> else x);
          x = x\<lparr>sx_last_loop_us := now\<rparr>
      in if sx_last_report_us x = 0 then x\<lparr>sx_last_report_us := now\<rparr>
         else if now - sx_last_report_us x < 10000000 then x
         else lateness_report now x)"

definition ptpd_note_wired_peer_follow_up :: "ptp_daemon \<Rightarrow> bytes option \<Rightarrow> nat \<Rightarrow> ptp_daemon" where
  "ptpd_note_wired_peer_follow_up d message len =
     (case message of
        None \<Rightarrow> d
      | Some m \<Rightarrow>
          if len < 54 then d
          else if word_of_nat (be16 (m ! 30) (m ! 31)) = dm_peer_ingress_sequence d \<and> dm_peer_ingress_count d < UINT16_MAX
          then d\<lparr>dm_peer_ingress_count := dm_peer_ingress_count d + 1\<rparr> else d)"

section \<open>The socket\<close>

text \<open>\<open>opened\<close>: the device opens; \<open>configured\<close>: its three settings are accepted.\<close>

definition ptp_port_reopen_l2tap :: "ptp_daemon \<Rightarrow> nat \<Rightarrow> bool \<Rightarrow> bool \<Rightarrow> bool \<times> ptp_daemon" where
  "ptp_port_reopen_l2tap d i opened configured =
     (if pg_medium (po_config (port_at d i)) \<noteq> ptp_port_medium_eth_hwts then (False, d)
      else
        let ok = (opened \<and> configured)
        in (ok, map_port i (\<lambda>p. p\<lparr>po_link := (po_link p)\<lparr>lk_socket_open := ok\<rparr>\<rparr>) d))"

text \<open>\<open>driver_ok\<close>: the driver is reached and accepts the mode.\<close>

definition ptp_apply_rx_timestamp_mode :: "ptp_config \<Rightarrow> ptp_daemon \<Rightarrow> bool \<Rightarrow> ptp_daemon" where
  "ptp_apply_rx_timestamp_mode cfg d driver_ok =
     (let p = port_at d 0; all_frames = (\<not> dm_gptp d) in
      if \<not> cf_emac cfg then d
      else if pg_medium (po_config p) \<noteq> ptp_port_medium_eth_hwts \<or> \<not> lk_socket_open (po_link p) then d
      else if lk_rx_timestamp_all (po_link p) = Some all_frames then d
      else if driver_ok then map_port 0 (\<lambda>p. p\<lparr>po_link := (po_link p)\<lparr>lk_rx_timestamp_all := Some all_frames\<rparr>\<rparr>) d
      else d)"

definition PTPD_RX_STARVATION_US :: int where "PTPD_RX_STARVATION_US = 5000000"

definition timespec_to_us :: "timespec \<Rightarrow> int" where
  "timespec_to_us ts = tv_sec ts * 1000000 + tv_nsec ts sdiv 1000"

text \<open>Whether the watchdog reopens the socket, at \<open>now_us\<close> and \<open>monotime\<close>.\<close>

definition socket_starved :: "ptp_daemon \<Rightarrow> int \<Rightarrow> int \<Rightarrow> timespec \<Rightarrow> bool" where
  "socket_starved d watchdog_rearm_us now_us monotime =
     (let s = po_seen (port_at d 0);
          last_valid_us = timespec_to_us (ps_last_received_multicast s);
          last_alive_us = timespec_to_us (ps_last_socket_alive s);
          last_valid_us = (if last_alive_us > last_valid_us then last_alive_us else last_valid_us)
      in pg_medium (po_config (port_at d 0)) = ptp_port_medium_eth_hwts \<and>
         (dm_gptp d \<or> so_selected_source_valid (dm_source d)) \<and>
         timespec_to_us monotime - last_valid_us > PTPD_RX_STARVATION_US \<and>
         now_us - watchdog_rearm_us > PTPD_RX_STARVATION_US)"

section \<open>How long to wait\<close>

definition PTPD_NOSOCK_POLL_MS :: int where "PTPD_NOSOCK_POLL_MS = 100"
definition PTPD_POLL_CAP_MS :: int where "PTPD_POLL_CAP_MS = 500"
definition PTPD_BTC_POLL_CAP_MS :: int where "PTPD_BTC_POLL_CAP_MS = 25"

definition PTPD_POLL_INTERVAL :: "ptp_config \<Rightarrow> int" where
  "PTPD_POLL_INTERVAL cfg = (if cf_server cfg then cf_sync_interval_ms cfg else cf_timeout_ms cfg)"

text \<open>Computed once, when the loop starts.\<close>

definition poll_timeout :: "ptp_config \<Rightarrow> ptp_daemon \<Rightarrow> int" where
  "poll_timeout cfg d =
     (if \<not> lk_socket_open (po_link (port_at d 0)) then PTPD_NOSOCK_POLL_MS
      else if PTPD_POLL_INTERVAL cfg < PTPD_POLL_CAP_MS then PTPD_POLL_INTERVAL cfg else PTPD_POLL_CAP_MS)"

definition at_most :: "bool \<Rightarrow> int \<Rightarrow> int \<Rightarrow> int" where
  "at_most active cap wait_ms = (if active \<and> wait_ms > cap then cap else wait_ms)"

text \<open>The deadlines of the capability messages of one radio port.\<close>

definition radio_wait :: "ptp_config \<Rightarrow> ptp_daemon \<Rightarrow> int \<Rightarrow> nat \<Rightarrow> int \<Rightarrow> int" where
  "radio_wait cfg d now_us i wait_ms =
     (let p = port_at d i; c = po_config p; k = po_capable p in
      if \<not> dm_gptp d \<or> \<not> pg_enabled c \<or> \<not> lk_link_up (po_link p) \<or> pg_medium c \<noteq> ptp_port_medium_wifi_ftm then wait_ms
      else if pg_wifi_mode c = ptp_port_wifi_mode_sta then
        (if wn_associated (pk_wifi_neighbor k)
         then ptp_capable_schedule_wait_ms (wn_transmit (pk_wifi_neighbor k)) now_us wait_ms else wait_ms)
      else if pg_wifi_mode c \<noteq> ptp_port_wifi_mode_ap \<or>
              \<not> ptp_wifi_peers_publishable (cf_ap_via_coprocessor cfg) (pk_wifi_peers k) then wait_ms
      else fold (\<lambda>peer w. if wp_associated peer then ptp_capable_schedule_wait_ms (wp_transmit peer) now_us w else w)
             (ws_entries (pk_wifi_peers k)) wait_ms)"

definition poll_wait ::
  "ptp_config \<Rightarrow> ptp_daemon \<Rightarrow> bool \<Rightarrow> int \<Rightarrow> int \<Rightarrow> int \<Rightarrow> int \<Rightarrow> int" where
  "poll_wait cfg d ftm_tick timeout pending_us capable_us receipt_us =
     (let p = port_at d 0; medium = pg_medium (po_config p); x = po_peer_exchange p;
          w = at_most (ftm_tick \<and> medium = ptp_port_medium_wifi_ftm) 50 timeout;
          w = at_most (\<not> so_selected_source_valid (dm_source d) \<and> medium = ptp_port_medium_eth_hwts) PTPD_BTC_POLL_CAP_MS w;
          w = at_most (px_follow_up_pending x \<and> \<not> px_multiple x \<and> pending_us < px_deadline_us x) 1 w;
          w = (if dm_gptp d \<and> medium = ptp_port_medium_eth_hwts \<and> pg_enabled (po_config p) \<and> lk_link_up (po_link p) \<and>
                  lk_socket_open (po_link p)
               then ptp_capable_schedule_wait_ms (wc_transmit (pk_wired_capable (po_capable p))) capable_us w else w);
          w = fold (radio_wait cfg d capable_us) [0..<cf_num_ports cfg] w
      in if dm_gptp d \<and> so_selected_source_valid (dm_source d) \<and> an_btc_priority1 (so_selected_source (dm_source d)) < 255
         then ptp_sync_receipt_wait_ms (ts_sync_receipt (po_sync p)) receipt_us w else w)"

section \<open>One pass\<close>

record pass_env =
  pe_tick_us :: int
  pe_rx_restarted :: bool
  pe_gate_us :: int
  pe_gate_neighbor_us :: int
  pe_pending_us :: int
  pe_results :: "ptp_wifi_capable_result list"
  pe_capable_us :: int
  pe_receipt_us :: int
  pe_frame :: "(int \<times> bytes \<times> timespec option) option"
  pe_rx :: rx_env
  pe_inject_rx :: "nat \<Rightarrow> rx_env"
  pe_take_us :: int
  pe_follow_up_us :: int
  pe_follow_up_received_us :: int
  pe_watch_us :: int
  pe_watch_mono :: timespec
  pe_opened :: bool
  pe_configured :: bool
  pe_valid_ts :: timespec
  pe_valid_capable_us :: int
  pe_valid_neighbor_us :: int
  pe_valid_us :: int
  pe_clock :: clock_env
  pe_publish_us :: int
  pe_publish_ts :: timespec
  pe_speed_us :: int
  pe_driver_mbps :: u32
  pe_driver_ok :: bool
  pe_periodic :: periodic_env
  pe_fallback_us :: int
  pe_probe_us :: int
  pe_last_drop_us :: int

text \<open>The loop's state: the daemon, the ring of injected frames and the watchdog's variable.\<close>

record ptp_loop =
  lp_daemon :: ptp_daemon
  lp_ring :: ptp_injected
  lp_watchdog_us :: int

text \<open>The result of processing a message, as far as the loop uses it.\<close>

definition received :: "ptp_daemon \<Rightarrow> (ptp_errno, bool \<times> ptp_daemon \<times> transmission list) sum option \<Rightarrow>
    (ptp_daemon \<times> emission list) option" where
  "received d r = map_option (\<lambda>s. case s of Inl _ \<Rightarrow> (d, []) | Inr (_, d', out) \<Rightarrow> (d', map Wire out)) r"

definition receive_frame :: "ptp_config \<Rightarrow> pass_env \<Rightarrow> ptp_daemon \<Rightarrow> (ptp_daemon \<times> emission list) option" where
  "receive_frame cfg env d =
     (case pe_frame env of
        None \<Rightarrow> Some (d, [])
      | Some (ret, frame, stamp) \<Rightarrow>
          let d = count_rx (\<lambda>x. x\<lparr>sx_poll_wake := sx_poll_wake x + 1\<rparr>) d;
              (len, d) = ptp_net_recv d ret frame stamp
          in if len > 0 then received d (ptp_process_rx_packet cfg d len 0 (pe_rx env)) else Some (d, []))"

definition load_injected :: "ptp_injected_frame \<Rightarrow> ptp_daemon \<Rightarrow> ptp_daemon" where
  "load_injected f d =
     map_port 0 (\<lambda>p. p\<lparr>po_rx := (po_rx p)\<lparr>rx_rxbuf := ij_message f, rx_rxtime := ij_received f,
        rx_source_mac := ij_source_mac f, rx_dest_mac := None\<rparr>\<rparr>) d"

fun process_injected ::
  "ptp_config \<Rightarrow> (nat \<Rightarrow> rx_env) \<Rightarrow> nat \<Rightarrow> ptp_injected_frame list \<Rightarrow> ptp_daemon \<Rightarrow> (ptp_daemon \<times> emission list) option" where
  "process_injected cfg env n [] d = Some (d, [])"
| "process_injected cfg env n (f # fs) d =
     (let d = load_injected f d in
      case received d (ptp_process_rx_packet cfg d (int (ij_length f)) (int (ij_port_index f)) (env n)) of
        None \<Rightarrow> None
      | Some (d, out) \<Rightarrow>
          (case process_injected cfg env (n + 1) fs d of None \<Rightarrow> None | Some (d, rest) \<Rightarrow> Some (d, out @ rest)))"

definition take_deferred :: "ptp_config \<Rightarrow> pass_env \<Rightarrow> ptp_daemon \<Rightarrow> ptp_daemon option" where
  "take_deferred cfg env d =
     (let (deferred, x) = ptp_peer_take_follow_up (po_peer_exchange (port_at d 0)) (pe_take_us env);
          d = map_port 0 (\<lambda>p. p\<lparr>po_peer_exchange := x\<rparr>) d
      in case deferred of
           None \<Rightarrow> Some d
         | Some (follow_up, generation) \<Rightarrow>
             ptp_process_delay_resp_follow_up cfg d follow_up generation (pe_follow_up_us env) (pe_follow_up_received_us env))"

definition watch_socket :: "pass_env \<Rightarrow> int \<Rightarrow> ptp_daemon \<Rightarrow> int \<times> ptp_daemon" where
  "watch_socket env watchdog_rearm_us d =
     (if socket_starved d watchdog_rearm_us (pe_watch_us env) (pe_watch_mono env)
      then (pe_watch_us env, snd (ptp_port_reopen_l2tap d 0 (pe_opened env) (pe_configured env)))
      else (watchdog_rearm_us, d))"

text \<open>Before the wait, and after the reception.\<close>

definition pass_begin :: "ptp_config \<Rightarrow> pass_env \<Rightarrow> ptp_daemon \<Rightarrow> ptp_daemon" where
  "pass_begin cfg env d =
     (let d = count_rx (ptpd_lateness_tick (pe_tick_us env)) d;
          d = (if pe_rx_restarted env then ptp_arm_profile_fallback cfg d else d);
          d = gate_capability cfg d (pe_gate_us env) (pe_gate_neighbor_us env)
      in ptp_wifi_capable_completions cfg d (pe_results env))"

definition pass_end ::
  "ptp_config \<Rightarrow> (ptp_daemon \<Rightarrow> ptp_daemon) \<Rightarrow> pass_env \<Rightarrow> ptp_daemon \<Rightarrow> ptp_daemon \<times> emission list" where
  "pass_end cfg tick env d =
     (let d = tick d;
          d = refresh_source cfg d (pe_valid_ts env) (pe_valid_capable_us env) (pe_valid_neighbor_us env) (pe_valid_us env);
          d = ptp_publish_local_source cfg d (pe_clock env) (pe_publish_us env) (pe_publish_ts env);
          d = ptp_refresh_link_speed cfg d (pe_speed_us env) (pe_driver_mbps env);
          d = ptp_apply_rx_timestamp_mode cfg d (pe_driver_ok env);
          (d, out) = ptp_periodic_send cfg d (pe_periodic env)
      in (ptp_check_profile_fallback cfg d (pe_fallback_us env) (pe_probe_us env) (pe_last_drop_us env), out))"

definition daemon_pass ::
  "ptp_config \<Rightarrow> (ptp_daemon \<Rightarrow> ptp_daemon) \<Rightarrow> pass_env \<Rightarrow> ptp_loop \<Rightarrow> (ptp_loop \<times> emission list) option" where
  "daemon_pass cfg tick env lp =
     (case receive_frame cfg env (pass_begin cfg env (lp_daemon lp)) of
        None \<Rightarrow> None
      | Some (d, out1) \<Rightarrow>
          let (frames, ring) = drain (lp_ring lp) (dm_injected_generation d) in
          (case process_injected cfg (pe_inject_rx env) 0 frames d of
             None \<Rightarrow> None
           | Some (d, out2) \<Rightarrow>
               (case take_deferred cfg env d of
                  None \<Rightarrow> None
                | Some d \<Rightarrow>
                    let (watchdog, d) = watch_socket env (lp_watchdog_us lp) d;
                        (d, out3) = pass_end cfg tick env d
                    in Some (\<lparr>lp_daemon = d, lp_ring = ring, lp_watchdog_us = watchdog\<rparr>, out1 @ out2 @ out3))))"

fun daemon_loop ::
  "ptp_config \<Rightarrow> (ptp_daemon \<Rightarrow> ptp_daemon) \<Rightarrow> pass_env list \<Rightarrow> ptp_loop \<Rightarrow> (ptp_loop \<times> emission list) option" where
  "daemon_loop cfg tick [] lp = Some (lp, [])"
| "daemon_loop cfg tick (env # envs) lp =
     (case daemon_pass cfg tick env lp of
        None \<Rightarrow> None
      | Some (lp, out) \<Rightarrow>
          (case daemon_loop cfg tick envs lp of None \<Rightarrow> None | Some (lp, rest) \<Rightarrow> Some (lp, out @ rest)))"


section \<open>Every pass keeps the invariant\<close>

lemma daemon_inv_map_state [simp]:
  "(\<And>s. st_port (f s) = st_port s) \<Longrightarrow> daemon_inv cfg (map_state f d) = daemon_inv cfg d"
  by (rule daemon_inv_cong) simp

lemma daemon_inv_fields [simp]:
  "daemon_inv cfg (d\<lparr>dm_local_source := l\<rparr>) = daemon_inv cfg d" "daemon_inv cfg (d\<lparr>dm_injected_generation := g\<rparr>) = daemon_inv cfg d"
  "daemon_inv cfg (d\<lparr>dm_stats := x\<rparr>) = daemon_inv cfg d"
  "daemon_inv cfg (d\<lparr>dm_peer_ingress_sequence := a, dm_peer_ingress_count := b\<rparr>) = daemon_inv cfg d"
  by (rule daemon_inv_cong; simp)+

lemma reset_inv [daemon_inv_intros]:
  assumes "delay_config cfg" "daemon_inv cfg d"
  shows "daemon_inv cfg (ptp_reset_for_profile c d)"
proof -
  have m: "daemon_inv cfg (map_state (\<lambda>s. s\<lparr>st_port := map (\<lambda>p. p\<lparr>po_capable := reset_capable (po_capable p)\<rparr>) (st_port s)\<rparr>) e)"
    if "daemon_inv cfg e" for e
    using that by (simp add: daemon_inv_def delays_ok_def)
  have r: "daemon_inv cfg (map_port 0 reset_delay e)" if "daemon_inv cfg e" for e
    using that assms(1) by (auto simp: reset_delay_def delay_inv_def delay_config_def intro!: daemon_inv_keep)
  show ?thesis
    using assms(2)
    by (auto simp: ptp_reset_for_profile_def Let_def retire_injected_def ptp_reset_unicast_delay_req_def ptp_update_delay_asymmetry_def
        delay_inv_def intro!: daemon_inv_keep clean_inv m r)
qed

lemma arm_inv [daemon_inv_intros]:
  "delay_config cfg \<Longrightarrow> daemon_inv cfg d \<Longrightarrow> daemon_inv cfg (ptp_arm_profile_fallback c d)"
  by (auto simp: ptp_arm_profile_fallback_def Let_def rearm_port_def intro!: daemon_inv_intros)

lemma fallback_inv [daemon_inv_intros]:
  assumes "delay_config cfg" "daemon_inv cfg d"
  shows "daemon_inv cfg (ptp_check_profile_fallback c d a b e)"
proof -
  have f: "daemon_inv cfg (fall_back c x r)" if "daemon_inv cfg x" for x r
    using that assms(1) by (auto simp: fall_back_def intro!: daemon_inv_intros)
  show ?thesis
    using assms by (auto simp: ptp_check_profile_fallback_def Let_def intro!: f daemon_inv_intros)
qed

lemma gate_inv [daemon_inv_intros]: "daemon_inv cfg d \<Longrightarrow> daemon_inv cfg (gate_capability c d a b)"
  by (auto simp: gate_capability_def Let_def delay_inv_def intro!: daemon_inv_keep)

lemma completion_inv: "daemon_inv cfg d \<Longrightarrow> daemon_inv cfg (capable_completion c r d)"
  by (auto simp: capable_completion_def Let_def intro!: daemon_inv_intros)

lemma completions_inv [daemon_inv_intros]: "daemon_inv cfg d \<Longrightarrow> daemon_inv cfg (ptp_wifi_capable_completions c d rs)"
proof -
  have "daemon_inv cfg e \<Longrightarrow> daemon_inv cfg (fold (capable_completion c) xs e)" for xs e
    by (induction xs arbitrary: e) (simp_all add: completion_inv)
  then show "daemon_inv cfg d \<Longrightarrow> daemon_inv cfg (ptp_wifi_capable_completions c d rs)"
    by (simp add: ptp_wifi_capable_completions_def)
qed

lemma net_recv_inv [daemon_inv_intros]: "daemon_inv cfg d \<Longrightarrow> daemon_inv cfg (snd (ptp_net_recv d r f s))"
proof -
  have "daemon_inv cfg e \<Longrightarrow> daemon_inv cfg (note_read r e)" for e by (simp add: note_read_def)
  then show "daemon_inv cfg d \<Longrightarrow> daemon_inv cfg (snd (ptp_net_recv d r f s))"
    by (auto simp: ptp_net_recv_def Let_def split: option.splits intro!: daemon_inv_keep)
qed

lemma load_inv [daemon_inv_intros]: "daemon_inv cfg d \<Longrightarrow> daemon_inv cfg (load_injected f d)"
  by (auto simp: load_injected_def intro!: daemon_inv_intros)

lemma watch_inv [daemon_inv_intros]: "daemon_inv cfg d \<Longrightarrow> daemon_inv cfg (snd (watch_socket env w d))"
  by (auto simp: watch_socket_def ptp_port_reopen_l2tap_def Let_def intro!: daemon_inv_intros)

lemma refresh_inv [daemon_inv_intros]: "daemon_inv cfg d \<Longrightarrow> daemon_inv cfg (refresh_source c d t a b n)"
  by (simp add: refresh_source_def Let_def)

lemma marshal_ports: "st_port (snd (ptp_marshal_follow_up_for_beacon_ie c s ts i)) = st_port s"
  by (simp add: ptp_marshal_follow_up_for_beacon_ie_def ptp_fill_gm_fields_def Let_def split_beta)

lemma publish_ports: "st_port (dm_state (ptp_publish_local_source c d env now ts)) = st_port (dm_state d)"
  by (simp add: ptp_publish_local_source_def Let_def split_beta marshal_ports split: option.split)

lemma publish_inv [daemon_inv_intros]: "daemon_inv cfg d \<Longrightarrow> daemon_inv cfg (ptp_publish_local_source c d env now ts)"
  using daemon_inv_cong [OF publish_ports] by blast

lemma speed_inv [daemon_inv_intros]: "daemon_inv cfg d \<Longrightarrow> daemon_inv cfg (ptp_refresh_link_speed c d now m)"
  by (auto simp: ptp_refresh_link_speed_def Let_def ptp_update_delay_asymmetry_def intro!: daemon_inv_keep)

lemma stamp_mode_inv [daemon_inv_intros]: "daemon_inv cfg d \<Longrightarrow> daemon_inv cfg (ptp_apply_rx_timestamp_mode c d ok)"
  by (auto simp: ptp_apply_rx_timestamp_mode_def Let_def intro!: daemon_inv_keep)

lemma set_sent_inv [daemon_inv_intros]: "daemon_inv cfg d \<Longrightarrow> daemon_inv cfg (set_sent i f d)"
  by (auto simp: set_sent_def intro!: daemon_inv_keep)

lemma each_port_inv:
  "(\<And>i e. daemon_inv cfg e \<Longrightarrow> daemon_inv cfg (fst (f i e))) \<Longrightarrow> daemon_inv cfg d \<Longrightarrow> daemon_inv cfg (fst (each_port f is d))"
  by (induction "is" arbitrary: d) (simp_all add: split_beta Let_def)

lemma ap_slot_inv: "daemon_inv cfg d \<Longrightarrow> daemon_inv cfg (fst (ap_capable_slot c i en env s d))"
  by (simp add: ap_capable_slot_def Let_def split_beta split: option.split) (auto intro!: daemon_inv_keep)

lemma ap_slots_inv: "daemon_inv cfg d \<Longrightarrow> daemon_inv cfg (fst (ap_capable_slots c i en env ss d))"
  by (induction ss arbitrary: d) (simp_all add: split_beta Let_def ap_slot_inv)

lemma sta_send_inv: "daemon_inv cfg d \<Longrightarrow> daemon_inv cfg (fst (ptp_wifi_sta_capable_send c d i en env))"
  by (simp add: ptp_wifi_sta_capable_send_def Let_def split_beta split: option.split) (auto intro!: daemon_inv_keep)

lemma wired_send_inv: "daemon_inv cfg d \<Longrightarrow> daemon_inv cfg (fst (ptp_wired_capable_send c d env))"
  by (simp add: ptp_wired_capable_send_def Let_def split_beta) (auto intro!: daemon_inv_keep)

lemma radio_capable_inv: "daemon_inv cfg d \<Longrightarrow> daemon_inv cfg (fst (radio_capable_port c env i d))"
  by (simp add: radio_capable_port_def Let_def ptp_wifi_ap_capable_send_def ap_slots_inv sta_send_inv)

lemma send_announce_inv: "daemon_inv cfg d \<Longrightarrow> daemon_inv cfg (fst (snd (ptp_send_announce c d env tx)))"
  by (simp add: ptp_send_announce_def Let_def split_beta)

lemma send_sync_inv: "daemon_inv cfg d \<Longrightarrow> daemon_inv cfg (fst (snd (ptp_send_sync c d env tx tx')))"
  by (simp add: ptp_send_sync_def Let_def split_beta)

lemma server_inv: "daemon_inv cfg d \<Longrightarrow> daemon_inv cfg (fst (server_send c env d))"
proof -
  have a: "daemon_inv cfg e \<Longrightarrow> daemon_inv cfg (fst (server_announce c env e))" for e
    by (simp add: server_announce_def Let_def split_beta send_announce_inv set_sent_inv)
  have s: "daemon_inv cfg e \<Longrightarrow> daemon_inv cfg (fst (server_sync c env e))" for e
    by (simp add: server_sync_def Let_def split_beta send_sync_inv set_sent_inv split: option.split)
  show "daemon_inv cfg d \<Longrightarrow> daemon_inv cfg (fst (server_send c env d))"
    by (simp add: server_send_def Let_def split_beta a s)
qed

lemma radio_sync_inv: "daemon_inv cfg d \<Longrightarrow> daemon_inv cfg (fst (radio_sync_port c env i d))"
proof -
  have "daemon_inv cfg (e\<lparr>dm_state := snd (ptp_marshal_follow_up_for_beacon_ie c (dm_state e) ts j)\<rparr>) = daemon_inv cfg e" for e ts j
    by (rule daemon_inv_cong) (simp add: marshal_ports)
  then show "daemon_inv cfg d \<Longrightarrow> daemon_inv cfg (fst (radio_sync_port c env i d))"
    by (simp add: radio_sync_port_def Let_def split_beta set_sent_inv)
qed

lemma radio_announce_inv: "daemon_inv cfg d \<Longrightarrow> daemon_inv cfg (fst (radio_announce_port c env i d))"
  by (simp add: radio_announce_port_def Let_def set_sent_inv split: option.split)

lemma beacon_inv: "daemon_inv cfg d \<Longrightarrow> daemon_inv cfg (fst (beacon_send c env d))"
  by (simp add: beacon_send_def ptp_send_endpoint_beacon_def Let_def split_beta set_sent_inv)

lemma periodic_inv [daemon_inv_intros]: "daemon_inv cfg d \<Longrightarrow> daemon_inv cfg (fst (ptp_periodic_send c d env))"
  by (simp add: ptp_periodic_send_def Let_def split_beta wired_send_inv completions_inv each_port_inv radio_capable_inv
      server_inv radio_sync_inv radio_announce_inv beacon_inv)

lemma pass_begin_inv: "delay_config cfg \<Longrightarrow> daemon_inv cfg d \<Longrightarrow> daemon_inv cfg (pass_begin c env d)"
  by (simp add: pass_begin_def Let_def arm_inv gate_inv completions_inv)

text \<open>The hook of the radio transport keeps the invariant, as the absent hook does.\<close>

lemma pass_end_inv:
  assumes "delay_config cfg" "\<And>e. daemon_inv cfg e \<Longrightarrow> daemon_inv cfg (tick e)" "daemon_inv cfg d"
  shows "daemon_inv cfg (fst (pass_end c tick env d))"
  using assms by (simp add: pass_end_def Let_def split_beta refresh_inv publish_inv speed_inv stamp_mode_inv periodic_inv fallback_inv)

definition kept :: "ptp_config \<Rightarrow> (ptp_daemon \<times> 'a) option \<Rightarrow> bool" where
  "kept cfg r \<longleftrightarrow> r \<noteq> None \<and> daemon_inv cfg (fst (the r))"

lemma rx_kept:
  assumes "delay_config cfg" "daemon_inv cfg d"
  shows "kept cfg (received d (ptp_process_rx_packet cfg d n i env))"
  using rx_keeps_inv [OF assms, where received = n and ingress_port = i and env = env] assms(2) by (auto simp: kept_def received_def split: option.splits sum.splits)

lemma receive_frame_kept:
  assumes "delay_config cfg" "daemon_inv cfg d"
  shows "kept cfg (receive_frame cfg env d)"
proof (cases "pe_frame env")
  case None
  then show ?thesis using assms(2) by (simp add: receive_frame_def kept_def)
next
  case (Some f)
  obtain ret frame stamp where f: "f = (ret, frame, stamp)" by (cases f)
  define e where "e = snd (ptp_net_recv (count_rx (\<lambda>x. x\<lparr>sx_poll_wake := sx_poll_wake x + 1\<rparr>) d) ret frame stamp)"
  have "daemon_inv cfg e" using assms(2) by (simp add: e_def net_recv_inv)
  then show ?thesis using Some f rx_kept [OF assms(1)] by (simp add: receive_frame_def Let_def split_beta kept_def flip: e_def)
qed

lemma injected_kept:
  "delay_config cfg \<Longrightarrow> daemon_inv cfg d \<Longrightarrow> kept cfg (process_injected cfg env n fs d)"
proof (induction fs arbitrary: d n)
  case (Cons f fs)
  obtain e out where e: "received (load_injected f d) (ptp_process_rx_packet cfg (load_injected f d) (int (ij_length f))
      (int (ij_port_index f)) (env n)) = Some (e, out)" "daemon_inv cfg e"
    using rx_kept [OF Cons.prems(1) load_inv [OF Cons.prems(2)], of f "int (ij_length f)" "int (ij_port_index f)" "env n"]
    by (auto simp: kept_def)
  show ?case using Cons.IH [OF Cons.prems(1) e(2), of "n + 1"] e(1) by (auto simp: kept_def Let_def)
qed (simp add: kept_def)

lemma deferred_inv:
  assumes "delay_config cfg" "daemon_inv cfg d"
  shows "\<exists>e. take_deferred cfg env d = Some e \<and> daemon_inv cfg e"
proof -
  define x where "x = ptp_peer_take_follow_up (po_peer_exchange (port_at d 0)) (pe_take_us env)"
  have k: "daemon_inv cfg (map_port 0 (\<lambda>p. p\<lparr>po_peer_exchange := snd x\<rparr>) d)" using assms(2) by (auto intro!: daemon_inv_keep)
  show ?thesis
    using k response_follow_up_inv [OF assms(1) k]
    by (auto simp: take_deferred_def Let_def split_beta x_def [symmetric] split: option.split)
qed

lemma pass_inv:
  assumes "delay_config cfg" "\<And>e. daemon_inv cfg e \<Longrightarrow> daemon_inv cfg (tick e)" "daemon_inv cfg (lp_daemon lp)"
  shows "\<exists>lp' out. daemon_pass cfg tick env lp = Some (lp', out) \<and> daemon_inv cfg (lp_daemon lp')"
proof -
  obtain d1 o1 where d1: "receive_frame cfg env (pass_begin cfg env (lp_daemon lp)) = Some (d1, o1)" "daemon_inv cfg d1"
    using receive_frame_kept [OF assms(1) pass_begin_inv [OF assms(1,3)], of env cfg env] by (auto simp: kept_def)
  define dr where "dr = drain (lp_ring lp) (dm_injected_generation d1)"
  obtain d2 o2 where d2: "process_injected cfg (pe_inject_rx env) 0 (fst dr) d1 = Some (d2, o2)" "daemon_inv cfg d2"
    using injected_kept [OF assms(1) d1(2), of "pe_inject_rx env" 0 "fst dr"] by (auto simp: kept_def)
  obtain d3 where d3: "take_deferred cfg env d2 = Some d3" "daemon_inv cfg d3" using deferred_inv [OF assms(1) d2(2)] by blast
  have "daemon_inv cfg (fst (pass_end cfg tick env (snd (watch_socket env (lp_watchdog_us lp) d3))))"
    by (rule pass_end_inv [OF assms(1,2) watch_inv [OF d3(2)]])
  then show ?thesis
    using d1(1) d2(1) d3(1) by (simp add: daemon_pass_def Let_def split_beta dr_def)
qed

lemma loop_inv:
  assumes "delay_config cfg" "\<And>e. daemon_inv cfg e \<Longrightarrow> daemon_inv cfg (tick e)"
  shows "daemon_inv cfg (lp_daemon lp) \<Longrightarrow> \<exists>lp' out. daemon_loop cfg tick envs lp = Some (lp', out) \<and> daemon_inv cfg (lp_daemon lp')"
proof (induction envs arbitrary: lp)
  case (Cons env envs)
  obtain lp1 o1 where p: "daemon_pass cfg tick env lp = Some (lp1, o1)" "daemon_inv cfg (lp_daemon lp1)"
    using pass_inv [where tick = tick, OF assms(1) assms(2) Cons.prems] by blast
  from Cons.IH [OF p(2)] p(1) show ?case by auto
qed simp

section \<open>Deadlines of the wait\<close>

lemma ceil_ms_nonneg: "0 \<le> x \<Longrightarrow> 0 \<le> ceil_ms x"
  by (simp add: ceil_ms_def)

lemma schedule_wait_bounds:
  "0 \<le> w \<Longrightarrow> 0 \<le> ptp_capable_schedule_wait_ms s now w \<and> ptp_capable_schedule_wait_ms s now w \<le> w"
  by (simp add: ptp_capable_schedule_wait_ms_def Let_def ceil_ms_nonneg)

lemma receipt_wait_bounds:
  "0 \<le> w \<Longrightarrow> 0 \<le> ptp_sync_receipt_wait_ms s now w \<and> ptp_sync_receipt_wait_ms s now w \<le> w"
  by (auto simp: ptp_sync_receipt_wait_ms_def Let_def ptp_sync_receipt_current_def intro!: ceil_ms_nonneg)

text \<open>A step that only shortens a wait.\<close>

definition shortens :: "(int \<Rightarrow> int) \<Rightarrow> bool" where
  "shortens f \<longleftrightarrow> (\<forall>w \<ge> 0. 0 \<le> f w \<and> f w \<le> w)"

lemma shortens_fold: "(\<And>x. x \<in> set xs \<Longrightarrow> shortens (g x)) \<Longrightarrow> shortens (fold g xs)"
proof (induction xs)
  case (Cons x xs)
  have "shortens (g x)" "shortens (fold g xs)" using Cons by simp_all
  then show ?case by (fastforce simp: shortens_def)
qed (simp add: shortens_def)

lemma shortens_steps:
  "0 \<le> cap \<Longrightarrow> shortens (at_most b cap)" "shortens (ptp_capable_schedule_wait_ms s now)"
  "shortens (ptp_sync_receipt_wait_ms r now)"
  by (simp_all add: shortens_def at_most_def schedule_wait_bounds receipt_wait_bounds)

lemma shortens_radio: "shortens (radio_wait cfg d now i)"
proof -
  have f: "shortens (fold (\<lambda>peer w. if wp_associated peer then ptp_capable_schedule_wait_ms (wp_transmit peer) now w else w) ps)" for ps
    by (rule shortens_fold) (use shortens_steps(2) in \<open>auto simp: shortens_def\<close>)
  show ?thesis using f shortens_steps(2) by (auto simp: shortens_def radio_wait_def Let_def)
qed

text \<open>The loop sleeps no longer than its deadlines.  The wait is never negative and never longer
  than the poll interval; a wired port without a time source waits at most 25 milliseconds, so
  that its Sync keeps the grid, a deferred follow-up at most one, and a daemon that follows a
  source not beyond the receipt timeout of its Sync.\<close>

theorem poll_wait_bounds:
  fixes cfg :: ptp_config and d :: ptp_daemon and ftm_tick :: bool and pending_us capable_us receipt_us :: int
  assumes "0 \<le> timeout"
  defines "w \<equiv> poll_wait cfg d ftm_tick timeout pending_us capable_us receipt_us"
  shows "0 \<le> w \<and> w \<le> timeout \<and>
    (\<not> so_selected_source_valid (dm_source d) \<and> pg_medium (po_config (port_at d 0)) = ptp_port_medium_eth_hwts \<longrightarrow> w \<le> 25) \<and>
    (px_follow_up_pending (po_peer_exchange (port_at d 0)) \<and> \<not> px_multiple (po_peer_exchange (port_at d 0)) \<and>
       pending_us < px_deadline_us (po_peer_exchange (port_at d 0)) \<longrightarrow> w \<le> 1) \<and>
    (dm_gptp d \<and> so_selected_source_valid (dm_source d) \<and> an_btc_priority1 (so_selected_source (dm_source d)) < 255 \<longrightarrow>
       w \<le> ptp_sync_receipt_wait_ms (ts_sync_receipt (po_sync (port_at d 0))) receipt_us timeout)"
proof -
  let ?p = "port_at d 0"
  define w1 where "w1 = at_most (ftm_tick \<and> pg_medium (po_config ?p) = ptp_port_medium_wifi_ftm) 50 timeout"
  define w2 where "w2 = at_most (\<not> so_selected_source_valid (dm_source d) \<and> pg_medium (po_config ?p) = ptp_port_medium_eth_hwts) 25 w1"
  define w3 where "w3 = at_most (px_follow_up_pending (po_peer_exchange ?p) \<and> \<not> px_multiple (po_peer_exchange ?p) \<and>
      pending_us < px_deadline_us (po_peer_exchange ?p)) 1 w2"
  define w4 where "w4 = (if dm_gptp d \<and> pg_medium (po_config ?p) = ptp_port_medium_eth_hwts \<and> pg_enabled (po_config ?p) \<and>
      lk_link_up (po_link ?p) \<and> lk_socket_open (po_link ?p)
    then ptp_capable_schedule_wait_ms (wc_transmit (pk_wired_capable (po_capable ?p))) capable_us w3 else w3)"
  define w5 where "w5 = fold (radio_wait cfg d capable_us) [0..<cf_num_ports cfg] w4"
  have w: "w = (if dm_gptp d \<and> so_selected_source_valid (dm_source d) \<and> an_btc_priority1 (so_selected_source (dm_source d)) < 255
      then ptp_sync_receipt_wait_ms (ts_sync_receipt (po_sync ?p)) receipt_us w5 else w5)"
    by (simp add: w_def poll_wait_def Let_def w1_def w2_def w3_def w4_def w5_def PTPD_BTC_POLL_CAP_MS_def)
  have r: "shortens (fold (radio_wait cfg d capable_us) [0..<cf_num_ports cfg])"
    by (intro shortens_fold shortens_radio)
  have c1: "0 \<le> w1" "w1 \<le> timeout" using assms(1) by (simp_all add: w1_def at_most_def)
  have c2: "0 \<le> w2" "w2 \<le> w1" using c1 by (simp_all add: w2_def at_most_def)
  have c3: "0 \<le> w3" "w3 \<le> w2" using c2 by (simp_all add: w3_def at_most_def)
  have c4: "0 \<le> w4" "w4 \<le> w3" using c3 schedule_wait_bounds by (simp_all add: w4_def)
  have c5: "0 \<le> w5" "w5 \<le> w4" using c4 r by (simp_all add: w5_def shortens_def)
  have c6: "0 \<le> w" "w \<le> w5" using c5 receipt_wait_bounds by (simp_all add: w)
  have b: "\<not> so_selected_source_valid (dm_source d) \<and> pg_medium (po_config ?p) = ptp_port_medium_eth_hwts \<longrightarrow> w2 \<le> 25"
    "px_follow_up_pending (po_peer_exchange ?p) \<and> \<not> px_multiple (po_peer_exchange ?p) \<and>
       pending_us < px_deadline_us (po_peer_exchange ?p) \<longrightarrow> w3 \<le> 1"
    by (simp_all add: w2_def w3_def at_most_def)
  have m: "ptp_sync_receipt_wait_ms s t w5 \<le> ptp_sync_receipt_wait_ms s t timeout" for s t
    using c1 c2 c3 c4 c5 receipt_wait_bounds [OF assms(1), of s t]
    by (auto simp: ptp_sync_receipt_wait_ms_def [of s t w5] ptp_sync_receipt_wait_ms_def Let_def split: if_splits)
  show ?thesis using b c1 c2 c3 c4 c5 c6 m w by auto
qed

theorem poll_wait_bounds_witness:
  "let w = poll_wait config_default (daemon_zero 2) False 125 0 0 0 in 0 \<le> w \<and> w \<le> 25"
proof -
  have "\<not> so_selected_source_valid (dm_source (daemon_zero 2))"
    "pg_medium (po_config (port_at (daemon_zero 2) 0)) = ptp_port_medium_eth_hwts" by code_simp+
  with poll_wait_bounds [of 125 config_default "daemon_zero 2" False 0 0 0] show ?thesis by (simp add: Let_def)
qed

section \<open>The watchdog\<close>

text \<open>The times at which successive passes reopen the socket.\<close>

fun reopen_times :: "int \<Rightarrow> (pass_env \<times> ptp_daemon) list \<Rightarrow> int list" where
  "reopen_times w [] = []"
| "reopen_times w ((env, d) # rest) =
     (if socket_starved d w (pe_watch_us env) (pe_watch_mono env)
      then pe_watch_us env # reopen_times (fst (watch_socket env w d)) rest
      else reopen_times (fst (watch_socket env w d)) rest)"

lemma reopen_later: "t \<in> set (reopen_times w xs) \<Longrightarrow> w + PTPD_RX_STARVATION_US < t"
proof (induction w xs rule: reopen_times.induct)
  case (2 w env d rest)
  then show ?case
    by (auto simp: watch_socket_def socket_starved_def Let_def PTPD_RX_STARVATION_US_def split: if_splits)
qed simp

text \<open>A dead link does not make the daemon spin: whatever arrives or fails to arrive, two
  reopenings of the socket are more than five seconds apart.\<close>

theorem reopenings_apart:
  "sorted_wrt (\<lambda>a b. b - a > PTPD_RX_STARVATION_US) (reopen_times w xs)"
proof (induction w xs rule: reopen_times.induct)
  case (2 w env d rest)
  then show ?case using reopen_later [of _ "fst (watch_socket env w d)" rest]
    by (auto simp: watch_socket_def) force
qed simp

end
