(* ===== verification/Ptp_Envelope.thy ===== *)
theory Ptp_Envelope
  imports Ptp_Wire
begin

text \<open>
  The offset filter of a wireless station (\<^verbatim>\<open>on_vendor_ie\<close> of \<^verbatim>\<open>ptp_wifi.c\<close>): from every fresh
  beacon element the station takes one sample of the offset between the time of its source and the
  counter of the radio.  A sample lies below the true offset by the gap between the two captures
  on the access point, which is never negative, so the filter follows the upper envelope of the
  samples.

  The state consists of the static variables of the function.  Its integers are 64-bit signed
  integers in the source; \<open>>>\<close> on them is the arithmetic shift.
\<close>

record envelope =
  ev_acq :: nat
  ev_off_filt :: int
  ev_down_run :: nat
  ev_slope_ppb :: int
  ev_last_tsf_us :: int
  ev_window_samples :: nat
  ev_window_best :: int
  ev_window_start_tsf_us :: int
  ev_time_base :: "u16 option"

definition envelope_zero :: envelope where
  "envelope_zero = \<lparr>ev_acq = 0, ev_off_filt = 0, ev_down_run = 0, ev_slope_ppb = 0, ev_last_tsf_us = 0,
     ev_window_samples = 0, ev_window_best = 0, ev_window_start_tsf_us = 0, ev_time_base = None\<rparr>"

definition ACQ_SAMPLES :: nat where "ACQ_SAMPLES = 16"
definition OFF_STEP_NS :: int where "OFF_STEP_NS = 100 * 1000 * 1000"
definition OFF_UP_MAX_NS :: int where "OFF_UP_MAX_NS = 400000"
definition OFF_DOWN_STEP_NS :: int where "OFF_DOWN_STEP_NS = 350 * 1000 * 1000"
definition OFF_DOWN_RUN :: nat where "OFF_DOWN_RUN = 8"
definition WINDOW_SAMPLES :: nat where "WINDOW_SAMPLES = 8"
definition SLOPE_MAX_PPB :: int where "SLOPE_MAX_PPB = 200000"

lemmas envelope_constants =
  ACQ_SAMPLES_def OFF_STEP_NS_def OFF_UP_MAX_NS_def OFF_DOWN_STEP_NS_def OFF_DOWN_RUN_def WINDOW_SAMPLES_def SLOPE_MAX_PPB_def

section \<open>Fields of the Follow\_Up\<close>

definition follow_up_correction_ns :: "ptp_header \<Rightarrow> int" where
  "follow_up_correction_ns h = be_sint (hd_correction h) div 2 ^ 16"

text \<open>The twelve octets of \<^verbatim>\<open>lastGmPhaseChange\<close>; None when the value does not fit 64 bits.\<close>

definition follow_up_phase_change_ns :: "bytes \<Rightarrow> int option" where
  "follow_up_phase_change_ns scaled =
     (let sign_extension = (if and (scaled ! 2) 0x80 \<noteq> 0 then 0xFF else 0) in
      if scaled ! 0 \<noteq> sign_extension \<or> scaled ! 1 \<noteq> sign_extension then None
      else Some (be_sint (slice 2 8 scaled)))"

section \<open>One sample\<close>

text \<open>A new time base: its phase change moves the offset when it is known and small, otherwise the
  station acquires again (the flag).\<close>

definition envelope_base :: "u16 \<Rightarrow> bytes \<Rightarrow> envelope \<Rightarrow> bool \<times> envelope" where
  "envelope_base time_base phase_change e =
     (let changed = (ev_time_base e \<noteq> None \<and> ev_time_base e \<noteq> Some time_base);
          moved = (case follow_up_phase_change_ns phase_change of
                     None \<Rightarrow> None
                   | Some ns \<Rightarrow> if ns \<le> OFF_STEP_NS \<and> ns \<ge> - OFF_DOWN_STEP_NS then Some ns else None);
          e' = e\<lparr>ev_time_base := Some time_base\<rparr>
      in if \<not> changed then (False, e')
         else case moved of
             Some ns \<Rightarrow> (False, e'\<lparr>ev_off_filt := ev_off_filt e + ns, ev_down_run := 0, ev_window_samples := 0\<rparr>)
           | None \<Rightarrow> (True, e'\<lparr>ev_acq := 0, ev_down_run := 0\<rparr>))"

text \<open>The learned drift since the last sample.\<close>

definition envelope_drift :: "int \<Rightarrow> envelope \<Rightarrow> envelope" where
  "envelope_drift tsf_us e =
     (if ev_acq e \<ge> ACQ_SAMPLES
      then e\<lparr>ev_off_filt := ev_off_filt e + (ev_slope_ppb e * (tsf_us - ev_last_tsf_us e)) sdiv 1000000\<rparr> else e)
       \<lparr>ev_last_tsf_us := tsf_us\<rparr>"

definition envelope_acquire :: "int \<Rightarrow> envelope \<Rightarrow> envelope" where
  "envelope_acquire offset_raw e =
     e\<lparr>ev_off_filt := (if ev_acq e = 0 \<or> offset_raw - ev_off_filt e > 0 then offset_raw else ev_off_filt e),
       ev_acq := ev_acq e + 1, ev_slope_ppb := 0, ev_window_samples := 0\<rparr>"

text \<open>The envelope after the sample alone, and whether it snapped to it.\<close>

definition envelope_follow :: "int \<Rightarrow> envelope \<Rightarrow> bool \<times> envelope" where
  "envelope_follow offset_raw e =
     (let off_err = offset_raw - ev_off_filt e in
      if off_err > OFF_STEP_NS then (True, e\<lparr>ev_off_filt := offset_raw, ev_down_run := 0\<rparr>)
      else if off_err > 0 then
        (False, e\<lparr>ev_off_filt := ev_off_filt e + (let up = off_err div 2 in if up > OFF_UP_MAX_NS then OFF_UP_MAX_NS else up),
                  ev_down_run := 0\<rparr>)
      else if off_err < - OFF_DOWN_STEP_NS then
        (if ev_down_run e + 1 \<ge> OFF_DOWN_RUN then (True, e\<lparr>ev_off_filt := offset_raw, ev_down_run := 0\<rparr>)
         else (False, e\<lparr>ev_down_run := ev_down_run e + 1\<rparr>))
      else (False, e\<lparr>ev_down_run := 0\<rparr>))"

text \<open>The best sample of a window of eight moves the envelope down and trims the slope.\<close>

definition envelope_window :: "int \<Rightarrow> int \<Rightarrow> envelope \<Rightarrow> envelope" where
  "envelope_window tsf_us off_err e =
     (let opens = (ev_window_samples e = 0);
          best = (if opens \<or> off_err > ev_window_best e then off_err else ev_window_best e);
          start = (if opens then tsf_us else ev_window_start_tsf_us e);
          samples = ev_window_samples e + 1;
          window_us = tsf_us - start;
          e = e\<lparr>ev_window_best := best, ev_window_start_tsf_us := start, ev_window_samples := samples\<rparr>
      in if samples \<ge> WINDOW_SAMPLES \<and> window_us > 0 then
           e\<lparr>ev_off_filt := ev_off_filt e + (if best < 0 then best div 4 else 0),
             ev_slope_ppb := clamp SLOPE_MAX_PPB (ev_slope_ppb e + ((best * 1000000) sdiv window_us) div 32),
             ev_window_samples := 0\<rparr>
         else e)"

definition envelope_track :: "int \<Rightarrow> int \<Rightarrow> envelope \<Rightarrow> envelope" where
  "envelope_track offset_raw tsf_us e =
     (let off_err = offset_raw - ev_off_filt e; (snapped, e) = envelope_follow offset_raw e
      in if snapped then e\<lparr>ev_window_samples := 0\<rparr> else envelope_window tsf_us off_err e)"

text \<open>One sample: whether the station acquires again, whether the offset may discipline the clock,
  and the new state.\<close>

definition envelope_sample :: "int \<Rightarrow> int \<Rightarrow> u16 \<Rightarrow> bytes \<Rightarrow> envelope \<Rightarrow> bool \<times> bool \<times> envelope" where
  "envelope_sample offset_raw tsf_us time_base phase_change e =
     (let (again, e) = envelope_base time_base phase_change e;
          e = envelope_drift tsf_us e
      in if ev_acq e < ACQ_SAMPLES then (again, False, envelope_acquire offset_raw e)
         else (again, True, envelope_track offset_raw tsf_us e))"

section \<open>The phase change\<close>

lemma sign_octet: "and (b :: u8) 0x80 = 0 \<longleftrightarrow> uint b < 128"
proof -
  have u: "0 \<le> uint b" "uint b < 256" using uint_lt2p [of b] by simp_all
  then have "uint b div 128 = 0 \<or> uint b div 128 = 1" by presburger
  moreover have "and b 0x80 = 0 \<longleftrightarrow> \<not> bit (uint b) 7"
    using and_exp_eq_0_iff_not_bit [of b 7] by (simp add: bit_uint_iff)
  ultimately show ?thesis using u by (auto simp: bit_iff_odd)
qed

text \<open>The two's complement value of an octet string is negative where its first octet is.\<close>

lemma be_sint_Cons:
  "be_sint (b # bs) = be_int (b # bs) - (if uint b < 128 then 0 else 2 ^ (8 * length (b # bs)))"
proof -
  have p: "(2::int) ^ (8 * length bs) = 256 ^ length bs" "(2::int) ^ (8 * length bs + 7) = 128 * 256 ^ length bs"
    by (simp_all add: power_mult power_add)
  have v: "be_int (b # bs) = uint b * 256 ^ length bs + be_int bs"
    using be_int_append [of "[b]" bs] by (simp add: be_int_def)
  have r: "0 \<le> be_int bs" "be_int bs < 256 ^ length bs" using be_int_bounds [of bs] by simp_all
  have "be_int (b # bs) < 128 * 256 ^ length bs \<longleftrightarrow> uint b < 128"
  proof
    assume "uint b < 128"
    then have "uint b * 256 ^ length bs \<le> 127 * 256 ^ length bs" by (intro mult_right_mono) simp_all
    then show "be_int (b # bs) < 128 * 256 ^ length bs" using v r by linarith
  next
    assume "be_int (b # bs) < 128 * 256 ^ length bs"
    then have "uint b * 256 ^ length bs < 128 * 256 ^ length bs" using v r by linarith
    then show "uint b < 128" by simp
  qed
  moreover have "8 * length (b # bs) - 1 = 8 * length bs + 7" by simp
  ultimately show ?thesis unfolding be_sint_def Let_def by (simp only: p) simp
qed

lemma sign_extension_fits:
  fixes a b m :: int
  assumes "0 \<le> a" "a < 256" "0 \<le> b" "b < 256" "0 \<le> m" "m < 2 ^ 64"
  shows "in_i64 ((a * 256 + b) * 2 ^ 64 + m - (if a < 128 then 0 else 2 ^ 80)) \<longleftrightarrow>
    (if m < 2 ^ 63 then a = 0 \<and> b = 0 else a = 255 \<and> b = 255)"
proof -
  define k where "k = a * 256 + b - (if a < 128 then 0 else 65536)"
  have v: "(a * 256 + b) * 2 ^ 64 + m - (if a < 128 then 0 else 2 ^ 80) = k * 2 ^ 64 + m"
    by (simp add: k_def algebra_simps)
  have k: "k = 0 \<longleftrightarrow> a = 0 \<and> b = 0" "k = -1 \<longleftrightarrow> a = 255 \<and> b = 255"
    using assms(1-4) unfolding k_def by (cases "a < 128"; simp; linarith)+
  have "in_i64 (k * 2 ^ 64 + m) \<longleftrightarrow> (if m < 2 ^ 63 then k = 0 else k = -1)"
    using assms(5,6) unfolding in_i64_def by (simp; linarith)
  then show ?thesis unfolding v k by simp
qed

text \<open>The sign extension test: \<^verbatim>\<open>lastGmPhaseChange\<close> counts units of \<open>2 ^ -16\<close> ns in 96 bits; the
  station takes its whole nanoseconds, exactly when they fit 64 bits.\<close>

lemma phase_change_value:
  assumes "length s = 12"
  shows "follow_up_phase_change_ns s = (let ns = be_sint s div 2 ^ 16 in if in_i64 ns then Some ns else None)"
proof -
  obtain a b c t where s: "s = a # b # c # t" "length t = 9" using assms by (auto simp: length_Suc_conv eval_nat_numeral)
  define m where "m = c # take 7 t"
  have split: "s = [a, b] @ m @ drop 7 t" "length m = 8" "length (drop 7 t) = 2" using s by (simp_all add: m_def)
  have sl: "slice 2 8 s = m" using s by (simp add: slice_def m_def)
  have ab: "0 \<le> uint a" "uint a < 256" "0 \<le> uint b" "uint b < 256"
    using uint_lt2p [of a] uint_lt2p [of b] by simp_all
  have l: "0 \<le> be_int (drop 7 t)" "be_int (drop 7 t) < 65536" using be_int_bounds [of "drop 7 t"] split by simp_all
  have i: "be_int s = (uint a * 256 + uint b) * 2 ^ 80 + be_int m * 65536 + be_int (drop 7 t)"
    using be_int_append [of "[a, b]" "m @ drop 7 t"] be_int_append [of m "drop 7 t"]
    by (simp add: split s(2) be_int_def [of "[a, b]"])
  define v where "v = (uint a * 256 + uint b) * 2 ^ 64 + be_int m - (if uint a < 128 then 0 else 2 ^ 80)"
  have "be_sint s = v * 65536 + be_int (drop 7 t)"
    using be_sint_Cons [of a "b # c # t"] s i by (simp add: v_def)
  then have q: "be_sint s div 2 ^ 16 = v" using l by (simp add: div_eq_dividend_iff)
  have mv: "be_sint m = be_int m - (if uint c < 128 then 0 else 2 ^ 64)"
    using be_sint_Cons [of c "take 7 t"] split(2) s(2) by (simp add: m_def)
  have mc: "uint c < 128 \<longleftrightarrow> be_int m < 2 ^ 63"
    using be_sint_Cons [of c "take 7 t"] s(2) by (auto simp: be_sint_def Let_def m_def split: if_splits)
  have mb: "0 \<le> be_int m" "be_int m < 2 ^ 64" using be_int_bounds [of m] split(2) by simp_all
  have ext: "s ! 0 = (if and (s ! 2) 0x80 \<noteq> 0 then 0xFF else 0) \<and> s ! 1 = (if and (s ! 2) 0x80 \<noteq> 0 then 0xFF else 0) \<longleftrightarrow>
      (if uint c < 128 then uint a = 0 \<and> uint b = 0 else uint a = 255 \<and> uint b = 255)"
    using sign_octet [of c] by (simp add: s word_uint_eq_iff [of a] word_uint_eq_iff [of b])
  show ?thesis
  proof (cases "in_i64 v")
    case True
    then have "if uint c < 128 then uint a = 0 \<and> uint b = 0 else uint a = 255 \<and> uint b = 255"
      using sign_extension_fits [OF ab mb] mc unfolding v_def by presburger
    moreover from this have "be_sint m = v" using mv by (auto simp: v_def split: if_splits)
    ultimately show ?thesis using True ext unfolding follow_up_phase_change_ns_def Let_def q sl by presburger
  next
    case False
    then have "\<not> (if uint c < 128 then uint a = 0 \<and> uint b = 0 else uint a = 255 \<and> uint b = 255)"
      using sign_extension_fits [OF ab mb] mc unfolding v_def by presburger
    then show ?thesis using False ext unfolding follow_up_phase_change_ns_def Let_def q sl by presburger
  qed
qed

text \<open>The phase change a bridge writes into its Follow\_Up is the one the station applies: the
  station reads the whole nanoseconds of the field exactly where they fit 64 bits, and nothing
  where they do not.\<close>

theorem phase_change_decoded:
  assumes "length scaled = 12" "in_i64 ns"
  shows "follow_up_phase_change_ns scaled =
      (let v = be_sint scaled div 2 ^ 16 in if in_i64 v then Some v else None) \<and>
    follow_up_phase_change_ns (ptp_scaled_ns_from_ns ns) = Some ns"
proof -
  have "be_sint (ptp_scaled_ns_from_ns ns) = ns * 2 ^ 16" "length (ptp_scaled_ns_from_ns ns) = 12"
    using scaled_values [of 0 ns] assms(2) by simp_all
  then have "follow_up_phase_change_ns (ptp_scaled_ns_from_ns ns) = Some ns"
    using phase_change_value [of "ptp_scaled_ns_from_ns ns"] assms(2) by simp
  then show ?thesis using phase_change_value [OF assms(1)] by simp
qed

theorem phase_change_decoded_witness:
  "follow_up_phase_change_ns (replicate 11 0xff @ [0]) = Some (-1) \<and>
   follow_up_phase_change_ns ([0, 1] @ replicate 10 0) = None \<and>
   follow_up_phase_change_ns (ptp_scaled_ns_from_ns (-1500)) = Some (-1500)"
proof -
  have "be_sint (replicate 11 0xff @ [0]) div 2 ^ 16 = -1" "\<not> in_i64 (be_sint ([0, 1] @ replicate 10 0) div 2 ^ 16)"
    by code_simp+
  then show ?thesis
    using phase_change_decoded [of "replicate 11 0xff @ [0]" "-1500"] phase_change_decoded [of "[0, 1] @ replicate 10 0" 0]
    by (simp add: in_i64_def Let_def)
qed

section \<open>Acquisition\<close>

lemma envelope_base_same:
  "ev_time_base e = Some b \<Longrightarrow> envelope_base b ph e = (False, e)"
  "ev_time_base e = None \<Longrightarrow> envelope_base b ph e = (False, e\<lparr>ev_time_base := Some b\<rparr>)"
  by (simp_all add: envelope_base_def)

text \<open>Samples of one time base: offsets with the counter of the radio.\<close>

fun envelope_run :: "u16 \<Rightarrow> bytes \<Rightarrow> (int \<times> int) list \<Rightarrow> envelope \<Rightarrow> envelope" where
  "envelope_run base phase [] e = e"
| "envelope_run base phase ((raw, tsf) # xs) e = envelope_run base phase xs (snd (snd (envelope_sample raw tsf base phase e)))"

lemma sample_acquiring:
  assumes "ev_acq e < 16" "ev_time_base e = None \<or> ev_time_base e = Some base"
  shows "envelope_sample raw tsf base ph e = (False, False,
    e\<lparr>ev_off_filt := (if ev_acq e = 0 \<or> raw > ev_off_filt e then raw else ev_off_filt e), ev_acq := ev_acq e + 1,
      ev_slope_ppb := 0, ev_window_samples := 0, ev_last_tsf_us := tsf, ev_time_base := Some base\<rparr>)"
  using assms by (auto simp: envelope_sample_def envelope_base_same envelope_drift_def envelope_acquire_def envelope_constants)

lemma run_acquiring:
  assumes "0 < ev_acq e" "ev_acq e + length xs \<le> 16" "ev_time_base e = Some base"
  shows "ev_off_filt (envelope_run base ph xs e) = Max (insert (ev_off_filt e) (fst ` set xs)) \<and>
    ev_acq (envelope_run base ph xs e) = ev_acq e + length xs"
  using assms
proof (induction xs arbitrary: e)
  case (Cons x xs)
  obtain raw tsf where x: "x = (raw, tsf)" by fastforce
  define e' where "e' = snd (snd (envelope_sample raw tsf base ph e))"
  have e': "ev_off_filt e' = max raw (ev_off_filt e)" "ev_acq e' = ev_acq e + 1" "ev_time_base e' = Some base"
    using Cons.prems by (simp_all add: e'_def sample_acquiring max_def)
  have "ev_off_filt (envelope_run base ph xs e') = Max (insert (max raw (ev_off_filt e)) (fst ` set xs))"
    "ev_acq (envelope_run base ph xs e') = ev_acq e + 1 + length xs"
    using Cons.IH [of e'] Cons.prems e' by simp_all
  moreover have "Max (insert (max raw (ev_off_filt e)) (fst ` set xs)) = Max (insert (ev_off_filt e) (insert raw (fst ` set xs)))"
    by (cases "xs = []") (simp_all add: max.left_commute max.commute)
  ultimately show ?case by (simp add: x e'_def)
qed simp

lemma sample_keeps_base:
  assumes "ev_time_base e = Some base"
  shows "ev_time_base (snd (snd (envelope_sample raw tsf base ph e))) = Some base"
proof -
  have f: "ev_time_base (snd (envelope_follow raw x)) = ev_time_base x" for x
    by (simp add: envelope_follow_def Let_def)
  have w: "ev_time_base (envelope_window tsf err x) = ev_time_base x" for err x
    by (simp add: envelope_window_def Let_def)
  have t: "ev_time_base (envelope_track raw tsf x) = ev_time_base x" for x
    using f [of x] by (simp add: envelope_track_def split_beta w Let_def)
  have a: "ev_time_base (envelope_acquire raw x) = ev_time_base x" "ev_time_base (envelope_drift tsf x) = ev_time_base x" for x
    by (simp_all add: envelope_acquire_def envelope_drift_def)
  show ?thesis using assms by (simp add: envelope_sample_def envelope_base_same t a Let_def)
qed

text \<open>What the station acquires.  It acquires over sixteen samples, during which its clock is
  left alone; the offset it then starts from is the largest of them.  Where each sample lies
  below the true offset by a gap that is not negative, that is the true offset less the
  smallest gap.\<close>

theorem acquires_smallest_gap:
  fixes e :: envelope and gaps :: "(int \<times> int) list" and offset :: int and phase :: bytes and base :: u16
  assumes "ev_acq e = 0" "ev_time_base e = None \<or> ev_time_base e = Some base" "length gaps = 16"
    and "\<forall>(gap, tsf) \<in> set gaps. 0 \<le> gap"
  defines "e' \<equiv> envelope_run base phase (map (\<lambda>(gap, tsf). (offset - gap, tsf)) gaps) e"
  shows "ev_off_filt e' = offset - Min (fst ` set gaps) \<and> ev_off_filt e' \<le> offset \<and>
    (\<forall>k < 16. \<not> fst (snd (envelope_sample (offset - fst (gaps ! k)) (snd (gaps ! k)) base phase
        (envelope_run base phase (map (\<lambda>(gap, tsf). (offset - gap, tsf)) (take k gaps)) e)))) \<and>
    fst (snd (envelope_sample raw tsf base phase e'))"
proof -
  let ?f = "\<lambda>(gap, tsf). (offset - gap, tsf)"
  have first: "ev_acq (snd (snd (envelope_sample raw tsf base phase e))) = 1 \<and>
      ev_off_filt (snd (snd (envelope_sample raw tsf base phase e))) = raw \<and>
      ev_time_base (snd (snd (envelope_sample raw tsf base phase e))) = Some base" for raw tsf
    using sample_acquiring [of e base raw tsf phase] assms(1,2) by simp
  have run: "ev_off_filt (envelope_run base phase (map ?f gs) e) = Max (fst ` set (map ?f gs)) \<and>
      ev_acq (envelope_run base phase (map ?f gs) e) = length gs \<and> ev_time_base (envelope_run base phase (map ?f gs) e) = Some base"
    if "gs \<noteq> []" "length gs \<le> 16" for gs
  proof -
    obtain g t gs' where gs: "gs = (g, t) # gs'" using \<open>gs \<noteq> []\<close> by (metis list.exhaust surj_pair)
    have base: "ev_time_base (envelope_run base phase xs x) = Some base" if "ev_time_base x = Some base" for xs x
      using that
    proof (induction xs arbitrary: x)
      case (Cons y ys)
      have "ev_time_base (snd (snd (envelope_sample (fst y) (snd y) base phase x))) = Some base"
        using Cons.prems sample_keeps_base by blast
      then show ?case using Cons.IH by (cases y) simp
    qed simp
    show ?thesis
      using run_acquiring [of "snd (snd (envelope_sample (offset - g) t base phase e))" "map ?f gs'" base phase]
        first [of "offset - g" t] base that(2) by (auto simp: gs)
  qed
  have ne: "gaps \<noteq> []" using assms(3) by auto
  have mx: "Max (fst ` set (map ?f gaps)) = offset - Min (fst ` set gaps)"
  proof -
    have im: "fst ` set (map ?f gaps) = (\<lambda>g. offset - g) ` fst ` set gaps" by (force simp: image_iff)
    have "Max ((\<lambda>g. offset - g) ` A) = offset - Min A" if "finite A" "A \<noteq> {}" for A :: "int set"
      using that Min_in [OF that] by (intro Max_eqI) (auto simp del: Min_in intro!: imageI)
    then show ?thesis using ne unfolding im by simp
  qed
  have off: "ev_off_filt e' = offset - Min (fst ` set gaps)" "ev_acq e' = 16" "ev_time_base e' = Some base"
    using run [OF ne] assms(3) mx unfolding e'_def by simp_all
  have "0 \<le> Min (fst ` set gaps)" using assms(4) ne by (auto simp: case_prod_beta)
  moreover have "\<not> fst (snd (envelope_sample r t base phase (envelope_run base phase (map ?f (take k gaps)) e)))" if "k < 16" for k r t
  proof (cases "k = 0")
    case False
    then show ?thesis using run [of "take k gaps"] sample_acquiring that assms(3) ne by simp
  qed (use sample_acquiring [of e base] assms(1,2) in simp)
  moreover have "fst (snd (envelope_sample raw tsf base phase e'))"
    using off by (simp add: envelope_sample_def envelope_base_same envelope_drift_def envelope_constants)
  ultimately show ?thesis using off by simp
qed

theorem acquires_smallest_gap_witness:
  "ev_off_filt (envelope_run 7 [] (map (\<lambda>(gap, tsf). (1000 - gap, tsf)) (zip [5, 3, 9, 4, 8, 6, 3, 7, 5, 5, 4, 9, 8, 6, 5, 4] [0..15])) envelope_zero)
     = 997"
proof -
  have "\<forall>(gap, tsf) \<in> set (zip [5, 3, 9, 4, 8, 6, 3, 7, 5, 5, 4, 9, 8, 6, 5, 4] [0..15]). (0 :: int) \<le> gap"
    "length (zip [5, 3, 9, 4, 8, 6, 3, 7, 5, 5, 4, 9, 8, 6, 5, 4 :: int] [0..15]) = 16"
    "Min (fst ` set (zip [5, 3, 9, 4, 8, 6, 3, 7, 5, 5, 4, 9, 8, 6, 5, 4 :: int] [0..15])) = 3"
    by code_simp+
  with acquires_smallest_gap [of envelope_zero 7 "zip [5, 3, 9, 4, 8, 6, 3, 7, 5, 5, 4, 9, 8, 6, 5, 4] [0..15]" "[]" 1000]
  show ?thesis by (simp add: envelope_zero_def)
qed

section \<open>Tracking\<close>

lemma follow_between:
  "envelope_follow raw e = (snapped, e') \<Longrightarrow>
     ev_slope_ppb e' = ev_slope_ppb e \<and> ev_window_samples e' = ev_window_samples e \<and> ev_window_best e' = ev_window_best e \<and>
     min (ev_off_filt e) raw \<le> ev_off_filt e' \<and> ev_off_filt e' \<le> max (ev_off_filt e) raw \<and>
     (\<not> snapped \<longrightarrow> ev_off_filt e \<le> ev_off_filt e' \<and> ev_off_filt e' \<le> ev_off_filt e + OFF_UP_MAX_NS) \<and>
     (snapped \<longrightarrow> ev_off_filt e' = raw)"
  by (auto simp: envelope_follow_def Let_def envelope_constants split: if_splits)

lemma window_down:
  assumes "envelope_window tsf err e = e'"
  shows "ev_off_filt e' \<le> ev_off_filt e \<and> (0 \<le> err \<longrightarrow> ev_off_filt e' = ev_off_filt e) \<and>
    (err < 0 \<longrightarrow> ev_off_filt e + err \<le> ev_off_filt e')"
  using assms by (auto simp: envelope_window_def Let_def split: if_splits)

text \<open>How the station tracks.  A sample never moves the offset beyond itself: the new offset lies
  between the old one and the sample.  Unless the sample is a step of more than 100 ms upwards or
  the eighth in a row more than 350 ms downwards, in which case the offset becomes the sample,
  the offset rises by at most 400 microseconds.\<close>

theorem tracking_contracts:
  fixes e :: envelope and raw tsf :: int
  defines "e' \<equiv> envelope_track raw tsf e" and "err \<equiv> raw - ev_off_filt e"
  shows "min (ev_off_filt e) raw \<le> ev_off_filt e' \<and> ev_off_filt e' \<le> max (ev_off_filt e) raw \<and>
    (if err > OFF_STEP_NS \<or> err < - OFF_DOWN_STEP_NS \<and> 7 \<le> ev_down_run e then ev_off_filt e' = raw
     else ev_off_filt e' \<le> ev_off_filt e + 400000)"
proof -
  obtain s f where f: "envelope_follow raw e = (s, f)" by fastforce
  have s: "s \<longleftrightarrow> err > OFF_STEP_NS \<or> err < - OFF_DOWN_STEP_NS \<and> 7 \<le> ev_down_run e"
    using f by (cases "err > OFF_STEP_NS"; cases "err > 0"; cases "err < - OFF_DOWN_STEP_NS"; cases "7 \<le> ev_down_run e")
      (auto simp: envelope_follow_def Let_def OFF_DOWN_RUN_def OFF_DOWN_STEP_NS_def simp flip: err_def)
  note b = follow_between [OF f] and w = window_down [OF refl, of tsf err f]
  have e': "e' = (if s then f\<lparr>ev_window_samples := 0\<rparr> else envelope_window tsf err f)"
    by (simp add: e'_def envelope_track_def f err_def)
  show ?thesis
  proof (cases s)
    case True
    then show ?thesis using b s by (simp add: e')
  next
    case False
    have n: "err < 0 \<Longrightarrow> ev_off_filt f = ev_off_filt e" using f False by (auto simp: envelope_follow_def err_def Let_def envelope_constants split: if_splits)
    have "ev_off_filt e' \<le> max (ev_off_filt e) raw" using b w False by (simp add: e')
    moreover have "min (ev_off_filt e) raw \<le> ev_off_filt e'"
      using b w False n by (cases "err < 0") (auto simp: e' err_def)
    moreover have "ev_off_filt e' \<le> ev_off_filt e + 400000" using b w False by (simp add: e' OFF_UP_MAX_NS_def)
    ultimately show ?thesis using s False by auto
  qed
qed

section \<open>Every reachable state\<close>

inductive envelope_reachable :: "envelope \<Rightarrow> bool" where
  start: "envelope_reachable envelope_zero"
| sample: "envelope_reachable e \<Longrightarrow> envelope_reachable (snd (snd (envelope_sample raw tsf base phase e)))"

lemma envelope_parts_inv:
  "ev_down_run e < 8 \<Longrightarrow> ev_down_run (snd (envelope_follow raw e)) < 8"
  "\<bar>ev_slope_ppb e\<bar> \<le> 200000 \<Longrightarrow> \<bar>ev_slope_ppb (envelope_window tsf err e)\<bar> \<le> 200000"
  "ev_acq (envelope_window tsf err e) = ev_acq e" "ev_down_run (envelope_window tsf err e) = ev_down_run e"
  "ev_acq (snd (envelope_follow raw e)) = ev_acq e" "ev_slope_ppb (snd (envelope_follow raw e)) = ev_slope_ppb e"
  using abs_clamp_le [of 200000 "ev_slope_ppb e + _"]
  by (auto simp: envelope_follow_def envelope_window_def Let_def envelope_constants)

lemma reachable_bounds:
  "envelope_reachable e \<Longrightarrow> \<bar>ev_slope_ppb e\<bar> \<le> 200000 \<and> ev_acq e \<le> 16 \<and> ev_down_run e < 8"
proof (induction rule: envelope_reachable.induct)
  case (sample e raw tsf base phase)
  obtain again f where f: "envelope_base base phase e = (again, f)" by fastforce
  have "\<bar>ev_slope_ppb f\<bar> \<le> 200000 \<and> ev_acq f \<le> 16 \<and> ev_down_run f < 8"
    using sample.IH f by (auto simp: envelope_base_def Let_def split: if_splits option.splits)
  then have d: "\<bar>ev_slope_ppb (envelope_drift tsf f)\<bar> \<le> 200000 \<and> ev_acq (envelope_drift tsf f) \<le> 16 \<and>
      ev_down_run (envelope_drift tsf f) < 8"
    by (simp add: envelope_drift_def)
  then show ?case
    using envelope_parts_inv(1) [of "envelope_drift tsf f" raw] envelope_parts_inv(2) [of "snd (envelope_follow raw (envelope_drift tsf f))"]
    by (auto simp: envelope_sample_def f envelope_acquire_def envelope_track_def split_beta Let_def ACQ_SAMPLES_def envelope_parts_inv(3-6))
qed (simp add: envelope_zero_def)



end
