(* ===== verification/Ptp_Beacon.thy ===== *)
theory Ptp_Beacon
  imports Ptp_Envelope Ptp_Source Ptp_Ftm Ptp_Periodic
begin

text \<open>
  The beacon carrier of time: the publisher of an access point (\<^verbatim>\<open>ptp_beacon_ie.c\<close>) and the consumer
  of a station (\<^verbatim>\<open>on_vendor_ie\<close> of \<^verbatim>\<open>ptp_wifi.c\<close>).

  \<open>vendor_proto\<close> stands for \<^verbatim>\<open>hosted_avb_proto.h\<close>, which is not part of the repository: the
  identifier and sub-identifier of the element and the lengths of its parts.  The length of the
  Follow\_Up in it is 76, which a static assertion of the source fixes.  The coprocessor, which
  writes the counter of the radio over the placeholder, and the driver are outside the model.
\<close>

record vendor_proto =
  vp_oui :: bytes
  vp_oui_type :: u8
  vp_subid0 :: u8
  vp_subid1 :: u8
  vp_subid_len :: nat
  vp_tsf_len :: nat
  vp_bracket_len :: nat

definition proto_ok :: "vendor_proto \<Rightarrow> bool" where
  "proto_ok pr \<longleftrightarrow> length (vp_oui pr) = 3 \<and> vp_subid_len pr = 2 \<and> vp_tsf_len pr = 8"

section \<open>The publisher\<close>

text \<open>The element as it is handed to the radio, the counter still zero.\<close>

definition beacon_time_element :: "vendor_proto \<Rightarrow> bytes \<Rightarrow> bytes" where
  "beacon_time_element pr fu_info =
     (let n = 6 + vp_subid_len pr + 76 + vp_tsf_len pr;
          ie = splice 0 ([0xDD, word_of_nat (n - 2)] @ vp_oui pr @ [vp_oui_type pr, vp_subid0 pr, vp_subid1 pr]) (replicate n 0)
      in splice (6 + vp_subid_len pr) fu_info ie)"

text \<open>\<open>hdr\<close> is the header of the request to the coprocessor.\<close>

definition publish_ies :: "vendor_proto \<Rightarrow> bytes \<Rightarrow> bytes option \<Rightarrow> nat \<Rightarrow> bytes option" where
  "publish_ies pr hdr fu_info fu_info_len =
     (case fu_info of
        None \<Rightarrow> None
      | Some fu \<Rightarrow> if fu_info_len \<noteq> 76 then None else Some (hdr @ beacon_time_element pr fu))"

text \<open>The mailbox of one item, and whether the task that empties it exists.\<close>

record beacon_publisher =
  bp_mbox :: bool
  bp_item :: "bytes option"
  bp_task :: bool

definition PTP_BEACON_IE_FU_MAX :: nat where "PTP_BEACON_IE_FU_MAX = 128"

definition on_sync_egress :: "beacon_publisher \<Rightarrow> bytes option \<Rightarrow> nat \<Rightarrow> beacon_publisher" where
  "on_sync_egress p fu_info fu_info_len =
     (case fu_info of
        None \<Rightarrow> p
      | Some fu \<Rightarrow>
          if \<not> bp_mbox p then p
          else p\<lparr>bp_item := Some (take (if fu_info_len > PTP_BEACON_IE_FU_MAX then PTP_BEACON_IE_FU_MAX else fu_info_len) fu)\<rparr>)"

text \<open>One turn of the task: what it sends, if anything.\<close>

definition republish :: "vendor_proto \<Rightarrow> bytes \<Rightarrow> beacon_publisher \<Rightarrow> bytes option \<times> beacon_publisher" where
  "republish pr hdr p =
     (case bp_item p of
        None \<Rightarrow> (None, p)
      | Some item \<Rightarrow> if bp_task p then (publish_ies pr hdr (Some item) (length item), p\<lparr>bp_item := None\<rparr>) else (None, p))"

text \<open>\<open>beacon_port\<close> is the port of the build; \<open>queue_ok\<close> and \<open>task_ok\<close> are the answers of the
  operating system.\<close>

datatype attach_error = Attach_EINVAL | Attach_ENOMEM | Attach_register ptp_errno

definition ptp_beacon_ie_attach ::
  "ptp_config \<Rightarrow> int \<Rightarrow> bool \<Rightarrow> bool \<Rightarrow> int \<Rightarrow> beacon_publisher \<Rightarrow> ptp_daemon \<Rightarrow>
     (attach_error, unit) sum \<times> beacon_publisher \<times> ptp_daemon" where
  "ptp_beacon_ie_attach cfg beacon_port queue_ok task_ok port_index p d =
     (if port_index \<noteq> beacon_port then (Inl Attach_EINVAL, p, d)
      else if \<not> bp_mbox p \<and> \<not> queue_ok then (Inl Attach_ENOMEM, p, d)
      else if \<not> bp_mbox p \<and> \<not> task_ok then (Inl Attach_ENOMEM, p\<lparr>bp_mbox := True\<rparr>, d)
      else
        let p = (if bp_mbox p then p else p\<lparr>bp_mbox := True, bp_task := True\<rparr>)
        in case ptpd_register_sync_egress_cb cfg d beacon_port True of
             (Inl e, d) \<Rightarrow> (Inl (Attach_register e), p, d)
           | (Inr _, d) \<Rightarrow> (Inr (), p, d))"

section \<open>The station's state\<close>

record beacon_markers =
  bk_gptp_marker_ns :: int
  bk_tsf_marker_us :: int
  bk_tsf_marker_received_us :: int
  bk_seen_gptp :: bool
  bk_seen_tsf :: bool
  bk_peer_delay_ns :: int
  bk_last_origin_ts :: bytes
  bk_last_element_us :: int
  bk_element_interval_us :: int
  bk_envelope :: envelope

definition markers_zero :: beacon_markers where
  "markers_zero = \<lparr>bk_gptp_marker_ns = 0, bk_tsf_marker_us = 0, bk_tsf_marker_received_us = 0, bk_seen_gptp = False,
     bk_seen_tsf = False, bk_peer_delay_ns = 0, bk_last_origin_ts = replicate 10 0, bk_last_element_us = 0,
     bk_element_interval_us = 0, bk_envelope = envelope_zero\<rparr>"

record sta_status =
  xs_sta_associated_us :: int
  xs_status_bssid :: bytes
  xs_beacon_applied_us :: int
  xs_beacon_window_us :: int
  xs_beacon_error_ns :: int
  xs_beacon_error_valid :: bool
  xs_beacon_converged :: bool
  xs_beacon_was_locked :: bool
  xs_beacon_port_identity :: bytes
  xs_ftm_rtt_ns :: int
  xs_ftm_rtt_valid :: bool
  xs_ap_resets :: u16
  xs_ftm_success :: ptp_ftm_success

definition status_zero :: sta_status where
  "status_zero = \<lparr>xs_sta_associated_us = 0, xs_status_bssid = replicate 6 0, xs_beacon_applied_us = 0, xs_beacon_window_us = 0,
     xs_beacon_error_ns = 0, xs_beacon_error_valid = False, xs_beacon_converged = False, xs_beacon_was_locked = False,
     xs_beacon_port_identity = replicate 10 0, xs_ftm_rtt_ns = 0, xs_ftm_rtt_valid = False, xs_ap_resets = 0,
     xs_ftm_success = success_zero\<rparr>"

definition status_clamp_ns :: "int \<Rightarrow> int" where
  "status_clamp_ns value_ns =
     (if value_ns > INT32_MAX then INT32_MAX else if value_ns < - 2147483648 then - 2147483648 else value_ns)"

definition beacon_status_reacquire :: "sta_status \<Rightarrow> sta_status" where
  "beacon_status_reacquire x =
     x\<lparr>xs_beacon_applied_us := 0, xs_beacon_error_valid := False, xs_beacon_converged := False, xs_beacon_was_locked := False\<rparr>"

definition beacon_status_new_source :: "sta_status \<Rightarrow> sta_status" where
  "beacon_status_new_source x = (beacon_status_reacquire x)\<lparr>xs_beacon_port_identity := replicate 10 0\<rparr>"

definition BEACON_LOCK_ENTER_NS :: int where "BEACON_LOCK_ENTER_NS = 2000000"
definition BEACON_LOCK_EXIT_NS :: int where "BEACON_LOCK_EXIT_NS = 4000000"

definition beacon_status_applied :: "int \<Rightarrow> int \<Rightarrow> sta_status \<Rightarrow> sta_status" where
  "beacon_status_applied error_ns now_us x =
     (let magnitude_ns = (if error_ns < 0 then - error_ns else error_ns);
          converged = (if magnitude_ns \<le> BEACON_LOCK_ENTER_NS then True
                       else if magnitude_ns > BEACON_LOCK_EXIT_NS then False else xs_beacon_converged x)
      in x\<lparr>xs_beacon_applied_us := now_us, xs_beacon_error_ns := status_clamp_ns error_ns, xs_beacon_error_valid := True,
           xs_beacon_converged := converged, xs_beacon_was_locked := (converged \<or> xs_beacon_was_locked x)\<rparr>)"

section \<open>Decoding an element\<close>

text \<open>What the driver passes on of an element: its length octet, and what follows it.\<close>

record vendor_ie =
  vi_length :: u8
  vi_oui :: bytes
  vi_oui_type :: u8
  vi_payload :: bytes

definition vendor_ie_of :: "bytes \<Rightarrow> vendor_ie" where
  "vendor_ie_of ie = \<lparr>vi_length = ie ! 1, vi_oui = slice 2 3 ie, vi_oui_type = ie ! 5, vi_payload = drop 6 ie\<rparr>"

text \<open>The Follow\_Up with the octets of the counter, when the element is a beacon time element.\<close>

definition beacon_payload :: "vendor_proto \<Rightarrow> vendor_ie \<Rightarrow> bytes option" where
  "beacon_payload pr v =
     (let payload_len = uint (vi_length v) - 4;
          markers_len = 76 + int (vp_tsf_len pr);
          rest_len = payload_len - int (vp_subid_len pr);
          payload = drop (vp_subid_len pr) (vi_payload v)
      in if vi_oui v \<noteq> vp_oui pr \<or> vi_oui_type v \<noteq> vp_oui_type pr then None
         else if payload_len < int (vp_subid_len pr) \<or> vi_payload v ! 0 \<noteq> vp_subid0 pr \<or> vi_payload v ! 1 \<noteq> vp_subid1 pr then None
         else if rest_len \<noteq> markers_len \<and> rest_len \<noteq> markers_len + int (vp_bracket_len pr) then None
         else if and (hd_messagetype (header_of payload)) PTP_MSGTYPE_MASK \<noteq> PTP_MSGTYPE_FOLLOW_UP then None
         else Some payload)"

text \<open>The product is computed in unsigned 64-bit arithmetic and converted to a signed number.\<close>

definition gptp_marker :: "bytes \<Rightarrow> int" where
  "gptp_marker payload =
     (let origin = slice 34 10 payload;
          secs = word_of_int (be_int (slice 0 6 origin)) :: u64;
          nsecs = be_int (slice 6 4 origin)
      in sint (secs * 1000000000) + nsecs + follow_up_correction_ns (header_of payload))"

text \<open>The counter is little-endian.\<close>

definition tsf_marker :: "vendor_proto \<Rightarrow> bytes \<Rightarrow> int" where
  "tsf_marker pr payload =
     sint (word_of_int (be_int (rev (slice 76 (vp_tsf_len pr) payload))) :: u64)"

definition note_markers :: "vendor_proto \<Rightarrow> bytes \<Rightarrow> int \<Rightarrow> beacon_markers \<Rightarrow> beacon_markers" where
  "note_markers pr payload received_us m =
     m\<lparr>bk_gptp_marker_ns := gptp_marker payload, bk_seen_gptp := True,
       bk_tsf_marker_us := tsf_marker pr payload, bk_tsf_marker_received_us := received_us, bk_seen_tsf := True\<rparr>"

definition ELEMENT_INTERVAL_MIN_US :: int where "ELEMENT_INTERVAL_MIN_US = 100000"
definition ELEMENT_INTERVAL_MAX_US :: int where "ELEMENT_INTERVAL_MAX_US = 2000000"

text \<open>The measured interval between fresh elements; None before the second one.\<close>

definition element_interval :: "int \<Rightarrow> beacon_markers \<Rightarrow> int option" where
  "element_interval element_us m =
     (if bk_last_element_us m = 0 then None
      else
        let interval_us = element_us - bk_last_element_us m;
            interval_us = (if interval_us < ELEMENT_INTERVAL_MIN_US then ELEMENT_INTERVAL_MIN_US else interval_us);
            interval_us = (if interval_us > ELEMENT_INTERVAL_MAX_US then ELEMENT_INTERVAL_MAX_US else interval_us);
            i = bk_element_interval_us m
        in Some (if i \<noteq> 0 then i + (interval_us - i) sdiv 8 else interval_us))"

section \<open>One element\<close>

record beacon_env =
  bv_received_us :: int
  bv_element_us :: int
  bv_observed_us :: int
  bv_observed_ts :: timespec
  bv_sta_tsf_us :: int
  bv_now :: timespec
  bv_clock :: clock_env
  bv_inject_ts :: timespec
  bv_applied_us :: int

definition element_timing ::
  "ptp_config \<Rightarrow> int \<Rightarrow> beacon_env \<Rightarrow> beacon_markers \<times> sta_status \<times> ptp_daemon \<Rightarrow> beacon_markers \<times> sta_status \<times> ptp_daemon" where
  "element_timing cfg port_index env z =
     (let (m, x, d) = z;
          (m, x, d) =
            (case element_interval (bv_element_us env) m of
               None \<Rightarrow> (m, x, d)
             | Some i \<Rightarrow> (m\<lparr>bk_element_interval_us := i\<rparr>, x\<lparr>xs_beacon_window_us := 3 * i\<rparr>,
                          ptpd_set_sync_receipt_window cfg d port_index (3 * i)))
      in (m\<lparr>bk_last_element_us := bv_element_us env\<rparr>, x, d))"

text \<open>The clock follows the offset once it is acquired.\<close>

definition discipline_to_beacon ::
  "ptp_config \<Rightarrow> int \<Rightarrow> beacon_env \<Rightarrow> bytes \<Rightarrow> beacon_markers \<times> sta_status \<times> ptp_daemon \<Rightarrow>
     beacon_markers \<times> sta_status \<times> ptp_daemon" where
  "discipline_to_beacon cfg port_index env payload z =
     (let (m, x, d) = z;
          offset_raw = bk_gptp_marker_ns m - bk_tsf_marker_us m * 1000 + bk_peer_delay_ns m;
          time_base = word_of_nat (be16 (payload ! 58) (payload ! 59));
          (again, disciplined, e) = envelope_sample offset_raw (bv_sta_tsf_us env) time_base (slice 60 12 payload) (bk_envelope m);
          x = (if again then beacon_status_reacquire x else x);
          m = m\<lparr>bk_envelope := e\<rparr>;
          local_ns = tv_sec (bv_now env) * 1000000000 + tv_nsec (bv_now env);
          btc_now_ns = ev_off_filt e + bv_sta_tsf_us env * 1000
      in if \<not> disciplined then (m, x, d)
         else
           let (r, d) = ptpd_inject_sync_pair cfg d port_index btc_now_ns local_ns (bv_clock env) (bv_inject_ts env)
           in (m, if r = Inr True then beacon_status_applied (btc_now_ns - local_ns) (bv_applied_us env) x else x, d))"

text \<open>\<open>mode_a\<close>: the transport disciplines the clock by fine timing measurement instead.\<close>

definition on_vendor_ie ::
  "ptp_config \<Rightarrow> vendor_proto \<Rightarrow> bool \<Rightarrow> int \<Rightarrow> bool \<Rightarrow> vendor_ie \<Rightarrow> beacon_env \<Rightarrow>
     beacon_markers \<times> sta_status \<times> ptp_daemon \<Rightarrow> beacon_markers \<times> sta_status \<times> ptp_daemon" where
  "on_vendor_ie cfg pr mode_a port_index in_beacon v env z =
     (let (m, x, d) = z in
      if mode_a \<or> \<not> in_beacon then z
      else case beacon_payload pr v of
          None \<Rightarrow> z
        | Some payload \<Rightarrow>
            let h = header_of payload;
                identity = hd_sourceidentity h @ hd_sourceportindex h;
                m = note_markers pr payload (bv_received_us env) m;
                x = x\<lparr>xs_beacon_port_identity := identity\<rparr>
            in if slice 34 10 payload = bk_last_origin_ts m then (m, x, d)
               else
                 let (m, x, d) = element_timing cfg port_index env (m\<lparr>bk_last_origin_ts := slice 34 10 payload\<rparr>, x, d);
                     (_, d) = ptpd_ftm_source_observed cfg d port_index (Some identity) (hd_domain h)
                                (sint (hd_logmessageinterval h)) (bv_element_us env) (bv_observed_us env) (bv_observed_ts env)
                 in discipline_to_beacon cfg port_index env payload (m, x, d))"

section \<open>From the bridge to the station\<close>

lemma element_layout:
  assumes "proto_ok pr" "length fu = 76"
  shows "beacon_time_element pr fu =
    [0xDD, 90] @ vp_oui pr @ [vp_oui_type pr, vp_subid0 pr, vp_subid1 pr] @ fu @ replicate 8 0"
proof -
  obtain a b c where o: "vp_oui pr = [a, b, c]" using assms(1) by (auto simp: proto_ok_def length_Suc_conv eval_nat_numeral)
  have n: "replicate 92 (0 :: u8) = replicate 8 0 @ replicate 76 0 @ replicate 8 0" by (simp add: replicate_add [symmetric])
  have s: "splice 0 [0xDD, 90, a, b, c, vp_oui_type pr, vp_subid0 pr, vp_subid1 pr] (replicate 92 0) =
      [0xDD, 90, a, b, c, vp_oui_type pr, vp_subid0 pr, vp_subid1 pr] @ replicate 84 0"
    by (simp add: splice_def)
  show ?thesis using assms(1,2) by (simp add: beacon_time_element_def proto_ok_def o s Let_def) (simp add: splice_def)
qed

text \<open>The coprocessor writes the counter over the placeholder.\<close>

definition patch_tsf :: "bytes \<Rightarrow> bytes \<Rightarrow> bytes" where
  "patch_tsf tsf ie = take (length ie - length tsf) ie @ tsf"

lemma payload_of_element:
  assumes "proto_ok pr" "length fu = 76" "length tsf = 8" "and (fu ! 0) 15 = 8"
  shows "beacon_payload pr (vendor_ie_of (patch_tsf tsf (beacon_time_element pr fu))) = Some (fu @ tsf)"
proof -
  obtain a b c where o: "vp_oui pr = [a, b, c]" using assms(1) by (auto simp: proto_ok_def length_Suc_conv eval_nat_numeral)
  define v where "v = vendor_ie_of (patch_tsf tsf (beacon_time_element pr fu))"
  have ie: "patch_tsf tsf (beacon_time_element pr fu) =
      [0xDD, 90, a, b, c, vp_oui_type pr, vp_subid0 pr, vp_subid1 pr] @ fu @ tsf"
    using assms(2,3) by (simp add: patch_tsf_def element_layout [OF assms(1,2)] o)
  have v: "vi_length v = 90" "vi_oui v = vp_oui pr" "vi_oui_type v = vp_oui_type pr"
    "vi_payload v = [vp_subid0 pr, vp_subid1 pr] @ fu @ tsf"
    unfolding v_def vendor_ie_of_def ie by (simp_all add: o slice_def)
  have "hd_messagetype (header_of (fu @ tsf)) = fu ! 0" using assms(2) by (simp add: header_of_def nth_append)
  then show ?thesis
    using assms(1,4) unfolding v_def [symmetric]
    by (simp add: beacon_payload_def v Let_def proto_ok_def PTP_MSGTYPE_MASK_def PTP_MSGTYPE_FOLLOW_UP_def)
qed

lemma gptp_marker_of:
  assumes "slice 34 10 payload = timespec_to_ptp_format time64 ts" "slice 8 8 payload = replicate 8 0"
    and "0 \<le> tv_sec ts" "tv_sec ts < 2 ^ 32" "stamp_ok ts"
  shows "gptp_marker payload = timespec_to_ns ts"
proof -
  have n: "0 \<le> tv_nsec ts" "tv_nsec ts < 1000000000" using assms(5) by (simp_all add: stamp_ok_def)
  have f: "ptp_format_to_timespec (slice 34 10 payload) = ts"
    unfolding assms(1) using assms(3,4) n by (intro ptp_format_back) auto
  then have sec: "be_int (slice 0 6 (slice 34 10 payload)) = tv_sec ts" by (auto simp: ptp_format_to_timespec_def)
  have ns: "slice 6 4 (slice 34 10 payload) = octets 4 (tv_nsec ts)"
    unfolding assms(1) by (auto simp: timespec_to_ptp_format_def slice_def)
  have w: "sint ((word_of_int (tv_sec ts) :: u64) * 1000000000) = tv_sec ts * 1000000000"
  proof -
    have "(word_of_int (tv_sec ts) :: u64) * 1000000000 = word_of_int (tv_sec ts * 1000000000)" by simp
    moreover have "sint (word_of_int (tv_sec ts * 1000000000) :: u64) = tv_sec ts * 1000000000"
      unfolding sint_sbintrunc' using assms(3,4) by (intro signed_take_bit_int_eq_self) simp_all
    ultimately show ?thesis by (simp only:)
  qed
  have c: "follow_up_correction_ns (header_of payload) = 0"
    using assms(2) by (simp add: follow_up_correction_ns_def header_of_def be_sint_def be_int_def eval_nat_numeral)
  show ?thesis using n by (simp add: gptp_marker_def Let_def sec ns w c be_int_octets timespec_to_ns_def)
qed

lemma published_payload:
  assumes "ptp_is_gptp state" "header_wf (an_header (st_own_identity state))" "gm_wf (st_gm state)"
    and "hd_correction (an_header (st_own_identity state)) = replicate 8 0"
    and "ptp_marshal_follow_up_for_beacon_ie cfg state ts port_index = (fu, state')"
    and "0 \<le> tv_sec ts" "tv_sec ts < 2 ^ 32" "stamp_ok ts"
    and "proto_ok pr" "0 \<le> tsf_us" "tsf_us < 2 ^ 63"
  obtains payload where
    "beacon_payload pr (vendor_ie_of (patch_tsf (rev (octets 8 tsf_us)) (beacon_time_element pr fu))) = Some payload"
    "gptp_marker payload = timespec_to_ns ts" "tsf_marker pr payload = tsf_us"
    "\<forall>off n. off + n \<le> 76 \<longrightarrow> slice off n payload = slice off n fu"
proof -
  note f = marshal_fields [OF assms(1-3,5)]
  define payload where "payload = fu @ rev (octets 8 tsf_us)"
  have fl: "length fu = 76" using f by simp
  have sl: "slice off n payload = slice off n fu" if "off + n \<le> 76" for off n
    unfolding payload_def using that fl by (simp add: slice_def)
  have p: "beacon_payload pr (vendor_ie_of (patch_tsf (rev (octets 8 tsf_us)) (beacon_time_element pr fu))) = Some payload"
    unfolding payload_def using f assms(9) by (intro payload_of_element) simp_all
  have g: "gptp_marker payload = timespec_to_ns ts"
    using gptp_marker_of [of payload "cf_time64 cfg" ts] f assms(4,6-8) by (simp add: sl)
  have "slice 76 8 payload = rev (octets 8 tsf_us)" using fl by (simp add: payload_def slice_def)
  then have t: "tsf_marker pr payload = tsf_us"
    using assms(9-11) by (simp add: tsf_marker_def proto_ok_def be_int_octets sint_sbintrunc' signed_take_bit_int_eq_self)
  show ?thesis using sl by (intro that [OF p g t]) blast
qed

text \<open>C7. Time crosses the beacon.  The element a bridge publishes in gPTP, with the counter of the
  radio written into it, is a beacon time element for a station; the station reads from it the
  time of the bridge's clock to the nanosecond, the counter, the identity of the bridge's radio
  port and the time base with its phase change.\<close>

theorem beacon_time_crosses:
  assumes "ptp_is_gptp state" "header_wf (an_header (st_own_identity state))" "gm_wf (st_gm state)"
    and "hd_correction (an_header (st_own_identity state)) = replicate 8 0"
    and "ptp_marshal_follow_up_for_beacon_ie cfg state ts port_index = (fu, state')"
    and "0 \<le> tv_sec ts" "tv_sec ts < 2 ^ 32" "stamp_ok ts"
    and "proto_ok pr" "0 \<le> tsf_us" "tsf_us < 2 ^ 63"
  shows "\<exists>payload. publish_ies pr hdr (Some fu) (length fu) = Some (hdr @ beacon_time_element pr fu) \<and>
    beacon_payload pr (vendor_ie_of (patch_tsf (rev (octets 8 tsf_us)) (beacon_time_element pr fu))) = Some payload \<and>
    gptp_marker payload = timespec_to_ns ts \<and> tsf_marker pr payload = tsf_us \<and>
    slice 58 18 payload = fst (ptp_fill_gm_fields state) \<and>
    hd_sourceidentity (header_of payload) = hd_sourceidentity (an_header (st_own_identity state)) \<and>
    hd_sourceportindex (header_of payload) = octets 2 (port_index + 1)"
proof -
  obtain payload where "beacon_payload pr (vendor_ie_of (patch_tsf (rev (octets 8 tsf_us)) (beacon_time_element pr fu))) = Some payload"
    "gptp_marker payload = timespec_to_ns ts" "tsf_marker pr payload = tsf_us"
    "\<forall>off n. off + n \<le> 76 \<longrightarrow> slice off n payload = slice off n fu"
    by (rule published_payload [OF assms])
  then show ?thesis
    using marshal_fields [OF assms(1-3,5)] by (intro exI [of _ payload]) (simp add: publish_ies_def header_of_def)
qed

definition proto_example :: vendor_proto where
  "proto_example = \<lparr>vp_oui = [0x12, 0x34, 0x56], vp_oui_type = 1, vp_subid0 = 2, vp_subid1 = 3, vp_subid_len = 2,
     vp_tsf_len = 8, vp_bracket_len = 4\<rparr>"

theorem beacon_time_crosses_witness:
  "\<exists>payload. beacon_payload proto_example (vendor_ie_of (patch_tsf (rev (octets 8 123456))
      (beacon_time_element proto_example (fst (ptp_marshal_follow_up_for_beacon_ie config_default
        ((state_zero 1)\<lparr>st_active_ptp_profile := ptp_profile_gptp\<rparr>) \<lparr>tv_sec = 5, tv_nsec = 6\<rparr> 1))))) = Some payload \<and>
    gptp_marker payload = 5000000006 \<and> tsf_marker proto_example payload = 123456"
proof -
  define st where "st = (state_zero 1)\<lparr>st_active_ptp_profile := ptp_profile_gptp\<rparr>"
  have a: "ptp_is_gptp st" "header_wf (an_header (st_own_identity st))" "gm_wf (st_gm st)"
    "hd_correction (an_header (st_own_identity st)) = replicate 8 0" "proto_ok proto_example"
    unfolding st_def by code_simp+
  obtain fu st' where m: "ptp_marshal_follow_up_for_beacon_ie config_default st \<lparr>tv_sec = 5, tv_nsec = 6\<rparr> 1 = (fu, st')"
    by fastforce
  have "timespec_to_ns \<lparr>tv_sec = 5, tv_nsec = 6\<rparr> = 5000000006" "stamp_ok \<lparr>tv_sec = 5, tv_nsec = 6\<rparr>" by code_simp+
  then show ?thesis
    using beacon_time_crosses [OF a(1-4) m, of proto_example 123456 "[]"] a(5) unfolding st_def [symmetric] m by auto
qed

section \<open>Elements that change nothing\<close>

text \<open>What the station does not take as new time.  An element of another vendor or of another
  kind, one whose length does not fit, and any element while the transport disciplines by fine
  timing measurement change nothing at all.  A beacon that repeats the last element, which is
  most of them, refreshes the markers and the identity, and touches neither the offset nor the
  daemon.\<close>

theorem stale_elements_harmless:
  fixes m :: beacon_markers and x :: sta_status and d :: ptp_daemon
  assumes "mode_a \<or> \<not> in_beacon \<or> beacon_payload pr v = None \<or>
     (\<exists>payload. beacon_payload pr v = Some payload \<and> slice 34 10 payload = bk_last_origin_ts m)"
  shows "\<exists>m' x'. on_vendor_ie cfg pr mode_a port_index in_beacon v env (m, x, d) = (m', x', d) \<and>
    bk_envelope m' = bk_envelope m \<and> bk_element_interval_us m' = bk_element_interval_us m \<and>
    (m' \<noteq> m \<or> x' \<noteq> x \<longrightarrow> \<not> mode_a \<and> in_beacon \<and> beacon_payload pr v \<noteq> None) \<and>
    x' = x\<lparr>xs_beacon_port_identity := xs_beacon_port_identity x'\<rparr>"
proof (cases "mode_a \<or> \<not> in_beacon \<or> beacon_payload pr v = None")
  case True
  then have "on_vendor_ie cfg pr mode_a port_index in_beacon v env (m, x, d) = (m, x, d)"
    by (auto simp: on_vendor_ie_def)
  then show ?thesis by simp
next
  case False
  then obtain payload where "beacon_payload pr v = Some payload" "slice 34 10 payload = bk_last_origin_ts m"
    using assms by auto
  then show ?thesis using False by (simp add: on_vendor_ie_def note_markers_def Let_def)
qed

theorem stale_elements_harmless_witness:
  "\<exists>m' x'. on_vendor_ie config_default proto_example False 0 True
      (vendor_ie_of (beacon_time_element proto_example ([0x18] @ replicate 75 0))) \<lparr>bv_received_us = 9, bv_element_us = 9,
        bv_observed_us = 9, bv_observed_ts = timespec_zero, bv_sta_tsf_us = 9, bv_now = timespec_zero,
        bv_clock = \<lparr>ce_hw_time = None, ce_local_ns = 0, ce_settime_ok = True, ce_adjtime_ok = True, ce_unset = timespec_zero\<rparr>,
        bv_inject_ts = timespec_zero, bv_applied_us = 9\<rparr> (markers_zero, status_zero, daemon_zero 1) = (m', x', daemon_zero 1) \<and>
     bk_envelope m' = envelope_zero"
proof -
  have "(case beacon_payload proto_example (vendor_ie_of (beacon_time_element proto_example ([0x18] @ replicate 75 0))) of
      None \<Rightarrow> True | Some payload \<Rightarrow> slice 34 10 payload = bk_last_origin_ts markers_zero)"
    by code_simp
  then have "beacon_payload proto_example (vendor_ie_of (beacon_time_element proto_example ([0x18] @ replicate 75 0))) = None \<or>
      (\<exists>payload. beacon_payload proto_example (vendor_ie_of (beacon_time_element proto_example ([0x18] @ replicate 75 0))) = Some payload \<and>
        slice 34 10 payload = bk_last_origin_ts markers_zero)"
    by (auto split: option.splits)
  then show ?thesis
    using stale_elements_harmless [where mode_a = False and in_beacon = True and m = markers_zero] by (metis markers_zero_def beacon_markers.select_convs(10))
qed

section \<open>The invariant of the station\<close>

text \<open>The measured interval and the windows derived from it are within their limits, a converged
  station has a valid error within the exit threshold, and the offset filter is in a state it can
  reach.\<close>

definition station_inv :: "beacon_markers \<Rightarrow> sta_status \<Rightarrow> bool" where
  "station_inv m x \<longleftrightarrow>
     (bk_element_interval_us m = 0 \<or> 100000 \<le> bk_element_interval_us m \<and> bk_element_interval_us m \<le> 2000000) \<and>
     (xs_beacon_window_us x = 0 \<or> 300000 \<le> xs_beacon_window_us x \<and> xs_beacon_window_us x \<le> 6000000) \<and>
     (xs_beacon_converged x \<longrightarrow> xs_beacon_error_valid x \<and> \<bar>xs_beacon_error_ns x\<bar> \<le> BEACON_LOCK_EXIT_NS \<and> xs_beacon_was_locked x) \<and>
     envelope_reachable (bk_envelope m)"

lemma average_step_between:
  fixes i x :: int
  assumes "lo \<le> i" "i \<le> hi" "lo \<le> x" "x \<le> hi"
  shows "lo \<le> i + (x - i) sdiv 8 \<and> i + (x - i) sdiv 8 \<le> hi"
proof (cases "i \<le> x")
  case True
  then have "0 \<le> (x - i) sdiv 8" by (simp add: sdiv_nonneg)
  then show ?thesis using assms abs_sdiv_le [of "x - i" 8] True by linarith
next
  case False
  then have "(x - i) sdiv 8 \<le> 0" by (simp add: signed_divide_int_def mult_nonpos_nonneg pos_imp_zdiv_nonneg_iff)
  then show ?thesis using assms abs_sdiv_le [of "x - i" 8] False by linarith
qed

lemma status_updates_inv:
  "station_inv m x \<Longrightarrow> station_inv m (beacon_status_reacquire x)" "station_inv m x \<Longrightarrow> station_inv m (beacon_status_new_source x)"
  "station_inv m x \<Longrightarrow> station_inv m (beacon_status_applied e t x)"
  by (auto simp: station_inv_def beacon_status_reacquire_def beacon_status_new_source_def beacon_status_applied_def Let_def
      status_clamp_ns_def BEACON_LOCK_ENTER_NS_def BEACON_LOCK_EXIT_NS_def)

lemma station_inv_zero: "station_inv markers_zero status_zero"
  by (simp add: station_inv_def markers_zero_def status_zero_def envelope_reachable.start)

lemma element_timing_inv:
  assumes "station_inv m x" "element_timing cfg p env (m, x, d) = (m', x', d')"
  shows "station_inv m' x' \<and> bk_envelope m' = bk_envelope m"
proof (cases "element_interval (bv_element_us env) m")
  case None
  then show ?thesis using assms by (auto simp: element_timing_def station_inv_def)
next
  case (Some i)
  have "100000 \<le> i \<and> i \<le> 2000000"
  proof -
    define u where "u = (let w = bv_element_us env - bk_last_element_us m; w = (if w < 100000 then 100000 else w)
      in if w > 2000000 then 2000000 else w)"
    have u: "100000 \<le> u" "u \<le> 2000000" by (simp_all add: u_def Let_def)
    have "i = (if bk_element_interval_us m \<noteq> 0 then bk_element_interval_us m + (u - bk_element_interval_us m) sdiv 8 else u)"
      using Some by (simp add: element_interval_def u_def Let_def ELEMENT_INTERVAL_MIN_US_def ELEMENT_INTERVAL_MAX_US_def split: if_split_asm)
    then show ?thesis
      using u average_step_between [of 100000 "bk_element_interval_us m" 2000000 u] assms(1) by (simp add: station_inv_def split: if_split_asm)
  qed
  then show ?thesis using assms Some by (auto simp: element_timing_def station_inv_def)
qed

lemma discipline_inv:
  assumes "station_inv m x" "discipline_to_beacon cfg p env payload (m, x, d) = (m', x', d')"
  shows "station_inv m' x'"
proof -
  obtain again dis e where e: "envelope_sample (bk_gptp_marker_ns m - bk_tsf_marker_us m * 1000 + bk_peer_delay_ns m)
      (bv_sta_tsf_us env) (word_of_nat (be16 (payload ! 58) (payload ! 59))) (slice 60 12 payload) (bk_envelope m) = (again, dis, e)"
    by (metis prod_cases3)
  have r: "envelope_reachable e"
    using envelope_reachable.sample [of "bk_envelope m"] assms(1) e unfolding station_inv_def by (metis snd_conv)
  then have "station_inv (m\<lparr>bk_envelope := e\<rparr>) x" using assms(1) by (simp add: station_inv_def)
  then show ?thesis
    using assms(2) e by (auto simp: discipline_to_beacon_def Let_def split_beta intro: status_updates_inv split: if_splits)
qed

lemma vendor_ie_inv:
  assumes "station_inv m x" "on_vendor_ie cfg pr mode_a p b v env (m, x, d) = (m', x', d')"
  shows "station_inv m' x'"
proof (cases "mode_a \<or> \<not> b \<or> beacon_payload pr v = None")
  case True
  then have "on_vendor_ie cfg pr mode_a p b v env (m, x, d) = (m, x, d)" by (auto simp: on_vendor_ie_def)
  then show ?thesis using assms by simp
next
  case False
  then obtain payload where pl: "beacon_payload pr v = Some payload" by auto
  define h where "h = header_of payload"
  define m1 where "m1 = note_markers pr payload (bv_received_us env) m"
  define x1 where "x1 = x\<lparr>xs_beacon_port_identity := hd_sourceidentity h @ hd_sourceportindex h\<rparr>"
  have i1: "station_inv m1 x1" "station_inv (m1\<lparr>bk_last_origin_ts := slice 34 10 payload\<rparr>) x1"
    using assms(1) by (simp_all add: station_inv_def m1_def x1_def note_markers_def)
  obtain m2 x2 d2 where t: "element_timing cfg p env (m1\<lparr>bk_last_origin_ts := slice 34 10 payload\<rparr>, x1, d) = (m2, x2, d2)"
    by (metis prod_cases3)
  have i2: "station_inv m2 x2" using element_timing_inv [OF i1(2) t] by simp
  show ?thesis
    using assms(2) False pl i1(1) discipline_inv [OF i2]
    by (auto simp: on_vendor_ie_def Let_def split_beta t simp flip: h_def m1_def x1_def split: if_splits)
qed

section \<open>Publishing without a task\<close>

text \<open>When the task that empties the mailbox cannot be created, attaching fails, but the
  mailbox stays: the next attempt succeeds without creating the task, and from then on no
  Follow\_Up is ever published.\<close>

theorem attach_without_task:
  assumes "\<not> bp_mbox p" "\<not> bp_task p" "dm_running d" "valid_port cfg port_index"
  shows "\<exists>p1 p2 d2. ptp_beacon_ie_attach cfg port_index True False port_index p d = (Inl Attach_ENOMEM, p1, d) \<and>
    ptp_beacon_ie_attach cfg port_index True True port_index p1 d = (Inr (), p2, d2) \<and> \<not> bp_task p2 \<and>
    (\<forall>fus. fst (republish pr hdr (fold (\<lambda>fu q. on_sync_egress q (Some fu) (length fu)) fus p2)) = None)"
proof -
  have t: "bp_task (fold (\<lambda>fu q. on_sync_egress q (Some fu) (length fu)) fus q) = bp_task q" for fus q
    by (induction fus arbitrary: q) (simp_all add: on_sync_egress_def)
  show ?thesis using assms
    by (auto simp: ptp_beacon_ie_attach_def ptpd_register_sync_egress_cb_def valid_port_def republish_def t split: option.splits)
qed

theorem attach_without_task_witness:
  "\<exists>p2 d2. ptp_beacon_ie_attach config_default 0 True True 0 \<lparr>bp_mbox = True, bp_item = None, bp_task = False\<rparr>
     ((daemon_zero 1)\<lparr>dm_running := True\<rparr>) = (Inr (), p2, d2) \<and> \<not> bp_task p2"
proof -
  have "valid_port config_default 0" by code_simp
  then obtain p1 p2 d2 where
    "ptp_beacon_ie_attach config_default 0 True False 0 \<lparr>bp_mbox = False, bp_item = None, bp_task = False\<rparr>
       ((daemon_zero 1)\<lparr>dm_running := True\<rparr>) = (Inl Attach_ENOMEM, p1, (daemon_zero 1)\<lparr>dm_running := True\<rparr>)"
    "ptp_beacon_ie_attach config_default 0 True True 0 p1 ((daemon_zero 1)\<lparr>dm_running := True\<rparr>) = (Inr (), p2, d2)" "\<not> bp_task p2"
    using attach_without_task [of "\<lparr>bp_mbox = False, bp_item = None, bp_task = False\<rparr>" "(daemon_zero 1)\<lparr>dm_running := True\<rparr>"
        config_default 0 proto_example "[]"] by auto
  then show ?thesis by (auto simp: ptp_beacon_ie_attach_def)
qed

end
