(* ===== verification/Ptp_Station.thy ===== *)
theory Ptp_Station
  imports Ptp_Beacon Ptp_Rx
begin

text \<open>
  The wireless station (\<^verbatim>\<open>ptp_wifi.c\<close>): sessions of fine timing measurement, the events of the Wi-Fi
  driver, the reports of measurements, and the status of the station.

  \<open>mode_a\<close> is the answer of the weak symbol \<^verbatim>\<open>ptp_ftm_discipline_enabled\<close>, \<open>wv_hook\<close> that of
  \<^verbatim>\<open>ptp_ftm_report_hook\<close>: the optional transport that disciplines the clock by measurement and
  consumes its own reports.  The calls of the driver are recorded as actions, its answers are
  fields of \<open>sta_env\<close>.  Event groups are their bits.
\<close>

section \<open>State\<close>

record wifi_sta =
  wa_port_index :: int
  wa_events :: bool
  wa_connected :: bool
  wa_report_ok :: bool
  wa_session :: ptp_ftm_session
  wa_ftm_timing :: ptp_wifi_sta_timing
  wa_media :: ptp_wifi_media
  wa_requested_now :: nat
  wa_requested_frames :: nat
  wa_ftm_associated_us :: int
  wa_waiting_beacon :: bool
  wa_prev_ftm_t1_ps :: u64
  wa_prev_beacon_tsf_us :: int
  wa_have_baseline :: bool
  wa_backward_streak :: nat
  wa_markers :: beacon_markers
  wa_status :: sta_status

definition media_zero :: ptp_wifi_media where
  "media_zero = \<lparr>wm_tm_local = False, wm_tm_peer = False, wm_ftm_local = True, wm_ftm_peer = False, wm_granted_frames = 0\<rparr>"

definition sta_zero :: wifi_sta where
  "sta_zero = \<lparr>wa_port_index = -1, wa_events = False, wa_connected = False, wa_report_ok = False, wa_session = session_zero,
     wa_ftm_timing = \<lparr>wt_association = 0, wt_revision = 0, wt_bssid = replicate 6 0, wt_stopped = False\<rparr>,
     wa_media = media_zero, wa_requested_now = 0, wa_requested_frames = 3, wa_ftm_associated_us = 0, wa_waiting_beacon = False,
     wa_prev_ftm_t1_ps = 0, wa_prev_beacon_tsf_us = 0, wa_have_baseline = False, wa_backward_streak = 0,
     wa_markers = markers_zero, wa_status = status_zero\<rparr>"

definition map_status :: "(sta_status \<Rightarrow> sta_status) \<Rightarrow> wifi_sta \<Rightarrow> wifi_sta" where
  "map_status f s = s\<lparr>wa_status := f (wa_status s)\<rparr>"

text \<open>What the station asks of the driver.\<close>

datatype ftm_action =
    Ftm_initiate bytes nat nat
  | Ftm_end_session
  | Wifi_disconnect

datatype ftm_init = Init_ok | Init_invalid_arg | Init_error

datatype ftm_status = FTM_STATUS_SUCCESS | FTM_STATUS_UNSUPPORTED | FTM_STATUS_CONF_REJECTED | FTM_STATUS_NO_RESPONSE
  | FTM_STATUS_NO_VALID_MSMT | FTM_STATUS_FAIL

text \<open>The record of the access point, and the report of a session: for each entry the round trip
  and the first time stamp.\<close>

record ap_record =
  ap_bssid :: bytes
  ap_ftm_responder :: bool

record ftm_report =
  fr_peer_mac :: bytes
  fr_status :: ftm_status
  fr_num_entries :: nat
  fr_rtt_est :: u32

record sta_env =
  wv_ap :: "ap_record option"
  wv_init :: ftm_init
  wv_associated_us :: int
  wv_ftm_associated_us :: int
  wv_fresh_us :: int
  wv_hook :: bool
  wv_entries :: "(u32 \<times> u64) list option"
  wv_marker_us :: int
  wv_measured_us :: int

section \<open>Media\<close>

definition ptp_wifi_sta_media :: "wifi_sta \<Rightarrow> int \<Rightarrow> ptp_wifi_media option" where
  "ptp_wifi_sta_media s port_index =
     (if port_index < 0 \<or> port_index \<noteq> wa_port_index s \<or> \<not> wa_events s \<or> \<not> wa_connected s then None
      else Some (wa_media s))"

definition ftm_media_reset :: "wifi_sta \<Rightarrow> wifi_sta" where
  "ftm_media_reset s = s\<lparr>wa_media := media_zero, wa_requested_now := 0\<rparr>"

definition ftm_clock_beacon_fresh :: "wifi_sta \<Rightarrow> int \<Rightarrow> bool" where
  "ftm_clock_beacon_fresh s now_us =
     ptp_ftm_beacon_fresh (bk_seen_tsf (wa_markers s)) (bk_seen_gptp (wa_markers s)) (wa_ftm_associated_us s)
       (bk_tsf_marker_received_us (wa_markers s)) now_us"

section \<open>Sessions\<close>

definition cancel_ftm_session :: "wifi_sta \<Rightarrow> wifi_sta \<times> ftm_action list" where
  "cancel_ftm_session s =
     (s\<lparr>wa_session := ptp_ftm_session_invalidate (wa_session s)\<rparr>, if fs_pending (wa_session s) then [Ftm_end_session] else [])"

text \<open>The start of a session; the cancellation is \<open>cancel_ftm_session\<close>.\<close>

definition ftm_admitted :: "ptp_config \<Rightarrow> ptp_daemon \<Rightarrow> bool \<Rightarrow> bytes \<Rightarrow> wifi_sta \<Rightarrow> bool \<times> wifi_sta" where
  "ftm_admitted cfg d mode_a bssid s =
     (if \<not> mode_a then (True, s)
      else case ptpd_wifi_sta_timing_snapshot cfg d (wa_port_index s) of
          None \<Rightarrow> (False, s)
        | Some t \<Rightarrow> (\<not> wt_stopped t \<and> wt_bssid t = bssid, s\<lparr>wa_ftm_timing := t\<rparr>))"

definition ftm_start :: "bool \<Rightarrow> ap_record \<Rightarrow> ftm_init \<Rightarrow> wifi_sta \<Rightarrow> wifi_sta \<times> ftm_action list" where
  "ftm_start mode_a ap result s =
     (let frames = (if mode_a then wa_requested_frames s else 16);
          period = (if mode_a then 0 else 2);
          s = s\<lparr>wa_session := snd (ptp_ftm_session_begin (wa_session s) (ap_bssid ap)),
                wa_media := (wa_media s)\<lparr>wm_ftm_peer := ap_ftm_responder ap\<rparr>,
                wa_requested_now := (if result = Init_ok then frames else 0)\<rparr>;
          s = (if result = Init_ok then s
               else s\<lparr>wa_requested_frames := (if result = Init_invalid_arg \<and> frames = 3 then 2
                                               else if result = Init_invalid_arg \<and> frames = 2 then 8 else wa_requested_frames s),
                      wa_session := (wa_session s)\<lparr>fs_pending := False, fs_valid := False\<rparr>, wa_report_ok := True\<rparr>)
      in (s, [Ftm_initiate (ap_bssid ap) frames period]))"

definition on_ftm_control_start ::
  "ptp_config \<Rightarrow> ptp_daemon \<Rightarrow> bool \<Rightarrow> sta_env \<Rightarrow> wifi_sta \<Rightarrow> wifi_sta \<times> ftm_action list" where
  "on_ftm_control_start cfg d mode_a env s =
     (if fs_pending (wa_session s) then (s, [])
      else case (if wa_connected s then wv_ap env else None) of
          None \<Rightarrow> (s\<lparr>wa_report_ok := True\<rparr>, [])
        | Some ap \<Rightarrow>
            let (admitted, s) = ftm_admitted cfg d mode_a (ap_bssid ap) s in
            if \<not> admitted then (s\<lparr>wa_report_ok := True\<rparr>, [])
            else
              let s = (if wa_ftm_associated_us s = 0 then s\<lparr>wa_ftm_associated_us := wv_ftm_associated_us env\<rparr> else s) in
              if \<not> mode_a \<and> \<not> ftm_clock_beacon_fresh s (wv_fresh_us env)
              then (s\<lparr>wa_waiting_beacon := True, wa_report_ok := True\<rparr>, [])
              else ftm_start mode_a ap (wv_init env) (s\<lparr>wa_waiting_beacon := False\<rparr>))"

section \<open>Association\<close>

definition ftm_status_measured :: "bool \<Rightarrow> int \<Rightarrow> int \<Rightarrow> sta_status \<Rightarrow> sta_status" where
  "ftm_status_measured valid rtt_ns now_us x =
     (let x = x\<lparr>xs_ftm_success := ptp_ftm_success_record (xs_ftm_success x) now_us valid\<rparr>
      in if valid then x\<lparr>xs_ftm_rtt_ns := rtt_ns, xs_ftm_rtt_valid := True\<rparr> else x)"

definition forget_baseline :: "wifi_sta \<Rightarrow> wifi_sta" where
  "forget_baseline s = s\<lparr>wa_have_baseline := False, wa_prev_beacon_tsf_us := 0, wa_backward_streak := 0\<rparr>"

definition sta_connected :: "bytes \<Rightarrow> sta_env \<Rightarrow> wifi_sta \<Rightarrow> wifi_sta \<times> ftm_action list" where
  "sta_connected bssid env s =
     (let s = (if xs_status_bssid (wa_status s) \<noteq> bssid
               then map_status (\<lambda>x. beacon_status_new_source (x\<lparr>xs_status_bssid := bssid\<rparr>)) s else s);
          s = map_status (\<lambda>x. x\<lparr>xs_sta_associated_us := wv_associated_us env, xs_ftm_rtt_valid := False\<rparr>) s;
          (s, out) = cancel_ftm_session (ftm_media_reset s);
          s = forget_baseline (s\<lparr>wa_ftm_associated_us := wv_ftm_associated_us env\<rparr>)
      in (s\<lparr>wa_connected := True\<rparr>, out))"

definition sta_disconnected :: "bool \<Rightarrow> wifi_sta \<Rightarrow> wifi_sta \<times> ftm_action list" where
  "sta_disconnected stopped s =
     (let (s, out) = cancel_ftm_session (ftm_media_reset s);
          s = (if stopped then s\<lparr>wa_session := (wa_session s)\<lparr>fs_pending := False\<rparr>\<rparr> else s);
          s = forget_baseline (s\<lparr>wa_ftm_associated_us := 0\<rparr>);
          s = map_status (\<lambda>x. x\<lparr>xs_sta_associated_us := 0\<rparr>) s
      in (s\<lparr>wa_connected := False\<rparr>, out))"

section \<open>Reports\<close>

text \<open>Only a granted request of three or two frames counts.\<close>

definition note_grant :: "ftm_status \<Rightarrow> wifi_sta \<Rightarrow> wifi_sta" where
  "note_grant st s =
     (let declined = (st = FTM_STATUS_CONF_REJECTED \<or> st = FTM_STATUS_UNSUPPORTED \<or> st = FTM_STATUS_NO_RESPONSE)
      in s\<lparr>wa_media := (wa_media s)\<lparr>wm_granted_frames :=
           (if \<not> declined \<and> (wa_requested_now s = 3 \<or> wa_requested_now s = 2) then wa_requested_now s else 0)\<rparr>\<rparr>)"

definition report_current :: "ptp_config \<Rightarrow> ptp_daemon \<Rightarrow> bool \<Rightarrow> sta_env \<Rightarrow> bytes \<Rightarrow> wifi_sta \<Rightarrow> bool" where
  "report_current cfg d mode_a env peer s \<longleftrightarrow>
     wa_connected s \<and> (case wv_ap env of None \<Rightarrow> False | Some ap \<Rightarrow> ap_bssid ap = peer) \<and>
     (mode_a \<or> ftm_clock_beacon_fresh s (wv_fresh_us env)) \<and>
     (mode_a \<longrightarrow>
       (case ptpd_wifi_sta_timing_snapshot cfg d (wa_port_index s) of
          None \<Rightarrow> False
        | Some t \<Rightarrow> \<not> wt_stopped t \<and> wt_association t = wt_association (wa_ftm_timing s) \<and>
            wt_revision t = wt_revision (wa_ftm_timing s) \<and> wt_bssid t = wt_bssid (wa_ftm_timing s)))"

text \<open>The positive round trips of the report: their average, and the time stamp of the last.\<close>

definition report_entries :: "sta_env \<Rightarrow> ftm_report \<Rightarrow> (u32 \<times> u64) list" where
  "report_entries env r =
     (let n = (if fr_num_entries r > 16 then 16 else fr_num_entries r) in
      case (if n \<noteq> 0 then wv_entries env else None) of
        None \<Rightarrow> [] | Some es \<Rightarrow> filter (\<lambda>(rtt, t1). ptp_ftm_rtt_positive rtt) (take n es))"

definition average_rtt_ps :: "(u32 \<times> u64) list \<Rightarrow> nat" where
  "average_rtt_ps es = (if es = [] then 0 else sum_list (map (\<lambda>(rtt, t1). unat rtt) es) div length es)"

definition peer_delay_of :: "ftm_report \<Rightarrow> nat \<Rightarrow> int option" where
  "peer_delay_of r avg_rtt_ps =
     (if fr_rtt_est r \<noteq> 0 then Some (int (unat (fr_rtt_est r)) div 2)
      else if avg_rtt_ps \<noteq> 0 then Some (int ((avg_rtt_ps div 2 + 500) div 1000)) else None)"

datatype counter_verdict = Counter_ok | Counter_suspect | Counter_reset | Counter_ftm_backward

definition TSF_BOUNCE_CONSEC_THRESHOLD :: nat where "TSF_BOUNCE_CONSEC_THRESHOLD = 3"

text \<open>Continuity of the radio's counter, with the beacons as independent evidence of a restart.\<close>

definition check_counters :: "u64 \<Rightarrow> int \<Rightarrow> wifi_sta \<Rightarrow> counter_verdict \<times> wifi_sta" where
  "check_counters best_t1_ps now_us s =
     (let m = wa_markers s;
          fresh_beacon = (bk_seen_tsf m \<and> bk_tsf_marker_received_us m > 0 \<and> now_us \<ge> bk_tsf_marker_received_us m \<and>
                          now_us - bk_tsf_marker_received_us m \<le> 1000000);
          beacon_tsf_us = (if fresh_beacon then bk_tsf_marker_us m else 0);
          ftm_backward = (wa_have_baseline s \<and> ptp_ftm_counter_backward (wa_prev_ftm_t1_ps s) best_t1_ps);
          beacon_backward = (wa_have_baseline s \<and> beacon_tsf_us > 0 \<and> wa_prev_beacon_tsf_us s > beacon_tsf_us \<and>
                             wa_prev_beacon_tsf_us s - beacon_tsf_us > 1000000);
          streak = wa_backward_streak s + 1
      in if beacon_backward then
           (if streak < TSF_BOUNCE_CONSEC_THRESHOLD then (Counter_suspect, s\<lparr>wa_backward_streak := streak\<rparr>)
            else (Counter_reset, s\<lparr>wa_backward_streak := 0, wa_have_baseline := False,
                    wa_markers := m\<lparr>bk_seen_tsf := False, bk_tsf_marker_received_us := 0, bk_seen_gptp := False\<rparr>\<rparr>))
         else if ftm_backward then (Counter_ftm_backward, s\<lparr>wa_backward_streak := 0\<rparr>)
         else (Counter_ok, s\<lparr>wa_backward_streak := 0, wa_prev_ftm_t1_ps := best_t1_ps,
                 wa_prev_beacon_tsf_us := (if beacon_tsf_us > 0 then beacon_tsf_us else wa_prev_beacon_tsf_us s),
                 wa_have_baseline := True\<rparr>))"

text \<open>A delay the daemon accepts is adopted for the beacon path too.  None: the daemon's average is
  undefined.\<close>

definition adopt_delay :: "ptp_config \<Rightarrow> int \<Rightarrow> wifi_sta \<times> ptp_daemon \<Rightarrow> (bool \<times> wifi_sta \<times> ptp_daemon) option" where
  "adopt_delay cfg ns z =
     (let (s, d) = z in
      case ptpd_inject_peer_delay cfg d (wa_port_index s) ns of
        (None, _) \<Rightarrow> None
      | (Some (Inl _), d) \<Rightarrow> Some (False, s, d)
      | (Some (Inr _), d) \<Rightarrow> Some (True, s\<lparr>wa_markers := (wa_markers s)\<lparr>bk_peer_delay_ns := ns\<rparr>\<rparr>, d))"

definition take_range ::
  "ptp_config \<Rightarrow> sta_env \<Rightarrow> ftm_report \<Rightarrow> nat \<Rightarrow> wifi_sta \<times> ptp_daemon \<Rightarrow> (wifi_sta \<times> ptp_daemon) option" where
  "take_range cfg env r avg_rtt_ps z =
     (let rtt_ns = (if fr_rtt_est r \<noteq> 0 then int (unat (fr_rtt_est r)) else int ((avg_rtt_ps + 500) div 1000));
          done = (\<lambda>ok (s, d). (map_status (ftm_status_measured ok (status_clamp_ns rtt_ns) (wv_measured_us env)) s, d))
      in case peer_delay_of r avg_rtt_ps of
           None \<Rightarrow> Some (done False z)
         | Some ns \<Rightarrow> map_option (\<lambda>(ok, z). done ok z) (adopt_delay cfg ns z))"

definition report_success ::
  "ptp_config \<Rightarrow> sta_env \<Rightarrow> ftm_report \<Rightarrow> wifi_sta \<times> ptp_daemon \<Rightarrow> (wifi_sta \<times> ptp_daemon \<times> ftm_action list) option" where
  "report_success cfg env r z =
     (let (s, d) = z;
          es = report_entries env r;
          failed = map_status (ftm_status_measured False 0 (wv_measured_us env));
          s = s\<lparr>wa_report_ok := True\<rparr>;
          (verdict, s) = (if es = [] then (Counter_ok, s) else check_counters (snd (last es)) (wv_marker_us env) s)
      in case verdict of
           Counter_ok \<Rightarrow> map_option (\<lambda>(s, d). (s, d, [])) (take_range cfg env r (average_rtt_ps es) (s, d))
         | Counter_reset \<Rightarrow>
             Some (map_status (\<lambda>x. beacon_status_new_source
                     (x\<lparr>xs_ap_resets := (if xs_ap_resets x < UINT16_MAX then xs_ap_resets x + 1 else xs_ap_resets x)\<rparr>)) (failed s),
                   d, [Wifi_disconnect])
         | _ \<Rightarrow> Some (failed s, d, []))"

definition report_failure ::
  "ptp_config \<Rightarrow> sta_env \<Rightarrow> ftm_report \<Rightarrow> wifi_sta \<times> ptp_daemon \<Rightarrow> (wifi_sta \<times> ptp_daemon) option" where
  "report_failure cfg env r z =
     (let (s, d) = z; s = map_status (ftm_status_measured False 0 (wv_measured_us env)) s in
      if fr_status r = FTM_STATUS_NO_VALID_MSMT then map_option (\<lambda>(_, z). z) (adopt_delay cfg 0 (s, d)) else Some (s, d))"

definition on_ftm_report ::
  "ptp_config \<Rightarrow> bool \<Rightarrow> sta_env \<Rightarrow> ftm_report \<Rightarrow> wifi_sta \<times> ptp_daemon \<Rightarrow>
     (wifi_sta \<times> ptp_daemon \<times> ftm_action list) option" where
  "on_ftm_report cfg mode_a env r z =
     (let (s, d) = z;
          s = note_grant (fr_status r) s;
          (current, session) = ptp_ftm_session_finish (wa_session s) (fr_peer_mac r) (report_current cfg d mode_a env (fr_peer_mac r) s);
          s = s\<lparr>wa_session := session\<rparr>
      in if \<not> current \<or> wv_hook env then Some (s\<lparr>wa_report_ok := True\<rparr>, d, [])
         else if fr_status r = FTM_STATUS_SUCCESS then report_success cfg env r (s, d)
         else map_option (\<lambda>(s, d). (s, d, [])) (report_failure cfg env r (s, d)))"

section \<open>Start and cadence\<close>

text \<open>The answers: the event group is created, and the two handlers are registered.\<close>

definition ptp_wifi_sta_start ::
  "int \<Rightarrow> bool \<Rightarrow> bool \<Rightarrow> bool \<Rightarrow> ap_record option \<Rightarrow> int \<Rightarrow> wifi_sta \<Rightarrow> bool \<times> wifi_sta" where
  "ptp_wifi_sta_start port_index group_ok wifi_ok control_ok ap now_us s =
     (if wa_port_index s \<ge> 0 then (True, s)
      else if \<not> group_ok \<or> \<not> wifi_ok \<or> \<not> control_ok then (False, s\<lparr>wa_port_index := -1, wa_events := False\<rparr>)
      else
        let s = s\<lparr>wa_port_index := port_index, wa_events := True, wa_connected := False, wa_report_ok := False\<rparr>
        in case ap of
             None \<Rightarrow> (True, s)
           | Some ap \<Rightarrow>
               (True, (map_status (\<lambda>x. x\<lparr>xs_status_bssid := ap_bssid ap, xs_sta_associated_us := now_us\<rparr>) s)\<lparr>wa_connected := True\<rparr>))"

text \<open>The start of the next session on the grid of 125 ms.\<close>

definition ftm_next_start :: "int \<Rightarrow> int \<Rightarrow> int" where
  "ftm_next_start next_start_us now_us =
     (let next_start_us = next_start_us + 125000 in if next_start_us \<le> now_us then now_us + 125000 else next_start_us)"

text \<open>One pass of the ranging task.  The waits are what it sleeps for; \<open>posted\<close> is whether the control
  event could be posted, \<open>completed\<close> whether a report woke the task within two seconds, \<open>stalled_us\<close>
  and \<open>now_us\<close> are readings of the timer.\<close>

datatype client_action =
    Client_delay_ms nat
  | Client_post_start
  | Client_post_cancel
  | Client_sleep_us int

definition ftm_client_pass ::
  "ptp_config \<Rightarrow> ptp_daemon \<Rightarrow> bool \<Rightarrow> nat \<Rightarrow> bool \<Rightarrow> bool \<Rightarrow> int \<Rightarrow> int \<Rightarrow> int \<times> wifi_sta \<Rightarrow> (int \<times> wifi_sta) \<times> client_action list" where
  "ftm_client_pass cfg d precise pause_ms posted completed stalled_us now_us z =
     (let (next_start_us, s) = z in
      if \<not> wa_connected s then ((next_start_us, s), [Client_delay_ms 500])
      else if precise \<and> (case ptpd_wifi_sta_timing_snapshot cfg d (wa_port_index s) of None \<Rightarrow> True | Some policy \<Rightarrow> wt_stopped policy)
      then ((stalled_us, s), [Client_delay_ms 50])
      else
        let s = s\<lparr>wa_report_ok := False\<rparr> in
        if \<not> posted then ((next_start_us, s), [Client_post_start, Client_delay_ms 1000])
        else
          let cancel = (if completed then [] else [Client_post_cancel]) in
          if precise
          then let next_start_us = ftm_next_start next_start_us now_us
               in ((next_start_us, s), [Client_post_start] @ cancel @ [Client_sleep_us (next_start_us - now_us)])
          else ((next_start_us, s), [Client_post_start] @ cancel @ [Client_delay_ms pause_ms]))"

text \<open>The cadence never starts in the past and never falls more than one period behind.\<close>

lemma next_start_bounds:
  "now_us < ftm_next_start n now_us" "ftm_next_start n now_us \<le> max n now_us + 125000"
  by (simp_all add: ftm_next_start_def Let_def)

section \<open>Status\<close>

datatype ptp_wifi_time_mode_e = ptp_wifi_time_mode_none | ptp_wifi_time_mode_a_ftm | ptp_wifi_time_mode_a_tm | ptp_wifi_time_mode_b

record wifi_sta_status =
  wo_time_mode :: ptp_wifi_time_mode_e
  wo_associated :: bool
  wo_locked :: bool
  wo_holdover :: bool
  wo_servo_error_valid :: bool
  wo_rtt_valid :: bool
  wo_servo_error_ns :: int
  wo_rtt_ns :: int
  wo_ftm_success :: nat
  wo_as_capable_reason :: u8
  wo_ftm_burst_frames :: nat
  wo_ftm_burst_duration :: nat
  wo_ftm_min_delta :: nat
  wo_time_age_ms :: nat
  wo_ap_resets :: u16
  wo_association_age_s :: u32
  wo_ap_port_identity :: bytes

definition wifi_status_zero :: wifi_sta_status where
  "wifi_status_zero = \<lparr>wo_time_mode = ptp_wifi_time_mode_none, wo_associated = False, wo_locked = False, wo_holdover = False,
     wo_servo_error_valid = False, wo_rtt_valid = False, wo_servo_error_ns = 0, wo_rtt_ns = 0, wo_ftm_success = 0,
     wo_as_capable_reason = 0, wo_ftm_burst_frames = 0, wo_ftm_burst_duration = 0, wo_ftm_min_delta = 0, wo_time_age_ms = 0,
     wo_ap_resets = 0, wo_association_age_s = 0, wo_ap_port_identity = replicate 10 0\<rparr>"

text \<open>The status the optional transport reports.\<close>

record ptp_ftm_status =
  fq_applied_us :: int
  fq_error_ns :: int
  fq_rtt_ns :: int
  fq_success :: nat
  fq_locked :: bool
  fq_holdover :: bool
  fq_error_valid :: bool
  fq_rtt_valid :: bool

definition PTP_WIFI_STATUS_UNKNOWN :: nat where "PTP_WIFI_STATUS_UNKNOWN = 255"
definition PTP_WIFI_STATUS_AGE_NONE :: int where "PTP_WIFI_STATUS_AGE_NONE = 65535"
definition STA_LOCK_WINDOW_US :: int where "STA_LOCK_WINDOW_US = 375000"

definition beacon_status :: "sta_status \<Rightarrow> int \<Rightarrow> wifi_sta_status \<Rightarrow> wifi_sta_status" where
  "beacon_status x now_us o' =
     (let applied_us = xs_beacon_applied_us x;
          window_us = (if xs_beacon_window_us x \<noteq> 0 then xs_beacon_window_us x else STA_LOCK_WINDOW_US);
          fresh = (applied_us \<noteq> 0 \<and> now_us - applied_us \<le> window_us)
      in o'\<lparr>wo_locked := (fresh \<and> xs_beacon_converged x), wo_holdover := (\<not> fresh \<and> xs_beacon_was_locked x),
            wo_servo_error_valid := xs_beacon_error_valid x, wo_servo_error_ns := xs_beacon_error_ns x,
            wo_rtt_valid := xs_ftm_rtt_valid x, wo_rtt_ns := xs_ftm_rtt_ns x,
            wo_ftm_success := ptp_ftm_success_percent (xs_ftm_success x) now_us\<rparr>)"

definition transport_status :: "ptp_ftm_status option \<Rightarrow> wifi_sta_status \<Rightarrow> wifi_sta_status" where
  "transport_status hook o' =
     (case hook of
        None \<Rightarrow> o'\<lparr>wo_ftm_success := 255\<rparr>
      | Some f \<Rightarrow> o'\<lparr>wo_locked := fq_locked f, wo_holdover := fq_holdover f, wo_servo_error_valid := fq_error_valid f,
            wo_servo_error_ns := fq_error_ns f, wo_rtt_valid := fq_rtt_valid f, wo_rtt_ns := fq_rtt_ns f,
            wo_ftm_success := fq_success f\<rparr>)"

text \<open>Only a request of three or two frames the responder accepted is known of the grant.\<close>

definition media_status :: "ptp_wifi_media option \<Rightarrow> wifi_sta_status \<Rightarrow> wifi_sta_status" where
  "media_status media o' =
     (case media of
        None \<Rightarrow> o'\<lparr>wo_ftm_success := PTP_WIFI_STATUS_UNKNOWN\<rparr>
      | Some m \<Rightarrow>
          if wm_ftm_peer m
          then o'\<lparr>wo_ftm_burst_frames := (if wm_granted_frames m \<noteq> 0 then wm_granted_frames m else PTP_WIFI_STATUS_UNKNOWN),
                 wo_ftm_burst_duration := PTP_WIFI_STATUS_UNKNOWN, wo_ftm_min_delta := PTP_WIFI_STATUS_UNKNOWN\<rparr>
          else o'\<lparr>wo_ftm_success := PTP_WIFI_STATUS_UNKNOWN\<rparr>)"

definition status_age_ms :: "int \<Rightarrow> int \<Rightarrow> nat" where
  "status_age_ms applied_us now_us =
     nat (if applied_us \<noteq> 0 \<and> now_us \<ge> applied_us \<and> (now_us - applied_us) div 1000 < PTP_WIFI_STATUS_AGE_NONE
          then (now_us - applied_us) div 1000 else PTP_WIFI_STATUS_AGE_NONE)"

text \<open>\<open>hook\<close> is the answer of \<^verbatim>\<open>ptp_ftm_status_hook\<close>, \<open>capable_us\<close> a reading inside the daemon.\<close>

definition ptpd_wifi_sta_status ::
  "ptp_config \<Rightarrow> ptp_daemon \<Rightarrow> bool \<Rightarrow> ptp_ftm_status option \<Rightarrow> wifi_sta \<Rightarrow> int \<Rightarrow> int \<Rightarrow> int \<Rightarrow>
     (ptp_errno, wifi_sta_status) sum" where
  "ptpd_wifi_sta_status cfg d mode_a hook s port_index now_us capable_us =
     (if port_index < 0 \<or> port_index \<noteq> wa_port_index s \<or> \<not> wa_events s then Inl EINVAL
      else
        let x = wa_status s;
            o' = wifi_status_zero\<lparr>wo_time_mode := (if mode_a then ptp_wifi_time_mode_a_ftm else ptp_wifi_time_mode_b),
                   wo_associated := wa_connected s\<rparr>;
            applied_us = (if \<not> mode_a then xs_beacon_applied_us x else case hook of None \<Rightarrow> 0 | Some f \<Rightarrow> fq_applied_us f);
            o' = (if mode_a then o' else beacon_status x now_us o');
            o' = o'\<lparr>wo_ap_resets := xs_ap_resets x,
                   wo_association_age_s := (if xs_sta_associated_us x \<noteq> 0 \<and> wa_connected s
                     then word_of_int ((now_us - xs_sta_associated_us x) sdiv 1000000) else 0)\<rparr>;
            o' = (if mode_a then transport_status hook o' else o');
            o' = o'\<lparr>wo_time_age_ms := status_age_ms applied_us now_us\<rparr>;
            media = ptp_wifi_sta_media s port_index;
            o' = media_status media o';
            (identity, reason) = ptp_wifi_sta_capability_status cfg d port_index media media capable_us
        in Inr (o'\<lparr>wo_as_capable_reason := (if mode_a then reason else 0),
                   wo_ap_port_identity := (if identity = replicate 10 0 then xs_beacon_port_identity x else identity)\<rparr>))"

section \<open>Every event keeps the invariant\<close>

text \<open>What holds of a station at all times: the invariant of its beacon path, and that the grant it
  reports is one of a small burst.\<close>

definition sta_inv :: "wifi_sta \<Rightarrow> bool" where
  "sta_inv s \<longleftrightarrow> station_inv (wa_markers s) (wa_status s) \<and> wm_granted_frames (wa_media s) \<in> {0, 2, 3} \<and>
     wa_backward_streak s < TSF_BOUNCE_CONSEC_THRESHOLD \<and> wa_requested_frames s \<in> {2, 3, 8}"

named_theorems sta_inv_intros \<open>operations that preserve the invariant of the station\<close>

lemma sta_inv_zero: "sta_inv sta_zero"
  using station_inv_zero by (simp add: sta_inv_def sta_zero_def media_zero_def TSF_BOUNCE_CONSEC_THRESHOLD_def)

lemma sta_inv_fields [simp]:
  "sta_inv (s\<lparr>wa_report_ok := b\<rparr>) = sta_inv s" "sta_inv (s\<lparr>wa_session := q\<rparr>) = sta_inv s" "sta_inv (s\<lparr>wa_connected := b\<rparr>) = sta_inv s"
  "sta_inv (s\<lparr>wa_waiting_beacon := b\<rparr>) = sta_inv s" "sta_inv (s\<lparr>wa_ftm_associated_us := t\<rparr>) = sta_inv s"
  "sta_inv (s\<lparr>wa_ftm_timing := f\<rparr>) = sta_inv s"
  by (simp_all add: sta_inv_def)

lemma sta_inv_status [sta_inv_intros]:
  "sta_inv s \<Longrightarrow> (\<And>x. station_inv (wa_markers s) x \<Longrightarrow> station_inv (wa_markers s) (f x)) \<Longrightarrow> sta_inv (map_status f s)"
  by (simp add: sta_inv_def map_status_def)

lemma station_inv_fields [simp]:
  "station_inv m (x\<lparr>xs_ftm_success := w\<rparr>) = station_inv m x" "station_inv m (x\<lparr>xs_sta_associated_us := t\<rparr>) = station_inv m x"
  "station_inv m (x\<lparr>xs_status_bssid := b\<rparr>) = station_inv m x" "station_inv m (x\<lparr>xs_ftm_rtt_valid := v\<rparr>) = station_inv m x"
  "station_inv m (x\<lparr>xs_ftm_rtt_ns := r\<rparr>) = station_inv m x" "station_inv m (x\<lparr>xs_ap_resets := n\<rparr>) = station_inv m x"
  "station_inv (m\<lparr>bk_peer_delay_ns := p\<rparr>) x = station_inv m x" "station_inv (m\<lparr>bk_seen_tsf := v\<rparr>) x = station_inv m x"
  "station_inv (m\<lparr>bk_seen_gptp := v\<rparr>) x = station_inv m x" "station_inv (m\<lparr>bk_tsf_marker_received_us := t\<rparr>) x = station_inv m x"
  by (simp_all add: station_inv_def)

lemma measured_inv [sta_inv_intros]: "sta_inv s \<Longrightarrow> sta_inv (map_status (ftm_status_measured v r t) s)"
  by (auto simp: ftm_status_measured_def Let_def intro!: sta_inv_intros)

lemma association_inv [sta_inv_intros]:
  "sta_inv s \<Longrightarrow> sta_inv (fst (cancel_ftm_session s))" "sta_inv s \<Longrightarrow> sta_inv (ftm_media_reset s)"
  "sta_inv s \<Longrightarrow> sta_inv (forget_baseline s)" "sta_inv s \<Longrightarrow> sta_inv (note_grant st s)"
  by (auto simp: cancel_ftm_session_def ftm_media_reset_def forget_baseline_def note_grant_def sta_inv_def media_zero_def Let_def
      TSF_BOUNCE_CONSEC_THRESHOLD_def)

lemma connected_inv [sta_inv_intros]: "sta_inv s \<Longrightarrow> sta_inv (fst (sta_connected b env s))"
  by (auto simp: sta_connected_def Let_def split_beta status_updates_inv intro!: sta_inv_intros)

lemma disconnected_inv [sta_inv_intros]: "sta_inv s \<Longrightarrow> sta_inv (fst (sta_disconnected b s))"
  by (auto simp: sta_disconnected_def Let_def split_beta intro!: sta_inv_intros)

lemma control_inv [sta_inv_intros]: "sta_inv s \<Longrightarrow> sta_inv (fst (on_ftm_control_start cfg d mode_a env s))"
proof -
  have a: "sta_inv x \<Longrightarrow> sta_inv (snd (ftm_admitted cfg d mode_a b x))" for x b
    by (auto simp: ftm_admitted_def split: option.splits)
  have f: "sta_inv x \<Longrightarrow> sta_inv (fst (ftm_start ma ap r x))" for x ap r ma
    by (auto simp: ftm_start_def Let_def sta_inv_def)
  assume "sta_inv s"
  then show ?thesis
    using a [of s] by (auto simp: on_ftm_control_start_def Let_def split_beta f split: option.splits)
qed

lemma counters_inv [sta_inv_intros]: "sta_inv s \<Longrightarrow> sta_inv (snd (check_counters t now s))"
  by (auto simp: check_counters_def Let_def sta_inv_def TSF_BOUNCE_CONSEC_THRESHOLD_def)

lemma adopt_inv:
  assumes "delay_config cfg" "sta_inv s" "daemon_inv cfg d"
  shows "\<exists>ok s' d'. adopt_delay cfg ns (s, d) = Some (ok, s', d') \<and> sta_inv s' \<and> daemon_inv cfg d' \<and>
    wa_session s' = wa_session s \<and> (ok \<longrightarrow> 0 \<le> ns \<and> ns < cf_max_peer_delay_ns cfg \<and> bk_peer_delay_ns (wa_markers s') = ns) \<and>
    (\<not> ok \<longrightarrow> s' = s)"
proof -
  have n: "num_ports d = cf_num_ports cfg" using assms(3) by (simp add: daemon_inv_def)
  have dk: "delays_ok cfg d" using assms(3) by (simp add: daemon_inv_def)
  obtain r d' where r: "ptpd_inject_peer_delay cfg d (wa_port_index s) ns = (Some r, d')" "delays_ok cfg d'"
    using inject_delay_ok [OF assms(1) n dk] by blast
  show ?thesis
  proof (cases "\<not> dm_running d \<or> \<not> valid_port cfg (wa_port_index s) \<or> ns < 0 \<or> ns \<ge> cf_max_peer_delay_ns cfg")
    case True
    then have "d' = d \<and> (\<exists>e. r = Inl e)" using r(1) by (auto simp: ptpd_inject_peer_delay_def split: if_splits)
    then show ?thesis using assms(2, 3) r(1) by (auto simp: adopt_delay_def)
  next
    case False
    then have p: "num_ports d' = num_ports d" "r = Inr ()"
      using r(1) by (auto simp: ptpd_inject_peer_delay_def Let_def split: option.splits)
    have i: "daemon_inv cfg d'" using r(2) p(1) assms(3) by (auto simp: daemon_inv_def)
    have "sta_inv (s\<lparr>wa_markers := (wa_markers s)\<lparr>bk_peer_delay_ns := ns\<rparr>\<rparr>)" using assms(2) by (simp add: sta_inv_def)
    then show ?thesis using i p False r(1) by (intro exI [of _ True]) (simp add: adopt_delay_def)
  qed
qed

lemma report_inv:
  assumes "delay_config cfg" "sta_inv s" "daemon_inv cfg d"
  shows "\<exists>s' d' out. on_ftm_report cfg mode_a env r (s, d) = Some (s', d', out) \<and> sta_inv s' \<and> daemon_inv cfg d'"
proof -
  define t where "t = (note_grant (fr_status r) s)\<lparr>wa_session := snd (ptp_ftm_session_finish (wa_session (note_grant (fr_status r) s))
      (fr_peer_mac r) (report_current cfg d mode_a env (fr_peer_mac r) (note_grant (fr_status r) s)))\<rparr>"
  have t: "sta_inv t" using assms(2) by (simp add: t_def association_inv)
  have range: "\<exists>s' d'. take_range cfg env r avg (x, d) = Some (s', d') \<and> sta_inv s' \<and> daemon_inv cfg d'" if x: "sta_inv x" for avg x
  proof (cases "peer_delay_of r avg")
    case None
    then show ?thesis using x assms(3) by (simp add: take_range_def measured_inv)
  next
    case (Some ns)
    obtain ok s' d' where "adopt_delay cfg ns (x, d) = Some (ok, s', d')" "sta_inv s'" "daemon_inv cfg d'"
      using adopt_inv [OF assms(1) x assms(3), of ns] by blast
    then show ?thesis using Some by (simp add: take_range_def measured_inv)
  qed
  have c: "sta_inv (snd (if es = [] then (Counter_ok, x) else check_counters u w x))" if "sta_inv x" for x u w and es :: "(u32 \<times> u64) list"
    using that by (simp add: counters_inv)
  have new: "sta_inv (map_status (\<lambda>x. beacon_status_new_source (x\<lparr>xs_ap_resets := f x\<rparr>)) x)" if "sta_inv x" for x f
    using that by (intro sta_inv_intros) (simp_all add: status_updates_inv)
  have succ: "\<exists>s' d' out. report_success cfg env r (t, d) = Some (s', d', out) \<and> sta_inv s' \<and> daemon_inv cfg d'"
  proof -
    obtain v x where v: "(if report_entries env r = [] then (Counter_ok, t\<lparr>wa_report_ok := True\<rparr>)
        else check_counters (snd (last (report_entries env r))) (wv_marker_us env) (t\<lparr>wa_report_ok := True\<rparr>)) = (v, x)"
      by (rule prod.exhaust)
    have x: "sta_inv x" using c [of "t\<lparr>wa_report_ok := True\<rparr>" "report_entries env r" "snd (last (report_entries env r))" "wv_marker_us env"] t
      unfolding v by simp
    have m: "sta_inv (map_status (ftm_status_measured False 0 (wv_measured_us env)) x)" by (rule measured_inv [OF x])
    obtain s' d' where ok: "take_range cfg env r (average_rtt_ps (report_entries env r)) (x, d) = Some (s', d')"
      "sta_inv s'" "daemon_inv cfg d'" using range [OF x] by blast
    show ?thesis
    proof (cases v)
      case Counter_ok
      then show ?thesis using ok by (simp add: report_success_def Let_def v)
    next
      case Counter_reset
      then show ?thesis using new [OF m] assms(3) by (simp add: report_success_def Let_def v)
    qed (use m assms(3) in \<open>simp_all add: report_success_def Let_def v\<close>)
  qed
  have fail: "\<exists>s' d'. report_failure cfg env r (t, d) = Some (s', d') \<and> sta_inv s' \<and> daemon_inv cfg d'"
  proof (cases "fr_status r = FTM_STATUS_NO_VALID_MSMT")
    case True
    obtain ok s' d' where
      "adopt_delay cfg 0 (map_status (ftm_status_measured False 0 (wv_measured_us env)) t, d) = Some (ok, s', d')"
      "sta_inv s'" "daemon_inv cfg d'" using adopt_inv [OF assms(1) measured_inv [OF t] assms(3)] by blast
    then show ?thesis using True by (simp add: report_failure_def)
  next
    case False
    then show ?thesis using measured_inv [OF t] assms(3) by (simp add: report_failure_def)
  qed
  have e: "on_ftm_report cfg mode_a env r (s, d) =
      (if \<not> fst (ptp_ftm_session_finish (wa_session (note_grant (fr_status r) s)) (fr_peer_mac r)
            (report_current cfg d mode_a env (fr_peer_mac r) (note_grant (fr_status r) s))) \<or> wv_hook env
       then Some (t\<lparr>wa_report_ok := True\<rparr>, d, [])
       else if fr_status r = FTM_STATUS_SUCCESS then report_success cfg env r (t, d)
       else map_option (\<lambda>(s, d). (s, d, [])) (report_failure cfg env r (t, d)))"
    by (simp add: on_ftm_report_def t_def Let_def split_beta)
  obtain s1 d1 o1 where s1: "report_success cfg env r (t, d) = Some (s1, d1, o1)" "sta_inv s1" "daemon_inv cfg d1" using succ by blast
  obtain s2 d2 where s2: "report_failure cfg env r (t, d) = Some (s2, d2)" "sta_inv s2" "daemon_inv cfg d2" using fail by blast
  show ?thesis using t assms(3) s1(2, 3) s2(2, 3) unfolding e s1(1) s2(1) by simp
qed

lemma beacon_daemon_inv:
  assumes "daemon_inv cfg d" "on_vendor_ie cfg pr mode_a p b v env (m, x, d) = (m', x', d')"
  shows "daemon_inv cfg d'"
proof -
  have w: "daemon_inv cfg (ptpd_set_sync_receipt_window cfg e p win)" if "daemon_inv cfg e" for e win
    using that by (auto simp: ptpd_set_sync_receipt_window_def intro!: daemon_inv_intros)
  have t: "daemon_inv cfg (snd (snd (element_timing cfg p env (q, y, e))))" if "daemon_inv cfg e" for e q y
    using that w by (auto simp: element_timing_def split: option.splits)
  have ob: "daemon_inv cfg (snd (ptpd_ftm_source_observed cfg e p sp dom li r n mt))" if "daemon_inv cfg e" for e sp dom li r n mt
    using that by (auto simp: ptpd_ftm_source_observed_def Let_def split_beta split: option.splits intro!: daemon_inv_intros)
  have i: "daemon_inv cfg (snd (ptpd_inject_sync_pair cfg e p r l c mt))" if "daemon_inv cfg e" for e r l c mt
    using that by (auto simp: ptpd_inject_sync_pair_def Let_def split_beta intro!: daemon_inv_intros)
  have dd: "daemon_inv cfg (snd (snd (discipline_to_beacon cfg p env pl (q, y, e))))" if "daemon_inv cfg e" for e q y pl
    using that i by (auto simp: discipline_to_beacon_def Let_def split_beta)
  have "daemon_inv cfg (snd (snd (on_vendor_ie cfg pr mode_a p b v env (m, x, d))))"
    using assms(1) by (auto simp: on_vendor_ie_def Let_def split_beta split: option.splits intro!: t ob dd)
  then show ?thesis using assms(2) by simp
qed

section \<open>The station at work\<close>

text \<open>The events of a station: the start of its port, those of the driver, those of the ranging task,
  and the elements of beacons.\<close>

datatype sta_event =
    Ev_start int bool bool bool "ap_record option" int
  | Ev_connected bytes sta_env
  | Ev_disconnected bool
  | Ev_control sta_env
  | Ev_cancel
  | Ev_report sta_env ftm_report
  | Ev_beacon bool vendor_ie beacon_env

fun sta_event_step ::
  "ptp_config \<Rightarrow> vendor_proto \<Rightarrow> bool \<Rightarrow> sta_event \<Rightarrow> wifi_sta \<times> ptp_daemon \<Rightarrow>
     (wifi_sta \<times> ptp_daemon \<times> ftm_action list) option" where
  "sta_event_step cfg pr mode_a (Ev_start p g w c ap now_us) (s, d) =
     Some (snd (ptp_wifi_sta_start p g w c ap now_us s), d, [])"
| "sta_event_step cfg pr mode_a (Ev_connected bssid env) (s, d) =
     (let (s, out) = sta_connected bssid env s in Some (s, d, out))"
| "sta_event_step cfg pr mode_a (Ev_disconnected stopped) (s, d) =
     (let (s, out) = sta_disconnected stopped s in Some (s, d, out))"
| "sta_event_step cfg pr mode_a (Ev_control env) (s, d) =
     (let (s, out) = on_ftm_control_start cfg d mode_a env s in Some (s, d, out))"
| "sta_event_step cfg pr mode_a Ev_cancel (s, d) = (let (s, out) = cancel_ftm_session s in Some (s, d, out))"
| "sta_event_step cfg pr mode_a (Ev_report env r) (s, d) = on_ftm_report cfg mode_a env r (s, d)"
| "sta_event_step cfg pr mode_a (Ev_beacon b v env) (s, d) =
     (let (m, x, d) = on_vendor_ie cfg pr mode_a (wa_port_index s) b v env (wa_markers s, wa_status s, d)
      in Some (s\<lparr>wa_markers := m, wa_status := x\<rparr>, d, []))"

text \<open>A run: the events of the station in any order, and between them whatever the daemon does of its
  own that keeps its invariant.\<close>

inductive sta_run :: "ptp_config \<Rightarrow> vendor_proto \<Rightarrow> bool \<Rightarrow> sta_event list \<Rightarrow> ftm_action list \<Rightarrow> wifi_sta \<times> ptp_daemon \<Rightarrow> bool"
  for cfg pr mode_a where
  start: "daemon_inv cfg d \<Longrightarrow> sta_run cfg pr mode_a [] [] (sta_zero, d)"
| event: "sta_run cfg pr mode_a evs acts z \<Longrightarrow> sta_event_step cfg pr mode_a ev z = Some (s, d, out) \<Longrightarrow>
    sta_run cfg pr mode_a (evs @ [ev]) (acts @ out) (s, d)"
| daemon: "sta_run cfg pr mode_a evs acts (s, d) \<Longrightarrow> daemon_inv cfg d' \<Longrightarrow> sta_run cfg pr mode_a evs acts (s, d')"

lemma start_inv [sta_inv_intros]: "sta_inv s \<Longrightarrow> sta_inv (snd (ptp_wifi_sta_start p g w c ap now_us s))"
  by (simp add: ptp_wifi_sta_start_def Let_def map_status_def sta_inv_def split: option.split)

text \<open>Every event is handled, and keeps both invariants.\<close>

lemma event_step_inv:
  assumes "delay_config cfg" "sta_inv s" "daemon_inv cfg d"
  shows "\<exists>s' d' out. sta_event_step cfg pr mode_a ev (s, d) = Some (s', d', out) \<and> sta_inv s' \<and> daemon_inv cfg d'"
proof (cases ev)
  case (Ev_report env r)
  then show ?thesis using report_inv [OF assms] by simp
next
  case (Ev_beacon b v env)
  obtain m x d' where e: "on_vendor_ie cfg pr mode_a (wa_port_index s) b v env (wa_markers s, wa_status s, d) = (m, x, d')"
    by (rule prod_cases3)
  have "station_inv m x" using vendor_ie_inv [OF _ e] assms(2) by (simp add: sta_inv_def)
  then have "sta_inv (s\<lparr>wa_markers := m, wa_status := x\<rparr>)" using assms(2) by (simp add: sta_inv_def)
  then show ?thesis using Ev_beacon e beacon_daemon_inv [OF assms(3) e] by simp
qed (use assms in \<open>simp_all add: split_beta sta_inv_intros\<close>)

lemma run_inv:
  assumes "sta_run cfg pr mode_a evs acts z" "delay_config cfg"
  shows "sta_inv (fst z) \<and> daemon_inv cfg (snd z)"
  using assms(1)
proof induction
  case (event evs acts z ev s d out)
  then show ?case using event_step_inv [OF assms(2), of "fst z" "snd z" pr mode_a ev] by simp
qed (simp_all add: sta_inv_zero)

text \<open>C4. Whatever a station and its access point go through, the next event is handled: no report
  and no element leads to an undefined average, and the invariants of the station and of the daemon
  hold afterwards.  A grant that qualifies the port is one of two or three frames, and the requests
  fall back to two and to eight frames only.\<close>

theorem station_handles_events:
  assumes "delay_config cfg" "sta_run cfg pr mode_a evs acts z"
  shows "\<exists>s d out. sta_event_step cfg pr mode_a ev z = Some (s, d, out) \<and> sta_run cfg pr mode_a (evs @ [ev]) (acts @ out) (s, d) \<and>
    daemon_inv cfg d \<and> station_inv (wa_markers s) (wa_status s) \<and>
    wm_granted_frames (wa_media s) \<in> {0, 2, 3} \<and> wa_requested_frames s \<in> {2, 3, 8}"
proof -
  have i: "sta_inv (fst z)" "daemon_inv cfg (snd z)" using run_inv [OF assms(2, 1)] by simp_all
  obtain s d out where s: "sta_event_step cfg pr mode_a ev z = Some (s, d, out)" "sta_inv s" "daemon_inv cfg d"
    using event_step_inv [OF assms(1) i, of pr mode_a ev] by auto
  then show ?thesis using sta_run.event [OF assms(2) s(1)] unfolding sta_inv_def by blast
qed

text \<open>A run played on concrete events, for the examples.\<close>

fun sta_play ::
  "ptp_config \<Rightarrow> vendor_proto \<Rightarrow> bool \<Rightarrow> sta_event list \<Rightarrow> wifi_sta \<times> ptp_daemon \<times> ftm_action list \<Rightarrow>
     (wifi_sta \<times> ptp_daemon \<times> ftm_action list) option" where
  "sta_play cfg pr mode_a [] (s, d, acts) = Some (s, d, acts)"
| "sta_play cfg pr mode_a (ev # evs) (s, d, acts) =
     (case sta_event_step cfg pr mode_a ev (s, d) of
        None \<Rightarrow> None | Some (s, d, out) \<Rightarrow> sta_play cfg pr mode_a evs (s, d, acts @ out))"

lemma play_from:
  "sta_run cfg pr mode_a evs acts (s, d) \<Longrightarrow> sta_play cfg pr mode_a evs' (s, d, acts) = Some (s', d', acts') \<Longrightarrow>
     sta_run cfg pr mode_a (evs @ evs') acts' (s', d')"
proof (induction evs' arbitrary: evs acts s d)
  case (Cons ev evs')
  then obtain s1 d1 out where e: "sta_event_step cfg pr mode_a ev (s, d) = Some (s1, d1, out)"
    "sta_play cfg pr mode_a evs' (s1, d1, acts @ out) = Some (s', d', acts')" by (auto split: option.splits)
  show ?case using Cons.IH [OF sta_run.event [OF Cons.prems(1) e(1)] e(2)] by simp
qed simp

lemma play_run:
  "daemon_inv cfg d \<Longrightarrow> sta_play cfg pr mode_a evs (sta_zero, d, []) = Some (s, d', acts) \<Longrightarrow> sta_run cfg pr mode_a evs acts (s, d')"
  using play_from [OF sta_run.start] by fastforce

definition station_env :: sta_env where
  "station_env = \<lparr>wv_ap = Some \<lparr>ap_bssid = [2,0,0,0,0,1], ap_ftm_responder = True\<rparr>, wv_init = Init_ok, wv_associated_us = 5,
     wv_ftm_associated_us = 5, wv_fresh_us = 30000, wv_hook = False, wv_entries = Some [(4, 10)], wv_marker_us = 30000, wv_measured_us = 30000\<rparr>"

text \<open>A beacon at a time, whose element carries that time and a counter.\<close>

definition beacon_at :: "int \<Rightarrow> int \<Rightarrow> sta_event" where
  "beacon_at at_us tsf_us =
     Ev_beacon True \<lparr>vi_length = 90, vi_oui = [0x12, 0x34, 0x56], vi_oui_type = 1,
       vi_payload = [2, 3, 0x18] @ replicate 33 0 @ replicate 6 0 @ map (\<lambda>e. word_of_int (at_us * 1000 div e)) [16777216, 65536, 256, 1] @
         replicate 32 0 @ map (\<lambda>e. word_of_int (tsf_us div e)) [1, 256, 65536, 16777216] @ replicate 4 0\<rparr>
       \<lparr>bv_received_us = at_us, bv_element_us = at_us, bv_observed_us = at_us,
        bv_observed_ts = timespec_zero, bv_sta_tsf_us = tsf_us, bv_now = \<lparr>tv_sec = 0, tv_nsec = at_us * 1000 + 500\<rparr>,
        bv_clock = \<lparr>ce_hw_time = None, ce_local_ns = 0, ce_settime_ok = True, ce_adjtime_ok = True, ce_unset = timespec_zero\<rparr>,
        bv_inject_ts = timespec_zero, bv_applied_us = at_us\<rparr>"

definition locking_run :: "sta_event list" where
  "locking_run = [Ev_start 0 True True True None 5, Ev_connected [2,0,0,0,0,1] station_env] @
     map (\<lambda>k. beacon_at (k * 10000) (500000 + k * 10000)) [1..17]"

definition report_example :: ftm_report where
  "report_example = \<lparr>fr_peer_mac = [2,0,0,0,0,1], fr_status = FTM_STATUS_SUCCESS, fr_num_entries = 1, fr_rtt_est = 8\<rparr>"

text \<open>A baseline, a beacon whose counter is far behind it, and three measurements that find it so.\<close>

definition bouncing_run :: "sta_event list" where
  "bouncing_run = [Ev_start 0 True True True None 5, Ev_connected [2,0,0,0,0,1] station_env, beacon_at 10000 5000000,
     Ev_control station_env, Ev_report station_env report_example, beacon_at 20000 100000] @
     concat (replicate 3 [Ev_control station_env, Ev_report station_env report_example])"

definition station_daemon :: ptp_daemon where
  "station_daemon = map_state (\<lambda>s. s\<lparr>st_source := (st_source s)\<lparr>so_selected_source_valid := True\<rparr>\<rparr>) (daemon_zero 2)"

theorem station_handles_events_witness:
  "\<exists>s d out. sta_event_step config_default proto_example False (Ev_report station_env report_example) (sta_zero, station_daemon) = Some (s, d, out) \<and>
     daemon_inv config_default d \<and> station_inv (wa_markers s) (wa_status s)"
proof -
  have "delay_config config_default" "daemon_inv config_default station_daemon" by code_simp+
  then show ?thesis using station_handles_events [OF _ sta_run.start] by blast
qed

section \<open>A station is patient\<close>

fun successful_report :: "sta_event \<Rightarrow> bool" where
  "successful_report (Ev_report env r) = (fr_status r = FTM_STATUS_SUCCESS)"
| "successful_report _ = False"

lemma counters_streak:
  assumes "check_counters t now s = (v, s')"
  shows "(if v = Counter_reset then 3 else 0) + wa_backward_streak s' \<le> wa_backward_streak s + 1"
  using assms by (auto simp: check_counters_def Let_def TSF_BOUNCE_CONSEC_THRESHOLD_def split: if_splits)

lemma adopt_streak: "adopt_delay cfg ns (s, d) = Some (ok, s', d') \<Longrightarrow> wa_backward_streak s' = wa_backward_streak s"
  by (auto simp: adopt_delay_def split: prod.splits option.splits sum.splits)

lemma range_streak: "take_range cfg env r avg (s, d) = Some (s', d') \<Longrightarrow> wa_backward_streak s' = wa_backward_streak s"
  by (auto simp: take_range_def map_status_def Let_def dest: adopt_streak split: option.splits)

lemma success_streak:
  assumes "report_success cfg env r (s, d) = Some (s', d', out)"
  shows "3 * count_list out Wifi_disconnect + wa_backward_streak s' \<le> wa_backward_streak s + 1"
proof -
  obtain v x where v: "(if report_entries env r = [] then (Counter_ok, s\<lparr>wa_report_ok := True\<rparr>)
      else check_counters (snd (last (report_entries env r))) (wv_marker_us env) (s\<lparr>wa_report_ok := True\<rparr>)) = (v, x)"
    by (rule prod.exhaust)
  have x: "(if v = Counter_reset then 3 else 0) + wa_backward_streak x \<le> wa_backward_streak s + 1"
    using v counters_streak [of "snd (last (report_entries env r))" "wv_marker_us env" "s\<lparr>wa_report_ok := True\<rparr>"]
    by (auto split: if_splits)
  show ?thesis
  proof (cases v)
    case Counter_ok
    then have "out = []" "take_range cfg env r (average_rtt_ps (report_entries env r)) (x, d) = Some (s', d')"
      using assms by (auto simp: report_success_def Let_def v)
    then show ?thesis using x Counter_ok range_streak by fastforce
  qed (use x assms in \<open>auto simp: report_success_def Let_def v map_status_def\<close>)
qed

lemma failure_streak:
  assumes "report_failure cfg env r (s, d) = Some (s', d')"
  shows "wa_backward_streak s' = wa_backward_streak s"
  using assms by (auto simp: report_failure_def Let_def map_status_def dest!: adopt_streak split: if_splits)

lemma report_streak:
  assumes "on_ftm_report cfg mode_a env r (s, d) = Some (s', d', out)"
  shows "3 * count_list out Wifi_disconnect + wa_backward_streak s' \<le>
    wa_backward_streak s + (if fr_status r = FTM_STATUS_SUCCESS then 1 else 0)"
proof -
  define t where "t = (note_grant (fr_status r) s)\<lparr>wa_session := snd (ptp_ftm_session_finish (wa_session (note_grant (fr_status r) s))
      (fr_peer_mac r) (report_current cfg d mode_a env (fr_peer_mac r) (note_grant (fr_status r) s)))\<rparr>"
  have t: "wa_backward_streak t = wa_backward_streak s" by (simp add: t_def note_grant_def Let_def)
  have "out = [] \<and> wa_backward_streak s' = wa_backward_streak t \<or>
      fr_status r = FTM_STATUS_SUCCESS \<and> report_success cfg env r (t, d) = Some (s', d', out) \<or>
      out = [] \<and> report_failure cfg env r (t, d) = Some (s', d')"
    using assms by (auto simp: on_ftm_report_def Let_def split_beta t_def split: if_splits)
  then show ?thesis using success_streak [of cfg env r t d s' d' out] failure_streak [of cfg env r t d s' d'] t by auto
qed

lemma event_streak:
  assumes "sta_event_step cfg pr mode_a ev (s, d) = Some (s', d', out)"
  shows "3 * count_list out Wifi_disconnect + wa_backward_streak s' \<le> wa_backward_streak s + (if successful_report ev then 1 else 0)"
proof (cases ev)
  case (Ev_report env r)
  then show ?thesis using report_streak assms by simp
next
  case (Ev_control env)
  have "count_list out Wifi_disconnect = 0 \<and> wa_backward_streak s' = wa_backward_streak s"
    using assms Ev_control
    by (auto simp: on_ftm_control_start_def ftm_start_def ftm_admitted_def Let_def split: if_splits option.splits)
  then show ?thesis by simp
next
  case (Ev_start p g w c ap now_us)
  then show ?thesis using assms by (auto simp: ptp_wifi_sta_start_def Let_def map_status_def split: option.splits if_splits)
qed (use assms in \<open>auto simp: sta_connected_def sta_disconnected_def cancel_ftm_session_def forget_baseline_def map_status_def Let_def
    ftm_media_reset_def split_beta split: if_splits\<close>)

text \<open>C19. A station leaves its access point on its own only after three successful measurements that
  each found the counter of the beacons more than a second behind: in any run, the disconnections
  it asks for are at most a third of the successful reports.\<close>

theorem station_is_patient:
  assumes "sta_run cfg pr mode_a evs acts (s, d)"
  shows "3 * count_list acts Wifi_disconnect + wa_backward_streak s \<le> length (filter successful_report evs)"
  using assms
proof (induction evs acts "(s, d)" arbitrary: s d)
  case (event evs acts z ev s d out)
  obtain s0 d0 where z: "z = (s0, d0)" by (rule prod.exhaust)
  show ?case using event.hyps(2) [OF z] event_streak [OF event.hyps(3) [unfolded z]] by (auto simp: add_mult_distrib2)
qed (simp_all add: sta_zero_def)

theorem station_is_patient_witness:
  "case sta_play config_default proto_example False bouncing_run (sta_zero, station_daemon, []) of
     None \<Rightarrow> False
   | Some (s, d, acts) \<Rightarrow> count_list acts Wifi_disconnect = 1 \<and> length (filter successful_report bouncing_run) = 4 \<and>
       3 * count_list acts Wifi_disconnect + wa_backward_streak s \<le> length (filter successful_report bouncing_run)"
proof -
  have v: "case sta_play config_default proto_example False bouncing_run (sta_zero, station_daemon, []) of
      None \<Rightarrow> False | Some (s, d, acts) \<Rightarrow> count_list acts Wifi_disconnect = 1 \<and> length (filter successful_report bouncing_run) = 4"
    by code_simp
  have i: "daemon_inv config_default station_daemon" by code_simp
  show ?thesis using v station_is_patient [OF play_run [OF i]] by (auto split: option.splits)
qed

section \<open>What the station reports\<close>

lemma media_status_fields [simp]:
  "wo_locked (media_status m w) = wo_locked w" "wo_holdover (media_status m w) = wo_holdover w"
  "wo_servo_error_valid (media_status m w) = wo_servo_error_valid w" "wo_servo_error_ns (media_status m w) = wo_servo_error_ns w"
  "wo_time_age_ms (media_status m w) = wo_time_age_ms w"
  by (simp_all add: media_status_def split: option.split)

lemma beacon_mode_fields:
  assumes "ptpd_wifi_sta_status cfg d False hook s p now_us capable_us = Inr w"
  shows "wo_locked w = wo_locked (beacon_status (wa_status s) now_us w)" "wo_holdover w = wo_holdover (beacon_status (wa_status s) now_us w)"
    "wo_servo_error_valid w = xs_beacon_error_valid (wa_status s)" "wo_servo_error_ns w = xs_beacon_error_ns (wa_status s)"
    "wo_time_age_ms w = status_age_ms (xs_beacon_applied_us (wa_status s)) now_us"
proof -
  have e: "\<exists>u i a. w = (media_status (ptp_wifi_sta_media s p) ((beacon_status (wa_status s) now_us u)\<lparr>
      wo_ap_resets := xs_ap_resets (wa_status s), wo_association_age_s := a,
      wo_time_age_ms := status_age_ms (xs_beacon_applied_us (wa_status s)) now_us\<rparr>))\<lparr>wo_as_capable_reason := 0, wo_ap_port_identity := i\<rparr>"
    using assms by (simp add: ptpd_wifi_sta_status_def Let_def split_beta split: if_split_asm) blast+
  then show "wo_locked w = wo_locked (beacon_status (wa_status s) now_us w)" "wo_holdover w = wo_holdover (beacon_status (wa_status s) now_us w)"
    "wo_servo_error_valid w = xs_beacon_error_valid (wa_status s)" "wo_servo_error_ns w = xs_beacon_error_ns (wa_status s)"
    "wo_time_age_ms w = status_age_ms (xs_beacon_applied_us (wa_status s)) now_us"
    by (auto simp: beacon_status_def Let_def)
qed

text \<open>C18. Mode B, at any moment of any run: a station that reports itself locked has a valid error of
  at most 4 ms and applied an element at most three measured intervals and never more than six
  seconds ago, so the age it reports is not unknown; and it is never in holdover while it is locked.\<close>

theorem locked_means_recent:
  assumes "delay_config cfg" "sta_run cfg pr mode_a evs acts (s, d)"
    and "ptpd_wifi_sta_status cfg d False hook s p now_us capable_us = Inr w" "wo_locked w"
  shows "wo_servo_error_valid w \<and> \<bar>wo_servo_error_ns w\<bar> \<le> BEACON_LOCK_EXIT_NS \<and> \<not> wo_holdover w \<and>
    xs_beacon_applied_us (wa_status s) \<noteq> 0 \<and> now_us - xs_beacon_applied_us (wa_status s) \<le> 6000000 \<and>
    (xs_beacon_applied_us (wa_status s) \<le> now_us \<longrightarrow> wo_time_age_ms w \<le> 6000)"
proof -
  have i: "station_inv (wa_markers s) (wa_status s)" using run_inv [OF assms(2, 1)] by (simp add: sta_inv_def)
  let ?x = "wa_status s"
  let ?w = "if xs_beacon_window_us ?x \<noteq> 0 then xs_beacon_window_us ?x else STA_LOCK_WINDOW_US"
  have w: "wo_locked w = (xs_beacon_applied_us ?x \<noteq> 0 \<and> now_us - xs_beacon_applied_us ?x \<le> ?w \<and> xs_beacon_converged ?x)"
    "wo_holdover w = (\<not> (xs_beacon_applied_us ?x \<noteq> 0 \<and> now_us - xs_beacon_applied_us ?x \<le> ?w) \<and> xs_beacon_was_locked ?x)"
    "wo_servo_error_valid w = xs_beacon_error_valid ?x" "wo_servo_error_ns w = xs_beacon_error_ns ?x"
    "wo_time_age_ms w = status_age_ms (xs_beacon_applied_us ?x) now_us"
    using beacon_mode_fields [OF assms(3)] by (simp_all add: beacon_status_def Let_def)
  have b: "?w \<le> 6000000" using i by (auto simp: station_inv_def STA_LOCK_WINDOW_US_def)
  have l: "xs_beacon_applied_us ?x \<noteq> 0" "now_us - xs_beacon_applied_us ?x \<le> ?w" "xs_beacon_converged ?x"
    using assms(4) w(1) by simp_all
  have a: "now_us - xs_beacon_applied_us ?x \<le> 6000000" using l(2) b by linarith
  have "wo_servo_error_valid w" "\<bar>wo_servo_error_ns w\<bar> \<le> BEACON_LOCK_EXIT_NS" using i l(3) w(3, 4) by (simp_all add: station_inv_def)
  moreover have "\<not> wo_holdover w" using w(2) l by simp
  moreover have "wo_time_age_ms w \<le> 6000" if "xs_beacon_applied_us ?x \<le> now_us"
    using that a l(1) w(5) by (auto simp: status_age_ms_def PTP_WIFI_STATUS_AGE_NONE_def)
  ultimately show ?thesis using l(1) a by blast
qed

theorem locked_means_recent_witness:
  "case sta_play config_default proto_example False locking_run (sta_zero, station_daemon, []) of
     None \<Rightarrow> False
   | Some (s, d, acts) \<Rightarrow>
       (case ptpd_wifi_sta_status config_default d False None s 0 200000 0 of
          Inl _ \<Rightarrow> False
        | Inr w \<Rightarrow> wo_locked w \<and> \<bar>wo_servo_error_ns w\<bar> \<le> 4000000 \<and> \<not> wo_holdover w)"
proof -
  have v: "case sta_play config_default proto_example False locking_run (sta_zero, station_daemon, []) of
      None \<Rightarrow> False | Some (s, d, acts) \<Rightarrow> (case ptpd_wifi_sta_status config_default d False None s 0 200000 0 of
          Inl _ \<Rightarrow> False | Inr w \<Rightarrow> wo_locked w)"
    by code_simp
  have i: "daemon_inv config_default station_daemon" "delay_config config_default" by code_simp+
  show ?thesis using v locked_means_recent [OF i(2) play_run [OF i(1)]]
    by (auto simp: BEACON_LOCK_EXIT_NS_def split: option.splits sum.splits)
qed

section \<open>Which reports are taken\<close>

lemma grant_fields [simp]:
  "wa_session (note_grant st s) = wa_session s" "wa_report_ok (note_grant st s) = wa_report_ok s" "wa_status (note_grant st s) = wa_status s"
  "wa_markers (note_grant st s) = wa_markers s" "wa_have_baseline (note_grant st s) = wa_have_baseline s"
  "wa_prev_ftm_t1_ps (note_grant st s) = wa_prev_ftm_t1_ps s" "wa_backward_streak (note_grant st s) = wa_backward_streak s"
  "wa_connected (note_grant st s) = wa_connected s" "wa_port_index (note_grant st s) = wa_port_index s"
  "wa_ftm_timing (note_grant st s) = wa_ftm_timing s" "wa_ftm_associated_us (note_grant st s) = wa_ftm_associated_us s"
  by (simp_all add: note_grant_def Let_def)

lemma grant_current [simp]: "report_current cfg d mode_a env m (note_grant st s) = report_current cfg d mode_a env m s"
  by (simp add: report_current_def ftm_clock_beacon_fresh_def cong: option.case_cong)

text \<open>C20. A report is taken only if its session is pending and was not cancelled, its peer is the one
  the session was opened with, and the association is the one it was opened in.  Any other report
  changes no delay, no status and no baseline, and disciplines nothing.\<close>

theorem foreign_reports_ignored:
  assumes "\<not> (fs_pending (wa_session s) \<and> fs_valid (wa_session s) \<and> fs_peer (wa_session s) = fr_peer_mac r \<and>
    report_current cfg d mode_a env (fr_peer_mac r) s)"
  shows "\<exists>s'. on_ftm_report cfg mode_a env r (s, d) = Some (s', d, []) \<and> wa_status s' = wa_status s \<and> wa_markers s' = wa_markers s \<and>
    wa_have_baseline s' = wa_have_baseline s \<and> wa_prev_ftm_t1_ps s' = wa_prev_ftm_t1_ps s \<and>
    wa_backward_streak s' = wa_backward_streak s \<and> \<not> fs_pending (wa_session s')"
  using assms by (auto simp: on_ftm_report_def ptp_ftm_session_finish_def Let_def)

theorem foreign_reports_ignored_witness:
  "\<exists>s'. on_ftm_report config_default False station_env report_example (sta_zero, station_daemon) = Some (s', station_daemon, []) \<and>
     wa_status s' = status_zero"
  using foreign_reports_ignored [where s = sta_zero and r = report_example and cfg = config_default and d = station_daemon
    and mode_a = False and env = station_env] by (auto simp: sta_zero_def session_zero_def)

lemma adopt_wake: "adopt_delay cfg ns (s, d) = Some (ok, s', d') \<Longrightarrow> wa_report_ok s' = wa_report_ok s"
  by (auto simp: adopt_delay_def split: prod.splits option.splits sum.splits)

text \<open>The ranging task sleeps until a report wakes it or two seconds have passed.  A report wakes
  it when it is discarded, consumed by the transport, or successful; the report of a failed session
  that is consumed here leaves it asleep.\<close>

theorem failed_report_does_not_wake:
  assumes "on_ftm_report cfg mode_a env r (s, d) = Some (s', d', out)"
  shows "wa_report_ok s' \<longleftrightarrow> wa_report_ok s \<or> fr_status r = FTM_STATUS_SUCCESS \<or> wv_hook env \<or>
    \<not> fst (ptp_ftm_session_finish (wa_session s) (fr_peer_mac r) (report_current cfg d mode_a env (fr_peer_mac r) s))"
proof -
  have k: "wa_report_ok (snd (check_counters t now x)) = wa_report_ok x" for t now x
    by (simp add: check_counters_def Let_def)
  have s: "wa_report_ok y" if "report_success cfg env r (x, d) = Some (y, e, a)" for x y e a
  proof -
    obtain v u where v: "(if report_entries env r = [] then (Counter_ok, x\<lparr>wa_report_ok := True\<rparr>)
        else check_counters (snd (last (report_entries env r))) (wv_marker_us env) (x\<lparr>wa_report_ok := True\<rparr>)) = (v, u)"
      by (rule prod.exhaust)
    have u: "wa_report_ok u"
      using v k [of "snd (last (report_entries env r))" "wv_marker_us env" "x\<lparr>wa_report_ok := True\<rparr>"] by (auto split: if_splits)
    show ?thesis using that u
      by (cases v) (auto simp: report_success_def Let_def v map_status_def take_range_def dest!: adopt_wake split: option.splits)
  qed
  have f: "wa_report_ok y = wa_report_ok x" if "report_failure cfg env r (x, d) = Some (y, e)" for x y e
    using that by (auto simp: report_failure_def Let_def map_status_def dest!: adopt_wake split: if_splits)
  show ?thesis using assms by (auto simp: on_ftm_report_def Let_def split_beta dest: s f split: if_splits)
qed


theorem failed_report_does_not_wake_witness:
  "case sta_play config_default proto_example False (take 4 bouncing_run) (sta_zero, station_daemon, []) of
     None \<Rightarrow> False
   | Some (s, d, acts) \<Rightarrow>
       (case on_ftm_report config_default False station_env (report_example\<lparr>fr_status := FTM_STATUS_FAIL\<rparr>) (s, d) of
          None \<Rightarrow> False | Some (s', d', out) \<Rightarrow> \<not> wa_report_ok s' \<and> fs_pending (wa_session s) \<and> \<not> fs_pending (wa_session s'))"
proof -
  have v: "case sta_play config_default proto_example False (take 4 bouncing_run) (sta_zero, station_daemon, []) of
      None \<Rightarrow> False
    | Some (s, d, acts) \<Rightarrow> (case on_ftm_report config_default False station_env (report_example\<lparr>fr_status := FTM_STATUS_FAIL\<rparr>) (s, d) of
          None \<Rightarrow> False | Some (s', d', out) \<Rightarrow> fs_pending (wa_session s) \<and> \<not> fs_pending (wa_session s') \<and> \<not> wa_report_ok s \<and>
            \<not> wv_hook station_env \<and> fst (ptp_ftm_session_finish (wa_session s) (fr_peer_mac report_example)
              (report_current config_default d False station_env (fr_peer_mac report_example) s)))"
    by code_simp
  then show ?thesis using failed_report_does_not_wake [of config_default False station_env "report_example\<lparr>fr_status := FTM_STATUS_FAIL\<rparr>"]
    by (auto split: option.splits)
qed

end
