(* ===== verification/Ptp_Radio.thy ===== *)
theory Ptp_Radio
  imports Ptp_Periodic "HOL-Library.Sublist"
begin

text \<open>
  Transmission through the radio (\<^verbatim>\<open>ptp_wifi.c\<close>): the worker that sends a copy of an Announce to
  every station, the worker that sends capability messages and reports their completion to the
  daemon, and the encoders of the interval probe.

  A queue of the operating system is the list of its items; \<open>queue_send\<close> fails when it is full.  A
  worker runs beside the daemon: what the daemon does before each of its steps is a function of
  the daemon, part of the environment, and arbitrary.
\<close>

section \<open>Queues\<close>

definition queue_send :: "nat \<Rightarrow> 'a list \<Rightarrow> 'a \<Rightarrow> 'a list option" where
  "queue_send depth q x = (if length q < depth then Some (q @ [x]) else None)"

fun queue_receive :: "'a list \<Rightarrow> ('a \<times> 'a list) option" where
  "queue_receive [] = None"
| "queue_receive (x # q) = Some (x, q)"

section \<open>Announce to every station\<close>

definition wifi_ap_send_unicast_ptp :: "bytes \<Rightarrow> bytes \<Rightarrow> bytes \<Rightarrow> bytes" where
  "wifi_ap_send_unicast_ptp src_mac dst_mac ptp_msg = dst_mac @ src_mac @ [0x88, 0xF7] @ ptp_msg"

record ap_announce_item =
  ai_port_index :: int
  ai_generation :: u32
  ai_source_generation :: u32
  ai_queued_us :: int
  ai_peers :: "ptp_wifi_association_entry list"
  ai_initial_interval :: int
  ai_src_mac :: bytes
  ai_msg :: bytes

record announce_information =
  nf_revision :: u32
  nf_message :: bytes

definition same_information :: "bytes \<Rightarrow> bytes \<Rightarrow> bool" where
  "same_information previous msg \<longleftrightarrow>
     length previous = length msg \<and> previous ! 4 = msg ! 4 \<and> slice 6 2 previous = slice 6 2 msg \<and>
     slice 20 8 previous = slice 20 8 msg \<and> drop 44 previous = drop 44 msg"

text \<open>The revision of what a port announces; 0 for no port.\<close>

definition ap_announce_information :: "ptp_config \<Rightarrow> ap_announce_item \<Rightarrow> announce_information list \<Rightarrow> u32 \<times> announce_information list" where
  "ap_announce_information cfg item infos =
     (if \<not> valid_port cfg (ai_port_index item) then (0, infos)
      else
        let p = nat (ai_port_index item); f = infos ! p;
            f = (if nf_revision f = 0 \<or> \<not> same_information (nf_message f) (ai_msg item)
                 then let r = nf_revision f + 1 in \<lparr>nf_revision = (if r = 0 then 1 else r), nf_message = ai_msg item\<rparr>
                 else f)
        in (nf_revision f, infos[p := f]))"

definition announce_current :: "ptp_config \<Rightarrow> ptp_daemon \<Rightarrow> ap_announce_item \<Rightarrow> int \<Rightarrow> bool" where
  "announce_current cfg d item now_us \<longleftrightarrow>
     \<not> (now_us < ai_queued_us item \<or> now_us - ai_queued_us item \<ge> 1000000 \<or>
        ai_generation item \<noteq> ptp_wifi_link_generation cfg (dm_injected_generation d) (ai_port_index item) \<or>
        ai_source_generation item \<noteq> ptpd_timing_generation d)"

text \<open>What happens around the transmission to one station.\<close>

record announce_env =
  ne_before :: "ptp_daemon \<Rightarrow> ptp_daemon"
  ne_now_us :: int
  ne_during :: "ptp_daemon \<Rightarrow> ptp_daemon"
  ne_tx_ok :: bool
  ne_done_us :: int

text \<open>The identity of the association, its sequence number and its interval go into the message.\<close>

definition announce_address :: "bytes \<Rightarrow> ptp_wifi_association_entry \<Rightarrow> int \<Rightarrow> u16 \<Rightarrow> bytes" where
  "announce_address msg peer advertised sequence =
     msg[28 := word_of_nat (ae_port_number peer div 256), 29 := word_of_nat (ae_port_number peer),
         30 := ucast (drop_bit 8 sequence), 31 := ucast sequence, 33 := word_of_int advertised]"

fun announce_peers ::
  "ptp_config \<Rightarrow> u32 \<Rightarrow> ap_announce_item \<Rightarrow> (ptp_wifi_association_entry \<times> announce_env) list \<Rightarrow> ptp_daemon \<Rightarrow>
     nat \<times> ptp_daemon \<times> (bytes \<times> bytes) list" where
  "announce_peers cfg information item [] d = (0, d, [])"
| "announce_peers cfg information item ((peer, env) # rest) d =
     (let d = ne_before env d in
      if \<not> announce_current cfg d item (ne_now_us env) then (0, d, [])
      else
        let (token, out, d) = ptpd_wifi_announce_begin cfg d (ai_port_index item) (Some (ae_mac peer)) (ae_association peer)
              (ae_announce_revision peer) information (ai_initial_interval item) (ne_now_us env)
        in if token = 0 then announce_peers cfg information item rest d
           else
             let (advertised, sequence) = the out;
                 item = item\<lparr>ai_msg := announce_address (ai_msg item) peer advertised sequence\<rparr>;
                 accepted = ne_tx_ok env;
                 (_, d) = ptpd_wifi_announce_finish cfg (ne_during env d) (ai_port_index item) (Some (ae_mac peer)) (ae_association peer)
                   token accepted (ne_done_us env);
                 (sent, d, frames) = announce_peers cfg information item rest d
             in (if accepted then sent + 1 else sent, d,
                 (ae_mac peer, wifi_ap_send_unicast_ptp (ai_src_mac item) (ae_mac peer) (ai_msg item)) # frames))"

definition peers_with :: "(nat \<Rightarrow> announce_env) \<Rightarrow> ptp_wifi_association_entry list \<Rightarrow> (ptp_wifi_association_entry \<times> announce_env) list" where
  "peers_with envs peers = map (\<lambda>i. (peers ! i, envs i)) [0..<length peers]"

definition ap_send_announce_now ::
  "ptp_config \<Rightarrow> ap_announce_item \<Rightarrow> int \<Rightarrow> (nat \<Rightarrow> announce_env) \<Rightarrow> announce_information list \<times> ptp_daemon \<Rightarrow>
     nat \<times> (announce_information list \<times> ptp_daemon) \<times> (bytes \<times> bytes) list" where
  "ap_send_announce_now cfg item started_us envs z =
     (let (infos, d) = z in
      if \<not> announce_current cfg d item started_us then (0, (infos, d), [])
      else
        let (information, infos) = ap_announce_information cfg item infos in
        if information = 0 then (0, (infos, d), [])
        else let (sent, d, frames) = announce_peers cfg information item (peers_with envs (ai_peers item)) d in (sent, (infos, d), frames))"

definition PTP_ANNOUNCE_MAX_LENGTH :: nat where
  "PTP_ANNOUNCE_MAX_LENGTH = PTP_ANNOUNCE_BODY_LENGTH + 4 + PTP_PATH_TRACE_MAX_CLOCKS * 8"

text \<open>The mailbox of the worker holds the newest item.  The answers: the mailbox and the task are
  created when they are first needed.\<close>

datatype announce_queued = Announce_refused | Announce_no_peer | Announce_queued

definition ptp_wifi_ap_send_announce ::
  "ptp_config \<Rightarrow> ptp_daemon \<Rightarrow> int \<Rightarrow> bytes option \<Rightarrow> bytes option \<Rightarrow> int \<Rightarrow> bool \<Rightarrow> bool \<Rightarrow>
     ap_announce_item option option \<Rightarrow> announce_queued \<times> ap_announce_item option option" where
  "ptp_wifi_ap_send_announce cfg d port_index src_mac ptp_msg now_us mbox_ok task_ok mbox =
     (case (src_mac, ptp_msg) of
        (Some src, Some msg) \<Rightarrow>
          if length msg < PTP_ANNOUNCE_BODY_LENGTH \<or> length msg > PTP_ANNOUNCE_MAX_LENGTH then (Announce_refused, mbox)
          else (case ptpd_wifi_association_snapshot cfg d port_index of
                  None \<Rightarrow> (Announce_refused, mbox)
                | Some peers \<Rightarrow>
                    if sn_entries peers = [] then (Announce_no_peer, mbox)
                    else if mbox = None \<and> (\<not> mbox_ok \<or> \<not> task_ok) then (Announce_refused, None)
                    else (Announce_queued, Some (Some
                      \<lparr>ai_port_index = port_index,
                       ai_generation = ptp_wifi_link_generation cfg (dm_injected_generation d) port_index,
                       ai_source_generation = ptpd_timing_generation d, ai_queued_us = now_us, ai_peers = sn_entries peers,
                       ai_initial_interval = sint (msg ! 33), ai_src_mac = src, ai_msg = msg\<rparr>)))
      | _ \<Rightarrow> (Announce_refused, mbox))"

section \<open>Capability messages\<close>

record wifi_capable_item =
  wq_port_index :: int
  wq_ap :: bool
  wq_result :: ptp_wifi_capable_result
  wq_generation :: u32
  wq_queued_us :: int
  wq_source :: bytes
  wq_message :: bytes

definition WIFI_CAPABLE_QUEUE_DEPTH :: "ptp_config \<Rightarrow> nat" where
  "WIFI_CAPABLE_QUEUE_DEPTH cfg = 16 * cf_num_ports cfg"

text \<open>The two queues; they exist together.\<close>

record capable_worker =
  cw_ready :: bool
  cw_queue :: "wifi_capable_item list"
  cw_results :: "ptp_wifi_capable_result list"

definition worker_zero :: capable_worker where
  "worker_zero = \<lparr>cw_ready = False, cw_queue = [], cw_results = []\<rparr>"

definition wifi_capable_current :: "ptp_config \<Rightarrow> ptp_daemon \<Rightarrow> wifi_capable_item \<Rightarrow> int \<Rightarrow> bool" where
  "wifi_capable_current cfg d item now_us \<longleftrightarrow>
     now_us - wq_queued_us item \<ge> 0 \<and> now_us - wq_queued_us item < 1000000 \<and>
     wq_generation item = ptp_wifi_link_generation cfg (dm_injected_generation d) (wq_port_index item)"

definition wifi_capable_send_to ::
  "ptp_config \<Rightarrow> ptp_daemon \<Rightarrow> wifi_capable_item \<Rightarrow> bytes \<Rightarrow> int \<Rightarrow> bool \<Rightarrow> bool \<times> (bool \<times> bytes) option" where
  "wifi_capable_send_to cfg d item destination now_us tx_ok =
     (if \<not> wifi_capable_current cfg d item now_us then (False, None)
      else (tx_ok, Some (wq_ap item, destination @ wq_source item @ [0x88, 0xf7] @ wq_message item)))"

text \<open>One item of the worker.\<close>

definition wifi_capable_task ::
  "ptp_config \<Rightarrow> ptp_daemon \<Rightarrow> int \<Rightarrow> bool \<Rightarrow> int \<Rightarrow> capable_worker \<Rightarrow> capable_worker \<times> (bool \<times> bytes) option" where
  "wifi_capable_task cfg d now_us tx_ok done_us w =
     (case queue_receive (cw_queue w) of
        None \<Rightarrow> (w, None)
      | Some (item, queue) \<Rightarrow>
          let (accepted, frame) = wifi_capable_send_to cfg d item (wr_destination (wq_result item)) now_us tx_ok;
              result = (wq_result item)\<lparr>wr_accepted := accepted, wr_completed_us := done_us\<rparr>;
              results = (case queue_send (WIFI_CAPABLE_QUEUE_DEPTH cfg) (cw_results w) result of
                           None \<Rightarrow> cw_results w | Some q \<Rightarrow> q)
          in (w\<lparr>cw_queue := queue, cw_results := results\<rparr>, frame))"

definition wifi_capable_prepare :: "bool \<Rightarrow> capable_worker \<Rightarrow> bool \<times> capable_worker" where
  "wifi_capable_prepare created w =
     (if cw_ready w then (True, w) else if created then (True, worker_zero\<lparr>cw_ready := True\<rparr>) else (False, worker_zero))"

definition ptp_wifi_send_capable_peer ::
  "ptp_config \<Rightarrow> bool \<Rightarrow> int \<Rightarrow> int \<Rightarrow> bool \<Rightarrow> bytes option \<Rightarrow> bytes option \<Rightarrow> u32 \<Rightarrow> u32 \<Rightarrow> u32 \<Rightarrow> bytes option \<Rightarrow>
     capable_worker \<Rightarrow> bool \<times> capable_worker" where
  "ptp_wifi_send_capable_peer cfg created now_us port_index ap src_mac destination generation association token message w =
     (case (src_mac, destination, message) of
        (Some src, Some dst, Some msg) \<Rightarrow>
          if \<not> valid_port cfg port_index \<or> association = 0 \<or> token = 0 \<or> length msg \<noteq> PTP_CAPABLE_MESSAGE_LENGTH then (False, w)
          else
            let (ready, w) = wifi_capable_prepare created w in
            if \<not> ready then (False, w)
            else
              let result = \<lparr>wr_port_index = port_index, wr_destination = dst, wr_generation = generation,
                    wr_association = association, wr_token = token, wr_completed_us = 0, wr_accepted = False\<rparr>;
                  item = \<lparr>wq_port_index = port_index, wq_ap = ap, wq_result = result, wq_generation = generation,
                    wq_queued_us = now_us, wq_source = src, wq_message = msg\<rparr>
              in (case queue_send (WIFI_CAPABLE_QUEUE_DEPTH cfg) (cw_queue w) item of
                    None \<Rightarrow> (False, w) | Some q \<Rightarrow> (True, w\<lparr>cw_queue := q\<rparr>))
      | _ \<Rightarrow> (False, w))"

definition ptp_wifi_capable_result :: "capable_worker \<Rightarrow> (ptp_wifi_capable_result \<times> capable_worker) option" where
  "ptp_wifi_capable_result w =
     (if \<not> cw_ready w then None
      else map_option (\<lambda>(r, q). (r, w\<lparr>cw_results := q\<rparr>)) (queue_receive (cw_results w)))"

section \<open>The interval probe\<close>

record interval_probe =
  ip_port_index :: int
  ip_generation :: u32
  ip_ap :: bool
  ip_source_mac :: bytes
  ip_source_port :: bytes
  ip_destination :: bytes
  ip_target_port :: bytes

definition interval_probe_frame :: "ptp_config \<Rightarrow> interval_probe \<Rightarrow> u16 \<Rightarrow> int \<Rightarrow> bool \<Rightarrow> bytes" where
  "interval_probe_frame cfg probe sequence interval wrong_identity =
     (let frame = replicate 72 0;
          frame = splice 0 (ip_destination probe @ ip_source_mac probe) frame;
          frame = frame[12 := 0x88, 13 := 0xf7];
          frame = frame[14 := 0x1c, 15 := 0x12, 17 := 58, 18 := cf_domain cfg];
          frame = splice 34 (ip_source_port probe) frame;
          frame = (if wrong_identity then frame[43 := xor (frame ! 43) 0x40] else frame);
          frame = frame[44 := ucast (drop_bit 8 sequence), 45 := ucast sequence, 47 := 127];
          frame = splice 48 (ip_target_port probe) frame;
          frame = splice 58 [0x80, 0, 0, 10, 0, 0x80, 0xc2, 0, 0, 5, 0, 0, 0, 0] frame
      in frame[68 := word_of_int interval])"

definition sync_interval_probe_frame :: "ptp_config \<Rightarrow> interval_probe \<Rightarrow> u16 \<Rightarrow> int \<Rightarrow> bool \<Rightarrow> bytes" where
  "sync_interval_probe_frame cfg probe sequence interval wrong_identity =
     (let frame = interval_probe_frame cfg probe sequence interval wrong_identity @ [0, 0];
          frame = frame[17 := 60];
          frame = splice 58 [0, 3, 0, 12, 0, 0x80, 0xc2, 0, 0, 2, 128, 0, 128, 0, 0, 0] frame
      in frame[69 := word_of_int interval])"

text \<open>The stages: an interval, whether the identity is wrong, and the wait that follows in ms.\<close>

definition probe_stages :: "bool \<Rightarrow> (int \<times> bool \<times> nat) list" where
  "probe_stages sync =
     (if sync then [(127, True, 4000), (0, False, 4000), (127, False, 5000), (-128, False, 3000), (126, False, 15000), (-3, False, 3000), (126, False, 0)]
      else [(1, False, 16000), (-3, False, 3000), (127, True, 2000), (-4, False, 2000), (127, False, 3000), (126, False, 5000), (126, False, 0)])"

text \<open>The task ends with the association; \<open>generations\<close> are those of the links at each stage.\<close>

fun interval_probe_task ::
  "ptp_config \<Rightarrow> bool \<Rightarrow> interval_probe \<Rightarrow> (nat \<Rightarrow> u32 list) \<Rightarrow> nat \<Rightarrow> (int \<times> bool \<times> nat) list \<Rightarrow> (bool \<times> bytes) list" where
  "interval_probe_task cfg sync probe generations index [] = []"
| "interval_probe_task cfg sync probe generations index ((interval, wrong_identity, wait_ms) # stages) =
     (if ip_generation probe \<noteq> ptp_wifi_link_generation cfg (generations index) (ip_port_index probe) then []
      else (ip_ap probe, (if sync then sync_interval_probe_frame else interval_probe_frame) cfg probe (word_of_nat (index + 1)) interval wrong_identity)
             # interval_probe_task cfg sync probe generations (index + 1) stages)"

definition ptp_wifi_interval_probe_start :: "interval_probe \<Rightarrow> bool \<Rightarrow> bool \<times> interval_probe option \<Rightarrow> bool \<times> interval_probe option" where
  "ptp_wifi_interval_probe_start probe task_ok z =
     (let (started, old) = z in if started then z else (task_ok, Some probe))"

section \<open>Every station gets its own copy\<close>

lemma begin_current:
  assumes "ptpd_wifi_announce_begin cfg d p (Some m) association revision information initial now_us = (token, out, d')" "token \<noteq> 0"
  shows "peers_lookup (wifi_peers_at d (nat p)) m = Some association"
proof -
  obtain slot where "announce_slot cfg d (nat p) m association = Some slot"
    using assms by (auto simp: ptpd_wifi_announce_begin_def Let_def split: option.splits if_splits)
  then show ?thesis by (auto simp: announce_slot_def Let_def peers_lookup_def split: option.splits if_splits)
qed

lemma slice_update: "i < off \<or> off + n \<le> i \<Longrightarrow> slice off n (xs[i := x]) = slice off n xs"
  by (auto simp: slice_def drop_update_swap take_update_swap nth_equalityI list_eq_iff_nth_eq)

lemma announce_address_same:
  "same_information msg (announce_address msg peer adv sq)" "length (announce_address msg peer adv sq) = length msg"
  by (simp_all add: same_information_def announce_address_def slice_update)

lemma same_information_trans: "same_information a b \<Longrightarrow> same_information b c \<Longrightarrow> same_information a c"
  by (simp add: same_information_def)

text \<open>What is true of a copy that goes on the air to a station at a moment: the information of the
  queued message, the port number of the association, and that the time, the link, the source and
  the association were those the item was made for.\<close>

definition copy_ok :: "ptp_config \<Rightarrow> ap_announce_item \<Rightarrow> ptp_daemon \<Rightarrow> int \<Rightarrow> ptp_wifi_association_entry \<Rightarrow> bytes \<times> bytes \<Rightarrow> bool" where
  "copy_ok cfg item d now_us peer f \<longleftrightarrow>
     (\<exists>msg. f = (ae_mac peer, wifi_ap_send_unicast_ptp (ai_src_mac item) (ae_mac peer) msg) \<and>
        length msg = length (ai_msg item) \<and> same_information (ai_msg item) msg \<and>
        (34 \<le> length msg \<longrightarrow> msg ! 28 = word_of_nat (ae_port_number peer div 256) \<and> msg ! 29 = word_of_nat (ae_port_number peer))) \<and>
     ai_queued_us item \<le> now_us \<and> now_us < ai_queued_us item + 1000000 \<and>
     ai_generation item = ptp_wifi_link_generation cfg (dm_injected_generation d) (ai_port_index item) \<and>
     ai_source_generation item = ptpd_timing_generation d \<and>
     peers_lookup (wifi_peers_at d (nat (ai_port_index item))) (ae_mac peer) = Some (ae_association peer)"

text \<open>The daemon as the worker finds it when it comes to the station at a position.\<close>

definition daemon_before :: "ptp_config \<Rightarrow> u32 \<Rightarrow> ap_announce_item \<Rightarrow> (ptp_wifi_association_entry \<times> announce_env) list \<Rightarrow> ptp_daemon \<Rightarrow> nat \<Rightarrow> ptp_daemon" where
  "daemon_before cfg information item pes d k =
     ne_before (snd (pes ! k)) (fst (snd (announce_peers cfg information item (take k pes) d)))"

lemma announce_current_msg [simp]: "announce_current cfg d (item\<lparr>ai_msg := m\<rparr>) = announce_current cfg d item"
  by (simp add: announce_current_def fun_eq_iff)

lemma announce_peers_msg:
  "fst (snd (announce_peers cfg information (item\<lparr>ai_msg := m\<rparr>) pes d)) = fst (snd (announce_peers cfg information item pes d))"
proof (induction pes arbitrary: item m d)
  case (Cons pe rest)
  obtain peer env where "pe = (peer, env)" by (rule prod.exhaust)
  then show ?case by (simp add: Let_def split_beta Cons.IH)
qed simp

definition copied :: "ptp_config \<Rightarrow> u32 \<Rightarrow> ap_announce_item \<Rightarrow> (ptp_wifi_association_entry \<times> announce_env) list \<Rightarrow> ptp_daemon \<Rightarrow> bytes \<times> bytes \<Rightarrow> bool" where
  "copied cfg information item pes d f \<longleftrightarrow>
     (\<exists>k < length pes. copy_ok cfg item (daemon_before cfg information item pes d k) (ne_now_us (snd (pes ! k))) (fst (pes ! k)) f)"

lemma copied_now: "copy_ok cfg item (ne_before env d) (ne_now_us env) peer f \<Longrightarrow> copied cfg information item ((peer, env) # rest) d f"
  unfolding copied_def by (intro exI [of _ 0]) (simp add: daemon_before_def)

lemma copied_later:
  assumes "\<And>k. daemon_before cfg information item (pe # rest) d (Suc k) = daemon_before cfg information item rest d' k"
    and "copied cfg information item rest d' f"
  shows "copied cfg information item (pe # rest) d f"
proof -
  obtain k where "k < length rest" "copy_ok cfg item (daemon_before cfg information item rest d' k) (ne_now_us (snd (rest ! k))) (fst (rest ! k)) f"
    using assms(2) unfolding copied_def by blast
  then show ?thesis unfolding copied_def using assms(1) by (intro exI [of _ "Suc k"]) simp
qed

lemma copied_address:
  assumes "copied cfg information (item\<lparr>ai_msg := announce_address (ai_msg item) peer adv sq\<rparr>) pes d f"
  shows "copied cfg information item pes d f"
proof -
  let ?i = "item\<lparr>ai_msg := announce_address (ai_msg item) peer adv sq\<rparr>"
  have "daemon_before cfg information ?i pes d k = daemon_before cfg information item pes d k" for k
    by (simp add: daemon_before_def announce_peers_msg)
  moreover have "copy_ok cfg item e now_us q f" if "copy_ok cfg ?i e now_us q f" for e now_us q
    using that same_information_trans [OF announce_address_same(1)] by (auto simp: copy_ok_def announce_address_same(2))
  ultimately show ?thesis using assms unfolding copied_def by auto
qed

lemma announce_peers_copies:
  assumes "announce_peers cfg information item pes d = (n, d', frames)"
  shows "subseq (map fst frames) (map (\<lambda>q. ae_mac (fst q)) pes) \<and> n \<le> length frames \<and> (\<forall>f \<in> set frames. copied cfg information item pes d f)"
  using assms
proof (induction pes arbitrary: item d n d' frames)
  case (Cons pe rest)
  obtain peer env where pe: "pe = (peer, env)" by (rule prod.exhaust)
  define d1 where "d1 = ne_before env d"
  obtain token out d2 where b: "ptpd_wifi_announce_begin cfg d1 (ai_port_index item) (Some (ae_mac peer)) (ae_association peer)
      (ae_announce_revision peer) information (ai_initial_interval item) (ne_now_us env) = (token, out, d2)" by (rule prod_cases3)
  consider (stop) "\<not> announce_current cfg d1 item (ne_now_us env)" | (skip) "announce_current cfg d1 item (ne_now_us env)" "token = 0"
    | (send) "announce_current cfg d1 item (ne_now_us env)" "token \<noteq> 0" by blast
  then show ?case
  proof cases
    case stop
    then show ?thesis using Cons.prems pe by (simp add: d1_def)
  next
    case skip
    then have "announce_peers cfg information item rest d2 = (n, d', frames)" using Cons.prems pe b by (simp add: d1_def)
    note ih = Cons.IH [OF this]
    have "daemon_before cfg information item (pe # rest) d (Suc k) = daemon_before cfg information item rest d2 k" for k
      using skip pe b by (simp add: daemon_before_def d1_def)
    note later = copied_later [OF this]
    show ?thesis using ih pe later by (simp add: list_emb_Cons)
  next
    case send
    obtain adv sq where o: "the out = (adv, sq)" by (rule prod.exhaust)
    define item' where "item' = item\<lparr>ai_msg := announce_address (ai_msg item) peer adv sq\<rparr>"
    obtain c d3 where f: "ptpd_wifi_announce_finish cfg (ne_during env d2) (ai_port_index item) (Some (ae_mac peer)) (ae_association peer)
        token (ne_tx_ok env) (ne_done_us env) = (c, d3)" by (rule prod.exhaust)
    obtain k d4 fs where r: "announce_peers cfg information item' rest d3 = (k, d4, fs)" by (rule prod_cases3)
    have e: "frames = (ae_mac peer, wifi_ap_send_unicast_ptp (ai_src_mac item') (ae_mac peer) (ai_msg item')) # fs" "n \<le> k + 1"
      using Cons.prems pe send b o f r by (auto simp: d1_def [symmetric] item'_def Let_def split: if_splits)
    have "daemon_before cfg information item (pe # rest) d (Suc j) = daemon_before cfg information item rest d3 j" for j
      using send pe b o f by (simp add: daemon_before_def d1_def announce_peers_msg split_beta Let_def)
    note later = copied_later [OF this copied_address [of _ _ item peer adv sq, folded item'_def]]
    have "copy_ok cfg item d1 (ne_now_us env) peer (ae_mac peer, wifi_ap_send_unicast_ptp (ai_src_mac item') (ae_mac peer) (ai_msg item'))"
      using send(1) begin_current [OF b send(2)] announce_address_same [of "ai_msg item" peer adv sq]
      by (auto simp: copy_ok_def item'_def announce_address_def announce_current_def intro!: exI [of _ "ai_msg item'"])
    then have "copied cfg information item (pe # rest) d (hd frames)" using e pe by (simp add: copied_now d1_def)
    then show ?thesis using Cons.IH [OF r] e pe later by simp
  qed
qed simp

text \<open>C11. The worker sends each station at most one copy of an Announce, in the order of the
  registry.  When it sends a copy it finds the daemon on the link and with the time source the item
  was queued for, less than a second before, and the station in the association the item was made
  for; the copy carries that station's port number, and otherwise the information that was queued.
  What it reports as sent never exceeds the copies.\<close>

theorem announce_copies:
  assumes "ap_send_announce_now cfg item started_us envs (infos, d) = (n, z, frames)"
  shows "subseq (map fst frames) (map ae_mac (ai_peers item)) \<and> n \<le> length frames \<and>
    (\<forall>f \<in> set frames. \<exists>k < length (ai_peers item).
       copy_ok cfg item (daemon_before cfg (fst (ap_announce_information cfg item infos)) item (peers_with envs (ai_peers item)) d k)
         (ne_now_us (envs k)) (ai_peers item ! k) f)"
proof -
  obtain information infos' where i: "ap_announce_information cfg item infos = (information, infos')" by (rule prod.exhaust)
  obtain m d1 fs where p: "announce_peers cfg information item (peers_with envs (ai_peers item)) d = (m, d1, fs)" by (rule prod_cases3)
  have f: "map fst (peers_with envs (ai_peers item)) = ai_peers item" by (simp add: peers_with_def comp_def map_nth)
  have q: "map (\<lambda>q. ae_mac (fst q)) (peers_with envs (ai_peers item)) = map ae_mac (ai_peers item)"
    using arg_cong [OF f, of "map ae_mac"] by (simp add: comp_def)
  have "peers_with envs (ai_peers item) ! k = (ai_peers item ! k, envs k)" if "k < length (ai_peers item)" for k
    using that by (simp add: peers_with_def)
  moreover have "length (peers_with envs (ai_peers item)) = length (ai_peers item)" by (simp add: peers_with_def)
  ultimately have c: "copied cfg information item (peers_with envs (ai_peers item)) d f \<longleftrightarrow> (\<exists>k < length (ai_peers item).
       copy_ok cfg item (daemon_before cfg information item (peers_with envs (ai_peers item)) d k) (ne_now_us (envs k)) (ai_peers item ! k) f)" for f
    unfolding copied_def by auto
  have "(n, frames) = (0, []) \<or> (n, frames) = (m, fs)"
    using assms by (simp add: ap_send_announce_now_def i p Let_def split: if_split_asm)
  then show ?thesis using announce_peers_copies [OF p] q c i by auto
qed

definition announce_item_example :: ap_announce_item where
  "announce_item_example = \<lparr>ai_port_index = 1, ai_generation = ptp_wifi_link_generation config_default (dm_injected_generation access_point_example) 1,
     ai_source_generation = ptpd_timing_generation access_point_example, ai_queued_us = 5,
     ai_peers = [\<lparr>ae_mac = [2,0,0,0,0,1], ae_port_number = 3, ae_association = 2, ae_sync_stopped = False, ae_sync_revision = 0, ae_announce_revision = 0\<rparr>],
     ai_initial_interval = 0, ai_src_mac = [1,1,1,1,1,1], ai_msg = replicate 64 0\<rparr>"

definition announce_env_example :: announce_env where
  "announce_env_example = \<lparr>ne_before = (\<lambda>d. d), ne_now_us = 9, ne_during = (\<lambda>d. d), ne_tx_ok = True, ne_done_us = 12\<rparr>"

theorem announce_copies_witness:
  "\<exists>z f. ap_send_announce_now config_default announce_item_example 7 (\<lambda>_. announce_env_example)
      (replicate 2 \<lparr>nf_revision = 0, nf_message = []\<rparr>, access_point_example) = (1, z, [f]) \<and> fst f = [2,0,0,0,0,1] \<and>
    copy_ok config_default announce_item_example access_point_example 9 (ai_peers announce_item_example ! 0) f"
proof -
  have "(case ap_send_announce_now config_default announce_item_example 7 (\<lambda>_. announce_env_example)
      (replicate 2 \<lparr>nf_revision = 0, nf_message = []\<rparr>, access_point_example) of (n, z, frames) \<Rightarrow> (n, map fst frames)) = (1, [[2,0,0,0,0,1]])"
    by code_simp
  then obtain z f where f: "ap_send_announce_now config_default announce_item_example 7 (\<lambda>_. announce_env_example)
      (replicate 2 \<lparr>nf_revision = 0, nf_message = []\<rparr>, access_point_example) = (1, z, [f])" "fst f = [2,0,0,0,0,1]"
    by (auto split: prod.splits)
  have "length (ai_peers announce_item_example) = 1" by (simp add: announce_item_example_def)
  then show ?thesis using f announce_copies [OF f(1)]
    by (auto simp: daemon_before_def peers_with_def announce_env_example_def)
qed

section \<open>Revisions of the information\<close>

text \<open>The revision a port announces with is never zero, and it moves exactly when the
  information differs from the last that was announced: the message is longer or shorter, or its
  domain, flags, source or body changed.  Time stamps and sequence numbers do not move it.\<close>

theorem information_revision:
  assumes "valid_port cfg (ai_port_index item)" "length infos = cf_num_ports cfg"
    and "ap_announce_information cfg item infos = (r, infos')"
  shows "let p = nat (ai_port_index item) in
    r \<noteq> 0 \<and> nf_revision (infos' ! p) = r \<and> same_information (nf_message (infos' ! p)) (ai_msg item) \<and>
    (r = nf_revision (infos ! p) \<longleftrightarrow> nf_revision (infos ! p) \<noteq> 0 \<and> same_information (nf_message (infos ! p)) (ai_msg item)) \<and>
    (\<forall>q < length infos. q \<noteq> p \<longrightarrow> infos' ! q = infos ! q)"
proof -
  define p where "p = nat (ai_port_index item)"
  have p: "p < length infos" using assms(1, 2) unfolding p_def by (auto simp: valid_port_def)
  have s: "same_information m m" for m by (simp add: same_information_def)
  have n: "w + 1 \<noteq> w" "w + 1 = 0 \<Longrightarrow> w \<noteq> 1" for w :: u32 by auto
  show ?thesis
    using assms(1, 3) p s n unfolding p_def [symmetric]
    by (auto simp: ap_announce_information_def Let_def simp flip: p_def split: if_splits)
qed

theorem information_revision_witness:
  "\<exists>r infos'. ap_announce_information config_default announce_item_example (replicate 2 \<lparr>nf_revision = 7, nf_message = replicate 64 0\<rparr>) = (r, infos') \<and> r = 7"
proof -
  define infos where "infos = replicate 2 \<lparr>nf_revision = 7 :: u32, nf_message = replicate 64 (0 :: u8)\<rparr>"
  obtain r infos' where a: "ap_announce_information config_default announce_item_example infos = (r, infos')" by (rule prod.exhaust)
  have h: "valid_port config_default (ai_port_index announce_item_example)" "length infos = cf_num_ports config_default"
    "nf_revision (infos ! nat (ai_port_index announce_item_example)) = 7"
    "same_information (nf_message (infos ! nat (ai_port_index announce_item_example))) (ai_msg announce_item_example)"
    unfolding infos_def by code_simp+
  have "r = 7" using information_revision [OF h(1, 2) a] h(3, 4) by (simp add: Let_def)
  then show ?thesis using a unfolding infos_def by blast
qed

section \<open>Completions of capability messages\<close>

interpretation os_queue: bounded_fifo "\<lambda>q. q" "\<lambda>q. length q \<le> n" "queue_send n" queue_receive n for n
  by unfold_locales (auto simp: queue_send_def)

definition result_key :: "ptp_wifi_capable_result \<Rightarrow> bytes \<times> u32 \<times> u32" where
  "result_key r = (wr_destination r, wr_association r, wr_token r)"

text \<open>The worker and the daemon in any order: what was accepted for transmission, what went on the
  air, what the daemon has received of the results.\<close>

inductive capable_run :: "ptp_config \<Rightarrow> capable_worker \<Rightarrow> (bytes \<times> u32 \<times> u32) list \<Rightarrow> (bool \<times> bytes) list \<Rightarrow> ptp_wifi_capable_result list \<Rightarrow> bool"
  for cfg where
  start: "capable_run cfg worker_zero [] [] []"
| send: "capable_run cfg w keys air got \<Longrightarrow>
    ptp_wifi_send_capable_peer cfg created now_us p ap (Some src) (Some dst) generation association token (Some msg) w = (ok, w') \<Longrightarrow>
    capable_run cfg w' (if ok then keys @ [(dst, association, token)] else keys) air got"
| work: "capable_run cfg w keys air got \<Longrightarrow> wifi_capable_task cfg d now_us tx_ok done_us w = (w', frame) \<Longrightarrow>
    capable_run cfg w' keys (air @ (case frame of None \<Rightarrow> [] | Some f \<Rightarrow> [f])) got"
| result: "capable_run cfg w keys air got \<Longrightarrow> ptp_wifi_capable_result w = Some (r, w') \<Longrightarrow>
    capable_run cfg w' keys air (got @ [r])"

definition on_air :: "(bool \<times> bytes) list \<Rightarrow> ptp_wifi_capable_result \<Rightarrow> bool" where
  "on_air air r \<longleftrightarrow> (wr_accepted r \<longrightarrow>
     (\<exists>ap src msg. (ap, wr_destination r @ src @ [0x88, 0xf7] @ msg) \<in> set air \<and> length msg = PTP_CAPABLE_MESSAGE_LENGTH))"

definition worker_inv :: "ptp_config \<Rightarrow> capable_worker \<Rightarrow> (bytes \<times> u32 \<times> u32) list \<Rightarrow> (bool \<times> bytes) list \<Rightarrow> ptp_wifi_capable_result list \<Rightarrow> bool" where
  "worker_inv cfg w keys air got \<longleftrightarrow>
     subseq (map result_key got @ map result_key (cw_results w) @ map (result_key \<circ> wq_result) (cw_queue w)) keys \<and>
     length (cw_queue w) \<le> WIFI_CAPABLE_QUEUE_DEPTH cfg \<and> length (cw_results w) \<le> WIFI_CAPABLE_QUEUE_DEPTH cfg \<and>
     (\<forall>r \<in> set (got @ cw_results w). on_air air r) \<and> (\<forall>q \<in> set (cw_queue w). length (wq_message q) = PTP_CAPABLE_MESSAGE_LENGTH) \<and>
     (\<not> cw_ready w \<longrightarrow> w = worker_zero)"

lemma on_air_more: "on_air air r \<Longrightarrow> on_air (air @ xs) r"
  by (auto simp: on_air_def)

lemma send_inv:
  assumes "worker_inv cfg w keys air got"
    and "ptp_wifi_send_capable_peer cfg created now_us p ap (Some src) (Some dst) generation association token (Some msg) w = (ok, w')"
  shows "worker_inv cfg w' (if ok then keys @ [(dst, association, token)] else keys) air got"
proof -
  obtain ready v where v: "wifi_capable_prepare created w = (ready, v)" by (rule prod.exhaust)
  have i: "worker_inv cfg v keys air got" and r: "ready \<longleftrightarrow> cw_ready v"
    using v assms(1) by (auto simp: wifi_capable_prepare_def worker_inv_def worker_zero_def split: if_splits)
  show ?thesis
  proof (cases "w' = w \<and> \<not> ok \<or> w' = v \<and> \<not> ok")
    case True
    then show ?thesis using assms(1) i by auto
  next
    case False
    then obtain item where q: "queue_send (WIFI_CAPABLE_QUEUE_DEPTH cfg) (cw_queue v) item = Some (cw_queue w')" "w' = v\<lparr>cw_queue := cw_queue w'\<rparr>" "ok"
      "result_key (wq_result item) = (dst, association, token)" "length (wq_message item) = PTP_CAPABLE_MESSAGE_LENGTH" "cw_ready v"
      using assms(2) v r
      by (auto simp: ptp_wifi_send_capable_peer_def Let_def result_key_def split: if_splits option.splits)
    have c: "cw_queue w' = cw_queue v @ [item]" "length (cw_queue w') \<le> WIFI_CAPABLE_QUEUE_DEPTH cfg"
      using os_queue.push_content [OF _ q(1)] i by (auto simp: worker_inv_def)
    have "subseq ((map result_key got @ map result_key (cw_results v) @ map (result_key \<circ> wq_result) (cw_queue v)) @ [(dst, association, token)])
        (keys @ [(dst, association, token)])"
      using i by (intro list_emb_append_mono) (auto simp: worker_inv_def)
    moreover have "cw_results w' = cw_results v" "cw_ready w'" using q(2, 6) by (metis capable_worker.select_convs capable_worker.surjective capable_worker.update_convs(2))+
    ultimately show ?thesis using i c q(3-5) by (auto simp: worker_inv_def)
  qed
qed

lemma work_inv:
  assumes "worker_inv cfg w keys air got" "wifi_capable_task cfg d now_us tx_ok done_us w = (w', frame)"
  shows "worker_inv cfg w' keys (air @ (case frame of None \<Rightarrow> [] | Some f \<Rightarrow> [f])) got"
proof (cases "cw_queue w")
  case Nil
  then show ?thesis using assms by (auto simp: wifi_capable_task_def)
next
  case (Cons item queue)
  obtain ok where s: "wifi_capable_send_to cfg d item (wr_destination (wq_result item)) now_us tx_ok = (ok, frame)"
    using assms(2) Cons by (auto simp: wifi_capable_task_def Let_def split_beta prod_eq_iff)
  define r where "r = (wq_result item)\<lparr>wr_accepted := ok, wr_completed_us := done_us\<rparr>"
  define air' where "air' = air @ (case frame of None \<Rightarrow> [] | Some f \<Rightarrow> [f])"
  have k: "result_key r = result_key (wq_result item)" by (simp add: r_def result_key_def)
  have l: "length (wq_message item) = PTP_CAPABLE_MESSAGE_LENGTH" using assms(1) Cons by (simp add: worker_inv_def)
  have a: "on_air air' r"
    using s l by (auto simp: on_air_def air'_def r_def wifi_capable_send_to_def split: if_splits)
  have old: "on_air air' x" if "x \<in> set (got @ cw_results w)" for x
    using assms(1) that on_air_more unfolding worker_inv_def air'_def by blast
  have w': "w' = w\<lparr>cw_queue := queue, cw_results := (case queue_send (WIFI_CAPABLE_QUEUE_DEPTH cfg) (cw_results w) r of
      None \<Rightarrow> cw_results w | Some q \<Rightarrow> q)\<rparr>"
    using assms(2) Cons s by (simp add: wifi_capable_task_def r_def Let_def)
  have ready: "cw_ready w" using assms(1) Cons by (auto simp: worker_inv_def worker_zero_def)
  have sub: "subseq (map result_key got @ map result_key (cw_results w) @ result_key r # map (result_key \<circ> wq_result) queue) keys"
    using assms(1) Cons by (simp add: worker_inv_def k)
  have short: "subseq (map result_key got @ map result_key (cw_results w) @ map (result_key \<circ> wq_result) queue) keys"
    by (rule subseq_order.trans [OF _ sub]) (intro list_emb_append_mono list_emb_Cons; simp)
  show ?thesis
    using assms(1) w' sub short a old ready Cons unfolding worker_inv_def air'_def [symmetric]
    by (auto simp: queue_send_def)
qed

lemma result_inv:
  assumes "worker_inv cfg w keys air got" "ptp_wifi_capable_result w = Some (r, w')"
  shows "worker_inv cfg w' keys air (got @ [r])"
proof -
  obtain q where "cw_results w = r # q" "w' = w\<lparr>cw_results := q\<rparr>" "cw_ready w"
    using assms(2) by (cases "cw_results w") (auto simp: ptp_wifi_capable_result_def split: if_splits)
  then show ?thesis using assms(1) by (auto simp: worker_inv_def)
qed

lemma capable_run_inv: "capable_run cfg w keys air got \<Longrightarrow> worker_inv cfg w keys air got"
proof (induction rule: capable_run.induct)
  case start
  show ?case by (simp add: worker_inv_def worker_zero_def)
next
  case (send w keys air got created now_us p ap src dst generation association token msg ok w')
  show ?case by (rule send_inv [OF send.IH send.hyps(2)])
next
  case (work w keys air got d now_us tx_ok done_us w' frame)
  show ?case by (rule work_inv [OF work.IH work.hyps(2)])
next
  case (result w keys air got r w')
  show ?case by (rule result_inv [OF result.IH result.hyps(2)])
qed

text \<open>C12. The daemon and the worker in any order: the results the daemon receives are those of
  requests that were accepted, each at most once and in their order, with their station, association
  and token; a result that says a message was accepted by the radio belongs to a frame that was
  handed to it, addressed to that station; and neither queue ever exceeds its depth.\<close>

theorem capable_results_in_order:
  assumes "capable_run cfg w keys air got"
  shows "subseq (map result_key got) keys \<and>
    (\<forall>r \<in> set got. wr_accepted r \<longrightarrow> (\<exists>ap src msg. (ap, wr_destination r @ src @ [0x88, 0xf7] @ msg) \<in> set air \<and>
        length msg = PTP_CAPABLE_MESSAGE_LENGTH)) \<and>
    length (cw_queue w) \<le> WIFI_CAPABLE_QUEUE_DEPTH cfg \<and> length (cw_results w) \<le> WIFI_CAPABLE_QUEUE_DEPTH cfg"
proof -
  have i: "worker_inv cfg w keys air got" by (rule capable_run_inv [OF assms])
  have "subseq (map result_key got) (map result_key got @ map result_key (cw_results w) @ map (result_key \<circ> wq_result) (cw_queue w))"
    by (rule prefix_imp_subseq) simp
  then have "subseq (map result_key got) keys" using i subseq_order.trans unfolding worker_inv_def by blast
  then show ?thesis using i by (auto simp: worker_inv_def on_air_def)
qed

definition capable_worker_example :: capable_worker where
  "capable_worker_example = snd (ptp_wifi_send_capable_peer config_default True 5 1 True (Some [1,1,1,1,1,1]) (Some [2,0,0,0,0,1]) 0 4 9
     (Some (replicate 60 7)) worker_zero)"

theorem capable_results_in_order_witness:
  "\<exists>w r. capable_run config_default w [([2,0,0,0,0,1], 4, 9)] [(True, [2,0,0,0,0,1] @ [1,1,1,1,1,1] @ [0x88, 0xf7] @ replicate 60 7)] [r] \<and>
     wr_accepted r \<and> wr_token r = 9 \<and> length (cw_results w) \<le> 32"
proof -
  define w1 where "w1 = capable_worker_example"
  have s: "ptp_wifi_send_capable_peer config_default True 5 1 True (Some [1,1,1,1,1,1]) (Some [2,0,0,0,0,1]) 0 4 9 (Some (replicate 60 7)) worker_zero = (True, w1)"
    unfolding w1_def capable_worker_example_def by code_simp
  define w2 where "w2 = fst (wifi_capable_task config_default (daemon_zero 2) 8 True 10 w1)"
  have t: "wifi_capable_task config_default (daemon_zero 2) 8 True 10 w1 =
      (w2, Some (True, [2,0,0,0,0,1] @ [1,1,1,1,1,1] @ [0x88, 0xf7] @ replicate 60 7))"
    unfolding w2_def w1_def by code_simp
  have "map_option (\<lambda>(r, w3). wr_accepted r \<and> wr_token r = 9) (ptp_wifi_capable_result w2) = Some True"
    unfolding w2_def w1_def by code_simp
  then obtain r w3 where g: "ptp_wifi_capable_result w2 = Some (r, w3)" "wr_accepted r" "wr_token r = 9" by auto
  have "capable_run config_default w3 [([2,0,0,0,0,1], 4, 9)] [(True, [2,0,0,0,0,1] @ [1,1,1,1,1,1] @ [0x88, 0xf7] @ replicate 60 7)] [r]"
    using capable_run.result [OF capable_run.work [OF capable_run.send [OF capable_run.start s] t] g(1)] by simp
  moreover from capable_results_in_order [OF this] have "length (cw_results w3) \<le> 32"
    by (simp add: WIFI_CAPABLE_QUEUE_DEPTH_def config_default_def)
  ultimately show ?thesis using g by blast
qed

section \<open>The probe speaks the protocol\<close>

definition probe_identity :: "interval_probe \<Rightarrow> bool \<Rightarrow> bytes" where
  "probe_identity probe wrong_identity =
     (let sp = ip_source_port probe in if wrong_identity then sp[9 := xor (sp ! 9) 0x40] else sp)"

definition probe_ok :: "interval_probe \<Rightarrow> bool" where
  "probe_ok probe \<longleftrightarrow> length (ip_source_mac probe) = 6 \<and> length (ip_destination probe) = 6 \<and>
     length (ip_source_port probe) = 10 \<and> length (ip_target_port probe) = 10"

lemma length6E:
  assumes "length (xs :: 'a list) = 6"
  obtains a b c d e f where "xs = [a, b, c, d, e, f]"
proof -
  have "\<exists>a b c d e f. xs = [a, b, c, d, e, f]" using assms by (auto simp: length_Suc_conv eval_nat_numeral)
  then show thesis using that by blast
qed

lemma let_eval: "e = v \<Longrightarrow> f v = r \<Longrightarrow> Let e f = r"
  by simp

lemma probe_shape:
  assumes "probe_ok probe"
  shows "interval_probe_frame cfg probe sequence interval wrong = ip_destination probe @ ip_source_mac probe @ [0x88, 0xf7] @
    [0x1c, 0x12, 0, 58, cf_domain cfg, 0, 0, 0, 0, 0, 0, 0, 0, 0, 0, 0, 0, 0, 0, 0] @ probe_identity probe wrong @
    [ucast (drop_bit 8 sequence), ucast sequence, 0, 0x7f] @ ip_target_port probe @
    [0x80, 0, 0, 10, 0, 0x80, 0xc2, 0, 0, 5, word_of_int interval, 0, 0, 0]"
proof -
  have l: "length (ip_destination probe) = 6" "length (ip_source_mac probe) = 6" "length (ip_source_port probe) = 10"
    "length (ip_target_port probe) = 10" using assms by (simp_all add: probe_ok_def)
  from l(1) obtain a1 a2 a3 a4 a5 a6 where a: "ip_destination probe = [a1, a2, a3, a4, a5, a6]" by (rule length6E)
  from l(2) obtain b1 b2 b3 b4 b5 b6 where b: "ip_source_mac probe = [b1, b2, b3, b4, b5, b6]" by (rule length6E)
  from l(3) obtain c1 c2 c3 c4 c5 c6 c7 c8 c9 c10 where c: "ip_source_port probe = [c1, c2, c3, c4, c5, c6, c7, c8, c9, c10]"
    by (rule length10E)
  from l(4) obtain e1 e2 e3 e4 e5 e6 e7 e8 e9 e10 where e: "ip_target_port probe = [e1, e2, e3, e4, e5, e6, e7, e8, e9, e10]"
    by (rule length10E)
  show ?thesis
    unfolding interval_probe_frame_def probe_identity_def a b c e
    by (cases wrong; (rule let_eval, simp add: splice_def numeral_eq_Suc)+, simp add: numeral_eq_Suc)
qed

lemma sync_probe_shape:
  assumes "probe_ok probe"
  shows "sync_interval_probe_frame cfg probe sequence interval wrong = ip_destination probe @ ip_source_mac probe @ [0x88, 0xf7] @
    [0x1c, 0x12, 0, 60, cf_domain cfg, 0, 0, 0, 0, 0, 0, 0, 0, 0, 0, 0, 0, 0, 0, 0] @ probe_identity probe wrong @
    [ucast (drop_bit 8 sequence), ucast sequence, 0, 0x7f] @ ip_target_port probe @
    [0, 3, 0, 12, 0, 0x80, 0xc2, 0, 0, 2, 128, word_of_int interval, 128, 0, 0, 0]"
proof -
  have l: "length (ip_destination probe) = 6" "length (ip_source_mac probe) = 6" "length (ip_target_port probe) = 10"
    using assms by (simp_all add: probe_ok_def)
  have i: "length (probe_identity probe wrong) = 10" using assms by (simp add: probe_ok_def probe_identity_def Let_def)
  from l(1) obtain a1 a2 a3 a4 a5 a6 where a: "ip_destination probe = [a1, a2, a3, a4, a5, a6]" by (rule length6E)
  from l(2) obtain b1 b2 b3 b4 b5 b6 where b: "ip_source_mac probe = [b1, b2, b3, b4, b5, b6]" by (rule length6E)
  from i obtain c1 c2 c3 c4 c5 c6 c7 c8 c9 c10 where c: "probe_identity probe wrong = [c1, c2, c3, c4, c5, c6, c7, c8, c9, c10]"
    by (rule length10E)
  from l(3) obtain e1 e2 e3 e4 e5 e6 e7 e8 e9 e10 where e: "ip_target_port probe = [e1, e2, e3, e4, e5, e6, e7, e8, e9, e10]"
    by (rule length10E)
  show ?thesis
    unfolding sync_interval_probe_frame_def probe_shape [OF assms] a b c e
    by ((rule let_eval, simp add: splice_def numeral_eq_Suc)+, simp add: numeral_eq_Suc)
qed

text \<open>A message with one TLV, addressed to the port that reads it.\<close>

lemma find_tlv_addressed:
  assumes "length sp = 10" "length lp = 10" "take 8 sp \<noteq> take 8 lp"
    and "m = [0x1c, 0x12, 0, n, domain, 0, 0, 0, 0, 0, 0, 0, 0, 0, 0, 0, 0, 0, 0, 0] @ sp @ [s1, s0, 0, 0x7f] @ lp @ tlv"
    and "length m = unat n" "sig_walk m (unat n) subtype 44 0 None = SIG_FOUND 44" "44 \<le> unat n"
  shows "ptp_signaling_find_tlv (Some m) (length m) domain (Some lp) subtype = SIG_FOUND 44 \<and> slice 20 10 m = sp"
proof -
  have len: "message_length m = unat n" unfolding assms(4) by (simp add: message_length_def be16_def)
  have f: "slice 20 8 m = take 8 sp" "slice 20 10 m = sp" "slice 34 10 m = lp"
    unfolding assms(4) using assms(1, 2) by (simp_all add: slice_def)
  have "m ! 0 = 0x1c" "m ! 1 = 0x12" "m ! 4 = domain" "m ! 5 = 0" unfolding assms(4) by simp_all
  then show ?thesis using len f assms(3, 5-7) by (simp add: ptp_signaling_find_tlv_def)
qed

text \<open>C29. The bench's own encoder of interval requests agrees with the daemon's: a frame it makes for
  all ports carries exactly the message the daemon's writer makes, and the port a frame is
  addressed to reads back the identity of the sender, which is not its own when the probe asks for
  a wrong one, and the requested interval, in a request for the interval of capability messages as
  in one for the interval of Sync messages.\<close>

theorem probe_speaks_protocol:
  assumes "probe_ok probe" "in_i8 interval" "take 8 (ip_source_port probe) \<noteq> take 8 (ip_target_port probe)"
  shows "ptp_signaling_read_capable_interval (Some (drop 14 (interval_probe_frame cfg probe sequence interval wrong))) 58 (cf_domain cfg)
      (Some (ip_target_port probe)) = SIG_FOUND \<lparr>cm_source_port = probe_identity probe wrong, cm_log_interval = interval\<rparr> \<and>
    ptp_signaling_read_message_interval (Some (drop 14 (sync_interval_probe_frame cfg probe sequence interval wrong))) 60 (cf_domain cfg)
      (Some (ip_target_port probe)) = SIG_FOUND \<lparr>im_source_port = probe_identity probe wrong, im_log_link_delay = -128,
        im_log_sync = interval, im_log_announce = -128, im_flags = 0\<rparr> \<and>
    (ip_target_port probe = replicate 10 255 \<and> \<not> wrong \<and> (-24 \<le> interval \<and> interval \<le> 24 \<or> interval \<in> {-128, 126, 127}) \<longrightarrow>
      ptp_signaling_write_capable_interval 58 (Some (ip_source_port probe)) (cf_domain cfg) sequence interval =
        Some (drop 14 (interval_probe_frame cfg probe sequence interval wrong))) \<and>
    (probe_identity probe wrong = ip_source_port probe \<longleftrightarrow> \<not> wrong)"
proof -
  have l: "length (ip_destination probe) = 6" "length (ip_source_mac probe) = 6" "length (ip_source_port probe) = 10"
    "length (ip_target_port probe) = 10" using assms(1) by (simp_all add: probe_ok_def)
  have i: "length (probe_identity probe wrong) = 10" using l(3) by (simp add: probe_identity_def Let_def)
  have t: "take 8 (probe_identity probe wrong) = take 8 (ip_source_port probe)" by (simp add: probe_identity_def Let_def)
  have "bit (xor c 0x40) 6 \<longleftrightarrow> \<not> bit c 6" for c :: u8 by (simp add: bit_xor_iff bit_numeral_word_iff)
  then have x: "xor c 0x40 \<noteq> c" for c :: u8 by metis
  have "probe_identity probe True ! 9 = xor (ip_source_port probe ! 9) 0x40" using l(3) by (simp add: probe_identity_def Let_def)
  then have w: "probe_identity probe wrong = ip_source_port probe \<longleftrightarrow> \<not> wrong"
    using x not_sym [OF x] by (cases wrong) (auto simp: probe_identity_def Let_def)
  define m where "m = drop 14 (interval_probe_frame cfg probe sequence interval wrong)"
  define q where "q = drop 14 (sync_interval_probe_frame cfg probe sequence interval wrong)"
  have m: "m = [0x1c, 0x12, 0, 58, cf_domain cfg, 0, 0, 0, 0, 0, 0, 0, 0, 0, 0, 0, 0, 0, 0, 0] @ probe_identity probe wrong @
      [ucast (drop_bit 8 sequence), ucast sequence, 0, 0x7f] @ ip_target_port probe @ [0x80, 0, 0, 10, 0, 0x80, 0xc2, 0, 0, 5, word_of_int interval, 0, 0, 0]"
    using l(1, 2) by (simp add: m_def probe_shape [OF assms(1)])
  have q: "q = [0x1c, 0x12, 0, 60, cf_domain cfg, 0, 0, 0, 0, 0, 0, 0, 0, 0, 0, 0, 0, 0, 0, 0] @ probe_identity probe wrong @
      [ucast (drop_bit 8 sequence), ucast sequence, 0, 0x7f] @ ip_target_port probe @
      [0, 3, 0, 12, 0, 0x80, 0xc2, 0, 0, 2, 128, word_of_int interval, 128, 0, 0, 0]"
    using l(1, 2) by (simp add: q_def sync_probe_shape [OF assms(1)])
  have n: "length m = 58" "length q = 60" unfolding m q using i l(4) by simp_all
  have at: "m ! (44 + k) = [0x80, 0, 0, 10, 0, 0x80, 0xc2, 0, 0, 5, word_of_int interval, 0, 0, 0] ! k"
    "q ! (44 + k) = [0, 3, 0, 12, 0, 0x80, 0xc2, 0, 0, 2, 128, word_of_int interval, 128, 0, 0, 0] ! k" for k
    unfolding m q using i l(4) by (simp_all add: nth_append)
  note at' = at [of 0, simplified] at [of 1, simplified] at [of 2, simplified] at [of 3, simplified] at [of 4, simplified] at [of 5, simplified]
    at [of 6, simplified] at [of 7, simplified] at [of 8, simplified] at [of 9, simplified] at [of 10, simplified] at [of 11, simplified]
    at [of 12, simplified] at [of 13, simplified]
  have f1: "ptp_signaling_find_tlv (Some m) (length m) (cf_domain cfg) (Some (ip_target_port probe)) 5 = SIG_FOUND 44 \<and>
      slice 20 10 m = probe_identity probe wrong"
    by (rule find_tlv_addressed [OF i l(4) _ m])
      (use assms(3) t n in \<open>auto intro!: sig_walk_last [where body = 10] simp: tlv_known_def tlv_is_8021_def be16_def Let_def at'\<close>)
  have f2: "ptp_signaling_find_tlv (Some q) (length q) (cf_domain cfg) (Some (ip_target_port probe)) 2 = SIG_FOUND 44 \<and>
      slice 20 10 q = probe_identity probe wrong"
    by (rule find_tlv_addressed [OF i l(4) _ q])
      (use assms(3) t n in \<open>auto intro!: sig_walk_last [where body = 12] simp: tlv_known_def tlv_is_8021_def be16_def Let_def at'\<close>)
  have si: "sint (word_of_int interval :: u8) = interval" by (rule sint_word_of_int_i8 [OF assms(2)])
  have r1: "ptp_signaling_read_capable_interval (Some m) 58 (cf_domain cfg) (Some (ip_target_port probe)) =
      SIG_FOUND \<lparr>cm_source_port = probe_identity probe wrong, cm_log_interval = interval\<rparr>"
    using f1 n(1) si at' by (simp add: ptp_signaling_read_capable_interval_def ptp_signaling_read_capable_tlv_def)
  have r2: "ptp_signaling_read_message_interval (Some q) 60 (cf_domain cfg) (Some (ip_target_port probe)) =
      SIG_FOUND \<lparr>im_source_port = probe_identity probe wrong, im_log_link_delay = -128, im_log_sync = interval, im_log_announce = -128, im_flags = 0\<rparr>"
    using f2 n(2) si at' by (simp add: ptp_signaling_read_message_interval_def)
  have r3: "ptp_signaling_write_capable_interval 58 (Some (ip_source_port probe)) (cf_domain cfg) sequence interval = Some m"
    if "ip_target_port probe = replicate 10 255" "\<not> wrong" "-24 \<le> interval \<and> interval \<le> 24 \<or> interval \<in> {-128, 126, 127}"
    using that write_capable_interval_shape [OF l(3), of 58 interval "cf_domain cfg" sequence] unfolding m
    by (simp add: probe_identity_def numeral_eq_Suc)
  show ?thesis using r1 r2 r3 w unfolding m_def q_def by blast
qed

definition probe_example :: interval_probe where
  "probe_example = \<lparr>ip_port_index = 1, ip_generation = 0, ip_ap = True, ip_source_mac = [1,1,1,1,1,1], ip_source_port = [1,2,3,4,5,6,7,8,0,1], ip_destination = [2,0,0,0,0,1],
     ip_target_port = replicate 10 9\<rparr>"

theorem probe_speaks_protocol_witness:
  "ptp_signaling_read_capable_interval (Some (drop 14 (interval_probe_frame config_default probe_example 1 (-3) True))) 58 0
     (Some (replicate 10 9)) = SIG_FOUND \<lparr>cm_source_port = [1,2,3,4,5,6,7,8,0,0x41], cm_log_interval = -3\<rparr>"
proof -
  have h: "probe_ok probe_example" "in_i8 (-3)" "take 8 (ip_source_port probe_example) \<noteq> take 8 (ip_target_port probe_example)"
    "cf_domain config_default = 0" "ip_target_port probe_example = replicate 10 9"
    "probe_identity probe_example True = [1,2,3,4,5,6,7,8,0,0x41]"
    by code_simp+
  show ?thesis using probe_speaks_protocol [OF h(1-3), of config_default 1 True] unfolding h(4-6) by blast
qed

end
