(* ===== verification/Ptp_Radio_Association.thy ===== *)
theory Ptp_Radio_Association
  imports Ptp_Link
begin

text \<open>
  The reports of the coprocessor on its associations (\<^verbatim>\<open>ptp_radio_association.c\<close>): a report is
  checked, crosses the event loop, and is reconciled with the registry of the access point's port.

  The layout of a report, its version, its limit and its flag belong to the protocol of the
  coprocessor (\<^verbatim>\<open>hosted_avb_proto.h\<close>) and are parameters.
\<close>

section \<open>State\<close>

record assoc_proto =
  aq_size :: nat
  aq_version :: u8
  aq_max :: nat
  aq_lifecycle :: u8

text \<open>A report as it is laid over the octets received, with the addresses it counts.\<close>

record associations_report =
  ar_version :: u8
  ar_flags :: u8
  ar_radio_boot :: u32
  ar_generation :: u32
  ar_macs :: "bytes list"

record radio_association =
  ra_port_index :: int
  ra_any_report :: bool
  ra_radio_boot :: u32
  ra_logged_generation :: u32
  ra_refreshing :: bool

definition association_zero :: radio_association where
  "association_zero = \<lparr>ra_port_index = -1, ra_any_report = False, ra_radio_boot = 0, ra_logged_generation = 0, ra_refreshing = False\<rparr>"

section \<open>Reports\<close>

text \<open>The report that is posted to the event loop, if any; \<open>posted\<close> is whether the queue had room.\<close>

definition on_associations :: "assoc_proto \<Rightarrow> (associations_report \<times> nat) option \<Rightarrow> bool \<Rightarrow> associations_report option" where
  "on_associations pr data posted =
     (case data of
        None \<Rightarrow> None
      | Some (report, data_len) \<Rightarrow>
          if data_len \<noteq> aq_size pr then None
          else if ar_version report \<noteq> aq_version pr \<or> length (ar_macs report) > aq_max pr then None
          else if posted then Some report else None)"

definition reconcile_associations ::
  "ptp_config \<Rightarrow> assoc_proto \<Rightarrow> associations_report \<Rightarrow> radio_association \<times> ptp_daemon \<Rightarrow> radio_association \<times> ptp_daemon" where
  "reconcile_associations cfg pr report z =
     (let (a, d) = z in
      if ra_port_index a < 0 then z
      else
        let new_boot = (ar_radio_boot report \<noteq> ra_radio_boot a);
            a = a\<lparr>ra_any_report := True, ra_radio_boot := ar_radio_boot report\<rparr>
        in if and (ar_flags report) (aq_lifecycle pr) = 0
           then (a, if new_boot then ptpd_wifi_association_unreported cfg d (ra_port_index a) else d)
           else
             let (accepted, d) = ptpd_wifi_association_reconcile cfg d (ra_port_index a) (ar_radio_boot report) (ar_generation report) (ar_macs report)
             in (if accepted \<and> (new_boot \<or> ar_generation report \<noteq> ra_logged_generation a)
                 then a\<lparr>ra_logged_generation := ar_generation report\<rparr> else a, d))"

section \<open>Refreshing\<close>

text \<open>One round of the task, after its wait: whether it has warned, and what it does when no report
  has come.\<close>

definition refresh_round :: "ptp_config \<Rightarrow> radio_association \<Rightarrow> bool \<times> ptp_daemon \<Rightarrow> bool \<times> ptp_daemon" where
  "refresh_round cfg a z =
     (let (warned, d) = z in
      if \<not> ra_any_report a \<and> \<not> warned then (True, ptpd_wifi_association_unreported cfg d (ra_port_index a)) else (warned, d))"

datatype association_attach = Associations_ok | Associations_EBUSY | Associations_EIO | Associations_ENOMEM

definition ptp_radio_association_attach :: "int \<Rightarrow> bool \<Rightarrow> bool \<Rightarrow> radio_association \<Rightarrow> association_attach \<times> radio_association" where
  "ptp_radio_association_attach port_index registered task_ok a =
     (if ra_port_index a \<ge> 0 then (if ra_port_index a = port_index then Associations_ok else Associations_EBUSY, a)
      else if \<not> registered then (Associations_EIO, a)
      else
        let a = a\<lparr>ra_port_index := port_index\<rparr>
        in if \<not> task_ok then (Associations_ENOMEM, a) else (Associations_ok, a\<lparr>ra_refreshing := True\<rparr>))"

section \<open>A report makes the registry\<close>

lemma held_fields: "held (q\<lparr>ws_radio_boot := b, ws_radio_generation := g, ws_reconciled_generation := r\<rparr>) = held q"
  "held (q\<lparr>ws_unreported := u\<rparr>) = held q" "peers_inv (q\<lparr>ws_unreported := u\<rparr>) = peers_inv q"
  by (simp_all add: held_def holds_mac_def peers_inv_def)

lemma peers_at_bump [simp]: "wifi_peers_at (bump_generation i d) j = wifi_peers_at d j"
  by (simp add: bump_generation_def port_at_def)

lemma peers_at_map_capable:
  "i < num_ports d \<Longrightarrow> wifi_peers_at (map_capable i f d) i = pk_wifi_peers (f (po_capable (port_at d i)))"
  by (simp add: map_capable_def)

text \<open>What a report must be to count: from a radio that tracks its associations, with at most sixteen
  different addresses, and newer than the last one of that radio.\<close>

definition report_news :: "assoc_proto \<Rightarrow> associations_report \<Rightarrow> ptp_wifi_peers \<Rightarrow> bool" where
  "report_news pr report p \<longleftrightarrow>
     and (ar_flags report) (aq_lifecycle pr) \<noteq> 0 \<and> ar_radio_boot report \<noteq> 0 \<and> ar_generation report \<noteq> 0 \<and>
     length (ar_macs report) \<le> PTP_WIFI_PEERS_MAX \<and> list_all mac_acceptable (ar_macs report) \<and> distinct (ar_macs report) \<and>
     (ws_radio_boot p = ar_radio_boot report \<longrightarrow> 0 < sint (ar_generation report - ws_radio_generation p))"

text \<open>C28. From the coprocessor to the registry: a new report leaves exactly the reported stations
  associated with the access point's port, every survivor in its slot, and the registry published,
  so that the stations are served; the octets it came in had the size and version of the protocol.\<close>

theorem report_makes_registry:
  assumes "on_associations pr data posted = Some report" "report_news pr report (wifi_peers_at d i)"
    and "valid_port cfg (ra_port_index a)" "i = nat (ra_port_index a)" "daemon_wf cfg d" "dm_running d"
    and "radio_ready d i ptp_port_wifi_mode_ap" "peers_inv (wifi_peers_at d i)"
    and "reconcile_associations cfg pr report (a, d) = (a', d')"
  shows "held (wifi_peers_at d' i) = set (ar_macs report) \<and> peers_inv (wifi_peers_at d' i) \<and>
    (\<forall>k m. holds_mac (wifi_peers_at d i) k m \<and> m \<in> set (ar_macs report) \<longrightarrow> holds_mac (wifi_peers_at d' i) k m) \<and>
    ptp_wifi_peers_publishable (cf_ap_via_coprocessor cfg) (wifi_peers_at d' i) \<and>
    data = Some (report, aq_size pr) \<and> ar_version report = aq_version pr \<and> length (ar_macs report) \<le> aq_max pr"
proof -
  let ?p = "wifi_peers_at d i" and ?macs = "ar_macs report"
  define q where "q = join_all ?macs (ptp_wifi_peers_advance (?p\<lparr>ws_entries := drop_unreported ?macs (ws_entries ?p)\<rparr>))"
  define q' where "q' = q\<lparr>ws_radio_boot := ar_radio_boot report, ws_radio_generation := ar_generation report,
    ws_reconciled_generation := ws_generation q, ws_unreported := False\<rparr>"
  have n: "list_all mac_acceptable ?macs" "length ?macs \<le> PTP_WIFI_PEERS_MAX" using assms(2) by (simp_all add: report_news_def)
  note new = reconcile_new_list [OF assms(8) n, folded q_def]
  have r: "ptp_wifi_peers_reconcile ?p (ar_radio_boot report) (ar_generation report) ?macs =
      (True, q\<lparr>ws_radio_boot := ar_radio_boot report, ws_radio_generation := ar_generation report, ws_reconciled_generation := ws_generation q\<rparr>)"
    using assms(2) by (auto simp: ptp_wifi_peers_reconcile_def report_news_def q_def Let_def)
  have i: "i < num_ports d" "0 \<le> ra_port_index a" using assms(3-5) by (auto simp: daemon_wf_def valid_port_def)
  have "wifi_peers_at d' i = q'"
    using assms(2, 3, 4, 6, 7, 9) i r
    by (auto simp: reconcile_associations_def ptpd_wifi_association_reconcile_def report_news_def Let_def split_beta peers_at_map_capable q'_def)
  moreover have "holds_mac q' k m = holds_mac q k m" for k m by (simp add: q'_def holds_mac_def)
  moreover have "peers_inv q'" using new(1) by (simp add: q'_def peers_inv_def holds_mac_def)
  moreover have "held q' = held q" by (simp add: q'_def held_fields)
  moreover have "ptp_wifi_peers_publishable (cf_ap_via_coprocessor cfg) q'"
    using assms(2) by (simp add: ptp_wifi_peers_publishable_def q'_def report_news_def)
  moreover have "data = Some (report, aq_size pr)" "ar_version report = aq_version pr" "length ?macs \<le> aq_max pr"
    using assms(1) by (auto simp: on_associations_def split: option.splits if_splits)
  ultimately show ?thesis using new(2, 3) by simp
qed

text \<open>A report of a radio that does not track its associations never changes which stations are
  associated, on any port; and the second such report of the same boot changes nothing at all.\<close>

theorem untracked_report_harmless:
  assumes "and (ar_flags report) (aq_lifecycle pr) = 0" "daemon_wf cfg d" "j < num_ports d"
    and "reconcile_associations cfg pr report (a, d) = (a', d')"
  shows "ws_entries (wifi_peers_at d' j) = ws_entries (wifi_peers_at d j) \<and>
    (0 \<le> ra_port_index a \<longrightarrow> reconcile_associations cfg pr report (a', d') = (a', d'))"
proof -
  have u: "ws_entries (wifi_peers_at (ptpd_wifi_association_unreported cfg d p) j) = ws_entries (wifi_peers_at d j)" for p
    using assms(3) by (cases "j = nat p")
      (simp_all add: ptpd_wifi_association_unreported_def Let_def map_capable_def port_at_def bump_generation_def map_port_def)
  show ?thesis
  proof (cases "ra_port_index a < 0")
    case True
    then show ?thesis using assms(4) by (simp add: reconcile_associations_def)
  next
    case False
    then have e: "a' = a\<lparr>ra_any_report := True, ra_radio_boot := ar_radio_boot report\<rparr>"
      "d' = (if ar_radio_boot report \<noteq> ra_radio_boot a then ptpd_wifi_association_unreported cfg d (ra_port_index a) else d)"
      using assms(1, 4) by (auto simp: reconcile_associations_def Let_def)
    have "reconcile_associations cfg pr report (a', d') = (a', d')"
      using False assms(1) by (simp add: e(1) reconcile_associations_def Let_def)
    moreover have "ws_entries (wifi_peers_at d' j) = ws_entries (wifi_peers_at d j)" using u by (simp add: e(2))
    ultimately show ?thesis by blast
  qed
qed

definition assoc_proto_example :: assoc_proto where
  "assoc_proto_example = \<lparr>aq_size = 110, aq_version = 1, aq_max = 16, aq_lifecycle = 1\<rparr>"

definition associations_example :: associations_report where
  "associations_example = \<lparr>ar_version = 1, ar_flags = 1, ar_radio_boot = 5, ar_generation = 7, ar_macs = [[2,0,0,0,0,2]]\<rparr>"

text \<open>The access point of the examples has one station, which this report replaces by another.\<close>

lemma access_point_registries: "registries_ok config_default access_point_example"
proof -
  let ?d = "map_port 1 (\<lambda>p. p\<lparr>po_config := \<lparr>pg_enabled = True, pg_medium = ptp_port_medium_wifi_ftm, pg_type = ptp_port_type_primary,
    pg_wifi_mode = ptp_port_wifi_mode_ap\<rparr>, po_link := (po_link p)\<lparr>lk_link_up := True\<rparr>\<rparr>) profile_example"
  have "daemon_wf config_default ?d" "cf_num_ports config_default = 2" by code_simp+
  moreover have "wifi_peers_at ?d 0 = peers_zero" "wifi_peers_at ?d 1 = peers_zero" by code_simp+
  ultimately have "registries_ok config_default ?d" using peers_inv_zero by (auto simp: registries_ok_def less_2_cases_iff)
  then show ?thesis unfolding access_point_example_def by (rule registries_reconcile)
qed

theorem report_makes_registry_witness:
  "held (wifi_peers_at (snd (reconcile_associations config_default assoc_proto_example associations_example
     (association_zero\<lparr>ra_port_index := 1\<rparr>, access_point_example))) 1) = {[2,0,0,0,0,2]}"
proof -
  have h: "on_associations assoc_proto_example (Some (associations_example, 110)) True = Some associations_example"
    by (simp add: on_associations_def assoc_proto_example_def associations_example_def)
  have r: "report_news assoc_proto_example associations_example (wifi_peers_at access_point_example 1)" by code_simp
  have c: "valid_port config_default (ra_port_index (association_zero\<lparr>ra_port_index := 1\<rparr>))" "1 = nat (ra_port_index (association_zero\<lparr>ra_port_index := 1\<rparr>))"
    "daemon_wf config_default access_point_example" "dm_running access_point_example"
    "radio_ready access_point_example 1 ptp_port_wifi_mode_ap"
    by code_simp+
  have i: "peers_inv (wifi_peers_at access_point_example 1)" using access_point_registries by (simp add: registries_ok_def config_default_def)
  show ?thesis
    using report_makes_registry [OF h r c i prod.collapse [symmetric]] by (simp add: associations_example_def)
qed

theorem untracked_report_harmless_witness:
  "ws_entries (wifi_peers_at (snd (reconcile_associations config_default assoc_proto_example (associations_example\<lparr>ar_flags := 0\<rparr>)
     (association_zero\<lparr>ra_port_index := 1\<rparr>, access_point_example))) 1) = ws_entries (wifi_peers_at access_point_example 1)"
proof -
  have "and (ar_flags (associations_example\<lparr>ar_flags := 0\<rparr>)) (aq_lifecycle assoc_proto_example) = 0"
    "daemon_wf config_default access_point_example" "1 < num_ports access_point_example"
    by code_simp+
  from untracked_report_harmless [OF this prod.collapse [symmetric]] show ?thesis by blast
qed

section \<open>Attaching without a task\<close>

text \<open>When the task that asks for the reports cannot be created, attaching fails but keeps the
  port: a second attempt answers success although no task asks for reports, now or later.\<close>

theorem attach_without_refresh:
  assumes "ra_port_index a < 0" "\<not> ra_refreshing a" "0 \<le> p"
  shows "\<exists>a'. ptp_radio_association_attach p True False a = (Associations_ENOMEM, a') \<and>
    ptp_radio_association_attach p True True a' = (Associations_ok, a') \<and> \<not> ra_refreshing a'"
  using assms by (simp add: ptp_radio_association_attach_def)

theorem attach_without_refresh_witness:
  "\<exists>a'. ptp_radio_association_attach 1 True True a' = (Associations_ok, a') \<and> \<not> ra_refreshing a'"
  using attach_without_refresh [of association_zero 1] by (auto simp: association_zero_def)
end
