(* ===== verification/Ptp_Start.thy ===== *)
theory Ptp_Start
  imports Ptp_Loop Ptp_Station Ptp_Radio_Association
begin

text \<open>
  Start and end of the daemon (\<^verbatim>\<open>ptp.c\<close>): the topology of the build, the ports of either medium, the
  bootstrap of the first port, attaching further ports, and the clean-up.

  \<open>dm_running\<close> stands for the daemon's global pointer \<^verbatim>\<open>s_state\<close>: it is set at the end of the
  bootstrap.  A descriptor is its number, as the state keeps it; the answers of the operating
  system and of the drivers are fields of \<open>start_env\<close>.  The nominal speed and the host interface of a
  port are never read, and the name of its interface is only handed to the operating system; they
  are left out.
\<close>

section \<open>The system\<close>

text \<open>What the modules of the daemon keep, and what the event loop, the timers and the Ethernet driver
  know of them.\<close>

record ptp_system =
  sy_daemon :: ptp_daemon
  sy_fds :: "int list"
  sy_eth_handler :: bool
  sy_wifi_handler :: bool
  sy_eth_registered :: bool
  sy_wifi_registered :: bool
  sy_filters :: "bytes list"
  sy_pdelay_timer :: bool
  sy_ring :: ptp_injected
  sy_sta :: wifi_sta
  sy_publisher :: beacon_publisher
  sy_association :: radio_association

text \<open>\<open>sy_eth_handler\<close> and \<open>sy_wifi_handler\<close> are flags of the state; \<open>sy_eth_registered\<close> and \<open>sy_wifi_registered\<close>
  say whether the event loop holds the handlers.  \<open>sn_beacon_port\<close> is the port the beacon publisher
  was built for; \<open>sn_between\<close> and \<open>sn_associating\<close> are what the events do while the driver is asked.\<close>

record start_env =
  sn_beacon_port :: int
  sn_fd :: int
  sn_bind :: bool
  sn_filter :: bool
  sn_handle :: bool
  sn_clock :: bool
  sn_timestamps :: bool
  sn_eth_mac :: bytes
  sn_eth_events :: bool
  sn_wifi_mac :: "bytes option"
  sn_wifi_events :: bool
  sn_stations :: "nat \<Rightarrow> bytes list option"
  sn_between :: "nat \<Rightarrow> ptp_daemon \<Rightarrow> ptp_daemon"
  sn_ap :: "ap_record option"
  sn_associating :: "ptp_daemon \<Rightarrow> ptp_daemon"
  sn_group :: bool
  sn_sta_events :: bool
  sn_control_events :: bool
  sn_sta_us :: int
  sn_queue :: bool
  sn_publisher_task :: bool
  sn_reports :: bool
  sn_refresh_task :: bool
  sn_local_ns :: int
  sn_realtime :: timespec
  sn_timer :: bool

abbreviation map_daemon :: "(ptp_daemon \<Rightarrow> ptp_daemon) \<Rightarrow> ptp_system \<Rightarrow> ptp_system" where
  "map_daemon f y \<equiv> y\<lparr>sy_daemon := f (sy_daemon y)\<rparr>"

definition PTP_MULTICAST_FILTERS :: "bytes list" where
  "PTP_MULTICAST_FILTERS = [[0x01, 0x1B, 0x19, 0, 0, 0], [0x01, 0x80, 0xC2, 0, 0, 0x0E]]"

section \<open>Topology\<close>

text \<open>The build configures the first two ports at most.\<close>

definition apply_topology :: "ptp_port_medium_e option \<times> ptp_port_type_e \<times> ptp_port_wifi_mode_e \<Rightarrow> ptp_port \<Rightarrow> ptp_port" where
  "apply_topology t p =
     (let (medium, type, mode) = t; c = po_config p in
      p\<lparr>po_config := c\<lparr>pg_medium := (case medium of None \<Rightarrow> pg_medium c | Some m \<Rightarrow> m), pg_type := type, pg_wifi_mode := mode\<rparr>\<rparr>)"

definition ptp_apply_port_topology_kconfig :: "ptp_config \<Rightarrow> ptp_daemon \<Rightarrow> ptp_daemon" where
  "ptp_apply_port_topology_kconfig cfg d =
     map_state (\<lambda>s. s\<lparr>st_port := map2 (\<lambda>i p. if i < min 2 (length (cf_topology cfg)) then apply_topology (cf_topology cfg ! i) p else p)
                                    [0..<length (st_port s)] (st_port s)\<rparr>) d"

section \<open>A wired port\<close>

definition set_fd :: "nat \<Rightarrow> int \<Rightarrow> ptp_system \<Rightarrow> ptp_system" where
  "set_fd i fd y = (map_daemon (map_port i (\<lambda>p. p\<lparr>po_link := (po_link p)\<lparr>lk_socket_open := (fd \<ge> 0)\<rparr>\<rparr>)) y)\<lparr>sy_fds := (sy_fds y)[i := fd]\<rparr>"

definition set_mac :: "nat \<Rightarrow> bytes \<Rightarrow> ptp_system \<Rightarrow> ptp_system" where
  "set_mac i mac y = map_daemon (map_port i (\<lambda>p. p\<lparr>po_link := (po_link p)\<lparr>lk_intf_hw_addr := mac\<rparr>\<rparr>)) y"

definition ptp_port_init_eth_hwts :: "ptp_config \<Rightarrow> start_env \<Rightarrow> nat \<Rightarrow> ptp_system \<Rightarrow> bool \<times> ptp_system" where
  "ptp_port_init_eth_hwts cfg env i y =
     (let y = set_fd i (sn_fd env) y in
      if sn_fd env < 0 then (False, y)
      else if \<not> sn_bind env then (False, y)
      else if \<not> sn_filter env then (False, y)
      else if \<not> sn_handle env then (False, y)
      else if cf_emac cfg \<and> \<not> sn_clock env then (False, y)
      else if \<not> sn_timestamps env then (False, y)
      else
        let y = set_mac i (sn_eth_mac env) y;
            y = y\<lparr>sy_filters := sy_filters y @ PTP_MULTICAST_FILTERS\<rparr>;
            y = (if \<not> sy_eth_handler y \<and> sn_eth_events env then y\<lparr>sy_eth_handler := True, sy_eth_registered := True\<rparr> else y)
        in (True, y))"

section \<open>A radio port\<close>

text \<open>The stations that associated before the port came up, unless the registry changed meanwhile.\<close>

definition join_missing :: "bytes list \<Rightarrow> ptp_wifi_peers \<Rightarrow> ptp_wifi_peers" where
  "join_missing macs peers =
     fold (\<lambda>m p. if ptp_wifi_peers_find p (Some m) = None then snd (ptp_wifi_peers_join p (Some m)) else p) macs peers"

fun seed_stations :: "start_env \<Rightarrow> nat \<Rightarrow> nat \<Rightarrow> nat \<Rightarrow> ptp_daemon \<Rightarrow> ptp_daemon" where
  "seed_stations env i attempt 0 d = d"
| "seed_stations env i attempt (Suc left) d =
     (let generation = ws_generation (wifi_peers_at d i);
          d = sn_between env attempt d
      in case sn_stations env attempt of
           None \<Rightarrow> d
         | Some macs \<Rightarrow>
             if ws_generation (wifi_peers_at d i) = generation
             then map_capable i (\<lambda>k. k\<lparr>pk_wifi_peers := join_missing macs (pk_wifi_peers k)\<rparr>) d
             else seed_stations env i (attempt + 1) left d)"

definition seed_neighbor :: "start_env \<Rightarrow> nat \<Rightarrow> ptp_daemon \<Rightarrow> ptp_daemon" where
  "seed_neighbor env i d =
     (let association = wn_association (pk_wifi_neighbor (po_capable (port_at d i)));
          d = sn_associating env d
      in case sn_ap env of
           None \<Rightarrow> d
         | Some ap \<Rightarrow>
             map_capable i (\<lambda>k. let n = pk_wifi_neighbor k in
               if wn_association n = association \<and> \<not> wn_associated n
               then k\<lparr>pk_wifi_neighbor := ptp_wifi_neighbor_associate n (Some (ap_bssid ap))\<rparr> else k) d)"

definition start_station :: "start_env \<Rightarrow> nat \<Rightarrow> ptp_system \<Rightarrow> ptp_system" where
  "start_station env i y =
     y\<lparr>sy_sta := snd (ptp_wifi_sta_start (int i) (sn_group env) (sn_sta_events env) (sn_control_events env) (sn_ap env) (sn_sta_us env) (sy_sta y))\<rparr>"

definition start_access_point :: "ptp_config \<Rightarrow> start_env \<Rightarrow> nat \<Rightarrow> ptp_system \<Rightarrow> ptp_system" where
  "start_access_point cfg env i y =
     (let (_, p, d) = ptp_beacon_ie_attach cfg (sn_beacon_port env) (sn_queue env) (sn_publisher_task env) (int i) (sy_publisher y) (sy_daemon y)
      in y\<lparr>sy_publisher := p, sy_daemon := d,
           sy_association := snd (ptp_radio_association_attach (int i) (sn_reports env) (sn_refresh_task env) (sy_association y))\<rparr>)"

definition ptp_port_init_wifi_ftm :: "ptp_config \<Rightarrow> start_env \<Rightarrow> nat \<Rightarrow> ptp_system \<Rightarrow> bool \<times> ptp_system" where
  "ptp_port_init_wifi_ftm cfg env i y =
     (let y = set_fd i (-1) y;
          mode = pg_wifi_mode (po_config (port_at (sy_daemon y) i))
      in if mode = ptp_port_wifi_mode_none then (False, y)
         else case sn_wifi_mac env of
             None \<Rightarrow> (False, y)
           | Some mac \<Rightarrow>
               let y = set_mac i mac y;
                   y = (if \<not> sy_wifi_handler y \<and> sn_wifi_events env then y\<lparr>sy_wifi_handler := True, sy_wifi_registered := True\<rparr> else y);
                   y = (if mode = ptp_port_wifi_mode_ap then map_daemon (seed_stations env i 0 3) y
                        else start_station env i (map_daemon (seed_neighbor env i) y));
                   y = (if cf_ap_via_coprocessor cfg \<and> mode = ptp_port_wifi_mode_ap then start_access_point cfg env i y else y)
               in (True, y))"

section \<open>Bootstrap\<close>

definition port_init :: "ptp_config \<Rightarrow> start_env \<Rightarrow> ptp_port_medium_e \<Rightarrow> nat \<Rightarrow> ptp_system \<Rightarrow> bool \<times> ptp_system" where
  "port_init cfg env medium i y =
     (case medium of
        ptp_port_medium_eth_hwts \<Rightarrow> ptp_port_init_eth_hwts cfg env i y
      | ptp_port_medium_wifi_ftm \<Rightarrow> ptp_port_init_wifi_ftm cfg env i y)"

text \<open>The identity of the clock from the address of the first port.\<close>

definition clock_identity_of :: "bytes \<Rightarrow> bytes" where
  "clock_identity_of mac = slice 0 3 mac @ [0xff, 0xfe] @ slice 3 3 mac"

definition identity_of :: "ptp_config \<Rightarrow> bytes \<Rightarrow> ptp_announce \<Rightarrow> ptp_announce" where
  "identity_of cfg mac o' =
     (let o' = o'\<lparr>an_header := (an_header o')\<lparr>hd_version := 2, hd_domain := cf_domain cfg, hd_sourceidentity := clock_identity_of mac,
                     hd_sourceportindex := [0, 1]\<rparr>\<rparr>
      in if cf_server cfg \<or> cf_gptp_profile cfg
         then o'\<lparr>an_btc_priority1 := cf_priority1 cfg, an_btc_quality := [cf_class cfg, cf_accuracy cfg, 0xff, 0xff],
                an_btc_priority2 := cf_priority2 cfg, an_btc_identity := clock_identity_of mac, an_timesource := cf_clocksource cfg\<rparr>
         else o'\<lparr>an_btc_priority1 := 255\<rparr>)"

text \<open>The zeroed state with the profile of the build and its topology.\<close>

definition profile_state :: "ptp_config \<Rightarrow> ptp_daemon \<Rightarrow> ptp_daemon" where
  "profile_state cfg d =
     (let d = map_servo (\<lambda>s. s\<lparr>sv_remote_time_ns_prev := 0, sv_local_time_ns_prev := 0, sv_drift_acc := 0\<rparr>) d;
          profile = (if cf_gptp_profile cfg then ptp_profile_gptp else ptp_profile_standard);
          d = map_state (\<lambda>s. s\<lparr>st_active_ptp_profile := profile, st_preferred_ptp_profile := profile\<rparr>) d
      in ptp_apply_port_topology_kconfig cfg (ptp_reset_for_profile cfg d))"

definition enable_port :: "nat \<Rightarrow> ptp_port_medium_e \<Rightarrow> ptp_daemon \<Rightarrow> ptp_daemon" where
  "enable_port i medium d =
     map_port i (\<lambda>p. p\<lparr>po_config := (po_config p)\<lparr>pg_enabled := True, pg_medium := medium\<rparr>, po_link := (po_link p)\<lparr>lk_link_up := True\<rparr>\<rparr>) d"

definition reset_ring :: "bool \<Rightarrow> ptp_injected \<Rightarrow> ptp_injected" where
  "reset_ring enabled r = r\<lparr>ij_head := (if enabled then 0 else ij_head r), ij_count := 0, ij_enabled := enabled\<rparr>"

definition next_generations :: "ptp_daemon \<Rightarrow> ptp_daemon" where
  "next_generations d = d\<lparr>dm_injected_generation := map (\<lambda>g. g + 1) (dm_injected_generation d)\<rparr>"

definition ptp_initialize_state :: "ptp_config \<Rightarrow> start_env \<Rightarrow> int \<Rightarrow> ptp_port_medium_e \<Rightarrow> ptp_system \<Rightarrow> bool \<times> ptp_system" where
  "ptp_initialize_state cfg env port_index medium y =
     (if \<not> valid_port cfg port_index then (False, y)
      else
        let i = nat port_index;
            (ok, y) = port_init cfg env medium i (map_daemon (enable_port i medium) (map_daemon (profile_state cfg) y))
        in if \<not> ok then (False, y)
           else
             let y = (if cf_emac cfg then y
                      else map_daemon (\<lambda>d. d\<lparr>dm_sw_clock := ptp_clock_sw_init (sn_local_ns env) (Some (sn_realtime env)), dm_use_sw_clock := True\<rparr>) y);
                 mac = lk_intf_hw_addr (po_link (port_at (sy_daemon y) i));
                 y = map_daemon (map_state (\<lambda>s. s\<lparr>st_own_identity := identity_of cfg mac (st_own_identity s)\<rparr>)) y;
                 y = map_daemon next_generations (y\<lparr>sy_ring := reset_ring True (sy_ring y)\<rparr>);
                 y = map_daemon (\<lambda>d. d\<lparr>dm_running := True\<rparr>) y;
                 y = (if dm_gptp (sy_daemon y) \<and> medium = ptp_port_medium_eth_hwts \<and> sn_timer env then y\<lparr>sy_pdelay_timer := True\<rparr> else y)
             in (True, y))"

section \<open>Clean-up\<close>

definition ptp_destroy_state :: "bool \<Rightarrow> ptp_system \<Rightarrow> bool \<times> ptp_system" where
  "ptp_destroy_state handle y =
     (let y = y\<lparr>sy_pdelay_timer := False\<rparr>;
          y = (if sy_eth_handler y then y\<lparr>sy_eth_handler := False, sy_eth_registered := False\<rparr> else y)
      in if \<not> handle then (False, y)
         else
           let y = y\<lparr>sy_filters := filter (\<lambda>f. f \<notin> set PTP_MULTICAST_FILTERS) (sy_filters y)\<rparr>
           in (True, if sy_fds y ! 0 > 0 then set_fd 0 (-1) y else y))"

text \<open>The task of the daemon before and after its loop: the state is zeroed storage, and after the
  clean-up it is freed.\<close>

definition ptp_daemon_boot :: "ptp_config \<Rightarrow> start_env \<Rightarrow> bool \<Rightarrow> int \<Rightarrow> ptp_port_medium_e \<Rightarrow> ptp_system \<Rightarrow> bool \<times> ptp_system" where
  "ptp_daemon_boot cfg env handle port_index medium y =
     (let n = cf_num_ports cfg;
          y = (map_daemon (\<lambda>d. d\<lparr>dm_state := state_zero n\<rparr>) y)\<lparr>sy_fds := replicate n 0, sy_eth_handler := False, sy_wifi_handler := False\<rparr>;
          (ok, y) = ptp_initialize_state cfg env port_index medium y
      in if ok then (True, y)
         else (False, map_daemon (\<lambda>d. d\<lparr>dm_running := False\<rparr>) (snd (ptp_destroy_state handle y))))"

definition ptp_daemon_exit :: "bool \<Rightarrow> ptp_system \<Rightarrow> ptp_system" where
  "ptp_daemon_exit handle y =
     (let y = map_daemon next_generations (y\<lparr>sy_ring := reset_ring False (sy_ring y)\<rparr>)
      in map_daemon (\<lambda>d. d\<lparr>dm_running := False\<rparr>) (snd (ptp_destroy_state handle y)))"

section \<open>The interface\<close>

datatype start_result = Start_EINVAL | Start_ENOSYS | Start_ENOMEM | Start_failed | Start_spawned | Start_attached nat

text \<open>\<open>spawned\<close>: the arguments could be allocated, and the task created.  A medium that is neither of
  the two is None.\<close>

definition ptpd_start_port ::
  "ptp_config \<Rightarrow> start_env \<Rightarrow> bool \<times> bool \<Rightarrow> int \<Rightarrow> ptp_port_medium_e option \<Rightarrow> ptp_system \<Rightarrow> start_result \<times> ptp_system" where
  "ptpd_start_port cfg env spawned port_index medium y =
     (if \<not> valid_port cfg port_index then (Start_EINVAL, y)
      else case medium of
          None \<Rightarrow> (Start_ENOSYS, y)
        | Some medium \<Rightarrow>
            if \<not> dm_running (sy_daemon y)
            then (if \<not> fst spawned then (Start_ENOMEM, y) else if \<not> snd spawned then (Start_failed, y) else (Start_spawned, y))
            else
              let i = nat port_index;
                  (ok, y) = port_init cfg env medium i (map_daemon (enable_port i medium) y)
              in if ok then (Start_attached i, y)
                 else (Start_failed, map_daemon (map_port i (\<lambda>p. p\<lparr>po_config := (po_config p)\<lparr>pg_enabled := False\<rparr>\<rparr>)) y))"

definition ptpd_start :: "bool \<times> bool \<Rightarrow> ptp_system \<Rightarrow> start_result" where
  "ptpd_start spawned y =
     (if dm_running (sy_daemon y) then Start_failed
      else if \<not> fst spawned then Start_ENOMEM else if \<not> snd spawned then Start_failed else Start_spawned)"

definition ptpd_now :: "sw_clock option \<Rightarrow> int \<Rightarrow> timespec option \<Rightarrow> timespec option" where
  "ptpd_now backend local_ns hw_time = (case backend of Some c \<Rightarrow> ptp_clock_sw_now c local_ns | None \<Rightarrow> hw_time)"


section \<open>The bootstrap establishes the invariant\<close>

lemma topology_ports: "num_ports (ptp_apply_port_topology_kconfig cfg d) = num_ports d"
  by (simp add: ptp_apply_port_topology_kconfig_def)

lemma topology_delay:
  "i < num_ports d \<Longrightarrow> po_delay (port_at (ptp_apply_port_topology_kconfig cfg d) i) = po_delay (port_at d i)"
  by (simp add: ptp_apply_port_topology_kconfig_def port_at_def apply_topology_def Let_def split_beta)

lemma topology_inv:
  assumes "daemon_inv cfg d"
  shows "daemon_inv cfg (ptp_apply_port_topology_kconfig c d)"
proof -
  let ?e = "ptp_apply_port_topology_kconfig c d"
  have "delay_inv cfg (po_delay p)" if p: "p \<in> set (st_port (dm_state ?e))" for p
  proof -
    obtain i where i: "i < num_ports d" "p = port_at ?e i" using p topology_ports [of c d] by (auto simp: in_set_conv_nth port_at_def)
    have "delay_inv cfg (po_delay (port_at d i))" using assms i(1) delays_okD unfolding daemon_inv_def by blast
    then show ?thesis by (simp only: i(2) topology_delay [OF i(1)])
  qed
  then show ?thesis using assms topology_ports [of c d] by (simp add: daemon_inv_def delays_ok_def)
qed

lemma zero_inv:
  assumes "delay_config cfg" "1 \<le> cf_num_ports cfg"
  shows "daemon_inv cfg (d\<lparr>dm_state := state_zero (cf_num_ports cfg)\<rparr>)"
  using assms by (simp add: daemon_inv_def delays_ok_def delay_inv_def delay_config_def state_zero_def port_at_def port_zero_def)

text \<open>What a port's start leaves of the daemon.  The events that happen meanwhile keep the invariant.\<close>

definition start_env_ok :: "ptp_config \<Rightarrow> start_env \<Rightarrow> bool" where
  "start_env_ok cfg env \<longleftrightarrow>
     length (sn_eth_mac env) = 6 \<and> (\<forall>m. sn_wifi_mac env = Some m \<longrightarrow> length m = 6) \<and>
     (\<forall>k d. daemon_inv cfg d \<longrightarrow> daemon_inv cfg (sn_between env k d)) \<and> (\<forall>d. daemon_inv cfg d \<longrightarrow> daemon_inv cfg (sn_associating env d))"

lemma seed_inv: "start_env_ok cfg env \<Longrightarrow> daemon_inv cfg d \<Longrightarrow> daemon_inv cfg (seed_stations env i k n d)"
proof (induction n arbitrary: k d)
  case (Suc n)
  have "daemon_inv cfg (sn_between env k d)" using Suc.prems by (simp add: start_env_ok_def)
  then show ?case using Suc.IH Suc.prems(1)
    by (auto simp: Let_def map_capable_def split: option.splits intro!: daemon_inv_keep)
qed simp

lemma neighbor_inv: "start_env_ok cfg env \<Longrightarrow> daemon_inv cfg d \<Longrightarrow> daemon_inv cfg (seed_neighbor env i d)"
  by (auto simp: seed_neighbor_def Let_def map_capable_def start_env_ok_def split: option.splits intro!: daemon_inv_keep)

lemma attach_inv: "daemon_inv cfg d \<Longrightarrow> daemon_inv cfg (snd (snd (ptp_beacon_ie_attach c b q t i p d)))"
  by (auto simp: ptp_beacon_ie_attach_def ptpd_register_sync_egress_cb_def Let_def split_beta split: sum.splits intro!: daemon_inv_keep)

lemma port_init_inv:
  assumes "start_env_ok cfg env" "daemon_inv cfg (sy_daemon y)"
  shows "daemon_inv cfg (sy_daemon (snd (port_init cfg env medium i y)))"
proof -
  have f: "daemon_inv cfg (sy_daemon z) \<Longrightarrow> daemon_inv cfg (sy_daemon (set_fd j fd z))"
    "daemon_inv cfg (sy_daemon z) \<Longrightarrow> daemon_inv cfg (sy_daemon (set_mac j mac z))" for j fd mac z
    by (auto simp: set_fd_def set_mac_def intro!: daemon_inv_keep)
  have a: "daemon_inv cfg (sy_daemon z) \<Longrightarrow> daemon_inv cfg (sy_daemon (start_access_point c env j z))" for c j z
    using attach_inv by (auto simp: start_access_point_def Let_def split_beta)
  have t: "sy_daemon (start_station env j z) = sy_daemon z" for j z by (simp add: start_station_def)
  show ?thesis
  proof (cases medium)
    case ptp_port_medium_eth_hwts
    then show ?thesis using f assms(2) by (simp add: port_init_def ptp_port_init_eth_hwts_def Let_def)
  next
    case ptp_port_medium_wifi_ftm
    then show ?thesis using f a t assms seed_inv neighbor_inv
      by (simp add: port_init_def ptp_port_init_wifi_ftm_def Let_def split: option.split)
  qed
qed

lemma profile_state_inv: "delay_config cfg \<Longrightarrow> daemon_inv cfg d \<Longrightarrow> daemon_inv cfg (profile_state cfg d)"
  by (auto simp: profile_state_def Let_def intro!: topology_inv reset_inv)

lemma enable_inv: "daemon_inv cfg d \<Longrightarrow> daemon_inv cfg (enable_port i medium d)"
  by (auto simp: enable_port_def intro!: daemon_inv_keep)

text \<open>What the bootstrap does after its port is up.\<close>

lemma initialize_cases:
  assumes "ptp_initialize_state cfg env port_index medium y = (True, y')"
  obtains z where "valid_port cfg port_index"
    "port_init cfg env medium (nat port_index) (map_daemon (enable_port (nat port_index) medium) (map_daemon (profile_state cfg) y)) = (True, z)"
    "st_port (dm_state (sy_daemon y')) = st_port (dm_state (sy_daemon z))" "dm_running (sy_daemon y')"
    "st_own_identity (dm_state (sy_daemon y')) =
      identity_of cfg (lk_intf_hw_addr (po_link (port_at (sy_daemon z) (nat port_index)))) (st_own_identity (dm_state (sy_daemon z)))"
    "dm_injected_generation (sy_daemon y') = map (\<lambda>g. g + 1) (dm_injected_generation (sy_daemon z))"
    "sy_ring y' = reset_ring True (sy_ring z)" "dm_use_sw_clock (sy_daemon y') = (\<not> cf_emac cfg \<or> dm_use_sw_clock (sy_daemon z))"
    "sy_publisher y' = sy_publisher z" "sy_wifi_registered y' = sy_wifi_registered z"
proof -
  obtain ok z where z: "port_init cfg env medium (nat port_index) (map_daemon (enable_port (nat port_index) medium) (map_daemon (profile_state cfg) y)) = (ok, z)"
    by (rule prod.exhaust)
  have "valid_port cfg port_index" "ok" using assms z by (auto simp: ptp_initialize_state_def Let_def split: if_splits)
  moreover from this have "y' = snd (ptp_initialize_state cfg env port_index medium y)" using assms by simp
  ultimately show thesis
    using z that [of z] by (simp add: ptp_initialize_state_def Let_def next_generations_def port_at_def)
qed

text \<open>C5. A bootstrap that succeeds hands the loop what it needs: the invariant of the daemon holds, so
  that the loop takes no average over zero samples, whatever arrives; the identity of the clock is
  made of the address of the port; the mailbox is open and empty, so that nothing left from an
  earlier run is taken.\<close>

theorem bootstrap_establishes:
  assumes "delay_config cfg" "1 \<le> cf_num_ports cfg" "start_env_ok cfg env" "\<forall>e. daemon_inv cfg e \<longrightarrow> daemon_inv cfg (tick e)"
    and "ptp_daemon_boot cfg env handle port_index medium y = (True, y')"
  shows "daemon_inv cfg (sy_daemon y') \<and> dm_running (sy_daemon y') \<and>
    (\<exists>lp out. daemon_loop cfg tick envs \<lparr>lp_daemon = sy_daemon y', lp_ring = sy_ring y', lp_watchdog_us = w\<rparr> = Some (lp, out)) \<and>
    hd_sourceidentity (an_header (st_own_identity (dm_state (sy_daemon y')))) =
      clock_identity_of (lk_intf_hw_addr (po_link (port_at (sy_daemon y') (nat port_index)))) \<and>
    ij_count (sy_ring y') = 0 \<and> ij_enabled (sy_ring y')"
proof -
  define z where "z = (map_daemon (\<lambda>d. d\<lparr>dm_state := state_zero (cf_num_ports cfg)\<rparr>) y)\<lparr>sy_fds := replicate (cf_num_ports cfg) 0,
    sy_eth_handler := False, sy_wifi_handler := False\<rparr>"
  have i: "ptp_initialize_state cfg env port_index medium z = (True, y')"
    using assms(5) by (auto simp: ptp_daemon_boot_def Let_def z_def split_beta prod_eq_iff split: if_splits)
  obtain v where v: "port_init cfg env medium (nat port_index) (map_daemon (enable_port (nat port_index) medium) (map_daemon (profile_state cfg) z)) = (True, v)"
    "st_port (dm_state (sy_daemon y')) = st_port (dm_state (sy_daemon v))" "dm_running (sy_daemon y')"
    "st_own_identity (dm_state (sy_daemon y')) =
      identity_of cfg (lk_intf_hw_addr (po_link (port_at (sy_daemon v) (nat port_index)))) (st_own_identity (dm_state (sy_daemon v)))"
    "sy_ring y' = reset_ring True (sy_ring v)"
    by (rule initialize_cases [OF i])
  have "daemon_inv cfg (sy_daemon z)" unfolding z_def using zero_inv [OF assms(1, 2)] by simp
  then have "daemon_inv cfg (sy_daemon v)"
    using port_init_inv [OF assms(3), of "map_daemon (enable_port (nat port_index) medium) (map_daemon (profile_state cfg) z)" medium "nat port_index"]
      profile_state_inv [OF assms(1)] enable_inv v(1) by simp
  then have d: "daemon_inv cfg (sy_daemon y')" using daemon_inv_cong [OF v(2)] by blast
  moreover have "\<exists>lp out. daemon_loop cfg tick envs \<lparr>lp_daemon = sy_daemon y', lp_ring = sy_ring y', lp_watchdog_us = w\<rparr> = Some (lp, out)"
    using loop_inv [where tick = tick, OF assms(1)] assms(4) d by force
  ultimately show ?thesis using v(2-5) by (simp add: identity_of_def Let_def reset_ring_def port_at_def)
qed

section \<open>Ends that are left loose\<close>

definition egress_of :: "nat \<Rightarrow> ptp_daemon \<Rightarrow> bool" where
  "egress_of i d = lk_sync_egress_cb (po_link (port_at d i))"

lemma egress_map_port: "(\<And>p. lk_sync_egress_cb (po_link (f p)) = lk_sync_egress_cb (po_link p)) \<Longrightarrow> egress_of i (map_port j f d) = egress_of i d"
  by (cases "j < num_ports d"; cases "i = j") (simp_all add: egress_of_def map_port_def port_at_def list_update_beyond)

lemma egress_cong: "st_port (dm_state d') = st_port (dm_state d) \<Longrightarrow> egress_of i d' = egress_of i d"
  by (simp add: egress_of_def port_at_def)

lemma egress_map_ports:
  "i < num_ports d \<Longrightarrow> (\<And>p. lk_sync_egress_cb (po_link (f p)) = lk_sync_egress_cb (po_link p)) \<Longrightarrow>
     egress_of i (map_state (\<lambda>s. s\<lparr>st_port := map f (st_port s)\<rparr>) d) = egress_of i d"
  by (simp add: egress_of_def port_at_def)

lemma egress_parts [simp]:
  "egress_of i (map_source f d) = egress_of i d" "egress_of i (map_servo g d) = egress_of i d" "egress_of i (ptp_invalidate_timing d) = egress_of i d"
  "egress_of i (retire_injected d) = egress_of i d"
  by (rule egress_cong; simp add: ptp_invalidate_timing_def retire_injected_def)+

lemma reset_egress: "i < num_ports d \<Longrightarrow> egress_of i (ptp_reset_for_profile cfg d) = egress_of i d"
  by (simp add: ptp_reset_for_profile_def Let_def egress_map_port egress_map_ports reset_delay_def ptp_clean_after_step_def
      ptp_update_delay_asymmetry_def ptp_reset_unicast_delay_req_def)

lemma running_parts [simp]:
  "dm_running (ptp_reset_for_profile cfg d) = dm_running d" "dm_running (ptp_apply_port_topology_kconfig cfg d) = dm_running d"
  by (simp_all add: ptp_reset_for_profile_def Let_def ptp_clean_after_step_def ptp_update_delay_asymmetry_def ptp_reset_unicast_delay_req_def
      ptp_invalidate_timing_def retire_injected_def ptp_apply_port_topology_kconfig_def)

lemma topology_port:
  assumes "i < num_ports d"
  shows "egress_of i (ptp_apply_port_topology_kconfig cfg d) = egress_of i d"
    "i < min 2 (length (cf_topology cfg)) \<Longrightarrow>
      pg_wifi_mode (po_config (port_at (ptp_apply_port_topology_kconfig cfg d) i)) = snd (snd (cf_topology cfg ! i))"
  using assms by (simp_all add: egress_of_def ptp_apply_port_topology_kconfig_def port_at_def apply_topology_def Let_def split_beta)

lemma seed_silent:
  assumes "\<forall>k d. dm_running (sn_between env k d) = dm_running d \<and> egress_of i (sn_between env k d) = egress_of i d"
  shows "dm_running (seed_stations env j k n d) = dm_running d \<and> egress_of i (seed_stations env j k n d) = egress_of i d"
proof (induction n arbitrary: k d)
  case (Suc n)
  then show ?case using assms by (simp add: Let_def map_capable_def egress_map_port split: option.split)
qed simp

lemma attach_silent:
  "\<not> dm_running d \<Longrightarrow> snd (snd (ptp_beacon_ie_attach cfg b q t p u d)) = d"
  by (simp add: ptp_beacon_ie_attach_def ptpd_register_sync_egress_cb_def Let_def)

lemma fd_mac_silent:
  "dm_running (sy_daemon (set_fd j fd y)) = dm_running (sy_daemon y)" "egress_of i (sy_daemon (set_fd j fd y)) = egress_of i (sy_daemon y)"
  "dm_running (sy_daemon (set_mac j mac y)) = dm_running (sy_daemon y)" "egress_of i (sy_daemon (set_mac j mac y)) = egress_of i (sy_daemon y)"
  by (simp_all add: set_fd_def set_mac_def egress_map_port)

text \<open>C40. The first port of the daemon is the access point: the bootstrap succeeds, but the publisher of
  the beacons asks to be called while the daemon does not count as running yet, and is refused.  No
  Sync of this port is ever published.\<close>

theorem bootstrap_forgets_publisher:
  assumes "ptp_daemon_boot cfg env handle port_index ptp_port_medium_wifi_ftm y = (True, y')" "\<not> dm_running (sy_daemon y)"
    and "valid_port cfg port_index" "nat port_index < min 2 (length (cf_topology cfg))"
    and "snd (snd (cf_topology cfg ! nat port_index)) = ptp_port_wifi_mode_ap" "cf_ap_via_coprocessor cfg"
    and "\<forall>k d. dm_running (sn_between env k d) = dm_running d \<and> egress_of (nat port_index) (sn_between env k d) = egress_of (nat port_index) d"
  shows "dm_running (sy_daemon y') \<and> \<not> lk_sync_egress_cb (po_link (port_at (sy_daemon y') (nat port_index)))"
proof -
  define i where "i = nat port_index"
  define z where "z = (map_daemon (\<lambda>d. d\<lparr>dm_state := state_zero (cf_num_ports cfg)\<rparr>) y)\<lparr>sy_fds := replicate (cf_num_ports cfg) 0,
    sy_eth_handler := False, sy_wifi_handler := False\<rparr>"
  define x where "x = map_daemon (enable_port i ptp_port_medium_wifi_ftm) (map_daemon (profile_state cfg) z)"
  have b: "ptp_initialize_state cfg env port_index ptp_port_medium_wifi_ftm z = (True, y')"
    using assms(1) by (auto simp: ptp_daemon_boot_def Let_def z_def split_beta prod_eq_iff split: if_splits)
  obtain v where v: "port_init cfg env ptp_port_medium_wifi_ftm i x = (True, v)"
    "st_port (dm_state (sy_daemon y')) = st_port (dm_state (sy_daemon v))" "dm_running (sy_daemon y')"
    by (rule initialize_cases [OF b]) (simp add: x_def i_def)
  have n: "i < num_ports (sy_daemon z)" using assms(3) by (auto simp: i_def z_def state_zero_def valid_port_def)
  have zz: "\<not> dm_running (sy_daemon z)" "\<not> egress_of i (sy_daemon z)"
    using assms(2) n by (auto simp: z_def egress_of_def port_at_def state_zero_def port_zero_def)
  define e where "e = map_state (\<lambda>s. s\<lparr>st_active_ptp_profile := (if cf_gptp_profile cfg then ptp_profile_gptp else ptp_profile_standard),
      st_preferred_ptp_profile := (if cf_gptp_profile cfg then ptp_profile_gptp else ptp_profile_standard)\<rparr>)
    (map_servo (\<lambda>s. s\<lparr>sv_remote_time_ns_prev := 0, sv_local_time_ns_prev := 0, sv_drift_acc := 0\<rparr>) (sy_daemon z))"
  have e: "st_port (dm_state e) = st_port (dm_state (sy_daemon z))" "\<not> dm_running e" using zz(1) by (simp_all add: e_def)
  have p: "profile_state cfg (sy_daemon z) = ptp_apply_port_topology_kconfig cfg (ptp_reset_for_profile cfg e)"
    by (simp add: profile_state_def e_def Let_def)
  have l: "i < num_ports e" "i < num_ports (ptp_reset_for_profile cfg e)" using n e(1) by simp_all
  have q: "egress_of i (profile_state cfg (sy_daemon z)) = egress_of i (sy_daemon z)" "\<not> dm_running (profile_state cfg (sy_daemon z))"
    "pg_wifi_mode (po_config (port_at (profile_state cfg (sy_daemon z)) i)) = ptp_port_wifi_mode_ap"
    "i < num_ports (profile_state cfg (sy_daemon z))"
    unfolding p using topology_port [OF l(2)] reset_egress [OF l(1)] egress_cong [OF e(1)] e(2) assms(4, 5) l(2) topology_ports
    by (simp_all add: i_def)
  have x: "\<not> dm_running (sy_daemon x)" "\<not> egress_of i (sy_daemon x)"
    using q(1, 2) zz(2) by (simp_all add: x_def enable_port_def egress_map_port)
  have m: "pg_wifi_mode (po_config (port_at (sy_daemon (set_fd i (-1) x)) i)) = ptp_port_wifi_mode_ap"
    using q(3, 4) by (simp add: x_def enable_port_def set_fd_def)
  obtain mac where mac: "sn_wifi_mac env = Some mac"
    using v(1) m by (auto simp: port_init_def ptp_port_init_wifi_ftm_def Let_def split: option.splits)
  define u where "u = sy_daemon (set_mac i mac (set_fd i (-1) x))"
  have u: "\<not> dm_running u" "\<not> egress_of i u" using x by (simp_all add: u_def fd_mac_silent)
  have s: "\<not> dm_running (seed_stations env i 0 3 u)" "\<not> egress_of i (seed_stations env i 0 3 u)"
    using seed_silent [where env = env and i = i, OF assms(7) [folded i_def], of i 0 3 u] u by simp_all
  have "sy_daemon v = seed_stations env i 0 3 u"
    using v(1) m mac assms(6) attach_silent [OF s(1)]
    by (auto simp: port_init_def ptp_port_init_wifi_ftm_def start_access_point_def Let_def split_beta u_def split: if_splits)
  then have "\<not> egress_of i (sy_daemon v)" using s(2) by simp
  then show ?thesis using v(3) egress_cong [OF v(2)] unfolding egress_of_def i_def by blast
qed

definition start_example :: start_env where
  "start_example = \<lparr>sn_beacon_port = 1, sn_fd = 7, sn_bind = True, sn_filter = True, sn_handle = True, sn_clock = True, sn_timestamps = True,
     sn_eth_mac = [1,2,3,4,5,6], sn_eth_events = True, sn_wifi_mac = Some [1,2,3,4,5,7], sn_wifi_events = True,
     sn_stations = (\<lambda>_. Some [[2,0,0,0,0,1]]), sn_between = (\<lambda>_ d. d), sn_ap = None, sn_associating = (\<lambda>d. d), sn_group = True,
     sn_sta_events = True, sn_control_events = True, sn_sta_us = 0, sn_queue = True, sn_publisher_task = True, sn_reports = True,
     sn_refresh_task = True, sn_local_ns = 0, sn_realtime = timespec_zero, sn_timer = True\<rparr>"

definition system_zero :: ptp_system where
  "system_zero = \<lparr>sy_daemon = (daemon_zero 2)\<lparr>dm_running := False\<rparr>, sy_fds = [0, 0], sy_eth_handler = False, sy_wifi_handler = False,
     sy_eth_registered = False, sy_wifi_registered = False, sy_filters = [], sy_pdelay_timer = False, sy_ring = injected_zero,
     sy_sta = sta_zero, sy_publisher = \<lparr>bp_mbox = False, bp_item = None, bp_task = False\<rparr>, sy_association = association_zero\<rparr>"

theorem bootstrap_establishes_witness:
  "\<exists>y'. ptp_daemon_boot config_default start_example True 0 ptp_port_medium_eth_hwts system_zero = (True, y') \<and>
     daemon_inv config_default (sy_daemon y') \<and>
     (\<forall>envs. \<exists>lp out. daemon_loop config_default id envs \<lparr>lp_daemon = sy_daemon y', lp_ring = sy_ring y', lp_watchdog_us = 0\<rparr> = Some (lp, out))"
proof -
  have "fst (ptp_daemon_boot config_default start_example True 0 ptp_port_medium_eth_hwts system_zero)" by code_simp
  then obtain y' where y: "ptp_daemon_boot config_default start_example True 0 ptp_port_medium_eth_hwts system_zero = (True, y')"
    by (metis prod.collapse)
  have c: "delay_config config_default" "1 \<le> cf_num_ports config_default" by code_simp+
  have e: "start_env_ok config_default start_example" by (simp add: start_env_ok_def start_example_def)
  show ?thesis using y bootstrap_establishes [OF c e _ y, of id _ 0] by auto
qed

theorem bootstrap_forgets_publisher_witness:
  "\<exists>y'. ptp_daemon_boot config_default start_example True 1 ptp_port_medium_wifi_ftm system_zero = (True, y') \<and>
     \<not> lk_sync_egress_cb (po_link (port_at (sy_daemon y') 1))"
proof -
  have "fst (ptp_daemon_boot config_default start_example True 1 ptp_port_medium_wifi_ftm system_zero)" by code_simp
  then obtain y' where y: "ptp_daemon_boot config_default start_example True 1 ptp_port_medium_wifi_ftm system_zero = (True, y')"
    by (metis prod.collapse)
  have c: "\<not> dm_running (sy_daemon system_zero)" "valid_port config_default 1" "nat 1 < min 2 (length (cf_topology config_default))"
    "snd (snd (cf_topology config_default ! nat 1)) = ptp_port_wifi_mode_ap" "cf_ap_via_coprocessor config_default"
    by code_simp+
  have q: "\<forall>k d. dm_running (sn_between start_example k d) = dm_running d \<and>
      egress_of (nat 1) (sn_between start_example k d) = egress_of (nat 1) d" by (simp add: start_example_def)
  show ?thesis using y bootstrap_forgets_publisher [OF y c q] by simp
qed

text \<open>The end of the daemon unregisters the handler of Ethernet events, but not that of Wi-Fi events:
  the event loop keeps calling it with the state that has been freed.\<close>

theorem exit_keeps_wifi_handler:
  assumes "sy_wifi_registered y" "sy_eth_handler y"
  shows "\<not> dm_running (sy_daemon (ptp_daemon_exit handle y)) \<and> sy_wifi_registered (ptp_daemon_exit handle y) \<and>
    \<not> sy_eth_registered (ptp_daemon_exit handle y)"
  using assms by (simp add: ptp_daemon_exit_def ptp_destroy_state_def set_fd_def Let_def)

theorem exit_keeps_wifi_handler_witness:
  "sy_wifi_registered (ptp_daemon_exit True (system_zero\<lparr>sy_wifi_registered := True, sy_eth_handler := True, sy_eth_registered := True\<rparr>))"
  using exit_keeps_wifi_handler [of "system_zero\<lparr>sy_wifi_registered := True, sy_eth_handler := True, sy_eth_registered := True\<rparr>" True] by simp

section \<open>Stations that were there before\<close>

lemma join_missing_spec:
  assumes "peers_inv p" "held p \<subseteq> set ms" "set xs \<subseteq> set ms" "length ms \<le> slot_max" "\<forall>m \<in> set xs. mac_acceptable m"
  shows "peers_inv (join_missing xs p) \<and> held (join_missing xs p) = held p \<union> set xs"
  using assms
proof (induction xs arbitrary: p)
  case (Cons x xs)
  show ?case
  proof (cases "ptp_wifi_peers_find p (Some x)")
    case None
    obtain i q where j: "ptp_wifi_peers_join p (Some x) = (Some i, q)" using Cons.prems by (auto intro: join_room [of p x ms])
    have q: "peers_inv q" "held q = insert x (held p)" using join_inv [OF Cons.prems(1) j] join_held [OF Cons.prems(1) j] by auto
    have "join_missing (x # xs) p = join_missing xs q" using None j by (simp add: join_missing_def)
    moreover have "peers_inv (join_missing xs q) \<and> held (join_missing xs q) = held q \<union> set xs" using Cons.prems q by (intro Cons.IH) auto
    ultimately show ?thesis using q(2) by auto
  next
    case (Some i)
    then have "x \<in> held p" using peers_find_Some unfolding held_def by blast
    moreover have "join_missing (x # xs) p = join_missing xs p" using Some by (simp add: join_missing_def)
    moreover have "peers_inv (join_missing xs p) \<and> held (join_missing xs p) = held p \<union> set xs" using Cons.prems by (intro Cons.IH) auto
    ultimately show ?thesis by auto
  qed
qed (simp add: join_missing_def)

text \<open>Stations that associated before the port came up are in the registry when it does: if the list
  of the driver holds for the registry as it is read, every listed station is associated, and none
  that is not listed.\<close>

theorem stations_seeded:
  assumes "i < num_ports d" "sn_between env 0 d = d" "sn_stations env 0 = Some macs" "length macs \<le> slot_max" "\<forall>m \<in> set macs. mac_acceptable m"
    and "peers_inv (wifi_peers_at d i)" "held (wifi_peers_at d i) \<subseteq> set macs"
  shows "peers_inv (wifi_peers_at (seed_stations env i 0 3 d) i) \<and> held (wifi_peers_at (seed_stations env i 0 3 d) i) = set macs"
proof -
  have "wifi_peers_at (seed_stations env i 0 3 d) i = join_missing macs (wifi_peers_at d i)"
    using assms(1-3) by (simp add: numeral_3_eq_3 map_capable_def)
  then show ?thesis using join_missing_spec [OF assms(6, 7) subset_refl assms(4, 5)] assms(7) by auto
qed

theorem stations_seeded_witness:
  "held (wifi_peers_at (seed_stations start_example 1 0 3 (daemon_zero 2)) 1) = {[2,0,0,0,0,1]}"
proof -
  have a: "1 < num_ports (daemon_zero 2)" "sn_between start_example 0 (daemon_zero 2) = daemon_zero 2"
    "sn_stations start_example 0 = Some [[2,0,0,0,0,1]]" "length [[2,0,0,0,0,1 :: u8]] \<le> slot_max"
    by (simp_all add: daemon_zero_def state_zero_def start_example_def PTP_WIFI_ASSOCIATIONS_MAX_def)
  have m: "\<forall>m \<in> set [[2,0,0,0,0,1 :: u8]]. mac_acceptable m" by code_simp
  have z: "wifi_peers_at (daemon_zero 2) 1 = peers_zero" by code_simp
  have "held peers_zero = {}" by (auto simp: held_def holds_mac_def peers_zero_def peer_zero_def)
  then show ?thesis using stations_seeded [OF a m] z peers_inv_zero by simp
qed

end
