(* ===== verification/Ptp_Status.thy ===== *)
theory Ptp_Status
  imports Ptp_Rx Ptp_Timing
begin

text \<open>
  The status of the daemon (\<^verbatim>\<open>ptp.c\<close>, \<^verbatim>\<open>esp_ptp.h\<close>): what the daemon reports, and the request that asks for
  it.  There is one slot for a request; a caller writes it and waits for a second, the daemon looks
  at it at the end of every pass.
\<close>

section \<open>The report\<close>

record clock_info =
  ci_id :: bytes
  ci_utcoffset :: int
  ci_priority1 :: nat
  ci_clockclass :: nat
  ci_accuracy :: nat
  ci_variance :: nat
  ci_priority2 :: nat
  ci_btc_id :: bytes
  ci_stepsremoved :: nat
  ci_timesource :: nat

record ptpd_status =
  pu_ptp_profile :: ptp_profile_e
  pu_peer_is_endpoint :: bool
  pu_avb_lite_fallback_reason :: u8
  pu_domain :: u8
  pu_link_speed_mbps :: u32
  pu_gm_link_speed_mbps :: u32
  pu_delay_asymmetry_ns :: int
  pu_clock_source_selected :: bool
  pu_selected_path :: ptp_path_trace
  pu_clock_source_valid :: bool
  pu_as_capable :: bool
  pu_clock_source_info :: clock_info
  pu_own_identity_info :: clock_info
  pu_last_clock_update :: timespec
  pu_last_delta_ns :: int
  pu_last_adjtime_ns :: int
  pu_drift_ppb :: int
  pu_path_delay_ns :: int
  pu_peer_delay_ns :: int
  pu_last_received_multicast :: timespec
  pu_last_received_announce :: timespec
  pu_last_received_sync :: timespec
  pu_last_transmitted_sync :: timespec
  pu_last_transmitted_announce :: timespec
  pu_last_transmitted_delayresp :: timespec
  pu_last_transmitted_delayreq :: timespec

definition clock_info_zero :: clock_info where
  "clock_info_zero = \<lparr>ci_id = replicate 8 0, ci_utcoffset = 0, ci_priority1 = 0, ci_clockclass = 0, ci_accuracy = 0, ci_variance = 0,
     ci_priority2 = 0, ci_btc_id = replicate 8 0, ci_stepsremoved = 0, ci_timesource = 0\<rparr>"

definition clock_info_of :: "ptp_announce \<Rightarrow> clock_info" where
  "clock_info_of a =
     \<lparr>ci_id = hd_sourceidentity (an_header a),
      ci_utcoffset = sint (word_of_nat (be16 (an_utcoffset a ! 0) (an_utcoffset a ! 1)) :: u16),
      ci_priority1 = unat (an_btc_priority1 a), ci_clockclass = unat (an_btc_quality a ! 0), ci_accuracy = unat (an_btc_quality a ! 1),
      ci_variance = be16 (an_btc_quality a ! 2) (an_btc_quality a ! 3), ci_priority2 = unat (an_btc_priority2 a), ci_btc_id = an_btc_identity a,
      ci_stepsremoved = be16 (an_stepsremoved a ! 0) (an_stepsremoved a ! 1), ci_timesource = unat (an_timesource a)\<rparr>"

text \<open>\<open>ftm_ready\<close> is the weak symbol \<^verbatim>\<open>ptp_ftm_clock_ready\<close>, None when it is not linked; the other arguments are
  what the station reports of its medium and the readings of the timer.\<close>

definition source_valid :: "ptp_daemon \<Rightarrow> (u32 \<Rightarrow> bool) option \<Rightarrow> int \<Rightarrow> bool" where
  "source_valid d ftm_ready timing_us =
     (let valid = (so_selected_source_valid (dm_source d) \<and> (\<not> dm_gptp d \<or> an_btc_priority1 (so_selected_source (dm_source d)) < 255))
      in case ftm_ready of
           Some ready \<Rightarrow> if valid \<and> dm_use_sw_clock d then ready (tm_generation (snd (ptpd_timing_snapshot d timing_us))) else valid
         | None \<Rightarrow> valid)"

definition status_report ::
  "ptp_config \<Rightarrow> ptp_daemon \<Rightarrow> (u32 \<Rightarrow> bool) option \<Rightarrow> ptp_wifi_media option \<Rightarrow> int \<Rightarrow> int \<Rightarrow> int \<Rightarrow> ptpd_status" where
  "status_report cfg d ftm_ready media timing_us capable_us neighbor_us =
     (let p = port_at d 0; s = dm_source d; v = dm_servo d; selected = so_selected_source_valid s in
      \<lparr>pu_ptp_profile = st_active_ptp_profile (dm_state d), pu_peer_is_endpoint = pl_peer_is_endpoint (po_lite p),
       pu_avb_lite_fallback_reason = st_avb_lite_fallback_reason (dm_state d), pu_domain = cf_domain cfg,
       pu_link_speed_mbps = lk_negotiated_link_mbps (po_link p), pu_gm_link_speed_mbps = so_selected_gm_link_mbps s,
       pu_delay_asymmetry_ns = so_delay_asymmetry_ns s, pu_clock_source_selected = selected,
       pu_selected_path = (if selected then so_selected_path s else []), pu_clock_source_valid = source_valid d ftm_ready timing_us,
       pu_as_capable = (if pg_medium (po_config p) = ptp_port_medium_wifi_ftm then ptp_wifi_capability cfg d 0 media capable_us
                        else ptp_wired_capability cfg d capable_us neighbor_us),
       pu_clock_source_info = (if selected then clock_info_of (so_selected_source s) else clock_info_zero),
       pu_own_identity_info = clock_info_of (st_own_identity (dm_state d)),
       pu_last_clock_update = sv_last_delta_timestamp v, pu_last_delta_ns = sv_last_offset_ns v, pu_last_adjtime_ns = sv_last_adjtime_ns v,
       pu_drift_ppb = sv_drift_ppb v, pu_path_delay_ns = pd_path_delay_ns (po_delay p), pu_peer_delay_ns = pd_peer_delay_ns (po_delay p),
       pu_last_received_multicast = ps_last_received_multicast (po_seen p), pu_last_received_announce = ps_last_received_announce (po_seen p),
       pu_last_received_sync = ps_last_received_sync (po_seen p), pu_last_transmitted_sync = pt_last_transmitted_sync (po_sent p),
       pu_last_transmitted_announce = pt_last_transmitted_announce (po_sent p),
       pu_last_transmitted_delayresp = pt_last_transmitted_delayresp (po_sent p),
       pu_last_transmitted_delayreq = pt_last_transmitted_delayreq (po_sent p)\<rparr>)"

section \<open>The request\<close>

text \<open>A caller is known by a number; the slot holds the number of the caller to answer.  The report is the
  daemon's at that moment.\<close>

definition ptp_process_statusreq :: "'s \<Rightarrow> nat option \<Rightarrow> (nat \<times> 's) list \<times> nat option" where
  "ptp_process_statusreq report slot = (case slot of None \<Rightarrow> ([], None) | Some caller \<Rightarrow> ([(caller, report)], None))"

datatype status_result = Status_ENODEV | Status_requested | Status_ok | Status_timeout

text \<open>A call of \<^verbatim>\<open>ptpd_status\<close> in two steps: it writes the slot, and later finds itself answered or has waited
  long enough.\<close>

definition ptpd_status_begin :: "bool \<Rightarrow> nat \<Rightarrow> nat option \<Rightarrow> status_result \<times> nat option" where
  "ptpd_status_begin running caller slot = (if \<not> running then (Status_ENODEV, slot) else (Status_requested, Some caller))"

definition ptpd_status_end :: "bool \<Rightarrow> nat option \<Rightarrow> status_result \<times> nat option" where
  "ptpd_status_end answered slot = (if answered then (Status_ok, slot) else (Status_timeout, None))"

text \<open>Callers and the daemon in any order: who has asked, who has been answered.\<close>

datatype status_event = Ask nat | Serve | Expire nat

fun status_play :: "status_event list \<Rightarrow> nat option \<Rightarrow> nat list \<Rightarrow> nat option \<times> nat list" where
  "status_play [] slot answered = (slot, answered)"
| "status_play (Ask caller # evs) slot answered = status_play evs (snd (ptpd_status_begin True caller slot)) answered"
| "status_play (Serve # evs) slot answered =
     (let (out, slot) = ptp_process_statusreq () slot in status_play evs slot (answered @ map fst out))"
| "status_play (Expire caller # evs) slot answered = status_play evs (snd (ptpd_status_end (caller \<in> set answered) slot)) answered"

section \<open>What a report says\<close>

text \<open>A status says only what holds of the daemon: a valid source is a selected one whose
  announcement does not forbid it and, on a radio clock, one the transport is ready for; without a
  selected source there is no path and no information of it; the delays are within their limits;
  and the numbers of a clock are those of its announcement, within their ranges.\<close>

theorem status_sound:
  assumes "daemon_inv cfg d" "w = status_report cfg d ftm_ready media timing_us capable_us neighbor_us"
  shows "(pu_clock_source_valid w \<longrightarrow> pu_clock_source_selected w \<and>
      (dm_gptp d \<longrightarrow> ci_priority1 (pu_clock_source_info w) < 255) \<and>
      (\<forall>ready. ftm_ready = Some ready \<and> dm_use_sw_clock d \<longrightarrow> ready (tm_generation (dm_timing d)))) \<and>
    (\<not> pu_clock_source_selected w \<longrightarrow> pu_selected_path w = [] \<and> pu_clock_source_info w = clock_info_zero) \<and>
    0 \<le> pu_path_delay_ns w \<and> pu_path_delay_ns w \<le> cf_max_path_delay_ns cfg \<and>
    0 \<le> pu_peer_delay_ns w \<and> pu_peer_delay_ns w \<le> cf_max_peer_delay_ns cfg \<and>
    - 32768 \<le> ci_utcoffset (pu_own_identity_info w) \<and> ci_utcoffset (pu_own_identity_info w) < 32768 \<and>
    ci_stepsremoved (pu_own_identity_info w) < 65536 \<and> ci_variance (pu_own_identity_info w) < 65536"
proof -
  have i: "delay_inv cfg (po_delay (port_at d 0))" using assms(1) daemon_inv_ports delays_okD unfolding daemon_inv_def by auto
  have b: "be16 x y < 65536" for x y :: u8 by (rule be16_less)
  have u: "- 32768 \<le> sint x \<and> sint x < 32768" for x :: u16 using sint_greater_eq [of x] sint_less [of x] by simp
  have g: "tm_generation (snd (ptpd_timing_snapshot d t)) = tm_generation (dm_timing d)" for t
    by (simp add: ptpd_timing_snapshot_def snapshot_expire_def Let_def)
  have v: "so_selected_source_valid (dm_source d) \<and> (dm_gptp d \<longrightarrow> unat (an_btc_priority1 (so_selected_source (dm_source d))) < 255) \<and>
      (\<forall>ready. ftm_ready = Some ready \<and> dm_use_sw_clock d \<longrightarrow> ready (tm_generation (dm_timing d)))"
    if "source_valid d ftm_ready timing_us"
    using that g by (auto simp: source_valid_def Let_def word_less_nat_alt split: option.splits if_splits)
  show ?thesis
    unfolding assms(2) status_report_def Let_def using v i b u by (simp add: delay_inv_def clock_info_of_def) blast
qed


theorem status_sound_witness:
  "0 \<le> pu_peer_delay_ns (status_report config_default measuring_example None None 0 0 0)"
proof -
  have "daemon_inv config_default measuring_example" by code_simp
  from status_sound [OF this refl] show ?thesis by blast
qed

text \<open>A caller whose request the daemon serves before another caller asks is answered, and at once;
  but of two callers that ask together only the second is, and when the first gives up before the
  daemon looks, it withdraws the request of the second too.\<close>

theorem one_request_at_a_time:
  "status_play (Ask a # Serve # evs) slot answered = status_play evs None (answered @ [a]) \<and>
   snd (status_play [Ask a, Ask b, Serve] None []) = [b] \<and>
   snd (status_play [Ask a, Ask b, Expire a, Serve] None []) = []"
  by (simp_all add: ptpd_status_begin_def ptpd_status_end_def ptp_process_statusreq_def)

end
