(* ===== verification/Ptp_Mailbox.thy ===== *)
theory Ptp_Mailbox
  imports Ptp_Link
begin

text \<open>
  The mailbox and the link handlers of \<^verbatim>\<open>ptp.c\<close> together.  The state is the daemon, the ring of
  injected frames and what the tasks inside \<^verbatim>\<open>ptp_inject_received_frame_from\<close> read in their first
  critical section.  The events are the two critical sections of a producer, the handlers that
  change links, associations and profile, as they are defined in \<open>Ptp_Link\<close> and \<open>Ptp_Profile\<close>
  (each one event), and one pass of the daemon's drain.
\<close>

section \<open>Events\<close>

record mailbox =
  mx_daemon :: ptp_daemon
  mx_ring :: ptp_injected
  mx_read :: "nat \<Rightarrow> u32 list"

datatype mailbox_event =
    Enter nat
  | Store nat int "bytes option" nat "bytes option" "timespec option"
  | Ethernet eth_event
  | Wifi wifi_event
  | Reconcile int u32 u32 "bytes list"
  | Unreported int
  | Rearm
  | Profile_Reset
  | Drain_Pass

definition link_handler :: "ptp_config \<Rightarrow> mailbox_event \<Rightarrow> ptp_daemon \<Rightarrow> ptp_daemon" where
  "link_handler cfg e d =
     (case e of
        Ethernet event \<Rightarrow> ptp_eth_event_handler cfg d event
      | Wifi event \<Rightarrow> ptp_wifi_event_handler cfg d event
      | Reconcile port boot generation macs \<Rightarrow> snd (ptpd_wifi_association_reconcile cfg d port boot generation macs)
      | Unreported port \<Rightarrow> ptpd_wifi_association_unreported cfg d port
      | Rearm \<Rightarrow> ptp_arm_profile_fallback cfg d
      | Profile_Reset \<Rightarrow> ptp_reset_for_profile cfg d
      | _ \<Rightarrow> d)"

text \<open>The second critical section of task \<open>n\<close>, with the generations it read in the first one.\<close>

definition store_result ::
  "ptp_config \<Rightarrow> nat \<Rightarrow> int \<Rightarrow> bytes option \<Rightarrow> nat \<Rightarrow> bytes option \<Rightarrow> timespec option \<Rightarrow> mailbox \<Rightarrow>
     (ptp_errno, unit) sum \<times> ptp_injected" where
  "store_result cfg n port frame len mac received m =
     ptp_inject_received_frame_from cfg (mx_ring m) (mx_read m n) (dm_injected_generation (mx_daemon m))
       received port frame len mac"

text \<open>One event: the frame a drain pass hands on, if any, and the state afterwards.\<close>

definition mailbox_step :: "ptp_config \<Rightarrow> mailbox_event \<Rightarrow> mailbox \<Rightarrow> ptp_injected_frame option \<times> mailbox" where
  "mailbox_step cfg e m =
     (case e of
        Enter n \<Rightarrow> (None, m\<lparr>mx_read := (mx_read m)(n := dm_injected_generation (mx_daemon m))\<rparr>)
      | Store n port frame len mac received \<Rightarrow>
          (None, m\<lparr>mx_ring := snd (store_result cfg n port frame len mac received m)\<rparr>)
      | Drain_Pass \<Rightarrow>
          let (_, handed, ring) = drain_step (mx_ring m) (dm_injected_generation (mx_daemon m))
          in (handed, m\<lparr>mx_ring := ring\<rparr>)
      | _ \<Rightarrow> (None, m\<lparr>mx_daemon := link_handler cfg e (mx_daemon m)\<rparr>))"

fun mailbox_run :: "ptp_config \<Rightarrow> mailbox_event list \<Rightarrow> mailbox \<Rightarrow> mailbox" where
  "mailbox_run cfg [] m = m"
| "mailbox_run cfg (e # es) m = mailbox_run cfg es (snd (mailbox_step cfg e m))"

text \<open>What the frames of a port rely on: nothing while its link is down; otherwise the access
  point or the stations it is associated with.\<close>

definition link_view :: "ptp_daemon \<Rightarrow> nat \<Rightarrow> ((bool \<times> bytes \<times> u32) \<times> (bool \<times> bytes \<times> u32) list) option" where
  "link_view d p =
     (let n = wifi_neighbor_at d p in
      if lk_link_up (po_link (port_at d p))
      then Some ((wn_associated n, wn_bssid n, wn_association n),
                 map (\<lambda>e. (wp_associated e, wp_mac e, wp_association e)) (ws_entries (wifi_peers_at d p)))
      else None)"

text \<open>At some event of the run the link or an association of the port changed.\<close>

fun link_changed :: "ptp_config \<Rightarrow> nat \<Rightarrow> mailbox_event list \<Rightarrow> mailbox \<Rightarrow> bool" where
  "link_changed cfg p [] m = False"
| "link_changed cfg p (e # es) m =
     (let m' = snd (mailbox_step cfg e m) in
      link_view (mx_daemon m') p \<noteq> link_view (mx_daemon m) p \<or> link_changed cfg p es m')"

definition drain_passes :: "mailbox_event list \<Rightarrow> nat" where
  "drain_passes es = length (filter (\<lambda>e. e = Drain_Pass) es)"

fun mailbox_only :: "mailbox_event \<Rightarrow> bool" where
  "mailbox_only (Enter n) = True"
| "mailbox_only (Store n port frame len mac received) = True"
| "mailbox_only Drain_Pass = True"
| "mailbox_only e = False"

section \<open>Every change of a link passes its generation\<close>

text \<open>\<open>d'\<close> is at most \<open>n\<close> increments after \<open>d\<close> on port \<open>p\<close>, at least one if the link changed.\<close>

definition advances :: "nat \<Rightarrow> nat \<Rightarrow> ptp_daemon \<Rightarrow> ptp_daemon \<Rightarrow> bool" where
  "advances n p d d' \<longleftrightarrow>
     num_ports d' = num_ports d \<and> length (dm_injected_generation d') = length (dm_injected_generation d) \<and>
     (\<exists>c \<le> n. dm_injected_generation d' ! p = dm_injected_generation d ! p + of_nat c \<and>
        (link_view d' p \<noteq> link_view d p \<longrightarrow> 0 < c))"

lemma advances_trans:
  assumes "advances n p d d'" "advances k p d' d''"
  shows "advances (n + k) p d d''"
proof -
  obtain c where c: "c \<le> n" "dm_injected_generation d' ! p = dm_injected_generation d ! p + of_nat c"
    "link_view d' p \<noteq> link_view d p \<longrightarrow> 0 < c" using assms(1) by (auto simp: advances_def)
  obtain e where e: "e \<le> k" "dm_injected_generation d'' ! p = dm_injected_generation d' ! p + of_nat e"
    "link_view d'' p \<noteq> link_view d' p \<longrightarrow> 0 < e" using assms(2) by (auto simp: advances_def)
  have "c + e \<le> n + k" "dm_injected_generation d'' ! p = dm_injected_generation d ! p + of_nat (c + e)"
    using c e by (simp_all add: add.assoc)
  moreover have "link_view d'' p \<noteq> link_view d p \<longrightarrow> 0 < c + e" using c(3) e(3) by auto
  ultimately show ?thesis using assms unfolding advances_def by (metis (no_types, lifting))
qed

lemma advances_mono: "advances n p d d' \<Longrightarrow> n \<le> k \<Longrightarrow> advances k p d d'"
  unfolding advances_def by (meson order_trans)

lemma advances_keep:
  assumes "dm_injected_generation d' = dm_injected_generation d" "num_ports d' = num_ports d"
    and "link_view d' p = link_view d p"
  shows "advances n p d d'"
proof -
  have "0 \<le> n \<and> dm_injected_generation d' ! p = dm_injected_generation d ! p + of_nat 0 \<and>
    (link_view d' p \<noteq> link_view d p \<longrightarrow> 0 < (0::nat))" using assms by simp
  then show ?thesis using assms(1,2) unfolding advances_def by (metis (no_types, lifting))
qed

lemma link_view_cong: "port_at d' p = port_at d p \<Longrightarrow> link_view d' p = link_view d p"
  by (simp add: link_view_def Let_def)

lemma advances_bump:
  assumes "dm_injected_generation d' = (dm_injected_generation d)[i := dm_injected_generation d ! i + 1]"
    and "num_ports d' = num_ports d" "\<And>j. j \<noteq> i \<Longrightarrow> port_at d' j = port_at d j" "p < length (dm_injected_generation d)"
  shows "advances 1 p d d'"
proof (cases "p = i")
  case True
  have "1 \<le> (1::nat) \<and> dm_injected_generation d' ! p = dm_injected_generation d ! p + of_nat 1 \<and>
    (link_view d' p \<noteq> link_view d p \<longrightarrow> 0 < (1::nat))" using assms True by simp
  then show ?thesis using assms(1,2) unfolding advances_def by (metis (no_types, lifting) length_list_update)
next
  case False
  have "link_view d' p = link_view d p" by (rule link_view_cong [OF assms(3) [OF False]])
  then have "0 \<le> (1::nat) \<and> dm_injected_generation d' ! p = dm_injected_generation d ! p + of_nat 0 \<and>
    (link_view d' p \<noteq> link_view d p \<longrightarrow> 0 < (0::nat))" using assms(1) False by simp
  then show ?thesis using assms(1,2) unfolding advances_def by (metis (no_types, lifting) length_list_update)
qed

text \<open>A step increments all generations, or at most two are passed with the change of the link.\<close>

lemma advances_all:
  assumes "dm_injected_generation d' = map (\<lambda>g. g + 1) (dm_injected_generation d)" "num_ports d' = num_ports d"
    and "p < length (dm_injected_generation d)"
  shows "advances 1 p d d'"
proof -
  have "1 \<le> (1::nat) \<and> dm_injected_generation d' ! p = dm_injected_generation d ! p + of_nat 1 \<and>
    (link_view d' p \<noteq> link_view d p \<longrightarrow> 0 < (1::nat))" using assms by simp
  then show ?thesis using assms(1,2) unfolding advances_def by (metis (no_types, lifting) length_map)
qed

lemma map_port_gen [simp]: "dm_injected_generation (map_port i f d) = dm_injected_generation d"
  by (simp add: map_port_def)

lemma port_at_other: "j \<noteq> i \<Longrightarrow> port_at (map_port i f d) j = port_at d j"
  by (simp add: map_port_def port_at_def)

lemma port_at_gen [simp]: "port_at (d\<lparr>dm_injected_generation := g\<rparr>) j = port_at d j"
  by (simp add: port_at_def)

lemma set_link_advances:
  assumes "p < length (dm_injected_generation d)"
  shows "advances 1 p d (ptp_set_port_link cfg d port up)"
proof (cases "\<exists>i. port = Some i \<and> i < cf_num_ports cfg \<and> lk_link_up (po_link (port_at d i)) \<noteq> up")
  case True
  then obtain i where i: "port = Some i" "i < cf_num_ports cfg" "lk_link_up (po_link (port_at d i)) \<noteq> up" by blast
  show ?thesis
    by (rule advances_bump [where i = i])
      (use assms i in \<open>simp_all add: ptp_set_port_link_def Let_def port_at_other bump_generation_def\<close>)
next
  case False
  then have "ptp_set_port_link cfg d port up = d" by (auto simp: ptp_set_port_link_def split: option.split)
  then show ?thesis by (simp add: advances_keep)
qed

lemma reset_advances:
  assumes "p < length (dm_injected_generation d)"
  shows "advances 1 p d (ptp_reset_for_profile cfg d)"
  by (rule advances_all)
    (use assms in \<open>simp_all add: ptp_reset_for_profile_def Let_def ptp_clean_after_step_def ptp_update_delay_asymmetry_def
        ptp_reset_unicast_delay_req_def split_beta\<close>)

lemma rearm_advances:
  assumes "p < length (dm_injected_generation d)"
  shows "advances 1 p d (ptp_arm_profile_fallback cfg d)"
proof -
  define e where "e = (if st_active_ptp_profile (dm_state d) \<noteq> st_preferred_ptp_profile (dm_state d)
    then ptp_reset_for_profile cfg (map_state (\<lambda>s. s\<lparr>st_active_ptp_profile := st_preferred_ptp_profile s\<rparr>) d) else d)"
  have s: "advances 0 p x (map_state f x)" if "\<And>s. st_port (f s) = st_port s" for x f
    using that by (intro advances_keep link_view_cong) (simp_all add: port_at_def)
  have e: "advances 1 p d e"
  proof (cases "st_active_ptp_profile (dm_state d) \<noteq> st_preferred_ptp_profile (dm_state d)")
    case True
    have "advances (0 + 1) p d (ptp_reset_for_profile cfg (map_state (\<lambda>s. s\<lparr>st_active_ptp_profile := st_preferred_ptp_profile s\<rparr>) d))"
      by (rule advances_trans [OF s reset_advances]) (use assms in simp_all)
    then show ?thesis using True by (simp add: e_def)
  qed (simp add: e_def advances_keep)
  have r: "advances 0 p x (map_port 0 rearm_port (map_state f x))" if "\<And>s. st_port (f s) = st_port s" for x f
  proof -
    have "link_view (map_port 0 rearm_port y) p = link_view y p" for y
    proof (cases "p = 0 \<and> 0 < num_ports y")
      case True
      then show ?thesis by (simp add: link_view_def rearm_port_def Let_def)
    next
      case False
      have "port_at (map_port 0 rearm_port y) p = port_at y p"
        using False by (cases "p = 0") (simp_all add: map_port_def port_at_def list_update_beyond)
      then show ?thesis by (rule link_view_cong)
    qed
    then have "advances 0 p y (map_port 0 rearm_port y)" for y by (intro advances_keep) simp_all
    from advances_trans [OF s [OF that] this] show ?thesis by simp
  qed
  show ?thesis
    using advances_trans [OF e s] advances_trans [OF e r]
    by (simp add: ptp_arm_profile_fallback_def e_def [symmetric] Let_def)
qed

lemma eth_advances:
  assumes "p < length (dm_injected_generation d)"
  shows "advances 2 p d (ptp_eth_event_handler cfg d e)"
proof -
  have l: "advances 1 p d (ptp_set_port_link cfg d port up)" for port up by (rule set_link_advances [OF assms])
  have "advances (1 + 1) p d (ptp_arm_profile_fallback cfg (ptp_set_port_link cfg d port up))" for port up
    by (rule advances_trans [OF l rearm_advances]) (use assms l [of port up] in \<open>simp add: advances_def\<close>)
  then show ?thesis
    using l by (cases e) (simp_all add: ptp_eth_event_handler_def Let_def advances_mono [OF l] advances_keep numeral_2_eq_2)
qed

lemma link_map_capable [simp]: "po_link (port_at (map_capable i f d) j) = po_link (port_at d j)"
proof (cases "i < num_ports d")
  case True
  then show ?thesis by (simp add: map_capable_def)
qed (simp add: map_capable_def map_port_def port_at_def list_update_beyond)

lemma map_capable_frame [simp]:
  "dm_injected_generation (map_capable i f d) = dm_injected_generation d" "num_ports (map_capable i f d) = num_ports d"
  "j \<noteq> i \<Longrightarrow> port_at (map_capable i f d) j = port_at d j"
  by (simp_all add: map_capable_def port_at_other)

lemma capable_bump_advances:
  "p < length (dm_injected_generation d) \<Longrightarrow> advances 1 p d (bump_generation i (map_capable i f d))"
  by (rule advances_bump [where i = i]) (simp_all add: bump_generation_def)

lemma capable_down_advances:
  assumes "p < length (dm_injected_generation d)" "i < cf_num_ports cfg"
  shows "advances 1 p d (ptp_set_port_link cfg (map_capable i f d) (Some i) False)"
proof (cases "lk_link_up (po_link (port_at d i))")
  case True
  then show ?thesis
    by (intro advances_bump [where i = i])
      (use assms in \<open>simp_all add: ptp_set_port_link_def Let_def port_at_other bump_generation_def\<close>)
next
  case False
  then have "link_view (map_capable i f d) p = link_view d p"
    by (cases "p = i") (simp_all add: link_view_def Let_def)
  moreover have "ptp_set_port_link cfg (map_capable i f d) (Some i) False = map_capable i f d"
    using False by (simp add: ptp_set_port_link_def)
  ultimately show ?thesis by (simp add: advances_keep)
qed

lemma wifi_advances:
  assumes "p < length (dm_injected_generation d)"
  shows "advances 2 p d (ptp_wifi_event_handler cfg d w)"
proof (cases "ptp_find_port_by_medium cfg d ptp_port_medium_wifi_ftm")
  case None
  then show ?thesis by (simp add: ptp_wifi_event_handler_def advances_keep)
next
  case (Some i)
  have i: "i < cf_num_ports cfg" using find_port_bound [OF Some] .
  have k: "advances 2 p d d" by (simp add: advances_keep)
  have l: "advances 2 p d (ptp_set_port_link cfg d port up)" for port up
    by (rule advances_mono [OF set_link_advances [OF assms]]) simp
  have c: "advances 2 p d (bump_generation i (map_capable i f d))" for f
    by (rule advances_mono [OF capable_bump_advances [OF assms]]) simp
  have x: "advances 2 p d (ptp_set_port_link cfg (map_capable i f d) (Some i) False)" for f
    by (rule advances_mono [OF capable_down_advances [OF assms i]]) simp
  have "advances (1 + 1) p d (ptp_set_port_link cfg (bump_generation i (map_capable i f d)) (Some i) True)" for f
    by (rule advances_trans [OF capable_bump_advances [OF assms] set_link_advances]) (use assms in simp)
  then have b: "advances 2 p d (ptp_set_port_link cfg (bump_generation i (map_capable i f d)) (Some i) True)" for f
    by (simp add: numeral_2_eq_2)
  show ?thesis
    by (cases w) (simp_all add: ptp_wifi_event_handler_def Some Let_def associate_port_def k l c x b)
qed

text \<open>A reconciliation that changes the list of stations changes the registry's generation.\<close>

lemma join_all_generation:
  "\<exists>k \<le> length macs. ws_generation (join_all macs q) = (bump32 ^^ k) (ws_generation q)"
proof (induction macs arbitrary: q)
  case (Cons m ms)
  define r where "r = snd (ptp_wifi_peers_join q (Some m))"
  have r: "ws_generation r = ws_generation q \<or> ws_generation r = bump32 (ws_generation q)"
    by (simp add: r_def ptp_wifi_peers_join_def ptp_wifi_peers_advance_def Let_def split: option.split)
  obtain k where k: "k \<le> length ms" "ws_generation (join_all ms r) = (bump32 ^^ k) (ws_generation r)" using Cons.IH by blast
  have j: "join_all (m # ms) q = join_all ms r" by (simp add: join_all_def r_def)
  from r show ?case
  proof
    assume "ws_generation r = ws_generation q"
    then show ?thesis using k j by (intro exI [of _ k]) simp
  next
    assume "ws_generation r = bump32 (ws_generation q)"
    then show ?thesis using k j by (intro exI [of _ "Suc k"]) (simp add: funpow_swap1)
  qed
qed (simp add: join_all_def)

lemma unat_u32_less: "unat (x :: u32) < 2 ^ 32"
  by (rule order_less_le_trans [OF unsigned_less]) simp

lemma unat_bump32: "unat (bump32 x) = (if unat x = 2 ^ 32 - 1 then 1 else unat x + 1)"
proof -
  have s: "unat (x + 1) = (unat x + 1) mod 2 ^ 32" by (simp add: unat_word_ariths)
  have b: "unat x < 2 ^ 32" by (rule unat_u32_less)
  have z: "x + 1 = 0 \<longleftrightarrow> unat (x + 1) = 0" by (rule unat_eq_zero [symmetric])
  show ?thesis
  proof (cases "unat x = 2 ^ 32 - 1")
    case True
    then have "unat (x + 1) = 0" using s by simp
    then show ?thesis using True z by (simp add: bump32_def)
  next
    case False
    then have "unat (x + 1) = unat x + 1" using s b by simp
    then show ?thesis using False z by (simp add: bump32_def)
  qed
qed

lemma bump32_no_return:
  assumes "0 < k" "k < 2 ^ 32 - 1"
  shows "(bump32 ^^ k) x \<noteq> x"
proof
  assume e: "(bump32 ^^ k) x = x"
  have p: "unat ((bump32 ^^ n) x) = (if unat x + n < 2 ^ 32 then unat x + n else unat x + n - (2 ^ 32 - 1))"
    if "n < 2 ^ 32 - 1" for n
    using that
  proof (induction n)
    case (Suc n)
    then show ?case using unat_u32_less [of x] by (simp add: unat_bump32) arith
  qed (use unat_u32_less [of x] in simp)
  show False using p [OF assms(2)] e assms by (simp split: if_splits)
qed

lemma reconcile_generation:
  assumes "ptp_wifi_peers_reconcile q boot gen macs = (ok, q')" "ws_generation q' = ws_generation q"
  shows "ws_entries q' = ws_entries q"
proof (rule ccontr)
  assume n: "ws_entries q' \<noteq> ws_entries q"
  define r where "r = ptp_wifi_peers_advance (q\<lparr>ws_entries := drop_unreported macs (ws_entries q)\<rparr>)"
  have g: "ws_generation q' = ws_generation (join_all macs r)" "length macs \<le> PTP_WIFI_PEERS_MAX"
    using assms(1) n by (auto simp: ptp_wifi_peers_reconcile_def r_def Let_def split: if_splits)
  obtain k where k: "k \<le> length macs" "ws_generation (join_all macs r) = (bump32 ^^ k) (ws_generation r)"
    using join_all_generation by blast
  have "ws_generation q' = (bump32 ^^ Suc k) (ws_generation q)"
    using g(1) k(2) by (simp add: r_def ptp_wifi_peers_advance_def funpow_swap1)
  moreover have "Suc k < 2 ^ 32 - 1" using k(1) g(2) by (simp add: PTP_WIFI_ASSOCIATIONS_MAX_def)
  ultimately show False using bump32_no_return [of "Suc k" "ws_generation q"] assms(2) by simp
qed

lemma reconcile_advances:
  assumes "p < length (dm_injected_generation d)"
  shows "advances 1 p d (snd (ptpd_wifi_association_reconcile cfg d port boot gen macs))"
proof (cases "valid_port cfg port \<and> dm_running d \<and> radio_ready d (nat port) ptp_port_wifi_mode_ap")
  case False
  then have "snd (ptpd_wifi_association_reconcile cfg d port boot gen macs) = d"
    by (auto simp: ptpd_wifi_association_reconcile_def Let_def)
  then show ?thesis by (simp add: advances_keep)
next
  case True
  define i where "i = nat port"
  obtain ok q where q: "ptp_wifi_peers_reconcile (wifi_peers_at d i) boot gen macs = (ok, q)" by force
  define q' where "q' = (if ok then q\<lparr>ws_unreported := False\<rparr> else q)"
  have r: "snd (ptpd_wifi_association_reconcile cfg d port boot gen macs) =
      (if ok \<and> ws_generation (wifi_peers_at d i) \<noteq> ws_generation q
       then bump_generation i (map_capable i (\<lambda>k. k\<lparr>pk_wifi_peers := q'\<rparr>) d)
       else map_capable i (\<lambda>k. k\<lparr>pk_wifi_peers := q'\<rparr>) d)"
    using True q by (simp add: ptpd_wifi_association_reconcile_def i_def q'_def Let_def)
  show ?thesis
  proof (cases "ok \<and> ws_generation (wifi_peers_at d i) \<noteq> ws_generation q")
    case changed: True
    then show ?thesis using r capable_bump_advances [OF assms] by simp
  next
    case same: False
    have "ws_entries q' = ws_entries (wifi_peers_at d i)"
    proof (cases ok)
      case True
      then show ?thesis using same reconcile_generation [OF q] by (simp add: q'_def)
    next
      case False
      then have "q = wifi_peers_at d i" using q by (auto simp: ptp_wifi_peers_reconcile_def Let_def split: if_splits)
      then show ?thesis using False by (simp add: q'_def)
    qed
    then have "link_view (map_capable i (\<lambda>k. k\<lparr>pk_wifi_peers := q'\<rparr>) d) p = link_view d p"
    proof (cases "p = i \<and> i < num_ports d")
      case True
      then show ?thesis using \<open>ws_entries q' = ws_entries (wifi_peers_at d i)\<close>
        by (simp add: link_view_def map_capable_def Let_def)
    next
      case False
      then have "port_at (map_capable i (\<lambda>k. k\<lparr>pk_wifi_peers := q'\<rparr>) d) p = port_at d p"
        by (cases "p = i") (simp_all add: map_capable_def map_port_def port_at_def list_update_beyond)
      then show ?thesis by (rule link_view_cong)
    qed
    then show ?thesis using r same by (simp add: advances_keep)
  qed
qed

lemma unreported_advances:
  "p < length (dm_injected_generation d) \<Longrightarrow> advances 1 p d (ptpd_wifi_association_unreported cfg d port)"
  using capable_bump_advances [of p d "nat port"] by (auto simp: ptpd_wifi_association_unreported_def Let_def advances_keep)

lemma step_advances:
  assumes "p < length (dm_injected_generation (mx_daemon m))"
  shows "advances 2 p (mx_daemon m) (mx_daemon (snd (mailbox_step cfg e m)))"
  using eth_advances [OF assms] wifi_advances [OF assms] advances_mono [OF rearm_advances [OF assms], of 2]
    advances_mono [OF reset_advances [OF assms], of 2] advances_mono [OF reconcile_advances [OF assms], of 2]
    advances_mono [OF unreported_advances [OF assms], of 2]
  by (cases e) (simp_all add: mailbox_step_def link_handler_def advances_keep split_beta Let_def)

lemma run_advances:
  "p < length (dm_injected_generation (mx_daemon m)) \<Longrightarrow>
   \<exists>c \<le> 2 * length es.
     dm_injected_generation (mx_daemon (mailbox_run cfg es m)) ! p = dm_injected_generation (mx_daemon m) ! p + of_nat c \<and>
     (link_changed cfg p es m \<longrightarrow> 0 < c)"
proof (induction es arbitrary: m)
  case (Cons e es)
  let ?m = "snd (mailbox_step cfg e m)"
  obtain c where c: "c \<le> 2" "link_view (mx_daemon ?m) p \<noteq> link_view (mx_daemon m) p \<longrightarrow> 0 < c"
    "dm_injected_generation (mx_daemon ?m) ! p = dm_injected_generation (mx_daemon m) ! p + of_nat c"
    and l: "length (dm_injected_generation (mx_daemon ?m)) = length (dm_injected_generation (mx_daemon m))"
    using step_advances [OF Cons.prems, of cfg e] unfolding advances_def by blast
  obtain k where k: "k \<le> 2 * length es" "link_changed cfg p es ?m \<longrightarrow> 0 < k"
    "dm_injected_generation (mx_daemon (mailbox_run cfg es ?m)) ! p = dm_injected_generation (mx_daemon ?m) ! p + of_nat k"
    using Cons.IH [of ?m] Cons.prems l by auto
  show ?case
  proof (intro exI [of _ "c + k"] conjI)
    show "c + k \<le> 2 * length (e # es)" using c(1) k(1) by simp
    show "link_changed cfg p (e # es) m \<longrightarrow> 0 < c + k" using c(2) k(2) by (auto simp: Let_def)
  qed (simp add: c(3) k(3) add.assoc)
qed simp

section \<open>The frame in the ring\<close>

lemma store_ring:
  "snd (store_result cfg n port frame len mac t m) = mx_ring m \<or>
   (\<exists>x. ring_store (mx_ring m) x = Some (snd (store_result cfg n port frame len mac t m)))"
  by (auto simp: store_result_def ptp_inject_received_frame_from_def Let_def split: option.split)

lemma store_accepted:
  assumes "fst (store_result cfg n port frame len mac received m) = Inr ()"
  shows "\<exists>f t. frame = Some f \<and> received = Some t \<and> valid_port cfg port \<and>
    mx_read m n ! nat port = dm_injected_generation (mx_daemon m) ! nat port \<and>
    ring_store (mx_ring m) (injected_frame (nat port) (mx_read m n ! nat port) f len mac t) =
      Some (snd (store_result cfg n port frame len mac received m))"
  using assms by (auto simp: store_result_def ptp_inject_received_frame_from_def Let_def split: option.splits if_splits)

lemma step_read: "e \<noteq> Enter n \<Longrightarrow> mx_read (snd (mailbox_step cfg e m)) n = mx_read m n"
  by (cases e) (auto simp: mailbox_step_def split_beta Let_def)

lemma run_read: "Enter n \<notin> set es \<Longrightarrow> mx_read (mailbox_run cfg es m) n = mx_read m n"
  by (induction es arbitrary: m) (auto simp: step_read)

lemma step_ring_inv:
  assumes "ring_inv (mx_ring m)"
  shows "ring_inv (mx_ring (snd (mailbox_step cfg e m)))"
proof (cases e)
  case (Store n port frame len mac t)
  show ?thesis
    using store_ring [of cfg n port frame len mac t m] ring.push_content [OF assms] assms
    by (auto simp: Store mailbox_step_def)
next
  case Drain_Pass
  then show ?thesis using ring.pop_content [OF assms] assms
    by (auto simp: mailbox_step_def drain_step_def split: option.split)
qed (use assms in \<open>simp_all add: mailbox_step_def\<close>)

lemma run_ring_inv: "ring_inv (mx_ring m) \<Longrightarrow> ring_inv (mx_ring (mailbox_run cfg es m))"
  by (induction es arbitrary: m) (auto simp: step_ring_inv)

lemma step_ring:
  assumes "ring_inv (mx_ring m)"
  shows "if e = Drain_Pass then ring_content (mx_ring (snd (mailbox_step cfg e m))) = tl (ring_content (mx_ring m))
    else \<exists>xs. ring_content (mx_ring (snd (mailbox_step cfg e m))) = ring_content (mx_ring m) @ xs"
proof (cases e)
  case (Store n port frame len mac t)
  show ?thesis
    using store_ring [of cfg n port frame len mac t m] ring.push_content [OF assms]
    by (auto simp: Store mailbox_step_def)
next
  case Drain_Pass
  show ?thesis
  proof (cases "ring_content (mx_ring m)")
    case Nil
    then show ?thesis using ring.pop_empty [OF assms Nil] by (simp add: Drain_Pass mailbox_step_def drain_step_def)
  next
    case (Cons x xs)
    then obtain r where "ring_take (mx_ring m) = Some (x, r)" "ring_content r = xs" using ring.pop_item [OF assms] by blast
    then show ?thesis using Cons by (simp add: Drain_Pass mailbox_step_def drain_step_def)
  qed
qed (simp_all add: mailbox_step_def)

lemma run_ring_front:
  "ring_inv (mx_ring m) \<Longrightarrow> ring_content (mx_ring m) = pre @ f # post \<Longrightarrow> drain_passes es = length pre \<Longrightarrow>
   \<exists>post'. ring_content (mx_ring (mailbox_run cfg es m)) = f # post'"
proof (induction es arbitrary: m pre post)
  case (Cons e es)
  note s = step_ring [OF Cons.prems(1), of e cfg] step_ring_inv [OF Cons.prems(1), of cfg e]
  show ?case
  proof (cases "e = Drain_Pass")
    case True
    then obtain x xs where "pre = x # xs" using Cons.prems(3) by (cases pre) (auto simp: drain_passes_def)
    then show ?thesis using Cons.IH [OF s(2), of xs post] s(1) Cons.prems True by (simp add: drain_passes_def)
  next
    case False
    then obtain ys where "ring_content (mx_ring (snd (mailbox_step cfg e m))) = pre @ f # post @ ys"
      using s(1) Cons.prems(2) by auto
    then show ?thesis using Cons.IH [OF s(2), of pre "post @ ys"] Cons.prems(3) False by (simp add: drain_passes_def)
  qed
qed (simp add: drain_passes_def)

lemma run_append: "mailbox_run cfg (es @ fs) m = mailbox_run cfg fs (mailbox_run cfg es m)"
  by (induction es arbitrary: m) simp_all

lemma link_changed_append:
  "link_changed cfg p (es @ fs) m = (link_changed cfg p es m \<or> link_changed cfg p fs (mailbox_run cfg es m))"
  by (induction es arbitrary: m) (auto simp: Let_def)

lemma mailbox_only_daemon: "mailbox_only e \<Longrightarrow> mx_daemon (snd (mailbox_step cfg e m)) = mx_daemon m"
  by (cases e) (simp_all add: mailbox_step_def split_beta Let_def)

lemma run_mailbox_only: "list_all mailbox_only es \<Longrightarrow> mx_daemon (mailbox_run cfg es m) = mx_daemon m"
  by (induction es arbitrary: m) (simp_all add: mailbox_only_daemon)

text \<open>C13. No frame crosses a link change.  A producer enters and later stores its frame; before,
  between and after, in any order, come the events of links, associations and profile, the sections
  of other producers and passes of the drain.  If the frame is stored, the link and the
  associations of its port have not changed since the producer entered.  The pass that takes the frame
  out - after one for each frame queued before it - drops it if they have changed at any time
  since then, and hands it on unchanged if only the mailbox was used meanwhile.  The run is shorter than
  half of what the generation counter can tell apart.\<close>

theorem frame_never_crosses_link_change:
  fixes cfg :: ptp_config and m :: mailbox and es1 es2 :: "mailbox_event list" and port :: int
    and n len :: nat and frame mac :: "bytes option" and received :: "timespec option"
  defines "es \<equiv> Enter n # es1 @ Store n port frame len mac received # es2"
    and "m1 \<equiv> mailbox_run cfg (Enter n # es1) m"
    and "handed \<equiv> fst (mailbox_step cfg Drain_Pass
      (mailbox_run cfg (Enter n # es1 @ Store n port frame len mac received # es2) m))"
  assumes "daemon_wf cfg (mx_daemon m)" "ring_inv (mx_ring m)" "Enter n \<notin> set es1" "length es < 2 ^ 31"
    and "fst (store_result cfg n port frame len mac received m1) = Inr ()" "drain_passes es2 = ij_count (mx_ring m1)"
  shows "\<not> link_changed cfg (nat port) (Enter n # es1) m \<and>
    (\<exists>f t ring'. frame = Some f \<and> received = Some t \<and>
      (let stored = injected_frame (nat port) (dm_injected_generation (mx_daemon m) ! nat port) f len mac t
       in ring_take (mx_ring (mailbox_run cfg es m)) = Some (stored, ring') \<and>
          (link_changed cfg (nat port) es m \<longrightarrow> handed = None) \<and>
          (list_all mailbox_only (es1 @ es2) \<longrightarrow> handed = Some stored)))"
proof -
  define p where "p = nat port"
  define g where "g = dm_injected_generation (mx_daemon m) ! p"
  define m2 where "m2 = mailbox_run cfg es m"
  define st where "st = Store n port frame len mac received"
  obtain f t where f: "frame = Some f" "received = Some t" "valid_port cfg port"
    "mx_read m1 n ! p = dm_injected_generation (mx_daemon m1) ! p"
    and store: "ring_store (mx_ring m1) (injected_frame p (mx_read m1 n ! p) f len mac t) =
      Some (snd (store_result cfg n port frame len mac received m1))"
    using store_accepted [OF assms(8)] by (auto simp: p_def)
  have len: "p < length (dm_injected_generation (mx_daemon m))"
    using assms(4) f(3) by (auto simp: daemon_wf_def valid_port_def p_def)
  have "mx_read m1 n = dm_injected_generation (mx_daemon m)"
    using run_read [OF assms(6)] by (simp add: m1_def mailbox_step_def)
  then have read: "mx_read m1 n ! p = g" by (simp add: g_def)
  define stored where "stored = injected_frame p g f len mac t"
  have "\<not> link_changed cfg p (Enter n # es1) m"
  proof
    assume c: "link_changed cfg p (Enter n # es1) m"
    obtain c where "c \<le> 2 * length (Enter n # es1)" "dm_injected_generation (mx_daemon m1) ! p = g + of_nat c" "0 < c"
      using run_advances [OF len, of "Enter n # es1" cfg] c by (auto simp: m1_def g_def)
    then show False using word_add_of_nat_neq [of c g] f(4) read assms(7) by (simp add: es_def)
  qed
  moreover have take: "\<exists>ring'. ring_take (mx_ring m2) = Some (stored, ring')"
  proof -
    have inv: "ring_inv (mx_ring m1)" using run_ring_inv [OF assms(5)] unfolding m1_def by blast
    have "ring_content (mx_ring (snd (mailbox_step cfg st m1))) = ring_content (mx_ring m1) @ stored # []"
      "ring_inv (mx_ring (snd (mailbox_step cfg st m1)))"
      using ring.push_content [OF inv store] by (simp_all add: st_def mailbox_step_def stored_def read)
    then obtain post where "ring_content (mx_ring m2) = stored # post"
      using run_ring_front [of "snd (mailbox_step cfg st m1)" "ring_content (mx_ring m1)" stored "[]" es2 cfg] assms(9)
      by (auto simp: m2_def es_def st_def m1_def run_append)
    then show ?thesis using ring.pop_item [OF run_ring_inv [OF assms(5), of cfg es]] by (auto simp: m2_def)
  qed
  moreover have "handed = None" if changed: "link_changed cfg p es m"
  proof -
    obtain c where "c \<le> 2 * length es" "dm_injected_generation (mx_daemon m2) ! p = g + of_nat c" "0 < c"
      using run_advances [OF len, of es cfg] changed by (auto simp: m2_def g_def)
    then have "dm_injected_generation (mx_daemon m2) ! p \<noteq> g" using word_add_of_nat_neq [of c g] assms(7) by simp
    then show ?thesis using take
      by (auto simp: handed_def mailbox_step_def drain_step_def stored_def injected_frame_def m2_def es_def)
  qed
  moreover have "handed = Some stored" if "list_all mailbox_only (es1 @ es2)"
  proof -
    have "mx_daemon m2 = mx_daemon m" unfolding m2_def by (rule run_mailbox_only) (use that in \<open>simp add: es_def\<close>)
    then show ?thesis using take
      by (auto simp: handed_def mailbox_step_def drain_step_def stored_def injected_frame_def m2_def es_def g_def)
  qed
  ultimately show ?thesis using f(1,2) by (auto simp: p_def [symmetric] g_def stored_def m2_def Let_def)
qed

text \<open>An access point with one station: a frame of another producer is queued first; then the
  station leaves, or stays.\<close>

definition mailbox_example :: mailbox where
  "mailbox_example = \<lparr>mx_daemon = access_point_example, mx_ring = injected_zero\<lparr>ij_enabled := True\<rparr>, mx_read = (\<lambda>_. [])\<rparr>"

definition example_store :: "nat \<Rightarrow> mailbox_event" where
  "example_store n = Store n 1 (Some (replicate 60 (of_nat n))) 60 (Some [2, 0, 0, 0, 0, 1]) (Some timespec_zero)"

theorem frame_never_crosses_link_change_witness:
  "(let handed = (\<lambda>es. fst (mailbox_step config_default Drain_Pass (mailbox_run config_default
      (Enter 7 # [Enter 3, example_store 3] @ example_store 7 # es) mailbox_example))) in
    handed [Wifi (WIFI_EVENT_AP_STADISCONNECTED (Some [2, 0, 0, 0, 0, 1])), Drain_Pass] = None \<and>
    map_option ij_message (handed [Drain_Pass, Enter 2, example_store 2]) = Some (replicate 60 7 @ replicate 196 0))"
proof -
  let ?leaves = "[Wifi (WIFI_EVENT_AP_STADISCONNECTED (Some [2, 0, 0, 0, 0, 1])), Drain_Pass]"
  let ?stays = "[Drain_Pass, Enter 2, example_store 2]"
  have wf: "daemon_wf config_default (mx_daemon mailbox_example)" "ring_inv (mx_ring mailbox_example)"
    and r: "fst (store_result config_default 7 1 (Some (replicate 60 7)) 60 (Some [2, 0, 0, 0, 0, 1]) (Some timespec_zero)
      (mailbox_run config_default (Enter 7 # [Enter 3, example_store 3]) mailbox_example)) = Inr ()"
    and c: "ij_count (mx_ring (mailbox_run config_default (Enter 7 # [Enter 3, example_store 3]) mailbox_example)) = 1"
    and l: "link_changed config_default (nat 1) (Enter 7 # [Enter 3, example_store 3] @ example_store 7 # ?leaves) mailbox_example"
    by code_simp+
  have e: "example_store 7 = Store 7 1 (Some (replicate 60 7)) 60 (Some [2, 0, 0, 0, 0, 1]) (Some timespec_zero)"
    by (simp add: example_store_def)
  have n: "Enter 7 \<notin> set [Enter 3, example_store 3]" by (simp add: example_store_def)
  note t = frame_never_crosses_link_change [OF wf n _ r, folded e]
  have "fst (mailbox_step config_default Drain_Pass (mailbox_run config_default
      (Enter 7 # [Enter 3, example_store 3] @ example_store 7 # ?leaves) mailbox_example)) = None"
    using t [of ?leaves] c l by (simp add: drain_passes_def Let_def)
  moreover have "map_option ij_message (fst (mailbox_step config_default Drain_Pass (mailbox_run config_default
      (Enter 7 # [Enter 3, example_store 3] @ example_store 7 # ?stays) mailbox_example))) = Some (replicate 60 7 @ replicate 196 0)"
    using t [of ?stays] c by (auto simp: drain_passes_def example_store_def injected_frame_def Let_def)
  ultimately show ?thesis by (simp only: Let_def)
qed

end
