(* ===== verification/Ptp_Invariant.thy ===== *)
theory Ptp_Invariant
  imports Ptp_Loop Ptp_Mailbox
begin

text \<open>
  What holds of the daemon all the time: a run interleaves passes of its loop (\<open>Ptp_Loop\<close>) with
  what other tasks do to its state, the link handlers and the producers of the mailbox
  (\<open>Ptp_Mailbox\<close>).  Beside the limits of the averaged delays (\<open>daemon_inv\<close>) the invariant has the
  registries of the associated stations, the servo's rates and the index into its ring, the
  length of the stored path and the mailbox.
\<close>

section \<open>The state\<close>

definition servo_range :: "ptp_servo \<Rightarrow> bool" where
  "servo_range s \<longleftrightarrow> servo_inv s \<and> length (sv_drift_ring s) = PTP_FREQ_STABLE_WIN \<and>
     sv_drift_ring_pos s < PTP_FREQ_STABLE_WIN \<and> sv_drift_ring_count s \<le> PTP_FREQ_STABLE_WIN"

definition path_fits :: "ptp_source \<Rightarrow> bool" where
  "path_fits s \<longleftrightarrow> length (so_selected_path s) \<le> PTP_PATH_TRACE_MAX_CLOCKS"

definition state_inv :: "ptp_config \<Rightarrow> ptp_daemon \<Rightarrow> bool" where
  "state_inv cfg d \<longleftrightarrow> registries_ok cfg d \<and> servo_range (dm_servo d) \<and> path_fits (dm_source d)"

named_theorems state_intros \<open>operations that preserve the state's invariant\<close>

lemma state_cong:
  "st_port (dm_state d') = st_port (dm_state d) \<Longrightarrow> dm_servo d' = dm_servo d \<Longrightarrow> dm_source d' = dm_source d \<Longrightarrow>
   length (dm_injected_generation d') = length (dm_injected_generation d) \<Longrightarrow> state_inv cfg d' = state_inv cfg d"
  by (simp add: state_inv_def registries_ok_def daemon_wf_def port_at_def)

lemma state_map_state [simp]:
  "(\<And>s. st_port (f s) = st_port s) \<Longrightarrow> (\<And>s. st_servo (f s) = st_servo s) \<Longrightarrow> (\<And>s. st_source (f s) = st_source s) \<Longrightarrow>
   state_inv cfg (map_state f d) = state_inv cfg d"
  by (rule state_cong) simp_all

lemma state_fields [simp]:
  "state_inv cfg (map_gm h d) = state_inv cfg d" "state_inv cfg (count_rx c d) = state_inv cfg d"
  "state_inv cfg (d\<lparr>dm_timing := t\<rparr>) = state_inv cfg d" "state_inv cfg (d\<lparr>dm_sw_clock := sw\<rparr>) = state_inv cfg d"
  "state_inv cfg (d\<lparr>dm_hw_clock := hw\<rparr>) = state_inv cfg d" "state_inv cfg (ptp_invalidate_timing d) = state_inv cfg d"
  "state_inv cfg (d\<lparr>dm_local_source := l\<rparr>) = state_inv cfg d" "state_inv cfg (d\<lparr>dm_stats := x\<rparr>) = state_inv cfg d"
  "state_inv cfg (d\<lparr>dm_peer_ingress_sequence := a, dm_peer_ingress_count := b\<rparr>) = state_inv cfg d"
  "state_inv cfg (retire_injected d) = state_inv cfg d" "state_inv cfg (bump_generation i d) = state_inv cfg d"
  "state_inv cfg (snd (ptp_settime d env ts)) = state_inv cfg d"
  by (rule state_cong; simp add: map_gm_def count_rx_def ptp_invalidate_timing_def retire_injected_def bump_generation_def ptp_settime_def split_beta Let_def)+

lemma state_servo [state_intros]:
  "state_inv cfg d \<Longrightarrow> (\<And>s. servo_range s \<Longrightarrow> servo_range (f s)) \<Longrightarrow> state_inv cfg (map_servo f d)"
  by (simp add: state_inv_def registries_ok_def daemon_wf_def)

lemma state_source [state_intros]:
  "state_inv cfg d \<Longrightarrow> (\<And>s. path_fits s \<Longrightarrow> path_fits (f s)) \<Longrightarrow> state_inv cfg (map_source f d)"
  by (simp add: state_inv_def registries_ok_def daemon_wf_def)

lemma state_keep [state_intros]:
  assumes "state_inv cfg d"
    and "\<And>p. peers_inv (pk_wifi_peers (po_capable p)) \<Longrightarrow> peers_inv (pk_wifi_peers (po_capable (f p)))"
  shows "state_inv cfg (map_port i f d)"
proof (cases "i < cf_num_ports cfg")
  case True
  then show ?thesis using assms registries_map_port [of cfg d i f] by (simp add: state_inv_def)
next
  case False
  then have "map_port i f d = d" using assms(1)
    by (simp add: state_inv_def registries_ok_def daemon_wf_def map_port_def map_state_def list_update_beyond)
  then show ?thesis using assms(1) by simp
qed

lemma state_ports: "state_inv cfg d \<Longrightarrow> 0 < num_ports d" "state_inv cfg d \<Longrightarrow> num_ports d = cf_num_ports cfg"
  by (auto simp: state_inv_def registries_ok_def daemon_wf_def)

lemma path_fits_simps [simp]:
  "path_fits (forget_source s)" "path_fits (s\<lparr>so_selected_source_valid := v\<rparr>) = path_fits s"
  by (simp_all add: path_fits_def forget_source_def PTP_PATH_TRACE_MAX_CLOCKS_def)

lemma state_at:
  assumes "state_inv cfg d" "i < cf_num_ports cfg \<Longrightarrow> peers_inv (pk_wifi_peers (po_capable (f (port_at d i))))"
  shows "state_inv cfg (map_port i f d)"
proof (cases "i < cf_num_ports cfg")
  case True
  then show ?thesis using assms by (auto simp: state_inv_def registries_ok_def daemon_wf_def)
next
  case False
  then have "map_port i f d = d" using assms(1)
    by (simp add: state_inv_def registries_ok_def daemon_wf_def map_port_def map_state_def list_update_beyond)
  then show ?thesis using assms(1) by simp
qed

lemma state_peers: "state_inv cfg d \<Longrightarrow> i < cf_num_ports cfg \<Longrightarrow> peers_inv (wifi_peers_at d i)"
  by (simp add: state_inv_def registries_ok_def)

section \<open>Registries\<close>

text \<open>An entry that keeps its station keeps the registry well formed.\<close>

lemma peers_update:
  assumes "peers_inv p" "wp_associated e = wp_associated (ws_entries p ! slot)" "wp_mac e = wp_mac (ws_entries p ! slot)"
    and "wp_association e = wp_association (ws_entries p ! slot)"
  shows "peers_inv (update_entry p slot e)"
proof -
  have len: "length (ws_entries p) = slot_max" using assms(1) by (simp add: peers_inv_def)
  define q where "q = update_entry p slot e"
  have e: "wp_associated (ws_entries q ! i) = wp_associated (ws_entries p ! i)"
    "wp_mac (ws_entries q ! i) = wp_mac (ws_entries p ! i)"
    "wp_association (ws_entries q ! i) = wp_association (ws_entries p ! i)" if "i < slot_max" for i
    using that len assms(2-4) by (cases "slot = i"; simp add: q_def update_entry_def)+
  then have "holds_mac q i m = holds_mac p i m" for i m by (auto simp: holds_mac_def)
  moreover have "length (ws_entries q) = slot_max" using len by (simp add: q_def update_entry_def)
  ultimately have "peers_inv q" using assms(1) e unfolding peers_inv_def by (auto simp: holds_mac_def)
  then show ?thesis by (simp add: q_def)
qed

lemma peer_rebind_keeps:
  "wp_associated (peer_rebind e) = wp_associated e" "wp_mac (peer_rebind e) = wp_mac e"
  "wp_association (peer_rebind e) = wp_association e"
  by (simp_all add: peer_rebind_def Let_def split_beta)

lemma peers_operations:
  assumes "peers_inv p"
  shows "peers_inv (snd (ptp_wifi_peers_capable p mac a m now))" "peers_inv (snd (ptp_wifi_peers_interval p mac a m))"
    "peers_inv (snd (ptp_wifi_peers_sync_interval p mac a r))" "peers_inv (snd (ptp_wifi_peers_announce_interval p mac a r initial))"
    "peers_inv (snd (ptp_wifi_peers_sent p mac a t ok now))"
  using assms
  by (auto simp: ptp_wifi_peers_capable_def ptp_wifi_peers_interval_def ptp_wifi_peers_sync_interval_def
      ptp_wifi_peers_announce_interval_def ptp_wifi_peers_sent_def Let_def peer_rebind_keeps
      split: option.split prod.split bool.split intro!: peers_update)

section \<open>Every operation keeps it\<close>

lemma bind_announce_state [state_intros]: "state_inv cfg d \<Longrightarrow> state_inv cfg (snd (bind_announce d i))"
  by (auto simp: bind_announce_def Let_def split_beta map_capable_def intro!: state_keep)

lemma start_receipt_state [state_intros]: "state_inv cfg d \<Longrightarrow> state_inv cfg (start_receipt c now d)"
  by (auto simp: start_receipt_def intro!: state_keep)

lemma correction_range [simp]:
  "servo_range (s\<lparr>sv_correction_ns := c\<rparr>) = servo_range s"
  "servo_range (s\<lparr>sv_remote_time_ns_prev := a, sv_local_time_ns_prev := b\<rparr>) = servo_range s"
  "servo_range (s\<lparr>sv_stable_cnt := n, sv_last_offset_ns := x\<rparr>) = servo_range s"
  "servo_range (s\<lparr>sv_last_delta_timestamp := t, sv_last_delta_ns := u, sv_last_adjtime_ns := v,
     sv_drift_avg_total_ms := w, sv_drift_ppb := q\<rparr>) = servo_range s"
  by (simp_all add: servo_range_def servo_inv_def)

lemma switch_source_state [state_intros]: "state_inv cfg d \<Longrightarrow> state_inv cfg (switch_source d)"
  by (auto simp: switch_source_def Let_def intro!: state_intros)

text \<open>A parsed path has at most sixteen clocks.\<close>

lemma path_walk_length:
  "path_walk m len loc found off = Some path \<Longrightarrow> (\<And>ids. found = Some ids \<Longrightarrow> length ids \<le> PTP_PATH_TRACE_MAX_CLOCKS) \<Longrightarrow>
   length path \<le> PTP_PATH_TRACE_MAX_CLOCKS"
proof (induction m len loc found off rule: path_walk.induct)
  case (1 m len loc found off)
  let ?n = "be16 (m ! (off + 2)) (m ! (off + 3))" and ?ty = "be16 (m ! off) (m ! (off + 1))"
  show ?case
  proof (cases "off < len")
    case False
    then show ?thesis using 1(3,4) path_walk.simps [of m len loc found off] by (auto split: option.splits)
  next
    case True
    have s: "\<not> len - off < 4" "\<not> ?n > len - (off + 4)"
      using 1(3) True path_walk.simps [of m len loc found off] by (auto simp: Let_def split: if_splits)
    show ?thesis
    proof (cases "?ty = 8")
      case ty: True
      have ok: "\<not> (found \<noteq> None \<or> ?n = 0 \<or> ?n mod 8 \<noteq> 0 \<or> ?n div 8 > PTP_PATH_TRACE_MAX_CLOCKS)"
        "\<not> loc \<in> set (path_identities m (off + 4) (?n div 8))"
        "path_walk m len loc (Some (path_identities m (off + 4) (?n div 8))) (off + 4 + ?n) = Some path"
        using 1(3) True s ty path_walk.simps [of m len loc found off] by (auto simp: Let_def split: if_splits)
      show ?thesis
        by (rule 1(1) [OF True s(1) refl refl refl s(2) ty ok(1) refl ok(2,3)])
          (use ok(1) in \<open>auto simp: path_identities_def\<close>)
    next
      case ty: False
      have "path_walk m len loc found (off + 4 + ?n) = Some path"
        using 1(3) True s ty path_walk.simps [of m len loc found off] by (simp add: Let_def)
      then show ?thesis using 1(2) [OF True s(1) refl refl refl s(2) ty] 1(4) by blast
    qed
  qed
qed

lemma parse_length: "ptp_path_trace_parse m n loc = Some path \<Longrightarrow> length path \<le> PTP_PATH_TRACE_MAX_CLOCKS"
  using path_walk_length [where found = None] by (auto simp: ptp_path_trace_parse_def Let_def split: if_splits)

lemma take_source_state:
  "length p \<le> PTP_PATH_TRACE_MAX_CLOCKS \<Longrightarrow> state_inv cfg d \<Longrightarrow> state_inv cfg (take_source c d m l p)"
  by (auto simp: take_source_def Let_def ptp_update_delay_asymmetry_def ptp_reset_unicast_delay_req_def path_fits_def
      intro!: state_source)

lemma announce_state [state_intros]:
  assumes "state_inv cfg d"
  shows "state_inv cfg (ptp_process_announce c d m l mt now)"
proof -
  have s: "state_inv cfg (select_announce c e m l p now)" if "state_inv cfg e" "length p \<le> PTP_PATH_TRACE_MAX_CLOCKS" for e p
    using that by (auto simp: select_announce_def Let_def intro!: take_source_state state_intros)
  have b: "state_inv cfg (map_port 0 (\<lambda>p. p\<lparr>po_seen := (po_seen p)\<lparr>ps_last_received_announce := mt\<rparr>\<rparr>) (snd (bind_announce d i)))" for i
    using assms by (auto intro!: state_intros)
  show ?thesis
    using assms s [OF b] bind_announce_state [OF assms] parse_length
    by (auto simp: ptp_process_announce_def Let_def split_beta split: option.splits)
qed

lemma drift_push_range: "servo_range s \<Longrightarrow> servo_range (snd (drift_ring_push s))"
  using drift_ring_servo [of s] by (simp add: servo_range_def) (simp add: drift_ring_push_def Let_def PTP_FREQ_STABLE_WIN_def)

lemma trims_ring:
  "sv_drift_ring (dm_servo (apply_sw_trim d env a b)) = sv_drift_ring (dm_servo d)"
  "sv_drift_ring_pos (dm_servo (apply_sw_trim d env a b)) = sv_drift_ring_pos (dm_servo d)"
  "sv_drift_ring_count (dm_servo (apply_sw_trim d env a b)) = sv_drift_ring_count (dm_servo d)"
  "sv_drift_ring (dm_servo (apply_hw_trim d env a b)) = sv_drift_ring (dm_servo d)"
  "sv_drift_ring_pos (dm_servo (apply_hw_trim d env a b)) = sv_drift_ring_pos (dm_servo d)"
  "sv_drift_ring_count (dm_servo (apply_hw_trim d env a b)) = sv_drift_ring_count (dm_servo d)"
  by (simp_all add: apply_sw_trim_def apply_hw_trim_def Let_def split_beta)

lemma trims_rest:
  "registries_ok cfg (apply_sw_trim d env a b) = registries_ok cfg d" "dm_source (apply_sw_trim d env a b) = dm_source d"
  "registries_ok cfg (apply_hw_trim d env a b) = registries_ok cfg d" "dm_source (apply_hw_trim d env a b) = dm_source d"
  by (simp_all add: apply_sw_trim_def apply_hw_trim_def Let_def split_beta registries_ok_def daemon_wf_def port_at_def
      map_servo_def)

lemma sw_trim_state:
  "state_inv cfg d \<Longrightarrow> \<bar>acc\<bar> \<le> 512000 \<Longrightarrow> \<bar>target\<bar> \<le> 512000 \<Longrightarrow> state_inv cfg (apply_sw_trim d env acc target)"
  by (simp add: state_inv_def servo_range_def trims_ring trims_rest servo_inv_sw_trim)

lemma hw_trim_state:
  "state_inv cfg d \<Longrightarrow> \<bar>integral\<bar> \<le> 512000 * 65536 \<Longrightarrow> \<bar>target\<bar> \<le> 512000 \<Longrightarrow> state_inv cfg (apply_hw_trim d env integral target)"
  by (simp add: state_inv_def servo_range_def trims_ring trims_rest servo_inv_hw_trim)

lemma note_stability_state [state_intros]: "state_inv cfg d \<Longrightarrow> state_inv cfg (note_stability b off d)"
  by (auto simp: note_stability_def Let_def intro!: state_intros)

lemma lock_state [state_intros]:
  assumes "state_inv cfg d"
  shows "state_inv cfg (ptp_lock_local_clock_freq c d env r l)"
proof -
  have i: "\<bar>sv_wired_integral_q16 (dm_servo d)\<bar> \<le> 512000 * 65536"
    using assms by (simp add: state_inv_def servo_range_def servo_inv_def)
  note sw = sw_trim_state [OF assms sw_controller_bounds] and hw = hw_trim_state [OF assms wired_pi_range(2,1) [OF i]]
  have t: "state_inv cfg (map_servo (\<lambda>s. s\<lparr>sv_remote_time_ns_prev := a, sv_local_time_ns_prev := b\<rparr>) e)"
    if "state_inv cfg e" for a b e using that by (auto intro!: state_servo)
  have p: "state_inv cfg (map_servo (\<lambda>s. snd (drift_ring_push s)) e)" if "state_inv cfg e" for e
    using that by (auto intro!: state_servo drift_push_range)
  show ?thesis
    unfolding ptp_lock_local_clock_freq_def Let_def split_beta
    by (simp only: if_split) (intro conjI impI note_stability_state p t; simp add: sw hw)
qed

lemma clean_state [state_intros]:
  assumes "state_inv cfg d"
  shows "state_inv cfg (ptp_clean_after_step d)"
proof -
  have "servo_range (dm_servo (ptp_clean_after_step d))"
    using assms servo_inv_clean [of d] by (simp add: state_inv_def servo_range_def) (simp add: clean_after_step_servo)
  moreover have "registries_ok cfg (ptp_clean_after_step d)"
    using assms registries_map_port [of cfg d 0] by (simp add: state_inv_def registries_ok_def daemon_wf_def ptp_clean_after_step_def Let_def)
  ultimately show ?thesis using assms by (simp add: state_inv_def)
qed

lemma update_clock_state [state_intros]: "state_inv cfg d \<Longrightarrow> state_inv cfg (snd (ptp_update_local_clock c d env r l))"
  by (auto simp: ptp_update_local_clock_def Let_def split_beta intro!: state_intros)

lemma sync_state [state_intros]: "state_inv cfg d \<Longrightarrow> state_inv cfg (snd (ptp_process_sync c d m mt now env))"
  by (auto simp: ptp_process_sync_def Let_def intro!: state_intros)

lemma followup_state [state_intros]: "state_inv cfg d \<Longrightarrow> state_inv cfg (snd (ptp_process_followup c d m env now r p))"
  by (auto simp: ptp_process_followup_def accept_follow_up_def observe_sync_receipt_def Let_def split_beta intro!: state_intros)

lemma path_delay_state: "state_inv cfg d \<Longrightarrow> take_path_delay c d x = Some d' \<Longrightarrow> state_inv cfg d'"
  by (auto simp: take_path_delay_def split: if_splits option.splits intro!: state_keep)

lemma delay_resp_state:
  assumes "state_inv cfg d" "ptp_process_delay_resp c d m now raw = Some d'"
  shows "state_inv cfg d'"
proof -
  have a: "state_inv cfg (snd (admit_pdelay_resp d m now))"
    using assms(1) by (auto simp: admit_pdelay_resp_def Let_def split_beta intro!: state_keep)
  have s: "state_inv cfg (map_source (\<lambda>s. s\<lparr>so_unicast_delay_req_outstanding := False, so_unicast_delay_req_misses := 0\<rparr>) d)"
    using assms(1) by (auto simp: path_fits_def intro!: state_source)
  show ?thesis
    using assms a path_delay_state [OF s]
    by (auto simp: ptp_process_delay_resp_def Let_def split_beta split: if_splits option.splits intro!: state_keep)
qed

lemma peer_delay_state: "state_inv cfg d \<Longrightarrow> take_peer_delay c d rate q m f t = Some d' \<Longrightarrow> state_inv cfg d'"
  by (auto simp: take_peer_delay_def Let_def split: option.splits intro!: state_keep)

lemma response_follow_up_state:
  assumes "state_inv cfg d" "ptp_process_delay_resp_follow_up c d m g now r = Some d'"
  shows "state_inv cfg d'"
proof -
  define x where "x = snd (ptp_peer_finish (po_peer_exchange (port_at d 0)) m now)"
  have k: "state_inv cfg (map_port 0 (\<lambda>p. p\<lparr>po_peer_exchange := x, po_capable := (if px_multiple x
      then (po_capable p)\<lparr>pk_peer_capability := (pk_peer_capability (po_capable p))\<lparr>pc_qualified := False\<rparr>\<rparr>
      else po_capable p)\<rparr>) d)"
    using assms(1) by (auto intro!: state_keep)
  show ?thesis
    using assms k peer_delay_state [OF k]
    by (auto simp: ptp_process_delay_resp_follow_up_def Let_def split_beta x_def split: if_splits option.splits)
qed

lemma delay_req_state [state_intros]:
  "state_inv cfg d \<Longrightarrow> state_inv cfg (fst (snd (ptp_process_delay_req c d q e e' v u mt)))"
  by (auto simp: ptp_process_delay_req_def Let_def split_beta intro!: state_keep)

lemma rx_helpers_state [state_intros]:
  "state_inv cfg d \<Longrightarrow> state_inv cfg (map_seen i f d)" "state_inv cfg d \<Longrightarrow> state_inv cfg (set_rx_association a d)"
  "state_inv cfg d \<Longrightarrow> state_inv cfg (note_endpoint m len base d)" "state_inv cfg d \<Longrightarrow> state_inv cfg (note_minor_version m i d)"
  by (auto simp: map_seen_def set_rx_association_def note_endpoint_def note_minor_version_def intro!: state_keep)

lemma set_capable_state [state_intros]:
  "state_inv cfg d \<Longrightarrow> (\<And>k. peers_inv (pk_wifi_peers k) \<Longrightarrow> peers_inv (pk_wifi_peers (g k))) \<Longrightarrow> state_inv cfg (set_capable i g d)"
  by (auto simp: set_capable_def intro!: state_keep)

lemma admit_state [state_intros]:
  "state_inv cfg d \<Longrightarrow> state_inv cfg (snd (admit_sta i d))" "state_inv cfg d \<Longrightarrow> state_inv cfg (snd (admit_ap c i d))"
  by (auto simp: admit_sta_def admit_ap_def Let_def intro!: state_intros)

lemma signaling_state [state_intros]: "state_inv cfg d \<Longrightarrow> state_inv cfg (process_signaling c m i len env d)"
proof -
  have t: "state_inv cfg e \<Longrightarrow> state_inv cfg (take_indication i env m e)" for e m
    by (auto simp: take_indication_def Let_def intro!: state_intros peers_operations)
  have q: "state_inv cfg e \<Longrightarrow> state_inv cfg (take_timing_request c i m e)" for e m
    by (auto simp: take_timing_request_def intro!: state_intros peers_operations)
  have r: "state_inv cfg e \<Longrightarrow> state_inv cfg (take_interval_request i m e)" for e m
    by (auto simp: take_interval_request_def Let_def intro!: state_intros peers_operations)
  show "state_inv cfg d \<Longrightarrow> state_inv cfg (process_signaling c m i len env d)"
    by (auto simp: process_signaling_def Let_def t q r split: option.splits signaling.splits)
qed

lemma dispatch_timing_state [state_intros]:
  "state_inv cfg d \<Longrightarrow> state_inv cfg (snd (dispatch_timing c m ty len env d))"
  by (auto simp: dispatch_timing_def Let_def intro!: state_intros)

text \<open>What a handler leaves behind, when it returns.\<close>

definition leaves :: "ptp_config \<Rightarrow> (bool \<times> ptp_daemon \<times> transmission list) option \<Rightarrow> bool" where
  "leaves cfg r \<longleftrightarrow> (case r of None \<Rightarrow> True | Some x \<Rightarrow> state_inv cfg (fst (snd x)))"

lemma leaves_quietly [simp]: "leaves cfg (quietly d) = state_inv cfg d"
  by (simp add: leaves_def quietly_def)

lemma leaves_bind: "(\<And>d'. r = Some d' \<Longrightarrow> state_inv cfg d') \<Longrightarrow> leaves cfg (Option.bind r quietly)"
  by (cases r) (simp_all add: leaves_def quietly_def)

lemma dispatch_state:
  assumes "state_inv cfg d"
  shows "leaves cfg (dispatch c m i len env d)"
proof -
  have e: "state_inv cfg (note_endpoint m len 54 (count_rx f d))" for f
    using assms by (intro state_intros) simp
  have resp: "leaves cfg (dispatch_response c m ty i len env d)" for ty
    using assms by (auto simp: dispatch_response_def Let_def intro!: leaves_bind delay_resp_state [OF e])
  have fup: "leaves cfg (dispatch_response_follow_up c m i len env d)"
    using assms by (auto simp: dispatch_response_follow_up_def Let_def intro!: leaves_bind response_follow_up_state [OF e])
  have req: "leaves cfg (dispatch_request c m len env d)"
    using delay_req_state [OF e] by (auto simp: dispatch_request_def Let_def leaves_def split_beta)
  have tim: "leaves cfg (case dispatch_timing c m ty len env d of (ok, d) \<Rightarrow> Some (ok, d, []))" for ty
    using dispatch_timing_state [OF assms] by (auto simp: leaves_def split_beta)
  have cap: "state_inv cfg (map_port 0 (\<lambda>p. p\<lparr>po_sync := (po_sync p)\<lparr>ts_twostep_pending := False\<rparr>\<rparr>) d)"
    using assms by (auto intro!: state_keep)
  show ?thesis
    using assms resp fup req tim cap signaling_state [OF assms] by (simp add: dispatch_def Let_def)
qed

lemma rx_state:
  assumes "state_inv cfg d" "ptp_process_rx_packet c d n port env = Some (Inr (ok, d', sent))"
  shows "state_inv cfg d'"
proof -
  define i where "i = nat port"
  define e where "e = note_minor_version (rxbuf d) i d"
  have m: "state_inv cfg e" unfolding e_def using assms(1) by (rule state_intros)
  obtain sta d1 where s: "admit_sta i e = (sta, d1)" by fastforce
  obtain ap d2 where a: "admit_ap c i d1 = (ap, d2)" by fastforce
  have inv: "state_inv cfg d1" "state_inv cfg d2"
    using admit_state(1) [OF m, of i] s admit_state(2) [of cfg d1 c i] a by simp_all
  have h: "leaves cfg (dispatch c (rxbuf d) i len env (map_seen i f d2))" for len f
    by (intro dispatch_state rx_helpers_state inv(2))
  have al: "state_inv cfg (map_seen i f d)" for f using assms(1) by (rule state_intros)
  obtain r alive where adm: "message_admitted c (rxbuf d) d n = (r, alive)" by fastforce
  show ?thesis
  proof (cases r)
    case None
    then show ?thesis using assms adm al
      by (auto simp: ptp_process_rx_packet_def process_message_def quietly_def i_def split: if_splits)
  next
    case (Some len)
    then show ?thesis
      using assms(2) adm s a inv h [of len "\<lambda>s. s\<lparr>ps_last_received_multicast := rv_multicast_ts env\<rparr>"]
      by (auto simp: ptp_process_rx_packet_def process_message_def quietly_def leaves_def i_def [symmetric] e_def [symmetric]
          split: if_splits)
  qed
qed

lemma capable_all_state: 
  assumes "state_inv cfg e"
  shows "state_inv cfg (map_state (\<lambda>s. s\<lparr>st_port := map (\<lambda>p. p\<lparr>po_capable := reset_capable (po_capable p)\<rparr>) (st_port s)\<rparr>) e)"
proof -
  have n: "num_ports e = cf_num_ports cfg" by (rule state_ports(2) [OF assms])
  have "peers_inv (pk_wifi_peers (reset_capable (po_capable (port_at e i))))" if "i < cf_num_ports cfg" for i
    using assms that peers_inv_reset by (simp add: state_inv_def registries_ok_def reset_capable_def Let_def split_beta)
  then show ?thesis
    using assms n by (simp add: state_inv_def registries_ok_def daemon_wf_def port_at_map_all)
qed

lemma reset_state [state_intros]:
  assumes "state_inv cfg d"
  shows "state_inv cfg (ptp_reset_for_profile c d)"
proof -
  have r: "state_inv cfg (map_port 0 reset_delay e)" if "state_inv cfg e" for e
    using that by (auto simp: reset_delay_def intro!: state_keep)
  have s: "state_inv cfg (map_source (\<lambda>s. (forget_source s)\<lparr>so_last_selected_announce := t, so_selected_source_mac := u,
      so_selected_gm_link_mbps := v\<rparr>) e)" if "state_inv cfg e" for e t u v
    using that by (auto simp: path_fits_def forget_source_def intro!: state_source)
  have a: "state_inv cfg (ptp_reset_unicast_delay_req e)" "state_inv cfg (ptp_update_delay_asymmetry c e)" if "state_inv cfg e" for e
    using that by (auto simp: ptp_reset_unicast_delay_req_def ptp_update_delay_asymmetry_def path_fits_def Let_def intro!: state_source)
  have v: "state_inv cfg (map_servo (\<lambda>s. s\<lparr>sv_correction_ns := 0\<rparr>) e)" if "state_inv cfg e" for e
    using that by (auto intro!: state_servo)
  have k: "state_inv cfg (map_port 0 (\<lambda>p. p\<lparr>po_delay := f (po_delay p)\<rparr>) e)" if "state_inv cfg e" for e f
    using that by (auto intro!: state_keep)
  show ?thesis
    unfolding ptp_reset_for_profile_def Let_def
    by (intro k clean_state v r a s)
      (simp add: capable_all_state assms)
qed

lemma arm_state [state_intros]:
  "state_inv cfg d \<Longrightarrow> state_inv cfg (ptp_arm_profile_fallback c d)"
  by (auto simp: ptp_arm_profile_fallback_def Let_def rearm_port_def intro!: reset_state state_keep)

lemma fallback_state [state_intros]:
  assumes "state_inv cfg d"
  shows "state_inv cfg (ptp_check_profile_fallback c d a b e)"
proof -
  have f: "state_inv cfg (fall_back c x r)" if "state_inv cfg x" for x r
    using that by (auto simp: fall_back_def intro!: reset_state)
  show ?thesis
    using assms by (auto simp: ptp_check_profile_fallback_def Let_def intro!: f state_keep)
qed

lemma gate_state [state_intros]: "state_inv cfg d \<Longrightarrow> state_inv cfg (gate_capability c d a b)"
  by (auto simp: gate_capability_def Let_def intro!: state_intros)

lemma completion_state: "state_inv cfg d \<Longrightarrow> state_inv cfg (capable_completion c r d)"
  by (auto simp: capable_completion_def Let_def intro!: state_keep peers_operations)

lemma completions_state [state_intros]: "state_inv cfg d \<Longrightarrow> state_inv cfg (ptp_wifi_capable_completions c d rs)"
proof -
  have "state_inv cfg e \<Longrightarrow> state_inv cfg (fold (capable_completion c) xs e)" for xs e
    by (induction xs arbitrary: e) (simp_all add: completion_state)
  then show "state_inv cfg d \<Longrightarrow> state_inv cfg (ptp_wifi_capable_completions c d rs)"
    by (simp add: ptp_wifi_capable_completions_def)
qed

lemma net_recv_state [state_intros]: "state_inv cfg d \<Longrightarrow> state_inv cfg (snd (ptp_net_recv d r f s))"
proof -
  have "state_inv cfg e \<Longrightarrow> state_inv cfg (note_read r e)" for e by (simp add: note_read_def)
  then show "state_inv cfg d \<Longrightarrow> state_inv cfg (snd (ptp_net_recv d r f s))"
    by (auto simp: ptp_net_recv_def Let_def split: option.splits intro!: state_keep)
qed

lemma load_state [state_intros]: "state_inv cfg d \<Longrightarrow> state_inv cfg (load_injected f d)"
  by (auto simp: load_injected_def intro!: state_intros)

lemma watch_state [state_intros]: "state_inv cfg d \<Longrightarrow> state_inv cfg (snd (watch_socket env w d))"
  by (auto simp: watch_socket_def ptp_port_reopen_l2tap_def Let_def intro!: state_intros)

lemma refresh_state [state_intros]: "state_inv cfg d \<Longrightarrow> state_inv cfg (refresh_source c d t a b n)"
  by (auto simp: refresh_source_def Let_def path_fits_def intro!: state_source)

lemma marshal_keeps:
  "st_servo (snd (ptp_marshal_follow_up_for_beacon_ie c s ts i)) = st_servo s"
  "st_source (snd (ptp_marshal_follow_up_for_beacon_ie c s ts i)) = st_source s"
  by (simp_all add: ptp_marshal_follow_up_for_beacon_ie_def ptp_fill_gm_fields_def Let_def split_beta)

lemma publish_keeps:
  "dm_servo (ptp_publish_local_source c d env now ts) = dm_servo d"
  "dm_source (ptp_publish_local_source c d env now ts) = dm_source d"
  "dm_injected_generation (ptp_publish_local_source c d env now ts) = dm_injected_generation d"
  by (simp_all add: ptp_publish_local_source_def Let_def split_beta marshal_keeps split: option.split)

lemma publish_state [state_intros]: "state_inv cfg d \<Longrightarrow> state_inv cfg (ptp_publish_local_source c d env now ts)"
  using state_cong [OF publish_ports publish_keeps(1,2)] publish_keeps(3) by metis

lemma asymmetry_state: "state_inv cfg d \<Longrightarrow> state_inv cfg (ptp_update_delay_asymmetry c d)"
  unfolding ptp_update_delay_asymmetry_def Let_def by (rule state_source) (simp_all add: path_fits_def)

lemma speed_state [state_intros]:
  assumes "state_inv cfg d"
  shows "state_inv cfg (ptp_refresh_link_speed c d now m)"
proof -
  have k: "state_inv cfg (map_port 0 (\<lambda>p. p\<lparr>po_link := f (po_link p)\<rparr>) e)" if "state_inv cfg e" for e f
    using that by (rule state_keep) simp
  show ?thesis
    unfolding ptp_refresh_link_speed_def Let_def by (simp only: if_split) (intro conjI impI asymmetry_state k assms)
qed

lemma stamp_mode_state [state_intros]: "state_inv cfg d \<Longrightarrow> state_inv cfg (ptp_apply_rx_timestamp_mode c d ok)"
  by (auto simp: ptp_apply_rx_timestamp_mode_def Let_def intro!: state_keep)

lemma set_sent_state [state_intros]: "state_inv cfg d \<Longrightarrow> state_inv cfg (set_sent i f d)"
  by (auto simp: set_sent_def intro!: state_keep)

lemma each_port_state:
  "(\<And>i e. state_inv cfg e \<Longrightarrow> state_inv cfg (fst (f i e))) \<Longrightarrow> state_inv cfg d \<Longrightarrow> state_inv cfg (fst (each_port f is d))"
  by (induction "is" arbitrary: d) (simp_all add: split_beta Let_def)

lemma ap_slot_state:
  assumes "state_inv cfg d"
  shows "state_inv cfg (fst (ap_capable_slot c i en env slot d))"
proof -
  define transmit where "transmit = snd (ptp_capable_schedule_begin (wp_transmit (ws_entries (wifi_peers_at d i) ! slot))
    (en \<and> ptp_wifi_peers_publishable (cf_ap_via_coprocessor c) (wifi_peers_at d i) \<and>
     wp_associated (ws_entries (wifi_peers_at d i) ! slot)) (pv_slot_us env i slot))"
  define q where "q = update_entry (wifi_peers_at d i) slot ((ws_entries (wifi_peers_at d i) ! slot)\<lparr>wp_transmit := transmit\<rparr>)"
  have q: "peers_inv q" if "i < cf_num_ports cfg"
    using peers_update [OF state_peers [OF assms that]] by (simp add: q_def)
  have s: "state_inv cfg (map_port i (\<lambda>p. p\<lparr>po_capable := (po_capable p)\<lparr>pk_wifi_peers := ws\<rparr>\<rparr>) e)"
    if "state_inv cfg e" "i < cf_num_ports cfg \<Longrightarrow> peers_inv ws" for e ws
    using that by (intro state_at) simp_all
  define e where "e = map_port i (\<lambda>p. p\<lparr>po_capable := (po_capable p)\<lparr>pk_wifi_peers := q\<rparr>\<rparr>) d"
  have e: "state_inv cfg e" unfolding e_def using assms q by (rule s)
  have "state_inv cfg (map_port i (\<lambda>p. p\<lparr>po_capable := (po_capable p)\<lparr>pk_wifi_peers := snd (ptp_wifi_peers_sent q m a t False u)\<rparr>\<rparr>) e)"
    for m a t u by (rule s [OF e]) (rule peers_operations(5) [OF q])
  with e show ?thesis
    by (simp add: ap_capable_slot_def Let_def split_beta transmit_def [symmetric] q_def [symmetric] e_def [symmetric]
        split: option.split)
qed

lemma ap_slots_state: "state_inv cfg d \<Longrightarrow> state_inv cfg (fst (ap_capable_slots c i en env ss d))"
  by (induction ss arbitrary: d) (simp_all add: split_beta Let_def ap_slot_state)

lemma sta_send_state: "state_inv cfg d \<Longrightarrow> state_inv cfg (fst (ptp_wifi_sta_capable_send c d i en env))"
  by (simp add: ptp_wifi_sta_capable_send_def Let_def split_beta split: option.split) (auto intro!: state_keep)

lemma wired_send_state: "state_inv cfg d \<Longrightarrow> state_inv cfg (fst (ptp_wired_capable_send c d env))"
  by (simp add: ptp_wired_capable_send_def Let_def split_beta) (auto intro!: state_keep)

lemma radio_capable_state: "state_inv cfg d \<Longrightarrow> state_inv cfg (fst (radio_capable_port c env i d))"
  by (simp add: radio_capable_port_def Let_def ptp_wifi_ap_capable_send_def ap_slots_state sta_send_state)

lemma send_announce_state: "state_inv cfg d \<Longrightarrow> state_inv cfg (fst (snd (ptp_send_announce c d env tx)))"
  by (simp add: ptp_send_announce_def Let_def split_beta)

lemma send_sync_state: "state_inv cfg d \<Longrightarrow> state_inv cfg (fst (snd (ptp_send_sync c d env tx tx')))"
  by (simp add: ptp_send_sync_def Let_def split_beta)

lemma server_state: "state_inv cfg d \<Longrightarrow> state_inv cfg (fst (server_send c env d))"
proof -
  have a: "state_inv cfg e \<Longrightarrow> state_inv cfg (fst (server_announce c env e))" for e
    by (simp add: server_announce_def Let_def split_beta send_announce_state set_sent_state)
  have s: "state_inv cfg e \<Longrightarrow> state_inv cfg (fst (server_sync c env e))" for e
    by (simp add: server_sync_def Let_def split_beta send_sync_state set_sent_state split: option.split)
  show "state_inv cfg d \<Longrightarrow> state_inv cfg (fst (server_send c env d))"
    by (simp add: server_send_def Let_def split_beta a s)
qed

lemma radio_sync_state: "state_inv cfg d \<Longrightarrow> state_inv cfg (fst (radio_sync_port c env i d))"
proof -
  have "state_inv cfg (e\<lparr>dm_state := snd (ptp_marshal_follow_up_for_beacon_ie c (dm_state e) ts j)\<rparr>) = state_inv cfg e" for e ts j
    by (rule state_cong) (simp_all add: marshal_ports marshal_keeps)
  then show "state_inv cfg d \<Longrightarrow> state_inv cfg (fst (radio_sync_port c env i d))"
    by (simp add: radio_sync_port_def Let_def split_beta set_sent_state)
qed

lemma radio_announce_state: "state_inv cfg d \<Longrightarrow> state_inv cfg (fst (radio_announce_port c env i d))"
  by (simp add: radio_announce_port_def Let_def set_sent_state split: option.split)

lemma beacon_state: "state_inv cfg d \<Longrightarrow> state_inv cfg (fst (beacon_send c env d))"
  by (simp add: beacon_send_def ptp_send_endpoint_beacon_def Let_def split_beta set_sent_state)

lemma periodic_state [state_intros]: "state_inv cfg d \<Longrightarrow> state_inv cfg (fst (ptp_periodic_send c d env))"
  by (simp add: ptp_periodic_send_def Let_def split_beta wired_send_state completions_state each_port_state radio_capable_state
      server_state radio_sync_state radio_announce_state beacon_state)

lemma pass_begin_state: "state_inv cfg d \<Longrightarrow> state_inv cfg (pass_begin c env d)"
  by (simp add: pass_begin_def Let_def arm_state gate_state completions_state)

text \<open>The hook of the radio transport keeps the invariant, as the absent hook does.\<close>

lemma pass_end_state:
  assumes "\<And>e. state_inv cfg e \<Longrightarrow> state_inv cfg (tick e)" "state_inv cfg d"
  shows "state_inv cfg (fst (pass_end c tick env d))"
  using assms by (simp add: pass_end_def Let_def split_beta refresh_state publish_state speed_state stamp_mode_state periodic_state fallback_state)

section \<open>Passes\<close>

lemma received_state:
  assumes "state_inv cfg d" "received d (ptp_process_rx_packet c d n port env) = Some (d', out)"
  shows "state_inv cfg d'"
proof -
  obtain r where r: "ptp_process_rx_packet c d n port env = Some r"
    using assms(2) by (auto simp: received_def)
  show ?thesis
  proof (cases r)
    case (Inl e)
    then show ?thesis using assms r by (simp add: received_def)
  next
    case (Inr x)
    then obtain ok e sent where x: "r = Inr (ok, e, sent)" by (cases x) auto
    then show ?thesis using assms r rx_state [OF assms(1)] by (auto simp: received_def)
  qed
qed

lemma receive_frame_state:
  assumes "state_inv cfg d" "receive_frame c env d = Some (d', out)"
  shows "state_inv cfg d'"
proof (cases "pe_frame env")
  case None
  then show ?thesis using assms by (simp add: receive_frame_def)
next
  case (Some f)
  obtain ret frame stamp where f: "f = (ret, frame, stamp)" by (cases f)
  define e where "e = snd (ptp_net_recv (count_rx (\<lambda>x. x\<lparr>sx_poll_wake := sx_poll_wake x + 1\<rparr>) d) ret frame stamp)"
  have "state_inv cfg e" using assms(1) by (simp add: e_def net_recv_state)
  then show ?thesis using Some f assms(2) received_state
    by (auto simp: receive_frame_def Let_def split_beta simp flip: e_def split: if_splits)
qed

lemma injected_state:
  "state_inv cfg d \<Longrightarrow> process_injected c env n fs d = Some (d', out) \<Longrightarrow> state_inv cfg d'"
proof (induction fs arbitrary: d n out)
  case (Cons f fs)
  obtain e o1 o2 where e: "received (load_injected f d) (ptp_process_rx_packet c (load_injected f d) (int (ij_length f))
      (int (ij_port_index f)) (env n)) = Some (e, o1)" "process_injected c env (n + 1) fs e = Some (d', o2)"
    using Cons.prems(2) by (auto simp: Let_def split: option.splits)
  have "state_inv cfg e" by (rule received_state [OF load_state [OF Cons.prems(1)] e(1)])
  then show ?case using Cons.IH e(2) by blast
qed simp

lemma deferred_state:
  assumes "state_inv cfg d" "take_deferred c env d = Some d'"
  shows "state_inv cfg d'"
proof -
  define x where "x = ptp_peer_take_follow_up (po_peer_exchange (port_at d 0)) (pe_take_us env)"
  have k: "state_inv cfg (map_port 0 (\<lambda>p. p\<lparr>po_peer_exchange := snd x\<rparr>) d)" using assms(1) by (auto intro!: state_keep)
  show ?thesis
    using assms(2) k response_follow_up_state [OF k]
    by (auto simp: take_deferred_def Let_def split_beta x_def [symmetric] split: option.splits)
qed

text \<open>What is queued: bounded frames of existing ports.\<close>

definition mailbox_inv :: "ptp_config \<Rightarrow> ptp_injected \<Rightarrow> bool" where
  "mailbox_inv cfg r \<longleftrightarrow> ring_inv r \<and>
     (\<forall>f \<in> set (ring_content r). ij_port_index f < cf_num_ports cfg \<and> 34 \<le> ij_length f \<and> ij_length f \<le> 256)"

lemma drain_mailbox: "mailbox_inv cfg r \<Longrightarrow> mailbox_inv cfg (snd (drain r g))"
  using ring.pops_all [of r] ring.pops_content [of r PTP_INJECT_DEPTH]
  by (simp add: mailbox_inv_def drain_def drain_loop_pops)

lemma pass_state:
  assumes "\<And>e. state_inv cfg e \<Longrightarrow> state_inv cfg (tick e)" "daemon_pass c tick env lp = Some (lp', out)"
    and "state_inv cfg (lp_daemon lp)" "mailbox_inv cfg (lp_ring lp)"
  shows "state_inv cfg (lp_daemon lp') \<and> mailbox_inv cfg (lp_ring lp')"
proof -
  obtain d1 o1 where d1: "receive_frame c env (pass_begin c env (lp_daemon lp)) = Some (d1, o1)"
    using assms(2) by (cases "receive_frame c env (pass_begin c env (lp_daemon lp))") (auto simp: daemon_pass_def)
  define dr where "dr = drain (lp_ring lp) (dm_injected_generation d1)"
  obtain d2 o2 where d2: "process_injected c (pe_inject_rx env) 0 (fst dr) d1 = Some (d2, o2)"
    using assms(2) d1 by (cases "process_injected c (pe_inject_rx env) 0 (fst dr) d1")
      (auto simp: daemon_pass_def split_beta Let_def dr_def)
  obtain d3 where d3: "take_deferred c env d2 = Some d3"
    using assms(2) d1 d2 by (cases "take_deferred c env d2") (auto simp: daemon_pass_def split_beta Let_def dr_def)
  have "state_inv cfg d3"
    using deferred_state [OF injected_state [OF receive_frame_state [OF pass_begin_state [OF assms(3)] d1] d2] d3] .
  then have "state_inv cfg (fst (pass_end c tick env (snd (watch_socket env (lp_watchdog_us lp) d3))))"
    by (intro pass_end_state assms(1) watch_state)
  moreover have "lp' = \<lparr>lp_daemon = fst (pass_end c tick env (snd (watch_socket env (lp_watchdog_us lp) d3))), lp_ring = snd dr,
      lp_watchdog_us = fst (watch_socket env (lp_watchdog_us lp) d3)\<rparr>"
    using assms(2) d1 d2 d3 by (auto simp: daemon_pass_def split_beta Let_def dr_def)
  ultimately show ?thesis using drain_mailbox [OF assms(4)] by (simp add: dr_def)
qed

section \<open>What other tasks do\<close>

lemma state_bump_capable:
  "state_inv cfg d \<Longrightarrow> (\<And>k. peers_inv (pk_wifi_peers k) \<Longrightarrow> peers_inv (pk_wifi_peers (f k))) \<Longrightarrow> state_inv cfg (map_capable i f d)"
  by (auto simp: map_capable_def intro!: state_keep)

lemma handler_state:
  assumes "state_inv cfg d"
  shows "state_inv cfg (link_handler cfg e d)"
proof -
  have r: "registries_ok cfg d" using assms by (simp add: state_inv_def)
  have frame: "dm_servo (ptp_set_port_link c x p up) = dm_servo x \<and> dm_source (ptp_set_port_link c x p up) = dm_source x" for c x p up
    by (simp add: ptp_set_port_link_def Let_def split: option.split)
  have link: "state_inv cfg (ptp_set_port_link cfg x p up)" if "state_inv cfg x" for x p up
    using that registries_set_link [of cfg x p up] frame by (simp add: state_inv_def)
  have eth: "state_inv cfg (ptp_eth_event_handler cfg d v)" for v
    using assms by (cases v) (simp_all add: ptp_eth_event_handler_def Let_def link arm_state)
  have cap: "dm_servo (map_capable i f x) = dm_servo x" "dm_source (map_capable i f x) = dm_source x" for i f x
    by (simp_all add: map_capable_def)
  have wifi: "state_inv cfg (ptp_wifi_event_handler cfg d w)" for w
  proof -
    have "dm_servo (ptp_wifi_event_handler cfg d w) = dm_servo d \<and> dm_source (ptp_wifi_event_handler cfg d w) = dm_source d"
      by (cases w) (simp_all add: ptp_wifi_event_handler_def Let_def frame cap associate_port_def split: option.split)
    then show ?thesis using registries_wifi_event [OF r, of w] assms by (simp add: state_inv_def)
  qed
  have rec: "state_inv cfg (snd (ptpd_wifi_association_reconcile cfg d p b g ms))" for p b g ms
    using registries_reconcile [OF r, of p b g ms] assms
    by (simp add: state_inv_def) (simp add: ptpd_wifi_association_reconcile_def Let_def split_beta cap)
  have unr: "state_inv cfg (ptpd_wifi_association_unreported cfg d p)" for p
  proof -
    have "state_inv cfg (map_capable i (\<lambda>k. k\<lparr>pk_wifi_peers := (pk_wifi_peers k)\<lparr>ws_unreported := True\<rparr>\<rparr>) d)" for i
      using assms peers_inv_entries [of "q\<lparr>ws_unreported := True\<rparr>" q for q] by (intro state_bump_capable) auto
    then show ?thesis using assms by (simp add: ptpd_wifi_association_unreported_def Let_def)
  qed
  show ?thesis
    using assms eth wifi rec unr arm_state [OF assms] reset_state [OF assms] by (cases e) (simp_all add: link_handler_def)
qed

lemma handler_daemon:
  assumes "delay_config cfg" "daemon_inv cfg d"
  shows "daemon_inv cfg (link_handler cfg e d)"
proof -
  have b: "daemon_inv cfg (bump_generation i x) = daemon_inv cfg x" for i x by (rule daemon_inv_cong) simp
  have m: "daemon_inv cfg (map_capable i f x)" if "daemon_inv cfg x" for i f x
    using that by (auto simp: map_capable_def intro!: daemon_inv_keep)
  have link: "daemon_inv cfg (ptp_set_port_link cfg x p up)" if "daemon_inv cfg x" for x p up
    using that by (auto simp: ptp_set_port_link_def Let_def b split: option.split intro!: daemon_inv_keep)
  have eth: "daemon_inv cfg (ptp_eth_event_handler cfg d v)" for v
    using assms by (cases v) (simp_all add: ptp_eth_event_handler_def Let_def link arm_inv)
  have wifi: "daemon_inv cfg (ptp_wifi_event_handler cfg d w)" for w
    using assms(2) by (cases w) (simp_all add: ptp_wifi_event_handler_def Let_def link b m associate_port_def split: option.split)
  have rec: "daemon_inv cfg (snd (ptpd_wifi_association_reconcile cfg d p q g ms))" for p q g ms
    using assms(2) by (simp add: ptpd_wifi_association_reconcile_def Let_def split_beta b m)
  have unr: "daemon_inv cfg (ptpd_wifi_association_unreported cfg d p)" for p
    using assms(2) by (simp add: ptpd_wifi_association_unreported_def Let_def b m)
  show ?thesis
    using assms eth wifi rec unr arm_inv [OF assms] reset_inv [OF assms] by (cases e) (simp_all add: link_handler_def)
qed

lemma set_profile_keeps:
  assumes "delay_config cfg"
  shows "daemon_inv cfg d \<Longrightarrow> daemon_inv cfg (snd (ptpd_set_profile cfg d profile))"
    "state_inv cfg d \<Longrightarrow> state_inv cfg (snd (ptpd_set_profile cfg d profile))"
  using assms by (simp_all add: ptpd_set_profile_def Let_def arm_inv reset_inv arm_state reset_state)

lemma announce_keeps:
  assumes "radio_step cfg d d'" "d' = snd (snd (ptpd_wifi_announce_begin cfg d p mac a r info initial t)) \<or>
    d' = snd (ptpd_wifi_announce_finish cfg d p mac a token ok t)"
  shows "daemon_inv cfg d \<Longrightarrow> daemon_inv cfg d'" "state_inv cfg d \<Longrightarrow> state_inv cfg d'"
proof -
  obtain i f where f: "d' = d \<or> d' = map_capable i f d"
    using assms(2) by (auto simp: ptpd_wifi_announce_begin_def ptpd_wifi_announce_finish_def Let_def split_beta set_announce_def
        split: option.splits if_splits)
  then show "daemon_inv cfg d \<Longrightarrow> daemon_inv cfg d'" by (auto simp: map_capable_def intro!: daemon_inv_keep)
  show "state_inv cfg d \<Longrightarrow> state_inv cfg d'"
    using f registries_step [OF assms(1)] by (auto simp: state_inv_def map_capable_def)
qed

text \<open>A measured delay of another source is averaged like one of the daemon's.\<close>

lemma peer_delay_keeps:
  assumes "delay_config cfg" "daemon_inv cfg d"
  shows "\<exists>r d'. ptpd_inject_peer_delay cfg d port ns = (Some r, d') \<and> daemon_inv cfg d' \<and> (state_inv cfg d \<longrightarrow> state_inv cfg d')"
proof (cases "dm_running d \<and> valid_port cfg port \<and> 0 \<le> ns \<and> ns < cf_max_peer_delay_ns cfg")
  case True
  define y where "y = po_delay (port_at d (nat port))"
  have i: "nat port < num_ports d" using True assms(2) by (auto simp: daemon_inv_def valid_port_def)
  then have y: "delay_inv cfg y" using assms(2) by (simp add: y_def daemon_inv_def delays_okD)
  have "0 \<le> ns" "ns \<le> cf_max_peer_delay_ns cfg" using True by simp_all
  then obtain c a where a: "average_delay cfg (pd_peer_delay_avgcount y) (pd_peer_delay_ns y) ns = Some (c, a)"
    "0 \<le> c" "c \<le> cf_delayreq_avgcount cfg" "0 \<le> a" "a \<le> cf_max_peer_delay_ns cfg"
    using average_in_range [OF assms(1) delay_invD(5-8) [OF y]] by blast
  let ?f = "\<lambda>p. p\<lparr>po_delay := (po_delay p)\<lparr>pd_peer_delay_avgcount := c, pd_peer_delay_ns := a\<rparr>\<rparr>"
  have r: "ptpd_inject_peer_delay cfg d port ns = (Some (Inr ()), map_port (nat port) ?f d)"
    using True a(1) by (simp add: ptpd_inject_peer_delay_def y_def)
  have "daemon_inv cfg (map_port (nat port) ?f d)" using assms(2) a(2-) by (auto simp: delay_inv_def intro!: daemon_inv_keep)
  moreover have "state_inv cfg (map_port (nat port) ?f d)" if "state_inv cfg d" using that by (auto intro!: state_keep)
  ultimately show ?thesis using r by blast
next
  case False
  then show ?thesis using assms(2) by (auto simp: ptpd_inject_peer_delay_def)
qed

section \<open>The whole system\<close>

text \<open>The loop's state and what the producers inside the mailbox have read; a run of it interleaves, in
  any order, passes of the loop with the calls other tasks make.  The drain belongs to the pass.\<close>

record daemon_system =
  sm_loop :: ptp_loop
  sm_read :: "nat \<Rightarrow> u32 list"

datatype system_event =
    Pass pass_env
  | Outside mailbox_event
  | Set_Profile ptp_profile_e
  | Peer_Delay int int
  | Announce_Begin int "bytes option" u32 u32 u32 int int
  | Announce_Finish int "bytes option" u32 u32 bool int

abbreviation sm_daemon :: "daemon_system \<Rightarrow> ptp_daemon" where "sm_daemon s \<equiv> lp_daemon (sm_loop s)"

definition set_daemon :: "ptp_daemon \<Rightarrow> daemon_system \<Rightarrow> daemon_system" where
  "set_daemon d s = s\<lparr>sm_loop := (sm_loop s)\<lparr>lp_daemon := d\<rparr>\<rparr>"

definition outside :: "ptp_config \<Rightarrow> mailbox_event \<Rightarrow> daemon_system \<Rightarrow> daemon_system" where
  "outside cfg e s =
     (if e = Drain_Pass then s
      else
        let m = snd (mailbox_step cfg e \<lparr>mx_daemon = sm_daemon s, mx_ring = lp_ring (sm_loop s), mx_read = sm_read s\<rparr>)
        in s\<lparr>sm_loop := (sm_loop s)\<lparr>lp_daemon := mx_daemon m, lp_ring := mx_ring m\<rparr>, sm_read := mx_read m\<rparr>)"

definition system_step ::
  "ptp_config \<Rightarrow> (ptp_daemon \<Rightarrow> ptp_daemon) \<Rightarrow> system_event \<Rightarrow> daemon_system \<Rightarrow> (daemon_system \<times> emission list) option" where
  "system_step cfg tick e s =
     (case e of
        Pass env \<Rightarrow> map_option (\<lambda>(lp, out). (s\<lparr>sm_loop := lp\<rparr>, out)) (daemon_pass cfg tick env (sm_loop s))
      | Outside m \<Rightarrow> Some (outside cfg m s, [])
      | Set_Profile profile \<Rightarrow> Some (set_daemon (snd (ptpd_set_profile cfg (sm_daemon s) profile)) s, [])
      | Peer_Delay port ns \<Rightarrow>
          (case ptpd_inject_peer_delay cfg (sm_daemon s) port ns of
             (None, _) \<Rightarrow> None
           | (Some _, d) \<Rightarrow> Some (set_daemon d s, []))
      | Announce_Begin port mac association revision information initial now \<Rightarrow>
          Some (set_daemon (snd (snd (ptpd_wifi_announce_begin cfg (sm_daemon s) port mac association revision information initial now))) s, [])
      | Announce_Finish port mac association token accepted now \<Rightarrow>
          Some (set_daemon (snd (ptpd_wifi_announce_finish cfg (sm_daemon s) port mac association token accepted now)) s, []))"

fun system_run ::
  "ptp_config \<Rightarrow> (ptp_daemon \<Rightarrow> ptp_daemon) \<Rightarrow> system_event list \<Rightarrow> daemon_system \<Rightarrow> (daemon_system \<times> emission list) option" where
  "system_run cfg tick [] s = Some (s, [])"
| "system_run cfg tick (e # es) s =
     (case system_step cfg tick e s of
        None \<Rightarrow> None
      | Some (s, out) \<Rightarrow> map_option (\<lambda>(s, rest). (s, out @ rest)) (system_run cfg tick es s))"

definition system_inv :: "ptp_config \<Rightarrow> daemon_system \<Rightarrow> bool" where
  "system_inv cfg s \<longleftrightarrow> daemon_inv cfg (sm_daemon s) \<and> state_inv cfg (sm_daemon s) \<and> mailbox_inv cfg (lp_ring (sm_loop s))"

lemma set_daemon_inv:
  "system_inv cfg s \<Longrightarrow> daemon_inv cfg d \<Longrightarrow> state_inv cfg d \<Longrightarrow> system_inv cfg (set_daemon d s)"
  by (simp add: system_inv_def set_daemon_def)

lemma store_fits:
  assumes "mailbox_inv cfg (mx_ring m)"
  shows "mailbox_inv cfg (snd (store_result cfg n port frame len mac t m))"
proof (cases "fst (store_result cfg n port frame len mac t m)")
  case (Inl e)
  then have "snd (store_result cfg n port frame len mac t m) = mx_ring m"
    by (auto simp: store_result_def ptp_inject_received_frame_from_def Let_def split: option.splits if_splits)
  then show ?thesis using assms by simp
next
  case (Inr u)
  then have ok: "fst (store_result cfg n port frame len mac t m) = Inr ()" by simp
  have "34 \<le> len \<and> len \<le> 256" using ok
    by (auto simp: store_result_def ptp_inject_received_frame_from_def Let_def split: option.splits if_splits)
  then show ?thesis
    using store_accepted [OF ok] ring.push_content [of "mx_ring m"] assms
    by (auto simp: mailbox_inv_def injected_frame_def valid_port_def nat_less_iff)
qed

lemma outside_inv:
  assumes "delay_config cfg" "system_inv cfg s"
  shows "system_inv cfg (outside cfg e s)"
proof (cases e)
  case (Store n port frame len mac t)
  define m where "m = \<lparr>mx_daemon = sm_daemon s, mx_ring = lp_ring (sm_loop s), mx_read = sm_read s\<rparr>"
  have "mailbox_inv cfg (snd (store_result cfg n port frame len mac t m))"
    by (rule store_fits) (use assms(2) in \<open>simp add: m_def system_inv_def\<close>)
  then show ?thesis using assms(2)
    by (simp add: Store outside_def mailbox_step_def system_inv_def Let_def flip: m_def) (simp add: m_def)
qed (use assms handler_state handler_daemon in \<open>auto simp: outside_def mailbox_step_def system_inv_def Let_def\<close>)

lemma step_inv:
  assumes "delay_config cfg" "\<And>d. daemon_inv cfg d \<Longrightarrow> daemon_inv cfg (tick d)" "\<And>d. state_inv cfg d \<Longrightarrow> state_inv cfg (tick d)"
    and "system_inv cfg s"
  shows "\<exists>s' out. system_step cfg tick e s = Some (s', out) \<and> system_inv cfg s'"
proof -
  have i: "daemon_inv cfg (sm_daemon s)" "state_inv cfg (sm_daemon s)" "mailbox_inv cfg (lp_ring (sm_loop s))"
    using assms(4) by (simp_all add: system_inv_def)
  show ?thesis
  proof (cases e)
    case (Pass env)
    obtain lp out where p: "daemon_pass cfg tick env (sm_loop s) = Some (lp, out)" "daemon_inv cfg (lp_daemon lp)"
      using pass_inv [where tick = tick, OF assms(1,2) i(1)] by blast
    have "state_inv cfg (lp_daemon lp) \<and> mailbox_inv cfg (lp_ring lp)"
      by (rule pass_state [where tick = tick, OF assms(3) p(1) i(2,3)])
    then show ?thesis using p by (simp add: Pass system_step_def system_inv_def)
  next
    case (Outside m)
    then show ?thesis using outside_inv [OF assms(1,4)] by (simp add: system_step_def)
  next
    case (Set_Profile profile)
    then show ?thesis using set_profile_keeps [OF assms(1)] i set_daemon_inv [OF assms(4)] by (simp add: system_step_def)
  next
    case (Peer_Delay port ns)
    obtain r d where "ptpd_inject_peer_delay cfg (sm_daemon s) port ns = (Some r, d)" "daemon_inv cfg d" "state_inv cfg d"
      using peer_delay_keeps [OF assms(1) i(1)] i(2) by blast
    then show ?thesis using set_daemon_inv [OF assms(4)] by (simp add: Peer_Delay system_step_def)
  next
    case (Announce_Begin port mac a r info initial now)
    then show ?thesis
      using announce_keeps [OF radio_step.announce disjI1 [OF refl]] i set_daemon_inv [OF assms(4)] by (simp add: system_step_def)
  next
    case (Announce_Finish port mac a token ok now)
    then show ?thesis
      using announce_keeps [OF radio_step.finish disjI2 [OF refl]] i set_daemon_inv [OF assms(4)] by (simp add: system_step_def)
  qed
qed

text \<open>C1. The daemon runs on within its bounds.  Whatever frames arrive on whatever port and whatever
  the clocks, the network, the driver and the radio answer, in any interleaving of passes of the
  loop with link and association events, producers of the mailbox, Announce workers, profile
  changes and injected delays, no average is taken over zero samples, every step completes, and
  afterwards the daemon has all its ports, every averaged delay is within its limits, each
  registry has at most one slot per station and each associated slot an acceptable address and a
  nonzero association, the servo's rates are within 512 ppm and the index into its ring is in range,
  the stored path has at most sixteen clocks, and the mailbox holds at most eight frames, each of
  34 to 256 octets for an existing port.  The hook of the radio transport is assumed to keep
  that too.\<close>

theorem daemon_runs_on:
  assumes "delay_config cfg" "\<forall>d. daemon_inv cfg d \<longrightarrow> daemon_inv cfg (tick d)" "\<forall>d. state_inv cfg d \<longrightarrow> state_inv cfg (tick d)"
    and "system_inv cfg s"
  shows "\<exists>s' out. system_run cfg tick es s = Some (s', out) \<and> system_inv cfg s'"
  using assms(4)
proof (induction es arbitrary: s)
  case (Cons e es)
  obtain s1 o1 where s1: "system_step cfg tick e s = Some (s1, o1)" "system_inv cfg s1"
    using step_inv [where tick = tick, OF assms(1) _ _ Cons.prems] assms(2,3) by blast
  from Cons.IH [OF s1(2)] s1(1) show ?case by auto
qed simp

definition system_example :: daemon_system where
  "system_example = \<lparr>sm_loop = \<lparr>lp_daemon = measuring_example, lp_ring = injected_zero\<lparr>ij_enabled := True\<rparr>, lp_watchdog_us = 0\<rparr>,
     sm_read = (\<lambda>_. [])\<rparr>"

theorem daemon_runs_on_witness:
  "\<forall>es. \<exists>s' out. system_run config_default id es system_example = Some (s', out) \<and> system_inv config_default s'"
proof -
  have w: "delay_config config_default" "daemon_inv config_default measuring_example" "daemon_wf config_default measuring_example"
    "servo_range (dm_servo measuring_example)" "path_fits (dm_source measuring_example)"
    "ring_inv (injected_zero\<lparr>ij_enabled := True\<rparr>)" "ring_content (injected_zero\<lparr>ij_enabled := True\<rparr>) = []"
    by code_simp+
  have "wifi_peers_at measuring_example 0 = peers_zero" "wifi_peers_at measuring_example 1 = peers_zero" by code_simp+
  then have "peers_inv (wifi_peers_at measuring_example i)" if "i < cf_num_ports config_default" for i
    using that peers_inv_zero by (cases i) (simp_all add: config_default_def)
  then have "registries_ok config_default measuring_example" using w(3) by (simp add: registries_ok_def)
  then have "system_inv config_default system_example"
    using w by (simp add: system_inv_def state_inv_def mailbox_inv_def system_example_def)
  then show ?thesis using daemon_runs_on [where tick = id, OF w(1)] by simp
qed

end
