(* ===== verification/Spec2Isabelle.thy ===== *)
theory Spec2Isabelle
  imports Ptp_Signaling Ptp_Capable Ptp_Receipt Ptp_Announce_Schedule Ptp_Wifi_Peers
    Ptp_Wifi_Neighbor Ptp_Wire Ptp_Btca Ptp_Path_Trace Ptp_Clock Ptp_Peer_Exchange
    Ptp_Ftm Ptp_Peer_Rate Ptp_State Ptp_Timing Ptp_Inject Ptp_Profile Ptp_Link
    Ptp_Servo Ptp_Source Ptp_Net Ptp_Delay Ptp_Send Ptp_Periodic Ptp_Rx
    Ptp_Loop Ptp_Envelope Ptp_Beacon Ptp_Station Ptp_Radio Ptp_Radio_Association
    Ptp_Start Ptp_Status Ptp_Mailbox Ptp_Invariant
begin

text \<open>
  A verification development for esp\_ptp, the PTP and gPTP (IEEE 802.1AS) daemon for ESP32 targets.

  \<^bold>\<open>The program.\<close>  One daemon task (\<^verbatim>\<open>src/ptp.c\<close>) owns the state of one or two ports.  Each pass of
  its loop drains a mailbox of frames that radio callbacks injected, waits for a frame of the wired
  socket, processes it, supervises the selected time source and sends what is due.  The wired port
  measures the link by Pdelay exchanges; the servo steers a hardware clock or an affine software
  clock.  An access point broadcasts its time in an element of its beacons, which the coprocessor
  completes with the counter of the radio (\<^verbatim>\<open>src/ptp_beacon_ie.c\<close>), sends each associated station its
  own copies of Announce and capability messages from worker tasks, and keeps a registry of the
  stations that the coprocessor reports (\<^verbatim>\<open>src/ptp_radio_association.c\<close>).  A station reads the element,
  measures the distance by fine timing measurement and follows the access point (\<^verbatim>\<open>src/ptp_wifi.c\<close>).
  The headers \<^verbatim>\<open>src/ptp_*.h\<close> hold the state machines these parts share.

  \<^bold>\<open>The theories.\<close>
  \<^item> \<open>Ptp_Prelude\<close>: machine integers, octets, C division, counters that skip zero, and the interfaces
    \<open>freshness_window\<close> and \<open>token_schedule\<close>.
  \<^item> \<open>Ptp_Wire\<close> (\<^verbatim>\<open>ptp.h\<close>, \<^verbatim>\<open>ptp_message_bounds.h\<close>, \<^verbatim>\<open>ptp_gptp_wire.h\<close>): messages and their octets, lengths, time
    stamps, extension TLVs.  \<open>Ptp_Signaling\<close> (\<^verbatim>\<open>ptp_signaling.h\<close>): Signaling messages.  \<open>Ptp_Path_Trace\<close>
    (\<^verbatim>\<open>ptp_path_trace.h\<close>, \<^verbatim>\<open>ptp_status_path.h\<close>).  \<open>Ptp_Net\<close>: Ethernet frames of \<^verbatim>\<open>ptp.c\<close>.
  \<^item> \<open>Ptp_Capable\<close>, \<open>Ptp_Receipt\<close>, \<open>Ptp_Announce_Schedule\<close>, \<open>Ptp_Ftm\<close>, \<open>Ptp_Wifi_Peers\<close>, \<open>Ptp_Wifi_Neighbor\<close>,
    \<open>Ptp_Peer_Exchange\<close>, \<open>Ptp_Peer_Rate\<close>, \<open>Ptp_Clock\<close>: one theory for each group of the headers of these names;
    \<open>Ptp_Clock\<close> also has \<^verbatim>\<open>ptp_clock_sw.c\<close> and \<^verbatim>\<open>ptp_wired_pi.h\<close>.  \<open>Ptp_Btca\<close>: \<open>is_better_clock\<close>.
  \<^item> \<open>Ptp_State\<close>: \<^verbatim>\<open>struct ptp_state_s\<close> and the file-level variables of \<^verbatim>\<open>ptp.c\<close>, as the record \<open>ptp_daemon\<close>.  On it:
    \<open>Ptp_Timing\<close> (snapshots, the element of the beacons), \<open>Ptp_Inject\<close> (the mailbox), \<open>Ptp_Profile\<close>, \<open>Ptp_Link\<close>
    (events of the links and associations), \<open>Ptp_Servo\<close>, \<open>Ptp_Source\<close> (Announce, Sync, Follow\_Up), \<open>Ptp_Delay\<close>,
    \<open>Ptp_Send\<close>, \<open>Ptp_Periodic\<close>, \<open>Ptp_Rx\<close>, \<open>Ptp_Loop\<close>, \<open>Ptp_Start\<close> (start-up and clean-up) and \<open>Ptp_Status\<close>.
  \<^item> \<open>Ptp_Envelope\<close> (the offset filter of a station), \<open>Ptp_Beacon\<close> (publisher and reader of the element),
    \<open>Ptp_Station\<close> (the other operations of a station), \<open>Ptp_Radio\<close> (the workers of the radio and the interval
    probe), \<open>Ptp_Radio_Association\<close> (the reports of the coprocessor).
  \<^item> \<open>Ptp_Mailbox\<close>: the critical sections of the producers of the mailbox, the handlers of links,
    associations and profile and the drain, as events of one state in any order.  \<open>Ptp_Invariant\<close>: the
    passes of the loop in between these events and the other entry points of \<^verbatim>\<open>ptp.c\<close>, and what holds
    of the whole at all times.
  \<^item> This theory: the composition of a bridge with a station.

  \<^bold>\<open>The correspondence.\<close>  A C structure is a record, an enumeration a datatype, a function a function of
  the same name that takes the state and returns it changed.  Unsigned integers are words and wrap;
  signed integers are \<^typ>\<open>int\<close>.  A result of the daemon that is \<open>None\<close> stands for a division by a count of
  samples that is zero, so that theorems of the form "the result is \<open>Some\<close>" say that no average is
  taken over nothing, and no more.  Other operations that C leaves undefined are not \<open>None\<close>: the
  conversion of 2 to the 127 thousand to an unsigned integer, which the answer to every Pdelay\_Req of gPTP makes
  (\<^verbatim>\<open>log_period_to_msec\<close> of \<^verbatim>\<open>ptp.c\<close>), yields an arbitrary argument (\<open>conv\<close>, \<open>rv_conv\<close>), and the differences and
  nanoseconds of time stamps are exact where the code's 64 bits could overflow (\<open>timespec_to_ns_fits\<close>,
  \<open>timespec_to_ns_overflows\<close>).  The double in which the code keeps the correction of a Follow\_Up holds whole
  numbers and is an \<^typ>\<open>int\<close>; doubles of the peer rate are rationals rounded to binary64.  Parts of a
  long C function are definitions of their own, with the lines they translate.  What the operating
  system, a driver or a hook answers, and what other tasks do while an operation waits, is an
  argument: an environment record, or a function on the daemon's state.  The coprocessor, which is
  not in the repository, patches the counter of the radio into the element as the comments of
  \<^verbatim>\<open>ptp_beacon_ie.c\<close> and \<^verbatim>\<open>ptp_wifi.c\<close> say (\<open>patch_tsf\<close>).  Hooks that other components provide (the FTM transport) and the
  constants of \<^verbatim>\<open>hosted_avb_proto.h\<close>, which are not in the repository, are parameters.

  \<^bold>\<open>What is shown.\<close>
  \<^item> The daemon runs on within its bounds: its averages are well defined from the start-up on
    (\<open>bootstrap_establishes\<close>); any interleaving of passes of the loop with the events of other tasks keeps averages,
    registries, rates, path and mailbox within their limits (\<open>daemon_runs_on\<close>); reception reads nothing
    outside the message (\<open>rx_reads_within_message\<close>); every event of a station keeps its invariant
    (\<open>station_handles_events\<close>); and the registries refine a map (\<open>peers_refine_map\<close>, \<open>reconcile_exact\<close>, \<open>report_makes_registry\<close>).
  \<^item> Time is right: the exchange of delays (\<open>measurement_sound\<close>, \<open>pdelay_round_trip\<close>, \<open>peer_delay_accurate\<close>), Sync and
    Follow\_Up (\<open>sync_pair_completes\<close>, \<open>followup_once\<close>), selection (\<open>announce_selects_best\<close>, \<open>better_clock_order\<close>), the servo
    (\<open>update_local_clock_spec\<close>, \<open>servo_trim_bounded\<close>, \<open>sw_clock_never_backwards\<close>), and the way through a beacon
    (\<open>beacon_time_crosses\<close>, \<open>station_follows_bridge\<close>, \<open>envelope_bounded\<close>, \<open>locked_means_recent\<close>).
  \<^item> Nothing stale or foreign counts: \<open>frame_never_crosses_link_change\<close>, \<open>unassociated_ignored\<close>,
    \<open>radio_port_isolated\<close>, \<open>silent_source_dropped\<close>, \<open>capability_from_measurement\<close>, \<open>announce_copies\<close>,
    \<open>capable_results_in_order\<close>, \<open>foreign_reports_ignored\<close>.
  \<^item> Where the code departs from what it means to do, a theorem shows it: \<open>explicit_standard_lost\<close>,
    \<open>beacon_orphans_delay_resp\<close>, \<open>request_reaches_wired_port\<close>, \<open>pdelay_resp_interval_sentinel\<close>,
    \<open>bootstrap_forgets_publisher\<close>, \<open>exit_keeps_wifi_handler\<close>, \<open>attach_without_task\<close>, \<open>attach_without_refresh\<close>,
    \<open>failed_report_does_not_wake\<close>, \<open>one_request_at_a_time\<close>.

  \<^bold>\<open>Interfaces.\<close>  \<open>freshness_window\<close> is interpreted by the capability, Sync, peer, beacon and snapshot windows,
  \<open>token_schedule\<close> by the two transmission schedules, \<open>bounded_fifo\<close> by the mailbox and the queues of the radio,
  \<open>mac_registry\<close> by the association registry, \<open>clock_preference\<close> by the comparison of Announce messages, and
  \<open>steerable_clock\<close> by the affine clock.

  \<^bold>\<open>Bounds.\<close>  The loops of the code are structural recursions (over ports, slots, octets, queued frames or
  the list of answers) or end by a measure; nothing uses fuel.  The endless loops of the tasks are
  lists of passes or events of any length; \<^verbatim>\<open>ptpd_stop\<close>, which only sets a flag, is the end of the list.

  \<^bold>\<open>Not modelled.\<close>  Logging and its counters; trace builds; the name of the interface, which is only handed to the
  operating system, and the host interface and nominal link speed, which nothing reads; the inside of the operating system
  (sockets, descriptors, semaphores, timers, tasks), of the Wi-Fi and Ethernet drivers and of the
  coprocessor; \<^verbatim>\<open>ptp_adjtime\<close> and the alternative body of \<^verbatim>\<open>ptpd_status\<close>, which are never called or compiled;
  preemption inside a critical section; in \<open>Ptp_Mailbox\<close> and \<open>Ptp_Invariant\<close> the handler of an event and a pass
  of the loop are one event each; overflow of the 64-bit arithmetic on time stamps.
\<close>

section \<open>From the clock of a bridge to the clock of a station\<close>

text \<open>What a bridge publishes: its state and clock when it marshals the Follow\_Up, the counter of
  the radio when the element goes out, and what the station sees around its reception.\<close>

record publication =
  pb_state :: ptp_state
  pb_ts :: timespec
  pb_tsf_us :: int
  pb_env :: beacon_env

definition published :: "bytes \<Rightarrow> publication \<Rightarrow> bool" where
  "published gm b \<longleftrightarrow>
     (let state = pb_state b; ts = pb_ts b in
      ptp_is_gptp state \<and> header_wf (an_header (st_own_identity state)) \<and> gm_wf (st_gm state) \<and>
      hd_correction (an_header (st_own_identity state)) = replicate 8 0 \<and> fst (ptp_fill_gm_fields state) = gm \<and>
      0 \<le> tv_sec ts \<and> tv_sec ts < 2 ^ 32 \<and> stamp_ok ts \<and> 0 \<le> pb_tsf_us b \<and> pb_tsf_us b < 2 ^ 63)"

definition beacon_of :: "ptp_config \<Rightarrow> vendor_proto \<Rightarrow> int \<Rightarrow> publication \<Rightarrow> vendor_ie" where
  "beacon_of cfg pr port b =
     vendor_ie_of (patch_tsf (rev (octets 8 (pb_tsf_us b)))
       (beacon_time_element pr (fst (ptp_marshal_follow_up_for_beacon_ie cfg (pb_state b) (pb_ts b) port))))"

definition raw_offset :: "beacon_markers \<Rightarrow> publication \<Rightarrow> int" where
  "raw_offset m b = timespec_to_ns (pb_ts b) - pb_tsf_us b * 1000 + bk_peer_delay_ns m"

fun station_receives ::
  "ptp_config \<Rightarrow> ptp_config \<Rightarrow> vendor_proto \<Rightarrow> int \<Rightarrow> int \<Rightarrow> publication list \<Rightarrow> beacon_markers \<times> sta_status \<times> ptp_daemon \<Rightarrow>
     beacon_markers \<times> sta_status \<times> ptp_daemon" where
  "station_receives bridge cfg pr port port_index [] z = z"
| "station_receives bridge cfg pr port port_index (b # bs) z =
     station_receives bridge cfg pr port port_index bs
       (on_vendor_ie cfg pr False port_index True (beacon_of bridge pr port b) (pb_env b) z)"

lemma beacon_of_payload:
  assumes "proto_ok pr" "published gm b"
  obtains payload where "beacon_payload pr (beacon_of cfg pr port b) = Some payload"
    "gptp_marker payload = timespec_to_ns (pb_ts b)" "tsf_marker pr payload = pb_tsf_us b"
    "slice 34 10 payload = timespec_to_ptp_format (cf_time64 cfg) (pb_ts b)" "slice 58 18 payload = gm"
proof -
  define fu where "fu = fst (ptp_marshal_follow_up_for_beacon_ie cfg (pb_state b) (pb_ts b) port)"
  have p: "ptp_is_gptp (pb_state b)" "header_wf (an_header (st_own_identity (pb_state b)))" "gm_wf (st_gm (pb_state b))"
    "hd_correction (an_header (st_own_identity (pb_state b))) = replicate 8 0" "fst (ptp_fill_gm_fields (pb_state b)) = gm"
    "0 \<le> tv_sec (pb_ts b)" "tv_sec (pb_ts b) < 2 ^ 32" "stamp_ok (pb_ts b)" "0 \<le> pb_tsf_us b" "pb_tsf_us b < 2 ^ 63"
    using assms(2) by (simp_all add: published_def Let_def)
  have fu: "ptp_marshal_follow_up_for_beacon_ie cfg (pb_state b) (pb_ts b) port =
      (fu, snd (ptp_marshal_follow_up_for_beacon_ie cfg (pb_state b) (pb_ts b) port))" by (simp add: fu_def)
  obtain payload where l: "beacon_payload pr (beacon_of cfg pr port b) = Some payload"
    "gptp_marker payload = timespec_to_ns (pb_ts b)" "tsf_marker pr payload = pb_tsf_us b"
    "\<forall>off n. off + n \<le> 76 \<longrightarrow> slice off n payload = slice off n fu"
    by (rule published_payload [OF p(1-4) fu p(6-8) assms(1) p(9,10)]) (simp add: beacon_of_def fu_def)
  have "slice 34 10 payload = timespec_to_ptp_format (cf_time64 cfg) (pb_ts b)" "slice 58 18 payload = gm"
    using l(4) [rule_format, of 34 10] l(4) [rule_format, of 58 18] marshal_fields [OF p(1-3) fu] p(5) by simp_all
  then show ?thesis using l(1-3) by (intro that)
qed

text \<open>The time base and its phase change among the octets of the element.\<close>

definition base_of :: "bytes \<Rightarrow> u16" where
  "base_of gm = word_of_nat (be16 (gm ! 0) (gm ! 1))"

lemma gm_octets:
  assumes "slice 58 18 payload = gm" "length gm = 18"
  shows "word_of_nat (be16 (payload ! 58) (payload ! 59)) = base_of gm" "slice 60 12 payload = slice 2 12 gm"
proof -
  have "length payload \<ge> 76" using arg_cong [OF assms(1), of length] assms(2) by (auto simp: slice_def)
  then show "word_of_nat (be16 (payload ! 58) (payload ! 59)) = base_of gm" "slice 60 12 payload = slice 2 12 gm"
    unfolding assms(1) [symmetric] by (simp_all add: slice_def base_of_def drop_take)
qed

text \<open>The servo, the selected source, the published timing and the clocks.\<close>

definition steering :: "ptp_daemon \<Rightarrow> ptp_servo \<times> ptp_source \<times> ptp_gm_base \<times> ptp_timing_snapshot \<times> sw_clock \<times> clock_action list" where
  "steering d = (dm_servo d, dm_source d, dm_gm d, dm_timing d, dm_sw_clock d, dm_hw_clock d)"

lemma steering_receipt:
  "steering (ptpd_set_sync_receipt_window cfg d port_index w) = steering d"
  "steering (snd (ptpd_ftm_source_observed cfg d port_index sp domain interval received_us now_us ts)) = steering d"
  by (simp_all add: steering_def ptpd_set_sync_receipt_window_def ptpd_ftm_source_observed_def Let_def split_beta map_port_def split: option.split)

text \<open>A fresh element reaches the offset filter with the time and the counter of the bridge.\<close>

lemma fresh_element:
  assumes "proto_ok pr" "published gm b" "timespec_to_ptp_format (cf_time64 bridge) (pb_ts b) \<noteq> bk_last_origin_ts m"
  obtains m1 x1 d1 payload where "on_vendor_ie cfg pr False port_index True (beacon_of bridge pr port b) (pb_env b) (m, x, d) =
      discipline_to_beacon cfg port_index (pb_env b) payload (m1, x1, d1)"
    "bk_envelope m1 = bk_envelope m" "bk_gptp_marker_ns m1 - bk_tsf_marker_us m1 * 1000 + bk_peer_delay_ns m1 = raw_offset m b"
    "bk_peer_delay_ns m1 = bk_peer_delay_ns m" "bk_last_origin_ts m1 = timespec_to_ptp_format (cf_time64 bridge) (pb_ts b)"
    "steering d1 = steering d" "word_of_nat (be16 (payload ! 58) (payload ! 59)) = base_of gm" "slice 60 12 payload = slice 2 12 gm"
proof -
  obtain payload where p: "beacon_payload pr (beacon_of bridge pr port b) = Some payload"
    "gptp_marker payload = timespec_to_ns (pb_ts b)" "tsf_marker pr payload = pb_tsf_us b"
    "slice 34 10 payload = timespec_to_ptp_format (cf_time64 bridge) (pb_ts b)" "slice 58 18 payload = gm"
    by (rule beacon_of_payload [OF assms(1,2)])
  let ?h = "header_of payload" and ?env = "pb_env b"
  let ?id = "hd_sourceidentity ?h @ hd_sourceportindex ?h"
  define m1 where "m1 = (note_markers pr payload (bv_received_us ?env) m)\<lparr>bk_last_origin_ts := slice 34 10 payload\<rparr>"
  obtain m2 x2 d2 where t: "element_timing cfg port_index ?env (m1, x\<lparr>xs_beacon_port_identity := ?id\<rparr>, d) = (m2, x2, d2)"
    by (rule prod_cases3)
  obtain r d3 where o: "ptpd_ftm_source_observed cfg d2 port_index (Some ?id) (hd_domain ?h) (sint (hd_logmessageinterval ?h))
      (bv_element_us ?env) (bv_observed_us ?env) (bv_observed_ts ?env) = (r, d3)" by (rule prod.exhaust)
  have m2: "bk_envelope m2 = bk_envelope m" "bk_gptp_marker_ns m2 = timespec_to_ns (pb_ts b)" "bk_tsf_marker_us m2 = pb_tsf_us b"
    "bk_peer_delay_ns m2 = bk_peer_delay_ns m" "bk_last_origin_ts m2 = slice 34 10 payload" "steering d2 = steering d"
    using t p(2,3) by (auto simp: element_timing_def m1_def note_markers_def Let_def steering_receipt split: option.splits)
  moreover have "steering d3 = steering d" using steering_receipt(2) [of cfg d2] o m2(6) by (metis snd_conv)
  moreover have "on_vendor_ie cfg pr False port_index True (beacon_of bridge pr port b) ?env (m, x, d) =
      discipline_to_beacon cfg port_index ?env payload (m2, x2, d3)"
    using p(1,4) assms(3) t o by (simp add: on_vendor_ie_def m1_def Let_def note_markers_def)
  moreover have "length gm = 18" using assms(2) fill_gm_fields_length by (auto simp: published_def Let_def)
  note g = gm_octets [OF p(5) this]
  ultimately show ?thesis using that g p(4) by (auto simp: raw_offset_def)
qed

text \<open>While the station acquires, the element leaves the daemon's clock alone.\<close>

lemma acquiring_element:
  assumes "proto_ok pr" "published gm b" "timespec_to_ptp_format (cf_time64 bridge) (pb_ts b) \<noteq> bk_last_origin_ts m"
    and "ev_acq (bk_envelope m) < 16" "ev_time_base (bk_envelope m) = None \<or> ev_time_base (bk_envelope m) = Some (base_of gm)"
  obtains m' x' d' where "on_vendor_ie cfg pr False port_index True (beacon_of bridge pr port b) (pb_env b) (m, x, d) = (m', x', d')"
    "bk_envelope m' = snd (snd (envelope_sample (raw_offset m b) (bv_sta_tsf_us (pb_env b)) (base_of gm) (slice 2 12 gm) (bk_envelope m)))"
    "bk_peer_delay_ns m' = bk_peer_delay_ns m" "bk_last_origin_ts m' = timespec_to_ptp_format (cf_time64 bridge) (pb_ts b)"
    "steering d' = steering d"
proof -
  obtain m1 x1 d1 payload where f: "on_vendor_ie cfg pr False port_index True (beacon_of bridge pr port b) (pb_env b) (m, x, d) =
      discipline_to_beacon cfg port_index (pb_env b) payload (m1, x1, d1)"
    "bk_envelope m1 = bk_envelope m" "bk_gptp_marker_ns m1 - bk_tsf_marker_us m1 * 1000 + bk_peer_delay_ns m1 = raw_offset m b"
    "bk_peer_delay_ns m1 = bk_peer_delay_ns m" "bk_last_origin_ts m1 = timespec_to_ptp_format (cf_time64 bridge) (pb_ts b)"
    "steering d1 = steering d" "word_of_nat (be16 (payload ! 58) (payload ! 59)) = base_of gm" "slice 60 12 payload = slice 2 12 gm"
    by (rule fresh_element [OF assms(1-3)])
  obtain x' where g: "discipline_to_beacon cfg port_index (pb_env b) payload (m1, x1, d1) =
      (m1\<lparr>bk_envelope := snd (snd (envelope_sample (raw_offset m b) (bv_sta_tsf_us (pb_env b)) (base_of gm) (slice 2 12 gm) (bk_envelope m)))\<rparr>, x', d1)"
    using sample_acquiring [OF assms(4,5)] by (simp add: discipline_to_beacon_def split_beta f(2,3,7,8) Let_def)
  show ?thesis by (rule that [OF trans [OF f(1) g]]) (simp_all add: f(4-6))
qed

lemma acquiring_sample:
  fixes e :: envelope and raw tsf :: int and base :: u16 and ph :: bytes
  assumes "ev_acq e < 16" "ev_time_base e = None \<or> ev_time_base e = Some base"
  defines "e' \<equiv> snd (snd (envelope_sample raw tsf base ph e))"
  shows "ev_acq e' = ev_acq e + 1" "ev_time_base e' = Some base" "ev_slope_ppb e' = 0"
    "ev_off_filt e' = (if ev_acq e = 0 then raw else max (ev_off_filt e) raw)"
  using sample_acquiring [OF assms(1,2)] by (simp_all add: e'_def max_def)

text \<open>The origins of the elements as they stand on the air.\<close>

definition origins :: "ptp_config \<Rightarrow> publication list \<Rightarrow> bytes list" where
  "origins bridge bs = map (\<lambda>b. timespec_to_ptp_format (cf_time64 bridge) (pb_ts b)) bs"

lemma station_acquires:
  assumes "proto_ok pr" "\<forall>b \<in> set bs. published gm b"
    and "ev_acq (bk_envelope m) + length bs \<le> 16"
    and "ev_time_base (bk_envelope m) = None \<or> ev_time_base (bk_envelope m) = Some (base_of gm)"
    and "distinct (origins bridge bs)" "bk_last_origin_ts m \<notin> set (origins bridge bs)"
    and "station_receives bridge cfg pr port port_index bs (m, x, d) = (m', x', d')"
  shows "ev_acq (bk_envelope m') = ev_acq (bk_envelope m) + length bs \<and> steering d' = steering d \<and>
    bk_peer_delay_ns m' = bk_peer_delay_ns m \<and> bk_last_origin_ts m' = (if bs = [] then bk_last_origin_ts m else last (origins bridge bs)) \<and>
    (bs \<noteq> [] \<longrightarrow> ev_time_base (bk_envelope m') = Some (base_of gm) \<and> ev_slope_ppb (bk_envelope m') = 0) \<and>
    (bs \<noteq> [] \<longrightarrow> ev_off_filt (bk_envelope m') =
       Max ((if ev_acq (bk_envelope m) = 0 then {} else {ev_off_filt (bk_envelope m)}) \<union> raw_offset m ` set bs))"
  using assms(2-7)
proof (induction bs arbitrary: m x d)
  case (Cons b bs)
  have a: "ev_acq (bk_envelope m) < 16" "published gm b" "timespec_to_ptp_format (cf_time64 bridge) (pb_ts b) \<noteq> bk_last_origin_ts m"
    using Cons.prems by (auto simp: origins_def)
  obtain m1 x1 d1 where s: "on_vendor_ie cfg pr False port_index True (beacon_of bridge pr port b) (pb_env b) (m, x, d) = (m1, x1, d1)"
    "bk_envelope m1 = snd (snd (envelope_sample (raw_offset m b) (bv_sta_tsf_us (pb_env b)) (base_of gm) (slice 2 12 gm) (bk_envelope m)))"
    "bk_peer_delay_ns m1 = bk_peer_delay_ns m" "bk_last_origin_ts m1 = timespec_to_ptp_format (cf_time64 bridge) (pb_ts b)" "steering d1 = steering d"
    by (rule acquiring_element [OF assms(1) a(2,3,1) Cons.prems(3)])
  note e = acquiring_sample [OF a(1) Cons.prems(3), of "raw_offset m b" "bv_sta_tsf_us (pb_env b)" "slice 2 12 gm", folded s(2)]
  have r: "raw_offset m1 = raw_offset m" by (simp add: raw_offset_def s(3) fun_eq_iff)
  have "station_receives bridge cfg pr port port_index bs (m1, x1, d1) = (m', x', d')" using Cons.prems(6) s(1) by simp
  note ih = Cons.IH [OF _ _ _ _ _ this]
  have "ev_acq (bk_envelope m') = ev_acq (bk_envelope m1) + length bs \<and> steering d' = steering d1 \<and>
    bk_peer_delay_ns m' = bk_peer_delay_ns m1 \<and> bk_last_origin_ts m' = (if bs = [] then bk_last_origin_ts m1 else last (origins bridge bs)) \<and>
    (bs \<noteq> [] \<longrightarrow> ev_time_base (bk_envelope m') = Some (base_of gm) \<and> ev_slope_ppb (bk_envelope m') = 0) \<and>
    (bs \<noteq> [] \<longrightarrow> ev_off_filt (bk_envelope m') =
       Max ((if ev_acq (bk_envelope m1) = 0 then {} else {ev_off_filt (bk_envelope m1)}) \<union> raw_offset m1 ` set bs))"
    using Cons.prems e s(4) by (intro ih) (auto simp: origins_def)
  moreover have "m' = m1" if "bs = []" using that Cons.prems(6) s(1) by simp
  ultimately show ?case using e s(3-5) r by (cases "bs = []") (auto simp: max.assoc max.left_commute origins_def)
qed simp

text \<open>The first element after the acquisition: the slope is still zero, so the sample alone moves the
  offset, and the daemon is given the bridge's time by it.\<close>

lemma first_tracked_element:
  assumes "proto_ok pr" "published gm b" "timespec_to_ptp_format (cf_time64 bridge) (pb_ts b) \<noteq> bk_last_origin_ts m"
    and "ev_acq (bk_envelope m) = 16" "ev_time_base (bk_envelope m) = Some (base_of gm)" "ev_slope_ppb (bk_envelope m) = 0"
    and "on_vendor_ie cfg pr False port_index True (beacon_of bridge pr port b) (pb_env b) (m, x, d) = (m', x', d')"
  shows "min (ev_off_filt (bk_envelope m)) (raw_offset m b) \<le> ev_off_filt (bk_envelope m') \<and>
    ev_off_filt (bk_envelope m') \<le> max (ev_off_filt (bk_envelope m)) (raw_offset m b) \<and>
    (\<exists>e. steering e = steering d \<and> d' = snd (ptpd_inject_sync_pair cfg e port_index
       (ev_off_filt (bk_envelope m') + bv_sta_tsf_us (pb_env b) * 1000) (timespec_to_ns (bv_now (pb_env b))) (bv_clock (pb_env b)) (bv_inject_ts (pb_env b))))"
proof -
  obtain m1 x1 d1 payload where f: "on_vendor_ie cfg pr False port_index True (beacon_of bridge pr port b) (pb_env b) (m, x, d) =
      discipline_to_beacon cfg port_index (pb_env b) payload (m1, x1, d1)"
    "bk_envelope m1 = bk_envelope m" "bk_gptp_marker_ns m1 - bk_tsf_marker_us m1 * 1000 + bk_peer_delay_ns m1 = raw_offset m b"
    "bk_peer_delay_ns m1 = bk_peer_delay_ns m" "bk_last_origin_ts m1 = timespec_to_ptp_format (cf_time64 bridge) (pb_ts b)"
    "steering d1 = steering d" "word_of_nat (be16 (payload ! 58) (payload ! 59)) = base_of gm" "slice 60 12 payload = slice 2 12 gm"
    by (rule fresh_element [OF assms(1-3)])
  let ?tsf = "bv_sta_tsf_us (pb_env b)"
  define e where "e = (bk_envelope m)\<lparr>ev_last_tsf_us := ?tsf\<rparr>"
  have s: "envelope_sample (raw_offset m b) ?tsf (base_of gm) (slice 2 12 gm) (bk_envelope m) = (False, True, envelope_track (raw_offset m b) ?tsf e)"
    using assms(4-6) by (simp add: envelope_sample_def envelope_base_same envelope_drift_def e_def ACQ_SAMPLES_def)
  have "bk_envelope m' = envelope_track (raw_offset m b) ?tsf e \<and> d' = snd (ptpd_inject_sync_pair cfg d1 port_index
       (ev_off_filt (envelope_track (raw_offset m b) ?tsf e) + ?tsf * 1000) (timespec_to_ns (bv_now (pb_env b))) (bv_clock (pb_env b)) (bv_inject_ts (pb_env b)))"
    using assms(7) unfolding f(1) by (auto simp: discipline_to_beacon_def f(2,3,7,8) s timespec_to_ns_def split_beta Let_def)
  then show ?thesis using tracking_contracts [of e "raw_offset m b" ?tsf] f(6) by (auto simp: e_def)
qed

lemma origins_distinct:
  assumes "\<forall>b \<in> set bs. published gm b" "distinct (map pb_ts bs)"
  shows "distinct (origins bridge bs)"
proof -
  have "ptp_format_to_timespec (timespec_to_ptp_format (cf_time64 bridge) (pb_ts b)) = pb_ts b" if "b \<in> set bs" for b
  proof -
    have "0 \<le> tv_sec (pb_ts b)" "tv_sec (pb_ts b) < 2 ^ 32" "stamp_ok (pb_ts b)"
      using assms(1) that by (simp_all add: published_def Let_def)
    then show ?thesis by (intro ptp_format_back) (auto simp: stamp_ok_def)
  qed
  then have "map pb_ts bs = map ptp_format_to_timespec (origins bridge bs)" by (simp add: origins_def)
  then show ?thesis using assms(2) by (metis distinct_map)
qed

text \<open>C6. From the clock of the bridge to the clock of the station.  A station hears seventeen fresh
  elements of a bridge, each published late: with the counter of the radio, its time lies below the
  bridge's true time by a gap.  The first sixteen leave the clock, the servo and the source of the
  station's daemon alone, and give an offset that is the true one less the smallest gap; with the
  seventeenth the daemon is given the time of the bridge for the present counter, never ahead of
  the true time, and behind it by no more than the smallest gap or the gap of this element.\<close>

theorem station_follows_bridge:
  assumes "proto_ok pr" "\<forall>c \<in> set (bs @ [b]). published gm c" "length bs = 16" "distinct (map pb_ts (bs @ [b]))"
    and "ev_acq (bk_envelope m) = 0" "ev_time_base (bk_envelope m) = None \<or> ev_time_base (bk_envelope m) = Some (base_of gm)"
    and "bk_last_origin_ts m \<notin> set (origins bridge bs)" "\<forall>c \<in> set (bs @ [b]). raw_offset m c \<le> true_offset"
    and "station_receives bridge cfg pr port port_index bs (m, x, d) = (m1, x1, d1)"
    and "station_receives bridge cfg pr port port_index (bs @ [b]) (m, x, d) = (m2, x2, d2)"
  shows "let gap = (\<lambda>c. true_offset - raw_offset m c); smallest = Min (gap ` set bs) in
    steering d1 = steering d \<and> ev_off_filt (bk_envelope m1) = true_offset - smallest \<and>
    (\<exists>e remote_ns. steering e = steering d \<and>
       d2 = snd (ptpd_inject_sync_pair cfg e port_index remote_ns (timespec_to_ns (bv_now (pb_env b))) (bv_clock (pb_env b)) (bv_inject_ts (pb_env b))) \<and>
       remote_ns \<le> true_offset + bv_sta_tsf_us (pb_env b) * 1000 \<and>
       true_offset + bv_sta_tsf_us (pb_env b) * 1000 - max smallest (gap b) \<le> remote_ns)"
proof -
  define gap where "gap = (\<lambda>c. true_offset - raw_offset m c)"
  have o: "distinct (origins bridge (bs @ [b]))" by (rule origins_distinct [OF assms(2,4)])
  have ne: "bs \<noteq> []" using assms(3) by auto
  have a: "ev_acq (bk_envelope m1) = 16 \<and> steering d1 = steering d \<and> bk_peer_delay_ns m1 = bk_peer_delay_ns m \<and>
      bk_last_origin_ts m1 = last (origins bridge bs) \<and> ev_time_base (bk_envelope m1) = Some (base_of gm) \<and>
      ev_slope_ppb (bk_envelope m1) = 0 \<and> ev_off_filt (bk_envelope m1) = Max (raw_offset m ` set bs)"
    using station_acquires [OF assms(1) _ _ assms(6) _ assms(7,9)] assms(2,3,5) ne o by (simp add: origins_def)
  have "Max (raw_offset m ` set bs) = true_offset - Min (gap ` set bs)"
  proof -
    have "raw_offset m ` set bs = (\<lambda>g. true_offset - g) ` gap ` set bs" by (simp add: gap_def image_image)
    moreover have "Max ((\<lambda>g. true_offset - g) ` G) = true_offset - Min G" if "finite G" "G \<noteq> {}" for G
      using that by (intro Max_eqI rev_image_eqI [OF Min_in]) auto
    ultimately show ?thesis using ne by simp
  qed
  note off = this
  have z: "on_vendor_ie cfg pr False port_index True (beacon_of bridge pr port b) (pb_env b) (m1, x1, d1) = (m2, x2, d2)"
  proof -
    have "station_receives bridge cfg pr port port_index (us @ vs) y =
        station_receives bridge cfg pr port port_index vs (station_receives bridge cfg pr port port_index us y)" for us vs y
      by (induction us arbitrary: y) simp_all
    then show ?thesis using assms(9,10) by simp
  qed
  have "timespec_to_ptp_format (cf_time64 bridge) (pb_ts b) \<noteq> last (origins bridge bs)"
    using o ne by (auto simp: origins_def last_map)
  then have t: "min (ev_off_filt (bk_envelope m1)) (raw_offset m1 b) \<le> ev_off_filt (bk_envelope m2) \<and>
    ev_off_filt (bk_envelope m2) \<le> max (ev_off_filt (bk_envelope m1)) (raw_offset m1 b) \<and>
    (\<exists>e. steering e = steering d1 \<and> d2 = snd (ptpd_inject_sync_pair cfg e port_index
       (ev_off_filt (bk_envelope m2) + bv_sta_tsf_us (pb_env b) * 1000) (timespec_to_ns (bv_now (pb_env b))) (bv_clock (pb_env b)) (bv_inject_ts (pb_env b))))"
    using a assms(2) by (intro first_tracked_element [OF assms(1) _ _ _ _ _ z]) auto
  have r: "raw_offset m1 b = true_offset - gap b" using a by (simp add: raw_offset_def gap_def)
  have "0 \<le> gap b" "0 \<le> Min (gap ` set bs)" using assms(8) ne by (auto simp: gap_def)
  then show ?thesis using a off t r unfolding Let_def gap_def [symmetric] by fastforce
qed

definition publication_example :: "nat \<Rightarrow> publication" where
  "publication_example k =
     \<lparr>pb_state = (state_zero 1)\<lparr>st_active_ptp_profile := ptp_profile_gptp\<rparr>, pb_ts = \<lparr>tv_sec = int k, tv_nsec = 500\<rparr>,
      pb_tsf_us = 1000000 * int k + 7 + int k,
      pb_env = \<lparr>bv_received_us = 0, bv_element_us = 0, bv_observed_us = 0, bv_observed_ts = timespec_zero,
        bv_sta_tsf_us = 1000000 * int k + 20 + int k, bv_now = timespec_zero,
        bv_clock = \<lparr>ce_hw_time = None, ce_local_ns = 0, ce_settime_ok = True, ce_adjtime_ok = True, ce_unset = timespec_zero\<rparr>,
        bv_inject_ts = timespec_zero, bv_applied_us = 0\<rparr>\<rparr>"

text \<open>Elements of the seconds 1 to 17, each a microsecond later on the air than the one before: the
  first has the smallest gap.\<close>

theorem station_follows_bridge_witness:
  "\<exists>m1 x1 d1. station_receives config_default config_default proto_example 1 0 (map publication_example [1..<17])
      (markers_zero, status_zero, daemon_zero 1) = (m1, x1, d1) \<and>
    steering d1 = steering (daemon_zero 1) \<and> ev_off_filt (bk_envelope m1) = - 7500"
proof -
  define bs where "bs = map publication_example [1..<17]"
  obtain m1 x1 d1 where r1: "station_receives config_default config_default proto_example 1 0 bs (markers_zero, status_zero, daemon_zero 1) = (m1, x1, d1)"
    by (rule prod_cases3)
  obtain m2 x2 d2 where r2: "station_receives config_default config_default proto_example 1 0 (bs @ [publication_example 17])
      (markers_zero, status_zero, daemon_zero 1) = (m2, x2, d2)"
    by (rule prod_cases3)
  have h: "proto_ok proto_example" "\<forall>c \<in> set (bs @ [publication_example 17]). published ([0, 1] @ replicate 16 0) c" "length bs = 16"
    "distinct (map pb_ts (bs @ [publication_example 17]))" "ev_acq (bk_envelope markers_zero) = 0"
    "ev_time_base (bk_envelope markers_zero) = None" "bk_last_origin_ts markers_zero \<notin> set (origins config_default bs)"
    "\<forall>c \<in> set (bs @ [publication_example 17]). raw_offset markers_zero c \<le> 0"
    unfolding bs_def by code_simp+
  have "Min ((\<lambda>c. 0 - raw_offset markers_zero c) ` set bs) = 7500" unfolding bs_def by code_simp
  then show ?thesis
    using station_follows_bridge [OF h(1-5) disjI1 [OF h(6)] h(7,8) r1 r2] r1 unfolding bs_def [symmetric] by (simp add: Let_def)
qed

end
